(* ===== verification/Prelude.thy ===== *)
theory Prelude
  imports Main "HOL-Library.AList"
begin

text \<open>
  Shared vocabulary of the development.

  Rust's \<open>String\<close>/\<open>&str\<close> is a vector of UTF-8 bytes; an Isabelle \<^typ>\<open>char\<close> is exactly one
  byte, so a Rust string is a \<^typ>\<open>string\<close> of its bytes (\<open>len\<close> is \<^const>\<open>length\<close>, byte slices
  are \<open>take\<close>/\<open>drop\<close>).  A Rust function that may fail to return a value is given a result of type
  \<open>outcome\<close>: \<open>Ok\<close> for a returned value, \<open>Panic\<close> for a run-time panic, \<open>NoReturn\<close> for a
  computation that does not come back (an endless loop, or a recursion budget that ran out; where
  the code does return, that \<open>NoReturn\<close> is excluded is proved).

  The collection \<open>rust_std\<close> holds unfoldings of standard-library functions and
  \<open>len_le\<close> the facts that a scanner consumes input; the component theories extend both.
\<close>

named_theorems rust_std "definitions of standard-library functions used by the source"
named_theorems len_le "facts that a scanner does not lengthen its input"

subsection \<open>Results\<close>

datatype panic = ArithmeticOverflow | SliceOutOfRange | ExpectFailed

datatype 'a outcome = Ok 'a | Panic panic | NoReturn

fun and_then :: "'a outcome \<Rightarrow> ('a \<Rightarrow> 'b outcome) \<Rightarrow> 'b outcome" where
  "and_then (Ok x) f = f x"
| "and_then (Panic p) f = Panic p"
| "and_then NoReturn f = NoReturn"

fun map_outcome :: "('a \<Rightarrow> 'b) \<Rightarrow> 'a outcome \<Rightarrow> 'b outcome" where
  "map_outcome f (Ok x) = Ok (f x)"
| "map_outcome f (Panic p) = Panic p"
| "map_outcome f NoReturn = NoReturn"

lemma and_then_Ok_iff: "and_then r f = Ok y \<longleftrightarrow> (\<exists>x. r = Ok x \<and> f x = Ok y)"
  by (cases r) auto

lemma and_then_NoReturn_iff:
  "and_then r f = NoReturn \<longleftrightarrow> r = NoReturn \<or> (\<exists>x. r = Ok x \<and> f x = NoReturn)"
  by (cases r) auto

lemma and_then_cong:
  "r = r' \<Longrightarrow> (\<And>x. r' = Ok x \<Longrightarrow> f x = g x) \<Longrightarrow> and_then r f = and_then r' g"
  by (cases r') auto

lemma and_then_assoc: "and_then (and_then r f) g = and_then r (\<lambda>x. and_then (f x) g)"
  by (cases r) simp_all

lemma and_then_map_outcome: "and_then (map_outcome f r) g = and_then r (\<lambda>x. g (f x))"
  by (cases r) simp_all

lemma map_outcome_Ok_iff: "map_outcome f r = Ok y \<longleftrightarrow> (\<exists>x. r = Ok x \<and> y = f x)"
  by (cases r) auto

lemma map_outcome_map_outcome: "map_outcome f (map_outcome g r) = map_outcome (\<lambda>x. f (g x)) r"
  by (cases r) simp_all

lemma map_outcome_NoReturn_iff [simp]: "map_outcome f r = NoReturn \<longleftrightarrow> r = NoReturn"
  by (cases r) auto

text \<open>\<open>Result::map\<close>, with the error on the left.\<close>

lemma map_sum_Inr_iff [simp]: "map_sum id f r = Inr y \<longleftrightarrow> (\<exists>x. r = Inr x \<and> y = f x)"
  by (cases r) auto

lemma map_sum_Inl_iff [simp]: "map_sum id f r = Inl e \<longleftrightarrow> r = Inl e"
  by (cases r) auto

subsection \<open>Bytes and byte classes\<close>

abbreviation byte :: "char \<Rightarrow> nat" where
  "byte c \<equiv> of_char c"

abbreviation NL :: char where
  "NL \<equiv> CHR 0x0A"

definition is_ascii_digit :: "char \<Rightarrow> bool" where
  "is_ascii_digit c \<longleftrightarrow> 48 \<le> byte c \<and> byte c \<le> 57"

definition is_lower :: "char \<Rightarrow> bool" where
  "is_lower c \<longleftrightarrow> 97 \<le> byte c \<and> byte c \<le> 122"

definition is_upper :: "char \<Rightarrow> bool" where
  "is_upper c \<longleftrightarrow> 65 \<le> byte c \<and> byte c \<le> 90"

text \<open>\<open>b'a'..=b'z' | b'A'..=b'Z' | b'_'\<close>, the bytes an identifier starts with.\<close>

definition ident_start :: "char \<Rightarrow> bool" where
  "ident_start c \<longleftrightarrow> is_lower c \<or> is_upper c \<or> c = CHR ''_''"

definition ident_char :: "char \<Rightarrow> bool" where
  "ident_char c \<longleftrightarrow> ident_start c \<or> is_ascii_digit c"

text \<open>Space, tab, carriage return and form feed.\<close>

definition horizontal_ws :: "char \<Rightarrow> bool" where
  "horizontal_ws c \<longleftrightarrow> c = CHR '' '' \<or> c = CHR 0x09 \<or> c = CHR 0x0D \<or> c = CHR 0x0C"

definition ascii :: "string \<Rightarrow> bool" where
  "ascii s \<longleftrightarrow> list_all (\<lambda>c. byte c < 128) s"

lemma ascii_simps [simp]:
  "ascii []"
  "ascii (c # s) \<longleftrightarrow> byte c < 128 \<and> ascii s"
  "ascii (s @ t) \<longleftrightarrow> ascii s \<and> ascii t"
  by (auto simp: ascii_def)

lemma ascii_take [intro]: "ascii s \<Longrightarrow> ascii (take n s)"
  by (auto simp: ascii_def list_all_iff dest: in_set_takeD)

lemma ascii_drop [intro]: "ascii s \<Longrightarrow> ascii (drop n s)"
  by (auto simp: ascii_def list_all_iff dest: in_set_dropD)

subsection \<open>UTF-8\<close>

definition cont_byte :: "char \<Rightarrow> bool" where
  "cont_byte c \<longleftrightarrow> 128 \<le> byte c \<and> byte c \<le> 191"

text \<open>
  What \<open>std::str::from_utf8\<close> accepts: the well-formed byte sequences of the Unicode standard
  (no overlong forms, no surrogates, nothing above U+10FFFF).
\<close>

fun utf8_valid :: "string \<Rightarrow> bool" where
  "utf8_valid [] = True"
| "utf8_valid (a # s) =
     (if byte a < 128 then utf8_valid s
      else case s of
        [] \<Rightarrow> False
      | b # s1 \<Rightarrow>
          if 194 \<le> byte a \<and> byte a \<le> 223 then cont_byte b \<and> utf8_valid s1
          else case s1 of
            [] \<Rightarrow> False
          | c # s2 \<Rightarrow>
              if 224 \<le> byte a \<and> byte a \<le> 239 then
                (if byte a = 224 then 160 \<le> byte b \<and> byte b \<le> 191
                 else if byte a = 237 then 128 \<le> byte b \<and> byte b \<le> 159
                 else cont_byte b) \<and> cont_byte c \<and> utf8_valid s2
              else case s2 of
                [] \<Rightarrow> False
              | d # s3 \<Rightarrow>
                  240 \<le> byte a \<and> byte a \<le> 244 \<and>
                  (if byte a = 240 then 144 \<le> byte b \<and> byte b \<le> 191
                   else if byte a = 244 then 128 \<le> byte b \<and> byte b \<le> 143
                   else cont_byte b) \<and> cont_byte c \<and> cont_byte d \<and> utf8_valid s3)"

lemma utf8_valid_ascii [simp]: "ascii s \<Longrightarrow> utf8_valid s"
  by (induction s) auto

text \<open>\<open>std::str::from_utf8(bytes).unwrap_or(d).to_owned()\<close>.\<close>

definition from_utf8_or :: "string \<Rightarrow> string \<Rightarrow> string" where
  "from_utf8_or d s = (if utf8_valid s then s else d)"

lemma from_utf8_or_ascii [simp]: "ascii s \<Longrightarrow> from_utf8_or d s = s"
  by (simp add: from_utf8_or_def)

text \<open>
  \<open>String::push(b as char)\<close> for a byte \<open>b\<close>: the code point of that number, encoded in one or
  two bytes.
\<close>

definition encode_latin1 :: "char \<Rightarrow> string" where
  "encode_latin1 c =
     (if byte c < 128 then [c] else [char_of (192 + byte c div 64), char_of (128 + byte c mod 64)])"

lemma length_encode_latin1: "length (encode_latin1 c) = (if byte c < 128 then 1 else 2)"
  by (simp add: encode_latin1_def)

subsection \<open>Scanning lists\<close>

abbreviation rdropWhile :: "('a \<Rightarrow> bool) \<Rightarrow> 'a list \<Rightarrow> 'a list" where
  "rdropWhile P xs \<equiv> rev (dropWhile P (rev xs))"

lemma length_dropWhile_Suc [simp]: "length (dropWhile P xs) < Suc (length xs)"
  by (simp add: le_imp_less_Suc length_dropWhile_le)

declare length_dropWhile_le [len_le]

text \<open>\<open>iter().position(|p| p == x)\<close>.\<close>

fun position :: "('a \<Rightarrow> bool) \<Rightarrow> 'a list \<Rightarrow> nat option" where
  "position P [] = None"
| "position P (x # xs) = (if P x then Some 0 else map_option Suc (position P xs))"

lemma position_None_iff: "position P xs = None \<longleftrightarrow> (\<forall>x\<in>set xs. \<not> P x)"
  by (induction xs) auto

lemma position_SomeD: "position P xs = Some i \<Longrightarrow> i < length xs \<and> P (xs ! i)"
  by (induction xs arbitrary: i) (auto split: if_splits)

text \<open>\<open>slice.get(i)\<close>.\<close>

definition get_opt :: "'a list \<Rightarrow> nat \<Rightarrow> 'a option" where
  "get_opt xs i = (if i < length xs then Some (xs ! i) else None)"

definition starts_with :: "string \<Rightarrow> string \<Rightarrow> bool" where
  "starts_with s p \<longleftrightarrow> take (length p) s = p"

definition ends_with :: "string \<Rightarrow> string \<Rightarrow> bool" where
  "ends_with s p \<longleftrightarrow> length p \<le> length s \<and> drop (length s - length p) s = p"

text \<open>
  \<open>s[1..s.len() - 1]\<close>.  With fewer than two bytes the start of the range lies after its end (or,
  for the empty string, \<open>s.len() - 1\<close> underflows), and the slice panics, as it does when an end of
  the range is inside a multi-byte character.
\<close>

definition is_char_boundary :: "string \<Rightarrow> nat \<Rightarrow> bool" where
  "is_char_boundary s i \<longleftrightarrow> i = 0 \<or> i = length s \<or> (i < length s \<and> \<not> cont_byte (s ! i))"

definition strip_delimiters :: "string \<Rightarrow> string outcome" where
  "strip_delimiters s =
     (if length s < 2 \<or> \<not> is_char_boundary s 1 \<or> \<not> is_char_boundary s (length s - 1)
      then Panic SliceOutOfRange else Ok (butlast (tl s)))"

lemma strip_delimiters_NoReturn [simp]: "strip_delimiters s \<noteq> NoReturn"
  by (simp add: strip_delimiters_def)

text \<open>The first character of a (valid, nonempty) UTF-8 string, as a code point.\<close>

definition first_char :: "string \<Rightarrow> nat option" where
  "first_char s =
     (case s of
        [] \<Rightarrow> None
      | a # s1 \<Rightarrow>
          let low = (\<lambda>i. byte (s ! i) mod 64) in
          if byte a < 128 then Some (byte a)
          else if byte a < 224 then Some (byte a mod 32 * 64 + low 1)
          else if byte a < 240 then Some (byte a mod 16 * 4096 + low 1 * 64 + low 2)
          else Some (byte a mod 8 * 262144 + low 1 * 4096 + low 2 * 64 + low 3))"

subsection \<open>Numbers from text\<close>

definition digit_value :: "nat \<Rightarrow> char \<Rightarrow> nat option" where
  "digit_value radix c =
     (let v = (if is_ascii_digit c then byte c - 48
               else if is_lower c then byte c - 87
               else if is_upper c then byte c - 55 else 99)
      in if v < radix then Some v else None)"

fun digits_value :: "nat \<Rightarrow> int \<Rightarrow> string \<Rightarrow> int option" where
  "digits_value radix acc [] = Some acc"
| "digits_value radix acc (c # s) =
     (case digit_value radix c of
        None \<Rightarrow> None
      | Some d \<Rightarrow> digits_value radix (acc * int radix + int d) s)"

text \<open>
  \<open>from_str_radix\<close> of the standard library on an integer type with values \<open>lo..<hi\<close>: an optional sign
  (a minus sign only if the type is signed), at least one digit, and no overflow.
\<close>

definition from_str_radix :: "int \<Rightarrow> int \<Rightarrow> nat \<Rightarrow> string \<Rightarrow> int option" where
  "from_str_radix lo hi radix s =
     (let neg = s \<noteq> [] \<and> hd s = CHR ''-'' \<and> lo < 0;
          ds = (if neg \<or> s \<noteq> [] \<and> hd s = CHR ''+'' then tl s else s)
      in if ds = [] then None
         else case digits_value radix 0 ds of
           None \<Rightarrow> None
         | Some n \<Rightarrow>
             let v = (if neg then - n else n)
             in if lo \<le> v \<and> v < hi then Some v else None)"

definition parse_i128 :: "nat \<Rightarrow> string \<Rightarrow> int option" where
  "parse_i128 = from_str_radix (- (2 ^ 127)) (2 ^ 127)"

definition parse_u32 :: "string \<Rightarrow> int option" where
  "parse_u32 = from_str_radix 0 (2 ^ 32) 10"

lemma from_str_radix_bounds: "from_str_radix lo hi radix s = Some v \<Longrightarrow> lo \<le> v \<and> v < hi"
  by (auto simp: from_str_radix_def Let_def split: option.splits if_splits)

end
