(* ===== verification/Tokens.thy ===== *)
theory Tokens
  imports Prelude
begin

text \<open>
  The preprocessor's token type (\<open>src/preprocess/token.rs\<close>) and the list helpers that the
  directive parser, the macro expander and the expression evaluator share: skipping and trimming
  whitespace tokens, and joining token texts.
\<close>

datatype token_kind =
  Ident | Number | StringLiteral | CharLiteral | Hash | HashHash | Whitespace | Newline
| LineComment | BlockComment | Punct | Eof | Other

record token =
  tok_kind :: token_kind
  tok_text :: string
  tok_offset :: nat

abbreviation Token :: "token_kind \<Rightarrow> string \<Rightarrow> nat \<Rightarrow> token" where
  "Token k t off \<equiv> \<lparr>tok_kind = k, tok_text = t, tok_offset = off\<rparr>"

abbreviation is_ws :: "token \<Rightarrow> bool" where
  "is_ws t \<equiv> tok_kind t = Whitespace"

text \<open>\<open>while i < tokens.len() && tokens[i].kind == TokenKind::Whitespace { i += 1 }\<close>.\<close>

abbreviation skip_ws :: "token list \<Rightarrow> token list" where
  "skip_ws ts \<equiv> dropWhile is_ws ts"

text \<open>Whitespace removed at both ends, by \<open>remove(0)\<close>/\<open>pop()\<close> loops or by two index loops.\<close>

definition trim_tokens :: "token list \<Rightarrow> token list" where
  "trim_tokens ts = rdropWhile is_ws (skip_ws ts)"

text \<open>\<open>tokens_to_string\<close> (macros.rs) and \<open>tokens_to_text\<close> (processor.rs) are the same loop.\<close>

definition tokens_to_text :: "token list \<Rightarrow> string" where
  "tokens_to_text ts = concat (map tok_text ts)"

lemma tokens_to_text_simps [simp]:
  "tokens_to_text [] = []"
  "tokens_to_text (t # ts) = tok_text t @ tokens_to_text ts"
  "tokens_to_text (ts @ us) = tokens_to_text ts @ tokens_to_text us"
  by (simp_all add: tokens_to_text_def)

lemma trim_tokens_id:
  assumes "ts \<noteq> []" "\<not> is_ws (hd ts)" "\<not> is_ws (last ts)"
  shows "trim_tokens ts = ts"
proof -
  have "skip_ws ts = ts" using assms by (cases ts) auto
  moreover have "dropWhile is_ws (rev ts) = rev ts"
    using assms by (cases ts rule: rev_cases) auto
  ultimately show ?thesis by (simp add: trim_tokens_def)
qed

lemma trim_tokens_Nil [simp]: "trim_tokens [] = []"
  by (simp add: trim_tokens_def)

lemma set_trim_tokens: "set (trim_tokens ts) \<subseteq> set ts"
  by (auto simp: trim_tokens_def dest!: set_dropWhileD)

end
