(* ===== verification/Lexer.thy ===== *)
theory Lexer
  imports Tokens
begin

text \<open>
  The preprocessor's tokenizer (\<open>src/preprocess/lexer.rs\<close>): the scanner state, its skipping loops,
  \<open>next_token\<close>, the driver loop \<open>tokenize\<close>, and translation phase 2 (\<open>splice_lines\<close>).  The lemmas
  show that every token consumes input and lies in it, hence that the driver stops with exactly
  one \<open>Eof\<close>, and that no byte of an ASCII source is lost.
\<close>

subsection \<open>State and skipping loops\<close>

record lexer =
  lx_input :: string
  lx_pos :: nat
  lx_line_start :: bool

definition new_lexer :: "string \<Rightarrow> lexer" where
  "new_lexer s = \<lparr>lx_input = s, lx_pos = 0, lx_line_start = True\<rparr>"

definition lx_rest :: "lexer \<Rightarrow> string" where
  "lx_rest l = drop (lx_pos l) (lx_input l)"

definition peek :: "lexer \<Rightarrow> nat \<Rightarrow> char option" where
  "peek l ahead = get_opt (lx_input l) (lx_pos l + ahead)"

definition advance_by :: "nat \<Rightarrow> lexer \<Rightarrow> lexer" where
  "advance_by n l = l\<lparr>lx_pos := lx_pos l + n\<rparr>"

definition skip_horizontal_whitespace :: "lexer \<Rightarrow> lexer" where
  "skip_horizontal_whitespace l = advance_by (length (takeWhile horizontal_ws (lx_rest l))) l"

definition skip_line_comment :: "lexer \<Rightarrow> lexer" where
  "skip_line_comment l =
     (let l1 = advance_by 2 l
      in advance_by (length (takeWhile (\<lambda>c. c \<noteq> NL) (lx_rest l1))) l1)"

text \<open>Bytes to the end of the comment body, closing delimiter included; all of them if unterminated.\<close>

fun block_comment_len :: "string \<Rightarrow> nat" where
  "block_comment_len (a # b # s) =
     (if a = CHR ''*'' \<and> b = CHR ''/'' then 2 else Suc (block_comment_len (b # s)))"
| "block_comment_len s = length s"

definition skip_block_comment :: "lexer \<Rightarrow> lexer" where
  "skip_block_comment l =
     (let l1 = advance_by 2 l in advance_by (block_comment_len (lx_rest l1)) l1)"

text \<open>
  The loop shared by \<open>lex_string_literal\<close> and \<open>lex_char_literal\<close>: up to and including the closing
  quote \<open>q\<close>, up to and excluding a newline; a backslash takes the next byte with it.
\<close>

fun literal_len :: "char \<Rightarrow> string \<Rightarrow> nat" where
  "literal_len q [] = 0"
| "literal_len q [a] = (if a = q then 1 else if a = NL then 0 else 1)"
| "literal_len q (a # b # s) =
     (if a = q then 1
      else if a = CHR 0x5C then 2 + literal_len q s
      else if a = NL then 0
      else Suc (literal_len q (b # s)))"

fun number_len :: "char option \<Rightarrow> string \<Rightarrow> nat" where
  "number_len prev [] = 0"
| "number_len prev (c # s) =
     (if is_ascii_digit c \<or> is_lower c \<or> is_upper c \<or> c = CHR ''_'' \<or> c = CHR ''.''
      then Suc (number_len (Some c) s)
      else if (c = CHR ''+'' \<or> c = CHR ''-'') \<and>
              (prev = Some (CHR ''e'') \<or> prev = Some (CHR ''E'') \<or>
               prev = Some (CHR ''p'') \<or> prev = Some (CHR ''P''))
      then Suc (number_len (Some c) s)
      else 0)"

subsection \<open>Tokens\<close>

text \<open>The token from \<open>start\<close> to the current position, its text defaulting to \<open>d\<close> if not UTF-8.\<close>

definition token_from :: "token_kind \<Rightarrow> string \<Rightarrow> nat \<Rightarrow> lexer \<Rightarrow> token" where
  "token_from k d start l =
     Token k (from_utf8_or d (take (lx_pos l - start) (drop start (lx_input l)))) start"

definition lex_string_literal :: "nat \<Rightarrow> lexer \<Rightarrow> token \<times> lexer" where
  "lex_string_literal start l =
     (let l1 = advance_by 1 l;
          l2 = (advance_by (literal_len (CHR 0x22) (lx_rest l1)) l1)\<lparr>lx_line_start := False\<rparr>
      in (token_from StringLiteral [CHR 0x22, CHR 0x22] start l2, l2))"

definition lex_char_literal :: "nat \<Rightarrow> lexer \<Rightarrow> token \<times> lexer" where
  "lex_char_literal start l =
     (let l1 = advance_by 1 l;
          l2 = (advance_by (literal_len (CHR 0x27) (lx_rest l1)) l1)\<lparr>lx_line_start := False\<rparr>
      in (token_from CharLiteral [CHR 0x27, CHR 0x27] start l2, l2))"

definition lex_identifier :: "nat \<Rightarrow> lexer \<Rightarrow> token \<times> lexer" where
  "lex_identifier start l =
     (let l1 = (advance_by (length (takeWhile ident_char (lx_rest l))) l)\<lparr>lx_line_start := False\<rparr>
      in (token_from Ident [] start l1, l1))"

definition lex_number :: "nat \<Rightarrow> lexer \<Rightarrow> token \<times> lexer" where
  "lex_number start l =
     (let l1 = (advance_by (number_len None (lx_rest l)) l)\<lparr>lx_line_start := False\<rparr>
      in (token_from Number [] start l1, l1))"

text \<open>The length of the operator that starts with \<open>b\<close>, given the next two bytes.\<close>

definition punct_len :: "char \<Rightarrow> char option \<Rightarrow> char option \<Rightarrow> nat" where
  "punct_len b n1 n2 =
     (case n1 of
        None \<Rightarrow> 1
      | Some n \<Rightarrow>
          if [b, n] = ''<<'' \<or> [b, n] = ''>>'' then (if n2 = Some (CHR ''='') then 3 else 2)
          else if [b, n] \<in> set [''=='', ''!='', ''<='', ''>='', ''&&'', ''||'', ''++'', ''--'',
                               ''->'', ''+='', ''-='', ''*='', ''/='', ''%='', ''&='', ''|='',
                               ''^='']
          then 2 else 1)"

definition lex_punct :: "char \<Rightarrow> lexer \<Rightarrow> token \<times> lexer" where
  "lex_punct b l =
     (let l1 = (advance_by (punct_len b (peek l 1) (peek l 2)) l)\<lparr>lx_line_start := False\<rparr>
      in (token_from Punct ''?'' (lx_pos l) l1, l1))"

definition next_token :: "lexer \<Rightarrow> token \<times> lexer" where
  "next_token l =
     (if lx_pos l \<ge> length (lx_input l) then (Token Eof [] (lx_pos l), l)
      else
        let start = lx_pos l; b = lx_input l ! lx_pos l; n1 = peek l 1 in
        if b = NL then
          (Token Newline [NL] start, (advance_by 1 l)\<lparr>lx_line_start := True\<rparr>)
        else if horizontal_ws b then
          (let l1 = skip_horizontal_whitespace l in (token_from Whitespace '' '' start l1, l1))
        else if b = CHR ''/'' \<and> n1 = Some (CHR ''/'') then
          (let l1 = skip_line_comment l in (token_from LineComment ''//'' start l1, l1))
        else if b = CHR ''/'' \<and> n1 = Some (CHR ''*'') then
          (let l1 = skip_block_comment l in (token_from BlockComment ''/**/'' start l1, l1))
        else if b = CHR ''#'' \<and> n1 = Some (CHR ''#'') then
          (Token HashHash ''##'' start, (advance_by 2 l)\<lparr>lx_line_start := False\<rparr>)
        else if b = CHR ''#'' \<and> lx_line_start l then
          (Token Hash ''#'' start, advance_by 1 l)
        else if b = CHR ''#'' then
          (Token Hash ''#'' start, (advance_by 1 l)\<lparr>lx_line_start := False\<rparr>)
        else if b = CHR 0x22 then lex_string_literal start l
        else if b = CHR 0x27 then lex_char_literal start l
        else if b \<in> set ''LuU'' \<and> n1 = Some (CHR 0x22) then
          lex_string_literal start (advance_by 1 l)
        else if b \<in> set ''LuU'' \<and> n1 = Some (CHR 0x27) then
          lex_char_literal start (advance_by 1 l)
        else if b = CHR ''u'' \<and> n1 = Some (CHR ''8'') \<and> peek l 2 = Some (CHR 0x22) then
          lex_string_literal start (advance_by 2 l)
        else if ident_start b then lex_identifier start l
        else if is_ascii_digit b then lex_number start l
        else if b = CHR ''.'' \<and> (case n1 of Some c \<Rightarrow> is_ascii_digit c | None \<Rightarrow> False) then
          lex_number start l
        else lex_punct b l)"

subsection \<open>Every token consumes input\<close>

definition lx_wf :: "lexer \<Rightarrow> bool" where
  "lx_wf l \<longleftrightarrow> lx_pos l \<le> length (lx_input l)"

text \<open>
  \<open>consumes l l'\<close>: the lexer went forward from \<open>l\<close> to \<open>l'\<close> over the same input, without leaving it.
\<close>

definition consumes :: "lexer \<Rightarrow> lexer \<Rightarrow> bool" where
  "consumes l l' \<longleftrightarrow> lx_input l' = lx_input l \<and> lx_pos l < lx_pos l' \<and>
     lx_pos l' \<le> length (lx_input l)"

lemma block_comment_len_le [len_le]: "block_comment_len s \<le> length s"
  by (induction s rule: block_comment_len.induct) auto

lemma literal_len_le [len_le]: "literal_len q s \<le> length s"
  by (induction q s rule: literal_len.induct) auto

lemma number_len_le [len_le]: "number_len p s \<le> length s"
  by (induction p s rule: number_len.induct) auto

declare length_takeWhile_le [len_le]

lemma number_len_pos: "s \<noteq> [] \<Longrightarrow> is_ascii_digit (hd s) \<or> hd s = CHR ''.'' \<Longrightarrow> 0 < number_len p s"
  by (cases s) auto

lemma peek_SomeD: "peek l k = Some c \<Longrightarrow> lx_pos l + k < length (lx_input l)"
  by (auto simp: peek_def get_opt_def split: if_splits)

lemma advance_by_simps [simp]:
  "lx_input (advance_by n l) = lx_input l"
  "lx_pos (advance_by n l) = lx_pos l + n"
  "lx_line_start (advance_by n l) = lx_line_start l"
  by (simp_all add: advance_by_def)

lemma length_lx_rest [simp]: "length (lx_rest l) = length (lx_input l) - lx_pos l"
  by (simp add: lx_rest_def)

lemma lx_rest_Cons:
  "lx_pos l < length (lx_input l) \<Longrightarrow>
     lx_rest l = lx_input l ! lx_pos l # drop (Suc (lx_pos l)) (lx_input l)"
  by (simp add: lx_rest_def Cons_nth_drop_Suc)

lemma hd_lx_rest: "lx_pos l < length (lx_input l) \<Longrightarrow> hd (lx_rest l) = lx_input l ! lx_pos l"
  by (simp add: lx_rest_Cons)

lemma advance_len_le:
  "f (lx_rest l) \<le> length (lx_rest l) \<Longrightarrow> lx_wf l \<Longrightarrow>
     lx_pos l + f (lx_rest l) \<le> length (lx_input l)"
  by (simp add: lx_wf_def)

lemma consumes_literal:
  assumes "lx_pos l + n < length (lx_input l)"
  shows "consumes l (snd (lex_string_literal st (advance_by n l)))"
    and "consumes l (snd (lex_char_literal st (advance_by n l)))"
proof -
  have "literal_len q (lx_rest (advance_by 1 (advance_by n l))) + Suc (lx_pos l + n)
      \<le> length (lx_input l)" for q
    using literal_len_le [of q "lx_rest (advance_by 1 (advance_by n l))"] assms by simp
  from this [of "CHR 0x22"] this [of "CHR 0x27"] assms show
    "consumes l (snd (lex_string_literal st (advance_by n l)))"
    "consumes l (snd (lex_char_literal st (advance_by n l)))"
    by (simp_all add: lex_string_literal_def lex_char_literal_def consumes_def Let_def)
qed

lemma consumes_skip_ws:
  assumes "lx_pos l < length (lx_input l)" "horizontal_ws (lx_input l ! lx_pos l)"
  shows "consumes l (skip_horizontal_whitespace l)"
  using assms length_takeWhile_le [of horizontal_ws "lx_rest l"]
  by (auto simp: skip_horizontal_whitespace_def consumes_def lx_rest_Cons)

lemma consumes_skip_comment:
  assumes "lx_pos l + 1 < length (lx_input l)"
  shows "consumes l (skip_line_comment l)" and "consumes l (skip_block_comment l)"
  using assms block_comment_len_le [of "lx_rest (advance_by 2 l)"]
    length_takeWhile_le [of "\<lambda>c. c \<noteq> NL" "lx_rest (advance_by 2 l)"]
  by (auto simp: skip_line_comment_def skip_block_comment_def consumes_def Let_def)

lemma consumes_identifier:
  assumes "lx_pos l < length (lx_input l)" "ident_start (lx_input l ! lx_pos l)"
  shows "consumes l (snd (lex_identifier st l))"
  using assms length_takeWhile_le [of ident_char "lx_rest l"]
  by (auto simp: lex_identifier_def consumes_def lx_rest_Cons ident_char_def Let_def)

lemma consumes_number:
  assumes "lx_pos l < length (lx_input l)"
    "is_ascii_digit (lx_input l ! lx_pos l) \<or> lx_input l ! lx_pos l = CHR ''.''"
  shows "consumes l (snd (lex_number st l))"
proof -
  have "0 < number_len None (lx_rest l)"
    using assms by (intro number_len_pos) (auto simp: lx_rest_Cons)
  then show ?thesis
    using assms number_len_le [of None "lx_rest l"]
    by (auto simp: lex_number_def consumes_def Let_def)
qed

lemma punct_len_bounds:
  "1 \<le> punct_len b n1 n2" "punct_len b n1 n2 \<le> 3"
  "n1 = None \<Longrightarrow> punct_len b n1 n2 = 1" "n2 = None \<Longrightarrow> punct_len b n1 n2 \<le> 2"
  by (auto simp: punct_len_def split: option.splits)

lemma consumes_punct:
  assumes "lx_pos l < length (lx_input l)"
  shows "consumes l (snd (lex_punct b l))"
proof -
  let ?n = "punct_len b (peek l 1) (peek l 2)"
  have "lx_pos l + ?n \<le> length (lx_input l)"
  proof (cases "peek l 1")
    case None
    then show ?thesis using assms punct_len_bounds(3) [OF None, of b "peek l 2"] by simp
  next
    case (Some c)
    then have 1: "lx_pos l + 1 < length (lx_input l)" by (rule peek_SomeD)
    show ?thesis
    proof (cases "peek l 2")
      case None
      then show ?thesis using 1 punct_len_bounds(4) [OF None, of b "peek l 1"] by simp
    next
      case (Some d)
      then have "lx_pos l + 2 < length (lx_input l)" by (rule peek_SomeD)
      then show ?thesis using punct_len_bounds(2) [of b "peek l 1" "peek l 2"] by simp
    qed
  qed
  then show ?thesis
    using punct_len_bounds(1) [of b "peek l 1" "peek l 2"]
    by (auto simp: lex_punct_def consumes_def Let_def)
qed

lemma advance_by_0 [simp]: "advance_by 0 l = l"
  by (simp add: advance_by_def)

lemma consumes_line_start [simp]: "consumes l (l'\<lparr>lx_line_start := b\<rparr>) = consumes l l'"
  by (simp add: consumes_def)

lemma consumes_advance: "0 < n \<Longrightarrow> lx_pos l + n \<le> length (lx_input l) \<Longrightarrow> consumes l (advance_by n l)"
  by (simp add: consumes_def)

lemma consumes_if:
  "(P \<Longrightarrow> consumes l (snd a)) \<Longrightarrow> (\<not> P \<Longrightarrow> consumes l (snd b)) \<Longrightarrow>
     consumes l (snd (if P then a else b))"
  by simp

lemma peek_bound: "peek l k = Some c \<Longrightarrow> consumes l (advance_by (Suc k) l)"
  using peek_SomeD [of l k c] by (simp add: consumes_def)

lemma next_token_consumes:
  assumes pos: "lx_pos l < length (lx_input l)"
  shows "consumes l (snd (next_token l))"
proof -
  have n: "(lx_pos l \<ge> length (lx_input l)) = False" using pos by simp
  show ?thesis
    unfolding next_token_def Let_def n if_False
    using pos consumes_literal [of l 0, simplified] peek_SomeD [of l 1] peek_SomeD [of l 2]
      peek_bound [of l 1]
    by (intro consumes_if)
      (simp_all add: consumes_advance consumes_skip_ws consumes_skip_comment consumes_literal
        consumes_identifier consumes_number consumes_punct numeral_2_eq_2)
qed

lemma next_token_Eof_iff: "tok_kind (fst (next_token l)) = Eof \<longleftrightarrow> length (lx_input l) \<le> lx_pos l"
  by (simp add: next_token_def Let_def token_from_def lex_string_literal_def lex_char_literal_def
      lex_identifier_def lex_number_def lex_punct_def)

subsection \<open>The driver\<close>

function tokenize_from :: "lexer \<Rightarrow> token list" where
  "tokenize_from l =
     (let t = fst (next_token l); l' = snd (next_token l)
      in if tok_kind t = Eof then [t] else t # tokenize_from l')"
  by pat_completeness auto
termination
proof (relation "measure (\<lambda>l. length (lx_input l) - lx_pos l)")
  fix l :: lexer and t l'
  assume t: "t = fst (next_token l)" and l': "l' = snd (next_token l)" and "tok_kind t \<noteq> Eof"
  then have "lx_pos l < length (lx_input l)" using next_token_Eof_iff [of l] by simp
  then show "(l', l) \<in> measure (\<lambda>l. length (lx_input l) - lx_pos l)"
    using next_token_consumes [of l] l' by (auto simp: consumes_def)
qed simp

declare tokenize_from.simps [simp del]

text \<open>Translation phase 2: a backslash before a newline (or \<open>\r\n\<close>) is removed with it.\<close>

fun splice_lines :: "string \<Rightarrow> string" where
  "splice_lines [] = []"
| "splice_lines (a # s) =
     (if a = CHR 0x5C \<and> 1 \<le> length s \<and> s ! 0 = NL then splice_lines (drop 1 s)
      else if a = CHR 0x5C \<and> 2 \<le> length s \<and> s ! 0 = CHR 0x0D \<and> s ! 1 = NL
      then splice_lines (drop 2 s)
      else encode_latin1 a @ splice_lines s)"

definition tokenize :: "string \<Rightarrow> token list" where
  "tokenize s = tokenize_from (new_lexer (splice_lines s))"

subsection \<open>The text of a token\<close>

definition slice :: "nat \<Rightarrow> nat \<Rightarrow> string \<Rightarrow> string" where
  "slice i j s = take (j - i) (drop i s)"

lemma slice_append: "i \<le> j \<Longrightarrow> j \<le> k \<Longrightarrow> slice i j s @ slice j k s = slice i k s"
  using take_add [of "j - i" "k - j" "drop i s"] by (simp add: slice_def)

lemma slice_Suc: "i < length s \<Longrightarrow> slice i (Suc i) s = [s ! i]"
  by (simp add: slice_def take_Suc_conv_app_nth)

lemma slice_Suc_Suc:
  "Suc i < length s \<Longrightarrow> slice i (Suc (Suc i)) s = [s ! i, s ! Suc i]"
  by (simp add: slice_def Suc_diff_le take_Suc_conv_app_nth)

text \<open>\<open>spells t l l'\<close>: the token \<open>t\<close> starts at \<open>l\<close> and its text is the input between \<open>l\<close> and \<open>l'\<close>.\<close>

definition spells :: "lexer \<Rightarrow> token \<Rightarrow> lexer \<Rightarrow> bool" where
  "spells l t l' \<longleftrightarrow> tok_offset t = lx_pos l \<and>
     tok_text t = slice (lx_pos l) (lx_pos l') (lx_input l)"

lemma ascii_slice [simp]: "ascii s \<Longrightarrow> ascii (slice i j s)"
  by (simp add: slice_def ascii_take ascii_drop)

lemma spells_token_from:
  "ascii (lx_input l') \<Longrightarrow> lx_input l' = lx_input l \<Longrightarrow>
     spells l (token_from k d (lx_pos l) l') l'"
  using ascii_slice [of "lx_input l" "lx_pos l" "lx_pos l'"]
  by (simp add: spells_def token_from_def slice_def)

lemma skip_input [simp]:
  "lx_input (skip_horizontal_whitespace l) = lx_input l"
  "lx_input (skip_line_comment l) = lx_input l"
  "lx_input (skip_block_comment l) = lx_input l"
  by (simp_all add: skip_horizontal_whitespace_def skip_line_comment_def skip_block_comment_def
      Let_def)

lemma spells_lexed:
  assumes "ascii (lx_input l)" "lx_input l0 = lx_input l"
  shows "spells l (fst (lex_string_literal (lx_pos l) l0)) (snd (lex_string_literal (lx_pos l) l0))"
    and "spells l (fst (lex_char_literal (lx_pos l) l0)) (snd (lex_char_literal (lx_pos l) l0))"
    and "spells l (fst (lex_identifier (lx_pos l) l0)) (snd (lex_identifier (lx_pos l) l0))"
    and "spells l (fst (lex_number (lx_pos l) l0)) (snd (lex_number (lx_pos l) l0))"
  using assms
  by (simp_all add: lex_string_literal_def lex_char_literal_def lex_identifier_def lex_number_def
      Let_def spells_token_from)

lemma spells_punct: "ascii (lx_input l) \<Longrightarrow> spells l (fst (lex_punct b l)) (snd (lex_punct b l))"
  by (simp add: lex_punct_def Let_def spells_token_from)

lemma spells_if:
  "(P \<Longrightarrow> spells l (fst a) (snd a)) \<Longrightarrow> (\<not> P \<Longrightarrow> spells l (fst b) (snd b)) \<Longrightarrow>
     spells l (fst (if P then a else b)) (snd (if P then a else b))"
  by simp

lemma spells_line_start [simp]: "spells l t (l'\<lparr>lx_line_start := b\<rparr>) = spells l t l'"
  by (simp add: spells_def)

lemma spells_fixed:
  "lx_pos l < length (lx_input l) \<Longrightarrow>
     spells l (Token k [lx_input l ! lx_pos l] (lx_pos l)) (advance_by 1 l)"
  "peek l 1 = Some c \<Longrightarrow>
     spells l (Token k [lx_input l ! lx_pos l, c] (lx_pos l)) (advance_by 2 l)"
  using peek_SomeD [of l 1 c]
  by (auto simp: spells_def slice_Suc slice_Suc_Suc peek_def get_opt_def numeral_2_eq_2
      split: if_splits)

lemma next_token_spells:
  assumes "ascii (lx_input l)" "lx_pos l < length (lx_input l)"
  shows "spells l (fst (next_token l)) (snd (next_token l))"
proof -
  have n: "(lx_pos l \<ge> length (lx_input l)) = False" using assms(2) by simp
  show ?thesis
    unfolding next_token_def Let_def n if_False
    using assms spells_fixed(1) [of l] spells_fixed(2) [of l]
    by (intro spells_if)
      (auto simp: spells_token_from spells_lexed spells_punct)
qed

subsection \<open>The driver: totality, tiling, losslessness\<close>

text \<open>
  One unfolding of the driver in the two cases the induction needs.
\<close>

lemma tokenize_from_end:
  "length (lx_input l) \<le> lx_pos l \<Longrightarrow> tokenize_from l = [Token Eof [] (lx_pos l)]"
  by (subst tokenize_from.simps) (simp add: next_token_def)

lemma tokenize_from_step:
  "lx_pos l < length (lx_input l) \<Longrightarrow>
     tokenize_from l = fst (next_token l) # tokenize_from (snd (next_token l))"
  using next_token_Eof_iff [of l] by (subst tokenize_from.simps) simp

text \<open>Induction along the driver: each step goes forward over the same input.\<close>

lemma lexer_induct [consumes 1, case_names stop step]:
  assumes "lx_wf l"
    and stop: "\<And>l. lx_pos l = length (lx_input l) \<Longrightarrow> P l"
    and step: "\<And>l. lx_pos l < length (lx_input l) \<Longrightarrow> consumes l (snd (next_token l)) \<Longrightarrow>
      P (snd (next_token l)) \<Longrightarrow> P l"
  shows "P l"
  using assms(1)
proof (induction "length (lx_input l) - lx_pos l" arbitrary: l rule: less_induct)
  case less
  show ?case
  proof (cases "lx_pos l < length (lx_input l)")
    case True
    then have c: "consumes l (snd (next_token l))" by (rule next_token_consumes)
    then have "P (snd (next_token l))" by (intro less) (auto simp: consumes_def lx_wf_def)
    with True c show ?thesis by (rule step)
  next
    case False
    with less.prems show ?thesis by (intro stop) (simp add: lx_wf_def)
  qed
qed

lemma next_token_offset: "tok_offset (fst (next_token l)) = lx_pos l"
  by (simp add: next_token_def Let_def token_from_def lex_string_literal_def lex_char_literal_def
      lex_identifier_def lex_number_def lex_punct_def)

lemma tokenize_from_shape:
  assumes "lx_wf l"
  shows "\<exists>ts. tokenize_from l = ts @ [Token Eof [] (length (lx_input l))] \<and>
      (\<forall>t\<in>set ts. tok_kind t \<noteq> Eof \<and> lx_pos l \<le> tok_offset t) \<and>
      sorted_wrt (<) (map tok_offset (tokenize_from l))"
  using assms
proof (induction l rule: lexer_induct)
  case (stop l)
  then show ?case by (simp add: tokenize_from_end)
next
  case (step l)
  let ?t = "fst (next_token l)" and ?l = "snd (next_token l)"
  from step(2) have pos: "lx_pos l < lx_pos ?l" "lx_pos ?l \<le> length (lx_input l)"
    and inp: "lx_input ?l = lx_input l" by (auto simp: consumes_def)
  from step(3) obtain ts where ts: "tokenize_from ?l = ts @ [Token Eof [] (length (lx_input l))]"
    "\<forall>t\<in>set ts. tok_kind t \<noteq> Eof \<and> lx_pos ?l \<le> tok_offset t"
    "sorted_wrt (<) (map tok_offset (tokenize_from ?l))"
    using inp by auto
  have "\<forall>t\<in>set (tokenize_from ?l). lx_pos l < tok_offset t"
    using ts(1,2) pos by auto
  then have "sorted_wrt (<) (map tok_offset (?t # tokenize_from ?l))"
    using ts(3) by (simp add: next_token_offset)
  moreover have "tok_kind ?t \<noteq> Eof" using next_token_Eof_iff [of l] step(1) by simp
  ultimately show ?case
    using step(1) ts pos
    by (intro exI [of _ "?t # ts"]) (auto simp: tokenize_from_step next_token_offset)
qed

lemma slice_to_drop: "j = length s \<Longrightarrow> slice i j s = drop i s"
  by (simp add: slice_def)

lemma slice_drop: "i \<le> j \<Longrightarrow> slice i j s @ drop j s = drop i s"
proof -
  assume "i \<le> j"
  then have "drop j s = drop (j - i) (drop i s)" by simp
  then show ?thesis by (simp add: slice_def del: drop_drop)
qed

lemma tokenize_from_text:
  assumes "lx_wf l" "ascii (lx_input l)"
  shows "tokens_to_text (tokenize_from l) = drop (lx_pos l) (lx_input l)"
  using assms
proof (induction l rule: lexer_induct)
  case (stop l)
  then show ?case by (simp add: tokenize_from_end)
next
  case (step l)
  let ?t = "fst (next_token l)" and ?l = "snd (next_token l)"
  have sp: "spells l ?t ?l" using step by (intro next_token_spells)
  from step(2) have "lx_pos l \<le> lx_pos ?l" and inp: "lx_input ?l = lx_input l"
    by (auto simp: consumes_def)
  then show ?case
    using step sp by (simp add: tokenize_from_step spells_def slice_drop)
qed

lemma lx_wf_new [simp]: "lx_wf (new_lexer s)"
  by (simp add: lx_wf_def new_lexer_def)

lemma new_lexer_simps [simp]: "lx_input (new_lexer s) = s" "lx_pos (new_lexer s) = 0"
  by (simp_all add: new_lexer_def)

lemma encode_latin1_ascii: "byte c < 128 \<Longrightarrow> encode_latin1 c = [c]"
  by (simp add: encode_latin1_def)

lemma ascii_splice: "ascii s \<Longrightarrow> ascii (splice_lines s)"
  by (induction s rule: splice_lines.induct) (auto simp: encode_latin1_ascii)

lemma tokenize_text: "ascii s \<Longrightarrow> tokens_to_text (tokenize s) = splice_lines s"
  using tokenize_from_text [of "new_lexer (splice_lines s)"] by (simp add: tokenize_def ascii_splice)

lemma tokenize_Eof:
  obtains ts where "tokenize s = ts @ [Token Eof [] (length (splice_lines s))]"
    "\<forall>t\<in>set ts. tok_kind t \<noteq> Eof" "sorted_wrt (<) (map tok_offset (tokenize s))"
  using tokenize_from_shape [of "new_lexer (splice_lines s)"] by (auto simp: tokenize_def)

subsection \<open>Lexical classes\<close>

definition number_char :: "char \<Rightarrow> bool" where
  "number_char c \<longleftrightarrow> ident_char c \<or> c = CHR ''.'' \<or> c = CHR ''+'' \<or> c = CHR ''-''"

text \<open>
  The lexical class each token kind stands for, as the comments of \<open>TokenKind\<close> describe it:
  what the text of a token of that kind may be.
\<close>

definition token_shape :: "token_kind \<Rightarrow> string \<Rightarrow> bool" where
  "token_shape k s =
     (case k of
        Ident \<Rightarrow> s \<noteq> [] \<and> ident_start (hd s) \<and> list_all ident_char (tl s)
      | Number \<Rightarrow> s \<noteq> [] \<and> list_all number_char s \<and>
          (is_ascii_digit (hd s) \<or> hd s = CHR ''.'' \<and> 2 \<le> length s \<and> is_ascii_digit (s ! 1))
      | StringLiteral \<Rightarrow>
          list_ex (\<lambda>p. starts_with s (p @ [CHR 0x22])) [[], ''L'', ''u'', ''U'', ''u8'']
      | CharLiteral \<Rightarrow> list_ex (\<lambda>p. starts_with s (p @ [CHR 0x27])) [[], ''L'', ''u'', ''U'']
      | Hash \<Rightarrow> s = ''#''
      | HashHash \<Rightarrow> s = ''##''
      | Whitespace \<Rightarrow> s \<noteq> [] \<and> list_all horizontal_ws s
      | Newline \<Rightarrow> s = [NL]
      | LineComment \<Rightarrow> starts_with s ''//'' \<and> NL \<notin> set s
      | BlockComment \<Rightarrow> starts_with s ''/*''
      | Punct \<Rightarrow> 1 \<le> length s \<and> length s \<le> 3 \<and> \<not> ident_start (hd s) \<and> \<not> is_ascii_digit (hd s)
      | Eof \<Rightarrow> s = []
      | Other \<Rightarrow> False)"

lemma token_from_text:
  assumes "ascii (lx_input l)" "lx_input l' = lx_input l"
  shows "tok_text (token_from k d (lx_pos l) l') = take (lx_pos l' - lx_pos l) (lx_rest l)"
proof -
  have "ascii (take (lx_pos l' - lx_pos l) (drop (lx_pos l) (lx_input l)))"
    using assms by (auto intro!: ascii_take ascii_drop)
  then show ?thesis using assms(2) by (simp add: token_from_def lx_rest_def)
qed

lemma token_from_kind [simp]: "tok_kind (token_from k d st l) = k"
  by (simp add: token_from_def)

lemma take_length_takeWhile: "take (length (takeWhile P xs)) xs = takeWhile P xs"
  by (metis takeWhile_eq_take)

lemma number_prefix: "list_all number_char (take (number_len p s) s)"
  by (induction p s rule: number_len.induct)
    (auto simp: number_char_def ident_char_def ident_start_def)

lemma lx_rest_2:
  "peek l (Suc 0) = Some c \<Longrightarrow>
     lx_rest l = lx_input l ! lx_pos l # c # drop (Suc (Suc (lx_pos l))) (lx_input l)"
  using peek_SomeD [of l 1 c] Cons_nth_drop_Suc [of "Suc (lx_pos l)" "lx_input l"]
  by (simp add: lx_rest_Cons peek_def get_opt_def split: if_splits)

lemma lx_rest_3:
  "peek l (Suc 0) = Some c \<Longrightarrow> peek l 2 = Some e \<Longrightarrow>
     lx_rest l = lx_input l ! lx_pos l # c # e # drop (Suc (Suc (Suc (lx_pos l)))) (lx_input l)"
  using peek_SomeD [of l 2 e] Cons_nth_drop_Suc [of "Suc (Suc (lx_pos l))" "lx_input l"]
  by (simp add: lx_rest_2 peek_def get_opt_def split: if_splits)

lemma take_Suc_iff: "0 < n \<Longrightarrow> take n (x # xs) = x # take (n - 1) xs"
  by (cases n) auto

lemma shape_ws:
  "ascii (lx_input l) \<Longrightarrow> lx_pos l < length (lx_input l) \<Longrightarrow>
   horizontal_ws (lx_input l ! lx_pos l) \<Longrightarrow>
   token_shape Whitespace (tok_text (token_from Whitespace d (lx_pos l) (skip_horizontal_whitespace l)))"
  by (auto simp: token_shape_def token_from_text)
    (auto simp: skip_horizontal_whitespace_def take_length_takeWhile lx_rest_Cons list_all_iff
      dest: set_takeWhileD)

lemma shape_line_comment:
  assumes a: "ascii (lx_input l)" and p: "lx_pos l < length (lx_input l)"
    and "lx_input l ! lx_pos l = CHR ''/''" "peek l 1 = Some (CHR ''/'')"
  shows "token_shape LineComment (tok_text (token_from LineComment d (lx_pos l) (skip_line_comment l)))"
proof -
  let ?r = "drop (Suc (Suc (lx_pos l))) (lx_input l)"
  have "lx_rest (advance_by 2 l) = ?r" by (simp add: lx_rest_def)
  then have "tok_text (token_from LineComment d (lx_pos l) (skip_line_comment l))
      = ''//'' @ takeWhile (\<lambda>c. c \<noteq> NL) ?r"
    using a assms
    by (simp add: token_from_text skip_line_comment_def lx_rest_2 take_length_takeWhile)
  then show ?thesis by (auto simp: token_shape_def starts_with_def dest: set_takeWhileD)
qed

lemma shape_block_comment:
  assumes a: "ascii (lx_input l)" and p: "lx_pos l < length (lx_input l)"
    and "lx_input l ! lx_pos l = CHR ''/''" "peek l 1 = Some (CHR ''*'')"
  shows "token_shape BlockComment (tok_text (token_from BlockComment d (lx_pos l) (skip_block_comment l)))"
  using a assms
  by (simp add: token_shape_def token_from_text skip_block_comment_def Let_def lx_rest_2
      starts_with_def)

lemma shape_identifier:
  assumes a: "ascii (lx_input l)" and p: "lx_pos l < length (lx_input l)"
    and "ident_start (lx_input l ! lx_pos l)"
  shows "token_shape Ident (tok_text (fst (lex_identifier (lx_pos l) l)))"
  using a p assms
  by (simp add: lex_identifier_def Let_def token_shape_def token_from_text take_length_takeWhile
      lx_rest_Cons ident_char_def list_all_iff) (auto dest: set_takeWhileD simp: ident_char_def)

lemma shape_number:
  assumes a: "ascii (lx_input l)" and p: "lx_pos l < length (lx_input l)"
    and "is_ascii_digit (lx_input l ! lx_pos l) \<or>
    lx_input l ! lx_pos l = CHR ''.'' \<and> (\<exists>c. peek l 1 = Some c \<and> is_ascii_digit c)"
  shows "token_shape Number (tok_text (fst (lex_number (lx_pos l) l)))"
proof -
  let ?n = "number_len None (lx_rest l)"
  have t: "tok_text (fst (lex_number (lx_pos l) l)) = take ?n (lx_rest l)"
    using a by (simp add: lex_number_def Let_def token_from_text)
  have "0 < ?n" using assms p by (intro number_len_pos) (auto simp: lx_rest_Cons)
  then show ?thesis
  proof (cases "is_ascii_digit (lx_input l ! lx_pos l)")
    case True
    then show ?thesis using t \<open>0 < ?n\<close> number_prefix [of None "lx_rest l"] p
      by (simp add: token_shape_def lx_rest_Cons)
  next
    case False
    then obtain c where c: "lx_input l ! lx_pos l = CHR ''.''" "peek l 1 = Some c" "is_ascii_digit c"
      using assms by auto
    then show ?thesis using t number_prefix [of None "lx_rest l"]
      by (simp add: token_shape_def lx_rest_2)
  qed
qed

lemma shape_string:
  "ascii (lx_input l) \<Longrightarrow> lx_pos l < length (lx_input l) \<Longrightarrow>
   lx_input l ! lx_pos l = CHR 0x22 \<Longrightarrow>
     token_shape StringLiteral (tok_text (fst (lex_string_literal (lx_pos l) l)))"
  by (auto simp: lex_string_literal_def Let_def token_from_text token_shape_def starts_with_def lx_rest_Cons
      take_Suc_iff)

lemma shape_string_prefix:
  "ascii (lx_input l) \<Longrightarrow> lx_pos l < length (lx_input l) \<Longrightarrow>
   lx_input l ! lx_pos l \<in> set ''LuU'' \<Longrightarrow> peek l 1 = Some (CHR 0x22) \<Longrightarrow>
     token_shape StringLiteral (tok_text (fst (lex_string_literal (lx_pos l) (advance_by 1 l))))"
  by (auto simp: lex_string_literal_def Let_def token_from_text token_shape_def starts_with_def lx_rest_2
      take_Suc_iff)

lemma shape_string_u8:
  "ascii (lx_input l) \<Longrightarrow> lx_pos l < length (lx_input l) \<Longrightarrow>
   lx_input l ! lx_pos l = CHR ''u'' \<Longrightarrow> peek l 1 = Some (CHR ''8'') \<Longrightarrow>
   peek l 2 = Some (CHR 0x22) \<Longrightarrow>
     token_shape StringLiteral (tok_text (fst (lex_string_literal (lx_pos l) (advance_by 2 l))))"
  by (auto simp: lex_string_literal_def Let_def token_from_text token_shape_def starts_with_def lx_rest_3
      take_Suc_iff)

lemma shape_char:
  "ascii (lx_input l) \<Longrightarrow> lx_pos l < length (lx_input l) \<Longrightarrow>
   lx_input l ! lx_pos l = CHR 0x27 \<Longrightarrow>
     token_shape CharLiteral (tok_text (fst (lex_char_literal (lx_pos l) l)))"
  by (auto simp: lex_char_literal_def Let_def token_from_text token_shape_def starts_with_def lx_rest_Cons
      take_Suc_iff)

lemma shape_char_prefix:
  "ascii (lx_input l) \<Longrightarrow> lx_pos l < length (lx_input l) \<Longrightarrow>
   lx_input l ! lx_pos l \<in> set ''LuU'' \<Longrightarrow> peek l 1 = Some (CHR 0x27) \<Longrightarrow>
     token_shape CharLiteral (tok_text (fst (lex_char_literal (lx_pos l) (advance_by 1 l))))"
  by (auto simp: lex_char_literal_def Let_def token_from_text token_shape_def starts_with_def lx_rest_2
      take_Suc_iff)

lemma shape_punct:
  assumes a: "ascii (lx_input l)" and p: "lx_pos l < length (lx_input l)"
    and "\<not> ident_start (lx_input l ! lx_pos l)" "\<not> is_ascii_digit (lx_input l ! lx_pos l)"
  shows "token_shape Punct (tok_text (fst (lex_punct (lx_input l ! lx_pos l) l)))"
proof -
  let ?n = "punct_len (lx_input l ! lx_pos l) (peek l 1) (peek l 2)"
  have "tok_text (fst (lex_punct (lx_input l ! lx_pos l) l)) = take ?n (lx_rest l)"
    using a by (simp add: lex_punct_def Let_def token_from_text)
  then show ?thesis
    using assms p punct_len_bounds(1,2) [of "lx_input l ! lx_pos l" "peek l 1" "peek l 2"]
    by (auto simp: token_shape_def lx_rest_Cons take_Suc_iff)
qed

lemma lexed_kinds [simp]:
  "tok_kind (fst (lex_string_literal st l)) = StringLiteral"
  "tok_kind (fst (lex_char_literal st l)) = CharLiteral"
  "tok_kind (fst (lex_identifier st l)) = Ident"
  "tok_kind (fst (lex_number st l)) = Number"
  "tok_kind (fst (lex_punct b l)) = Punct"
  by (simp_all add: lex_string_literal_def lex_char_literal_def lex_identifier_def lex_number_def
      lex_punct_def Let_def)

definition shaped :: "token \<Rightarrow> bool" where
  "shaped t \<longleftrightarrow> token_shape (tok_kind t) (tok_text t)"

lemma shaped_if:
  "(P \<Longrightarrow> shaped (fst a)) \<Longrightarrow> (\<not> P \<Longrightarrow> shaped (fst b)) \<Longrightarrow> shaped (fst (if P then a else b))"
  by simp

lemma next_token_shaped:
  assumes "ascii (lx_input l)" "lx_pos l < length (lx_input l)"
  shows "shaped (fst (next_token l))"
proof -
  have n: "(lx_pos l \<ge> length (lx_input l)) = False" using assms(2) by simp
  show ?thesis
    unfolding next_token_def Let_def n if_False
    using assms
    by (intro shaped_if)
      (simp_all add: shaped_def shape_ws shape_line_comment shape_block_comment shape_string
        shape_string_prefix [simplified] shape_string_u8 shape_char shape_char_prefix [simplified]
        shape_identifier shape_number shape_punct token_shape_def [of Newline]
        token_shape_def [of Hash] token_shape_def [of HashHash] split: option.splits)
qed

lemma tokenize_from_shaped:
  assumes "lx_wf l" "ascii (lx_input l)"
  shows "list_all shaped (tokenize_from l)"
  using assms
proof (induction l rule: lexer_induct)
  case (stop l)
  then show ?case by (simp add: tokenize_from_end shaped_def token_shape_def)
next
  case (step l)
  then show ?case
    by (simp add: tokenize_from_step next_token_shaped consumes_def)
qed

lemma tokenize_from_offsets:
  assumes "lx_wf l" "ascii (lx_input l)"
  shows "i < length (tokenize_from l) \<Longrightarrow>
    tok_offset (tokenize_from l ! i) = lx_pos l + length (tokens_to_text (take i (tokenize_from l)))"
  using assms
proof (induction l arbitrary: i rule: lexer_induct)
  case (stop l)
  then show ?case by (simp add: tokenize_from_end)
next
  case (step l)
  let ?t = "fst (next_token l)" and ?l = "snd (next_token l)"
  have "spells l ?t ?l" using step by (intro next_token_spells)
  then have "lx_pos ?l = lx_pos l + length (tok_text ?t)" "tok_offset ?t = lx_pos l"
    using step(2) by (auto simp: spells_def slice_def consumes_def)
  then show ?case
    using step by (cases i) (auto simp: tokenize_from_step consumes_def)
qed

subsection \<open>Properties\<close>

text \<open>
  C6: the lexer loses nothing.  On an ASCII source the texts of the tokens, joined, are the spliced
  source, and each token's offset is the number of bytes before it.
\<close>

theorem tokenize_lossless:
  assumes "ascii s"
  shows "tokens_to_text (tokenize s) = splice_lines s \<and>
    (\<forall>i<length (tokenize s).
       tok_offset (tokenize s ! i) = length (tokens_to_text (take i (tokenize s))))"
  using tokenize_text [OF assms] tokenize_from_offsets [of "new_lexer (splice_lines s)"] assms
  by (simp add: tokenize_def ascii_splice)

theorem tokenize_lossless_witness:
  "tokens_to_text (tokenize ''#if A>>=1 // c'') = ''#if A>>=1 // c''"
  using tokenize_lossless [THEN conjunct1, of "''#if A>>=1 // c''"] by code_simp

text \<open>
  C34: \<open>tokenize\<close> returns for every source, with exactly one \<open>Eof\<close> token, the last one and empty,
  at the end of the spliced source; the offsets of the tokens are strictly increasing.
\<close>

theorem tokenize_ends_with_Eof:
  "\<exists>ts. tokenize s = ts @ [Token Eof [] (length (splice_lines s))] \<and>
     list_all (\<lambda>t. tok_kind t \<noteq> Eof) ts \<and> sorted_wrt (<) (map tok_offset (tokenize s))"
  by (rule tokenize_Eof [of s]) (auto simp: list_all_iff)

text \<open>
  C35: every token the lexer produces from an ASCII source has the lexical class its kind stands for
  (an identifier is made of identifier bytes, a number starts with a digit or a dot and a digit, a
  line comment holds no newline, operators have one to three bytes, \<open>Other\<close> is never produced).
\<close>

theorem tokenize_lexical_classes:
  assumes "ascii s" and "t \<in> set (tokenize s)"
  shows "token_shape (tok_kind t) (tok_text t)"
  using tokenize_from_shaped [of "new_lexer (splice_lines s)"] assms
  by (auto simp: tokenize_def ascii_splice list_all_iff shaped_def)

theorem tokenize_lexical_classes_witness:
  "token_shape Ident ''x1''"
  using tokenize_lexical_classes [of "''x1+2''" "Token Ident ''x1'' 0"] by code_simp

text \<open>A source with a line continuation somewhere.\<close>

fun has_continuation :: "string \<Rightarrow> bool" where
  "has_continuation [] = False"
| "has_continuation (a # s) =
     (a = CHR 0x5C \<and> (take 1 s = [NL] \<or> take 2 s = [CHR 0x0D, NL]) \<or> has_continuation s)"

lemma length_splice_no_continuation:
  "\<not> has_continuation s \<Longrightarrow> length (splice_lines s) = length s + length (filter (\<lambda>c. 128 \<le> byte c) s)"
proof (induction s)
  case (Cons a s)
  then have "splice_lines (a # s) = encode_latin1 a @ splice_lines s"
    by (cases s; cases "tl s") auto
  then show ?case using Cons by (simp add: length_encode_latin1)
qed simp

lemma splice_ascii: "\<not> has_continuation s \<Longrightarrow> ascii s \<Longrightarrow> splice_lines s = s"
proof (induction s)
  case (Cons a s)
  then have "splice_lines (a # s) = encode_latin1 a @ splice_lines s"
    by (cases s; cases "tl s") auto
  then show ?case using Cons by (simp add: encode_latin1_ascii)
qed simp

text \<open>
  C39: translation phase 2 leaves a source without line continuations alone exactly when it is ASCII:
  every byte of a non-ASCII character is re-encoded as a character of its own
  (\<open>result.push(bytes[i] as char)\<close>), so the source grows by one byte for each.
\<close>

theorem splice_lines_identity_iff_ascii:
  assumes "\<not> has_continuation s"
  shows "(splice_lines s = s \<longleftrightarrow> ascii s) \<and>
    length (splice_lines s) = length s + length (filter (\<lambda>c. 128 \<le> byte c) s)"
proof -
  have "ascii s" if "splice_lines s = s"
  proof -
    from that length_splice_no_continuation [OF assms] have "filter (\<lambda>c. 128 \<le> byte c) s = []" by simp
    then show ?thesis by (auto simp: ascii_def list_all_iff filter_empty_conv not_le)
  qed
  then show ?thesis using assms by (auto simp: splice_ascii length_splice_no_continuation)
qed

theorem splice_lines_identity_iff_ascii_witness:
  "splice_lines [CHR 0xC3, CHR 0xA9] \<noteq> [CHR 0xC3, CHR 0xA9]"
  using splice_lines_identity_iff_ascii [of "[CHR 0xC3, CHR 0xA9]"] by simp

end
