(* ===== verification/Macros.thy ===== *)
theory Macros
  imports Lexer
begin

text \<open>
  The macro table and macro expansion (\<open>src/preprocess/macros.rs\<close>).  The table is a
  \<open>HashMap<String, MacroDef>\<close>; it is kept as an association list in which an insertion replaces the
  entry of the same name, and what the rest of the program relies on (look-up after insertion and
  removal) is the interface \<open>string_map\<close>, interpreted here on the table.  Token lists indexed by
  \<open>i\<close> are consumed from the front: \<open>tokens[i..]\<close> is the list argument.
\<close>

subsection \<open>The map interface\<close>

locale string_map =
  fixes empty :: "'m"
    and insert :: "string \<Rightarrow> 'v \<Rightarrow> 'm \<Rightarrow> 'm"
    and remove :: "string \<Rightarrow> 'm \<Rightarrow> 'm"
    and lookup :: "'m \<Rightarrow> string \<Rightarrow> 'v option"
  assumes lookup_empty: "lookup empty k = None"
    and lookup_insert: "lookup (insert k v m) k' = (if k' = k then Some v else lookup m k')"
    and lookup_remove: "lookup (remove k m) k' = (if k' = k then None else lookup m k')"
begin

lemma insert_remove_other: "k \<noteq> k' \<Longrightarrow> lookup (insert k v (remove k' m)) = lookup (remove k' (insert k v m))"
  by (auto simp: lookup_insert lookup_remove)

lemma remove_insert: "lookup m k = None \<Longrightarrow> lookup (remove k (insert k v m)) = lookup m"
  by (auto simp: lookup_insert lookup_remove)

text \<open>A sequence of insertions: the last one for a name counts.\<close>

lemma lookup_fold_insert:
  "lookup (fold (\<lambda>v. insert (name v) v) vs m) k =
     (case find (\<lambda>v. name v = k) (rev vs) of Some v \<Rightarrow> Some v | None \<Rightarrow> lookup m k)"
proof (induction vs arbitrary: m)
  case (Cons v vs)
  have app: "find P (xs @ [v]) = (case find P xs of Some x \<Rightarrow> Some x | None \<Rightarrow> if P v then Some v else None)"
    for P xs by (induction xs) auto
  show ?case
    by (simp add: Cons.IH lookup_insert app split: option.splits)
qed simp

end

subsection \<open>Definitions and the table\<close>

record macro_def =
  md_name :: string
  md_params :: "string list option"
  md_is_variadic :: bool
  md_body :: "token list"

type_synonym macro_table = "(string \<times> macro_def) list"

definition new_table :: macro_table where
  "new_table = []"

definition define_macro :: "macro_def \<Rightarrow> macro_table \<Rightarrow> macro_table" where
  "define_macro d t = AList.update (md_name d) d t"

definition undef_macro :: "string \<Rightarrow> macro_table \<Rightarrow> macro_table" where
  "undef_macro n t = AList.delete n t"

definition get_macro :: "macro_table \<Rightarrow> string \<Rightarrow> macro_def option" where
  "get_macro t n = map_of t n"

definition is_defined :: "macro_table \<Rightarrow> string \<Rightarrow> bool" where
  "is_defined t n \<longleftrightarrow> n \<in> set (map fst t)"

definition all_macros :: "macro_table \<Rightarrow> macro_def list" where
  "all_macros t = map snd t"

definition macro_names :: "macro_table \<Rightarrow> string list" where
  "macro_names t = map fst t"

definition table_len :: "macro_table \<Rightarrow> nat" where
  "table_len t = length t"

definition table_is_empty :: "macro_table \<Rightarrow> bool" where
  "table_is_empty t \<longleftrightarrow> t = []"

text \<open>
  What \<open>HashMap::insert(def.name, def)\<close> keeps: one entry per name, stored under its own name.
\<close>

definition table_wf :: "macro_table \<Rightarrow> bool" where
  "table_wf t \<longleftrightarrow> distinct (map fst t) \<and> list_all (\<lambda>(n, d). md_name d = n) t"

interpretation macros: string_map new_table "\<lambda>k d. AList.update k d" undef_macro get_macro
  by unfold_locales
    (auto simp: new_table_def undef_macro_def get_macro_def update_conv' AList.delete_conv')

lemma get_define: "get_macro (define_macro d t) n = (if n = md_name d then Some d else get_macro t n)"
  by (simp add: define_macro_def macros.lookup_insert)

lemma get_undef: "get_macro (undef_macro m t) n = (if n = m then None else get_macro t n)"
  by (simp add: macros.lookup_remove)

lemma is_defined_iff: "is_defined t n \<longleftrightarrow> get_macro t n \<noteq> None"
  by (auto simp: is_defined_def get_macro_def map_of_eq_None_iff image_iff dest: map_of_SomeD)

lemma get_new [simp]: "get_macro new_table n = None"
  by (rule macros.lookup_empty)

lemma get_macro_mem: "get_macro t n = Some d \<Longrightarrow> n \<in> fst ` set t"
  by (auto simp: get_macro_def dest!: map_of_SomeD intro: rev_image_eqI)

lemma table_wf_new [simp]: "table_wf new_table"
  by (simp add: table_wf_def new_table_def)

lemma update_mem:
  "(k, v) \<in> set (AList.update n d t) \<Longrightarrow> (k, v) = (n, d) \<or> (k, v) \<in> set t"
  by (induction t) (auto split: if_splits)

lemma table_wf_define [intro]: "table_wf t \<Longrightarrow> table_wf (define_macro d t)"
  by (auto simp: table_wf_def define_macro_def AList.distinct_update list_all_iff dest!: update_mem)

lemma table_wf_undef [intro]: "table_wf t \<Longrightarrow> table_wf (undef_macro n t)"
  by (auto simp: table_wf_def undef_macro_def AList.distinct_delete AList.delete_eq list_all_iff
      distinct_map_filter)

subsection \<open>Collecting arguments\<close>

text \<open>
  The loop of \<open>collect_macro_args\<close> after the opening parenthesis: \<open>args\<close> are the finished arguments and
  \<open>cur\<close> is \<open>args.last_mut()\<close>.  It stops behind the matching parenthesis, or fails at the end of the
  tokens.  \<open>depth\<close> is an \<open>i32\<close>, which wraps where overflow checks are off.  Where they are on, the increment past
  \<open>i32::MAX\<close> panics instead; fewer than \<open>2 ^ 31\<close> tokens reach neither (\<open>wrap_i32_id\<close>).
\<close>

definition wrap_i32 :: "int \<Rightarrow> int" where
  "wrap_i32 v = (v + 2 ^ 31) mod 2 ^ 32 - 2 ^ 31"

lemma wrap_i32_id [simp]: "- (2 ^ 31) \<le> v \<Longrightarrow> v < 2 ^ 31 \<Longrightarrow> wrap_i32 v = v"
  by (simp add: wrap_i32_def)

fun collect_loop ::
  "token list \<Rightarrow> int \<Rightarrow> token list list \<Rightarrow> token list \<Rightarrow> (token list list \<times> token list) option" where
  "collect_loop [] depth args cur = None"
| "collect_loop (t # ts) depth args cur =
     (if tok_text t = ''('' then collect_loop ts (wrap_i32 (depth + 1)) args (cur @ [t])
      else if tok_text t = '')'' then
        (if depth = 0 then Some (args @ [cur], ts)
         else collect_loop ts (wrap_i32 (depth - 1)) args (cur @ [t]))
      else if tok_text t = '','' \<and> depth = 0 then collect_loop ts depth (args @ [cur]) []
      else collect_loop ts depth args (cur @ [t]))"

definition collect_macro_args :: "token list \<Rightarrow> (token list list \<times> token list) option" where
  "collect_macro_args ts =
     (case skip_ws ts of
        [] \<Rightarrow> None
      | p # ts' \<Rightarrow>
          if tok_text p \<noteq> ''('' then None
          else (case collect_loop ts' 0 [] [] of
                  None \<Rightarrow> None
                | Some (args, rest) \<Rightarrow>
                    (let args' = map trim_tokens args
                     in Some (if length args' = 1 \<and> args' ! 0 = [] then [] else args', rest))))"

subsection \<open>Substitution\<close>

fun escape_char :: "char \<Rightarrow> string" where
  "escape_char c = (if c = CHR 0x22 \<or> c = CHR 0x5C then [CHR 0x5C, c] else [c])"

definition stringify_tokens :: "token list \<Rightarrow> string" where
  "stringify_tokens ts =
     CHR 0x22 # concat (map (\<lambda>t. concat (map escape_char (tok_text t))) ts) @ [CHR 0x22]"

text \<open>\<open>args.get(idx).cloned().unwrap_or_default()\<close>.\<close>

definition arg_at :: "token list list \<Rightarrow> nat \<Rightarrow> token list" where
  "arg_at args i = (case get_opt args i of Some a \<Rightarrow> a | None \<Rightarrow> [])"

definition param_index :: "string list \<Rightarrow> token \<Rightarrow> nat option" where
  "param_index params t = position (\<lambda>p. p = tok_text t) params"

definition append_to_last :: "string \<Rightarrow> token list \<Rightarrow> token list" where
  "append_to_last s ts =
     (if ts = [] then [] else butlast ts @ [(last ts)\<lparr>tok_text := tok_text (last ts) @ s\<rparr>])"

text \<open>The arguments that \<open>__VA_ARGS__\<close> stands for, separated by a comma and a space.\<close>

fun join_variadic :: "nat \<Rightarrow> token list list \<Rightarrow> token list" where
  "join_variadic off [] = []"
| "join_variadic off [a] = a"
| "join_variadic off (a # as) =
     a @ [Token Punct '','' off, Token Whitespace '' '' off] @ join_variadic off as"

function subst_loop ::
  "string list \<Rightarrow> bool \<Rightarrow> token list list \<Rightarrow> token list \<Rightarrow> token list \<Rightarrow> token list" where
  "subst_loop params variadic args [] result = result"
| "subst_loop params variadic args (tok # rest) result =
     (let stringizing = tok_kind tok = Hash \<and> rest \<noteq> [];
          skipped = stringizing \<and> is_ws (hd rest) \<and> 2 \<le> length rest;
          rest1 = (if skipped then tl rest else rest);
          idx = (if stringizing then param_index params (hd rest1) else None)
      in case idx of
           Some i \<Rightarrow>
             subst_loop params variadic args (tl rest1)
               (result @ [Token StringLiteral (stringify_tokens (arg_at args i)) (tok_offset tok)])
         | None \<Rightarrow>
             if tok_kind tok = HashHash then
               (let result1 = rdropWhile is_ws result; rest2 = skip_ws rest1
                in case rest2 of
                     [] \<Rightarrow> subst_loop params variadic args [] result1
                   | right # rest3 \<Rightarrow>
                       (let right_text = (case param_index params right of
                                            Some i \<Rightarrow> tokens_to_text (arg_at args i)
                                          | None \<Rightarrow> tok_text right)
                        in subst_loop params variadic args rest3
                             (append_to_last right_text result1)))
             else if tok_kind tok = Ident \<and> tok_text tok = ''__VA_ARGS__'' \<and> variadic then
               subst_loop params variadic args rest1
                 (result @ join_variadic (tok_offset tok) (drop (length params) args))
             else if tok_kind tok = Ident \<and> param_index params tok \<noteq> None then
               subst_loop params variadic args rest1
                 (result @ arg_at args (the (param_index params tok)))
             else subst_loop params variadic args rest1 (result @ [tok]))"
  by pat_completeness auto
termination
proof (relation "measure (\<lambda>(ps, v, as, ts, r). length ts)", goal_cases)
  case (3 params variadic args tok rest result st sk rest1 idx r1 rest2 right rest3)
  then have "length (right # rest3) \<le> length rest1" by (metis length_dropWhile_le)
  then show ?case using 3 by (auto split: if_splits)
qed (auto simp: Let_def split: if_splits)

definition substitute_fn_macro :: "macro_def \<Rightarrow> token list list \<Rightarrow> token list" where
  "substitute_fn_macro d args =
     (case md_params d of
        None \<Rightarrow> md_body d
      | Some params \<Rightarrow> subst_loop params (md_is_variadic d) args (md_body d) [])"

lemma collect_loop_length: "collect_loop ts depth args cur = Some (r, rest) \<Longrightarrow> length rest < length ts"
  by (induction ts depth args cur rule: collect_loop.induct) (auto split: if_splits)

lemma collect_macro_args_length:
  assumes "collect_macro_args ts = Some (args, rest)"
  shows "length rest < length ts"
proof -
  obtain p ts' r where "skip_ws ts = p # ts'" "collect_loop ts' 0 [] [] = Some (r, rest)"
    using assms by (auto simp: collect_macro_args_def Let_def split: list.splits if_splits option.splits)
  then show ?thesis
    using collect_loop_length [of ts' 0 "[]" "[]"] length_dropWhile_le [of is_ws ts] by fastforce
qed

subsection \<open>Expansion\<close>

text \<open>
  \<open>paint\<close> is the stack of the macros being expanded: a name on it is not expanded again.  Every
  recursive call either works on fewer tokens with the same stack, or pushes a name of the table that
  was not on it, so the expansion of any token list under any table ends.
\<close>

function expand_with_paint :: "macro_table \<Rightarrow> token list \<Rightarrow> string list \<Rightarrow> token list" where
  "expand_with_paint t [] paint = []"
| "expand_with_paint t (tok # toks) paint =
     (if tok_kind tok = Ident \<and> tok_text tok \<notin> set paint then
        (case get_macro t (tok_text tok) of
           Some d \<Rightarrow>
             (case md_params d of
                None \<Rightarrow>
                  expand_with_paint t (md_body d) (paint @ [tok_text tok]) @
                  expand_with_paint t toks paint
              | Some ps \<Rightarrow>
                  (case collect_macro_args toks of
                     Some (args, rest) \<Rightarrow>
                       expand_with_paint t (substitute_fn_macro d args) (paint @ [tok_text tok]) @
                       expand_with_paint t rest paint
                   | None \<Rightarrow> tok # expand_with_paint t toks paint))
         | None \<Rightarrow> tok # expand_with_paint t toks paint)
      else tok # expand_with_paint t toks paint)"
  by pat_completeness auto

definition unpainted :: "macro_table \<Rightarrow> string list \<Rightarrow> nat" where
  "unpainted t paint = card (fst ` set t - set paint)"

lemma unpainted_less:
  assumes "get_macro t n = Some d" "n \<notin> set paint"
  shows "unpainted t (paint @ [n]) < unpainted t paint"
  using assms get_macro_mem [of t n d]
  unfolding unpainted_def by (intro psubset_card_mono) auto

termination expand_with_paint
proof (relation "measures [\<lambda>(t, ts, paint). unpainted t paint, \<lambda>(t, ts, paint). length ts]",
    goal_cases)
  case 1
  show ?case by simp
qed (auto simp: unpainted_less dest: collect_macro_args_length)

definition expand :: "macro_table \<Rightarrow> token list \<Rightarrow> token list" where
  "expand t ts = expand_with_paint t ts []"

declare expand_with_paint.simps(2) [simp del]

subsection \<open>Arguments: what the collector accepts\<close>

text \<open>
  A raw argument, read at nesting depth \<open>d\<close>: its parentheses match and a comma occurs only inside
  them.
\<close>

fun raw_arg :: "nat \<Rightarrow> token list \<Rightarrow> bool" where
  "raw_arg d [] = (d = 0)"
| "raw_arg d (t # ts) =
     (if tok_text t = ''('' then raw_arg (Suc d) ts
      else if tok_text t = '')'' then d \<noteq> 0 \<and> raw_arg (d - 1) ts
      else if tok_text t = '','' then d \<noteq> 0 \<and> raw_arg d ts
      else raw_arg d ts)"

definition call_token :: "string \<Rightarrow> token \<Rightarrow> bool" where
  "call_token s t \<longleftrightarrow> tok_text t = s"

text \<open>
  An argument list: raw arguments separated by comma tokens, the first of them read from depth \<open>d\<close>.
\<close>

fun arg_list :: "nat \<Rightarrow> token list list \<Rightarrow> token list \<Rightarrow> bool" where
  "arg_list d [] ts = False"
| "arg_list d [a] ts = (ts = a \<and> raw_arg d a)"
| "arg_list d (a # b # as) ts =
     (raw_arg d a \<and> (\<exists>c rest. ts = a @ c # rest \<and> call_token '','' c \<and> arg_list 0 (b # as) rest))"

text \<open>Below the bound of \<open>i32\<close> the depth counts.\<close>

lemma collect_loop_counts:
  assumes "Suc d < 2 ^ 31"
  shows "collect_loop (t # ts) (int d) args cur =
     (if tok_text t = ''('' then collect_loop ts (int (Suc d)) args (cur @ [t])
      else if tok_text t = '')'' then
        (if d = 0 then Some (args @ [cur], ts) else collect_loop ts (int (d - 1)) args (cur @ [t]))
      else if tok_text t = '','' \<and> d = 0 then collect_loop ts (int d) (args @ [cur]) []
      else collect_loop ts (int d) args (cur @ [t]))"
proof -
  have "wrap_i32 (int d + 1) = int (Suc d)" using assms by simp
  moreover have "wrap_i32 (int d - 1) = int (d - 1)" if "d \<noteq> 0" using assms that by (simp add: of_nat_diff)
  ultimately show ?thesis by simp
qed

declare collect_loop.simps(2) [simp del]

lemma collect_raw_arg:
  "raw_arg d a \<Longrightarrow> d + length a < 2 ^ 31 \<Longrightarrow>
    collect_loop (a @ ts) (int d) args cur = collect_loop ts 0 args (cur @ a)"
  by (induction d a arbitrary: cur rule: raw_arg.induct) (auto simp: collect_loop_counts split: if_splits)

lemma collect_arg_list:
  "arg_list d (a # raw) ts \<Longrightarrow> call_token '')'' rp \<Longrightarrow> d + length ts < 2 ^ 31 \<Longrightarrow>
     collect_loop (ts @ rp # rest) (int d) args cur = Some (args @ (cur @ a) # raw, rest)"
proof (induction raw arbitrary: d a ts args cur)
  case Nil
  then show ?case using collect_loop_counts [of 0] by (simp add: collect_raw_arg call_token_def)
next
  case (Cons b raw)
  then obtain c us where u: "raw_arg d a" "ts = a @ c # us" "call_token '','' c"
    "arg_list 0 (b # raw) us" by auto
  have "collect_loop (us @ rp # rest) (int 0) (args @ [cur @ a]) [] = Some ((args @ [cur @ a]) @ b # raw, rest)"
    using Cons.IH [OF u(4) Cons.prems(2), of "args @ [cur @ a]" "[]"] Cons.prems(3) u(2) by simp
  then show ?case
    using u Cons.prems(3) collect_loop_counts [of 0 c] by (simp add: collect_raw_arg call_token_def)
qed

text \<open>Conversely, whatever the loop returns was an argument list up to the closing parenthesis.\<close>

lemma arg_list_push:
  "arg_list d' (a # raw) us \<Longrightarrow> (raw_arg d' a \<Longrightarrow> raw_arg d (t # a)) \<Longrightarrow>
     arg_list d ((t # a) # raw) (t # us)"
  by (cases raw) auto

lemma collect_loop_sound:
  "collect_loop ts (int d) args cur = Some (r, rest) \<Longrightarrow> d + length ts < 2 ^ 31 \<Longrightarrow>
     \<exists>us rp a raw. ts = us @ rp # rest \<and> call_token '')'' rp \<and> arg_list d (a # raw) us \<and>
       r = args @ (cur @ a) # raw"
proof (induction ts arbitrary: d args cur)
  case (Cons t ts)
  note step = collect_loop_counts [of d t ts args cur]
  have small: "Suc d < 2 ^ 31" using Cons.prems(2) by simp
  consider (close) "tok_text t = '')''" "d = 0" | (comma) "tok_text t = '',''" "d = 0"
    | (other) "\<not> (tok_text t = '')'' \<and> d = 0)" "\<not> (tok_text t = '','' \<and> d = 0)" by blast
  then show ?case
  proof cases
    case close
    then show ?thesis using Cons.prems step small
      by (intro exI [of _ "[]"] exI [of _ t]) (auto simp: call_token_def)
  next
    case comma
    then have "collect_loop ts (int 0) (args @ [cur]) [] = Some (r, rest)" using Cons.prems step small by simp
    then obtain us rp a raw where "ts = us @ rp # rest" "call_token '')'' rp"
      "arg_list 0 (a # raw) us" "r = args @ cur # a # raw"
      using Cons.IH [of 0 "args @ [cur]" "[]"] Cons.prems(2) by auto
    then show ?thesis using comma
      by (intro exI [of _ "t # us"] exI [of _ rp] exI [of _ "[]"] exI [of _ "a # raw"])
        (auto simp: call_token_def)
  next
    case other
    let ?d = "if tok_text t = ''('' then Suc d else if tok_text t = '')'' then d - 1 else d"
    have run: "collect_loop ts (int ?d) args (cur @ [t]) = Some (r, rest)"
      using other Cons.prems(1) small by (auto simp: step split: if_splits)
    moreover have "?d + length ts < 2 ^ 31" using Cons.prems(2) by auto
    ultimately obtain us rp a raw where u: "ts = us @ rp # rest" "call_token '')'' rp"
      "arg_list ?d (a # raw) us" "r = args @ (cur @ t # a) # raw"
      using Cons.IH [of ?d args "cur @ [t]"] by auto
    from u(3) have "arg_list d ((t # a) # raw) (t # us)"
      by (rule arg_list_push) (use other in \<open>auto split: if_splits\<close>)
    with u show ?thesis
      by (intro exI [of _ "t # us"] exI [of _ rp] exI [of _ "t # a"] exI [of _ raw]) auto
  qed
qed simp

subsection \<open>Substitution without operators\<close>

text \<open>What one body token is replaced by when no \<open>#\<close> or \<open>##\<close> is involved.\<close>

definition replace_param :: "string list \<Rightarrow> bool \<Rightarrow> token list list \<Rightarrow> token \<Rightarrow> token list" where
  "replace_param params variadic args t =
     (if tok_kind t \<noteq> Ident then [t]
      else if tok_text t = ''__VA_ARGS__'' \<and> variadic
      then join_variadic (tok_offset t) (drop (length params) args)
      else case param_index params t of Some i \<Rightarrow> arg_at args i | None \<Rightarrow> [t])"

definition operator_free :: "token list \<Rightarrow> bool" where
  "operator_free ts \<longleftrightarrow> list_all (\<lambda>t. tok_kind t \<noteq> Hash \<and> tok_kind t \<noteq> HashHash) ts"

lemma subst_plain:
  "operator_free body \<Longrightarrow>
     subst_loop ps v args body r = r @ concat (map (replace_param ps v args) body)"
  by (induction body arbitrary: r) (auto simp: operator_free_def replace_param_def Let_def)

subsection \<open>Expansion of tables of object-like macros\<close>

definition macro_name :: "macro_table \<Rightarrow> token \<Rightarrow> bool" where
  "macro_name t tok \<longleftrightarrow> tok_kind tok = Ident \<and> is_defined t (tok_text tok)"

definition object_like :: "macro_table \<Rightarrow> bool" where
  "object_like t \<longleftrightarrow> list_all (\<lambda>(n, d). md_params d = None) t"

text \<open>Bodies mention only macros of a smaller rank: there is no circular definition.\<close>

definition ranked :: "(string \<Rightarrow> nat) \<Rightarrow> macro_table \<Rightarrow> bool" where
  "ranked r t \<longleftrightarrow>
     list_all (\<lambda>(n, d). list_all (\<lambda>b. macro_name t b \<longrightarrow> r (tok_text b) < r n) (md_body d)) t"

lemma get_macro_set: "get_macro t n = Some d \<Longrightarrow> (n, d) \<in> set t"
  by (simp add: get_macro_def map_of_SomeD)

lemma object_like_get: "object_like t \<Longrightarrow> get_macro t n = Some d \<Longrightarrow> md_params d = None"
  by (auto simp: object_like_def list_all_iff dest: get_macro_set)

lemma ranked_get:
  "ranked r t \<Longrightarrow> get_macro t n = Some d \<Longrightarrow> b \<in> set (md_body d) \<Longrightarrow> macro_name t b \<Longrightarrow>
     r (tok_text b) < r n"
  by (fastforce simp: ranked_def list_all_iff dest: get_macro_set)

lemma expand_object_step:
  "object_like t \<Longrightarrow>
     expand_with_paint t (tok # toks) paint =
       (if tok_kind tok = Ident \<and> tok_text tok \<notin> set paint \<and> is_defined t (tok_text tok)
        then expand_with_paint t (md_body (the (get_macro t (tok_text tok)))) (paint @ [tok_text tok])
        else [tok]) @ expand_with_paint t toks paint"
  by (subst expand_with_paint.simps)
    (auto simp: is_defined_iff object_like_get split: option.splits)

lemma expand_painted:
  "(\<And>tok. tok \<in> set ts \<Longrightarrow> macro_name t tok \<Longrightarrow> tok_text tok \<in> set paint) \<Longrightarrow>
     expand_with_paint t ts paint = ts"
proof (induction ts)
  case (Cons a ts)
  then have "expand_with_paint t ts paint = ts" by simp
  moreover have "tok_kind a = Ident \<Longrightarrow> tok_text a \<notin> set paint \<Longrightarrow> get_macro t (tok_text a) = None"
    using Cons.prems [of a] by (cases "get_macro t (tok_text a)") (auto simp: macro_name_def is_defined_iff)
  ultimately show ?case by (subst expand_with_paint.simps) auto
qed simp

lemma expand_object_append:
  "object_like t \<Longrightarrow>
     expand_with_paint t (xs @ ys) paint = expand_with_paint t xs paint @ expand_with_paint t ys paint"
  by (induction xs) (simp_all add: expand_object_step)

lemma expand_ranked:
  assumes t: "object_like t" "ranked r t"
  shows "\<forall>tok\<in>set ts. macro_name t tok \<longrightarrow> (\<forall>p\<in>set paint. r (tok_text tok) < r p) \<Longrightarrow>
    x \<in> set (expand_with_paint t ts paint) \<Longrightarrow> \<not> macro_name t x"
proof (induction "unpainted t paint" arbitrary: paint ts x rule: less_induct)
  case less
  from less.prems show ?case
  proof (induction ts)
    case (Cons tok toks)
    let ?n = "tok_text tok"
    consider (rest) "x \<in> set (expand_with_paint t toks paint)"
      | (body) d where "macro_name t tok" "get_macro t ?n = Some d" "?n \<notin> set paint"
          "x \<in> set (expand_with_paint t (md_body d) (paint @ [?n]))"
      | (self) "x = tok" "\<not> macro_name t tok \<or> ?n \<in> set paint"
      using Cons.prems(2) t(1)
      by (auto simp: expand_object_step macro_name_def is_defined_iff split: if_splits)
    then show ?case
    proof cases
      case rest
      then show ?thesis using Cons by simp
    next
      case body
      have "\<forall>b\<in>set (md_body d). macro_name t b \<longrightarrow> (\<forall>p\<in>set (paint @ [?n]). r (tok_text b) < r p)"
      proof (intro ballI impI)
        fix b p assume b: "b \<in> set (md_body d)" "macro_name t b" and p: "p \<in> set (paint @ [?n])"
        then have "r (tok_text b) < r ?n" using ranked_get [OF t(2) body(2)] by blast
        moreover have "p = ?n \<or> r ?n < r p" using p Cons.prems(1) body(1) by auto
        ultimately show "r (tok_text b) < r p" by auto
      qed
      then show ?thesis
        using less.hyps [OF unpainted_less [OF body(2,3)]] body(4) by blast
    next
      case self
      then show ?thesis using Cons.prems(1) by auto
    qed
  qed simp
qed

subsection \<open>Stringification\<close>


definition escape :: "string \<Rightarrow> string" where
  "escape s = concat (map escape_char s)"

lemma escape_simps [simp]:
  "escape [] = []"
  "escape (c # s) = escape_char c @ escape s"
  "escape (s @ t) = escape s @ escape t"
  by (simp_all add: escape_def)






subsection \<open>Properties\<close>

text \<open>
  C14: argument collection inverts the spelling of a call.  After optional whitespace, an opening
  parenthesis, raw arguments (balanced, commas only inside parentheses) separated by commas, and a
  closing parenthesis, the collector returns exactly these arguments, trimmed, and the tokens after
  the call; conversely it returns nothing else.  The tokens are fewer than \<open>2 ^ 31\<close>, so that the nesting depth, an
  \<open>i32\<close>, does not overflow.
\<close>

theorem collect_macro_args_iff:
  assumes "length ts < 2 ^ 31"
  shows "collect_macro_args ts = Some (args, rest) \<longleftrightarrow>
     (\<exists>lp us rp raw. skip_ws ts = lp # us @ rp # rest \<and> call_token ''('' lp \<and> call_token '')'' rp \<and>
        arg_list 0 raw us \<and>
        args = (if map trim_tokens raw = [[]] then [] else map trim_tokens raw))"
  (is "?l = ?r")
proof
  assume ?l
  then obtain lp ts' raw where c: "skip_ws ts = lp # ts'" "tok_text lp = ''(''"
    "collect_loop ts' (int 0) [] [] = Some (raw, rest)"
    "args = (if length (map trim_tokens raw) = 1 \<and> map trim_tokens raw ! 0 = [] then []
             else map trim_tokens raw)"
    by (auto simp: collect_macro_args_def Let_def split: list.splits if_splits option.splits)
  have "length ts' < 2 ^ 31"
    using assms length_dropWhile_le [of is_ws ts] by (simp add: c(1))
  then obtain us rp where
    "ts' = us @ rp # rest" "call_token '')'' rp" "arg_list 0 raw us"
    using collect_loop_sound [OF c(3)] by auto
  moreover have "(length (map trim_tokens raw) = 1 \<and> map trim_tokens raw ! 0 = []) \<longleftrightarrow>
      map trim_tokens raw = [[]]" by (cases raw) auto
  ultimately show ?r using c by (auto simp: call_token_def)
next
  assume ?r
  then obtain lp us rp raw where c: "skip_ws ts = lp # us @ rp # rest" "tok_text lp = ''(''"
    "call_token '')'' rp" "arg_list 0 raw us"
    "args = (if map trim_tokens raw = [[]] then [] else map trim_tokens raw)"
    by (auto simp: call_token_def)
  have short: "length us < 2 ^ 31"
    using assms length_dropWhile_le [of is_ws ts] by (simp add: c(1))
  obtain a as where "raw = a # as" using c(4) by (cases raw) auto
  then have "collect_loop (us @ rp # rest) 0 [] [] = Some (raw, rest)"
    using collect_arg_list [of 0 a as us rp rest "[]" "[]"] c short by simp
  moreover have "(length (map trim_tokens raw) = 1 \<and> map trim_tokens raw ! 0 = []) \<longleftrightarrow>
      map trim_tokens raw = [[]]" by (cases raw) auto
  ultimately show ?l using c by (simp add: collect_macro_args_def Let_def)
qed

theorem collect_macro_args_iff_witness:
  "collect_macro_args (butlast (tokenize '' (a,(b,c)) d'')) =
     Some ([[Token Ident ''a'' 2],
            [Token Punct ''('' 4, Token Ident ''b'' 5, Token Punct '','' 6, Token Ident ''c'' 7, Token Punct '')'' 8]],
           [Token Whitespace '' '' 10, Token Ident ''d'' 11])"
proof -
  let ?b = "[Token Punct ''('' 4, Token Ident ''b'' 5, Token Punct '','' 6, Token Ident ''c'' 7, Token Punct '')'' 8]"
  let ?rest = "[Token Whitespace '' '' 10, Token Ident ''d'' 11]"
  have tokens: "butlast (tokenize '' (a,(b,c)) d'') =
    Token Whitespace '' '' 0 # Token Punct ''('' 1 # (Token Ident ''a'' 2 # Token Punct '','' 3 # ?b) @
      Token Punct '')'' 9 # ?rest" by code_simp
  have short: "length (butlast (tokenize '' (a,(b,c)) d'')) < 2 ^ 31" by (simp add: tokens)
  have "raw_arg 0 [Token Ident ''a'' 2]" "raw_arg 0 ?b" by code_simp+
  then have "arg_list 0 [[Token Ident ''a'' 2], ?b] (Token Ident ''a'' 2 # Token Punct '','' 3 # ?b)"
    by (simp add: call_token_def)
  moreover have "skip_ws (butlast (tokenize '' (a,(b,c)) d'')) =
    Token Punct ''('' 1 # (Token Ident ''a'' 2 # Token Punct '','' 3 # ?b) @ Token Punct '')'' 9 # ?rest"
    by code_simp
  moreover have "map trim_tokens [[Token Ident ''a'' 2], ?b] = [[Token Ident ''a'' 2], ?b]" by code_simp
  ultimately show ?thesis
    unfolding collect_macro_args_iff [OF short]
    by (intro exI [of _ "Token Punct ''('' 1"] exI [of _ "Token Ident ''a'' 2 # Token Punct '','' 3 # ?b"]
        exI [of _ "Token Punct '')'' 9"] exI [of _ "[[Token Ident ''a'' 2], ?b]"]) (simp add: call_token_def)
qed

text \<open>
  C22: under a table of object-like macros without circular definitions, expansion is complete: no
  macro name is left in the result, and expanding the result again changes nothing.
\<close>

theorem expand_complete:
  assumes "object_like t" and "ranked r t"
  shows "list_all (\<lambda>x. \<not> macro_name t x) (expand t ts) \<and> expand t (expand t ts) = expand t ts"
proof -
  have n: "\<not> macro_name t x" if "x \<in> set (expand t ts)" for x
    using expand_ranked [OF assms, of ts "[]" x] that by (simp add: expand_def)
  then have "expand t (expand t ts) = expand t ts"
    unfolding expand_def [of t "expand t ts"] by (intro expand_painted) blast
  with n show ?thesis by (simp add: list_all_iff)
qed

theorem expand_complete_witness:
  "\<not> macro_name [(''A'', \<lparr>md_name = ''A'', md_params = None, md_is_variadic = False,
                    md_body = [Token Ident ''B'' 0]\<rparr>)] (Token Ident ''B'' 0)"
proof -
  let ?t = "[(''A'', \<lparr>md_name = ''A'', md_params = None, md_is_variadic = False,
                    md_body = [Token Ident ''B'' 0]\<rparr>)]"
  have "object_like ?t" "ranked (\<lambda>_. 0) ?t" by code_simp+
  from expand_complete [OF this, of "[Token Ident ''A'' 5]"]
  have "list_all (\<lambda>x. \<not> macro_name ?t x) (expand ?t [Token Ident ''A'' 5])" by blast
  moreover have "expand ?t [Token Ident ''A'' 5] = [Token Ident ''B'' 0]" by code_simp
  ultimately show ?thesis by simp
qed

text \<open>
  C30: a body without \<open>#\<close> and \<open>##\<close> is instantiated token by token: every parameter is replaced by its
  argument, \<open>__VA_ARGS__\<close> of a variadic macro by the surplus arguments, all else is copied.
\<close>

theorem substitute_is_simultaneous:
  assumes "operator_free (md_body d)"
  shows "substitute_fn_macro d args =
    (case md_params d of
       None \<Rightarrow> md_body d
     | Some ps \<Rightarrow> concat (map (replace_param ps (md_is_variadic d) args) (md_body d)))"
  using subst_plain [OF assms] by (simp add: substitute_fn_macro_def split: option.splits)

theorem substitute_is_simultaneous_witness:
  "substitute_fn_macro \<lparr>md_name = ''ADD'', md_params = Some [''a'', ''b''], md_is_variadic = False,
       md_body = [Token Ident ''b'' 0, Token Punct ''+'' 0, Token Ident ''a'' 0]\<rparr>
     [[Token Number ''1'' 0], [Token Number ''2'' 0]]
   = [Token Number ''2'' 0, Token Punct ''+'' 0, Token Number ''1'' 0]"
  by (subst substitute_is_simultaneous) code_simp+



text \<open>
  Arguments are not expanded before they are substituted, and the rescan paints the macro itself: where the body with the
  arguments in it names no other macro, a call is replaced by it as it stands, calls of the same macro in the
  arguments included.
\<close>

lemma nested_call_not_expanded:
  assumes "get_macro t n = Some d" "md_params d = Some ps" "tok_kind f = Ident" "tok_text f = n"
    and "collect_macro_args ts = Some (args, rest)"
    and "list_all (\<lambda>tok. macro_name t tok \<longrightarrow> tok_text tok = n) (substitute_fn_macro d args)"
  shows "expand t (f # ts) = substitute_fn_macro d args @ expand t rest"
proof -
  have "expand_with_paint t (substitute_fn_macro d args) [n] = substitute_fn_macro d args"
    using assms(6) by (intro expand_painted) (auto simp: list_all_iff)
  then show ?thesis
    using assms unfolding expand_def by (subst expand_with_paint.simps) simp
qed

end
