(* ===== verification/Expr.thy ===== *)
theory Expr
  imports Macros
begin

unbundle bit_operations_syntax

text \<open>
  The \<open>#if\<close> expression evaluator (\<open>src/preprocess/expr.rs\<close>): literals, the operators on \<open>i128\<close>, the
  recursive-descent parser \<open>ExprParser\<close>, and \<open>eval_condition\<close>.  The parser's position is the list of
  the tokens not yet read.  A parser yields a value and the remaining tokens, or panics.

  \<open>i128\<close> arithmetic that overflows panics where overflow checks are on (the default of a debug build)
  and wraps where they are off (the default of a release build); the flag \<open>chk\<close> says which.  The
  overflow of a division or remainder panics in both.
\<close>

subsection \<open>i128 arithmetic\<close>

definition in_i128 :: "int \<Rightarrow> bool" where
  "in_i128 v \<longleftrightarrow> - (2 ^ 127) \<le> v \<and> v < 2 ^ 127"

definition wrap_i128 :: "int \<Rightarrow> int" where
  "wrap_i128 v = (v + 2 ^ 127) mod 2 ^ 128 - 2 ^ 127"

definition arith :: "bool \<Rightarrow> int \<Rightarrow> int outcome" where
  "arith chk v =
     (if in_i128 v then Ok v else if chk then Panic ArithmeticOverflow else Ok (wrap_i128 v))"

definition trunc_div :: "int \<Rightarrow> int \<Rightarrow> int" where
  "trunc_div a b = sgn a * sgn b * (\<bar>a\<bar> div \<bar>b\<bar>)"

definition div_i128 :: "int \<Rightarrow> int \<Rightarrow> int outcome" where
  "div_i128 a b =
     (if b = 0 then Ok 0
      else if in_i128 (trunc_div a b) then Ok (trunc_div a b) else Panic ArithmeticOverflow)"

definition rem_i128 :: "int \<Rightarrow> int \<Rightarrow> int outcome" where
  "rem_i128 a b =
     (if b = 0 then Ok 0
      else if in_i128 (trunc_div a b) then Ok (a - trunc_div a b * b) else Panic ArithmeticOverflow)"

definition shl_i128 :: "bool \<Rightarrow> int \<Rightarrow> int \<Rightarrow> int outcome" where
  "shl_i128 chk a b =
     (if chk \<and> \<not> (0 \<le> b \<and> b < 128) then Panic ArithmeticOverflow
      else Ok (wrap_i128 (a * 2 ^ nat (b mod 128))))"

definition shr_i128 :: "bool \<Rightarrow> int \<Rightarrow> int \<Rightarrow> int outcome" where
  "shr_i128 chk a b =
     (if chk \<and> \<not> (0 \<le> b \<and> b < 128) then Panic ArithmeticOverflow
      else Ok (a div 2 ^ nat (b mod 128)))"

abbreviation truth :: "bool \<Rightarrow> int" where
  "truth b \<equiv> (if b then 1 else 0)"

subsection \<open>Literals\<close>

definition trim_int_suffix :: "string \<Rightarrow> string" where
  "trim_int_suffix s = rdropWhile (\<lambda>c. c \<in> set ''uUlL'') s"

definition or_zero :: "int option \<Rightarrow> int" where
  "or_zero r = (case r of Some v \<Rightarrow> v | None \<Rightarrow> 0)"

definition parse_integer :: "string \<Rightarrow> int" where
  "parse_integer text =
     (let s = trim_int_suffix text in
      if starts_with s ''0x'' \<or> starts_with s ''0X'' then or_zero (parse_i128 16 (drop 2 s))
      else if starts_with s ''0b'' \<or> starts_with s ''0B'' then or_zero (parse_i128 2 (drop 2 s))
      else if starts_with s ''0'' \<and> 1 < length s \<and> list_all is_ascii_digit s
      then or_zero (parse_i128 8 (drop 1 s))
      else or_zero (parse_i128 10 s))"

definition char_value :: "string \<Rightarrow> int" where
  "char_value s = (case first_char s of Some c \<Rightarrow> int c | None \<Rightarrow> 0)"

definition parse_char_constant :: "string \<Rightarrow> int outcome" where
  "parse_char_constant s =
     map_outcome (\<lambda>inner.
       if starts_with inner [CHR 0x5C] then
         (let rest = drop 1 inner in
          if starts_with rest ''n'' then 10
          else if starts_with rest ''t'' then 9
          else if starts_with rest ''r'' then 13
          else if starts_with rest ''0'' then 0
          else char_value rest)
       else char_value inner) (strip_delimiters s)"

subsection \<open>Token access\<close>

type_synonym parser = "token list \<Rightarrow> (int \<times> token list) outcome"

definition peek_tok :: "token list \<Rightarrow> token option" where
  "peek_tok ts = (case skip_ws ts of [] \<Rightarrow> None | t # _ \<Rightarrow> Some t)"

definition advance :: "token list \<Rightarrow> token option \<times> token list" where
  "advance ts = (case skip_ws ts of [] \<Rightarrow> (None, []) | t # r \<Rightarrow> (Some t, r))"

definition after :: "token list \<Rightarrow> token list" where
  "after ts = snd (advance ts)"

definition peek_text :: "token list \<Rightarrow> string" where
  "peek_text ts = (case peek_tok ts of None \<Rightarrow> [] | Some t \<Rightarrow> tok_text t)"

definition peek_text_is :: "string \<Rightarrow> token list \<Rightarrow> bool" where
  "peek_text_is s ts = (case peek_tok ts of None \<Rightarrow> False | Some t \<Rightarrow> tok_text t = s)"

subsection \<open>The binary levels\<close>

text \<open>
  \<open>let mut val = self.next(); while/loop { match peek_text() { op => { advance(); val = op(val,
  self.next()) } _ => break } } val\<close>, for the operators \<open>ops\<close> of one precedence level.  An iteration
  consumes the operator, so one more iteration than tokens is enough.
\<close>

type_synonym operators = "string \<Rightarrow> (int \<Rightarrow> int \<Rightarrow> int outcome) option"

fun bin_loop :: "operators \<Rightarrow> parser \<Rightarrow> nat \<Rightarrow> int \<Rightarrow> parser" where
  "bin_loop ops next 0 val ts = NoReturn"
| "bin_loop ops next (Suc n) val ts =
     (case ops (peek_text ts) of
        None \<Rightarrow> Ok (val, ts)
      | Some f \<Rightarrow>
          and_then (next (after ts)) (\<lambda>(rhs, ts').
            and_then (f val rhs) (\<lambda>val'. bin_loop ops next n val' ts')))"

definition bin_level :: "operators \<Rightarrow> parser \<Rightarrow> parser" where
  "bin_level ops next ts =
     and_then (next ts) (\<lambda>(val, ts'). bin_loop ops next (Suc (length ts')) val ts')"

definition multiplicative_ops :: "bool \<Rightarrow> operators" where
  "multiplicative_ops chk op =
     (if op = ''*'' then Some (\<lambda>a b. arith chk (a * b))
      else if op = ''/'' then Some div_i128
      else if op = ''%'' then Some rem_i128 else None)"

definition additive_ops :: "bool \<Rightarrow> operators" where
  "additive_ops chk op =
     (if op = ''+'' then Some (\<lambda>a b. arith chk (a + b))
      else if op = ''-'' then Some (\<lambda>a b. arith chk (a - b)) else None)"

definition shift_ops :: "bool \<Rightarrow> operators" where
  "shift_ops chk op =
     (if op = ''<<'' then Some (shl_i128 chk)
      else if op = ''>>'' then Some (shr_i128 chk) else None)"

definition relational_ops :: operators where
  "relational_ops op =
     (if op = ''<'' then Some (\<lambda>a b. Ok (truth (a < b)))
      else if op = ''>'' then Some (\<lambda>a b. Ok (truth (a > b)))
      else if op = ''<='' then Some (\<lambda>a b. Ok (truth (a \<le> b)))
      else if op = ''>='' then Some (\<lambda>a b. Ok (truth (a \<ge> b))) else None)"

definition equality_ops :: operators where
  "equality_ops op =
     (if op = ''=='' then Some (\<lambda>a b. Ok (truth (a = b)))
      else if op = ''!='' then Some (\<lambda>a b. Ok (truth (a \<noteq> b))) else None)"

definition bitwise_and_ops :: operators where
  "bitwise_and_ops op = (if op = ''&'' then Some (\<lambda>a b. Ok (a AND b)) else None)"

definition bitwise_xor_ops :: operators where
  "bitwise_xor_ops op = (if op = ''^'' then Some (\<lambda>a b. Ok (a XOR b)) else None)"

definition bitwise_or_ops :: operators where
  "bitwise_or_ops op = (if op = ''|'' then Some (\<lambda>a b. Ok (a OR b)) else None)"

definition logical_and_ops :: operators where
  "logical_and_ops op =
     (if op = ''&&'' then Some (\<lambda>a b. Ok (truth (a \<noteq> 0 \<and> b \<noteq> 0))) else None)"

definition logical_or_ops :: operators where
  "logical_or_ops op =
     (if op = ''||'' then Some (\<lambda>a b. Ok (truth (a \<noteq> 0 \<or> b \<noteq> 0))) else None)"

subsection \<open>The recursive-descent parser\<close>

text \<open>
  Only \<open>ternary\<close> recurs through a parenthesis or a branch of \<open>?:\<close>; the functions below it in the
  precedence order take it as the parameter \<open>tern\<close>.
\<close>

definition primary :: "parser \<Rightarrow> parser" where
  "primary tern ts =
     (if peek_text ts = ''('' then
        and_then (tern (after ts)) (\<lambda>(val, ts').
          Ok (val, if peek_text ts' = '')'' then after ts' else ts'))
      else case advance ts of
          (None, r) \<Rightarrow> Ok (0, r)
        | (Some tok, r) \<Rightarrow>
            (case tok_kind tok of
               Number \<Rightarrow> Ok (parse_integer (tok_text tok), r)
             | CharLiteral \<Rightarrow> map_outcome (\<lambda>v. (v, r)) (parse_char_constant (tok_text tok))
             | _ \<Rightarrow> Ok (0, r)))"

lemma length_after_less: "peek_text ts \<noteq> [] \<Longrightarrow> length (after ts) < length ts"
  by (auto simp: peek_text_def peek_tok_def after_def advance_def split: list.splits)
    (metis length_Cons length_dropWhile_le not_less_eq_eq not_le)

lemma length_after_le: "length (after ts) \<le> length ts"
  using length_dropWhile_le [of is_ws ts]
  by (auto simp: after_def advance_def split: list.splits)

function unary :: "bool \<Rightarrow> parser \<Rightarrow> parser" where
  "unary chk tern ts =
     (let op = peek_text ts in
      if op = ''!'' then map_outcome (\<lambda>(v, r). (truth (v = 0), r)) (unary chk tern (after ts))
      else if op = ''-'' then
        and_then (unary chk tern (after ts)) (\<lambda>(v, r). map_outcome (\<lambda>v'. (v', r)) (arith chk (- v)))
      else if op = ''+'' then unary chk tern (after ts)
      else if op = ''~'' then map_outcome (\<lambda>(v, r). (NOT v, r)) (unary chk tern (after ts))
      else primary tern ts)"
  by pat_completeness auto
termination
  by (relation "measure (\<lambda>(c, t, ts). length ts)") (auto intro!: length_after_less)

declare unary.simps [simp del]

definition multiplicative :: "bool \<Rightarrow> parser \<Rightarrow> parser" where
  "multiplicative chk tern = bin_level (multiplicative_ops chk) (unary chk tern)"

definition additive :: "bool \<Rightarrow> parser \<Rightarrow> parser" where
  "additive chk tern = bin_level (additive_ops chk) (multiplicative chk tern)"

definition shift :: "bool \<Rightarrow> parser \<Rightarrow> parser" where
  "shift chk tern = bin_level (shift_ops chk) (additive chk tern)"

definition relational :: "bool \<Rightarrow> parser \<Rightarrow> parser" where
  "relational chk tern = bin_level relational_ops (shift chk tern)"

definition equality :: "bool \<Rightarrow> parser \<Rightarrow> parser" where
  "equality chk tern = bin_level equality_ops (relational chk tern)"

definition bitwise_and :: "bool \<Rightarrow> parser \<Rightarrow> parser" where
  "bitwise_and chk tern = bin_level bitwise_and_ops (equality chk tern)"

definition bitwise_xor :: "bool \<Rightarrow> parser \<Rightarrow> parser" where
  "bitwise_xor chk tern = bin_level bitwise_xor_ops (bitwise_and chk tern)"

definition bitwise_or :: "bool \<Rightarrow> parser \<Rightarrow> parser" where
  "bitwise_or chk tern = bin_level bitwise_or_ops (bitwise_xor chk tern)"

definition logical_and :: "bool \<Rightarrow> parser \<Rightarrow> parser" where
  "logical_and chk tern = bin_level logical_and_ops (bitwise_or chk tern)"

definition logical_or :: "bool \<Rightarrow> parser \<Rightarrow> parser" where
  "logical_or chk tern = bin_level logical_or_ops (logical_and chk tern)"

text \<open>
  The depth of nested parentheses and conditional branches is bounded by the first argument; one
  more than the number of tokens is enough (shown below).
\<close>

fun ternary :: "bool \<Rightarrow> nat \<Rightarrow> parser" where
  "ternary chk 0 ts = NoReturn"
| "ternary chk (Suc n) ts =
     and_then (logical_or chk (ternary chk n) ts) (\<lambda>(cond, ts1).
       if peek_text_is ''?'' ts1 then
         and_then (ternary chk n (after ts1)) (\<lambda>(then_val, ts2).
           and_then (ternary chk n (if peek_text_is '':'' ts2 then after ts2 else ts2))
             (\<lambda>(else_val, ts3). Ok (if cond \<noteq> 0 then then_val else else_val, ts3)))
       else Ok (cond, ts1))"

subsection \<open>Conditions\<close>

definition bool_token :: "bool \<Rightarrow> nat \<Rightarrow> token" where
  "bool_token b off = Token Number (if b then ''1'' else ''0'') off"

text \<open>The first loop of \<open>expand_for_condition\<close>: \<open>defined NAME\<close> and \<open>defined(NAME)\<close> become 1 or 0.\<close>

function resolve_defined :: "macro_table \<Rightarrow> token list \<Rightarrow> token list" where
  "resolve_defined t [] = []"
| "resolve_defined t (tok # rest) =
     (if tok_kind tok = Ident \<and> tok_text tok = ''defined'' then
        (case skip_ws rest of
           [] \<Rightarrow> []
         | a # r1 \<Rightarrow>
             if tok_text a = ''('' then
               (case skip_ws r1 of
                  [] \<Rightarrow> []
                | b # r2 \<Rightarrow>
                    if tok_kind b = Ident then
                      bool_token (is_defined t (tok_text b)) (tok_offset b) #
                      (case skip_ws r2 of
                         [] \<Rightarrow> []
                       | c # r3 \<Rightarrow> resolve_defined t (if tok_text c = '')'' then r3 else c # r3))
                    else resolve_defined t (b # r2))
             else if tok_kind a = Ident then
               bool_token (is_defined t (tok_text a)) (tok_offset a) # resolve_defined t r1
             else resolve_defined t (a # r1))
      else tok # resolve_defined t rest)"
  by pat_completeness auto
termination
proof (relation "measure (\<lambda>(t, ts). length ts)", goal_cases)
  have le: "length ys \<le> length xs" if "skip_ws xs = ys" for xs ys
    using that length_dropWhile_le [of is_ws xs] by simp
  {
    case 2
    then show ?case by (auto dest!: le split: if_splits)
  next
    case 3
    then show ?case by (auto dest!: le)
  next
    case 4
    then show ?case by (auto dest!: le)
  next
    case 5
    then show ?case by (auto dest!: le)
  }
qed auto

definition zero_identifier :: "token \<Rightarrow> token" where
  "zero_identifier t = (if tok_kind t = Ident then Token Number ''0'' (tok_offset t) else t)"

definition expand_for_condition :: "token list \<Rightarrow> macro_table \<Rightarrow> token list" where
  "expand_for_condition ts t = map zero_identifier (expand t (resolve_defined t ts))"

definition eval_condition :: "bool \<Rightarrow> token list \<Rightarrow> macro_table \<Rightarrow> bool outcome" where
  "eval_condition chk ts t =
     (let expanded = expand_for_condition ts t
      in map_outcome (\<lambda>(result, _). result \<noteq> 0) (ternary chk (Suc (length expanded)) expanded))"

subsection \<open>Arithmetic stays in range\<close>

lemma in_i128_bits_above: "in_i128 v \<longleftrightarrow> (\<forall>n. bit v (min 127 n) = bit v n)"
proof -
  have "in_i128 v \<longleftrightarrow> signed_take_bit 127 v = v"
    by (simp add: in_i128_def signed_take_bit_int_eq_self_iff)
  then show ?thesis by (simp add: bit_eq_iff bit_signed_take_bit_iff min.commute)
qed

lemma in_i128_bits [simp]:
  "in_i128 a \<Longrightarrow> in_i128 b \<Longrightarrow> in_i128 (a AND b)"
  "in_i128 a \<Longrightarrow> in_i128 b \<Longrightarrow> in_i128 (a OR b)"
  "in_i128 a \<Longrightarrow> in_i128 b \<Longrightarrow> in_i128 (a XOR b)"
  "in_i128 a \<Longrightarrow> in_i128 (NOT a)"
  by (simp_all add: in_i128_bits_above bit_simps)

lemma in_i128_wrap [simp]: "in_i128 (wrap_i128 v)"
  using pos_mod_bound [of "2 ^ 128" "v + 2 ^ 127"] pos_mod_sign [of "2 ^ 128" "v + 2 ^ 127"]
  by (simp add: in_i128_def wrap_i128_def)

lemma wrap_i128_id: "in_i128 v \<Longrightarrow> wrap_i128 v = v"
  by (simp add: in_i128_def wrap_i128_def)

lemma in_i128_consts [simp]: "in_i128 0" "in_i128 1"
  by (simp_all add: in_i128_def)

lemma arith_range: "arith chk v = Ok w \<Longrightarrow> in_i128 w"
  by (auto simp: arith_def split: if_splits)

lemma arith_returns [simp]: "arith chk v \<noteq> NoReturn"
  by (simp add: arith_def)

lemma trunc_rem: "a - trunc_div a b * b = sgn a * (\<bar>a\<bar> mod \<bar>b\<bar>)" for a b :: int
proof -
  have "\<bar>a\<bar> mod \<bar>b\<bar> = \<bar>a\<bar> - \<bar>b\<bar> * (\<bar>a\<bar> div \<bar>b\<bar>)" by (rule minus_mult_div_eq_mod [symmetric])
  then show ?thesis
    by (cases "a = 0"; cases "b = 0")
      (auto simp: trunc_div_def sgn_if abs_if right_diff_distrib mult.commute)
qed

lemma rem_range: "in_i128 a \<Longrightarrow> in_i128 (a - trunc_div a b * b)"
proof -
  assume a: "in_i128 a"
  have "0 \<le> \<bar>a\<bar> mod \<bar>b\<bar>" "\<bar>a\<bar> mod \<bar>b\<bar> \<le> \<bar>a\<bar>"
    by (cases "b = 0"; simp) (metis abs_ge_zero zmod_le_nonneg_dividend)
  moreover obtain m where m: "m = \<bar>a\<bar> mod \<bar>b\<bar>" by simp
  ultimately have "0 \<le> m" "m \<le> \<bar>a\<bar>" by simp_all
  then have "in_i128 (sgn a * m)"
    using a by (cases "a < 0"; cases "a = 0") (auto simp: in_i128_def)
  then show ?thesis by (simp add: trunc_rem m)
qed

lemma shr_range: "in_i128 a \<Longrightarrow> in_i128 (a div 2 ^ k)"
proof -
  assume a: "in_i128 a"
  have p: "(1::int) \<le> 2 ^ k" by simp
  show ?thesis
  proof (cases "0 \<le> a")
    case True
    then have "0 \<le> a div 2 ^ k" "a div 2 ^ k \<le> a"
      by (simp_all add: pos_imp_zdiv_nonneg_iff) (metis True div_by_1 p zdiv_mono2 zero_less_one)
    then show ?thesis using a by (simp add: in_i128_def)
  next
    case False
    then have "a div 2 ^ k < 0" by (intro div_neg_pos_less0) auto
    moreover have "a \<le> a div 2 ^ k"
      using zdiv_mono2_neg [of a 1 "2 ^ k"] p False by (simp add: not_le)
    ultimately show ?thesis using a by (simp add: in_i128_def)
  qed
qed

subsection \<open>The contract of a precedence level\<close>

text \<open>
  What a binary level relies on.  An operator table: its operators return or panic, and keep values
  in the range of \<open>i128\<close>.  An operand parser, on inputs of fewer than \<open>n\<close> tokens: it returns or panics,
  hands back no more tokens than it was given, and yields values in range.
\<close>

locale operator_table =
  fixes ops :: operators
  assumes op_returns: "ops s = Some f \<Longrightarrow> f a b \<noteq> NoReturn"
    and op_range: "ops s = Some f \<Longrightarrow> in_i128 a \<Longrightarrow> in_i128 b \<Longrightarrow> f a b = Ok c \<Longrightarrow> in_i128 c"
    and op_text: "ops s = Some f \<Longrightarrow> s \<noteq> []"

locale operand_parser =
  fixes p :: parser and n :: nat
  assumes returns: "length ts < n \<Longrightarrow> p ts \<noteq> NoReturn"
    and shorter: "length ts < n \<Longrightarrow> p ts = Ok (v, r) \<Longrightarrow> length r \<le> length ts"
    and range: "length ts < n \<Longrightarrow> p ts = Ok (v, r) \<Longrightarrow> in_i128 v"

locale binary_level = operator_table ops + operand_parser p n
  for ops :: operators and p :: parser and n :: nat
begin

lemma after_op: "ops (peek_text ts) = Some f \<Longrightarrow> length (after ts) < length ts"
  by (rule length_after_less) (auto dest: op_text)

lemma loop_ok:
  "length ts < n \<Longrightarrow> length ts < k \<Longrightarrow> in_i128 val \<Longrightarrow>
     bin_loop ops p k val ts \<noteq> NoReturn \<and>
     (\<forall>v r. bin_loop ops p k val ts = Ok (v, r) \<longrightarrow> length r \<le> length ts \<and> in_i128 v)"
proof (induction k arbitrary: val ts)
  case (Suc k)
  show ?case
  proof (cases "ops (peek_text ts)")
    case (Some f)
    note a = after_op [OF Some]
    then have an: "length (after ts) < n" using Suc.prems by simp
    show ?thesis
    proof (cases "p (after ts)")
      case (Ok x)
      obtain rhs ts' where x: "x = (rhs, ts')" by fastforce
      have ts': "length ts' \<le> length (after ts)" "in_i128 rhs"
        using shorter [OF an] range [OF an] Ok x by auto
      show ?thesis
      proof (cases "f val rhs")
        case Ok': (Ok v')
        have "in_i128 v'" using op_range [OF Some Suc.prems(3) ts'(2) Ok'] .
        then show ?thesis using Suc.IH [of ts' v'] Suc.prems ts' a Some Ok x Ok' by fastforce
      next
        case NoReturn
        then show ?thesis using op_returns [OF Some] by blast
      qed (use Some Ok x in simp)
    next
      case NoReturn
      then show ?thesis using returns [OF an] by blast
    qed (use Some in simp)
  qed (use Suc.prems in auto)
qed simp

text \<open>More iterations than tokens never change the result.\<close>

lemma loop_fuel:
  "length ts < n \<Longrightarrow> length ts < k \<Longrightarrow> length ts < k' \<Longrightarrow>
     bin_loop ops p k val ts = bin_loop ops p k' val ts"
proof (induction k arbitrary: val ts k')
  case (Suc k)
  then obtain m where k': "k' = Suc m" by (cases k') auto
  show ?case
  proof (cases "ops (peek_text ts)")
    case (Some f)
    note a = after_op [OF Some]
    have "bin_loop ops p k v r = bin_loop ops p m v r" if "p (after ts) = Ok (rhs, r)" for rhs r v
      using shorter [of "after ts" rhs r] that a Suc.prems k' by (intro Suc.IH) auto
    then show ?thesis using Some k' by (auto intro!: and_then_cong)
  qed (simp add: k')
qed simp

lemma level_operand: "operand_parser (bin_level ops p) n"
proof
  fix ts :: "token list" assume len: "length ts < n"
  show "bin_level ops p ts \<noteq> NoReturn"
  proof (cases "p ts")
    case (Ok x)
    obtain val ts' where x: "x = (val, ts')" by fastforce
    then have "length ts' < n" "in_i128 val" using shorter [OF len] range [OF len] Ok len by auto
    then show ?thesis using loop_ok [of ts' "Suc (length ts')" val] Ok x by (simp add: bin_level_def)
  qed (use returns [OF len] in \<open>simp_all add: bin_level_def\<close>)
  fix v r assume "bin_level ops p ts = Ok (v, r)"
  then obtain val ts' where "p ts = Ok (val, ts')"
    "bin_loop ops p (Suc (length ts')) val ts' = Ok (v, r)"
    by (auto simp: bin_level_def and_then_Ok_iff)
  moreover from this have "length ts' \<le> length ts" "in_i128 val"
    using shorter [OF len] range [OF len] by auto
  ultimately have "length r \<le> length ts' \<and> in_i128 v" "length ts' \<le> length ts"
    using loop_ok [of ts' "Suc (length ts')" val] len by auto
  then show "length r \<le> length ts" "in_i128 v" by auto
qed

lemma level_unfold:
  assumes "length ts < n"
  shows "bin_loop ops p (Suc (length ts)) val ts =
    (case ops (peek_text ts) of
       None \<Rightarrow> Ok (val, ts)
     | Some f \<Rightarrow>
         and_then (p (after ts)) (\<lambda>(rhs, ts').
           and_then (f val rhs) (\<lambda>val'. bin_loop ops p (Suc (length ts')) val' ts')))"
proof (cases "ops (peek_text ts)")
  case (Some f)
  note a = after_op [OF Some]
  have "bin_loop ops p (length ts) v r = bin_loop ops p (Suc (length r)) v r"
    if "p (after ts) = Ok (rhs, r)" for rhs r v
    using shorter [of "after ts" rhs r] that a assms by (intro loop_fuel) auto
  then show ?thesis using Some by (auto intro!: and_then_cong)
qed simp

end

interpretation mul_table: operator_table "multiplicative_ops chk" for chk
  by unfold_locales
    (auto simp: multiplicative_ops_def div_i128_def rem_i128_def rem_range arith_range
      split: if_splits)

interpretation add_table: operator_table "additive_ops chk" for chk
  by unfold_locales (auto simp: additive_ops_def arith_range split: if_splits)

interpretation shift_table: operator_table "shift_ops chk" for chk
  by unfold_locales (auto simp: shift_ops_def shl_i128_def shr_i128_def shr_range split: if_splits)

interpretation rel_table: operator_table relational_ops
  by unfold_locales (auto simp: relational_ops_def split: if_splits)

interpretation eq_table: operator_table equality_ops
  by unfold_locales (auto simp: equality_ops_def split: if_splits)

interpretation band_table: operator_table bitwise_and_ops
  by unfold_locales (auto simp: bitwise_and_ops_def split: if_splits)

interpretation bxor_table: operator_table bitwise_xor_ops
  by unfold_locales (auto simp: bitwise_xor_ops_def split: if_splits)

interpretation bor_table: operator_table bitwise_or_ops
  by unfold_locales (auto simp: bitwise_or_ops_def split: if_splits)

interpretation land_table: operator_table logical_and_ops
  by unfold_locales (auto simp: logical_and_ops_def split: if_splits)

interpretation lor_table: operator_table logical_or_ops
  by unfold_locales (auto simp: logical_or_ops_def split: if_splits)

subsection \<open>The parsers satisfy the contract\<close>

lemma parse_integer_range: "in_i128 (parse_integer s)"
proof -
  have "in_i128 (or_zero (parse_i128 r t))" for r t
    using from_str_radix_bounds [of "- (2 ^ 127)" "2 ^ 127" r t]
    by (auto simp: or_zero_def in_i128_def parse_i128_def split: option.splits)
  then show ?thesis by (simp add: parse_integer_def Let_def)
qed

lemma char_value_range: "in_i128 (char_value s)"
proof -
  have "c < 2 ^ 32" if "first_char s = Some c" for c
  proof -
    have m: "byte x mod 64 \<le> 63" "byte x mod 32 \<le> 31" "byte x mod 16 \<le> 15" "byte x mod 8 \<le> 7"
      for x :: char
      using mod_less_divisor [of 64 "byte x"] mod_less_divisor [of 32 "byte x"]
        mod_less_divisor [of 16 "byte x"] mod_less_divisor [of 8 "byte x"] by simp_all
    show ?thesis
      using that m(1) [of "s ! 1"] m(1) [of "s ! 2"] m(1) [of "s ! 3"] m(2-4) [of "hd s"]
      by (auto simp: first_char_def Let_def split: list.splits if_splits)
  qed
  then have c: "int c < 2 ^ 32" if "first_char s = Some c" for c using that by fastforce
  show ?thesis
  proof (cases "first_char s")
    case (Some c)
    then show ?thesis using c [OF Some] by (simp add: char_value_def in_i128_def)
  qed (simp add: char_value_def)
qed

lemma parse_char_returns: "parse_char_constant s \<noteq> NoReturn"
  by (simp add: parse_char_constant_def)

lemma parse_char_range: "parse_char_constant s = Ok v \<Longrightarrow> in_i128 v"
  by (auto simp: parse_char_constant_def map_outcome_Ok_iff Let_def char_value_range)
    (simp_all add: in_i128_def)

lemma operand_parserI:
  assumes "\<And>ts. length ts < n \<Longrightarrow> p ts \<noteq> NoReturn \<and>
      (\<forall>v r. p ts = Ok (v, r) \<longrightarrow> length r \<le> length ts \<and> in_i128 v)"
  shows "operand_parser p n"
  using assms by unfold_locales blast+

lemma primary_ok:
  assumes tern: "operand_parser tern n" and len: "length ts < Suc n"
  shows "primary tern ts \<noteq> NoReturn \<and>
    (\<forall>v r. primary tern ts = Ok (v, r) \<longrightarrow> length r \<le> length ts \<and> in_i128 v)"
proof (cases "peek_text ts = ''(''")
  case True
  then have a: "length (after ts) < length ts" by (intro length_after_less) simp
  then have "length (after ts) < n" using len by simp
  note an = this
  show ?thesis
  proof (cases "tern (after ts)")
    case (Ok x)
    obtain v r where x: "x = (v, r)" by fastforce
    then have "length r \<le> length (after ts)" "in_i128 v"
      using operand_parser.shorter [OF tern an] operand_parser.range [OF tern an] Ok by auto
    then show ?thesis using True Ok x a length_after_le [of r] by (simp add: primary_def)
  next
    case NoReturn
    then show ?thesis using operand_parser.returns [OF tern an] by blast
  qed (use True in \<open>simp add: primary_def\<close>)
next
  case False
  have "length (snd (advance ts)) \<le> length ts" using length_after_le [of ts] by (simp add: after_def)
  then show ?thesis
    using False
    by (auto simp: primary_def parse_integer_range parse_char_returns map_outcome_Ok_iff
        dest: parse_char_range split: prod.splits option.splits token_kind.splits)
qed

lemma unary_operand:
  assumes tern: "operand_parser tern n"
  shows "operand_parser (unary chk tern) (Suc n)"
proof (rule operand_parserI)
  fix ts :: "token list" assume "length ts < Suc n"
  then show "unary chk tern ts \<noteq> NoReturn \<and>
    (\<forall>v r. unary chk tern ts = Ok (v, r) \<longrightarrow> length r \<le> length ts \<and> in_i128 v)"
  proof (induction ts rule: length_induct)
    case (1 ts)
    let ?u = "unary chk tern (after ts)"
    show ?case
    proof (cases "peek_text ts \<in> {''!'', ''-'', ''+'', ''~''}")
      case True
      then have a: "length (after ts) < length ts" by (intro length_after_less) auto
      have IH: "?u \<noteq> NoReturn"
        "?u = Ok (v, r) \<Longrightarrow> length r \<le> length (after ts) \<and> in_i128 v" for v r
        using "1.IH" "1.prems" a by auto
      show ?thesis
        using True IH a
        by (cases ?u) (auto simp: unary.simps [of chk tern ts] Let_def map_outcome_Ok_iff
            dest: arith_range)
    next
      case False
      then show ?thesis
        using primary_ok [OF tern "1.prems"] by (simp add: unary.simps [of chk tern ts] Let_def)
    qed
  qed
qed

lemma binary_levelI:
  "operator_table ops \<Longrightarrow> operand_parser p n \<Longrightarrow> operand_parser (bin_level ops p) n"
  by (rule binary_level.level_operand) (rule binary_level.intro)

lemma levels_operand:
  assumes "operand_parser tern n"
  shows "operand_parser (multiplicative chk tern) (Suc n)"
    and "operand_parser (additive chk tern) (Suc n)"
    and "operand_parser (shift chk tern) (Suc n)"
    and "operand_parser (relational chk tern) (Suc n)"
    and "operand_parser (equality chk tern) (Suc n)"
    and "operand_parser (bitwise_and chk tern) (Suc n)"
    and "operand_parser (bitwise_xor chk tern) (Suc n)"
    and "operand_parser (bitwise_or chk tern) (Suc n)"
    and "operand_parser (logical_and chk tern) (Suc n)"
    and "operand_parser (logical_or chk tern) (Suc n)"
  unfolding multiplicative_def additive_def shift_def relational_def equality_def bitwise_and_def
    bitwise_xor_def bitwise_or_def logical_and_def logical_or_def
  by (intro binary_levelI unary_operand assms mul_table.operator_table_axioms
      add_table.operator_table_axioms shift_table.operator_table_axioms
      rel_table.operator_table_axioms eq_table.operator_table_axioms
      band_table.operator_table_axioms bxor_table.operator_table_axioms
      bor_table.operator_table_axioms land_table.operator_table_axioms
      lor_table.operator_table_axioms)+

lemma peek_is_text: "peek_text_is s ts \<Longrightarrow> s \<noteq> [] \<Longrightarrow> peek_text ts = s"
  by (auto simp: peek_text_is_def peek_text_def split: option.splits)

lemma peek_is_iff: "s \<noteq> [] \<Longrightarrow> peek_text_is s ts \<longleftrightarrow> peek_text ts = s"
  by (auto simp: peek_text_is_def peek_text_def split: option.splits)

lemma ternary_operand: "operand_parser (ternary chk n) n"
proof (induction n)
  case (Suc n)
  note lor = levels_operand(10) [OF Suc, of chk]
  show ?case
  proof (rule operand_parserI)
    fix ts :: "token list" assume len: "length ts < Suc n"
    let ?T = "ternary chk n"
    have branch: "?T us \<noteq> NoReturn \<and> (\<forall>v r. ?T us = Ok (v, r) \<longrightarrow> length r \<le> length us \<and> in_i128 v)"
      if "length us < n" for us
      using that operand_parser.returns [OF Suc] operand_parser.shorter [OF Suc]
        operand_parser.range [OF Suc] by blast
    show "ternary chk (Suc n) ts \<noteq> NoReturn \<and>
      (\<forall>v r. ternary chk (Suc n) ts = Ok (v, r) \<longrightarrow> length r \<le> length ts \<and> in_i128 v)"
    proof (cases "logical_or chk ?T ts")
      case (Ok x)
      obtain c r where x: "x = (c, r)" by fastforce
      then have r: "length r \<le> length ts" "in_i128 c"
        using operand_parser.shorter [OF lor len] operand_parser.range [OF lor len] Ok by auto
      show ?thesis
      proof (cases "peek_text_is ''?'' r")
        case True
        then have "length (after r) < length r"
          by (intro length_after_less) (simp add: peek_is_iff)
        then have b1: "length (after r) < n" using r len by simp
        show ?thesis
        proof (cases "?T (after r)")
          case (Ok y)
          obtain tv r1 where y: "y = (tv, r1)" by fastforce
          let ?r2 = "if peek_text_is '':'' r1 then after r1 else r1"
          have r1: "length r1 \<le> length (after r)" "in_i128 tv" using branch [OF b1] Ok y by auto
          have "length ?r2 \<le> length r1" using length_after_le [of r1] by simp
          with r1 b1 have b2: "length ?r2 < n" by simp
          show ?thesis
            using branch [OF b2] \<open>logical_or chk ?T ts = Ok x\<close> x True Ok y r r1
              \<open>length ?r2 \<le> length r1\<close> \<open>length (after r) < length r\<close>
            by (cases "?T ?r2") (auto simp: and_then_Ok_iff)
        qed (use branch [OF b1] \<open>logical_or chk ?T ts = Ok x\<close> x True in auto)
      qed (use Ok x r in simp)
    next
      case NoReturn
      then show ?thesis using operand_parser.returns [OF lor len] by blast
    qed simp
  qed
qed (simp add: operand_parser_def)

interpretation condition: operand_parser "ternary chk n" n for chk n
  by (rule ternary_operand)

interpretation mul_level: binary_level "multiplicative_ops chk" "unary chk (ternary chk n)" "Suc n"
  for chk n
  by (intro binary_level.intro mul_table.operator_table_axioms unary_operand ternary_operand)

interpretation add_level: binary_level "additive_ops chk" "multiplicative chk (ternary chk n)" "Suc n"
  for chk n
  by (intro binary_level.intro add_table.operator_table_axioms levels_operand ternary_operand)

interpretation shift_level: binary_level "shift_ops chk" "additive chk (ternary chk n)" "Suc n"
  for chk n
  by (intro binary_level.intro shift_table.operator_table_axioms levels_operand ternary_operand)

interpretation rel_level: binary_level relational_ops "shift chk (ternary chk n)" "Suc n"
  for chk n
  by (intro binary_level.intro rel_table.operator_table_axioms levels_operand ternary_operand)

interpretation eq_level: binary_level equality_ops "relational chk (ternary chk n)" "Suc n"
  for chk n
  by (intro binary_level.intro eq_table.operator_table_axioms levels_operand ternary_operand)

interpretation band_level: binary_level bitwise_and_ops "equality chk (ternary chk n)" "Suc n"
  for chk n
  by (intro binary_level.intro band_table.operator_table_axioms levels_operand ternary_operand)

interpretation bxor_level: binary_level bitwise_xor_ops "bitwise_and chk (ternary chk n)" "Suc n"
  for chk n
  by (intro binary_level.intro bxor_table.operator_table_axioms levels_operand ternary_operand)

interpretation bor_level: binary_level bitwise_or_ops "bitwise_xor chk (ternary chk n)" "Suc n"
  for chk n
  by (intro binary_level.intro bor_table.operator_table_axioms levels_operand ternary_operand)

interpretation land_level: binary_level logical_and_ops "bitwise_or chk (ternary chk n)" "Suc n"
  for chk n
  by (intro binary_level.intro land_table.operator_table_axioms levels_operand ternary_operand)

interpretation lor_level: binary_level logical_or_ops "logical_and chk (ternary chk n)" "Suc n"
  for chk n
  by (intro binary_level.intro lor_table.operator_table_axioms levels_operand ternary_operand)

end
