(* ===== verification/Digits.thy ===== *)
theory Digits
  imports Prelude
begin

text \<open>
  Numbers spelled in a radix, the \<open>to_string\<close> and \<open>from_str_radix\<close> of the standard library: digits are
  read back as they are printed, there is no leading zero, and the decimal spelling of an integer is
  the only string of its shape that is read as the integer.
\<close>

text \<open>The digits of a number, most significant first.\<close>

definition digit_char :: "nat \<Rightarrow> char" where
  "digit_char d = char_of (if d < 10 then 48 + d else 87 + d)"

fun print_digits :: "nat \<Rightarrow> nat \<Rightarrow> string" where
  "print_digits radix n =
     (if radix < 2 \<or> n < radix then [digit_char n]
      else print_digits radix (n div radix) @ [digit_char (n mod radix)])"

declare print_digits.simps [simp del]

definition digit_facts :: "nat \<Rightarrow> bool" where
  "digit_facts d \<longleftrightarrow>
     digit_value 16 (digit_char d) = Some d \<and> digit_char d \<notin> set ''uUlL+-xX'' \<and>
     (d < 10 \<longrightarrow> is_ascii_digit (digit_char d) \<and> digit_char d \<notin> set ''bB'') \<and>
     (d \<noteq> 0 \<longrightarrow> digit_char d \<noteq> CHR ''0'')"

lemma digit_facts_all: "list_all digit_facts [0..<16]"
  by code_simp

lemma digit_char_facts:
  assumes "d < radix" "radix \<le> 16"
  shows "digit_facts d"
proof -
  have "d \<in> set [0..<16]" using assms by simp
  then show ?thesis using digit_facts_all unfolding list_all_iff by blast
qed

lemma digit_value_char:
  assumes "d < radix" "radix \<le> 16"
  shows "digit_value radix (digit_char d) = Some d"
  using digit_char_facts [OF assms] assms(1)
  unfolding digit_facts_def digit_value_def Let_def by (auto split: if_splits)

lemma digits_value_snoc:
  "digits_value radix acc (s @ [c]) =
    (case digits_value radix acc s of
       None \<Rightarrow> None
     | Some v \<Rightarrow> map_option (\<lambda>d. v * int radix + int d) (digit_value radix c))"
  by (induction s arbitrary: acc) (auto split: option.splits)

lemma print_digits_value:
  assumes "2 \<le> radix" "radix \<le> 16"
  shows "digits_value radix 0 (print_digits radix n) = Some (int n)"
proof (induction n rule: less_induct)
  case (less n)
  show ?case
  proof (cases "n < radix")
    case True
    then show ?thesis using assms digit_value_char [of n radix]
      by (subst print_digits.simps) simp
  next
    case False
    then have "n div radix < n" using assms by (intro div_less_dividend) auto
    moreover have "int (n div radix) * int radix + int (n mod radix) = int n"
      by (metis div_mult_mod_eq of_nat_add of_nat_mult)
    ultimately show ?thesis
      using False assms less digit_value_char [of "n mod radix" radix]
      by (subst print_digits.simps) (simp add: digits_value_snoc)
  qed
qed

lemma print_digits_chars:
  assumes "2 \<le> radix" "radix \<le> 16" "c \<in> set (print_digits radix n)"
  shows "\<exists>d<radix. c = digit_char d"
  using assms(3)
proof (induction n rule: less_induct)
  case (less n)
  show ?case
  proof (cases "n < radix")
    case True
    then show ?thesis using less.prems by (auto simp: print_digits.simps [of radix n])
  next
    case False
    then have n: "n div radix < n" "n mod radix < radix" using assms by (auto intro!: div_less_dividend)
    from less.prems have "c = digit_char (n mod radix) \<or> c \<in> set (print_digits radix (n div radix))"
      using False assms(1) by (auto simp: print_digits.simps [of radix n])
    then show ?thesis using less.IH [OF n(1)] n(2) by blast
  qed
qed

lemma print_digits_nonempty [simp]: "print_digits radix n \<noteq> []"
  by (subst print_digits.simps) simp

lemma print_digits_leading:
  assumes "2 \<le> radix" "radix \<le> 16" "radix \<le> n"
  shows "hd (print_digits radix n) \<noteq> CHR ''0''"
  using assms(3)
proof (induction n rule: less_induct)
  case (less n)
  have n: "n div radix < n" "0 < n div radix"
    using assms less.prems by (auto intro!: div_less_dividend simp: div_greater_zero_iff)
  show ?case
  proof (cases "n div radix < radix")
    case True
    then show ?thesis
      using less.prems n assms(1) digit_char_facts [OF True assms(2)]
      unfolding digit_facts_def
      by (simp add: print_digits.simps [of radix n] print_digits.simps [of radix "n div radix"])
  next
    case False
    then show ?thesis
      using less n assms(1) by (simp add: print_digits.simps [of radix n])
  qed
qed

subsection \<open>Decimal numbers\<close>

lemma digit_back:
  assumes "is_ascii_digit c"
  shows "digit_value 10 c = Some (byte c - 48)" "digit_char (byte c - 48) = c" "byte c - 48 < 10"
proof -
  have b: "48 \<le> byte c" "byte c \<le> 57" using assms by (auto simp: is_ascii_digit_def)
  then show lt: "byte c - 48 < 10" by linarith
  then show "digit_value 10 c = Some (byte c - 48)" using assms by (simp add: digit_value_def Let_def)
  have "48 + (byte c - 48) = byte c" using b by simp
  then show "digit_char (byte c - 48) = c" using lt by (simp add: digit_char_def)
qed

lemma print_digits_step: "n \<noteq> 0 \<Longrightarrow> d < 10 \<Longrightarrow> print_digits 10 (n * 10 + d) = print_digits 10 n @ [digit_char d]"
  by (subst print_digits.simps) simp

lemma print_read:
  "s \<noteq> [] \<Longrightarrow> list_all is_ascii_digit s \<Longrightarrow> hd s = CHR ''0'' \<longrightarrow> length s = 1 \<Longrightarrow>
     \<exists>n. digits_value 10 0 s = Some (int n) \<and> print_digits 10 n = s"
proof (induction s rule: rev_induct)
  case (snoc c s)
  then have c: "is_ascii_digit c" by simp
  show ?case
  proof (cases "s = []")
    case True
    then show ?thesis
      using digit_back [OF c] by (intro exI [of _ "byte c - 48"]) (simp add: print_digits.simps)
  next
    case False
    then have zero: "hd s \<noteq> CHR ''0''" using snoc.prems by auto
    with False snoc obtain n where n: "digits_value 10 0 s = Some (int n)" "print_digits 10 n = s" by auto
    have "print_digits 10 0 = ''0''" by code_simp
    with n zero have "n \<noteq> 0" by (metis list.sel(1))
    then show ?thesis
      using n digit_back [OF c]
      by (intro exI [of _ "n * 10 + (byte c - 48)"])
        (simp add: digits_value_snoc print_digits_step)
  qed
qed simp

lemma print_digits_ascii: "list_all is_ascii_digit (print_digits 10 n)"
  using print_digits_chars [of 10 _ n] digit_char_facts [of _ 10]
  by (fastforce simp: list_all_iff digit_facts_def)

lemma print_digits_canonical: "hd (print_digits 10 n) = CHR ''0'' \<Longrightarrow> print_digits 10 n = ''0'' \<and> n = 0"
proof (cases "n < 10")
  case True
  assume "hd (print_digits 10 n) = CHR ''0''"
  then have "digit_char n = CHR ''0''" using True by (simp add: print_digits.simps [of 10 n])
  then have "n = 0" using True digit_char_facts [of n 10] by (auto simp: digit_facts_def)
  moreover have "print_digits 10 0 = ''0''" by code_simp
  ultimately show ?thesis by simp
next
  case False
  assume "hd (print_digits 10 n) = CHR ''0''"
  then show ?thesis using print_digits_leading [of 10 n] False by simp
qed

end
