(* ===== verification/Expr_Grammar.thy ===== *)
theory Expr_Grammar
  imports Expr Digits
begin

text \<open>
  What \<open>ExprParser\<close> is for: the expression grammar of the C preprocessor.  An abstract syntax tree,
  its spelling with no more parentheses than precedence and left associativity call for, and its
  value; the parser applied to the spelling yields the value, or the panic of the first operator
  that panics (all operands are evaluated, in source order, also those of \<open>&&\<close>, \<open>||\<close> and \<open>?:\<close>).
\<close>

subsection \<open>Syntax trees, spelling, value\<close>

datatype cexpr =
  Lit string
| CharLit string
| Unary string cexpr
| Binary string cexpr cexpr
| Cond cexpr cexpr cexpr

text \<open>The ten binary levels of C, from \<open>||\<close> (1) to the multiplicative operators (10).\<close>

definition op_prec :: "string \<Rightarrow> nat" where
  "op_prec op =
     (if op = ''||'' then 1 else if op = ''&&'' then 2 else if op = ''|'' then 3
      else if op = ''^'' then 4 else if op = ''&'' then 5
      else if op \<in> {''=='', ''!=''} then 6
      else if op \<in> {''<'', ''>'', ''<='', ''>=''} then 7
      else if op \<in> {''<<'', ''>>''} then 8
      else if op \<in> {''+'', ''-''} then 9
      else if op \<in> {''*'', ''/'', ''%''} then 10 else 0)"

definition unary_op :: "string \<Rightarrow> bool" where
  "unary_op op \<longleftrightarrow> op \<in> {''!'', ''-'', ''+'', ''~''}"

fun wf_cexpr :: "cexpr \<Rightarrow> bool" where
  "wf_cexpr (Lit s) = token_shape Number s"
| "wf_cexpr (CharLit s) = token_shape CharLiteral s"
| "wf_cexpr (Unary op a) = (unary_op op \<and> wf_cexpr a)"
| "wf_cexpr (Binary op a b) = (op_prec op \<noteq> 0 \<and> wf_cexpr a \<and> wf_cexpr b)"
| "wf_cexpr (Cond c a b) = (wf_cexpr c \<and> wf_cexpr a \<and> wf_cexpr b)"

fun prec :: "cexpr \<Rightarrow> nat" where
  "prec (Binary op a b) = op_prec op"
| "prec (Cond c a b) = 0"
| "prec _ = 11"

abbreviation punct :: "string \<Rightarrow> token" where
  "punct s \<equiv> Token Punct s 0"

definition wrap :: "nat \<Rightarrow> cexpr \<Rightarrow> token list \<Rightarrow> token list" where
  "wrap k e ts = (if prec e < k then punct ''('' # ts @ [punct '')''] else ts)"

fun spell :: "cexpr \<Rightarrow> token list" where
  "spell (Lit s) = [Token Number s 0]"
| "spell (CharLit s) = [Token CharLiteral s 0]"
| "spell (Unary op a) = punct op # wrap 11 a (spell a)"
| "spell (Binary op a b) =
     wrap (op_prec op) a (spell a) @ punct op # wrap (Suc (op_prec op)) b (spell b)"
| "spell (Cond c a b) = wrap 1 c (spell c) @ punct ''?'' # spell a @ punct '':'' # spell b"

definition spell_at :: "nat \<Rightarrow> cexpr \<Rightarrow> token list" where
  "spell_at k e = wrap k e (spell e)"

definition apply_unary :: "bool \<Rightarrow> string \<Rightarrow> int \<Rightarrow> int outcome" where
  "apply_unary chk op v =
     (if op = ''!'' then Ok (truth (v = 0))
      else if op = ''-'' then arith chk (- v)
      else if op = ''+'' then Ok v else Ok (NOT v))"

text \<open>The value of a binary operator, by its text; \<open>chk\<close> is the overflow-check mode.\<close>

definition apply_binary :: "bool \<Rightarrow> string \<Rightarrow> int \<Rightarrow> int \<Rightarrow> int outcome" where
  "apply_binary chk op a b =
     (if op = ''||'' then Ok (truth (a \<noteq> 0 \<or> b \<noteq> 0))
      else if op = ''&&'' then Ok (truth (a \<noteq> 0 \<and> b \<noteq> 0))
      else if op = ''|'' then Ok (a OR b)
      else if op = ''^'' then Ok (a XOR b)
      else if op = ''&'' then Ok (a AND b)
      else if op = ''=='' then Ok (truth (a = b))
      else if op = ''!='' then Ok (truth (a \<noteq> b))
      else if op = ''<'' then Ok (truth (a < b))
      else if op = ''>'' then Ok (truth (a > b))
      else if op = ''<='' then Ok (truth (a \<le> b))
      else if op = ''>='' then Ok (truth (a \<ge> b))
      else if op = ''<<'' then shl_i128 chk a b
      else if op = ''>>'' then shr_i128 chk a b
      else if op = ''+'' then arith chk (a + b)
      else if op = ''-'' then arith chk (a - b)
      else if op = ''*'' then arith chk (a * b)
      else if op = ''/'' then div_i128 a b
      else rem_i128 a b)"

fun value_of :: "bool \<Rightarrow> cexpr \<Rightarrow> int outcome" where
  "value_of chk (Lit s) = Ok (parse_integer s)"
| "value_of chk (CharLit s) = parse_char_constant s"
| "value_of chk (Unary op a) = and_then (value_of chk a) (apply_unary chk op)"
| "value_of chk (Binary op a b) =
     and_then (value_of chk a) (\<lambda>x. and_then (value_of chk b) (\<lambda>y. apply_binary chk op x y))"
| "value_of chk (Cond c a b) =
     and_then (value_of chk c) (\<lambda>x. and_then (value_of chk a) (\<lambda>y.
       and_then (value_of chk b) (\<lambda>z. Ok (if x \<noteq> 0 then y else z))))"

subsection \<open>The levels as one family\<close>

definition level_ops :: "bool \<Rightarrow> nat \<Rightarrow> operators" where
  "level_ops chk k =
     (if k = 1 then logical_or_ops else if k = 2 then logical_and_ops
      else if k = 3 then bitwise_or_ops else if k = 4 then bitwise_xor_ops
      else if k = 5 then bitwise_and_ops else if k = 6 then equality_ops
      else if k = 7 then relational_ops else if k = 8 then shift_ops chk
      else if k = 9 then additive_ops chk else multiplicative_ops chk)"

definition level :: "bool \<Rightarrow> parser \<Rightarrow> nat \<Rightarrow> parser" where
  "level chk tern k =
     (if k = 1 then logical_or chk tern else if k = 2 then logical_and chk tern
      else if k = 3 then bitwise_or chk tern else if k = 4 then bitwise_xor chk tern
      else if k = 5 then bitwise_and chk tern else if k = 6 then equality chk tern
      else if k = 7 then relational chk tern else if k = 8 then shift chk tern
      else if k = 9 then additive chk tern else if k = 10 then multiplicative chk tern
      else unary chk tern)"

lemma level_cases:
  "1 \<le> k \<Longrightarrow> k \<le> 10 \<Longrightarrow>
     k = 1 \<or> k = 2 \<or> k = 3 \<or> k = 4 \<or> k = 5 \<or> k = 6 \<or> k = 7 \<or> k = 8 \<or> k = 9 \<or> k = (10::nat)"
  by presburger

lemma level_step:
  "1 \<le> k \<Longrightarrow> k \<le> 10 \<Longrightarrow> level chk tern k = bin_level (level_ops chk k) (level chk tern (Suc k))"
  by (drule (1) level_cases)
    (auto simp: level_def level_ops_def logical_or_def logical_and_def bitwise_or_def
      bitwise_xor_def bitwise_and_def equality_def relational_def shift_def additive_def
      multiplicative_def)

lemma level_binary:
  "1 \<le> k \<Longrightarrow> k \<le> 10 \<Longrightarrow>
     binary_level (level_ops chk k) (level chk (ternary chk n) (Suc k)) (Suc n)"
  by (drule (1) level_cases)
    (auto simp: level_def level_ops_def mul_level.binary_level_axioms add_level.binary_level_axioms
      shift_level.binary_level_axioms rel_level.binary_level_axioms eq_level.binary_level_axioms
      band_level.binary_level_axioms bxor_level.binary_level_axioms bor_level.binary_level_axioms
      land_level.binary_level_axioms lor_level.binary_level_axioms)

lemmas ops_defs = logical_or_ops_def logical_and_ops_def bitwise_or_ops_def bitwise_xor_ops_def
  bitwise_and_ops_def equality_ops_def relational_ops_def shift_ops_def additive_ops_def
  multiplicative_ops_def

text \<open>An operator belongs to its own level only, and means there what \<open>apply_binary\<close> says.\<close>

lemma op_prec_other:
  "op \<notin> {''||'', ''&&'', ''|'', ''^'', ''&'', ''=='', ''!='', ''<'', ''>'', ''<='', ''>='', ''<<'', ''>>'', ''+'',
     ''-'', ''*'', ''/'', ''%''} \<Longrightarrow> op_prec op = 0"
  by (simp add: op_prec_def)

lemma level_ops_own:
  assumes "op_prec op \<noteq> 0"
  shows "level_ops chk (op_prec op) op = Some (apply_binary chk op)"
proof -
  have "op \<in> {''||'', ''&&'', ''|'', ''^'', ''&'', ''=='', ''!='', ''<'', ''>'', ''<='', ''>='', ''<<'', ''>>'',
      ''+'', ''-'', ''*'', ''/'', ''%''}"
    by (rule ccontr, drule op_prec_other) (use assms in simp)
  then show ?thesis
    by (elim insertE emptyE)
      (simp_all add: op_prec_def level_ops_def ops_defs apply_binary_def fun_eq_iff)
qed

lemma level_ops_Some_prec: "level_ops chk k op = Some f \<Longrightarrow> 1 \<le> k \<Longrightarrow> k \<le> 10 \<Longrightarrow> op_prec op = k"
  by (drule (1) level_cases) (auto simp: level_ops_def ops_defs op_prec_def split: if_splits)

lemma op_prec_le: "op_prec op \<le> 10"
  by (simp add: op_prec_def)

subsection \<open>Parsing a spelling\<close>

lemma peek_Cons [simp]: "\<not> is_ws t \<Longrightarrow> peek_text (t # ts) = tok_text t"
  by (simp add: peek_text_def peek_tok_def)

lemma after_Cons [simp]: "\<not> is_ws t \<Longrightarrow> after (t # ts) = ts"
  by (simp add: after_def advance_def)

text \<open>No operator of level \<open>k\<close> or tighter, and no \<open>?\<close>, follows.\<close>

definition stops :: "nat \<Rightarrow> token list \<Rightarrow> bool" where
  "stops k rest \<longleftrightarrow> (let p = op_prec (peek_text rest) in p = 0 \<or> p < k)"

lemma stops_mono: "stops k rest \<Longrightarrow> k \<le> k' \<Longrightarrow> stops k' rest"
  by (auto simp: stops_def Let_def)

lemma stops_ops: "stops k rest \<Longrightarrow> k \<le> j \<Longrightarrow> 1 \<le> j \<Longrightarrow> j \<le> 10 \<Longrightarrow> level_ops chk j (peek_text rest) = None"
  using level_ops_Some_prec [of chk j "peek_text rest"]
  by (cases "level_ops chk j (peek_text rest)") (auto simp: stops_def Let_def)

abbreviation loop :: "bool \<Rightarrow> nat \<Rightarrow> nat \<Rightarrow> int \<Rightarrow> parser" where
  "loop chk n k v rest \<equiv>
     bin_loop (level_ops chk k) (level chk (ternary chk n) (Suc k)) (Suc (length rest)) v rest"

lemma loop_stops:
  "stops k rest \<Longrightarrow> 1 \<le> k \<Longrightarrow> k \<le> 10 \<Longrightarrow> loop chk n k v rest = Ok (v, rest)"
  using stops_ops [of k rest k chk] by simp

lemma loop_op:
  assumes "op_prec op \<noteq> 0" "length rest < n"
  shows "loop chk n (op_prec op) v (punct op # rest) =
    and_then (level chk (ternary chk n) (Suc (op_prec op)) rest) (\<lambda>(w, ts').
      and_then (apply_binary chk op v w) (\<lambda>u. loop chk n (op_prec op) u ts'))"
proof -
  have "binary_level (level_ops chk (op_prec op)) (level chk (ternary chk n) (Suc (op_prec op))) (Suc n)"
    using assms op_prec_le [of op] by (intro level_binary) auto
  from binary_level.level_unfold [OF this, of "punct op # rest"] assms(2) show ?thesis
    by (simp add: level_ops_own [OF assms(1)] del: bin_loop.simps)
qed

definition exact :: "int outcome \<Rightarrow> token list \<Rightarrow> (int \<times> token list) outcome" where
  "exact r rest = map_outcome (\<lambda>v. (v, rest)) r"

lemma exact_simps [simp]:
  "exact (Ok v) rest = Ok (v, rest)" "exact (Panic p) rest = Panic p" "exact NoReturn rest = NoReturn"
  by (simp_all add: exact_def)

text \<open>
  The three readings of a spelled expression: by the condition parser, by \<open>unary\<close> (and so by every
  tighter caller), and by a binary level, which goes on with its loop.
\<close>

definition reads_tern :: "bool \<Rightarrow> cexpr \<Rightarrow> bool" where
  "reads_tern chk e \<longleftrightarrow> (\<forall>n rest. length (spell e @ rest) < n \<longrightarrow> stops 1 rest \<longrightarrow>
     peek_text rest \<noteq> ''?'' \<longrightarrow> ternary chk n (spell e @ rest) = exact (value_of chk e) rest)"

definition reads_unary :: "bool \<Rightarrow> cexpr \<Rightarrow> bool" where
  "reads_unary chk e \<longleftrightarrow> (\<forall>n rest. length (spell_at 11 e @ rest) < Suc n \<longrightarrow>
     unary chk (ternary chk n) (spell_at 11 e @ rest) = exact (value_of chk e) rest)"

definition reads_level :: "bool \<Rightarrow> nat \<Rightarrow> cexpr \<Rightarrow> bool" where
  "reads_level chk k e \<longleftrightarrow> (\<forall>n rest. length (spell_at k e @ rest) < Suc n \<longrightarrow> stops (Suc k) rest \<longrightarrow>
     level chk (ternary chk n) k (spell_at k e @ rest) =
       and_then (value_of chk e) (\<lambda>v. loop chk n k v rest))"

lemma level_exact:
  assumes "reads_level chk k e" "1 \<le> k" "k \<le> 10" "length (spell_at k e @ rest) < Suc n" "stops k rest"
  shows "level chk (ternary chk n) k (spell_at k e @ rest) = exact (value_of chk e) rest"
proof -
  have "stops (Suc k) rest" using assms(5) by (rule stops_mono) simp
  then have "level chk (ternary chk n) k (spell_at k e @ rest) =
      and_then (value_of chk e) (\<lambda>v. loop chk n k v rest)"
    using assms(1,4) by (simp add: reads_level_def)
  also have "\<dots> = exact (value_of chk e) rest"
    using loop_stops [OF assms(5,2,3)] by (cases "value_of chk e") (auto simp del: bin_loop.simps)
  finally show ?thesis .
qed

text \<open>A level reads what the next tighter level reads, if the spelling is the same.\<close>

lemma reads_level_weaken:
  assumes "1 \<le> k" "k \<le> 10" "spell_at k e = spell_at (Suc k) e"
    and ex: "\<And>n rest. length (spell_at (Suc k) e @ rest) < Suc n \<Longrightarrow> stops (Suc k) rest \<Longrightarrow>
      level chk (ternary chk n) (Suc k) (spell_at (Suc k) e @ rest) = exact (value_of chk e) rest"
  shows "reads_level chk k e"
  unfolding reads_level_def
proof (intro allI impI)
  fix n rest assume "length (spell_at k e @ rest) < Suc n" "stops (Suc k) rest"
  then have "level chk (ternary chk n) (Suc k) (spell_at k e @ rest) = exact (value_of chk e) rest"
    using ex assms(3) by simp
  then show "level chk (ternary chk n) k (spell_at k e @ rest) =
      and_then (value_of chk e) (\<lambda>v. loop chk n k v rest)"
    unfolding level_step [OF assms(1,2)]
    by (cases "value_of chk e") (simp_all add: bin_level_def del: bin_loop.simps)
qed

lemma reads_below:
  assumes "reads_level chk p e" "1 \<le> p" "p \<le> 10" "prec e = p" "1 \<le> k" "k \<le> p"
  shows "reads_level chk k e"
  using assms(6,5)
proof (induction rule: inc_induct)
  case base
  show ?case by (rule assms(1))
next
  case (step j)
  show ?case
    by (rule reads_level_weaken)
      (use step assms level_exact [of chk "Suc j" e] in \<open>auto simp: spell_at_def wrap_def\<close>)
qed

lemma level_11: "level chk tern 11 = unary chk tern"
  by (simp add: level_def)

lemma reads_from_unary:
  assumes "reads_unary chk e" "\<And>j. 1 \<le> j \<Longrightarrow> k \<le> j \<Longrightarrow> j \<le> 10 \<Longrightarrow> spell_at j e = spell_at (Suc j) e"
    "1 \<le> k" "k \<le> 10"
  shows "reads_level chk k e"
  using assms(4,3,2)
proof (induction rule: inc_induct)
  case base
  then show ?case
    by (intro reads_level_weaken) (use assms(1) in \<open>auto simp: reads_unary_def level_11\<close>)
next
  case (step j)
  then have "reads_level chk (Suc j) e" by simp
  then show ?case
    by (intro reads_level_weaken) (use step level_exact [of chk "Suc j" e] in auto)
qed

lemma op_prec_delims [simp]: "op_prec ''?'' = 0" "op_prec '':'' = 0" "op_prec '')'' = 0" "op_prec ''('' = 0"
  by (simp_all add: op_prec_def)

lemma stops_delims [simp]:
  "stops k (punct ''?'' # ts)" "stops k (punct '':'' # ts)" "stops k (punct '')'' # ts)"
  by (simp_all add: stops_def)

lemma unary_parens:
  assumes "reads_tern chk e" "length (spell e @ rest) + 1 < n"
  shows "unary chk (ternary chk n) (punct ''('' # spell e @ punct '')'' # rest) =
    exact (value_of chk e) rest"
proof -
  have "ternary chk n (spell e @ punct '')'' # rest) = exact (value_of chk e) (punct '')'' # rest)"
    using assms unfolding reads_tern_def by simp
  then show ?thesis
    by (cases "value_of chk e")
      (simp_all add: unary.simps [of chk _ "punct ''('' # _"] primary_def del: ternary.simps)
qed

lemma reads_unary_parens:
  "reads_tern chk e \<Longrightarrow> prec e < 11 \<Longrightarrow> reads_unary chk e"
  by (simp add: reads_unary_def spell_at_def wrap_def unary_parens)

lemma reads_all_levels:
  assumes "reads_unary chk e" "prec e \<in> {1..10} \<Longrightarrow> reads_level chk (prec e) e" "1 \<le> k" "k \<le> 10"
    "prec e \<le> 11"
  shows "reads_level chk k e"
proof (cases "k \<le> prec e \<and> prec e \<le> 10")
  case True
  then show ?thesis using assms by (intro reads_below [of chk "prec e" e k]) auto
next
  case False
  then show ?thesis
    using assms by (intro reads_from_unary) (auto simp: spell_at_def wrap_def)
qed

lemma reads_tern_from_level:
  assumes "reads_level chk 1 e" "1 \<le> prec e"
  shows "reads_tern chk e"
  unfolding reads_tern_def
proof (intro allI impI)
  fix n rest assume len: "length (spell e @ rest) < n" and st: "stops 1 rest" and q: "peek_text rest \<noteq> ''?''"
  obtain m where n: "n = Suc m" using len by (cases n) auto
  have "spell_at 1 e = spell e" using assms(2) by (simp add: spell_at_def wrap_def)
  then have "logical_or chk (ternary chk m) (spell e @ rest) = exact (value_of chk e) rest"
    using level_exact [OF assms(1), of rest m] st len n by (simp add: level_def)
  then show "ternary chk n (spell e @ rest) = exact (value_of chk e) rest"
    using q n by (cases "value_of chk e") (simp_all add: peek_is_iff)
qed

lemma shape_not_special:
  assumes "token_shape Number s \<or> token_shape CharLiteral s"
  shows "s \<noteq> ''(''" "\<not> unary_op s"
  using assms
  by (auto simp: token_shape_def unary_op_def starts_with_def is_ascii_digit_def)

lemma unary_literal:
  assumes "\<not> unary_op (tok_text t)" "tok_text t \<noteq> ''(''" "\<not> is_ws t"
  shows "unary chk tern (t # rest) =
    (case tok_kind t of
       Number \<Rightarrow> Ok (parse_integer (tok_text t), rest)
     | CharLiteral \<Rightarrow> map_outcome (\<lambda>v. (v, rest)) (parse_char_constant (tok_text t))
     | _ \<Rightarrow> Ok (0, rest))"
  using assms
  by (auto simp: unary.simps [of chk tern "t # rest"] Let_def unary_op_def primary_def advance_def)

lemma unary_operator:
  assumes "unary_op op"
  shows "unary chk tern (punct op # ts) =
    and_then (unary chk tern ts) (\<lambda>(v, r). map_outcome (\<lambda>u. (u, r)) (apply_unary chk op v))"
  using assms
  by (cases "unary chk tern ts")
    (auto simp: unary.simps [of chk tern "punct op # ts"] Let_def unary_op_def apply_unary_def)

lemma exact_and_then: "and_then (exact r ts) (\<lambda>(v, t). map_outcome (\<lambda>u. (u, t)) (f v)) = exact (and_then r f) ts"
  by (cases r) (simp_all add: exact_def)

lemma prec_le: "prec e \<le> 11"
  by (cases e) (simp_all add: le_trans [OF op_prec_le])

lemma reads_level_binary:
  assumes "op_prec op \<noteq> 0"
    and a: "\<And>k. 1 \<le> k \<Longrightarrow> k \<le> 10 \<Longrightarrow> reads_level chk k a"
    and b: "\<And>k. 1 \<le> k \<Longrightarrow> k \<le> 10 \<Longrightarrow> reads_level chk k b" "reads_unary chk b"
  shows "reads_level chk (op_prec op) (Binary op a b)"
  unfolding reads_level_def
proof (intro allI impI)
  let ?p = "op_prec op" and ?q = "Suc (op_prec op)"
  have p: "1 \<le> ?p" "?p \<le> 10" using assms(1) op_prec_le [of op] by simp_all
  fix n rest
  let ?rest = "punct op # spell_at ?q b @ rest"
  let ?L = "level chk (ternary chk n)"
  assume len: "length (spell_at ?p (Binary op a b) @ rest) < Suc n" and st: "stops ?q rest"
  have sp: "spell_at ?p (Binary op a b) @ rest = spell_at ?p a @ ?rest"
    by (simp add: spell_at_def wrap_def)
  have "?L ?p (spell_at ?p a @ ?rest) = and_then (value_of chk a) (\<lambda>v. loop chk n ?p v ?rest)"
    using a [OF p] len unfolding sp reads_level_def by (simp add: stops_def del: bin_loop.simps)
  moreover have "?L ?q (spell_at ?q b @ rest) = exact (value_of chk b) rest"
  proof (cases "?p = 10")
    case True
    then show ?thesis using b(2) len sp by (simp add: reads_unary_def level_11)
  next
    case False
    then show ?thesis
      using b(1) [of ?q] p len sp st by (intro level_exact) auto
  qed
  then have "loop chk n ?p v ?rest =
      and_then (exact (value_of chk b) rest) (\<lambda>(w, ts').
        and_then (apply_binary chk op v w) (\<lambda>u. loop chk n ?p u ts'))" for v
    using loop_op [OF assms(1), of "spell_at ?q b @ rest" n chk v] len sp
    by (simp del: bin_loop.simps)
  ultimately have "?L ?p (spell_at ?p a @ ?rest) = and_then (value_of chk a) (\<lambda>v.
      and_then (exact (value_of chk b) rest) (\<lambda>(w, ts').
        and_then (apply_binary chk op v w) (\<lambda>u. loop chk n ?p u ts')))"
    by (simp del: bin_loop.simps)
  then show "?L ?p (spell_at ?p (Binary op a b) @ rest) =
      and_then (value_of chk (Binary op a b)) (\<lambda>v. loop chk n ?p v rest)"
    unfolding sp
    by (cases "value_of chk a"; cases "value_of chk b") (simp_all del: bin_loop.simps)
qed

lemma reads_tern_cond:
  assumes c: "reads_level chk 1 c" and ab: "reads_tern chk a" "reads_tern chk b"
  shows "reads_tern chk (Cond c a b)"
  unfolding reads_tern_def
proof (intro allI impI)
  fix n rest
  assume len: "length (spell (Cond c a b) @ rest) < n" and st: "stops 1 rest" "peek_text rest \<noteq> ''?''"
  obtain m where n: "n = Suc m" using len by (cases n) auto
  let ?T = "ternary chk m" and ?b = "punct '':'' # spell b @ rest"
  let ?a = "punct ''?'' # spell a @ ?b"
  have sp: "spell (Cond c a b) @ rest = spell_at 1 c @ ?a" by (simp add: spell_at_def)
  have "logical_or chk ?T (spell_at 1 c @ ?a) = exact (value_of chk c) ?a"
    using level_exact [OF c, of ?a m] len n sp by (simp add: level_def)
  moreover have "?T (spell a @ ?b) = exact (value_of chk a) ?b"
    using ab(1) len n sp unfolding reads_tern_def by simp
  moreover have "?T (spell b @ rest) = exact (value_of chk b) rest"
    using ab(2) len n sp st unfolding reads_tern_def by simp
  ultimately show "ternary chk n (spell (Cond c a b) @ rest) = exact (value_of chk (Cond c a b)) rest"
    unfolding sp n
    by (cases "value_of chk c"; cases "value_of chk a"; cases "value_of chk b") (simp_all add: peek_is_iff)
qed

definition reads :: "bool \<Rightarrow> cexpr \<Rightarrow> bool" where
  "reads chk e \<longleftrightarrow> reads_tern chk e \<and> reads_unary chk e \<and>
     (\<forall>k. 1 \<le> k \<longrightarrow> k \<le> 10 \<longrightarrow> reads_level chk k e)"

lemma reads_atomic:
  assumes "reads_unary chk e" "prec e = 11"
  shows "reads chk e"
proof -
  have l: "reads_level chk k e" if "1 \<le> k" "k \<le> 10" for k
    by (rule reads_all_levels) (use assms that in simp_all)
  moreover have "reads_tern chk e"
    using l [of 1] assms(2) by (intro reads_tern_from_level) auto
  ultimately show ?thesis using assms(1) unfolding reads_def by blast
qed

lemma reads_compound:
  assumes "reads_tern chk e" "prec e \<le> 10" "1 \<le> prec e \<Longrightarrow> reads_level chk (prec e) e"
  shows "reads chk e"
proof -
  have u: "reads_unary chk e" using assms by (intro reads_unary_parens) auto
  have "reads_level chk k e" if "1 \<le> k" "k \<le> 10" for k
    by (rule reads_all_levels) (use assms that u in simp_all)
  with u assms(1) show ?thesis unfolding reads_def by blast
qed

lemma reads_cexpr: "wf_cexpr e \<Longrightarrow> reads chk e"
proof (induction e)
  case (Lit s)
  then show ?case
    using shape_not_special [of s]
    by (intro reads_atomic) (simp_all add: reads_unary_def spell_at_def wrap_def unary_literal exact_def)
next
  case (CharLit s)
  then show ?case
    using shape_not_special [of s]
    by (intro reads_atomic) (simp_all add: reads_unary_def spell_at_def wrap_def unary_literal exact_def)
next
  case (Unary op a)
  then have "unary_op op" "reads_unary chk a" by (simp_all add: reads_def)
  then have "reads_unary chk (Unary op a)"
    unfolding reads_unary_def spell_at_def wrap_def [of 11 "Unary op a"]
    by (simp add: unary_operator exact_and_then del: ternary.simps)
  then show ?case by (rule reads_atomic) simp
next
  case (Binary op a b)
  then have p: "op_prec op \<noteq> 0" and ab: "reads chk a" "reads chk b" by simp_all
  then have l: "reads_level chk (op_prec op) (Binary op a b)"
    unfolding reads_def by (intro reads_level_binary) blast+
  then have "reads_level chk 1 (Binary op a b)"
    using p op_prec_le [of op] by (intro reads_below [OF l]) auto
  then have "reads_tern chk (Binary op a b)"
    using p by (intro reads_tern_from_level) auto
  then show ?case using l op_prec_le [of op] by (intro reads_compound) auto
next
  case (Cond c a b)
  then have "reads chk c" "reads chk a" "reads chk b" by simp_all
  then have "reads_tern chk (Cond c a b)"
    unfolding reads_def by (intro reads_tern_cond) simp_all
  then show ?case by (intro reads_compound) auto
qed

subsection \<open>Whitespace and positions do not matter\<close>

definition unplaced :: "token \<Rightarrow> token" where
  "unplaced t = t\<lparr>tok_offset := 0\<rparr>"

lemma unplaced_simps [simp]:
  "tok_kind (unplaced t) = tok_kind t" "tok_text (unplaced t) = tok_text t"
  by (simp_all add: unplaced_def)

definition strip_ws :: "token list \<Rightarrow> token list" where
  "strip_ws ts = map unplaced (filter (\<lambda>t. \<not> is_ws t) ts)"

abbreviation strip_result :: "(int \<times> token list) outcome \<Rightarrow> (int \<times> token list) outcome" where
  "strip_result r \<equiv> map_outcome (\<lambda>(v, ts). (v, strip_ws ts)) r"

text \<open>
  A parser that is blind to whitespace and offsets, on inputs of fewer than \<open>n\<close> tokens: without the whitespace
  and the offsets it yields the same value and the same remaining tokens, without theirs.
\<close>

definition blind :: "parser \<Rightarrow> nat \<Rightarrow> bool" where
  "blind p n \<longleftrightarrow> (\<forall>ts. length ts < n \<longrightarrow> p (strip_ws ts) = strip_result (p ts))"

lemma strip_advance:
  "advance (strip_ws ts) = (map_option unplaced (fst (advance ts)), strip_ws (snd (advance ts)))"
  by (induction ts) (auto simp: advance_def strip_ws_def)

lemma strip_after [simp]: "after (strip_ws ts) = strip_ws (after ts)"
  by (simp add: after_def strip_advance)

lemma peek_advance: "peek_tok ts = fst (advance ts)"
  by (induction ts) (simp_all add: peek_tok_def advance_def)

lemma strip_peek [simp]: "peek_text (strip_ws ts) = peek_text ts"
  by (simp add: peek_text_def peek_advance strip_advance split: option.splits)

lemma strip_length: "length (strip_ws ts) \<le> length ts"
  by (simp add: strip_ws_def)

lemma blindD: "blind p n \<Longrightarrow> length ts < n \<Longrightarrow> p (strip_ws ts) = strip_result (p ts)"
  by (simp add: blind_def)

context binary_level
begin

lemma blind_loop:
  assumes b: "blind p n"
  shows "length ts < n \<Longrightarrow> length ts < k \<Longrightarrow>
    bin_loop ops p k val (strip_ws ts) = strip_result (bin_loop ops p k val ts)"
proof (induction k arbitrary: val ts)
  case (Suc k)
  show ?case
  proof (cases "ops (peek_text ts)")
    case (Some f)
    note a = after_op [OF Some]
    then have an: "length (after ts) < n" using Suc.prems by simp
    show ?thesis
    proof (cases "p (after ts)")
      case (Ok x)
      obtain rhs ts' where x: "x = (rhs, ts')" by fastforce
      have "length ts' \<le> length (after ts)" using shorter [OF an] Ok x by simp
      then have "bin_loop ops p k v (strip_ws ts') = strip_result (bin_loop ops p k v ts')" for v
        using Suc a by simp
      then show ?thesis
        using Some blindD [OF b an] Ok x by (cases "f val rhs") simp_all
    qed (use Some blindD [OF b an] in simp_all)
  qed simp
qed simp

lemma blind_level:
  assumes b: "blind p n"
  shows "blind (bin_level ops p) n"
  unfolding blind_def
proof (intro allI impI)
  fix ts :: "token list" assume len: "length ts < n"
  show "bin_level ops p (strip_ws ts) = strip_result (bin_level ops p ts)"
  proof (cases "p ts")
    case (Ok x)
    obtain v ts' where x: "x = (v, ts')" by fastforce
    have l: "length ts' < n" using shorter [OF len] Ok x len by simp
    have "bin_loop ops p (Suc (length (strip_ws ts'))) v (strip_ws ts') =
        bin_loop ops p (Suc (length ts')) v (strip_ws ts')"
      using strip_length [of ts'] l by (intro loop_fuel) auto
    also have "\<dots> = strip_result (bin_loop ops p (Suc (length ts')) v ts')"
      using l by (intro blind_loop b) auto
    finally show ?thesis using blindD [OF b len] Ok x by (simp add: bin_level_def)
  qed (use blindD [OF b len] in \<open>simp_all add: bin_level_def\<close>)
qed

end

lemma blind_primary:
  assumes "operand_parser tern n" "blind tern n" "length ts < Suc n"
  shows "primary tern (strip_ws ts) = strip_result (primary tern ts)"
proof (cases "peek_text ts = ''(''")
  case True
  then have "length (after ts) < n" using length_after_less [of ts] assms(3) by simp
  then show ?thesis
    using True blindD [OF assms(2)] by (cases "tern (after ts)") (auto simp: primary_def)
next
  case False
  then show ?thesis
    by (cases "parse_char_constant (tok_text (the (fst (advance ts))))")
      (auto simp: primary_def strip_advance split: prod.splits option.splits token_kind.splits)
qed

lemma blind_unary:
  assumes "operand_parser tern n" "blind tern n"
  shows "blind (unary chk tern) (Suc n)"
  unfolding blind_def
proof (intro allI)
  fix ts :: "token list"
  show "length ts < Suc n \<longrightarrow> unary chk tern (strip_ws ts) = strip_result (unary chk tern ts)"
  proof (induction ts rule: length_induct)
    case (1 ts)
    show ?case
    proof (intro impI, cases "peek_text ts \<in> {''!'', ''-'', ''+'', ''~''}")
      case True
      assume len: "length ts < Suc n"
      have "length (after ts) < length ts" using True by (intro length_after_less) auto
      then have IH: "unary chk tern (strip_ws (after ts)) = strip_result (unary chk tern (after ts))"
        using 1 len by auto
      show "unary chk tern (strip_ws ts) = strip_result (unary chk tern ts)"
        using True IH
        by (cases "unary chk tern (after ts)")
          (auto simp: unary.simps [of chk tern ts] unary.simps [of chk tern "strip_ws ts"] Let_def
            map_outcome_map_outcome)
    next
      case False
      assume "length ts < Suc n"
      then show "unary chk tern (strip_ws ts) = strip_result (unary chk tern ts)"
        using False blind_primary [OF assms]
        by (simp add: unary.simps [of chk tern ts] unary.simps [of chk tern "strip_ws ts"] Let_def)
    qed
  qed
qed

lemma blind_levels:
  assumes "blind (ternary chk n) n" "1 \<le> k" "k \<le> 11"
  shows "blind (level chk (ternary chk n) k) (Suc n)"
  using assms(3,2)
proof (induction rule: inc_induct)
  case base
  show ?case using blind_unary [OF ternary_operand assms(1)] by (simp add: level_11)
next
  case (step j)
  then show ?case
    using binary_level.blind_level [OF level_binary [of j chk n]] by (simp add: level_step)
qed

lemma strip_peek_is [simp]: "peek_text_is s (strip_ws ts) = peek_text_is s ts"
  by (simp add: peek_text_is_def peek_advance strip_advance split: option.splits)

lemma blind_ternary: "blind (ternary chk n) n"
proof (induction n)
  case (Suc n)
  have lor: "blind (logical_or chk (ternary chk n)) (Suc n)"
    using blind_levels [OF Suc, of 1] by (simp add: level_def)
  have op: "operand_parser (logical_or chk (ternary chk n)) (Suc n)"
    by (rule levels_operand(10) [OF ternary_operand])
  let ?T = "ternary chk n"
  show ?case
    unfolding blind_def
  proof (intro allI impI)
    fix ts :: "token list" assume len: "length ts < Suc n"
    show "ternary chk (Suc n) (strip_ws ts) = strip_result (ternary chk (Suc n) ts)"
    proof (cases "logical_or chk ?T ts")
      case (Ok x)
      obtain c r where x: "x = (c, r)" by fastforce
      have r: "length r \<le> length ts" using operand_parser.shorter [OF op len] Ok x by simp
      show ?thesis
      proof (cases "peek_text_is ''?'' r")
        case True
        then have "length (after r) < length r"
          by (intro length_after_less) (simp add: peek_is_iff)
        then have b1: "length (after r) < n" using r len by simp
        show ?thesis
        proof (cases "?T (after r)")
          case Ok': (Ok y)
          obtain tv r1 where y: "y = (tv, r1)" by fastforce
          let ?r2 = "if peek_text_is '':'' r1 then after r1 else r1"
          have "length r1 \<le> length (after r)"
            using operand_parser.shorter [OF ternary_operand b1] Ok' y by simp
          moreover have "length ?r2 \<le> length r1" using length_after_le [of r1] by simp
          ultimately have "length ?r2 < n" using b1 by linarith
          then have "?T (strip_ws ?r2) = strip_result (?T ?r2)" by (rule blindD [OF Suc])
          then show ?thesis
            using blindD [OF lor len] Ok x True blindD [OF Suc b1] Ok' y
            by (cases "?T ?r2") (auto split: if_splits)
        qed (use blindD [OF lor len] Ok x True blindD [OF Suc b1] in simp_all)
      qed (use blindD [OF lor len] Ok x in simp)
    qed (use blindD [OF lor len] in simp_all)
  qed
qed (simp add: blind_def)

subsection \<open>Token lists that survive the preparation of a condition\<close>

lemma expand_not_ident:
  "tok_kind a \<noteq> Ident \<Longrightarrow> expand t (a # ts) = a # expand t ts"
  unfolding expand_def by (subst expand_with_paint.simps) simp

lemma resolve_not_ident:
  "tok_kind a \<noteq> Ident \<Longrightarrow> resolve_defined t (a # ts) = a # resolve_defined t ts"
  by simp

lemma prepare_not_ident:
  "tok_kind a \<noteq> Ident \<Longrightarrow> expand_for_condition (a # ts) t = a # expand_for_condition ts t"
  by (simp add: expand_for_condition_def expand_not_ident zero_identifier_def)

lemma prepare_Nil [simp]: "expand_for_condition [] t = []"
  by (simp add: expand_for_condition_def expand_def expand_painted)

lemma prepare_not_idents:
  "\<forall>a\<in>set ts. tok_kind a \<noteq> Ident \<Longrightarrow> expand_for_condition (ts @ us) t = ts @ expand_for_condition us t"
  by (induction ts) (simp_all add: prepare_not_ident)

lemma prepare_ws: "list_all is_ws ts \<Longrightarrow> expand_for_condition ts t = ts"
  using prepare_not_idents [of ts "[]" t] by (auto simp: list_all_iff)

lemma skip_ws_append: "list_all is_ws ws \<Longrightarrow> skip_ws (ws @ ts) = skip_ws ts"
  by (induction ws) auto

lemma strip_ws_simps [simp]:
  "strip_ws [] = []"
  "strip_ws (t # ts) = (if is_ws t then strip_ws ts else unplaced t # strip_ws ts)"
  "strip_ws (ts @ us) = strip_ws ts @ strip_ws us"
  by (simp_all add: strip_ws_def)

lemma strip_ws_all: "list_all is_ws ws \<Longrightarrow> strip_ws ws = []"
  by (induction ws) auto

text \<open>The value of a prepared condition is the value of the tree it spells.\<close>

lemma ternary_spelled:
  assumes "wf_cexpr e" "strip_ws ts = spell e"
  shows "map_outcome fst (ternary chk (Suc (length ts)) ts) = value_of chk e"
proof -
  have "reads_tern chk e" using reads_cexpr [OF assms(1)] by (simp add: reads_def)
  moreover have "length (spell e) < Suc (length ts)" using strip_length [of ts] assms(2) by simp
  moreover have "stops 1 []" "peek_text [] \<noteq> ''?''"
    by (simp_all add: stops_def peek_text_def peek_tok_def op_prec_def)
  ultimately have "ternary chk (Suc (length ts)) (spell e @ []) = exact (value_of chk e) []"
    unfolding reads_tern_def by (metis append_Nil2)
  moreover have "ternary chk (Suc (length ts)) (strip_ws ts) =
      strip_result (ternary chk (Suc (length ts)) ts)"
    by (rule blindD [OF blind_ternary]) simp
  ultimately show ?thesis
    using assms(2)
    by (cases "ternary chk (Suc (length ts)) ts"; cases "value_of chk e")
      (auto simp: exact_def simp del: ternary.simps)
qed

lemma eval_spelled:
  assumes "wf_cexpr e" "strip_ws (expand_for_condition ts t) = spell e"
  shows "eval_condition chk ts t = map_outcome (\<lambda>v. v \<noteq> 0) (value_of chk e)"
proof -
  have "eval_condition chk ts t = map_outcome (\<lambda>v. v \<noteq> 0) (map_outcome fst
      (ternary chk (Suc (length (expand_for_condition ts t))) (expand_for_condition ts t)))"
    by (simp add: eval_condition_def Let_def map_outcome_map_outcome case_prod_unfold
        del: ternary.simps)
  then show ?thesis by (simp only: ternary_spelled [OF assms])
qed

text \<open>
  C5: a condition has the value C gives it.  If the tokens of the condition, after \<open>defined\<close> and the
  macros are replaced, spell the expression \<open>e\<close> (whatever the whitespace between them), then
  \<open>eval_condition\<close> is true exactly if \<open>e\<close> has a nonzero value, and panics exactly if the evaluation of
  \<open>e\<close> does: precedence, left associativity, parentheses, unary operators and nested \<open>?:\<close> all come
  out as the grammar has them.
\<close>
theorem eval_condition_value:
  assumes "wf_cexpr e" "strip_ws (expand_for_condition ts t) = spell e"
  shows "eval_condition chk ts t = map_outcome (\<lambda>v. v \<noteq> 0) (value_of chk e)"
  by (rule eval_spelled) (rule assms)+

theorem eval_condition_value_witness:
  "let t = define_macro \<lparr>md_name = ''VERSION'', md_params = None, md_is_variadic = False, md_body = [Token Number ''3'' 0]\<rparr> new_table;
       ts = [Token Ident ''VERSION'' 0, Token Whitespace '' '' 7, Token Punct ''*'' 8,
             Token Number ''2'' 9, Token Whitespace '' '' 10, Token Punct ''-'' 11,
             Token Number ''1'' 12, Token Punct ''-'' 13, Token Number ''4'' 14,
             Token Punct ''=='' 15, Token Number ''1'' 17]
   in eval_condition True ts t = Ok True"
proof -
  let ?t = "define_macro \<lparr>md_name = ''VERSION'', md_params = None, md_is_variadic = False, md_body = [Token Number ''3'' 0]\<rparr> new_table"
  let ?ts = "[Token Ident ''VERSION'' 0, Token Whitespace '' '' 7, Token Punct ''*'' 8,
             Token Number ''2'' 9, Token Whitespace '' '' 10, Token Punct ''-'' 11,
             Token Number ''1'' 12, Token Punct ''-'' 13, Token Number ''4'' 14,
             Token Punct ''=='' 15, Token Number ''1'' 17]"
  let ?e = "Binary ''=='' (Binary ''-'' (Binary ''-'' (Binary ''*'' (Lit ''3'') (Lit ''2''))
     (Lit ''1'')) (Lit ''4'')) (Lit ''1'')"
  have "wf_cexpr ?e" by code_simp
  moreover have "strip_ws (expand_for_condition ?ts ?t) = spell ?e" by code_simp
  ultimately have "eval_condition True ?ts ?t = map_outcome (\<lambda>v. v \<noteq> 0) (value_of True ?e)"
    by (rule eval_condition_value)
  also have "value_of True ?e = Ok 1" by code_simp
  finally show ?thesis by simp
qed

subsubsection \<open>The operator \<open>defined\<close>\<close>

lemma resolve_defined_name:
  assumes "tok_kind d = Ident" "tok_text d = ''defined''" "list_all is_ws w"
    "tok_kind x = Ident" "tok_text x \<noteq> ''(''"
  shows "resolve_defined t (d # w @ x # ts) =
    bool_token (is_defined t (tok_text x)) (tok_offset x) # resolve_defined t ts"
  using assms by (simp add: skip_ws_append)

lemma resolve_defined_parens:
  assumes "tok_kind d = Ident" "tok_text d = ''defined''" "list_all is_ws w" "list_all is_ws w1"
    "list_all is_ws w2" "tok_kind lp = Punct" "tok_text lp = ''(''" "tok_kind x = Ident"
    "tok_kind rp = Punct" "tok_text rp = '')''"
  shows "resolve_defined t (d # w @ lp # w1 @ x # w2 @ rp # ts) =
    bool_token (is_defined t (tok_text x)) (tok_offset x) # resolve_defined t ts"
  using assms by (simp add: skip_ws_append)

lemma resolve_ws: "list_all is_ws w \<Longrightarrow> resolve_defined t w = w"
  by (induction w) auto

lemma bool_token_kind [simp]: "tok_kind (bool_token b off) = Number"
  by (simp add: bool_token_def)

lemma one_lit: "wf_cexpr (Lit ''1'')" "value_of chk (Lit ''1'') = Ok 1"
  by code_simp+

lemma zero_lit: "wf_cexpr (Lit ''0'')" "value_of chk (Lit ''0'') = Ok 0"
  by code_simp+

lemma wf_truth_lit: "wf_cexpr (Lit (if b then ''1'' else ''0''))"
  using one_lit(1) zero_lit(1) by (cases b) simp_all

lemma value_truth_lit: "value_of chk (Lit (if b then ''1'' else ''0'')) = Ok (truth b)"
  using one_lit(2) zero_lit(2) by (cases b) simp_all

lemma eval_bool_token:
  assumes "resolve_defined t ts = bool_token b off # w" "list_all is_ws w"
  shows "eval_condition chk ts t = Ok b"
proof -
  have "expand_for_condition ts t = bool_token b off # w"
    using assms prepare_ws [of w t] by (simp add: expand_for_condition_def expand_not_ident
        zero_identifier_def resolve_ws)
  then have "strip_ws (expand_for_condition ts t) = spell (Lit (if b then ''1'' else ''0''))"
    using assms(2) by (simp add: strip_ws_all bool_token_def unplaced_def)
  from eval_spelled [OF wf_truth_lit this] show ?thesis
    unfolding value_truth_lit by simp
qed

lemma eval_not_bool_token:
  assumes "resolve_defined t ts = bool_token b off # w" "list_all is_ws w"
    "tok_kind nt = Punct" "tok_text nt = ''!''"
  shows "eval_condition chk (nt # ts) t = Ok (\<not> b)"
proof -
  let ?e = "Lit (if b then ''1'' else ''0'')"
  have "expand_for_condition (nt # ts) t = nt # bool_token b off # w"
    using assms prepare_ws [of w t] by (simp add: expand_for_condition_def expand_not_ident
        zero_identifier_def resolve_ws)
  then have s: "strip_ws (expand_for_condition (nt # ts) t) = spell (Unary ''!'' ?e)"
    using assms(2-4) by (simp add: strip_ws_all bool_token_def unplaced_def wrap_def)
  have "wf_cexpr (Unary ''!'' ?e)" using wf_truth_lit [of b] by (simp add: unary_op_def)
  from eval_spelled [OF this s] show ?thesis
    unfolding value_of.simps(3) value_truth_lit by (simp add: apply_unary_def)
qed

text \<open>
  \<open>defined NAME\<close> and \<open>defined(NAME)\<close>, with whitespace anywhere between their tokens, test whether
  the name is in the macro table; \<open>!\<close> negates the test.  The name itself is never expanded.
\<close>
theorem eval_defined:
  assumes "list_all (list_all is_ws) [w, w1, w2, w3]"
    and "tok_kind d = Ident" "tok_text d = ''defined''" "tok_kind x = Ident" "tok_text x \<noteq> ''(''"
    and "list_all (\<lambda>p. tok_kind p = Punct) [lp, rp, nt]"
    and "tok_text lp = ''(''" "tok_text rp = '')''" "tok_text nt = ''!''"
  shows "list_all (\<lambda>ts.
      eval_condition chk ts t = Ok (is_defined t (tok_text x)) \<and>
      eval_condition chk (nt # ts) t = Ok (\<not> is_defined t (tok_text x)))
    [d # w @ x # w1, d # w @ lp # w1 @ x # w2 @ rp # w3]"
proof -
  have "resolve_defined t (d # w @ x # w1) =
      bool_token (is_defined t (tok_text x)) (tok_offset x) # w1"
    using assms by (subst resolve_defined_name) (auto simp: resolve_ws)
  moreover have "resolve_defined t (d # w @ lp # w1 @ x # w2 @ rp # w3) =
      bool_token (is_defined t (tok_text x)) (tok_offset x) # w3"
    using assms by (subst resolve_defined_parens) (auto simp: resolve_ws)
  ultimately show ?thesis
    using assms eval_bool_token eval_not_bool_token by simp
qed

theorem eval_defined_witness:
  "eval_condition True [Token Punct ''!'' 0, Token Ident ''defined'' 1, Token Punct ''('' 8,
     Token Ident ''X'' 9, Token Punct '')'' 10] new_table = Ok True"
  using eval_defined [where d = "Token Ident ''defined'' 1" and x = "Token Ident ''X'' 9"
      and w = "[]" and ?w1.0 = "[]" and ?w2.0 = "[]" and ?w3.0 = "[]" and lp = "Token Punct ''('' 8"
      and rp = "Token Punct '')'' 10" and nt = "Token Punct ''!'' 0" and t = new_table and chk = True]
  by (simp add: is_defined_iff)

subsection \<open>Comments and termination\<close>

text \<open>
  the evaluation of a condition always ends: no token list and no macro table, not even one with
  circular definitions, makes \<open>eval_condition\<close> run for ever, whatever the overflow-check mode.
\<close>
theorem eval_condition_returns:
  "eval_condition chk ts t \<noteq> NoReturn"
  using condition.returns [of "expand_for_condition ts t" "Suc (length (expand_for_condition ts t))" chk]
  by (simp add: eval_condition_def Let_def del: ternary.simps)

lemma comment_no_operator:
  assumes "token_shape k s" "k = LineComment \<or> k = BlockComment"
  shows "s \<noteq> ''(''" "s \<notin> {''!'', ''-'', ''+'', ''~''}"
  using assms by (auto simp: token_shape_def starts_with_def)

lemma number_no_operator:
  assumes "token_shape Number s"
  shows "1 \<le> k \<Longrightarrow> k \<le> 10 \<Longrightarrow> level_ops chk k s = None" "s \<noteq> ''?''"
proof -
  have h: "s \<noteq> []" "is_ascii_digit (hd s) \<or> hd s = CHR ''.''"
    using assms by (auto simp: token_shape_def)
  let ?ops = "[''||'', ''&&'', ''|'', ''^'', ''&'', ''=='', ''!='', ''<'', ''>'', ''<='', ''>='', ''<<'', ''>>'',
    ''+'', ''-'', ''*'', ''/'', ''%'', ''?'']"
  have "list_all (\<lambda>s. \<not> (is_ascii_digit (hd s) \<or> hd s = CHR ''.'')) ?ops" by code_simp
  with h(2) have "s \<notin> set ?ops" by (fastforce simp only: list_all_iff)
  then have "op_prec s = 0" "s \<noteq> ''?''" by (simp_all add: op_prec_def)
  then show "1 \<le> k \<Longrightarrow> k \<le> 10 \<Longrightarrow> level_ops chk k s = None" "s \<noteq> ''?''"
    using level_ops_Some_prec [of chk k s] by (cases "level_ops chk k s"; simp)+
qed

lemma level_stuck:
  assumes "unary chk tern ts = Ok (v, r)" "\<And>j. 1 \<le> j \<Longrightarrow> j \<le> 10 \<Longrightarrow> level_ops chk j (peek_text r) = None"
    and "1 \<le> k" "k \<le> 11"
  shows "level chk tern k ts = Ok (v, r)"
  using assms(4,3)
proof (induction rule: inc_induct)
  case base
  show ?case using assms(1) by (simp add: level_11)
next
  case (step j)
  then show ?case using assms(2) [of j] by (simp add: level_step bin_level_def)
qed

text \<open>
  a comment inside a condition is not whitespace to the evaluator.  Where a comment comes first and
  an integer literal follows, the comment is read as an operand of value 0 and the rest of the line
  is ignored: the condition is false, although without the comment it may be true.
\<close>
theorem comment_makes_condition_false:
  assumes "list_all is_ws w" "list_all is_ws w1"
    and "tok_kind c = LineComment \<or> tok_kind c = BlockComment" "token_shape (tok_kind c) (tok_text c)"
    and "tok_kind n = Number" "token_shape Number (tok_text n)"
  shows "eval_condition chk (w @ c # w1 @ n # rest) t = Ok False"
proof -
  let ?r = "w1 @ n # expand_for_condition rest t"
  let ?ts = "w @ c # ?r"
  have "\<forall>a\<in>set (w @ c # w1 @ [n]). tok_kind a \<noteq> Ident" using assms by (auto simp: list_all_iff)
  from prepare_not_idents [OF this, of rest t]
  have prep: "expand_for_condition (w @ c # w1 @ n # rest) t = ?ts" by simp
  have c: "peek_text ?ts = tok_text c" "advance ?ts = (Some c, ?r)"
    using assms by (auto simp: peek_text_def peek_tok_def advance_def skip_ws_append)
  have n: "peek_text ?r = tok_text n"
    using assms by (auto simp: peek_text_def peek_tok_def skip_ws_append)
  have "unary chk tern ?ts = Ok (0, ?r)" for tern
    using comment_no_operator [OF assms(4,3)] assms(3) c
    by (subst unary.simps) (auto simp: Let_def primary_def)
  then have "logical_or chk tern ?ts = Ok (0, ?r)" for tern
    using level_stuck [of chk tern ?ts 0 ?r 1] number_no_operator [OF assms(6)] n
    by (simp add: level_def)
  moreover have "\<not> peek_text_is ''?'' ?r"
    using number_no_operator(2) [OF assms(6)] n by (simp add: peek_is_iff)
  ultimately have "ternary chk (Suc (length ?ts)) ?ts = Ok (0, ?r)" by simp
  then show ?thesis by (simp add: eval_condition_def prep Let_def del: ternary.simps)
qed

theorem comment_makes_condition_false_witness:
  "eval_condition True [Token BlockComment ''/* on */'' 0, Token Number ''1'' 8] new_table = Ok False"
proof -
  have "token_shape BlockComment ''/* on */''" "token_shape Number ''1''" by code_simp+
  then show ?thesis
    using comment_makes_condition_false [of "[]" "[]" "Token BlockComment ''/* on */'' 0"
        "Token Number ''1'' 8" True "[]" new_table] by simp
qed

subsection \<open>Integer literals\<close>

text \<open>The prefix of a literal.\<close>

definition radix_prefix :: "nat \<Rightarrow> string" where
  "radix_prefix radix =
     (if radix = 16 then ''0x'' else if radix = 2 then ''0b'' else if radix = 8 then ''0'' else [])"

lemma trim_int_suffix_append:
  assumes "set suffix \<subseteq> set ''uUlL''" "s \<noteq> []" "last s \<notin> set ''uUlL''"
  shows "trim_int_suffix (s @ suffix) = s"
proof -
  have "dropWhile (\<lambda>c. c \<in> set ''uUlL'') (rev s) = rev s"
    using assms(2,3) by (cases s rule: rev_cases) auto
  moreover have "\<forall>c\<in>set (rev suffix). c \<in> set ''uUlL''" using assms(1) by (auto simp del: set_simps)
  ultimately show ?thesis
    unfolding trim_int_suffix_def rev_append by (subst dropWhile_append2) (auto simp del: set_simps)
qed

lemma parse_i128_print:
  assumes "2 \<le> radix" "radix \<le> 16" "n < 2 ^ 127"
  shows "parse_i128 radix (print_digits radix n) = Some (int n)"
proof -
  obtain d where "d < radix" "hd (print_digits radix n) = digit_char d"
    using print_digits_chars [OF assms(1,2), of "hd (print_digits radix n)" n] by auto
  then have "hd (print_digits radix n) \<notin> {CHR ''-'', CHR ''+''}"
    using digit_char_facts [OF _ assms(2), of d] by (auto simp: digit_facts_def)
  moreover have "int n < 2 ^ 127" using assms(3) by (metis of_nat_less_iff of_nat_numeral of_nat_power)
  ultimately show ?thesis
    using print_digits_value [OF assms(1,2)] by (simp add: parse_i128_def from_str_radix_def Let_def)
qed

text \<open>
  integer literals are read back.  A number below \<open>2^127\<close>, printed in binary (\<open>0b\<close>), octal (a
  leading \<open>0\<close>), decimal or hexadecimal (\<open>0x\<close>) with any of the suffix letters \<open>u U l L\<close> behind it, is
  parsed to that number.
\<close>
theorem parse_integer_roundtrip:
  assumes "radix \<in> {2, 8, 10, 16}" "n < 2 ^ 127" "set suffix \<subseteq> set ''uUlL''"
  shows "parse_integer (radix_prefix radix @ print_digits radix n @ suffix) = int n"
proof -
  let ?ds = "print_digits radix n"
  have r: "2 \<le> radix" "radix \<le> 16" using assms(1) by auto
  have chars: "\<exists>d<radix. c = digit_char d" if "c \<in> set ?ds" for c
    using that by (rule print_digits_chars [OF r])
  have facts: "c \<notin> set ''uUlL+-xX''" "radix \<le> 10 \<Longrightarrow> is_ascii_digit c \<and> c \<notin> set ''bB''" if "c \<in> set ?ds" for c
    using chars [OF that] digit_char_facts [OF _ r(2)] by (auto simp: digit_facts_def simp del: set_simps)
  have "last ?ds \<notin> set ''uUlL''" using facts(1) [of "last ?ds"] by auto
  then have trim: "trim_int_suffix (radix_prefix radix @ ?ds @ suffix) = radix_prefix radix @ ?ds"
    using trim_int_suffix_append [OF assms(3), of "radix_prefix radix @ ?ds"] by simp
  note val = parse_i128_print [OF r assms(2)]
  consider "radix = 16" | "radix = 2" | "radix = 8" | "radix = 10" using assms(1) by auto
  then show ?thesis
  proof cases
    case 3
    then have "list_all is_ascii_digit ?ds" "hd ?ds \<notin> set ''xXbB''"
      using facts [of "hd ?ds"] facts(2) by (auto simp: list_all_iff)
    then show ?thesis
      using 3 trim val by (cases ?ds)
        (auto simp: parse_integer_def radix_prefix_def starts_with_def or_zero_def is_ascii_digit_def)
  next
    case 4
    then have "\<not> (starts_with ?ds ''0'' \<and> 1 < length ?ds)"
      using print_digits_leading [OF r, of n]
      by (cases "n < radix") (auto simp: starts_with_def print_digits.simps [of 10 n] take_Suc hd_append)
    moreover have "\<not> starts_with ?ds ''0x''" "\<not> starts_with ?ds ''0X''" "\<not> starts_with ?ds ''0b''"
      "\<not> starts_with ?ds ''0B''"
      using calculation by (cases ?ds; auto simp: starts_with_def)+
    ultimately show ?thesis
      using 4 trim val by (auto simp: parse_integer_def radix_prefix_def or_zero_def)
  qed (use trim val in \<open>simp_all add: parse_integer_def radix_prefix_def starts_with_def or_zero_def\<close>)
qed

theorem parse_integer_roundtrip_witness:
  "parse_integer (radix_prefix 16 @ print_digits 16 48879 @ ''ULL'') = 48879"
proof -
  have "(48879::nat) < 2 ^ 127" by simp
  then show ?thesis using parse_integer_roundtrip [of 16 48879 "''ULL''"] by simp
qed

end
