(* ===== verification/Directive.thy ===== *)
theory Directive
  imports Lexer
begin

text \<open>
  Directive parsing (\<open>src/preprocess/directive.rs\<close>): the \<open>Directive\<close> enum, \<open>parse_directive\<close> and its
  helpers.  A parser gets the tokens between \<open>#\<close> and the newline.  Slices that panic are \<open>Panic\<close>; the
  parameter loop of \<open>parse_define\<close>, which has inputs on which it makes no progress, is a partial
  function, and not returning is \<open>NoReturn\<close>.
\<close>

declare dropWhile_eq_Nil_conv [simp del]

subsection \<open>Trimming\<close>

text \<open>
  \<open>str::trim\<close> removes characters with the Unicode property White_Space; these are their UTF-8
  encodings.
\<close>

definition white_space :: "string list" where
  "white_space =
     map (\<lambda>n. [char_of (n::nat)]) ([9..<14] @ [32]) @
     map (map char_of) [[194, 133], [194, 160], [225, 154, 128::nat]] @
     map (\<lambda>n. map char_of [226, 128, n]) ([128..<139] @ [168, 169, 175::nat]) @
     map (map char_of) [[226, 129, 159], [227, 128, 128::nat]]"

function drop_prefixes :: "string list \<Rightarrow> string \<Rightarrow> string" where
  "drop_prefixes ws s =
     (case find (\<lambda>w. w \<noteq> [] \<and> starts_with s w) ws of
        None \<Rightarrow> s
      | Some w \<Rightarrow> drop_prefixes ws (drop (length w) s))"
  by pat_completeness auto
termination
proof (relation "measure (\<lambda>(ws, s). length s)")
  fix ws :: "string list" and s w
  assume "find (\<lambda>w. w \<noteq> [] \<and> starts_with s w) ws = Some w"
  then have "w \<noteq> []" "starts_with s w" by (auto simp: find_Some_iff)
  then show "((ws, drop (length w) s), ws, s) \<in> measure (\<lambda>(ws, s). length s)"
    by (cases s) (auto simp: starts_with_def)
qed simp

declare drop_prefixes.simps [simp del]

definition trim_start :: "string \<Rightarrow> string" where
  "trim_start s = drop_prefixes white_space s"

definition trim_end :: "string \<Rightarrow> string" where
  "trim_end s = rev (drop_prefixes (map rev white_space) (rev s))"

definition trim :: "string \<Rightarrow> string" where
  "trim s = trim_end (trim_start s)"

subsection \<open>Directives\<close>

datatype directive =
  D_Define string "string list option" bool "token list"
| D_Undef string
| D_Include string bool bool
| D_IncludeComputed "token list" bool
| D_If "token list"
| D_Ifdef string
| D_Ifndef string
| D_Elif "token list"
| D_Else
| D_Endif
| D_Error string
| D_Warning string
| D_Pragma "token list"
| D_Line int "string option"
| D_LineMarker int string "int list"
| D_Null
| D_Unknown string "token list"

subsection \<open>Helpers\<close>

definition first_ident :: "token list \<Rightarrow> string option" where
  "first_ident ts =
     (case skip_ws ts of
        [] \<Rightarrow> None
      | t # _ \<Rightarrow> if tok_kind t = Ident then Some (tok_text t) else None)"

definition comment_piece :: "token \<Rightarrow> string" where
  "comment_piece t = (if tok_kind t \<in> {LineComment, BlockComment} then '' '' else tok_text t)"

fun collect_pieces :: "string \<Rightarrow> token list \<Rightarrow> string" where
  "collect_pieces text [] = text"
| "collect_pieces text (t # ts) =
     (let piece = comment_piece t in
      if text = [] \<and> trim piece = [] then collect_pieces text ts
      else collect_pieces (text @ piece) ts)"

definition collect_text :: "token list \<Rightarrow> string" where
  "collect_text ts = trim_end (collect_pieces [] ts)"

definition header_name :: "string \<Rightarrow> (string \<times> bool) option" where
  "header_name text =
     (let trimmed = trim text in
      if 2 \<le> length trimmed \<and> starts_with trimmed ''<'' \<and> ends_with trimmed ''>''
      then Some (butlast (tl trimmed), True)
      else if 2 \<le> length trimmed \<and> starts_with trimmed [CHR 0x22] \<and> ends_with trimmed [CHR 0x22]
      then Some (butlast (tl trimmed), False)
      else None)"

definition expanded_header_name :: "token list \<Rightarrow> (string \<times> bool) option" where
  "expanded_header_name ts =
     header_name (concat (map tok_text
       (filter (\<lambda>t. tok_kind t \<notin> {Whitespace, Newline, LineComment, BlockComment}) ts)))"

text \<open>\<open>strip_whitespace_edges\<close> is \<open>trim_tokens\<close>, with two indices instead of \<open>remove\<close> and \<open>pop\<close>.\<close>

definition strip_whitespace_edges :: "token list \<Rightarrow> token list" where
  "strip_whitespace_edges ts = trim_tokens ts"

definition text_is :: "string \<Rightarrow> token \<Rightarrow> bool" where
  "text_is s t \<longleftrightarrow> tok_text t = s"

subsection \<open>\<open>#define\<close>\<close>

text \<open>
  The loop over the parameter list, behind the opening parenthesis: the parameter names, whether the
  list ends in \<open>...\<close>, and the tokens behind it.
\<close>

partial_function (option) param_loop ::
  "token list \<Rightarrow> string list \<Rightarrow> (string list \<times> bool \<times> token list) option" where
  "param_loop tokens params =
     (case skip_ws tokens of
        [] \<Rightarrow> Some (params, False, [])
      | t # r \<Rightarrow>
          if tok_text t = '')'' then Some (params, False, r)
          else if tok_text t = ''.'' \<and> 2 \<le> length r \<and> tok_text (r ! 0) = ''.'' \<and> tok_text (r ! 1) = ''.''
          then Some (params, True, drop 1 (dropWhile (\<lambda>t. \<not> text_is '')'' t) (drop 2 r)))
          else if tok_kind t = Ident
          then param_loop (dropWhile (\<lambda>t. is_ws t \<or> text_is '','' t) r) (params @ [tok_text t])
          else param_loop (dropWhile (\<lambda>t. is_ws t \<or> text_is '','' t) (t # r)) params)"

text \<open>The same loop as a total function: it fails where the loop makes no progress.\<close>

abbreviation ellipsis :: "token \<Rightarrow> token list \<Rightarrow> bool" where
  "ellipsis t r \<equiv>
     tok_text t = ''.'' \<and> 2 \<le> length r \<and> tok_text (r ! 0) = ''.'' \<and> tok_text (r ! 1) = ''.''"

abbreviation separator :: "token \<Rightarrow> bool" where
  "separator t \<equiv> is_ws t \<or> text_is '','' t"

lemma skip_ws_length: "skip_ws ts = t # r \<Longrightarrow> length r < length ts"
  using length_dropWhile_le [of is_ws ts] by simp

function param_list :: "token list \<Rightarrow> string list \<Rightarrow> (string list \<times> bool \<times> token list) option" where
  "param_list tokens params =
     (case skip_ws tokens of
        [] \<Rightarrow> Some (params, False, [])
      | t # r \<Rightarrow>
          if tok_text t = '')'' then Some (params, False, r)
          else if ellipsis t r
          then Some (params, True, drop 1 (dropWhile (\<lambda>t. \<not> text_is '')'' t) (drop 2 r)))
          else if tok_kind t = Ident then param_list (dropWhile separator r) (params @ [tok_text t])
          else if text_is '','' t then param_list (dropWhile separator r) params
          else None)"
  by pat_completeness auto
termination
  by (relation "measure (\<lambda>(ts, ps). length ts)")
    (auto dest!: skip_ws_length intro: le_less_trans [OF length_dropWhile_le])

declare param_list.simps [simp del]

lemma param_list_skip: "param_list (skip_ws ts) ps = param_list ts ps"
  by (simp add: param_list.simps [of ts] param_list.simps [of "skip_ws ts"])

lemma param_list_end: "skip_ws ts = [] \<Longrightarrow> param_list ts ps = Some (ps, False, [])"
  by (simp only: param_list.simps [of ts] list.case)

lemma param_list_step:
  "skip_ws ts = t # r \<Longrightarrow> param_list ts ps =
     (if tok_text t = '')'' then Some (ps, False, r)
      else if ellipsis t r then Some (ps, True, drop 1 (dropWhile (\<lambda>t. \<not> text_is '')'' t) (drop 2 r)))
      else if tok_kind t = Ident then param_list (dropWhile separator r) (ps @ [tok_text t])
      else if text_is '','' t then param_list (dropWhile separator r) ps
      else None)"
  by (simp only: param_list.simps [of ts] list.case)

lemma separator_step:
  "skip_ws ts = t # r \<Longrightarrow>
     dropWhile separator (t # r) = (if text_is '','' t then dropWhile separator r else t # r)"
  using dropWhile_eq_Cons_conv [of is_ws ts t r] by auto

lemma param_list_sound: "param_list ts ps = Some y \<Longrightarrow> param_loop ts ps = Some y"
proof (induction ts ps rule: param_list.induct)
  case (1 ts ps)
  show ?case
  proof (cases "skip_ws ts")
    case Nil
    then show ?thesis using "1.prems" param_list_end [OF Nil, of ps] by (subst param_loop.simps) (simp only: list.case)
  next
    case (Cons t r)
    note sep = separator_step [OF Cons]
    have "tok_text t \<noteq> '')'' \<Longrightarrow> \<not> ellipsis t r \<Longrightarrow> tok_kind t = Ident \<Longrightarrow>
        param_loop (dropWhile separator r) (ps @ [tok_text t]) = Some y"
      "tok_text t \<noteq> '')'' \<Longrightarrow> \<not> ellipsis t r \<Longrightarrow> tok_kind t \<noteq> Ident \<Longrightarrow>
        text_is '','' t \<and> param_loop (dropWhile separator r) ps = Some y"
      using "1.IH" [OF Cons] "1.prems" unfolding param_list_step [OF Cons] by (simp_all split: if_splits)
    then show ?thesis
      using "1.prems" unfolding param_list_step [OF Cons]
      by (subst param_loop.simps) (simp only: Cons list.case sep split: if_splits, auto)
  qed
qed

lemma param_list_complete: "param_loop ts ps = Some y \<Longrightarrow> param_list ts ps = Some y"
proof (rule param_loop.raw_induct [where P = "\<lambda>ts ps y. param_list ts ps = Some y"])
  fix loop ts ps y
  assume IH: "\<And>ts ps y. loop ts ps = Some y \<Longrightarrow> param_list ts ps = Some y"
    and step: "(case skip_ws ts of
        [] \<Rightarrow> Some (ps, False, [])
      | t # r \<Rightarrow>
          if tok_text t = '')'' then Some (ps, False, r)
          else if ellipsis t r
          then Some (ps, True, drop 1 (dropWhile (\<lambda>t. \<not> text_is '')'' t) (drop 2 r)))
          else if tok_kind t = Ident then loop (dropWhile separator r) (ps @ [tok_text t])
          else loop (dropWhile separator (t # r)) ps) = Some y"
  show "param_list ts ps = Some y"
  proof (cases "skip_ws ts")
    case Nil
    then show ?thesis using step param_list_end [OF Nil, of ps] by (simp only: list.case)
  next
    case (Cons t r)
    note sep = separator_step [OF Cons]
    have self: "param_list (t # r) ps = param_list ts ps"
      using param_list_skip [of ts ps] by (simp only: Cons)
    show ?thesis
      using step IH [of "dropWhile separator r" "ps @ [tok_text t]" y]
        IH [of "dropWhile separator r" ps y] IH [of "t # r" ps y]
      unfolding self
      unfolding param_list_step [OF Cons] Cons list.case sep
      by (cases "tok_text t = '')''"; cases "ellipsis t r"; cases "tok_kind t = Ident"; cases "text_is '','' t")
        (simp_all only: if_True if_False simp_thms)
  qed
qed

lemma param_loop_list [code]: "param_loop ts ps = param_list ts ps"
  using param_list_sound [of ts ps] param_list_complete [of ts ps]
  by (cases "param_loop ts ps"; cases "param_list ts ps") auto

definition parse_define :: "token list \<Rightarrow> directive outcome" where
  "parse_define tokens =
     (case skip_ws tokens of
        [] \<Rightarrow> Ok (D_Unknown ''define'' tokens)
      | t # r \<Rightarrow>
          if tok_kind t \<noteq> Ident then Ok (D_Unknown ''define'' tokens)
          else if r \<noteq> [] \<and> tok_text (hd r) = ''('' then
            (case param_loop (tl r) [] of
               None \<Rightarrow> NoReturn
             | Some (params, variadic, r') \<Rightarrow>
                 Ok (D_Define (tok_text t) (Some params) variadic (skip_ws r')))
          else Ok (D_Define (tok_text t) None False (skip_ws r)))"

subsection \<open>The other directives\<close>

definition parse_undef :: "token list \<Rightarrow> directive" where
  "parse_undef ts =
     (case first_ident ts of Some n \<Rightarrow> D_Undef n | None \<Rightarrow> D_Unknown ''undef'' ts)"

definition parse_include :: "token list \<Rightarrow> bool \<Rightarrow> directive" where
  "parse_include ts next =
     (case header_name (collect_text ts) of
        Some (path, system) \<Rightarrow> D_Include path system next
      | None \<Rightarrow> D_IncludeComputed ts next)"

definition parse_ifdef :: "token list \<Rightarrow> directive" where
  "parse_ifdef ts =
     (case first_ident ts of Some n \<Rightarrow> D_Ifdef n | None \<Rightarrow> D_Unknown ''ifdef'' ts)"

definition parse_ifndef :: "token list \<Rightarrow> directive" where
  "parse_ifndef ts =
     (case first_ident ts of Some n \<Rightarrow> D_Ifndef n | None \<Rightarrow> D_Unknown ''ifndef'' ts)"

definition u32_or_0 :: "string \<Rightarrow> int" where
  "u32_or_0 s = (case parse_u32 s of Some n \<Rightarrow> n | None \<Rightarrow> 0)"

definition parse_line :: "token list \<Rightarrow> directive outcome" where
  "parse_line tokens =
     (case skip_ws tokens of
        [] \<Rightarrow> Ok (D_Unknown ''line'' tokens)
      | t # r \<Rightarrow>
          if tok_kind t \<noteq> Number then Ok (D_Unknown ''line'' tokens)
          else
            (case skip_ws r of
               [] \<Rightarrow> Ok (D_Line (u32_or_0 (tok_text t)) None)
             | f # _ \<Rightarrow>
                 if tok_kind f = StringLiteral
                 then map_outcome (\<lambda>s. D_Line (u32_or_0 (tok_text t)) (Some s)) (strip_delimiters (tok_text f))
                 else Ok (D_Line (u32_or_0 (tok_text t)) None)))"

fun line_flags :: "token list \<Rightarrow> int list" where
  "line_flags [] = []"
| "line_flags (t # ts) =
     (if tok_kind t = Number
      then (case parse_u32 (tok_text t) of Some f \<Rightarrow> f # line_flags ts | None \<Rightarrow> line_flags ts)
      else line_flags ts)"

definition parse_line_marker :: "token list \<Rightarrow> directive outcome" where
  "parse_line_marker tokens =
     (if tok_kind (hd tokens) \<noteq> Number then Ok D_Null
      else
        let line = u32_or_0 (tok_text (hd tokens)) in
        (case skip_ws (tl tokens) of
           [] \<Rightarrow> Ok (D_Line line None)
         | f # r \<Rightarrow>
             if tok_kind f = StringLiteral
             then map_outcome (\<lambda>s. D_LineMarker line s (line_flags r)) (strip_delimiters (tok_text f))
             else Ok (D_Line line None)))"

definition parse_directive :: "token list \<Rightarrow> directive outcome" where
  "parse_directive tokens =
     (case skip_ws tokens of
        [] \<Rightarrow> Ok D_Null
      | t # rest \<Rightarrow>
          if tok_kind t = Number then parse_line_marker (t # rest)
          else if tok_kind t \<noteq> Ident then Ok (D_Unknown [] tokens)
          else
            let name = tok_text t in
            if name = ''define'' then parse_define rest
            else if name = ''undef'' then Ok (parse_undef rest)
            else if name = ''include'' then Ok (parse_include rest False)
            else if name = ''include_next'' then Ok (parse_include rest True)
            else if name = ''if'' then Ok (D_If (strip_whitespace_edges rest))
            else if name = ''ifdef'' then Ok (parse_ifdef rest)
            else if name = ''ifndef'' then Ok (parse_ifndef rest)
            else if name = ''elif'' then Ok (D_Elif (strip_whitespace_edges rest))
            else if name = ''else'' then Ok D_Else
            else if name = ''endif'' then Ok D_Endif
            else if name = ''error'' then Ok (D_Error (collect_text rest))
            else if name = ''warning'' then Ok (D_Warning (collect_text rest))
            else if name = ''pragma'' then Ok (D_Pragma (strip_whitespace_edges rest))
            else if name = ''line'' then parse_line rest
            else Ok (D_Unknown name rest))"

subsection \<open>Where the parameter loop is stuck\<close>

text \<open>
  A scan of the parameter list, token by token: it is blocked at a token that is no name, comma,
  closing parenthesis or ellipsis.
\<close>

fun blocked :: "token list \<Rightarrow> bool" where
  "blocked [] = False"
| "blocked (t # r) =
     (if is_ws t then blocked r
      else if tok_text t = '')'' \<or> ellipsis t r then False
      else if tok_kind t = Ident \<or> text_is '','' t then blocked r
      else True)"

definition stuck_define :: "token list \<Rightarrow> bool" where
  "stuck_define ts \<longleftrightarrow>
     (case skip_ws ts of
        n # p # r \<Rightarrow> tok_kind n = Ident \<and> tok_text p = ''('' \<and> blocked r
      | _ \<Rightarrow> False)"

lemma blocked_separators: "blocked (dropWhile separator ts) = blocked ts"
  by (induction ts) (auto simp: text_is_def)

lemma blocked_skip: "blocked (skip_ws ts) = blocked ts"
  by (induction ts) auto

lemma param_list_blocked: "param_list ts ps = None \<longleftrightarrow> blocked ts"
proof (induction ts ps rule: param_list.induct)
  case (1 ts ps)
  show ?case
  proof (cases "skip_ws ts")
    case Nil
    then show ?thesis using param_list_end [OF Nil, of ps] blocked_skip [of ts] by simp
  next
    case (Cons t r)
    then have "\<not> is_ws t" using dropWhile_eq_Cons_conv [of is_ws ts] by blast
    moreover have "blocked ts = blocked (t # r)" using blocked_skip [of ts] Cons by simp
    ultimately show ?thesis
      using "1.IH" [OF Cons] unfolding param_list_step [OF Cons]
      by (auto simp: blocked_separators)
  qed
qed

lemma parse_define_stuck: "parse_define ts = NoReturn \<longleftrightarrow> stuck_define ts"
  by (auto simp: parse_define_def stuck_define_def param_loop_list param_list_blocked [of _ "[]", symmetric]
      split: list.splits option.splits)

definition head_is :: "string \<Rightarrow> token list \<Rightarrow> bool" where
  "head_is s ts \<longleftrightarrow>
     (case skip_ws ts of [] \<Rightarrow> False | t # _ \<Rightarrow> tok_kind t = Ident \<and> tok_text t = s)"

text \<open>A string literal that \<open>s[1..s.len() - 1]\<close> can be taken of.\<close>

definition good_literal :: "token \<Rightarrow> bool" where
  "good_literal t \<longleftrightarrow>
     (tok_kind t = StringLiteral \<longrightarrow>
       (case strip_delimiters (tok_text t) of Ok _ \<Rightarrow> True | _ \<Rightarrow> False))"

lemma skip_ws_set: "skip_ws ts = t # r \<Longrightarrow> t \<in> set ts \<and> set r \<subseteq> set ts"
  by (metis list.set_intros(1) set_dropWhileD set_subset_Cons subset_iff)

lemma parse_line_returns:
  assumes "\<forall>t\<in>set ts. good_literal t"
  shows "\<exists>d. parse_line ts = Ok d" "ts \<noteq> [] \<Longrightarrow> \<exists>d. parse_line_marker ts = Ok d"
proof -
  have lit: "\<exists>x. strip_delimiters (tok_text f) = Ok x"
    if "skip_ws r = f # q" "set r \<subseteq> set ts" "tok_kind f = StringLiteral" for r f q
    using assms skip_ws_set [OF that(1)] that(2,3)
    by (cases "strip_delimiters (tok_text f)") (auto simp: good_literal_def)
  show "\<exists>d. parse_line ts = Ok d"
  proof (cases "skip_ws ts")
    case (Cons t r)
    then show ?thesis
      using lit [of r] skip_ws_set [OF Cons] by (fastforce simp: parse_line_def split: list.splits)
  qed (simp add: parse_line_def)
  show "\<exists>d. parse_line_marker ts = Ok d" if "ts \<noteq> []"
    using lit [of "tl ts"] that by (cases ts) (fastforce simp: parse_line_marker_def Let_def split: list.splits)+
qed

subsection \<open>Trimming an ASCII edge\<close>

definition ws_bytes :: "char set" where
  "ws_bytes = set (concat white_space)"

lemma white_space_eval:
  "white_space = [[CHR 0x09], [CHR 0x0A], [CHR 0x0B], [CHR 0x0C], [CHR 0x0D], [CHR 0x20],
     [CHR 0xC2, CHR 0x85], [CHR 0xC2, CHR 0xA0], [CHR 0xE1, CHR 0x9A, CHR 0x80]] @
     map (\<lambda>c. [CHR 0xE2, CHR 0x80, c])
       [CHR 0x80, CHR 0x81, CHR 0x82, CHR 0x83, CHR 0x84, CHR 0x85, CHR 0x86, CHR 0x87, CHR 0x88,
        CHR 0x89, CHR 0x8A, CHR 0xA8, CHR 0xA9, CHR 0xAF] @
     [[CHR 0xE2, CHR 0x81, CHR 0x9F], [CHR 0xE3, CHR 0x80, CHR 0x80]]"
  by code_simp

lemma delimiters_no_ws [simp]: "CHR ''<'' \<notin> ws_bytes" "CHR ''>'' \<notin> ws_bytes" "CHR 0x22 \<notin> ws_bytes"
  by (simp_all add: ws_bytes_def white_space_eval)

lemma drop_prefixes_split: "\<exists>p. s = p @ drop_prefixes ws s \<and> set p \<subseteq> set (concat ws)"
proof (induction ws s rule: drop_prefixes.induct)
  case (1 ws s)
  let ?f = "find (\<lambda>w. w \<noteq> [] \<and> starts_with s w) ws"
  show ?case
  proof (cases ?f)
    case None
    then show ?thesis by (intro exI [of _ "[]"]) (simp add: drop_prefixes.simps [of ws s])
  next
    case (Some w)
    then have w: "w \<in> set ws" "starts_with s w" by (auto simp: find_Some_iff)
    obtain p where p: "drop (length w) s = p @ drop_prefixes ws (drop (length w) s)"
      "set p \<subseteq> set (concat ws)" using 1 [OF Some] by blast
    have "s = w @ drop (length w) s"
      using w(2) by (metis append_take_drop_id starts_with_def)
    with p w(1) Some show ?thesis
      by (intro exI [of _ "w @ p"]) (auto simp: drop_prefixes.simps [of ws s])
  qed
qed

lemma drop_prefixes_keep:
  assumes "c \<notin> set (concat ws)"
  shows "drop_prefixes ws (c # s) = c # s"
proof -
  have "\<not> (w \<noteq> [] \<and> starts_with (c # s) w)" if "w \<in> set ws" for w
    using assms that by (cases w) (auto simp: starts_with_def)
  then have "find (\<lambda>w. w \<noteq> [] \<and> starts_with (c # s) w) ws = None" by (simp add: find_None_iff)
  then show ?thesis by (simp add: drop_prefixes.simps [of ws "c # s"])
qed

lemma concat_rev_set: "set (concat (map rev ws)) = set (concat ws)"
  by simp

lemma trim_start_keep: "c \<notin> ws_bytes \<Longrightarrow> trim_start (c # s) = c # s"
  unfolding trim_start_def ws_bytes_def by (rule drop_prefixes_keep)

lemma trim_end_keep: "c \<notin> ws_bytes \<Longrightarrow> trim_end (s @ [c]) = s @ [c]"
  unfolding trim_end_def ws_bytes_def rev_append
  by (simp add: drop_prefixes_keep del: set_concat) (simp add: drop_prefixes_keep)

lemma trim_nonempty:
  assumes "c \<notin> ws_bytes"
  shows "trim (c # s) \<noteq> []"
proof -
  obtain p where p: "rev (c # s) = p @ drop_prefixes (map rev white_space) (rev (c # s))"
    "set p \<subseteq> ws_bytes"
    using drop_prefixes_split [of "rev (c # s)" "map rev white_space"]
    unfolding ws_bytes_def concat_rev_set by blast
  have "c \<in> set (rev (c # s))" by simp
  then have "drop_prefixes (map rev white_space) (rev (c # s)) \<noteq> []"
    using p assms by (metis append_Nil2 subsetD)
  then show ?thesis by (simp add: trim_def trim_start_keep [OF assms] trim_end_def)
qed

lemma find_eq: "x \<in> set xs \<Longrightarrow> find (\<lambda>y. y = x) xs = Some x"
  by (induction xs) auto

lemma drop_prefixes_ws:
  assumes "horizontal_ws c \<or> c = CHR '' ''"
  shows "drop_prefixes (map rev white_space) (c # s) = drop_prefixes (map rev white_space) s"
proof -
  let ?ws = "map rev white_space"
  have c: "[c] \<in> set ?ws" "\<forall>w\<in>set ?ws. w \<noteq> [] \<and> (hd w = c \<longrightarrow> w = [c])"
    using assms by (auto simp: white_space_eval horizontal_ws_def)
  have "(w \<noteq> [] \<and> starts_with (c # s) w) = (w = [c])" if "w \<in> set ?ws" for w
    using c(2) [rule_format, OF that] by (cases w) (auto simp: starts_with_def)
  then have "find (\<lambda>w. w \<noteq> [] \<and> starts_with (c # s) w) ?ws = find (\<lambda>w. w = [c]) ?ws"
    by (intro find_cong) simp_all
  also have "\<dots> = Some [c]" using c(1) by (rule find_eq)
  finally show ?thesis by (simp add: drop_prefixes.simps [of ?ws "c # s"])
qed

lemma trim_end_ws: "\<forall>c\<in>set w. horizontal_ws c \<Longrightarrow> trim_end (s @ w) = trim_end s"
proof (induction w rule: rev_induct)
  case (snoc c w)
  then have "drop_prefixes (map rev white_space) (rev (s @ w @ [c])) =
      drop_prefixes (map rev white_space) (rev (s @ w))"
    using drop_prefixes_ws [of c "rev (s @ w)"] by simp
  then show ?case using snoc by (simp add: trim_end_def)
qed simp

text \<open>Tokens that collect_text reads as blanks: whitespace and comments.\<close>

definition blank_token :: "token \<Rightarrow> bool" where
  "blank_token t \<longleftrightarrow> tok_kind t \<in> {LineComment, BlockComment} \<or>
     is_ws t \<and> token_shape Whitespace (tok_text t)"

lemma blank_piece: "blank_token t \<Longrightarrow> \<forall>c\<in>set (comment_piece t). horizontal_ws c"
  by (auto simp: blank_token_def comment_piece_def token_shape_def list_all_iff horizontal_ws_def)

lemma trim_blank: "\<forall>c\<in>set s. horizontal_ws c \<Longrightarrow> trim s = []"
proof -
  assume s: "\<forall>c\<in>set s. horizontal_ws c"
  obtain p where "s = p @ trim_start s"
    using drop_prefixes_split [of s white_space] by (auto simp: trim_start_def)
  then have "\<forall>c\<in>set (trim_start s). horizontal_ws c" using s by (metis Un_iff set_append)
  then have "trim_end ([] @ trim_start s) = trim_end []" by (rule trim_end_ws)
  also have "trim_end [] = []"
  proof -
    obtain p where "[] = p @ drop_prefixes (map rev white_space) []"
      using drop_prefixes_split [of "[]" "map rev white_space"] by blast
    then show ?thesis by (simp add: trim_end_def)
  qed
  finally show ?thesis by (simp add: trim_def)
qed

lemma collect_pieces_started:
  "s \<noteq> [] \<Longrightarrow> collect_pieces s ts = s @ concat (map comment_piece ts)"
  by (induction ts arbitrary: s) simp_all

lemma collect_pieces_blank:
  "list_all blank_token pre \<Longrightarrow> collect_pieces [] (pre @ ts) = collect_pieces [] ts"
  by (induction pre) (simp_all add: trim_blank [OF blank_piece])

definition no_comment :: "token \<Rightarrow> bool" where
  "no_comment t \<longleftrightarrow> tok_kind t \<notin> {LineComment, BlockComment}"

lemma comment_piece_text: "list_all no_comment ts \<Longrightarrow> concat (map comment_piece ts) = tokens_to_text ts"
  by (induction ts) (simp_all add: comment_piece_def no_comment_def)

lemma collect_pieces_start:
  assumes "list_all no_comment ts" "tokens_to_text ts = c # s" "c \<notin> ws_bytes"
  shows "collect_pieces [] (ts @ us) = tokens_to_text ts @ concat (map comment_piece us)"
  using assms(1,2)
proof (induction ts)
  case (Cons t ts)
  have p: "comment_piece t = tok_text t" using Cons.prems(1) by (simp add: comment_piece_def no_comment_def)
  show ?case
  proof (cases "tok_text t")
    case Nil
    then show ?thesis using Cons p by (simp add: trim_blank)
  next
    case (Cons d r)
    then have "d = c" using Cons.prems(2) by simp
    then have "trim (tok_text t) \<noteq> []" using trim_nonempty [OF assms(3)] Cons by simp
    then show ?thesis
      using p \<open>list_all no_comment (t # ts)\<close> Cons
      by (simp add: collect_pieces_started comment_piece_text)
  qed
qed simp

text \<open>The two delimiter pairs of a header name.\<close>

definition header_delims :: "(char \<times> char \<times> bool) list" where
  "header_delims = [(CHR ''<'', CHR ''>'', True), (CHR 0x22, CHR 0x22, False)]"

lemma collect_text_header:
  assumes "list_all blank_token pre" "list_all blank_token post" "list_all no_comment ts"
    "tokens_to_text ts = l # path @ [r]" "l \<notin> ws_bytes" "r \<notin> ws_bytes"
  shows "collect_text (pre @ ts @ post) = l # path @ [r]"
proof -
  have "\<forall>c\<in>set (concat (map comment_piece post)). horizontal_ws c"
    using assms(2) blank_piece by (fastforce simp: list_all_iff)
  then have "trim_end ((l # path @ [r]) @ concat (map comment_piece post)) = l # path @ [r]"
    using trim_end_keep [OF assms(6), of "l # path"] by (subst trim_end_ws) simp_all
  then show ?thesis
    unfolding collect_text_def collect_pieces_blank [OF assms(1)] collect_pieces_start [OF assms(3-5)]
      assms(4) .
qed

lemma header_name_delims:
  assumes "(l, r, system) \<in> set header_delims"
  shows "header_name (l # path @ [r]) = Some (path, system)"
proof -
  have d: "l \<notin> ws_bytes" "r \<notin> ws_bytes" using assms by (auto simp: header_delims_def)
  have "trim (l # path @ [r]) = l # path @ [r]"
    using trim_end_keep [OF d(2), of "l # path"] by (simp add: trim_def trim_start_keep [OF d(1)])
  then show ?thesis
    using assms by (auto simp: header_name_def header_delims_def starts_with_def ends_with_def)
qed

lemma parse_directive_NoReturn:
  "parse_directive ts = NoReturn \<longleftrightarrow> head_is ''define'' ts \<and> stuck_define (tl (skip_ws ts))"
proof (cases "skip_ws ts")
  case (Cons t r)
  have "parse_line r \<noteq> NoReturn" "parse_line_marker (t # r) \<noteq> NoReturn"
    by (auto simp: parse_line_def parse_line_marker_def Let_def split: list.splits)
  then show ?thesis
    using Cons by (auto simp: parse_directive_def head_is_def parse_define_stuck Let_def)
qed (simp add: parse_directive_def head_is_def)

subsection \<open>Properties\<close>

text \<open>
  C21: exactly which directives \<open>parse_directive\<close> does not return from: a \<open>#define\<close> of a function-like
  macro whose parameter list has, before its closing parenthesis or ellipsis, a token that is
  neither a name nor a comma nor whitespace.  On those the loop of \<open>parse_define\<close> runs for ever; on
  every other token list all loops end.
\<close>
theorem parse_directive_diverges_iff:
  "parse_directive ts = NoReturn \<longleftrightarrow> head_is ''define'' ts \<and> stuck_define (tl (skip_ws ts))"
  by (rule parse_directive_NoReturn)

text \<open>
  outside that case, and if every string literal of the line has its two delimiters, parsing a
  directive yields a directive: no slice is out of range.
\<close>
theorem parse_directive_total:
  assumes "\<not> (head_is ''define'' ts \<and> stuck_define (tl (skip_ws ts)))" "\<forall>t\<in>set ts. good_literal t"
  shows "\<exists>d. parse_directive ts = Ok d"
proof (cases "skip_ws ts")
  case (Cons t r)
  then have "\<forall>t\<in>set r. good_literal t" "\<forall>t\<in>set (t # r). good_literal t"
    using assms(2) skip_ws_set [OF Cons] by auto
  then have "\<exists>d. parse_line r = Ok d" "\<exists>d. parse_line_marker (t # r) = Ok d"
    using parse_line_returns by blast+
  moreover have "\<exists>d. parse_define r = Ok d" if "tok_kind t = Ident" "tok_text t = ''define''"
  proof -
    have "\<not> stuck_define r" using assms(1) Cons that by (simp add: head_is_def)
    then have "parse_define r \<noteq> NoReturn" by (simp add: parse_define_stuck)
    then show ?thesis
      by (auto simp: parse_define_def split: list.splits option.splits)
  qed
  ultimately show ?thesis using Cons by (auto simp: parse_directive_def Let_def)
qed (simp add: parse_directive_def)

theorem parse_directive_total_witness:
  "\<exists>d. parse_directive [Token Number ''3'' 0, Token StringLiteral (CHR 0x22 # ''a.h'' @ [CHR 0x22]) 2] = Ok d"
proof (rule parse_directive_total)
  show "\<not> (head_is ''define'' [Token Number ''3'' 0, Token StringLiteral (CHR 0x22 # ''a.h'' @ [CHR 0x22]) 2] \<and>
      stuck_define (tl (skip_ws [Token Number ''3'' 0, Token StringLiteral (CHR 0x22 # ''a.h'' @ [CHR 0x22]) 2])))"
    by code_simp
  show "\<forall>t\<in>set [Token Number ''3'' 0, Token StringLiteral (CHR 0x22 # ''a.h'' @ [CHR 0x22]) 2]. good_literal t"
    by code_simp
qed

text \<open>
  C29: the header name of an \<open>#include\<close>: whatever tokens spell \<open><path>\<close> or \<open>"path"\<close>, with whitespace and
  comments before and after them, the directive asks for exactly \<open>path\<close>, as a system or as a local
  header.
\<close>
theorem include_header:
  assumes "list_all blank_token pre" "list_all blank_token post" "list_all no_comment ts"
    and "(l, r, system) \<in> set header_delims" "tokens_to_text ts = l # path @ [r]"
    and "tok_kind n = Ident" "(tok_text n, next) \<in> {(''include'', False), (''include_next'', True)}"
  shows "parse_directive (n # pre @ ts @ post) = Ok (D_Include path system next)"
proof -
  have "l \<notin> ws_bytes" "r \<notin> ws_bytes" using assms(4) by (auto simp: header_delims_def)
  then show ?thesis
    using assms(6,7) collect_text_header [OF assms(1-3,5)] header_name_delims [OF assms(4), of path]
    by (auto simp: parse_directive_def parse_include_def)
qed

theorem include_header_witness:
  "parse_directive [Token Ident ''include'' 0, Token Whitespace '' '' 7, Token Punct ''<'' 8,
     Token Ident ''stdarg'' 9, Token Punct ''.'' 15, Token Ident ''h'' 16, Token Punct ''>'' 17,
     Token Whitespace '' '' 18, Token BlockComment ''/* why */'' 19] =
   Ok (D_Include ''stdarg.h'' True False)"
  using include_header [of "[Token Whitespace '' '' 7]"
      "[Token Whitespace '' '' 18, Token BlockComment ''/* why */'' 19]"
      "[Token Punct ''<'' 8, Token Ident ''stdarg'' 9, Token Punct ''.'' 15, Token Ident ''h'' 16,
        Token Punct ''>'' 17]" "CHR ''<''" "CHR ''>''" True "''stdarg.h''" "Token Ident ''include'' 0" False]
  by (simp add: blank_token_def no_comment_def header_delims_def token_shape_def horizontal_ws_def)

text \<open>How a \<open>#define\<close> is written; \<open>parse_directive\<close> gets these tokens.\<close>

abbreviation space_token :: token where
  "space_token \<equiv> Token Whitespace '' '' 0"

fun param_tokens :: "string list \<Rightarrow> bool \<Rightarrow> token list" where
  "param_tokens [] variadic = (if variadic then replicate 3 (Token Punct ''.'' 0) else [])"
| "param_tokens (p # ps) variadic =
     Token Ident p 0 #
     (if ps = [] \<and> \<not> variadic then [] else [Token Punct '','' 0, space_token]) @ param_tokens ps variadic"

definition define_tokens :: "string \<Rightarrow> string list option \<Rightarrow> bool \<Rightarrow> token list \<Rightarrow> token list" where
  "define_tokens name params variadic body =
     [Token Ident ''define'' 0, space_token, Token Ident name 0] @
     (case params of
        None \<Rightarrow> []
      | Some ps \<Rightarrow> Token Punct ''('' 0 # param_tokens ps variadic @ [Token Punct '')'' 0]) @
     space_token # body"

definition c_name :: "string \<Rightarrow> bool" where
  "c_name s \<longleftrightarrow> token_shape Ident s"

lemma c_name_not_punct: "c_name s \<Longrightarrow> s \<noteq> '')'' \<and> s \<noteq> ''.'' \<and> s \<noteq> '','' \<and> s \<noteq> ''(''"
  by (auto simp: c_name_def token_shape_def ident_start_def is_lower_def is_upper_def)

lemma param_list_tokens:
  "list_all c_name ps \<Longrightarrow>
     param_list (param_tokens ps variadic @ Token Punct '')'' 0 # rest) acc = Some (acc @ ps, variadic, rest)"
proof (induction ps arbitrary: acc)
  case Nil
  then show ?case by (cases variadic) (simp_all add: param_list.simps text_is_def numeral_3_eq_3)
next
  case (Cons p ps)
  let ?tail = "param_tokens ps variadic @ Token Punct '')'' 0 # rest"
  have p: "p \<noteq> '')''" "p \<noteq> ''.''" using c_name_not_punct [of p] Cons.prems by auto
  have "\<not> separator (hd ?tail)" "?tail \<noteq> []"
    using Cons.prems c_name_not_punct [of "hd ps"]
    by (cases ps; cases variadic; simp add: text_is_def numeral_3_eq_3)+
  then have "dropWhile separator ?tail = ?tail" by (cases ?tail) auto
  then have "dropWhile separator
      ((if ps = [] \<and> \<not> variadic then [] else [Token Punct '','' 0, space_token]) @ ?tail) = ?tail"
    by (auto simp: text_is_def)
  then show ?case
    using Cons p by (subst param_list_step) (auto simp: text_is_def)
qed

text \<open>
  C28: a macro definition is read as it is written: the name, the parameter list (in order, with or
  without the closing \<open>...\<close>) and the replacement list of an object-like or function-like \<open>#define\<close>
  are exactly those of the parsed directive.
\<close>
theorem define_roundtrip:
  assumes "c_name name" "list_all c_name (case params of None \<Rightarrow> [] | Some ps \<Rightarrow> ps)"
    and "params = None \<Longrightarrow> \<not> variadic" "body \<noteq> [] \<Longrightarrow> \<not> is_ws (hd body)"
  shows "parse_directive (define_tokens name params variadic body) =
    Ok (D_Define name params variadic body)"
proof -
  have b: "skip_ws body = body" using assms(4) by (cases body) auto
  show ?thesis
  proof (cases params)
    case None
    then show ?thesis
      using assms b by (simp add: parse_directive_def define_tokens_def parse_define_def)
  next
    case (Some ps)
    then have "list_all c_name ps" using assms(2) by simp
    from param_list_tokens [OF this, of variadic "space_token # body" "[]"] show ?thesis
      using Some b
      by (simp add: parse_directive_def define_tokens_def parse_define_def param_loop_list)
  qed
qed

theorem define_roundtrip_witness:
  "parse_directive (define_tokens ''LOG'' (Some [''fmt'']) True [Token Ident ''fmt'' 0]) =
   Ok (D_Define ''LOG'' (Some [''fmt'']) True [Token Ident ''fmt'' 0])"
proof (rule define_roundtrip)
  show "c_name ''LOG''" "list_all c_name (case Some [''fmt''] of None \<Rightarrow> [] | Some ps \<Rightarrow> ps)"
    by code_simp+
qed simp_all

end
