(* ===== verification/Processor.thy ===== *)
theory Processor
  imports Directive Expr
begin

text \<open>
  The preprocessing engine (\<open>src/preprocess/processor.rs\<close>): the walk over the tokens with its stack of
  conditionals, the execution of directives, the collection of output and diagnostics, and the final
  macro expansion.  The include handler, a closure over mutable state, is a function on an explicit
  state of type \<open>'h\<close>; it may change the macro table, as the closure may.  The top of \<open>cond_stack\<close> is
  the head of the list.
\<close>

declare dropWhile_eq_Nil_conv [simp del]

subsection \<open>State\<close>

record include_request =
  ir_path :: string
  ir_system :: bool
  ir_offset :: nat

record cond_state =
  any_taken :: bool
  cs_active :: bool
  parent_active :: bool

record proc_output =
  out_tokens :: "token list"
  out_errors :: "string list"
  out_warnings :: "string list"
  out_includes :: "include_request list"
  out_pragma_once :: bool

record 'h proc =
  pr_macros :: macro_table
  pr_handler :: 'h
  pr_conds :: "cond_state list"
  pr_out :: proc_output

type_synonym 'h include_handler =
  "string \<Rightarrow> bool \<Rightarrow> macro_table \<Rightarrow> 'h \<Rightarrow> (token list option \<times> macro_table \<times> 'h) outcome"

definition empty_output :: proc_output where
  "empty_output =
     \<lparr>out_tokens = [], out_errors = [], out_warnings = [], out_includes = [], out_pragma_once = False\<rparr>"

definition scope_active :: "'h proc \<Rightarrow> bool" where
  "scope_active st = (case pr_conds st of [] \<Rightarrow> True | s # _ \<Rightarrow> cs_active s)"

definition emit :: "token list \<Rightarrow> 'h proc \<Rightarrow> 'h proc" where
  "emit ts st = st\<lparr>pr_out := (pr_out st)\<lparr>out_tokens := out_tokens (pr_out st) @ ts\<rparr>\<rparr>"

definition add_error :: "string \<Rightarrow> 'h proc \<Rightarrow> 'h proc" where
  "add_error m st = st\<lparr>pr_out := (pr_out st)\<lparr>out_errors := out_errors (pr_out st) @ [m]\<rparr>\<rparr>"

definition add_warning :: "string \<Rightarrow> 'h proc \<Rightarrow> 'h proc" where
  "add_warning m st = st\<lparr>pr_out := (pr_out st)\<lparr>out_warnings := out_warnings (pr_out st) @ [m]\<rparr>\<rparr>"

definition add_include :: "include_request \<Rightarrow> 'h proc \<Rightarrow> 'h proc" where
  "add_include r st = st\<lparr>pr_out := (pr_out st)\<lparr>out_includes := out_includes (pr_out st) @ [r]\<rparr>\<rparr>"

subsection \<open>Directives\<close>

text \<open>The value of the condition of an \<open>#if\<close>, \<open>#ifdef\<close>, \<open>#ifndef\<close> or \<open>#elif\<close>.\<close>

definition push_cond :: "bool \<Rightarrow> 'h proc \<Rightarrow> 'h proc" where
  "push_cond b st =
     st\<lparr>pr_conds :=
       \<lparr>any_taken = b, cs_active = b \<and> scope_active st, parent_active = scope_active st\<rparr> # pr_conds st\<rparr>"

definition do_include :: "'h include_handler \<Rightarrow> string \<Rightarrow> bool \<Rightarrow> nat \<Rightarrow> 'h proc \<Rightarrow> 'h proc outcome" where
  "do_include handler path system off st =
     map_outcome (\<lambda>(inc_tokens, m, h).
       let st1 = st\<lparr>pr_macros := m, pr_handler := h\<rparr> in
       (case inc_tokens of
          Some ts \<Rightarrow> emit ts st1
        | None \<Rightarrow> add_include \<lparr>ir_path = path, ir_system = system, ir_offset = off\<rparr> st1))
     (handler path system (pr_macros st) (pr_handler st))"

definition computed_include_error :: string where
  "computed_include_error = ''computed #include does not expand to a header name''"

text \<open>A directive other than a conditional, in an active branch.\<close>

fun exec_directive :: "'h include_handler \<Rightarrow> directive \<Rightarrow> nat \<Rightarrow> 'h proc \<Rightarrow> 'h proc outcome" where
  "exec_directive handler (D_Define name params is_variadic body) off st =
     Ok (st\<lparr>pr_macros := define_macro
       \<lparr>md_name = name, md_params = params, md_is_variadic = is_variadic, md_body = body\<rparr>
       (pr_macros st)\<rparr>)"
| "exec_directive handler (D_Undef name) off st = Ok (st\<lparr>pr_macros := undef_macro name (pr_macros st)\<rparr>)"
| "exec_directive handler (D_Include path system next) off st = do_include handler path system off st"
| "exec_directive handler (D_IncludeComputed operand next) off st =
     (case expanded_header_name (expand (pr_macros st) operand) of
        Some (path, system) \<Rightarrow> do_include handler path system off st
      | None \<Rightarrow> Ok (add_error computed_include_error st))"
| "exec_directive handler (D_Error message) off st = Ok (add_error message st)"
| "exec_directive handler (D_Warning message) off st = Ok (add_warning message st)"
| "exec_directive handler (D_Pragma ts) off st =
     Ok (case skip_ws ts of
           t # _ \<Rightarrow> if tok_text t = ''once'' then st\<lparr>pr_out := (pr_out st)\<lparr>out_pragma_once := True\<rparr>\<rparr> else st
         | [] \<Rightarrow> st)"
| "exec_directive handler _ off st = Ok st"

definition in_active :: "'h proc \<Rightarrow> (unit \<Rightarrow> bool outcome) \<Rightarrow> 'h proc outcome" where
  "in_active st cond =
     map_outcome (\<lambda>b. push_cond b st) (if scope_active st then cond () else Ok False)"

fun step_directive ::
  "bool \<Rightarrow> 'h include_handler \<Rightarrow> directive \<Rightarrow> nat \<Rightarrow> 'h proc \<Rightarrow> 'h proc outcome" where
  "step_directive chk handler (D_If e) off st = in_active st (\<lambda>_. eval_condition chk e (pr_macros st))"
| "step_directive chk handler (D_Ifdef name) off st = in_active st (\<lambda>_. Ok (is_defined (pr_macros st) name))"
| "step_directive chk handler (D_Ifndef name) off st =
     in_active st (\<lambda>_. Ok (\<not> is_defined (pr_macros st) name))"
| "step_directive chk handler (D_Elif e) off st =
     (case pr_conds st of
        [] \<Rightarrow> Ok st
      | s # cs \<Rightarrow>
          if any_taken s \<or> \<not> parent_active s then Ok (st\<lparr>pr_conds := s\<lparr>cs_active := False\<rparr> # cs\<rparr>)
          else map_outcome (\<lambda>b.
                 st\<lparr>pr_conds := s\<lparr>cs_active := b, any_taken := if b then True else any_taken s\<rparr> # cs\<rparr>)
               (eval_condition chk e (pr_macros st)))"
| "step_directive chk handler D_Else off st =
     (case pr_conds st of
        [] \<Rightarrow> Ok st
      | s # cs \<Rightarrow>
          if any_taken s \<or> \<not> parent_active s then Ok (st\<lparr>pr_conds := s\<lparr>cs_active := False\<rparr> # cs\<rparr>)
          else Ok (st\<lparr>pr_conds := s\<lparr>cs_active := True, any_taken := True\<rparr> # cs\<rparr>))"
| "step_directive chk handler D_Endif off st = Ok (st\<lparr>pr_conds := tl (pr_conds st)\<rparr>)"
| "step_directive chk handler d off st =
     (if \<not> scope_active st then Ok st else exec_directive handler d off st)"

subsection \<open>The walk\<close>

definition output_token :: "token \<Rightarrow> 'h proc \<Rightarrow> 'h proc" where
  "output_token t st =
     (if tok_kind t \<in> {LineComment, BlockComment} then st
      else if tok_kind t = Newline then emit [Token Whitespace [NL] (tok_offset t)] st
      else emit [t] st)"

definition step_token :: "token \<Rightarrow> 'h proc \<Rightarrow> 'h proc" where
  "step_token t st = (if \<not> scope_active st then st else output_token t st)"

abbreviation not_newline :: "token \<Rightarrow> bool" where
  "not_newline t \<equiv> tok_kind t \<noteq> Newline"

text \<open>A directive line: its tokens up to the newline are parsed, the newline is skipped.\<close>

definition step_line :: "bool \<Rightarrow> 'h include_handler \<Rightarrow> token list \<Rightarrow> nat \<Rightarrow> 'h proc \<Rightarrow> 'h proc outcome" where
  "step_line chk handler dir_tokens off st =
     and_then (parse_directive dir_tokens) (\<lambda>d. step_directive chk handler d off st)"

function process_loop :: "bool \<Rightarrow> 'h include_handler \<Rightarrow> token list \<Rightarrow> 'h proc \<Rightarrow> 'h proc outcome" where
  "process_loop chk handler [] st = Ok st"
| "process_loop chk handler (t # ts) st =
     (if tok_kind t = Hash then
        and_then (step_line chk handler (takeWhile not_newline ts) (tok_offset t) st)
          (process_loop chk handler (drop 1 (dropWhile not_newline ts)))
      else process_loop chk handler ts (step_token t st))"
  by pat_completeness auto
termination
  by (relation "measure (\<lambda>(c, h, ts, st). length ts)")
    (auto simp: le_imp_less_Suc le_trans [OF diff_le_self length_dropWhile_le])

definition start_state :: "macro_table \<Rightarrow> 'h \<Rightarrow> 'h proc" where
  "start_state m h = \<lparr>pr_macros = m, pr_handler = h, pr_conds = [], pr_out = empty_output\<rparr>"

text \<open>Macros are expanded in the output at the end, with the table as it is then.\<close>

definition finish_output :: "'h proc \<Rightarrow> proc_output \<times> macro_table \<times> 'h" where
  "finish_output st =
     ((pr_out st)\<lparr>out_tokens := expand (pr_macros st) (out_tokens (pr_out st))\<rparr>, pr_macros st, pr_handler st)"

definition process_inner ::
  "bool \<Rightarrow> 'h include_handler \<Rightarrow> token list \<Rightarrow> macro_table \<Rightarrow> 'h \<Rightarrow> (proc_output \<times> macro_table \<times> 'h) outcome" where
  "process_inner chk handler ts m h =
     map_outcome finish_output (process_loop chk handler ts (start_state m h))"

text \<open>\<open>process\<close> installs a handler that resolves nothing; \<open>preprocess\<close> runs it on the tokens of a source.\<close>

definition no_includes :: "unit include_handler" where
  "no_includes path system m h = Ok (None, m, h)"

definition process :: "bool \<Rightarrow> token list \<Rightarrow> macro_table \<Rightarrow> (proc_output \<times> macro_table) outcome" where
  "process chk ts m = map_outcome (\<lambda>(out, m', _). (out, m')) (process_inner chk no_includes ts m ())"

definition preprocess :: "bool \<Rightarrow> string \<Rightarrow> proc_output outcome" where
  "preprocess chk source = map_outcome fst (process chk (tokenize source) new_table)"

subsection \<open>The walk as a step relation\<close>

inductive walk ::
  "bool \<Rightarrow> 'h include_handler \<Rightarrow> token list \<times> 'h proc \<Rightarrow> token list \<times> 'h proc \<Rightarrow> bool"
  for chk handler where
  walk_line: "tok_kind t = Hash \<Longrightarrow>
    step_line chk handler (takeWhile not_newline ts) (tok_offset t) st = Ok st' \<Longrightarrow>
    walk chk handler (t # ts, st) (drop 1 (dropWhile not_newline ts), st')"
| walk_token: "tok_kind t \<noteq> Hash \<Longrightarrow> walk chk handler (t # ts, st) (ts, step_token t st)"

inductive_cases walk_ConsE: "walk chk handler (t # ts, st) c"
inductive_simps walk_Nil: "walk chk handler ([], st) c"

lemma walk_process: "walk chk handler (ts, st) (ts', st') \<Longrightarrow>
    process_loop chk handler ts st = process_loop chk handler ts' st'"
  by (erule walk.cases) auto

lemma walks_process: "(walk chk handler)\<^sup>*\<^sup>* c c' \<Longrightarrow>
    process_loop chk handler (fst c) (snd c) = process_loop chk handler (fst c') (snd c')"
  by (induction rule: rtranclp_induct) (auto dest: walk_process)

lemma process_walks: "process_loop chk handler ts st = Ok st' \<Longrightarrow> (walk chk handler)\<^sup>*\<^sup>* (ts, st) ([], st')"
proof (induction chk handler ts st rule: process_loop.induct)
  case (2 chk handler t ts st)
  show ?case
  proof (cases "tok_kind t = Hash")
    case True
    let ?step = "step_line chk handler (takeWhile not_newline ts) (tok_offset t) st"
    let ?ts = "drop 1 (dropWhile not_newline ts)"
    obtain st1 where st1: "?step = Ok st1" and loop: "process_loop chk handler ?ts st1 = Ok st'"
      using "2.prems" True by (auto simp: and_then_Ok_iff)
    have "(walk chk handler)\<^sup>*\<^sup>* (?ts, st1) ([], st')" using "2.IH"(1) [OF True] loop by simp
    then show ?thesis using walk_line [OF True st1] by (meson converse_rtranclp_into_rtranclp)
  next
    case False
    then show ?thesis
      using "2.IH"(2) "2.prems" walk_token [OF False, of chk handler ts st]
      by (auto intro: converse_rtranclp_into_rtranclp)
  qed
qed simp

subsection \<open>The stack of conditionals\<close>

text \<open>
  Every entry knows whether its surroundings are active, and is active only if they are and if a
  branch has been taken.
\<close>

fun conds_ok :: "cond_state list \<Rightarrow> bool" where
  "conds_ok [] = True"
| "conds_ok (s # cs) =
     ((cs_active s \<longrightarrow> any_taken s \<and> parent_active s) \<and>
      (parent_active s \<longleftrightarrow> (case cs of [] \<Rightarrow> True | c # _ \<Rightarrow> cs_active c)) \<and> conds_ok cs)"

lemma conds_ok_active: "conds_ok cs \<Longrightarrow> (case cs of [] \<Rightarrow> True | s # _ \<Rightarrow> cs_active s) \<longleftrightarrow> list_all cs_active cs"
proof (induction cs)
  case (Cons s cs)
  then show ?case by (cases cs) auto
qed simp

lemma conds_simps [simp]:
  "pr_conds (emit ts st) = pr_conds st" "pr_conds (add_error m st) = pr_conds st"
  "pr_conds (add_warning m st) = pr_conds st" "pr_conds (add_include r st) = pr_conds st"
  "pr_conds (output_token t st) = pr_conds st" "pr_conds (step_token t st) = pr_conds st"
  by (simp_all add: emit_def add_error_def add_warning_def add_include_def output_token_def step_token_def)

lemma do_include_conds: "do_include handler path system off st = Ok st' \<Longrightarrow> pr_conds st' = pr_conds st"
  by (auto simp: do_include_def map_outcome_Ok_iff Let_def split: option.splits)

lemma exec_conds: "exec_directive handler d off st = Ok st' \<Longrightarrow> pr_conds st' = pr_conds st"
  by (cases d) (auto split: option.splits list.splits if_splits dest: do_include_conds)

lemma push_ok: "conds_ok (pr_conds st) \<Longrightarrow> conds_ok (pr_conds (push_cond b st))"
  by (auto simp: push_cond_def scope_active_def split: list.splits)

fun conditional :: "directive \<Rightarrow> bool" where
  "conditional (D_If e) = True"
| "conditional (D_Ifdef n) = True"
| "conditional (D_Ifndef n) = True"
| "conditional (D_Elif e) = True"
| "conditional D_Else = True"
| "conditional D_Endif = True"
| "conditional _ = False"

lemma step_unconditional:
  "\<not> conditional d \<Longrightarrow> step_directive chk handler d off st =
     (if scope_active st then exec_directive handler d off st else Ok st)"
  by (cases d) simp_all

lemma in_active_ok:
  "in_active st cond = Ok st' \<Longrightarrow> conds_ok (pr_conds st) \<Longrightarrow> conds_ok (pr_conds st')"
  by (auto simp: in_active_def map_outcome_Ok_iff push_ok)

lemma reopen_ok:
  "conds_ok (s # cs) \<Longrightarrow> conds_ok (s\<lparr>cs_active := False\<rparr> # cs)"
  "conds_ok (s # cs) \<Longrightarrow> parent_active s \<Longrightarrow> b \<longrightarrow> a \<Longrightarrow>
     conds_ok (s\<lparr>cs_active := b, any_taken := a\<rparr> # cs)"
  by auto

lemma conds_ok_tl: "conds_ok cs \<Longrightarrow> conds_ok (tl cs)"
  by (cases cs) auto

lemma step_directive_ok:
  assumes "step_directive chk handler d off st = Ok st'" "conds_ok (pr_conds st)"
  shows "conds_ok (pr_conds st')"
proof (cases "conditional d")
  case False
  then show ?thesis
    using assms exec_conds [of handler d off st st'] by (auto simp: step_unconditional split: if_splits)
next
  case True
  then show ?thesis
  proof (cases d)
    case (D_Elif e)
    then show ?thesis
      using assms reopen_ok
      by (cases "pr_conds st")
        (auto simp: map_outcome_Ok_iff simp del: conds_ok.simps(2) split: if_splits)
  next
    case D_Else
    then show ?thesis
      using assms reopen_ok
      by (cases "pr_conds st") (auto simp del: conds_ok.simps(2) split: if_splits)
  qed (use assms in_active_ok conds_ok_tl in auto)
qed

lemma walk_ok: "walk chk handler c c' \<Longrightarrow> conds_ok (pr_conds (snd c)) \<Longrightarrow> conds_ok (pr_conds (snd c'))"
  by (erule walk.cases) (auto simp: step_line_def and_then_Ok_iff dest: step_directive_ok)

lemma walks_ok:
  "(walk chk handler)\<^sup>*\<^sup>* c c' \<Longrightarrow> conds_ok (pr_conds (snd c)) \<Longrightarrow> conds_ok (pr_conds (snd c'))"
  by (induction rule: rtranclp_induct) (auto dest: walk_ok)

subsection \<open>Nested conditionals\<close>

text \<open>
  The abstract reading of a source: text, simple directives, and conditional groups, each an opening
  line, the block it guards, a chain of \<open>#elif\<close> and \<open>#else\<close> branches, and an \<open>#endif\<close> line.  A
  directive line is the offsets of its \<open>#\<close> and of its newline, and the tokens between them.
\<close>

type_synonym dline = "(nat \<times> nat) \<times> token list"

datatype block =
  Done
| Plain token block
| Simple dline block
| Group dline block chain dline block
and chain =
  NoMore
| ElseBranch dline block
| ElifBranch dline block chain

definition line_tokens :: "dline \<Rightarrow> token list" where
  "line_tokens l =
     Token Hash ''#'' (fst (fst l)) # snd l @ [Token Newline [NL] (snd (fst l))]"

primrec flat :: "block \<Rightarrow> token list" and flat_chain :: "chain \<Rightarrow> token list" where
  "flat Done = []"
| "flat (Plain t p) = t # flat p"
| "flat (Simple l p) = line_tokens l @ flat p"
| "flat (Group l p c e q) = line_tokens l @ flat p @ flat_chain c @ line_tokens e @ flat q"
| "flat_chain NoMore = []"
| "flat_chain (ElseBranch l p) = line_tokens l @ flat p"
| "flat_chain (ElifBranch l p c) = line_tokens l @ flat p @ flat_chain c"

definition line_is :: "(directive \<Rightarrow> bool) \<Rightarrow> dline \<Rightarrow> bool" where
  "line_is P l \<longleftrightarrow>
     list_all not_newline (snd l) \<and> (case parse_directive (snd l) of Ok d \<Rightarrow> P d | _ \<Rightarrow> False)"

fun is_opening :: "directive \<Rightarrow> bool" where
  "is_opening (D_If e) = True"
| "is_opening (D_Ifdef n) = True"
| "is_opening (D_Ifndef n) = True"
| "is_opening _ = False"

fun is_elif :: "directive \<Rightarrow> bool" where
  "is_elif (D_Elif e) = True"
| "is_elif _ = False"

primrec wf_block :: "block \<Rightarrow> bool" and wf_chain :: "chain \<Rightarrow> bool" where
  "wf_block Done = True"
| "wf_block (Plain t p) = (tok_kind t \<noteq> Hash \<and> wf_block p)"
| "wf_block (Simple l p) = (line_is (\<lambda>d. \<not> conditional d) l \<and> wf_block p)"
| "wf_block (Group l p c e q) =
     (line_is is_opening l \<and> wf_block p \<and> wf_chain c \<and> line_is (\<lambda>d. d = D_Endif) e \<and> wf_block q)"
| "wf_chain NoMore = True"
| "wf_chain (ElseBranch l p) = (line_is (\<lambda>d. d = D_Else) l \<and> wf_block p)"
| "wf_chain (ElifBranch l p c) = (line_is is_elif l \<and> wf_block p \<and> wf_chain c)"

text \<open>
  What a source means: the branches of a group are tried in order, the first one whose condition
  holds is processed, no later condition is evaluated, and nothing else of the group has an effect.
\<close>

fun cond_value :: "bool \<Rightarrow> directive \<Rightarrow> macro_table \<Rightarrow> bool outcome" where
  "cond_value chk (D_If e) m = eval_condition chk e m"
| "cond_value chk (D_Elif e) m = eval_condition chk e m"
| "cond_value chk (D_Ifdef n) m = Ok (is_defined m n)"
| "cond_value chk (D_Ifndef n) m = Ok (\<not> is_defined m n)"
| "cond_value chk _ m = Ok False"

definition line_value :: "bool \<Rightarrow> dline \<Rightarrow> 'h proc \<Rightarrow> bool outcome" where
  "line_value chk l st = and_then (parse_directive (snd l)) (\<lambda>d. cond_value chk d (pr_macros st))"

definition exec_line :: "'h include_handler \<Rightarrow> dline \<Rightarrow> 'h proc \<Rightarrow> 'h proc outcome" where
  "exec_line handler l st = and_then (parse_directive (snd l)) (\<lambda>d. exec_directive handler d (fst (fst l)) st)"

primrec run_block :: "bool \<Rightarrow> 'h include_handler \<Rightarrow> block \<Rightarrow> 'h proc \<Rightarrow> 'h proc outcome"
  and run_chain :: "bool \<Rightarrow> 'h include_handler \<Rightarrow> chain \<Rightarrow> 'h proc \<Rightarrow> 'h proc outcome" where
  "run_block chk handler Done st = Ok st"
| "run_block chk handler (Plain t p) st = run_block chk handler p (output_token t st)"
| "run_block chk handler (Simple l p) st =
     and_then (exec_line handler l st) (run_block chk handler p)"
| "run_block chk handler (Group l p c e q) st =
     and_then (line_value chk l st) (\<lambda>b.
       and_then (if b then run_block chk handler p st else run_chain chk handler c st)
         (run_block chk handler q))"
| "run_chain chk handler NoMore st = Ok st"
| "run_chain chk handler (ElseBranch l p) st = run_block chk handler p st"
| "run_chain chk handler (ElifBranch l p c) st =
     and_then (line_value chk l st) (\<lambda>b.
       if b then run_block chk handler p st else run_chain chk handler c st)"

subsection \<open>The walk computes the abstract reading\<close>

lemma loop_line:
  assumes "list_all not_newline (snd l)"
  shows "process_loop chk handler (line_tokens l @ rest) st =
    and_then (step_line chk handler (snd l) (fst (fst l)) st) (process_loop chk handler rest)"
proof -
  have "takeWhile not_newline (snd l @ Token Newline [NL] (snd (fst l)) # rest) = snd l"
    "dropWhile not_newline (snd l @ Token Newline [NL] (snd (fst l)) # rest) = Token Newline [NL] (snd (fst l)) # rest"
    using assms by (induction "snd l" arbitrary: l) (auto simp: list_all_iff takeWhile_append dropWhile_append)
  then show ?thesis by (simp add: line_tokens_def)
qed

definition push :: "cond_state \<Rightarrow> 'h proc \<Rightarrow> 'h proc" where
  "push s st = st\<lparr>pr_conds := s # pr_conds st\<rparr>"

lemma push_simps [simp]:
  "pr_conds (push s st) = s # pr_conds st" "pr_macros (push s st) = pr_macros st"
  "scope_active (push s st) = cs_active s"
  by (simp_all add: push_def scope_active_def)

lemma push_commutes:
  "emit ts (push s st) = push s (emit ts st)" "add_error m (push s st) = push s (add_error m st)"
  "add_warning m (push s st) = push s (add_warning m st)"
  "add_include r (push s st) = push s (add_include r st)"
  "output_token t (push s st) = push s (output_token t st)"
  by (simp_all add: push_def emit_def add_error_def add_warning_def add_include_def output_token_def)

lemma push_include:
  "do_include handler path system off (push s st) = map_outcome (push s) (do_include handler path system off st)"
  by (cases "handler path system (pr_macros st) (pr_handler st)")
    (auto simp: do_include_def push_def emit_def add_include_def Let_def split: option.splits)

lemma push_exec:
  "exec_directive handler d off (push s st) = map_outcome (push s) (exec_directive handler d off st)"
  by (cases d)
    (auto simp: push_commutes push_include split: option.splits list.splits, simp_all add: push_def)

lemma push_exec_line:
  "exec_line handler l (push s st) = map_outcome (push s) (exec_line handler l st)"
  by (cases "parse_directive (snd l)") (simp_all add: exec_line_def push_exec)

lemma push_line_value: "line_value chk l (push s st) = line_value chk l st"
  by (simp add: line_value_def)

lemma push_run:
  "run_block chk handler p (push s st) = map_outcome (push s) (run_block chk handler p st)"
  "run_chain chk handler c (push s st) = map_outcome (push s) (run_chain chk handler c st)"
proof (induction p and c arbitrary: st and st)
  case (Simple l p)
  then show ?case
    by (cases "exec_line handler l st") (simp_all add: push_exec_line)
next
  case (Group l p c e q)
  then show ?case
    by (cases "line_value chk l st"; cases "run_block chk handler p st"; cases "run_chain chk handler c st")
      (simp_all add: push_line_value)
next
  case (ElifBranch l p c)
  then show ?case by (cases "line_value chk l st") (simp_all add: push_line_value)
qed (simp_all add: push_commutes)

lemma run_active:
  "run_block chk handler p st = Ok st' \<Longrightarrow> pr_conds st' = pr_conds st"
  "run_chain chk handler c st = Ok st' \<Longrightarrow> pr_conds st' = pr_conds st"
  by (induction p and c arbitrary: st st' and st st')
    (auto simp: and_then_Ok_iff exec_line_def split: if_splits dest!: exec_conds)

text \<open>The lines of a group, in an active and in an inactive scope.\<close>

lemma step_opening:
  assumes "line_is is_opening l"
  shows "step_line chk handler (snd l) (fst (fst l)) st =
    (if scope_active st
     then map_outcome (\<lambda>b. push \<lparr>any_taken = b, cs_active = b, parent_active = True\<rparr> st) (line_value chk l st)
     else Ok (push \<lparr>any_taken = False, cs_active = False, parent_active = False\<rparr> st))"
proof -
  obtain d where d: "parse_directive (snd l) = Ok d" "is_opening d"
    using assms by (auto simp: line_is_def split: outcome.splits)
  then show ?thesis
    by (cases d) (simp_all add: step_line_def line_value_def in_active_def push_cond_def push_def)
qed

lemma step_simple:
  assumes "line_is (\<lambda>d. \<not> conditional d) l"
  shows "step_line chk handler (snd l) (fst (fst l)) st =
    (if scope_active st then exec_line handler l st else Ok st)"
  using assms
  by (auto simp: line_is_def step_line_def exec_line_def step_unconditional split: outcome.splits)

lemma step_elif:
  assumes "line_is is_elif l"
  shows "step_line chk handler (snd l) (fst (fst l)) (push s st) =
    (if any_taken s \<or> \<not> parent_active s then Ok (push (s\<lparr>cs_active := False\<rparr>) st)
     else map_outcome (\<lambda>b. push (s\<lparr>cs_active := b, any_taken := b\<rparr>) st) (line_value chk l st))"
proof -
  obtain d where d: "parse_directive (snd l) = Ok d" "is_elif d"
    using assms by (auto simp: line_is_def split: outcome.splits)
  then obtain e where e: "d = D_Elif e" by (cases d) auto
  have "(if b then True else False) = b" for b by simp
  then show ?thesis
    using d e
    by (cases "eval_condition chk e (pr_macros st)") (auto simp: step_line_def line_value_def push_def)
qed

lemma step_else:
  assumes "line_is (\<lambda>d. d = D_Else) l"
  shows "step_line chk handler (snd l) (fst (fst l)) (push s st) =
    Ok (push (if any_taken s \<or> \<not> parent_active s then s\<lparr>cs_active := False\<rparr>
              else s\<lparr>cs_active := True, any_taken := True\<rparr>) st)"
  using assms by (auto simp: line_is_def step_line_def push_def split: outcome.splits)

lemma step_endif:
  assumes "line_is (\<lambda>d. d = D_Endif) l"
  shows "step_line chk handler (snd l) (fst (fst l)) (push s st) = Ok st"
  using assms by (auto simp: line_is_def step_line_def push_def split: outcome.splits)

lemma line_is_tokens: "line_is P l \<Longrightarrow> list_all not_newline (snd l)"
  by (simp add: line_is_def)

lemmas group_lines =
  loop_line [OF line_is_tokens] step_opening step_simple step_elif step_else step_endif

lemma scope_same: "pr_conds st' = pr_conds st \<Longrightarrow> scope_active st' = scope_active st"
  by (simp add: scope_active_def)

lemma loop_flat:
  "wf_block p \<Longrightarrow> process_loop chk handler (flat p @ rest) st =
     (if scope_active st then and_then (run_block chk handler p st) (process_loop chk handler rest)
      else process_loop chk handler rest st)"
  "wf_chain c \<Longrightarrow> line_is (\<lambda>d. d = D_Endif) e \<Longrightarrow> parent_active s = scope_active st \<Longrightarrow>
     process_loop chk handler (flat_chain c @ line_tokens e @ rest) (push s st) =
       (if any_taken s \<or> \<not> parent_active s then process_loop chk handler rest st
        else and_then (run_chain chk handler c st) (process_loop chk handler rest))"
proof (induction p and c arbitrary: rest st and rest st s e)
  case (Plain t p)
  then show ?case
    by (auto simp: step_token_def scope_same [of "output_token t st" st])
next
  case (Simple l p)
  then have wf: "line_is (\<lambda>d. \<not> conditional d) l" "wf_block p" by simp_all
  have "process_loop chk handler (flat (Simple l p) @ rest) st =
      and_then (if scope_active st then exec_line handler l st else Ok st)
        (process_loop chk handler (flat p @ rest))"
    using wf(1) by (simp add: loop_line [OF line_is_tokens] step_simple)
  also have "\<dots> = (if scope_active st
      then and_then (exec_line handler l st)
        (\<lambda>st'. and_then (run_block chk handler p st') (process_loop chk handler rest))
      else process_loop chk handler rest st)"
  proof (cases "scope_active st")
    case True
    have "scope_active st'" if "exec_line handler l st = Ok st'" for st'
      using that True scope_same [of st' st] by (auto simp: exec_line_def and_then_Ok_iff dest: exec_conds)
    then show ?thesis using True Simple.IH [OF wf(2)] by (auto intro!: and_then_cong)
  qed (use Simple.IH [OF wf(2)] in simp)
  finally show ?case by (simp add: and_then_assoc)
next
  case (Group l p c e q)
  then have wf: "line_is is_opening l" "wf_block p" "wf_chain c" "line_is (\<lambda>d. d = D_Endif) e" "wf_block q"
    by simp_all
  let ?rest = "flat q @ rest"
  let ?close = "\<lambda>st. process_loop chk handler (flat_chain c @ line_tokens e @ ?rest) st"
  let ?top = "\<lambda>b. \<lparr>any_taken = b, cs_active = b, parent_active = True\<rparr>"
  have loop: "process_loop chk handler (flat (Group l p c e q) @ rest) st =
      and_then (step_line chk handler (snd l) (fst (fst l)) st)
        (process_loop chk handler (flat p @ flat_chain c @ line_tokens e @ ?rest))"
    using wf by (simp add: group_lines)
  show ?case
  proof (cases "scope_active st")
    case True
    have q: "process_loop chk handler ?rest st' = and_then (run_block chk handler q st') (process_loop chk handler rest)"
      if "pr_conds st' = pr_conds st" for st'
      using Group.IH(3) [OF wf(5)] scope_same [OF that] True by simp
    have act: "scope_active st'" if "run_block chk handler p st = Ok st'" for st'
      using scope_same [OF run_active(1) [OF that]] True by simp
    have branch: "process_loop chk handler (flat p @ flat_chain c @ line_tokens e @ ?rest) (push (?top b) st) =
        and_then (if b then run_block chk handler p st else run_chain chk handler c st)
          (\<lambda>st'. and_then (run_block chk handler q st') (process_loop chk handler rest))" for b
    proof (cases b)
      case b: True
      have "process_loop chk handler (flat p @ flat_chain c @ line_tokens e @ ?rest) (push (?top b) st) =
          and_then (run_block chk handler p st) (\<lambda>st'. ?close (push (?top b) st'))"
        using b Group.IH(1) [OF wf(2)] by (simp add: push_run and_then_map_outcome)
      also have "\<dots> = and_then (run_block chk handler p st) (process_loop chk handler ?rest)"
        using b act Group.IH(2) [OF wf(3,4)] by (intro and_then_cong) auto
      finally show ?thesis using b by (auto intro!: and_then_cong q dest!: run_active(1))
    next
      case b: False
      then show ?thesis
        using True Group.IH(1) [OF wf(2)] Group.IH(2) [OF wf(3,4), of "?top b" st ?rest]
        by (auto intro!: and_then_cong q dest!: run_active(2))
    qed
    show ?thesis
      using True loop branch by (simp add: step_opening [OF wf(1)] and_then_map_outcome and_then_assoc)
  next
    case False
    then show ?thesis
      using loop Group.IH(1) [OF wf(2)] Group.IH(2) [OF wf(3,4)] Group.IH(3) [OF wf(5)]
      by (simp add: step_opening [OF wf(1)])
  qed
next
  case NoMore
  then show ?case by (simp add: group_lines)
next
  case (ElseBranch l p)
  then have wf: "line_is (\<lambda>d. d = D_Else) l" "wf_block p" by simp_all
  then show ?case
    using ElseBranch.prems ElseBranch.IH [OF wf(2)]
    by (simp add: group_lines push_run and_then_map_outcome)
next
  case (ElifBranch l p c)
  then have wf: "line_is is_elif l" "wf_block p" "wf_chain c" by simp_all
  show ?case
  proof (cases "any_taken s \<or> \<not> parent_active s")
    case True
    then show ?thesis
      using ElifBranch.prems ElifBranch.IH(1) [OF wf(2)] ElifBranch.IH(2) [OF wf(3)] wf
      by (auto simp: group_lines)
  next
    case False
    let ?top = "\<lambda>b. s\<lparr>cs_active := b, any_taken := b\<rparr>"
    have act: "scope_active st'" if "run_block chk handler p st = Ok st'" for st'
      using scope_same [OF run_active(1) [OF that]] False ElifBranch.prems(3) by simp
    have "process_loop chk handler (flat p @ flat_chain c @ line_tokens e @ rest) (push (?top b) st) =
        and_then (if b then run_block chk handler p st else run_chain chk handler c st)
          (process_loop chk handler rest)" for b
      using False ElifBranch.prems ElifBranch.IH(1) [OF wf(2)] ElifBranch.IH(2) [OF wf(3) ElifBranch.prems(2)] act
      by (cases b) (auto simp: push_run and_then_map_outcome intro!: and_then_cong)
    then show ?thesis
      using False wf by (simp add: group_lines and_then_map_outcome and_then_assoc)
  qed
qed simp

subsection \<open>What include handlers promise\<close>

text \<open>
  The contract of an include handler about the macro table: it keeps the table well formed.  Every
  run of the engine with such a handler then keeps it well formed.
\<close>

locale table_handler =
  fixes handler :: "'h include_handler"
  assumes keeps_table: "handler path system m h = Ok (r, m', h') \<Longrightarrow> table_wf m \<Longrightarrow> table_wf m'"
begin

lemma exec_table:
  "exec_directive handler d off st = Ok st' \<Longrightarrow> table_wf (pr_macros st) \<Longrightarrow> table_wf (pr_macros st')"
proof -
  have inc: "do_include handler path system off st = Ok st' \<Longrightarrow> table_wf (pr_macros st) \<Longrightarrow>
      table_wf (pr_macros st')" for path system and st :: "'h proc"
    by (auto simp: do_include_def map_outcome_Ok_iff Let_def emit_def add_include_def
        dest: keeps_table split: option.splits)
  then show "exec_directive handler d off st = Ok st' \<Longrightarrow> table_wf (pr_macros st) \<Longrightarrow> table_wf (pr_macros st')"
    by (cases d) (auto simp: add_error_def add_warning_def split: option.splits list.splits if_splits)
qed

lemma conditional_macros:
  "conditional d \<Longrightarrow> step_directive chk handler d off st = Ok st' \<Longrightarrow> pr_macros st' = pr_macros st"
  by (cases d) (auto simp: in_active_def push_cond_def map_outcome_Ok_iff split: list.splits if_splits)

lemma step_table:
  "step_directive chk handler d off st = Ok st' \<Longrightarrow> table_wf (pr_macros st) \<Longrightarrow> table_wf (pr_macros st')"
  using conditional_macros [of d chk off st st'] exec_table [of d off st st']
  by (cases "conditional d") (auto simp: step_unconditional split: if_splits)

lemma loop_table:
  "process_loop chk handler ts st = Ok st' \<Longrightarrow> table_wf (pr_macros st) \<Longrightarrow> table_wf (pr_macros st')"
proof -
  assume "process_loop chk handler ts st = Ok st'" and wf: "table_wf (pr_macros st)"
  then have "(walk chk handler)\<^sup>*\<^sup>* (ts, st) ([], st')" by (intro process_walks)
  then have "table_wf (pr_macros (snd ([] :: token list, st')))"
  proof (induction rule: rtranclp_induct)
    case (step c c')
    then show ?case
      by (auto elim!: walk.cases simp: step_line_def and_then_Ok_iff step_token_def output_token_def emit_def
          dest: step_table)
  qed (simp add: wf)
  then show ?thesis by simp
qed

lemma inner_table:
  "process_inner chk handler ts m h = Ok (out, m', h') \<Longrightarrow> table_wf m \<Longrightarrow> table_wf m'"
  by (auto simp: process_inner_def map_outcome_Ok_iff finish_output_def start_state_def dest: loop_table)

end

interpretation plain_handler: table_handler no_includes
  by unfold_locales (simp add: no_includes_def)

subsection \<open>Termination\<close>

text \<open>The directive lines of a token list, active or not.\<close>

function directive_lines :: "token list \<Rightarrow> token list list" where
  "directive_lines [] = []"
| "directive_lines (t # ts) =
     (if tok_kind t = Hash
      then takeWhile not_newline ts # directive_lines (drop 1 (dropWhile not_newline ts))
      else directive_lines ts)"
  by pat_completeness auto
termination
  by (relation "measure length") (auto simp: le_imp_less_Suc le_trans [OF diff_le_self length_dropWhile_le])

definition diverging_line :: "token list \<Rightarrow> bool" where
  "diverging_line ts \<longleftrightarrow> parse_directive ts = NoReturn"

lemma condition_returns: "eval_condition chk e m \<noteq> NoReturn"
  using condition.returns [of "expand_for_condition e m" "Suc (length (expand_for_condition e m))" chk]
  by (simp add: eval_condition_def Let_def del: ternary.simps)

text \<open>
  A handler that returns in the states with the property \<open>Q\<close>, and keeps it.  With such a handler the
  engine returns on a token list without diverging directive lines.
\<close>

locale returning_handler =
  fixes handler :: "'h include_handler" and Q :: "'h \<Rightarrow> bool"
  assumes returns: "Q h \<Longrightarrow> handler path system m h \<noteq> NoReturn"
    and keeps: "Q h \<Longrightarrow> handler path system m h = Ok (r, m', h') \<Longrightarrow> Q h'"
begin

lemma include_returns:
  assumes "Q (pr_handler st)"
  shows "do_include handler path system off st \<noteq> NoReturn"
    and "do_include handler path system off st = Ok st' \<Longrightarrow> Q (pr_handler st')"
  using assms returns keeps
  by (auto simp: do_include_def map_outcome_Ok_iff Let_def emit_def add_include_def split: option.splits)

lemma exec_returns:
  assumes "Q (pr_handler st)"
  shows "exec_directive handler d off st \<noteq> NoReturn \<and>
    (\<forall>st'. exec_directive handler d off st = Ok st' \<longrightarrow> Q (pr_handler st'))"
  using assms include_returns [OF assms]
  by (cases d) (auto simp: add_error_def add_warning_def split: option.splits list.splits)

lemma step_returns:
  assumes "Q (pr_handler st)"
  shows "step_directive chk handler d off st \<noteq> NoReturn \<and>
    (\<forall>st'. step_directive chk handler d off st = Ok st' \<longrightarrow> Q (pr_handler st'))"
proof (cases "conditional d")
  case True
  then show ?thesis
    using assms
    by (cases d) (auto simp: in_active_def condition_returns map_outcome_Ok_iff push_cond_def
        split: list.splits if_splits)
qed (use assms exec_returns [OF assms] in \<open>auto simp: step_unconditional\<close>)

lemma loop_returns:
  assumes "Q (pr_handler st)" "\<forall>l\<in>set (directive_lines ts). \<not> diverging_line l"
  shows "process_loop chk handler ts st \<noteq> NoReturn"
  using assms
proof (induction ts arbitrary: st rule: directive_lines.induct)
  case (2 t ts)
  show ?case
  proof (cases "tok_kind t = Hash")
    case True
    then have "step_line chk handler (takeWhile not_newline ts) (tok_offset t) st \<noteq> NoReturn"
      "step_line chk handler (takeWhile not_newline ts) (tok_offset t) st = Ok st' \<Longrightarrow> Q (pr_handler st')" for st'
      using 2 step_returns by (auto simp: and_then_NoReturn_iff and_then_Ok_iff step_line_def diverging_line_def)
    then show ?thesis using True 2 by (auto simp: and_then_NoReturn_iff)
  next
    case False
    then show ?thesis using 2 by (simp add: step_token_def output_token_def emit_def)
  qed
qed simp

lemma inner_returns:
  "Q h \<Longrightarrow> \<forall>l\<in>set (directive_lines ts). \<not> diverging_line l \<Longrightarrow> process_inner chk handler ts m h \<noteq> NoReturn"
  using loop_returns [of "start_state m h" ts chk] by (simp add: process_inner_def start_state_def)

end

interpretation plain_returns: returning_handler no_includes "\<lambda>_. True"
  by unfold_locales (simp_all add: no_includes_def)

text \<open>A handler whose state develops along \<open>R\<close>; so does the state over a run of the engine.\<close>

locale evolving_handler =
  fixes handler :: "'h include_handler" and R :: "'h \<Rightarrow> 'h \<Rightarrow> bool"
  assumes refl: "R h h" and trans: "R h1 h2 \<Longrightarrow> R h2 h3 \<Longrightarrow> R h1 h3"
    and evolves: "handler path system m h = Ok (r, m', h') \<Longrightarrow> R h h'"
begin

lemma exec_evolves: "exec_directive handler d off st = Ok st' \<Longrightarrow> R (pr_handler st) (pr_handler st')"
proof -
  have inc: "do_include handler path system off st = Ok st' \<Longrightarrow> R (pr_handler st) (pr_handler st')"
    for path system
    by (auto simp: do_include_def map_outcome_Ok_iff Let_def emit_def add_include_def
        dest: evolves split: option.splits)
  then show "exec_directive handler d off st = Ok st' \<Longrightarrow> R (pr_handler st) (pr_handler st')"
    by (cases d) (auto simp: add_error_def add_warning_def refl split: option.splits list.splits if_splits)
qed

lemma conditional_handler:
  "conditional d \<Longrightarrow> step_directive chk handler d off st = Ok st' \<Longrightarrow> pr_handler st' = pr_handler st"
  by (cases d) (auto simp: in_active_def push_cond_def map_outcome_Ok_iff split: list.splits if_splits)

lemma step_evolves: "step_directive chk handler d off st = Ok st' \<Longrightarrow> R (pr_handler st) (pr_handler st')"
  using conditional_handler [of d chk off st st'] exec_evolves [of d off st st']
  by (cases "conditional d") (auto simp: step_unconditional refl split: if_splits)

lemma walks_evolve:
  "(walk chk handler)\<^sup>*\<^sup>* c c' \<Longrightarrow> R (pr_handler (snd c)) (pr_handler (snd c'))"
proof (induction rule: rtranclp_induct)
  case (step c1 c2)
  then have "R (pr_handler (snd c1)) (pr_handler (snd c2))"
    by (auto elim!: walk.cases simp: step_line_def and_then_Ok_iff step_token_def output_token_def emit_def
        refl dest: step_evolves)
  with step.IH show ?case by (rule trans)
qed (rule refl)

lemma inner_evolves:
  "process_inner chk handler ts m h = Ok (out, m', h') \<Longrightarrow> R h h'"
  using walks_evolve [OF process_walks]
  by (fastforce simp: process_inner_def map_outcome_Ok_iff finish_output_def start_state_def)

end

subsection \<open>Properties\<close>

text \<open>
  C1: conditional compilation.  On every source whose conditional groups are properly nested, the engine
  computes the abstract reading: in each group the first branch whose condition holds is processed,
  the conditions after it are not evaluated, the other branches leave no trace in output, macro
  table, diagnostics or include requests, and the output is finally expanded.
\<close>
theorem conditional_groups:
  assumes "wf_block p"
  shows "process_inner chk handler (flat p) m h =
    map_outcome finish_output (run_block chk handler p (start_state m h))"
proof -
  have "scope_active (start_state m h)" by (simp add: scope_active_def start_state_def)
  then have "process_loop chk handler (flat p @ []) (start_state m h) =
      and_then (run_block chk handler p (start_state m h)) Ok"
    using loop_flat(1) [OF assms, of chk handler "[]"] by (auto intro!: and_then_cong)
  also have "\<dots> = run_block chk handler p (start_state m h)"
    by (cases "run_block chk handler p (start_state m h)") simp_all
  finally show ?thesis by (simp add: process_inner_def)
qed

definition sample_group :: block where
  "sample_group =
     Group ((0, 8), [Token Ident ''ifdef'' 1, space_token, Token Ident ''A'' 7]) (Plain (Token Ident ''a'' 9) Done)
       (ElseBranch ((11, 16), [Token Ident ''else'' 12]) (Plain (Token Ident ''b'' 17) Done))
       ((19, 25), [Token Ident ''endif'' 20]) (Plain (Token Ident ''c'' 26) Done)"

theorem conditional_groups_witness:
  "process_inner True no_includes (flat sample_group) new_table () =
   Ok (empty_output\<lparr>out_tokens := [Token Ident ''b'' 17, Token Ident ''c'' 26]\<rparr>, new_table, ())"
proof -
  have "wf_block sample_group" by code_simp
  then have "process_inner True no_includes (flat sample_group) new_table () =
      map_outcome finish_output (run_block True no_includes sample_group (start_state new_table ()))"
    by (rule conditional_groups)
  also have "\<dots> = Ok (empty_output\<lparr>out_tokens := [Token Ident ''b'' 17, Token Ident ''c'' 26]\<rparr>, new_table, ())"
    by code_simp
  finally show ?thesis .
qed

text \<open>
  C16: the stack of conditionals.  In every state the walk reaches, whatever the directives (also
  unbalanced ones): an entry is active only if one of its branches has been taken and the code around
  it is active, every entry records whether the code around it is active, and so text is output
  exactly when all entries are active.
\<close>
theorem conditional_stack_invariant:
  assumes "(walk chk handler)\<^sup>*\<^sup>* (ts, start_state m h) (ts', st)"
  shows "conds_ok (pr_conds st) \<and> (scope_active st \<longleftrightarrow> list_all cs_active (pr_conds st))"
proof -
  have "conds_ok (pr_conds st)"
    using walks_ok [OF assms] by (simp add: start_state_def)
  then show ?thesis using conds_ok_active [of "pr_conds st"] by (simp add: scope_active_def)
qed

theorem conditional_stack_invariant_witness:
  "conds_ok (pr_conds (push_cond False (start_state new_table ())))"
proof -
  let ?l = "[Token Ident ''ifdef'' 1, space_token, Token Ident ''A'' 7]"
  have "step_line True no_includes (takeWhile not_newline ?l) 0 (start_state new_table ()) =
      Ok (push_cond False (start_state new_table ()))" by code_simp
  then have "walk True no_includes (Token Hash ''#'' 0 # ?l, start_state new_table ())
      (drop 1 (dropWhile not_newline ?l), push_cond False (start_state new_table ()))"
    by (intro walk_line) simp_all
  then have "(walk True no_includes)\<^sup>*\<^sup>* (Token Hash ''#'' 0 # ?l, start_state new_table ())
      (drop 1 (dropWhile not_newline ?l), push_cond False (start_state new_table ()))"
    by (rule r_into_rtranclp)
  from conditional_stack_invariant [OF this] show ?thesis ..
qed

text \<open>
  the engine ends on every token list none of whose directive lines makes the parameter loop
  diverge, if the include handler returns.
\<close>
theorem process_returns:
  assumes "\<And>path system m h. handler path system m h \<noteq> NoReturn"
    "\<forall>l\<in>set (directive_lines ts). \<not> (head_is ''define'' l \<and> stuck_define (tl (skip_ws l)))"
  shows "process_inner chk handler ts m h \<noteq> NoReturn"
  using returning_handler.inner_returns [of handler "\<lambda>_. True" h ts chk m] assms
  by (simp add: returning_handler_def diverging_line_def parse_directive_NoReturn)

theorem process_returns_witness:
  "process_inner True no_includes (flat sample_group) new_table () \<noteq> NoReturn"
proof (rule process_returns)
  show "\<forall>l\<in>set (directive_lines (flat sample_group)).
      \<not> (head_is ''define'' l \<and> stuck_define (tl (skip_ws l)))"
    by code_simp
qed (simp add: no_includes_def)

text \<open>
  stray \<open>#elif\<close>, \<open>#else\<close> and \<open>#endif\<close> lines, outside every group, are accepted and have no effect:
  no diagnostic is recorded for them.
\<close>
theorem stray_conditional_ignored:
  assumes "line_is (\<lambda>d. is_elif d \<or> d = D_Else \<or> d = D_Endif) l"
  shows "process_inner chk handler (line_tokens l @ ts) m h = process_inner chk handler ts m h"
proof -
  have "step_line chk handler (snd l) (fst (fst l)) (start_state m h) = Ok (start_state m h)"
    using assms
    by (auto simp: line_is_def step_line_def start_state_def split: outcome.splits elim!: is_elif.elims)
  then show ?thesis
    by (simp add: process_inner_def loop_line [OF line_is_tokens [OF assms]])
qed

theorem stray_conditional_ignored_witness:
  "process_inner True no_includes (line_tokens ((0, 6), [Token Ident ''endif'' 1])) new_table () =
   process_inner True no_includes [] new_table ()"
proof -
  have "line_is (\<lambda>d. is_elif d \<or> d = D_Else \<or> d = D_Endif) ((0, 6), [Token Ident ''endif'' 1])" by code_simp
  from stray_conditional_ignored [OF this, of True no_includes "[]" new_table "()"] show ?thesis by simp
qed

text \<open>
  a definition reaches backwards.  Since the output is expanded once, with the final table, a name
  that is used on a line before its \<open>#define\<close> is replaced as well, where C leaves it alone.
\<close>
theorem definition_reaches_backwards:
  assumes "c_name x" "body \<noteq> []" "list_all (\<lambda>t. tok_kind t \<notin> {Ident, Newline, Whitespace}) body"
  shows "map_outcome (\<lambda>(out, _). out_tokens out)
      (process chk ([Token Ident x 0, Token Newline [NL] 1] @
        line_tokens ((2, off), define_tokens x None False body)) new_table) =
    Ok (body @ [Token Whitespace [NL] 1])"
proof -
  let ?line = "define_tokens x None False body"
  let ?d = "\<lparr>md_name = x, md_params = None, md_is_variadic = False, md_body = body\<rparr>"
  have body: "list_all not_newline body" "hd body \<in> set body" "tok_kind (hd body) \<noteq> Whitespace"
    "\<forall>t\<in>set body. tok_kind t \<noteq> Ident"
    using assms(2,3) by (auto simp: list_all_iff)
  then have nl: "list_all not_newline ?line" by (simp add: define_tokens_def)
  have parse: "parse_directive ?line = Ok (D_Define x None False body)"
    using assms(1,2) body(3) by (cases body) (simp_all add: parse_directive_def define_tokens_def parse_define_def)
  have "process_loop chk no_includes ([Token Ident x 0, Token Newline [NL] 1] @ line_tokens ((2, off), ?line))
      (start_state new_table ()) =
    Ok (emit [Token Ident x 0, Token Whitespace [NL] 1] (start_state (define_macro ?d new_table) ()))"
    using loop_line [of "((2, off), ?line)" chk no_includes "[]"] nl parse
    by (simp add: step_token_def output_token_def step_line_def scope_active_def start_state_def emit_def)
  moreover have "expand (define_macro ?d new_table) [Token Ident x 0, Token Whitespace [NL] 1] =
      body @ [Token Whitespace [NL] 1]"
  proof -
    have t: "object_like (define_macro ?d new_table)"
      by (simp add: object_like_def define_macro_def new_table_def)
    have "expand_with_paint (define_macro ?d new_table) body [x] = body"
      using body(4) by (intro expand_painted) (simp add: macro_name_def)
    then show ?thesis
      unfolding expand_def expand_object_step [OF t] by (simp add: is_defined_iff get_define expand_painted)
  qed
  ultimately show ?thesis
    by (simp add: process_def process_inner_def finish_output_def emit_def start_state_def empty_output_def)
qed

theorem definition_reaches_backwards_witness:
  "map_outcome (\<lambda>(out, _). out_tokens out)
      (process True ([Token Ident ''N'' 0, Token Newline [NL] 1] @
        line_tokens ((2, 15), define_tokens ''N'' None False [Token Number ''1'' 0])) new_table) =
    Ok [Token Number ''1'' 0, Token Whitespace [NL] 1]"
proof -
  have "c_name ''N''" by code_simp
  from definition_reaches_backwards [OF this, of "[Token Number ''1'' 0]" True 15] show ?thesis by simp
qed

end
