(* ===== verification/Include.thy ===== *)
theory Include
  imports Processor "HOL-Library.Sublist"
begin

text \<open>
  Include resolution (\<open>src/preprocess/include.rs\<close>): the resolver's state, the search for a header, the
  recursive processing of included files and built-in headers, \<open>#pragma once\<close> and include guards.  The
  file system is a parameter: a record of the \<open>std::fs\<close> calls the code makes, the same during one run.
  Messages that the code formats are values of \<open>diag\<close>, one constructor per \<open>format!\<close>.
\<close>

declare dropWhile_eq_Nil_conv [simp del]

subsection \<open>Paths and files\<close>

type_synonym path = string

definition path_join :: "path \<Rightarrow> path \<Rightarrow> path" where
  "path_join dir p =
     (if starts_with p ''/'' \<or> dir = [] then p
      else if ends_with dir ''/'' then dir @ p else dir @ ''/'' @ p)"

text \<open>\<open>Path::parent\<close> of a canonical path: absolute, without trailing or repeated separators.\<close>

definition path_parent :: "path \<Rightarrow> path option" where
  "path_parent p =
     (if p = ''/'' then None
      else
        let dir = rdropWhile (\<lambda>c. c \<noteq> CHR ''/'') p
        in Some (if dir = ''/'' then dir else butlast dir))"

record filesystem =
  fs_is_file :: "path \<Rightarrow> bool"
  fs_canonicalize :: "path \<Rightarrow> string + path"
  fs_read :: "path \<Rightarrow> string + string"

datatype diag =
  Message string
| DepthExceeded string
| CannotOpen path string
| CannotRead path string

subsection \<open>The resolver\<close>

record resolver =
  local_paths :: "path list"
  system_paths :: "path list"
  guards :: "string set"
  pragma_once_files :: "path set"
  file_cache :: "path \<rightharpoonup> string"
  builtin_headers :: "string \<rightharpoonup> string"
  max_depth :: nat
  depth :: nat
  current_dir :: "path option"

definition new_resolver :: resolver where
  "new_resolver =
     \<lparr>local_paths = [], system_paths = [], guards = {}, pragma_once_files = {}, file_cache = Map.empty,
      builtin_headers = Map.empty, max_depth = 200, depth = 0, current_dir = None\<rparr>"

definition register_builtin_headers :: "(string \<rightharpoonup> string) \<Rightarrow> resolver \<Rightarrow> resolver" where
  "register_builtin_headers headers r = r\<lparr>builtin_headers := builtin_headers r ++ headers\<rparr>"

definition add_local_path :: "path \<Rightarrow> resolver \<Rightarrow> resolver" where
  "add_local_path p r = r\<lparr>local_paths := local_paths r @ [p]\<rparr>"

definition add_system_path :: "path \<Rightarrow> resolver \<Rightarrow> resolver" where
  "add_system_path p r = r\<lparr>system_paths := system_paths r @ [p]\<rparr>"

text \<open>\<open>for dir in dirs { if candidate.is_file() { return Some(candidate) } }\<close>, then \<open>rest\<close>.\<close>

fun search_dirs :: "filesystem \<Rightarrow> string \<Rightarrow> path list \<Rightarrow> path option \<Rightarrow> path option" where
  "search_dirs fs p [] rest = rest"
| "search_dirs fs p (dir # dirs) rest =
     (if fs_is_file fs (path_join dir p) then Some (path_join dir p) else search_dirs fs p dirs rest)"

definition resolve :: "filesystem \<Rightarrow> resolver \<Rightarrow> string \<Rightarrow> bool \<Rightarrow> path option" where
  "resolve fs r p system =
     (let sys = search_dirs fs p (system_paths r) None in
      if \<not> system then
        (case current_dir r of
           Some dir \<Rightarrow>
             if fs_is_file fs (path_join dir p) then Some (path_join dir p)
             else search_dirs fs p (local_paths r) sys
         | None \<Rightarrow> search_dirs fs p (local_paths r) sys)
      else sys)"

subsection \<open>Include guards\<close>

definition skip_trivia :: "token list \<Rightarrow> token list" where
  "skip_trivia ts = dropWhile (\<lambda>t. tok_kind t \<in> {Whitespace, Newline, LineComment, BlockComment}) ts"

text \<open>\<open>if i < tokens.len() && P(tokens[i]) { i += 1; ... }\<close>.\<close>

definition expect :: "(token \<Rightarrow> bool) \<Rightarrow> token list \<Rightarrow> (token \<times> token list) option" where
  "expect P ts = (case ts of [] \<Rightarrow> None | t # r \<Rightarrow> if P t then Some (t, r) else None)"

definition guard_of_tokens :: "token list \<Rightarrow> string option" where
  "guard_of_tokens ts =
     Option.bind (expect (\<lambda>t. tok_kind t = Hash) (skip_trivia ts)) (\<lambda>(_, r).
     Option.bind (expect (\<lambda>t. tok_kind t = Ident \<and> tok_text t = ''ifndef'') (skip_ws r)) (\<lambda>(_, r).
     Option.bind (expect (\<lambda>t. tok_kind t = Ident) (skip_ws r)) (\<lambda>(g, r).
     Option.bind (expect (\<lambda>t. tok_kind t = Hash) (skip_trivia r)) (\<lambda>(_, r).
     Option.bind (expect (\<lambda>t. tok_text t = ''define'') (skip_ws r)) (\<lambda>(_, r).
     Option.bind (expect (\<lambda>t. tok_text t = tok_text g) (skip_ws r)) (\<lambda>_. Some (tok_text g)))))))"

definition detect_guard :: "resolver \<Rightarrow> path \<Rightarrow> string option" where
  "detect_guard r p =
     (case file_cache r p of None \<Rightarrow> None | Some source \<Rightarrow> guard_of_tokens (tokenize source))"

subsection \<open>Processing an included source\<close>

text \<open>What the include closure captures: the resolver and the two message lists.\<close>

type_synonym inc_state = "resolver \<times> diag list \<times> string list"

definition read_cached :: "filesystem \<Rightarrow> path \<Rightarrow> resolver \<Rightarrow> string + (string \<times> resolver)" where
  "read_cached fs p r =
     (case file_cache r p of
        Some s \<Rightarrow> Inr (s, r)
      | None \<Rightarrow>
          (case fs_read fs p of
             Inr s \<Rightarrow> Inr (s, r\<lparr>file_cache := (file_cache r)(p \<mapsto> s)\<rparr>)
           | Inl e \<Rightarrow> Inl e))"

text \<open>
  The part that \<open>handle_include_file\<close> and \<open>handle_include_source\<close> share: depth, sub-processor, messages.
  The closure \<open>handler\<close> is \<open>handle_include\<close> itself.
\<close>

definition process_nested ::
  "bool \<Rightarrow> inc_state include_handler \<Rightarrow> string \<Rightarrow> macro_table \<Rightarrow> inc_state \<Rightarrow>
     (proc_output \<times> macro_table \<times> inc_state) outcome" where
  "process_nested chk handler source m st =
     (case st of (r, errors, warnings) \<Rightarrow>
        map_outcome (\<lambda>(out, m', (r', errors', warnings')).
          (out, m', (r'\<lparr>depth := depth r' - 1\<rparr>, errors' @ map Message (out_errors out),
            warnings' @ out_warnings out)))
        (process_inner chk handler (tokenize source) m (r\<lparr>depth := depth r + 1\<rparr>, errors, warnings)))"

definition handle_include_source ::
  "bool \<Rightarrow> inc_state include_handler \<Rightarrow> string \<Rightarrow> macro_table \<Rightarrow> inc_state \<Rightarrow>
     (token list \<times> macro_table \<times> inc_state) outcome" where
  "handle_include_source chk handler source m st =
     map_outcome (\<lambda>(out, m', st'). (out_tokens out, m', st')) (process_nested chk handler source m st)"

text \<open>After the run of a file: \<open>#pragma once\<close> and the guard are recorded.\<close>

definition record_once :: "path \<Rightarrow> proc_output \<Rightarrow> macro_table \<Rightarrow> resolver \<Rightarrow> resolver" where
  "record_once p out m r =
     (let r1 = (if out_pragma_once out then r\<lparr>pragma_once_files := insert p (pragma_once_files r)\<rparr> else r)
      in case detect_guard r1 p of
           Some guard \<Rightarrow> if is_defined m guard then r1\<lparr>guards := insert guard (guards r1)\<rparr> else r1
         | None \<Rightarrow> r1)"

definition already_included :: "resolver \<Rightarrow> path \<Rightarrow> bool" where
  "already_included r p \<longleftrightarrow>
     p \<in> pragma_once_files r \<or>
     (case detect_guard r p of Some guard \<Rightarrow> guard \<in> guards r | None \<Rightarrow> False)"

definition handle_include_file ::
  "bool \<Rightarrow> filesystem \<Rightarrow> inc_state include_handler \<Rightarrow> path \<Rightarrow> string \<Rightarrow> macro_table \<Rightarrow> inc_state \<Rightarrow>
     (token list option \<times> macro_table \<times> inc_state) outcome" where
  "handle_include_file chk fs handler resolved orig_path m st =
     (case st of (r, errors, warnings) \<Rightarrow>
        (case fs_canonicalize fs resolved of
           Inl _ \<Rightarrow> Ok (None, m, st)
         | Inr canonical \<Rightarrow>
             if already_included r canonical then Ok (Some [], m, st)
             else
               (case read_cached fs canonical r of
                  Inl e \<Rightarrow> Ok (Some [], m, (r, errors @ [CannotRead orig_path e], warnings))
                | Inr (source, r1) \<Rightarrow>
                    map_outcome (\<lambda>(out, m', (r', errors', warnings')).
                      (Some (out_tokens out), m',
                       (record_once canonical out m' (r'\<lparr>current_dir := current_dir r1\<rparr>), errors', warnings')))
                    (process_nested chk handler source m
                      (r1\<lparr>current_dir := path_parent canonical\<rparr>, errors, warnings)))))"

subsection \<open>The recursion\<close>

text \<open>
  \<open>handle_include\<close> calls itself through the sub-processor, one level deeper each time; the first
  argument bounds the levels.  One more than the levels left up to \<open>max_depth\<close> is enough.
\<close>

fun handle_include :: "bool \<Rightarrow> filesystem \<Rightarrow> nat \<Rightarrow> inc_state include_handler" where
  "handle_include chk fs 0 p system m st = NoReturn"
| "handle_include chk fs (Suc n) p system m st =
     (case st of (r, errors, warnings) \<Rightarrow>
        if max_depth r \<le> depth r then Ok (Some [], m, (r, errors @ [DepthExceeded p], warnings))
        else
          and_then
            (case resolve fs r p system of
               Some resolved \<Rightarrow> handle_include_file chk fs (handle_include chk fs n) resolved p m st
             | None \<Rightarrow> Ok (None, m, st))
            (\<lambda>(tokens, m1, st1).
              case tokens of
                Some ts \<Rightarrow> Ok (Some ts, m1, st1)
              | None \<Rightarrow>
                  (case builtin_headers (fst st1) p of
                     Some content \<Rightarrow>
                       map_outcome (\<lambda>(ts, m2, st2). (Some ts, m2, st2))
                         (handle_include_source chk (handle_include chk fs n) content m1 st1)
                   | None \<Rightarrow> Ok (None, m1, st1))))"

record preprocess_result =
  res_text :: string
  res_tokens :: "token list"
  res_errors :: "diag list"
  res_warnings :: "string list"

definition levels_left :: "resolver \<Rightarrow> nat" where
  "levels_left r = Suc (max_depth r - depth r)"

definition preprocess_source ::
  "bool \<Rightarrow> filesystem \<Rightarrow> string \<Rightarrow> resolver \<Rightarrow> macro_table \<Rightarrow> (preprocess_result \<times> resolver \<times> macro_table) outcome" where
  "preprocess_source chk fs source r m =
     map_outcome (\<lambda>(out, m', (r', errors, warnings)).
       (\<lparr>res_text = tokens_to_text (out_tokens out), res_tokens = out_tokens out,
         res_errors = errors @ map Message (out_errors out), res_warnings = warnings @ out_warnings out\<rparr>, r', m'))
     (process_inner chk (handle_include chk fs (levels_left r)) (tokenize source) m (r, [], []))"

definition failed_result :: "diag \<Rightarrow> preprocess_result" where
  "failed_result d = \<lparr>res_text = [], res_tokens = [], res_errors = [d], res_warnings = []\<rparr>"

definition preprocess_file ::
  "bool \<Rightarrow> filesystem \<Rightarrow> path \<Rightarrow> resolver \<Rightarrow> macro_table \<Rightarrow> (preprocess_result \<times> resolver \<times> macro_table) outcome" where
  "preprocess_file chk fs p r m =
     (case fs_canonicalize fs p of
        Inl e \<Rightarrow> Ok (failed_result (CannotOpen p e), r, m)
      | Inr canonical \<Rightarrow>
          (case read_cached fs canonical r of
             Inl e \<Rightarrow> Ok (failed_result (CannotRead p e), r, m)
           | Inr (source, r1) \<Rightarrow>
               map_outcome (\<lambda>(res, r2, m'). (res, r2\<lparr>current_dir := current_dir r1\<rparr>, m'))
               (preprocess_source chk fs source (r1\<lparr>current_dir := path_parent canonical\<rparr>) m)))"

subsection \<open>How the resolver develops\<close>

text \<open>
  Between a call and its return the configuration, the depth and the current directory are restored,
  the sets and the cache only grow, and the cache agrees with the files.
\<close>

definition cache_ok :: "filesystem \<Rightarrow> resolver \<Rightarrow> bool" where
  "cache_ok fs r \<longleftrightarrow> (\<forall>p s. file_cache r p = Some s \<longrightarrow> fs_read fs p = Inr s)"

definition same_config :: "resolver \<Rightarrow> resolver \<Rightarrow> bool" where
  "same_config r r' \<longleftrightarrow>
     local_paths r' = local_paths r \<and> system_paths r' = system_paths r \<and>
     builtin_headers r' = builtin_headers r \<and> max_depth r' = max_depth r"

definition grows :: "filesystem \<Rightarrow> resolver \<Rightarrow> resolver \<Rightarrow> bool" where
  "grows fs r r' \<longleftrightarrow>
     guards r \<subseteq> guards r' \<and> pragma_once_files r \<subseteq> pragma_once_files r' \<and>
     file_cache r \<subseteq>\<^sub>m file_cache r' \<and> (cache_ok fs r \<longrightarrow> cache_ok fs r')"

definition restored :: "resolver \<Rightarrow> resolver \<Rightarrow> bool" where
  "restored r r' \<longleftrightarrow> depth r' = depth r \<and> current_dir r' = current_dir r"

fun inc_evolves :: "filesystem \<Rightarrow> inc_state \<Rightarrow> inc_state \<Rightarrow> bool" where
  "inc_evolves fs (r, es, ws) (r', es', ws') \<longleftrightarrow>
     same_config r r' \<and> grows fs r r' \<and> restored r r' \<and> prefix es es' \<and> prefix ws ws'"

lemmas evolution = inc_evolves.simps same_config_def grows_def restored_def

declare inc_evolves.simps [simp del]

lemma cache_ok_update [simp]:
  "cache_ok fs (r\<lparr>depth := d\<rparr>) = cache_ok fs r" "cache_ok fs (r\<lparr>current_dir := c\<rparr>) = cache_ok fs r"
  "cache_ok fs (r\<lparr>guards := g\<rparr>) = cache_ok fs r" "cache_ok fs (r\<lparr>pragma_once_files := f\<rparr>) = cache_ok fs r"
  by (simp_all add: cache_ok_def)

lemma inc_evolves_refl: "inc_evolves fs h h"
  by (cases h) (simp add: evolution)

lemma inc_evolves_trans: "inc_evolves fs h1 h2 \<Longrightarrow> inc_evolves fs h2 h3 \<Longrightarrow> inc_evolves fs h1 h3"
  by (cases h1; cases h2; cases h3) (auto simp: evolution intro: map_le_trans)

lemma nested_evolves:
  assumes "evolving_handler handler (inc_evolves fs)"
    "process_nested chk handler source m (r, es, ws) = Ok (out, m', (r', es', ws'))"
  shows "inc_evolves fs (r, es, ws) (r', es', ws')"
proof -
  obtain r1 es1 ws1 where
    run: "process_inner chk handler (tokenize source) m (r\<lparr>depth := depth r + 1\<rparr>, es, ws) =
      Ok (out, m', (r1, es1, ws1))"
    and r': "r' = r1\<lparr>depth := depth r1 - 1\<rparr>" "es' = es1 @ map Message (out_errors out)"
      "ws' = ws1 @ out_warnings out"
    using assms(2) by (auto simp: process_nested_def map_outcome_Ok_iff)
  have "inc_evolves fs (r\<lparr>depth := depth r + 1\<rparr>, es, ws) (r1, es1, ws1)"
    by (rule evolving_handler.inner_evolves [OF assms(1) run])
  then show ?thesis by (simp add: r' evolution prefix_prefix)
qed

lemma read_cached_evolves:
  assumes "read_cached fs p r = Inr (s, r1)"
  shows "same_config r r1" "grows fs r r1" "restored r r1" "file_cache r1 p = Some s"
    "cache_ok fs r \<Longrightarrow> fs_read fs p = Inr s" "pragma_once_files r1 = pragma_once_files r"
  using assms
  by (auto simp: read_cached_def evolution cache_ok_def map_le_def dom_def
      split: option.splits sum.splits if_splits)

lemma record_once_evolves:
  "same_config r (record_once p out m r)" "grows fs r (record_once p out m r)"
  "restored r (record_once p out m r)"
  by (auto simp: record_once_def evolution Let_def split: option.splits)

lemma file_evolves:
  assumes handler: "evolving_handler handler (inc_evolves fs)"
    and run: "handle_include_file chk fs handler resolved orig m st = Ok (ts, m', st')"
  shows "inc_evolves fs st st'"
proof -
  obtain r es ws where st: "st = (r, es, ws)" by (cases st)
  show ?thesis
  proof (cases "fs_canonicalize fs resolved")
    case (Inr p)
    show ?thesis
    proof (cases "already_included r p")
      case False
      show ?thesis
      proof (cases "read_cached fs p r")
        case (Inl e)
        then show ?thesis
          using run st Inr False by (auto simp: handle_include_file_def evolution)
      next
        case read: (Inr sr)
        obtain source r1 where sr: "sr = (source, r1)" by fastforce
        obtain out r2 es2 ws2 where nested: "process_nested chk handler source m
            (r1\<lparr>current_dir := path_parent p\<rparr>, es, ws) = Ok (out, m', (r2, es2, ws2))"
          and st': "st' = (record_once p out m' (r2\<lparr>current_dir := current_dir r1\<rparr>), es2, ws2)"
          using run st Inr False read sr by (auto simp: handle_include_file_def map_outcome_Ok_iff)
        let ?r2 = "r2\<lparr>current_dir := current_dir r1\<rparr>"
        have "inc_evolves fs (r, es, ws) (r1, es, ws)"
          using read_cached_evolves [OF read [unfolded sr]] by (simp add: inc_evolves.simps)
        moreover have "inc_evolves fs (r1, es, ws) (?r2, es2, ws2)"
          using nested_evolves [OF handler nested] by (simp add: evolution)
        moreover have "inc_evolves fs (?r2, es2, ws2) st'"
          using st' record_once_evolves [where r = ?r2] by (simp add: inc_evolves.simps)
        ultimately show ?thesis unfolding st by (blast intro: inc_evolves_trans)
      qed
    qed (use run st Inr in \<open>auto simp: handle_include_file_def intro: inc_evolves_refl\<close>)
  qed (use run st in \<open>auto simp: handle_include_file_def intro: inc_evolves_refl\<close>)
qed

lemma source_evolves:
  assumes "evolving_handler handler (inc_evolves fs)"
    "handle_include_source chk handler content m st = Ok (ts, m', st')"
  shows "inc_evolves fs st st'"
proof -
  obtain r es ws r' es' ws' where st: "st = (r, es, ws)" "st' = (r', es', ws')"
    by (cases st; cases st') auto
  obtain out where "process_nested chk handler content m (r, es, ws) = Ok (out, m', (r', es', ws'))"
    using assms(2) unfolding st by (auto simp: handle_include_source_def map_outcome_Ok_iff)
  from nested_evolves [OF assms(1) this] show ?thesis unfolding st .
qed

lemma handle_include_evolving: "evolving_handler (handle_include chk fs n) (inc_evolves fs)"
proof (induction n)
  case 0
  show ?case by unfold_locales (auto intro: inc_evolves_refl inc_evolves_trans)
next
  case (Suc n)
  show ?case
  proof (unfold_locales, rule inc_evolves_refl, erule (1) inc_evolves_trans)
    fix p system m st x m' st'
    assume run: "handle_include chk fs (Suc n) p system m st = Ok (x, m', st')"
    obtain r es ws where st: "st = (r, es, ws)" by (cases st)
    show "inc_evolves fs st st'"
    proof (cases "max_depth r \<le> depth r")
      case False
      let ?disk = "case resolve fs r p system of
        Some resolved \<Rightarrow> handle_include_file chk fs (handle_include chk fs n) resolved p m st
      | None \<Rightarrow> Ok (None, m, st)"
      obtain ts m1 st1 where disk: "?disk = Ok (ts, m1, st1)"
        using run st False by (auto simp: and_then_Ok_iff)
      have 1: "inc_evolves fs st st1"
        using disk file_evolves [OF Suc] by (auto split: option.splits intro: inc_evolves_refl)
      have "inc_evolves fs st1 st'"
        using run st False disk
        by (auto simp: map_outcome_Ok_iff split: option.splits intro: inc_evolves_refl
            dest: source_evolves [OF Suc])
      with 1 show ?thesis by (rule inc_evolves_trans)
    qed (use run st in \<open>auto simp: evolution\<close>)
  qed
qed

interpretation inclusion: evolving_handler "handle_include chk fs n" "inc_evolves fs" for chk fs n
  by (rule handle_include_evolving)

text \<open>The macro table stays well formed over all included files.\<close>

lemma nested_table:
  assumes "table_handler handler" "process_nested chk handler source m st = Ok (out, m', st')" "table_wf m"
  shows "table_wf m'"
proof -
  obtain r es ws where st: "st = (r, es, ws)" by (cases st)
  obtain out' h' where "process_inner chk handler (tokenize source) m (r\<lparr>depth := depth r + 1\<rparr>, es, ws) =
      Ok (out', m', h')"
    using assms(2) by (auto simp: st process_nested_def map_outcome_Ok_iff)
  then show ?thesis by (rule table_handler.inner_table [OF assms(1)]) (rule assms(3))
qed

lemma file_table:
  "table_handler handler \<Longrightarrow> handle_include_file chk fs handler resolved orig m st = Ok (x, m', st') \<Longrightarrow>
     table_wf m \<Longrightarrow> table_wf m'"
  by (cases st) (auto simp: handle_include_file_def map_outcome_Ok_iff dest: nested_table
      split: sum.splits if_splits)

lemma source_table:
  "table_handler handler \<Longrightarrow> handle_include_source chk handler content m st = Ok (x, m', st') \<Longrightarrow>
     table_wf m \<Longrightarrow> table_wf m'"
  by (auto simp: handle_include_source_def map_outcome_Ok_iff dest: nested_table)

lemma handle_include_table: "table_handler (handle_include chk fs n)"
proof (induction n)
  case (Suc n)
  show ?case
  proof
    fix p system m st x m' st'
    assume run: "handle_include chk fs (Suc n) p system m st = Ok (x, m', st')" and m: "table_wf m"
    obtain r es ws where st: "st = (r, es, ws)" by (cases st)
    show "table_wf m'"
    proof (cases "max_depth r \<le> depth r")
      case False
      let ?disk = "case resolve fs r p system of
        Some resolved \<Rightarrow> handle_include_file chk fs (handle_include chk fs n) resolved p m st
      | None \<Rightarrow> Ok (None, m, st)"
      obtain ts m1 st1 where disk: "?disk = Ok (ts, m1, st1)"
        using run st False by (auto simp: and_then_Ok_iff)
      then have "table_wf m1" using m by (auto split: option.splits dest: file_table [OF Suc])
      then show ?thesis
        using run st False disk
        by (auto simp: map_outcome_Ok_iff split: option.splits dest: source_table [OF Suc])
    qed (use run st m in auto)
  qed
qed (unfold_locales, simp)

interpretation inclusion_table: table_handler "handle_include chk fs n" for chk fs n
  by (rule handle_include_table)

text \<open>A source none of whose directive lines makes the parameter loop diverge.\<close>

definition ending_source :: "string \<Rightarrow> bool" where
  "ending_source s \<longleftrightarrow> (\<forall>l\<in>set (directive_lines (tokenize s)). \<not> diverging_line l)"

definition ending_files :: "filesystem \<Rightarrow> bool" where
  "ending_files fs \<longleftrightarrow> (\<forall>p s. fs_read fs p = Inr s \<longrightarrow> ending_source s)"

definition ending_resolver :: "resolver \<Rightarrow> bool" where
  "ending_resolver r \<longleftrightarrow>
     (\<forall>p s. file_cache r p = Some s \<longrightarrow> ending_source s) \<and>
     (\<forall>n s. builtin_headers r n = Some s \<longrightarrow> ending_source s)"

fun level_state :: "filesystem \<Rightarrow> nat \<Rightarrow> inc_state \<Rightarrow> bool" where
  "level_state fs n (r, es, ws) \<longleftrightarrow>
     cache_ok fs r \<and> (\<forall>n s. builtin_headers r n = Some s \<longrightarrow> ending_source s) \<and>
     depth r \<le> max_depth r \<and> max_depth r < depth r + n"

lemma level_evolves: "inc_evolves fs h h' \<Longrightarrow> level_state fs n h \<Longrightarrow> level_state fs n h'"
  by (cases h; cases h') (auto simp: evolution)

lemma nested_returns:
  assumes h: "returning_handler handler (level_state fs n)" and src: "ending_source source"
    and st: "level_state fs (Suc n) (r, es, ws)" "depth r < max_depth r"
  shows "process_nested chk handler source m (r, es, ws) \<noteq> NoReturn"
proof -
  have "level_state fs n (r\<lparr>depth := depth r + 1\<rparr>, es, ws)" using st by simp
  then have "process_inner chk handler (tokenize source) m (r\<lparr>depth := depth r + 1\<rparr>, es, ws) \<noteq> NoReturn"
    using src by (intro returning_handler.inner_returns [OF h]) (auto simp: ending_source_def)
  then show ?thesis by (simp add: process_nested_def)
qed

lemma file_returns:
  assumes h: "returning_handler handler (level_state fs n)" and fs: "ending_files fs"
    and st: "level_state fs (Suc n) (r, es, ws)" "depth r < max_depth r"
  shows "handle_include_file chk fs handler resolved orig m (r, es, ws) \<noteq> NoReturn"
proof (cases "fs_canonicalize fs resolved")
  case (Inr p)
  show ?thesis
  proof (cases "read_cached fs p r")
    case read: (Inr sr)
    obtain source r1 where sr: "sr = (source, r1)" by fastforce
    note r1 = read_cached_evolves [OF read [unfolded sr]]
    have "fs_read fs p = Inr source" using r1(5) st(1) by simp
    then have "ending_source source" using fs by (auto simp: ending_files_def)
    moreover have "level_state fs (Suc n) (r1\<lparr>current_dir := path_parent p\<rparr>, es, ws)"
      "depth (r1\<lparr>current_dir := path_parent p\<rparr>) < max_depth (r1\<lparr>current_dir := path_parent p\<rparr>)"
      using r1(1-3) st by (auto simp: evolution)
    ultimately have "process_nested chk handler source m (r1\<lparr>current_dir := path_parent p\<rparr>, es, ws) \<noteq> NoReturn"
      by (intro nested_returns [OF h])
    then show ?thesis using Inr read sr by (simp add: handle_include_file_def)
  qed (use Inr in \<open>simp add: handle_include_file_def\<close>)
qed (simp add: handle_include_file_def)

lemma handle_include_returning:
  assumes "ending_files fs"
  shows "returning_handler (handle_include chk fs n) (level_state fs n)"
proof (induction n)
  case 0
  have no: "\<not> level_state fs 0 h" for h by (cases h) auto
  show ?case by unfold_locales (simp_all add: no)
next
  case (Suc n)
  show ?case
  proof
    fix h p system m r m' h'
    assume "level_state fs (Suc n) h" "handle_include chk fs (Suc n) p system m h = Ok (r, m', h')"
    then show "level_state fs (Suc n) h'"
      using level_evolves inclusion.evolves by blast
  next
    fix p system m st
    assume level: "level_state fs (Suc n) st"
    obtain r es ws where st: "st = (r, es, ws)" by (cases st)
    show "handle_include chk fs (Suc n) p system m st \<noteq> NoReturn"
    proof (cases "max_depth r \<le> depth r")
      case False
      let ?disk = "case resolve fs r p system of
        Some resolved \<Rightarrow> handle_include_file chk fs (handle_include chk fs n) resolved p m st
      | None \<Rightarrow> Ok (None, m, st)"
      have 1: "?disk \<noteq> NoReturn"
        using file_returns [OF Suc assms] level st False by (auto split: option.splits)
      have 2: "handle_include_source chk (handle_include chk fs n) content m1 st1 \<noteq> NoReturn"
        if "?disk = Ok (ts, m1, st1)" "builtin_headers (fst st1) p = Some content" for ts m1 st1 content
      proof -
        have ev: "inc_evolves fs st st1"
          using that(1) file_evolves [OF handle_include_evolving]
          by (auto split: option.splits intro: inc_evolves_refl)
        obtain r1 es1 ws1 where st1: "st1 = (r1, es1, ws1)" by (cases st1)
        have "level_state fs (Suc n) (r1, es1, ws1)" using level_evolves [OF ev level] st1 by simp
        moreover have "depth r1 < max_depth r1" using ev st st1 False by (auto simp: evolution)
        moreover have "ending_source content" using calculation(1) that(2) st1 by auto
        ultimately show ?thesis
          using nested_returns [OF Suc] by (simp add: handle_include_source_def st1)
      qed
      show ?thesis
        using 1 2 st False by (auto simp: and_then_NoReturn_iff split: option.splits)
    qed (use st in auto)
  qed
qed

subsection \<open>Files that are included once\<close>

lemma walk_once:
  "walk chk handler c c' \<Longrightarrow> out_pragma_once (pr_out (snd c)) \<Longrightarrow> out_pragma_once (pr_out (snd c'))"
proof -
  have inc: "do_include handler p sys off st = Ok st' \<Longrightarrow> out_pragma_once (pr_out st) \<Longrightarrow>
      out_pragma_once (pr_out st')" for p sys off and st st' :: "'h proc" and handler :: "'h include_handler"
    by (auto simp: do_include_def map_outcome_Ok_iff Let_def emit_def add_include_def split: option.splits)
  have exec: "exec_directive handler d off st = Ok st' \<Longrightarrow> out_pragma_once (pr_out st) \<Longrightarrow>
      out_pragma_once (pr_out st')" for d off and st st' :: "'h proc" and handler :: "'h include_handler"
    by (cases d) (auto simp: add_error_def add_warning_def dest: inc
        split: option.splits list.splits if_splits)
  have cond: "conditional d \<Longrightarrow> step_directive chk handler d off st = Ok st' \<Longrightarrow> pr_out st' = pr_out st"
    for d off and st st' :: "'h proc" and handler :: "'h include_handler"
    by (cases d) (auto simp: in_active_def push_cond_def map_outcome_Ok_iff split: list.splits if_splits)
  have "step_directive chk handler d off st = Ok st' \<Longrightarrow> out_pragma_once (pr_out st) \<Longrightarrow>
      out_pragma_once (pr_out st')" for d off and st st' :: "'h proc" and handler :: "'h include_handler"
    using cond [of d handler off st st'] exec [of handler d off st st']
    by (cases "conditional d") (auto simp: step_unconditional split: if_splits)
  then show "walk chk handler c c' \<Longrightarrow> out_pragma_once (pr_out (snd c)) \<Longrightarrow> out_pragma_once (pr_out (snd c'))"
    by (elim walk.cases) (auto simp: step_line_def and_then_Ok_iff step_token_def output_token_def emit_def)
qed

lemma loop_once:
  "process_loop chk handler ts st = Ok st' \<Longrightarrow> out_pragma_once (pr_out st) \<Longrightarrow> out_pragma_once (pr_out st')"
proof -
  assume run: "process_loop chk handler ts st = Ok st'" and once: "out_pragma_once (pr_out st)"
  have "(walk chk handler)\<^sup>*\<^sup>* c c' \<Longrightarrow> out_pragma_once (pr_out (snd c)) \<Longrightarrow> out_pragma_once (pr_out (snd c'))"
    for c c' by (induction rule: rtranclp_induct) (auto dest: walk_once)
  from this [OF process_walks [OF run]] once show ?thesis by simp
qed

definition once_line :: "dline \<Rightarrow> bool" where
  "once_line l \<longleftrightarrow> line_is (\<lambda>d. case d of D_Pragma ts \<Rightarrow>
     (case skip_ws ts of t # _ \<Rightarrow> tok_text t = ''once'' | [] \<Rightarrow> False) | _ \<Rightarrow> False) l"

lemma once_line_flag:
  assumes "once_line l" "process_inner chk handler (line_tokens l @ ts) m h = Ok (out, m', h')"
  shows "out_pragma_once out"
proof -
  obtain d where d: "parse_directive (snd l) = Ok d" "list_all not_newline (snd l)"
    and p: "case d of D_Pragma ts \<Rightarrow> (case skip_ws ts of t # _ \<Rightarrow> tok_text t = ''once'' | [] \<Rightarrow> False) | _ \<Rightarrow> False"
    using assms(1) by (auto simp: once_line_def line_is_def split: outcome.splits)
  obtain st where st: "process_loop chk handler (line_tokens l @ ts) (start_state m h) = Ok st"
    and out: "(out, m', h') = finish_output st"
    using assms(2) by (auto simp: process_inner_def map_outcome_Ok_iff)
  obtain st1 where "step_line chk handler (snd l) (fst (fst l)) (start_state m h) = Ok st1"
    and loop: "process_loop chk handler ts st1 = Ok st"
    using st by (auto simp: loop_line [OF d(2)] and_then_Ok_iff)
  then have "out_pragma_once (pr_out st1)"
    using d(1) p by (cases d) (auto simp: step_line_def start_state_def scope_active_def split: list.splits)
  from loop_once [OF loop this] show ?thesis using out by (simp add: finish_output_def)
qed

lemma included_noop:
  assumes "resolve fs r p system = Some f" "fs_canonicalize fs f = Inr c" "already_included r c"
    "depth r < max_depth r"
  shows "handle_include chk fs (Suc n) p system m (r, es, ws) = Ok (Some [], m, (r, es, ws))"
  using assms by (simp add: handle_include_file_def)

lemma resolve_cong:
  "same_config r r' \<Longrightarrow> current_dir r' = current_dir r \<Longrightarrow> resolve fs r' p system = resolve fs r p system"
  by (auto simp: resolve_def same_config_def Let_def split: option.splits)

lemma file_once:
  assumes "fs_canonicalize fs f = Inr c" "read_cached fs c r = Inr (src, r0)"
    and "tokenize src = line_tokens l @ rest" "once_line l"
    and "handle_include_file chk fs handler f p m (r, es, ws) = Ok (x, m1, (r1, es1, ws1))"
  shows "x \<noteq> None \<and> (already_included r c \<and> r1 = r \<or> c \<in> pragma_once_files r1)"
proof (cases "already_included r c")
  case False
  obtain out h' where nested: "process_nested chk handler src m
      (r0\<lparr>current_dir := path_parent c\<rparr>, es, ws) = Ok (out, m1, h')"
    and x: "x = Some (out_tokens out)"
    and r1: "r1 = record_once c out m1 (fst h'\<lparr>current_dir := current_dir r0\<rparr>)"
    using assms(1,2,5) False by (fastforce simp: handle_include_file_def map_outcome_Ok_iff)
  have "out_pragma_once out"
    using nested once_line_flag [OF assms(4)] assms(3) by (auto simp: process_nested_def map_outcome_Ok_iff)
  then show ?thesis using x r1 by (auto simp: record_once_def Let_def split: option.splits)
qed (use assms in \<open>auto simp: handle_include_file_def\<close>)

lemma cache_le: "file_cache r \<subseteq>\<^sub>m file_cache r' \<Longrightarrow> file_cache r p = Some s \<Longrightarrow> file_cache r' p = Some s"
  by (auto simp: map_le_def dom_def)

lemma already_included_grows: "already_included r c \<Longrightarrow> grows fs r r' \<Longrightarrow> already_included r' c"
proof (cases "file_cache r c")
  case (Some s)
  then show "already_included r c \<Longrightarrow> grows fs r r' \<Longrightarrow> already_included r' c"
    using cache_le [of r r' c s]
    by (auto simp: already_included_def grows_def detect_guard_def split: option.splits)
qed (auto simp: already_included_def grows_def detect_guard_def)

lemma file_guard:
  assumes h: "evolving_handler handler (inc_evolves fs)"
    and "fs_canonicalize fs f = Inr c" "read_cached fs c r = Inr (src, r0)"
    and g: "guard_of_tokens (tokenize src) = Some g" "is_defined m1 g"
    and "handle_include_file chk fs handler f p m (r, es, ws) = Ok (x, m1, (r1, es1, ws1))"
  shows "x \<noteq> None \<and> already_included r1 c"
proof (cases "already_included r c")
  case False
  let ?r0 = "r0\<lparr>current_dir := path_parent c\<rparr>"
  obtain out r2 where nested: "process_nested chk handler src m (?r0, es, ws) = Ok (out, m1, (r2, es1, ws1))"
    and x: "x = Some (out_tokens out)"
    and r1: "r1 = record_once c out m1 (r2\<lparr>current_dir := current_dir r0\<rparr>)"
    using assms(2,3,6) False by (fastforce simp: handle_include_file_def map_outcome_Ok_iff)
  have "file_cache r0 c = Some src" using read_cached_evolves(4) [OF assms(3)] .
  then have "file_cache r2 c = Some src"
    using nested_evolves [OF h nested] by (auto simp: inc_evolves.simps grows_def dest: cache_le)
  then show ?thesis
    using x r1 g by (auto simp: record_once_def Let_def detect_guard_def already_included_def)
qed (use assms in \<open>auto simp: handle_include_file_def\<close>)

subsection \<open>Properties\<close>

text \<open>
  C13: preprocessing ends, however the files include each other.  A file that includes itself, or a
  cycle of files, is cut off at \<open>max_depth\<close> levels; the only way not to return is a directive line
  that makes the parameter loop diverge.
\<close>
theorem preprocess_source_returns:
  assumes "ending_files fs" "ending_source source" "cache_ok fs r" "depth r \<le> max_depth r"
    and "\<And>n s. builtin_headers r n = Some s \<Longrightarrow> ending_source s"
  shows "preprocess_source chk fs source r m \<noteq> NoReturn"
proof -
  have "level_state fs (levels_left r) (r, [], [])" using assms(3-5) by (auto simp: levels_left_def)
  then have "process_inner chk (handle_include chk fs (levels_left r)) (tokenize source) m (r, [], []) \<noteq> NoReturn"
    using assms(2)
    by (intro returning_handler.inner_returns [OF handle_include_returning [OF assms(1)]])
      (auto simp: ending_source_def)
  then show ?thesis by (simp add: preprocess_source_def)
qed

definition self_including :: filesystem where
  "self_including =
     \<lparr>fs_is_file = (\<lambda>p. p = ''/s.h''), fs_canonicalize = Inr,
      fs_read = (\<lambda>p. if p = ''/s.h'' then Inr (''#include <s.h>'' @ [NL]) else Inl ''not found'')\<rparr>"

theorem preprocess_source_returns_witness:
  "preprocess_source True self_including (''#include <s.h>'' @ [NL]) (add_system_path ''/'' new_resolver) new_table
     \<noteq> NoReturn"
proof (rule preprocess_source_returns)
  have "\<forall>l\<in>set (directive_lines (tokenize (''#include <s.h>'' @ [NL]))).
      \<not> (head_is ''define'' l \<and> stuck_define (tl (skip_ws l)))"
    by code_simp
  then show s: "ending_source (''#include <s.h>'' @ [NL])"
    by (simp add: ending_source_def diverging_line_def parse_directive_NoReturn)
  then show "ending_files self_including" by (simp add: ending_files_def self_including_def)
qed (simp_all add: cache_ok_def add_system_path_def new_resolver_def)

text \<open>
  C36: what a preprocessing run leaves of the resolver.  The search paths, the built-in headers, the depth
  and the current directory are as before, guards, once-files and cached files are only added, every
  cached text is the text of its file, and the macro table stays well formed.
\<close>
theorem preprocess_source_preserves:
  assumes "preprocess_source chk fs source r m = Ok (res, r', m')"
  shows "same_config r r' \<and> restored r r' \<and> grows fs r r' \<and> (table_wf m \<longrightarrow> table_wf m')"
proof -
  obtain out es ws where
    run: "process_inner chk (handle_include chk fs (levels_left r)) (tokenize source) m (r, [], []) =
      Ok (out, m', (r', es, ws))"
    using assms by (auto simp: preprocess_source_def map_outcome_Ok_iff)
  from inclusion.inner_evolves [OF run] inclusion_table.inner_table [OF run]
  show ?thesis by (simp add: inc_evolves.simps)
qed

theorem preprocess_source_preserves_witness:
  "\<exists>res r'. preprocess_source True self_including ''x'' new_resolver new_table = Ok (res, r', new_table) \<and>
     depth r' = 0"
proof -
  have "(case preprocess_source True self_including ''x'' new_resolver new_table of
      Ok (res, r', m') \<Rightarrow> m' = new_table | _ \<Rightarrow> False)"
    by code_simp
  then obtain res r' where run: "preprocess_source True self_including ''x'' new_resolver new_table =
      Ok (res, r', new_table)"
    by (auto split: outcome.splits)
  from preprocess_source_preserves [OF run] run show ?thesis
    by (auto simp: restored_def new_resolver_def)
qed

text \<open>
  \<open>#pragma once\<close>.  After a file that starts with a \<open>#pragma once\<close> line has been included, a later
  include of it, in any state the resolver can have by then and with any macro table, yields nothing
  and changes nothing.
\<close>
theorem pragma_once_file:
  assumes "resolve fs r p system = Some f" "fs_canonicalize fs f = Inr c" "read_cached fs c r = Inr (src, r0)"
    and "tokenize src = line_tokens l @ rest" "once_line l"
    and "handle_include chk fs (Suc n) p system m (r, es, ws) = Ok (x, m1, (r1, es1, ws1))"
    and "depth r < max_depth r" "\<not> already_included r c"
    and "same_config r1 r2" "grows fs r1 r2" "current_dir r2 = current_dir r1" "depth r2 < max_depth r2"
  shows "handle_include chk fs (Suc k) p system m2 (r2, es2, ws2) = Ok (Some [], m2, (r2, es2, ws2))"
proof -
  obtain y m' ra ea wa where
    first: "handle_include_file chk fs (handle_include chk fs n) f p m (r, es, ws) = Ok (y, m', (ra, ea, wa))"
    using assms(1,6,7) by (auto simp: and_then_Ok_iff not_le)
  have "y \<noteq> None \<and> c \<in> pragma_once_files ra" using file_once [OF assms(2-5) first] assms(8) by blast
  then have once: "c \<in> pragma_once_files r1" using assms(1,6,7) first by auto
  have "inc_evolves fs (r, es, ws) (r1, es1, ws1)" by (rule inclusion.evolves [OF assms(6)])
  then have "resolve fs r2 p system = Some f"
    using assms(1,9,11) resolve_cong [of r r1] resolve_cong [of r1 r2] by (simp add: inc_evolves.simps restored_def)
  moreover have "already_included r2 c" using once assms(10) by (auto simp: already_included_def grows_def)
  ultimately show ?thesis using assms(2,12) by (intro included_noop)
qed

definition once_files :: filesystem where
  "once_files =
     \<lparr>fs_is_file = (\<lambda>p. p = ''/a.h''), fs_canonicalize = Inr,
      fs_read = (\<lambda>p. if p = ''/a.h'' then Inr (''#pragma once'' @ [NL] @ ''x'') else Inl ''not found'')\<rparr>"

theorem pragma_once_file_witness:
  "\<exists>x m1 r1 es1 ws1. let r = add_system_path ''/'' new_resolver in
     handle_include True once_files 1 ''a.h'' True new_table (r, [], []) = Ok (x, m1, (r1, es1, ws1)) \<and>
     handle_include True once_files 1 ''a.h'' True m1 (r1, es1, ws1) = Ok (Some [], m1, (r1, es1, ws1))"
proof -
  let ?r = "add_system_path ''/'' new_resolver"
  let ?src = "''#pragma once'' @ [NL] @ ''x''"
  let ?l = "((0, 12), [Token Ident ''pragma'' 1, Token Whitespace '' '' 7, Token Ident ''once'' 8]) :: dline"
  have "case handle_include True once_files (Suc 0) ''a.h'' True new_table (?r, [], []) of Ok _ \<Rightarrow> True | _ \<Rightarrow> False"
    by code_simp
  then obtain x m1 r1 es1 ws1 where
    run: "handle_include True once_files (Suc 0) ''a.h'' True new_table (?r, [], []) = Ok (x, m1, (r1, es1, ws1))"
    by (cases "handle_include True once_files (Suc 0) ''a.h'' True new_table (?r, [], [])") auto
  have ev: "inc_evolves once_files (?r, [], []) (r1, es1, ws1)" by (rule inclusion.evolves [OF run])
  have "resolve once_files ?r ''a.h'' True = Some ''/a.h''" by code_simp
  moreover have "fs_canonicalize once_files ''/a.h'' = Inr ''/a.h''" by (simp add: once_files_def)
  moreover have "read_cached once_files ''/a.h'' ?r = Inr (?src, ?r\<lparr>file_cache := [''/a.h'' \<mapsto> ?src]\<rparr>)"
    by (simp add: read_cached_def once_files_def add_system_path_def new_resolver_def)
  moreover have "tokenize ?src = line_tokens ?l @ [Token Ident ''x'' 13, Token Eof [] 14]" by code_simp
  moreover have "once_line ?l" by code_simp
  moreover have "\<not> already_included ?r ''/a.h''"
    by (simp add: already_included_def detect_guard_def add_system_path_def new_resolver_def)
  moreover have "depth r1 < max_depth r1" "depth ?r < max_depth ?r"
    using ev by (auto simp: evolution add_system_path_def new_resolver_def)
  moreover have "same_config r1 r1" "grows once_files r1 r1" by (simp_all add: evolution)
  ultimately have "handle_include True once_files (Suc 0) ''a.h'' True m1 (r1, es1, ws1) =
      Ok (Some [], m1, (r1, es1, ws1))"
    using run by (intro pragma_once_file [where ?r1.0 = r1 and r = ?r and ?m1.0 = m1]) simp_all
  with run show ?thesis by auto
qed

text \<open>
  include guards are remembered by name.  Once a file with an include guard has been included and
  its guard is defined, every later include of the file yields nothing, whatever the macro table then
  holds: also after an \<open>#undef\<close> of the guard, where C includes the text again.
\<close>
theorem guard_outlives_undef:
  assumes "resolve fs r p system = Some f" "fs_canonicalize fs f = Inr c" "read_cached fs c r = Inr (src, r0)"
    and "guard_of_tokens (tokenize src) = Some g"
    and "handle_include chk fs (Suc n) p system m (r, es, ws) = Ok (x, m1, (r1, es1, ws1))"
    and "is_defined m1 g" "depth r < max_depth r"
    and "same_config r1 r2" "grows fs r1 r2" "current_dir r2 = current_dir r1" "depth r2 < max_depth r2"
  shows "handle_include chk fs (Suc k) p system (undef_macro g m2) (r2, es2, ws2) =
    Ok (Some [], undef_macro g m2, (r2, es2, ws2))"
proof -
  obtain y m' ra ea wa where
    first: "handle_include_file chk fs (handle_include chk fs n) f p m (r, es, ws) = Ok (y, m', (ra, ea, wa))"
    using assms(1,5,7) by (auto simp: and_then_Ok_iff not_le)
  have "y \<noteq> None"
    using first assms(2,3) by (auto simp: handle_include_file_def map_outcome_Ok_iff split: if_splits)
  then have "m' = m1" "ra = r1" using assms(1,5,7) first by auto
  then have once: "already_included r1 c"
    using file_guard [OF handle_include_evolving assms(2-4)] first assms(6) by blast
  have "inc_evolves fs (r, es, ws) (r1, es1, ws1)" by (rule inclusion.evolves [OF assms(5)])
  then have "resolve fs r2 p system = Some f"
    using assms(1,8,10) resolve_cong [of r r1] resolve_cong [of r1 r2] by (simp add: inc_evolves.simps restored_def)
  with already_included_grows [OF once assms(9)] show ?thesis using assms(2,11) by (intro included_noop)
qed

definition guarded_files :: filesystem where
  "guarded_files = once_files\<lparr>fs_read := (\<lambda>p. if p = ''/a.h''
     then Inr (''#ifndef G'' @ [NL] @ ''#define G'' @ [NL] @ ''x'' @ [NL] @ ''#endif'') else Inl ''not found'')\<rparr>"

theorem guard_outlives_undef_witness:
  "\<exists>x m1 r1 es1 ws1. let r = add_system_path ''/'' new_resolver in
     handle_include True guarded_files 1 ''a.h'' True new_table (r, [], []) = Ok (x, m1, (r1, es1, ws1)) \<and>
     handle_include True guarded_files 1 ''a.h'' True (undef_macro ''G'' m1) (r1, es1, ws1) =
       Ok (Some [], undef_macro ''G'' m1, (r1, es1, ws1))"
proof -
  let ?r = "add_system_path ''/'' new_resolver"
  let ?src = "''#ifndef G'' @ [NL] @ ''#define G'' @ [NL] @ ''x'' @ [NL] @ ''#endif''"
  have "case handle_include True guarded_files (Suc 0) ''a.h'' True new_table (?r, [], []) of
      Ok (_, m1, _) \<Rightarrow> is_defined m1 ''G'' | _ \<Rightarrow> False"
    by code_simp
  then obtain x m1 r1 es1 ws1 where
    run: "handle_include True guarded_files (Suc 0) ''a.h'' True new_table (?r, [], []) = Ok (x, m1, (r1, es1, ws1))"
    and g: "is_defined m1 ''G''"
    by (cases "handle_include True guarded_files (Suc 0) ''a.h'' True new_table (?r, [], [])") auto
  have ev: "inc_evolves guarded_files (?r, [], []) (r1, es1, ws1)" by (rule inclusion.evolves [OF run])
  have "resolve guarded_files ?r ''a.h'' True = Some ''/a.h''" by code_simp
  moreover have "fs_canonicalize guarded_files ''/a.h'' = Inr ''/a.h''" by (simp add: guarded_files_def once_files_def)
  moreover have "read_cached guarded_files ''/a.h'' ?r = Inr (?src, ?r\<lparr>file_cache := [''/a.h'' \<mapsto> ?src]\<rparr>)"
    by (simp add: read_cached_def guarded_files_def once_files_def add_system_path_def new_resolver_def)
  moreover have "guard_of_tokens (tokenize ?src) = Some ''G''" by code_simp
  moreover have "depth r1 < max_depth r1" "depth ?r < max_depth ?r"
    using ev by (auto simp: evolution add_system_path_def new_resolver_def)
  moreover have "same_config r1 r1" "grows guarded_files r1 r1" by (simp_all add: evolution)
  ultimately have "handle_include True guarded_files (Suc 0) ''a.h'' True (undef_macro ''G'' m1) (r1, es1, ws1) =
      Ok (Some [], undef_macro ''G'' m1, (r1, es1, ws1))"
    using run g by (intro guard_outlives_undef [where ?r1.0 = r1 and r = ?r and ?m1.0 = m1]) simp_all
  with run show ?thesis by auto
qed

text \<open>
  the search for a header.  The first existing candidate is chosen: for \<open>"..."\<close> the directory of the
  including file, then the local paths, then the system paths, each in the order they were added; for
  \<open><...>\<close> the system paths only.
\<close>
theorem resolve_first_candidate:
  "resolve fs r p system =
     find (fs_is_file fs) (map (\<lambda>dir. path_join dir p)
       ((if system then [] else (case current_dir r of Some d \<Rightarrow> [d] | None \<Rightarrow> []) @ local_paths r) @
        system_paths r))"
proof -
  have search: "search_dirs fs p dirs (find (fs_is_file fs) cs) =
      find (fs_is_file fs) (map (\<lambda>dir. path_join dir p) dirs @ cs)" for dirs cs
    by (induction dirs) simp_all
  from search [of _ "[]"] have sys: "search_dirs fs p dirs None = find (fs_is_file fs) (map (\<lambda>dir. path_join dir p) dirs)"
    for dirs by simp
  show ?thesis by (simp add: resolve_def sys search Let_def split: option.splits)
qed

end
