(* ===== verification/Ids.thy ===== *)
theory Ids
  imports Digits "HOL-Library.List_Lexorder" "HOL-Library.Char_ord"
begin

text \<open>
  Canonical encodings of the source contract: length-prefixed fields (\<open>src/contract/canonical.rs\<close>),
  digests and their hexadecimal spelling (\<open>fingerprint.rs\<close>, \<open>ids.rs\<close>), logical paths, identifiers of
  files, entities, declarations, children, macros and occurrences, and exact integers
  (\<open>exact_integer.rs\<close>).  Bytes are \<open>char\<close>s.  BLAKE3 (\<open>blake3::Hasher\<close>) and Unicode NFC
  normalization (\<open>unicode-normalization\<close>) are parameters: \<open>H context bytes\<close> is the 32-byte digest, and
  \<open>nfc\<close> maps a string to its normal form.
\<close>

subsection \<open>Length-prefixed fields\<close>

fun le_bytes :: "nat \<Rightarrow> nat \<Rightarrow> string" where
  "le_bytes 0 n = []"
| "le_bytes (Suc k) n = char_of (n mod 256) # le_bytes k (n div 256)"

definition u64_le :: "nat \<Rightarrow> string" where
  "u64_le n = le_bytes 8 n"

definition push_field :: "string \<Rightarrow> string \<Rightarrow> string" where
  "push_field out bytes = out @ u64_le (length bytes) @ bytes"

fun canonical_tokens_bytes :: "string list \<Rightarrow> string" where
  "canonical_tokens_bytes [] = []"
| "canonical_tokens_bytes (t # ts) = push_field [] t @ canonical_tokens_bytes ts"

text \<open>The bytes the hasher is fed; \<open>finish\<close> applies \<open>H\<close> to them under the context of \<open>new\<close>.\<close>

type_synonym hash = "string \<Rightarrow> string \<Rightarrow> string"

record canonical_hasher =
  ch_context :: string
  ch_bytes :: string

definition hasher_new :: "string \<Rightarrow> canonical_hasher" where
  "hasher_new context = \<lparr>ch_context = context, ch_bytes = []\<rparr>"

definition field :: "string \<Rightarrow> canonical_hasher \<Rightarrow> canonical_hasher" where
  "field bytes h = h\<lparr>ch_bytes := push_field (ch_bytes h) bytes\<rparr>"

definition finish :: "hash \<Rightarrow> canonical_hasher \<Rightarrow> string" where
  "finish H h = H (ch_context h) (ch_bytes h)"

text \<open>
  A reader (\<open>impl Read\<close>) holds the bytes still to come and the answers of its next calls.  \<open>Chunk k\<close>: at most
  \<open>Suc k\<close> bytes, so at least one unless the input is at its end; a call may return fewer bytes than were asked for.
  \<open>Fails e\<close>: the error \<open>e\<close> of the reader.  A reader without further answers returns what it is asked for.
\<close>

datatype read_answer = Chunk nat | Fails string

datatype io_error = UnexpectedEof | InvalidData | ReaderError string

type_synonym reader = "string \<times> read_answer list"

definition read_some :: "nat \<Rightarrow> reader \<Rightarrow> io_error + string \<times> reader" where
  "read_some wanted r =
     (case snd r of
        [] \<Rightarrow> Inr (take wanted (fst r), (drop wanted (fst r), []))
      | Chunk k # answers \<Rightarrow>
          Inr (take (min wanted (Suc k)) (fst r), (drop (min wanted (Suc k)) (fst r), answers))
      | Fails e # answers \<Rightarrow> Inl (ReaderError e))"

function read_loop :: "nat \<Rightarrow> reader \<Rightarrow> string \<Rightarrow> io_error + string \<times> reader" where
  "read_loop remaining r out =
     (if remaining = 0 then Inr (out, r)
      else
        case read_some (min remaining 16384) r of
          Inl e \<Rightarrow> Inl e
        | Inr (chunk, r') \<Rightarrow>
            if chunk = [] then Inl UnexpectedEof
            else read_loop (remaining - length chunk) r' (out @ chunk))"
  by pat_completeness auto
termination
  by (relation "measure fst") auto

declare read_loop.simps [simp del]

definition field_reader :: "nat \<Rightarrow> reader \<Rightarrow> canonical_hasher \<Rightarrow> io_error + canonical_hasher" where
  "field_reader len r h =
     (case read_loop len r (ch_bytes h @ u64_le len) of
        Inl e \<Rightarrow> Inl e
      | Inr (out, r') \<Rightarrow>
          (case read_some 1 r' of
             Inl e \<Rightarrow> Inl e
           | Inr (extra, _) \<Rightarrow> if extra \<noteq> [] then Inl InvalidData else Inr (h\<lparr>ch_bytes := out\<rparr>)))"

subsection \<open>Digests in hexadecimal\<close>

datatype fingerprint_error = Prefix string | Shape

definition hex_digit :: "nat \<Rightarrow> char" where
  "hex_digit n = ''0123456789abcdef'' ! n"

definition encode_hex :: "string \<Rightarrow> string" where
  "encode_hex bytes = concat (map (\<lambda>b. [hex_digit (byte b div 16), hex_digit (byte b mod 16)]) bytes)"

definition lower_hex :: "char \<Rightarrow> bool" where
  "lower_hex c \<longleftrightarrow> is_ascii_digit c \<or> (97 \<le> byte c \<and> byte c \<le> 102)"

definition decode_nibble :: "char \<Rightarrow> nat" where
  "decode_nibble c = (if is_ascii_digit c then byte c - 48 else byte c - 97 + 10)"

fun decode_pairs :: "string \<Rightarrow> string" where
  "decode_pairs (a # b # s) = char_of (decode_nibble a * 16 + decode_nibble b) # decode_pairs s"
| "decode_pairs _ = []"

definition decode_prefixed :: "string \<Rightarrow> string \<Rightarrow> fingerprint_error + string" where
  "decode_prefixed value p =
     (if \<not> starts_with value p then Inl (Prefix p)
      else
        let hex = drop (length p) value in
        if length hex \<noteq> 64 \<or> \<not> list_all lower_hex hex then Inl Shape
        else Inr (decode_pairs hex))"

datatype id_error = InvalidLogicalPath | EmptyName | ParameterRequiresOrdinal | InvalidEncoding fingerprint_error

definition parse_digest :: "string \<Rightarrow> string \<Rightarrow> id_error + string" where
  "parse_digest value p =
     (if \<not> starts_with value p then Inl (InvalidEncoding (Prefix p))
      else
        let hex = drop (length p) value in
        if length hex \<noteq> 64 \<or> \<not> list_all lower_hex hex then Inl (InvalidEncoding Shape)
        else Inr (decode_pairs hex))"

definition display_digest :: "string \<Rightarrow> string \<Rightarrow> string" where
  "display_digest p bytes = p @ encode_hex bytes"

subsection \<open>Identifier types\<close>

datatype file_id = FileId string
datatype entity_id = EntityId string
datatype declaration_id = DeclarationId string
datatype child_id = ChildId string
datatype macro_id = MacroId string
datatype occurrence_id = OccurrenceId string

datatype content_fingerprint = ContentFingerprint string
datatype target_fingerprint = TargetFingerprint string
datatype source_fingerprint = SourceFingerprint string

primrec file_bytes :: "file_id \<Rightarrow> string" where "file_bytes (FileId b) = b"
primrec entity_bytes :: "entity_id \<Rightarrow> string" where "entity_bytes (EntityId b) = b"
primrec declaration_bytes :: "declaration_id \<Rightarrow> string" where "declaration_bytes (DeclarationId b) = b"
primrec child_bytes :: "child_id \<Rightarrow> string" where "child_bytes (ChildId b) = b"
primrec macro_bytes :: "macro_id \<Rightarrow> string" where "macro_bytes (MacroId b) = b"
primrec occurrence_bytes :: "occurrence_id \<Rightarrow> string" where "occurrence_bytes (OccurrenceId b) = b"
primrec target_bytes :: "target_fingerprint \<Rightarrow> string" where "target_bytes (TargetFingerprint b) = b"
primrec content_bytes :: "content_fingerprint \<Rightarrow> string" where "content_bytes (ContentFingerprint b) = b"

text \<open>The derived \<open>Ord\<close> of the identifier types: by bytes.\<close>

instantiation file_id :: linorder
begin

definition less_eq_file_id :: "file_id \<Rightarrow> file_id \<Rightarrow> bool" where
  "a \<le> b \<longleftrightarrow> file_bytes a \<le> file_bytes b"

definition less_file_id :: "file_id \<Rightarrow> file_id \<Rightarrow> bool" where
  "a < b \<longleftrightarrow> file_bytes a < file_bytes b"

instance
proof
  fix x y :: file_id
  show "x \<le> y \<Longrightarrow> y \<le> x \<Longrightarrow> x = y"
    by (cases x; cases y) (simp add: less_eq_file_id_def)
qed (auto simp: less_eq_file_id_def less_file_id_def)

end

instantiation declaration_id :: linorder
begin

definition less_eq_declaration_id :: "declaration_id \<Rightarrow> declaration_id \<Rightarrow> bool" where
  "a \<le> b \<longleftrightarrow> declaration_bytes a \<le> declaration_bytes b"

definition less_declaration_id :: "declaration_id \<Rightarrow> declaration_id \<Rightarrow> bool" where
  "a < b \<longleftrightarrow> declaration_bytes a < declaration_bytes b"

instance
proof
  fix x y :: declaration_id
  show "x \<le> y \<Longrightarrow> y \<le> x \<Longrightarrow> x = y"
    by (cases x; cases y) (simp add: less_eq_declaration_id_def)
qed (auto simp: less_eq_declaration_id_def less_declaration_id_def)

end

instantiation macro_id :: linorder
begin

definition less_eq_macro_id :: "macro_id \<Rightarrow> macro_id \<Rightarrow> bool" where
  "a \<le> b \<longleftrightarrow> macro_bytes a \<le> macro_bytes b"

definition less_macro_id :: "macro_id \<Rightarrow> macro_id \<Rightarrow> bool" where
  "a < b \<longleftrightarrow> macro_bytes a < macro_bytes b"

instance
proof
  fix x y :: macro_id
  show "x \<le> y \<Longrightarrow> y \<le> x \<Longrightarrow> x = y"
    by (cases x; cases y) (simp add: less_eq_macro_id_def)
qed (auto simp: less_eq_macro_id_def less_macro_id_def)

end

instantiation occurrence_id :: linorder
begin

definition less_eq_occurrence_id :: "occurrence_id \<Rightarrow> occurrence_id \<Rightarrow> bool" where
  "a \<le> b \<longleftrightarrow> occurrence_bytes a \<le> occurrence_bytes b"

definition less_occurrence_id :: "occurrence_id \<Rightarrow> occurrence_id \<Rightarrow> bool" where
  "a < b \<longleftrightarrow> occurrence_bytes a < occurrence_bytes b"

instance
proof
  fix x y :: occurrence_id
  show "x \<le> y \<Longrightarrow> y \<le> x \<Longrightarrow> x = y"
    by (cases x; cases y) (simp add: less_eq_occurrence_id_def)
qed (auto simp: less_eq_occurrence_id_def less_occurrence_id_def)

end

instantiation target_fingerprint :: linorder
begin

definition less_eq_target_fingerprint :: "target_fingerprint \<Rightarrow> target_fingerprint \<Rightarrow> bool" where
  "a \<le> b \<longleftrightarrow> target_bytes a \<le> target_bytes b"

definition less_target_fingerprint :: "target_fingerprint \<Rightarrow> target_fingerprint \<Rightarrow> bool" where
  "a < b \<longleftrightarrow> target_bytes a < target_bytes b"

instance
proof
  fix x y :: target_fingerprint
  show "x \<le> y \<Longrightarrow> y \<le> x \<Longrightarrow> x = y"
    by (cases x; cases y) (simp add: less_eq_target_fingerprint_def)
qed (auto simp: less_eq_target_fingerprint_def less_target_fingerprint_def)

end

subsection \<open>Names, scopes, roles\<close>

datatype entity_namespace = Ordinary | Tag
datatype entity_scope = TranslationUnit | ScopeFile file_id | Owner declaration_id
datatype child_role = Parameter | Field | EnumVariant

fun namespace_label :: "entity_namespace \<Rightarrow> string" where
  "namespace_label Ordinary = ''ordinary''"
| "namespace_label Tag = ''tag''"

fun role_label :: "child_role \<Rightarrow> string" where
  "role_label Parameter = ''parameter''"
| "role_label Field = ''field''"
| "role_label EnumVariant = ''enum-variant''"

definition normalize_identifier :: "(string \<Rightarrow> string) \<Rightarrow> string \<Rightarrow> id_error + string" where
  "normalize_identifier nfc name = (if nfc name = [] then Inl EmptyName else Inr (nfc name))"

text \<open>\<open>path.split('/')\<close>.\<close>

fun split_slash :: "string \<Rightarrow> string list" where
  "split_slash [] = [[]]"
| "split_slash (c # s) =
     (if c = CHR ''/'' then [] # split_slash s
      else case split_slash s of w # ws \<Rightarrow> (c # w) # ws | [] \<Rightarrow> [[c]])"

fun join_slash :: "string list \<Rightarrow> string" where
  "join_slash [] = []"
| "join_slash [w] = w"
| "join_slash (w # ws) = w @ CHR ''/'' # join_slash ws"

fun path_components :: "string list \<Rightarrow> id_error + string list" where
  "path_components [] = Inr []"
| "path_components (c # cs) =
     (if c = [] \<or> c = ''.'' then path_components cs
      else if c = ''..'' then Inl InvalidLogicalPath
      else map_sum id (\<lambda>r. c # r) (path_components cs))"

definition normalize_logical_path :: "(string \<Rightarrow> string) \<Rightarrow> string \<Rightarrow> id_error + string" where
  "normalize_logical_path nfc path0 =
     (let path = map (\<lambda>c. if c = CHR 0x5C then CHR ''/'' else c) path0 in
      if path = [] \<or> hd path = CHR ''/'' \<or> CHR 0x00 \<in> set path then Inl InvalidLogicalPath
      else
        (case path_components (split_slash path) of
           Inl e \<Rightarrow> Inl e
         | Inr components \<Rightarrow>
             if components = [] \<or> CHR '':'' \<in> set (hd components) then Inl InvalidLogicalPath
             else Inr (nfc (join_slash components))))"

subsection \<open>Deriving identifiers\<close>

definition hash_scope :: "entity_scope \<Rightarrow> canonical_hasher \<Rightarrow> canonical_hasher" where
  "hash_scope scope h =
     (case scope of
        TranslationUnit \<Rightarrow> field ''translation-unit'' h
      | ScopeFile i \<Rightarrow> field (file_bytes i) (field ''file'' h)
      | Owner i \<Rightarrow> field (declaration_bytes i) (field ''owner'' h))"

definition file_id_hasher :: "string \<Rightarrow> canonical_hasher" where
  "file_id_hasher path = field path (hasher_new ''follang.parc.file-id.v1'')"

definition file_from_logical_path :: "hash \<Rightarrow> (string \<Rightarrow> string) \<Rightarrow> string \<Rightarrow> id_error + file_id" where
  "file_from_logical_path H nfc path =
     map_sum id (\<lambda>p. FileId (finish H (file_id_hasher p))) (normalize_logical_path nfc path)"

definition entity_named :: "hash \<Rightarrow> (string \<Rightarrow> string) \<Rightarrow> entity_namespace \<Rightarrow> entity_scope \<Rightarrow> string \<Rightarrow> id_error + entity_id" where
  "entity_named H nfc namespace scope name =
     map_sum id (\<lambda>n. EntityId (finish H
       (field n (hash_scope scope (field (namespace_label namespace)
         (hasher_new ''follang.parc.entity-id.v1''))))))
     (normalize_identifier nfc name)"

definition entity_anonymous :: "hash \<Rightarrow> entity_scope \<Rightarrow> string \<Rightarrow> nat \<Rightarrow> entity_id" where
  "entity_anonymous H scope token_digest ordinal =
     EntityId (finish H
       (field (u64_le ordinal) (field token_digest (hash_scope scope (field ''anonymous''
         (hasher_new ''follang.parc.entity-id.v1''))))))"

definition declaration_from_entity :: "entity_id \<Rightarrow> declaration_id" where
  "declaration_from_entity e = DeclarationId (entity_bytes e)"

definition declaration_entity :: "declaration_id \<Rightarrow> entity_id" where
  "declaration_entity d = EntityId (declaration_bytes d)"

definition macro_named :: "hash \<Rightarrow> (string \<Rightarrow> string) \<Rightarrow> file_id \<Rightarrow> string \<Rightarrow> id_error + macro_id" where
  "macro_named H nfc file name =
     map_sum id (\<lambda>n. MacroId (finish H
       (field n (field (file_bytes file) (hasher_new ''follang.parc.macro-id.v1'')))))
     (normalize_identifier nfc name)"

definition occurrence_hasher :: "string \<Rightarrow> file_id \<Rightarrow> string \<Rightarrow> nat \<Rightarrow> canonical_hasher" where
  "occurrence_hasher owner file tokens ordinal =
     field (u64_le ordinal) (field tokens (field (file_bytes file) (field owner
       (hasher_new ''follang.parc.occurrence-id.v1''))))"

definition occurrence_derive :: "hash \<Rightarrow> declaration_id \<Rightarrow> file_id \<Rightarrow> string \<Rightarrow> nat \<Rightarrow> occurrence_id" where
  "occurrence_derive H declaration file tokens ordinal =
     OccurrenceId (finish H (occurrence_hasher (declaration_bytes declaration) file tokens ordinal))"

definition occurrence_derive_macro :: "hash \<Rightarrow> macro_id \<Rightarrow> file_id \<Rightarrow> string \<Rightarrow> nat \<Rightarrow> occurrence_id" where
  "occurrence_derive_macro H m file tokens ordinal =
     OccurrenceId (finish H (occurrence_hasher (macro_bytes m) file tokens ordinal))"

definition child_derive :: "hash \<Rightarrow> declaration_id \<Rightarrow> child_role \<Rightarrow> string \<Rightarrow> nat \<Rightarrow> child_id" where
  "child_derive H parent role key ordinal =
     ChildId (finish H
       (field (u64_le ordinal) (field key (field (role_label role) (field (declaration_bytes parent)
         (hasher_new ''follang.parc.child-id.v1''))))))"

definition child_parameter :: "hash \<Rightarrow> declaration_id \<Rightarrow> nat \<Rightarrow> child_id" where
  "child_parameter H parent ordinal = child_derive H parent Parameter ''semantic-ordinal'' ordinal"

definition child_named :: "hash \<Rightarrow> (string \<Rightarrow> string) \<Rightarrow> declaration_id \<Rightarrow> child_role \<Rightarrow> string \<Rightarrow> id_error + child_id" where
  "child_named H nfc parent role name =
     (if role = Parameter then Inl ParameterRequiresOrdinal
      else map_sum id (\<lambda>n. child_derive H parent role n 0) (normalize_identifier nfc name))"

definition child_anonymous :: "hash \<Rightarrow> declaration_id \<Rightarrow> child_role \<Rightarrow> string \<Rightarrow> nat \<Rightarrow> child_id" where
  "child_anonymous H parent role tokens ordinal = child_derive H parent role tokens ordinal"

definition derive_fingerprint :: "hash \<Rightarrow> string \<Rightarrow> string \<Rightarrow> string" where
  "derive_fingerprint H context bytes = finish H (field bytes (hasher_new context))"

definition content_from_content :: "hash \<Rightarrow> string \<Rightarrow> content_fingerprint" where
  "content_from_content H content =
     ContentFingerprint (derive_fingerprint H ''follang.parc.content-fingerprint.v1'' content)"

definition content_from_reader :: "hash \<Rightarrow> reader \<Rightarrow> nat \<Rightarrow> io_error + content_fingerprint" where
  "content_from_reader H r len =
     map_sum id (\<lambda>h. ContentFingerprint (finish H h))
       (field_reader len r (hasher_new ''follang.parc.content-fingerprint.v1''))"

subsection \<open>Exact integers\<close>

datatype exact_integer = SignedInt int | UnsignedInt int

fun as_signed :: "exact_integer \<Rightarrow> int option" where
  "as_signed (SignedInt v) = Some v"
| "as_signed (UnsignedInt v) = None"

fun as_unsigned :: "exact_integer \<Rightarrow> int option" where
  "as_unsigned (UnsignedInt v) = Some v"
| "as_unsigned (SignedInt v) = None"

definition validate_decimal :: "string \<Rightarrow> bool \<Rightarrow> bool" where
  "validate_decimal value signed \<longleftrightarrow>
     \<not> (value = [] \<or> hd value = CHR ''+'' \<or> (hd value = CHR ''0'' \<and> length value \<noteq> 1) \<or>
        starts_with value ''-0'') \<and>
     (is_ascii_digit (hd value) \<or> signed \<and> hd value = CHR ''-'') \<and> list_all is_ascii_digit (tl value)"

text \<open>\<open>to_string\<close> of an integer.\<close>

definition decimal :: "int \<Rightarrow> string" where
  "decimal v = (if v < 0 then CHR ''-'' # print_digits 10 (nat (- v)) else print_digits 10 (nat v))"

text \<open>
  \<open>serialize\<close> and \<open>deserialize\<close> of the two \<open>*_decimal\<close> modules: the string that is written, and the value
  or \<open>None\<close> (an error) that is read from a string.
\<close>

definition deserialize_signed :: "string \<Rightarrow> int option" where
  "deserialize_signed value = (if validate_decimal value True then parse_i128 10 value else None)"

definition deserialize_unsigned :: "string \<Rightarrow> int option" where
  "deserialize_unsigned value =
     (if validate_decimal value False then from_str_radix 0 (2 ^ 128) 10 value else None)"

subsection \<open>Framing\<close>

lemma length_le_bytes [simp]: "length (le_bytes k n) = k"
  by (induction k arbitrary: n) auto

lemma length_u64_le [simp]: "length (u64_le n) = 8"
  by (simp add: u64_le_def)

lemma le_bytes_inj: "n < 256 ^ k \<Longrightarrow> m < 256 ^ k \<Longrightarrow> le_bytes k n = le_bytes k m \<Longrightarrow> n = m"
proof (induction k arbitrary: n m)
  case (Suc k)
  have "(char_of (n mod 256) :: char) = char_of (m mod 256)" "le_bytes k (n div 256) = le_bytes k (m div 256)"
    using Suc.prems(3) by simp_all
  then have "n mod 256 = m mod 256"
    by (metis char_of_eq_iff mod_mod_trivial of_char_of)
  moreover have "n div 256 = m div 256"
    using Suc by (auto simp: less_mult_imp_div_less mult.commute)
  ultimately show ?case by (metis div_mult_mod_eq)
qed simp

lemma u64_le_inj: "n < 2 ^ 64 \<Longrightarrow> m < 2 ^ 64 \<Longrightarrow> u64_le n = u64_le m \<Longrightarrow> n = m"
  using le_bytes_inj [of n 8 m] by (simp add: u64_le_def)

text \<open>A field can be told from what follows it.\<close>

definition short :: "string \<Rightarrow> bool" where
  "short s \<longleftrightarrow> length s < 2 ^ 64"

lemma push_field_inj:
  assumes "short a" "short b" "push_field [] a @ x = push_field [] b @ y"
  shows "a = b \<and> x = y"
proof -
  have "u64_le (length a) @ a @ x = u64_le (length b) @ b @ y"
    using assms(3) by (simp add: push_field_def)
  then have "u64_le (length a) = u64_le (length b)" and rest: "a @ x = b @ y"
    by (simp_all add: append_eq_append_conv)
  then have "length a = length b"
    using assms(1,2) u64_le_inj unfolding short_def by blast
  with rest show ?thesis by simp
qed

lemma push_field_append: "push_field out a = out @ push_field [] a"
  by (simp add: push_field_def)

lemma push_field_nonempty [simp]: "push_field out a \<noteq> []" "[] \<noteq> push_field out a @ x"
  using length_u64_le [of "length a"] by (auto simp: push_field_def simp del: length_u64_le)

lemma tokens_bytes_inj:
  "list_all short ts \<Longrightarrow> list_all short us \<Longrightarrow> canonical_tokens_bytes ts = canonical_tokens_bytes us \<Longrightarrow> ts = us"
proof (induction ts arbitrary: us)
  case Nil
  then show ?case by (cases us) simp_all
next
  case (Cons t ts)
  then obtain u us' where us: "us = u # us'" by (cases us) simp_all
  have "t = u \<and> canonical_tokens_bytes ts = canonical_tokens_bytes us'"
    using Cons.prems us by (intro push_field_inj) auto
  with Cons us show ?case by auto
qed

text \<open>The bytes a hasher has been fed, as a list of fields.\<close>

lemma field_simps [simp]:
  "ch_context (field b h) = ch_context h" "ch_bytes (field b h) = push_field (ch_bytes h) b"
  "ch_context (hasher_new c) = c" "ch_bytes (hasher_new c) = []"
  by (simp_all add: field_def hasher_new_def)

definition scope_fields :: "entity_scope \<Rightarrow> string list" where
  "scope_fields scope =
     (case scope of TranslationUnit \<Rightarrow> [''translation-unit'']
      | ScopeFile i \<Rightarrow> [''file'', file_bytes i] | Owner i \<Rightarrow> [''owner'', declaration_bytes i])"

lemma canonical_append: "canonical_tokens_bytes (xs @ ys) = canonical_tokens_bytes xs @ canonical_tokens_bytes ys"
  by (induction xs) simp_all

lemma hash_scope_bytes:
  "ch_bytes (hash_scope scope h) = ch_bytes h @ canonical_tokens_bytes (scope_fields scope)"
  "ch_context (hash_scope scope h) = ch_context h"
  by (cases scope; simp add: hash_scope_def scope_fields_def push_field_def)+

definition named_fields :: "entity_namespace \<Rightarrow> entity_scope \<Rightarrow> string \<Rightarrow> string list" where
  "named_fields namespace scope n = namespace_label namespace # scope_fields scope @ [n]"

definition anonymous_fields :: "entity_scope \<Rightarrow> string \<Rightarrow> nat \<Rightarrow> string list" where
  "anonymous_fields scope token_digest ordinal = ''anonymous'' # scope_fields scope @ [token_digest, u64_le ordinal]"

lemma entity_preimages:
  "entity_named H nfc namespace scope name =
     map_sum id (\<lambda>n. EntityId (H ''follang.parc.entity-id.v1'' (canonical_tokens_bytes (named_fields namespace scope n))))
       (normalize_identifier nfc name)"
  "entity_anonymous H scope td ordinal =
     EntityId (H ''follang.parc.entity-id.v1'' (canonical_tokens_bytes (anonymous_fields scope td ordinal)))"
  by (simp_all add: entity_named_def entity_anonymous_def finish_def hash_scope_bytes named_fields_def
      anonymous_fields_def canonical_append push_field_def)

lemma file_bytes_inj: "file_bytes i = file_bytes j \<longleftrightarrow> i = j"
  by (cases i; cases j) simp

lemma declaration_bytes_inj: "declaration_bytes i = declaration_bytes j \<longleftrightarrow> i = j"
  by (cases i; cases j) simp

lemma scope_fields_inj:
  "scope_fields s @ [n] = scope_fields s' @ [n'] \<Longrightarrow> s = s' \<and> n = n'"
  using file_bytes_inj declaration_bytes_inj
  by (cases s; cases s'; simp add: scope_fields_def)

lemma named_fields_inj:
  "named_fields ns s n = named_fields ns' s' n' \<Longrightarrow> ns = ns' \<and> s = s' \<and> n = n'"
  using scope_fields_inj [of s n s' n']
  by (cases ns; cases ns') (auto simp: named_fields_def)

subsection \<open>Hexadecimal\<close>

lemma nibble_digit: "n < 16 \<Longrightarrow> lower_hex (hex_digit n) \<and> decode_nibble (hex_digit n) = n"
proof -
  have "list_all (\<lambda>n. lower_hex (hex_digit n) \<and> decode_nibble (hex_digit n) = n) [0..<16]" by code_simp
  then show "n < 16 \<Longrightarrow> lower_hex (hex_digit n) \<and> decode_nibble (hex_digit n) = n"
    by (simp only: list_all_iff set_upt) auto
qed

lemma digit_nibble:
  assumes "lower_hex c"
  shows "decode_nibble c < 16" "hex_digit (decode_nibble c) = c"
proof -
  have all: "list_all (\<lambda>c. decode_nibble c < 16 \<and> hex_digit (decode_nibble c) = c) ''0123456789abcdef''"
    by code_simp
  have "c \<in> set (map char_of ([48..<58] @ [97..<103::nat]))"
  proof -
    have "byte c \<in> set ([48..<58] @ [97..<103])"
      using assms unfolding lower_hex_def is_ascii_digit_def set_append set_upt by auto
    then have "char_of (byte c) \<in> char_of ` set ([48..<58] @ [97..<103::nat])" by (rule imageI)
    then show ?thesis by (simp only: char_of_char set_map)
  qed
  also have "map char_of ([48..<58] @ [97..<103::nat]) = ''0123456789abcdef''" by code_simp
  finally have "decode_nibble c < 16 \<and> hex_digit (decode_nibble c) = c"
    using all unfolding list_all_iff by blast
  then show "decode_nibble c < 16" "hex_digit (decode_nibble c) = c" by auto
qed

lemma encode_hex_simps [simp]:
  "encode_hex [] = []"
  "encode_hex (b # bs) = hex_digit (byte b div 16) # hex_digit (byte b mod 16) # encode_hex bs"
  by (simp_all add: encode_hex_def)

lemma byte_lt: "byte (c :: char) < 256"
  by simp

lemma decode_encode:
  "decode_pairs (encode_hex bytes) = bytes" "list_all lower_hex (encode_hex bytes)"
  "length (encode_hex bytes) = 2 * length bytes"
proof -
  have n: "byte b div 16 < 16" "byte b mod 16 < 16" for b :: char
    using byte_lt [of b] by (auto simp: less_mult_imp_div_less)
  have "char_of (byte b div 16 * 16 + byte b mod 16) = b" for b :: char
    by (simp add: div_mult_mod_eq)
  then show "decode_pairs (encode_hex bytes) = bytes" by (induction bytes) (simp_all add: nibble_digit n)
  show "list_all lower_hex (encode_hex bytes)" by (induction bytes) (simp_all add: nibble_digit n)
  show "length (encode_hex bytes) = 2 * length bytes" by (induction bytes) simp_all
qed

lemma encode_decode:
  "list_all lower_hex hex \<Longrightarrow> even (length hex) \<Longrightarrow> encode_hex (decode_pairs hex) = hex"
proof (induction hex rule: decode_pairs.induct)
  case (1 a b s)
  have d: "decode_nibble a < 16" "decode_nibble b < 16" using 1 digit_nibble by auto
  then have "(decode_nibble a * 16 + decode_nibble b) mod 256 = decode_nibble a * 16 + decode_nibble b"
    "(decode_nibble a * 16 + decode_nibble b) div 16 = decode_nibble a"
    "(decode_nibble a * 16 + decode_nibble b) mod 16 = decode_nibble b"
    by simp_all
  then show ?case using 1 digit_nibble by simp
qed simp_all

subsection \<open>Decimal transport\<close>

lemma decimal_shape:
  "validate_decimal (decimal v) True" "0 \<le> v \<Longrightarrow> validate_decimal (decimal v) False"
proof -
  have pos: "validate_decimal (print_digits 10 n) b" for n b
  proof -
    have "list_all is_ascii_digit (print_digits 10 n)" by (rule print_digits_ascii)
    then show ?thesis
      using print_digits_canonical [of n]
      by (cases "print_digits 10 n") (auto simp: validate_decimal_def starts_with_def is_ascii_digit_def)
  qed
  have neg: "validate_decimal (CHR ''-'' # print_digits 10 n) True" if "n \<noteq> 0" for n
  proof -
    have "list_all is_ascii_digit (print_digits 10 n)" by (rule print_digits_ascii)
    then show ?thesis
      using print_digits_canonical [of n] that
      by (cases "print_digits 10 n") (auto simp: validate_decimal_def starts_with_def)
  qed
  show "validate_decimal (decimal v) True" using pos neg by (simp add: decimal_def)
  show "0 \<le> v \<Longrightarrow> validate_decimal (decimal v) False" using pos by (simp add: decimal_def)
qed

lemma decimal_parse:
  assumes "lo \<le> v" "v < hi" "lo = 0 \<or> lo < 0"
  shows "from_str_radix lo hi 10 (decimal v) = Some v"
proof -
  have nat: "digits_value 10 0 (print_digits 10 n) = Some (int n)" for n
    by (rule print_digits_value) simp_all
  have "hd (print_digits 10 n) \<notin> {CHR ''-'', CHR ''+''}" for n
    using print_digits_ascii [of n] by (cases "print_digits 10 n") (auto simp: is_ascii_digit_def)
  then show ?thesis
    using assms nat by (auto simp: from_str_radix_def decimal_def Let_def)
qed

lemma decimal_unique:
  assumes "validate_decimal s signed" "from_str_radix lo hi 10 s = Some v" "signed \<longleftrightarrow> lo < 0"
  shows "s = decimal v"
proof -
  obtain c r where s: "s = c # r" using assms(1) by (cases s) (auto simp: validate_decimal_def)
  show ?thesis
  proof (cases "c = CHR ''-''")
    case False
    then have "list_all is_ascii_digit s" "hd s = CHR ''0'' \<longrightarrow> length s = 1"
      using assms(1) s by (auto simp: validate_decimal_def)
    then obtain n where n: "digits_value 10 0 s = Some (int n)" "print_digits 10 n = s"
      using print_read [of s] s by auto
    have "c \<noteq> CHR ''+''" using assms(1) s by (auto simp: validate_decimal_def)
    then have "v = int n"
      using assms(2) False n s by (auto simp: from_str_radix_def Let_def split: if_splits)
    then show ?thesis using n by (simp add: decimal_def)
  next
    case True
    then have r: "signed" "list_all is_ascii_digit r" "r \<noteq> [] \<Longrightarrow> hd r \<noteq> CHR ''0''"
      using assms(1) s by (auto simp: validate_decimal_def starts_with_def is_ascii_digit_def neq_Nil_conv)
    have "r \<noteq> []" using assms(2,3) True s r(1) by (auto simp: from_str_radix_def Let_def)
    then obtain n where n: "digits_value 10 0 r = Some (int n)" "print_digits 10 n = r"
      using print_read [of r] r by auto
    have "hd (print_digits 10 0) = CHR ''0''" by code_simp
    then have "n \<noteq> 0" using n(2) r(3) \<open>r \<noteq> []\<close> by metis
    moreover have "v = - int n"
      using assms(2,3) True n s r(1) \<open>r \<noteq> []\<close> by (auto simp: from_str_radix_def Let_def split: if_splits)
    ultimately show ?thesis using n True s by (simp add: decimal_def)
  qed
qed

subsection \<open>Logical paths\<close>

lemma split_slash_plain: "w \<in> set (split_slash s) \<Longrightarrow> CHR ''/'' \<notin> set w \<and> set w \<subseteq> set s"
  by (induction s arbitrary: w) (fastforce split: list.splits if_splits)+

lemma split_slash_nonempty [simp]: "split_slash s \<noteq> []"
  by (induction s) (auto split: list.splits)

definition plain_component :: "string \<Rightarrow> bool" where
  "plain_component w \<longleftrightarrow> w \<noteq> [] \<and> w \<noteq> ''.'' \<and> w \<noteq> ''..'' \<and> set w \<inter> set [CHR ''/'', CHR 0x5C, CHR 0x00] = {}"

lemma path_components_filter:
  "path_components ws = Inr cs \<Longrightarrow> cs = filter (\<lambda>w. w \<noteq> [] \<and> w \<noteq> ''.'') ws \<and> ''..'' \<notin> set ws"
  by (induction ws arbitrary: cs) (auto split: if_splits sum.splits simp: map_sum_def)

lemma path_components_plain:
  "list_all plain_component cs \<Longrightarrow> path_components cs = Inr cs"
  by (induction cs) (auto simp: plain_component_def)

lemma split_join:
  "list_all plain_component cs \<Longrightarrow> cs \<noteq> [] \<Longrightarrow> split_slash (join_slash cs) = cs"
proof (induction cs rule: join_slash.induct)
  case (2 w)
  have "CHR ''/'' \<notin> set w \<Longrightarrow> split_slash w = [w]" by (induction w) auto
  then show ?case using 2 by (simp add: plain_component_def)
next
  case (3 w v ws)
  have "CHR ''/'' \<notin> set w \<Longrightarrow> split_slash (w @ CHR ''/'' # s) = w # split_slash s" for s
    by (induction w) auto
  then show ?case using 3 by (simp add: plain_component_def)
qed simp

lemma join_slash_set: "set (join_slash cs) \<subseteq> insert (CHR ''/'') (\<Union>(set ` set cs))"
  by (induction cs rule: join_slash.induct) auto

lemma normalized_path:
  assumes "normalize_logical_path nfc p = Inr q"
  obtains cs where "q = nfc (join_slash cs)" "cs \<noteq> []" "list_all plain_component cs" "CHR '':'' \<notin> set (hd cs)"
    "set (join_slash cs) \<subseteq> insert (CHR ''/'') (set p)"
proof -
  let ?p = "map (\<lambda>c. if c = CHR 0x5C then CHR ''/'' else c) p"
  obtain cs where comps: "path_components (split_slash ?p) = Inr cs"
    and cs: "cs \<noteq> []" "CHR '':'' \<notin> set (hd cs)" "q = nfc (join_slash cs)" and nul: "CHR 0x00 \<notin> set ?p"
    using assms by (auto simp: normalize_logical_path_def Let_def split: if_splits sum.splits)
  have chars: "w \<in> set cs \<Longrightarrow> CHR ''/'' \<notin> set w \<and> set w \<subseteq> set ?p" for w
    using path_components_filter [OF comps] split_slash_plain [of w ?p] by auto
  have "CHR 0x5C \<notin> set ?p" "set ?p \<subseteq> insert (CHR ''/'') (set p)" by auto
  moreover have "list_all plain_component cs"
    using path_components_filter [OF comps] chars nul calculation(1)
    by (fastforce simp: plain_component_def list_all_iff)
  moreover have "set (join_slash cs) \<subseteq> insert (CHR ''/'') (set p)"
    using join_slash_set [of cs] chars calculation(2) by blast
  ultimately show ?thesis using that cs by blast
qed

subsection \<open>Properties\<close>

lemma entity_named_bytes:
  "entity_named H nfc ns scope name = Inr i \<Longrightarrow>
     i = EntityId (H ''follang.parc.entity-id.v1'' (canonical_tokens_bytes (named_fields ns scope (nfc name))))"
  by (auto simp: entity_preimages normalize_identifier_def split: if_splits)

lemma short_labels [simp]:
  "short (namespace_label ns)" "short ''anonymous''" "short (u64_le k)"
  by (cases ns; simp add: short_def)+

text \<open>
  C20: named entities are identified by what they are.  If two named entities get the same identifier, then
  they have the same namespace, the same scope and the same normalized name, or the hash function
  collides on the two byte strings that encode them, which then differ: the length-prefixed encoding
  of the hashed fields leaves nothing ambiguous.
\<close>
theorem entity_identity:
  assumes "entity_named H nfc ns scope name = Inr i" "entity_named H nfc ns' scope' name' = Inr i"
    and "list_all short (nfc name # nfc name' # scope_fields scope @ scope_fields scope')"
  shows "ns = ns' \<and> scope = scope' \<and> nfc name = nfc name' \<or>
    (let x = canonical_tokens_bytes (named_fields ns scope (nfc name));
         y = canonical_tokens_bytes (named_fields ns' scope' (nfc name'))
     in x \<noteq> y \<and> H ''follang.parc.entity-id.v1'' x = H ''follang.parc.entity-id.v1'' y)"
proof (cases "canonical_tokens_bytes (named_fields ns scope (nfc name)) =
    canonical_tokens_bytes (named_fields ns' scope' (nfc name'))")
  case True
  then have "named_fields ns scope (nfc name) = named_fields ns' scope' (nfc name')"
    using assms(3) by (intro tokens_bytes_inj) (auto simp: named_fields_def)
  then show ?thesis using named_fields_inj by blast
next
  case False
  then show ?thesis
    using entity_named_bytes [OF assms(1)] entity_named_bytes [OF assms(2)] by (simp add: Let_def)
qed

theorem entity_identity_witness:
  "entity_named (\<lambda>c b. b) (\<lambda>s. s) Ordinary TranslationUnit ''f'' \<noteq>
   entity_named (\<lambda>c b. b) (\<lambda>s. s) Tag TranslationUnit ''f''"
proof
  assume eq: "entity_named (\<lambda>c b. b) (\<lambda>s. s) Ordinary TranslationUnit ''f'' =
    entity_named (\<lambda>c b. b) (\<lambda>s. s) Tag TranslationUnit ''f''"
  obtain i where i: "entity_named (\<lambda>c b. b) (\<lambda>s. s) Ordinary TranslationUnit ''f'' = Inr i"
    by (simp add: entity_named_def normalize_identifier_def)
  have "list_all short (''f'' # ''f'' # scope_fields TranslationUnit @ scope_fields TranslationUnit)"
    by (simp add: scope_fields_def short_def)
  from entity_identity [OF i _ this, of Tag] eq i show False by (simp add: Let_def)
qed

text \<open>
  C24: digests survive their spelling.  The string of an identifier or fingerprint with prefix \<open>p\<close> is parsed
  to its 32 bytes, and only that string is: whatever \<open>parse_digest\<close> accepts is the spelling of what
  it returns.
\<close>
theorem digest_roundtrip:
  "parse_digest value p = Inr d \<longleftrightarrow> length d = 32 \<and> value = display_digest p d"
proof
  assume d: "parse_digest value p = Inr d"
  let ?hex = "drop (length p) value"
  have hex: "length ?hex = 64" "list_all lower_hex ?hex" "decode_pairs ?hex = d" "take (length p) value = p"
    using d by (auto simp: parse_digest_def Let_def starts_with_def split: if_splits)
  have "even (length ?hex)" unfolding hex(1) by simp
  then have e: "encode_hex d = ?hex" using encode_decode [OF hex(2)] unfolding hex(3) by blast
  have "length d = 32" using hex(1) decode_encode(3) [of d] unfolding e by linarith
  moreover have "value = display_digest p d"
    using append_take_drop_id [of "length p" "value"] unfolding display_digest_def e hex(4) by (rule sym)
  ultimately show "length d = 32 \<and> value = display_digest p d" by blast
next
  assume "length d = 32 \<and> value = display_digest p d"
  then show "parse_digest value p = Inr d"
    using decode_encode [of d] by (simp add: parse_digest_def display_digest_def starts_with_def)
qed

text \<open>
  C23: exact integers survive their transport.  A string is accepted as a signed (unsigned) decimal exactly
  if it is the spelling of a value of \<open>i128\<close> (\<open>u128\<close>), and the value read is that one: nothing is
  rounded, and no value has two spellings.
\<close>
theorem exact_integer_roundtrip:
  "(deserialize_signed s = Some v \<longleftrightarrow> s = decimal v \<and> - (2 ^ 127) \<le> v \<and> v < 2 ^ 127) \<and>
   (deserialize_unsigned s = Some v \<longleftrightarrow> s = decimal v \<and> 0 \<le> v \<and> v < 2 ^ 128)"
proof (intro conjI iffI)
  assume "deserialize_signed s = Some v"
  then have v: "validate_decimal s True" "from_str_radix (- (2 ^ 127)) (2 ^ 127) 10 s = Some v"
    by (auto simp: deserialize_signed_def parse_i128_def split: if_splits)
  show "s = decimal v" by (rule decimal_unique [OF v]) simp
  show "- (2 ^ 127) \<le> v" "v < 2 ^ 127" using from_str_radix_bounds [OF v(2)] by auto
next
  assume v: "s = decimal v \<and> - (2 ^ 127) \<le> v \<and> v < 2 ^ 127"
  then have "from_str_radix (- (2 ^ 127)) (2 ^ 127) 10 s = Some v"
    using decimal_parse [of "- (2 ^ 127)" v "2 ^ 127"] by simp
  then show "deserialize_signed s = Some v"
    using v decimal_shape(1) by (simp add: deserialize_signed_def parse_i128_def)
next
  assume "deserialize_unsigned s = Some v"
  then have v: "validate_decimal s False" "from_str_radix 0 (2 ^ 128) 10 s = Some v"
    by (auto simp: deserialize_unsigned_def split: if_splits)
  show "s = decimal v" by (rule decimal_unique [OF v]) simp
  show "0 \<le> v" "v < 2 ^ 128" using from_str_radix_bounds [OF v(2)] by auto
next
  assume v: "s = decimal v \<and> 0 \<le> v \<and> v < 2 ^ 128"
  then have "from_str_radix 0 (2 ^ 128) 10 s = Some v"
    using decimal_parse [of 0 v "2 ^ 128"] by simp
  then show "deserialize_unsigned s = Some v"
    using v decimal_shape(2) by (simp add: deserialize_unsigned_def)
qed

lemma join_slash_simps:
  "cs \<noteq> [] \<Longrightarrow> list_all plain_component cs \<Longrightarrow> join_slash cs \<noteq> [] \<and> hd (join_slash cs) = hd (hd cs)"
  by (cases cs rule: join_slash.cases) (auto simp: plain_component_def hd_append)

lemma normalize_plain:
  assumes "cs \<noteq> []" "list_all plain_component cs" "CHR '':'' \<notin> set (hd cs)"
  shows "normalize_logical_path nfc (join_slash cs) = Inr (nfc (join_slash cs))"
proof -
  have chars: "set (join_slash cs) \<inter> set [CHR 0x5C, CHR 0x00] = {}"
    using assms(2) join_slash_set [of cs] by (auto simp: plain_component_def list_all_iff)
  then have "map (\<lambda>c. if c = CHR 0x5C then CHR ''/'' else c) (join_slash cs) = join_slash cs"
    by (intro map_idI) auto
  moreover have "hd (hd cs) \<noteq> CHR ''/''"
    using assms(1,2) by (cases cs; cases "hd cs") (auto simp: plain_component_def)
  ultimately show ?thesis
    using chars assms join_slash_simps [OF assms(1,2)] split_join [OF assms(2,1)] path_components_plain [OF assms(2)]
    by (simp add: normalize_logical_path_def)
qed

text \<open>
  What the paths rely on of Unicode normalization: it is idempotent; the slash neither combines with its
  neighbours nor comes out of other characters, so that components are normalized one by one; and no component becomes
  empty, \<open>.\<close> or \<open>..\<close>, or receives a separator, a zero byte or a colon that it did not have.
\<close>

definition path_preserving :: "(string \<Rightarrow> string) \<Rightarrow> bool" where
  "path_preserving nfc \<longleftrightarrow>
     (\<forall>s. nfc (nfc s) = nfc s) \<and>
     (\<forall>cs. list_all plain_component cs \<longrightarrow> nfc (join_slash cs) = join_slash (map nfc cs)) \<and>
     (\<forall>w. plain_component w \<longrightarrow> plain_component (nfc w) \<and> (CHR '':'' \<notin> set w \<longrightarrow> CHR '':'' \<notin> set (nfc w)))"

text \<open>
  C27: a logical path is a relative path in normal form.  Whatever \<open>normalize_logical_path\<close> returns consists of
  at least one component, joined by slashes; no component is empty, \<open>.\<close> or \<open>..\<close>, or contains a
  separator or a zero byte, and the first has no colon (a drive letter); the path is in Unicode normal form, and
  normalizing it again gives the path itself.
\<close>
theorem logical_path_normal:
  assumes "normalize_logical_path nfc p = Inr q" "path_preserving nfc"
  shows "(\<exists>cs. q = join_slash cs \<and> cs \<noteq> [] \<and> list_all plain_component cs \<and> CHR '':'' \<notin> set (hd cs)) \<and>
    nfc q = q \<and> normalize_logical_path nfc q = Inr q"
proof -
  obtain cs where cs: "q = nfc (join_slash cs)" "cs \<noteq> []" "list_all plain_component cs" "CHR '':'' \<notin> set (hd cs)"
    using assms(1) by (rule normalized_path)
  have plain: "list_all plain_component (map nfc cs)" "CHR '':'' \<notin> set (hd (map nfc cs))"
    using assms(2) cs(2-4) by (cases cs; auto simp: path_preserving_def list_all_iff)+
  have q: "q = join_slash (map nfc cs)" "nfc q = q"
    using assms(2) cs(1,3) unfolding path_preserving_def by metis+
  have "normalize_logical_path nfc q = Inr q"
    using normalize_plain [of "map nfc cs" nfc] cs(2) plain q by simp
  then show ?thesis using q plain cs(2) by blast
qed

theorem logical_path_normal_witness:
  "normalize_logical_path (\<lambda>s. s) ''a/b.h'' = Inr ''a/b.h'' \<and>
   (\<exists>cs. ''a/b.h'' = join_slash cs \<and> list_all plain_component cs)"
proof -
  have "normalize_logical_path (\<lambda>s. s) ''./a//b.h'' = Inr ''a/b.h''" by code_simp
  moreover have "path_preserving (\<lambda>s. s)" by (simp add: path_preserving_def)
  ultimately show ?thesis using logical_path_normal by blast
qed

lemma read_some_result:
  "case read_some wanted r of
     Inl e \<Rightarrow> (\<exists>x. e = ReaderError x \<and> Fails x \<in> set (snd r))
   | Inr (c, r') \<Rightarrow> fst r = c @ fst r' \<and> length c \<le> wanted \<and> (c = [] \<longrightarrow> wanted = 0 \<or> fst r = []) \<and>
       set (snd r') \<subseteq> set (snd r)"
  by (auto simp: read_some_def min_def split: list.splits read_answer.splits)

lemma read_loop_result:
  "case read_loop remaining r out of
     Inl e \<Rightarrow> e = UnexpectedEof \<and> length (fst r) < remaining \<or> (\<exists>x. e = ReaderError x \<and> Fails x \<in> set (snd r))
   | Inr (out', r') \<Rightarrow> out' @ fst r' = out @ fst r \<and> length (fst r) = remaining + length (fst r') \<and>
       set (snd r') \<subseteq> set (snd r)"
proof (induction remaining r out rule: read_loop.induct)
  case (1 remaining r out)
  show ?case
  proof (cases "remaining = 0")
    case False
    note step = read_some_result [where wanted = "min remaining 16384" and r = r]
    show ?thesis
    proof (cases "read_some (min remaining 16384) r")
      case (Inl e)
      then show ?thesis using step False by (subst read_loop.simps) simp
    next
      case (Inr res)
      obtain c r' where res: "res = (c, r')" by (rule prod.exhaust)
      show ?thesis
      proof (cases "c = []")
        case True
        then have "fst r = []" using step Inr res False by auto
        then show ?thesis using True Inr res False by (subst read_loop.simps) simp
      next
        case nonempty: False
        show ?thesis
          using "1.IH" [OF False Inr res [symmetric] nonempty] step Inr res False nonempty
          by (subst read_loop.simps) (auto split: sum.splits)
      qed
    qed
  qed (simp add: read_loop.simps)
qed

text \<open>
  C26: a content that is read has the fingerprint of the content.  However the reads are cut into chunks, a
  reader that holds exactly the announced number of bytes gives the fingerprint of those bytes in
  memory; one with fewer bytes fails as truncated, and one with more as changed.  The only other outcome is an error of the reader
  itself, which is passed on: no fingerprint is returned for anything but the whole content.
\<close>
theorem content_fingerprint_reader:
  "content_from_reader H (content, answers) len =
      (if length content < len then Inl UnexpectedEof
       else if len < length content then Inl InvalidData
       else Inr (content_from_content H content)) \<or>
   (\<exists>e. Fails e \<in> set answers \<and> content_from_reader H (content, answers) len = Inl (ReaderError e))"
proof -
  note run = read_loop_result [where remaining = len and r = "(content, answers)" and
    out = "ch_bytes (hasher_new ''follang.parc.content-fingerprint.v1'') @ u64_le len"]
  show ?thesis
  proof (cases "read_loop len (content, answers) (ch_bytes (hasher_new ''follang.parc.content-fingerprint.v1'') @ u64_le len)")
    case (Inl e)
    then show ?thesis using run by (auto simp: content_from_reader_def field_reader_def)
  next
    case (Inr res)
    obtain out r' where res: "res = (out, r')" by (rule prod.exhaust)
    have out: "out @ fst r' = u64_le len @ content" "length content = len + length (fst r')" "set (snd r') \<subseteq> set answers"
      using run Inr res by (simp_all add: hasher_new_def)
    show ?thesis
    proof (cases "read_some 1 r'")
      case (Inl e)
      then show ?thesis
        using read_some_result [where wanted = 1 and r = r'] Inr res out(3) by (auto simp: content_from_reader_def field_reader_def)
    next
      case last: (Inr extra)
      then have "fst extra = [] \<longleftrightarrow> fst r' = []" using read_some_result [where wanted = 1 and r = r'] by (cases extra) auto
      then show ?thesis
        using Inr res out last
        by (cases extra) (auto simp: content_from_reader_def field_reader_def content_from_content_def
          derive_fingerprint_def field_def finish_def push_field_def hasher_new_def)
    qed
  qed
qed

end
