(* ===== verification/Contract.thy ===== *)
theory Contract
  imports Ids "HOL-Library.Product_Lexorder" "HOL-Library.Option_ord"
begin

text \<open>
  The data of a source package: C types (\<open>src/contract/types.rs\<close>), declarations
  (\<open>declarations.rs\<close>), macros, files, provenance, inputs, diagnostics and the package
  (\<open>macros.rs\<close>, \<open>files.rs\<close>, \<open>provenance.rs\<close>, \<open>inputs.rs\<close>, \<open>diagnostics.rs\<close>, \<open>schema.rs\<close>, \<open>package.rs\<close>),
  with the selection of declarations (\<open>selection.rs\<close>).  Structures whose derived order the code uses
  are one-constructor datatypes, ordered through the tuple of their fields.
\<close>

subsection \<open>Ranges, codes and diagnostics\<close>

datatype source_range = SourceRange (range_file: file_id) (range_start: nat) (range_end: nat)

datatype diagnostic_code = DiagnosticCode (code_str: string)

definition diagnostic_code_new :: "string \<Rightarrow> unit + diagnostic_code" where
  "diagnostic_code_new value =
     (if length value = 10 \<and> take 5 value = ''PARC-'' \<and> value ! 5 \<in> set ''EWP'' \<and>
         list_all is_ascii_digit (drop 6 value)
      then Inr (DiagnosticCode value) else Inl ())"

datatype diagnostic_stage = Configuration | Preprocess | Parse | Recovery | Extract | ContractStage
datatype severity = Note | Warning | Error
datatype completeness_impact = Informational | ForcesPartial | ForcesRejected

fun stage_rank :: "diagnostic_stage \<Rightarrow> nat" where
  "stage_rank Configuration = 0" | "stage_rank Preprocess = 1" | "stage_rank Parse = 2"
| "stage_rank Recovery = 3" | "stage_rank Extract = 4" | "stage_rank ContractStage = 5"

fun severity_rank :: "severity \<Rightarrow> nat" where
  "severity_rank Note = 0" | "severity_rank Warning = 1" | "severity_rank Error = 2"

fun impact_rank :: "completeness_impact \<Rightarrow> nat" where
  "impact_rank Informational = 0" | "impact_rank ForcesPartial = 1" | "impact_rank ForcesRejected = 2"

datatype related_source = RelatedSource (rel_message: string) (rel_range: source_range)

datatype source_diagnostic = SourceDiagnostic
  (diag_code: diagnostic_code) (diag_stage: diagnostic_stage) (diag_severity: severity)
  (diag_impact: completeness_impact) (diag_message: string) (diag_range: "source_range option")
  (diag_related: "related_source list") (diag_declaration: "declaration_id option")
  (diag_target: target_fingerprint)

datatype completeness_reason = CompletenessReason
  (reason_code: diagnostic_code) (reason_message: string) (reason_range: "source_range option")

datatype support_status =
    Supported
  | PartialSupport diagnostic_code string
  | UnsupportedSupport diagnostic_code string

definition is_supported :: "support_status \<Rightarrow> bool" where
  "is_supported s \<longleftrightarrow> s = Supported"

datatype completeness =
    Complete
  | Partial "completeness_reason list"
  | Rejected "completeness_reason list"

subsection \<open>The derived orders\<close>

definition range_key :: "source_range \<Rightarrow> file_id \<times> nat \<times> nat" where
  "range_key r = (range_file r, range_start r, range_end r)"

lemma range_key_inj: "range_key r = range_key s \<Longrightarrow> r = s"
  by (cases r; cases s) (simp add: range_key_def)

instantiation source_range :: linorder
begin

definition less_eq_source_range :: "source_range \<Rightarrow> source_range \<Rightarrow> bool" where
  "a \<le> b \<longleftrightarrow> range_key a \<le> range_key b"

definition less_source_range :: "source_range \<Rightarrow> source_range \<Rightarrow> bool" where
  "a < b \<longleftrightarrow> range_key a < range_key b"

instance
  by standard (auto simp: less_eq_source_range_def less_source_range_def range_key_inj)

end

definition reason_key :: "completeness_reason \<Rightarrow> string \<times> string \<times> source_range option" where
  "reason_key r = (code_str (reason_code r), reason_message r, reason_range r)"

lemma reason_key_inj: "reason_key r = reason_key s \<Longrightarrow> r = s"
  by (cases r; cases s) (auto simp: reason_key_def intro: diagnostic_code.expand)

instantiation completeness_reason :: linorder
begin

definition less_eq_completeness_reason :: "completeness_reason \<Rightarrow> completeness_reason \<Rightarrow> bool" where
  "a \<le> b \<longleftrightarrow> reason_key a \<le> reason_key b"

definition less_completeness_reason :: "completeness_reason \<Rightarrow> completeness_reason \<Rightarrow> bool" where
  "a < b \<longleftrightarrow> reason_key a < reason_key b"

instance
  by standard (auto simp: less_eq_completeness_reason_def less_completeness_reason_def reason_key_inj)

end

definition related_key :: "related_source \<Rightarrow> string \<times> source_range" where
  "related_key r = (rel_message r, rel_range r)"

lemma related_key_inj: "related_key r = related_key s \<Longrightarrow> r = s"
  by (cases r; cases s) (simp add: related_key_def)

instantiation related_source :: linorder
begin

definition less_eq_related_source :: "related_source \<Rightarrow> related_source \<Rightarrow> bool" where
  "a \<le> b \<longleftrightarrow> related_key a \<le> related_key b"

definition less_related_source :: "related_source \<Rightarrow> related_source \<Rightarrow> bool" where
  "a < b \<longleftrightarrow> related_key a < related_key b"

instance
  by standard (auto simp: less_eq_related_source_def less_related_source_def related_key_inj)

end

type_synonym diagnostic_key =
  "string \<times> nat \<times> nat \<times> nat \<times> string \<times> source_range option \<times> related_source list \<times>
   declaration_id option \<times> target_fingerprint"

definition diagnostic_key :: "source_diagnostic \<Rightarrow> diagnostic_key" where
  "diagnostic_key d =
     (code_str (diag_code d), stage_rank (diag_stage d), severity_rank (diag_severity d),
      impact_rank (diag_impact d), diag_message d, diag_range d, diag_related d, diag_declaration d,
      diag_target d)"

lemma stage_rank_inj: "stage_rank a = stage_rank b \<longleftrightarrow> a = b"
  by (cases a; cases b) simp_all

lemma severity_rank_inj: "severity_rank a = severity_rank b \<longleftrightarrow> a = b"
  by (cases a; cases b) simp_all

lemma impact_rank_inj: "impact_rank a = impact_rank b \<longleftrightarrow> a = b"
  by (cases a; cases b) simp_all

lemmas rank_inj = stage_rank_inj severity_rank_inj impact_rank_inj

lemma diagnostic_key_inj: "diagnostic_key r = diagnostic_key s \<Longrightarrow> r = s"
  by (cases r; cases s) (auto simp: diagnostic_key_def rank_inj intro: diagnostic_code.expand)

instantiation source_diagnostic :: linorder
begin

definition less_eq_source_diagnostic :: "source_diagnostic \<Rightarrow> source_diagnostic \<Rightarrow> bool" where
  "a \<le> b \<longleftrightarrow> diagnostic_key a \<le> diagnostic_key b"

definition less_source_diagnostic :: "source_diagnostic \<Rightarrow> source_diagnostic \<Rightarrow> bool" where
  "a < b \<longleftrightarrow> diagnostic_key a < diagnostic_key b"

instance
  by standard (auto simp: less_eq_source_diagnostic_def less_source_diagnostic_def diagnostic_key_inj)

end

text \<open>\<open>iter().collect::<BTreeSet<_>>().into_iter().collect::<Vec<_>>()\<close>.\<close>

definition btree_set :: "'a::linorder list \<Rightarrow> 'a list" where
  "btree_set xs = sort (remdups xs)"

lemma btree_set_set [simp]: "set (btree_set xs) = set xs"
  by (simp add: btree_set_def)

lemma btree_set_unique: "set xs = set ys \<Longrightarrow> btree_set xs = btree_set ys"
  unfolding btree_set_def using sorted_distinct_set_unique
  by (metis distinct_remdups distinct_sort set_remdups set_sort sorted_sort)

lemma btree_set_sorted: "sorted_wrt (<) (btree_set xs)"
  unfolding btree_set_def strict_sorted_iff by simp

lemma btree_set_id: "sorted_wrt (<) xs \<Longrightarrow> btree_set xs = xs"
  by (simp add: btree_set_def strict_sorted_iff distinct_remdups_id sorted_sort_id)

subsection \<open>Types\<close>

record type_qualifiers =
  is_const :: bool
  is_volatile :: bool
  is_restrict :: bool
  is_atomic :: bool

definition no_qualifiers :: type_qualifiers where
  "no_qualifiers = \<lparr>is_const = False, is_volatile = False, is_restrict = False, is_atomic = False\<rparr>"

datatype nullability = Unspecified | Nonnull | Nullable | NullUnspecified
datatype char_signedness = PlainChar | SignedChar | UnsignedChar
datatype signedness = Signed | Unsigned
datatype bit_int_width = KnownWidth nat | WidthExpression string

datatype c_integer_type =
    CharInt char_signedness
  | ShortInt signedness
  | IntInt signedness
  | LongInt signedness
  | LongLongInt signedness
  | Int128Int signedness
  | BitInt signedness bit_int_width

datatype ts18661_format = BinaryInterchange | BinaryExtended | DecimalInterchange | DecimalExtended
datatype c_floating_type = Float | Double | LongDouble | Float128 | Ts18661 ts18661_format nat
datatype array_minimum_bound = FixedMinimum nat | VariableMinimum string

datatype array_bound =
    FixedBound nat
  | IncompleteBound
  | FlexibleBound
  | VariableBound string
  | StaticMinimum array_minimum_bound
  | InvalidBound string diagnostic_code

datatype function_prototype = Prototyped bool | UnspecifiedParameters

datatype calling_convention =
    CConv | Cdecl | Stdcall | Fastcall | Vectorcall | Thiscall | SysV64 | Win64 | Aapcs
  | UnsupportedConvention string

datatype unsupported_type_category =
    Typeof | Vector | BlockPointer | ComplexRepresentation | CompilerBuiltin
  | InvalidSpecifierCombination | OtherCategory

datatype c_type = CType
    (ty_qualifiers: type_qualifiers) (ty_nullability: nullability) (ty_kind: c_type_kind)
    (ty_support: support_status)
and c_type_kind =
    Void
  | Bool
  | Integer c_integer_type
  | Floating c_floating_type
  | Complex c_floating_type
  | Pointer c_type
  | Array c_type array_bound type_qualifiers
  | Function c_function_type
  | AliasRef declaration_id
  | RecordRef declaration_id
  | EnumRef declaration_id
  | UnsupportedKind unsupported_type_category string
and c_function_type = CFunctionType
    (fn_return: c_type) (fn_parameters: "c_function_parameter list") (fn_prototype: function_prototype)
    (fn_convention: calling_convention)
and c_function_parameter = CFunctionParameter (cfp_name: "string option") (cfp_ty: c_type)

datatype attribute_disposition = Modeled | Preserved | UnsupportedAbiRelevant

record source_attribute =
  attr_namespace :: "string option"
  attr_name :: string
  attr_arguments :: "string list"
  attr_spelling :: string
  attr_range :: source_range
  attr_disposition :: attribute_disposition

subsection \<open>Provenance and files\<close>

datatype source_origin = EntryOrigin | UserIncludeOrigin | SystemIncludeOrigin | BuiltinOrigin | GeneratedOrigin

record include_site =
  site_directive :: source_range
  site_included :: file_id

record macro_expansion =
  exp_macro_name :: string
  exp_invocation :: source_range
  exp_definition :: "source_range option"

record source_provenance =
  prov_origin :: source_origin
  prov_include_chain :: "include_site list"
  prov_macro_expansions :: "macro_expansion list"

datatype source_file_role = EntryRole | UserIncludeRole | SystemIncludeRole | BuiltinRole | GeneratedRole

record source_file =
  sf_id :: file_id
  sf_logical_path :: string
  sf_role :: source_file_role
  sf_content :: content_fingerprint
  sf_byte_len :: nat
  sf_line_starts :: "nat list"

subsection \<open>Declarations\<close>

record source_name =
  nm_normalized :: string
  nm_original :: string

datatype declaration_identity =
    NamedIdentity entity_namespace entity_scope string
  | AnonymousIdentity entity_scope content_fingerprint nat

datatype linkage = ExternalLinkage | InternalLinkage | NoLinkage

datatype visibility =
    UnspecifiedVisibility | ExplicitDefault | TargetDefault | Hidden | Protected | InternalVisibility

datatype storage_class =
    NoStorage | TypedefStorage | ExternStorage | StaticStorage | ThreadLocal | Auto | Register

record declaration_occurrence =
  occ_id :: occurrence_id
  occ_range :: source_range
  occ_name_range :: "source_range option"
  occ_spelling :: string
  occ_tokens :: "string list"
  occ_ordinal :: nat
  occ_storage :: storage_class
  occ_is_definition :: bool
  occ_attributes :: "source_attribute list"
  occ_provenance :: source_provenance

record source_parameter =
  par_id :: child_id
  par_ordinal :: nat
  par_name :: "source_name option"
  par_ty :: c_type
  par_range :: source_range
  par_provenance :: source_provenance
  par_attributes :: "source_attribute list"
  par_support :: support_status

record source_function =
  fun_link_name :: string
  fun_return :: c_type
  fun_parameters :: "source_parameter list"
  fun_prototype :: function_prototype
  fun_convention :: calling_convention

datatype record_kind = Struct | Union
datatype record_completeness = CompleteRecord | IncompleteRecord
datatype bit_width = KnownBits nat | BitsExpression string | InvalidBits string diagnostic_code

record source_field =
  fld_id :: child_id
  fld_name :: "source_name option"
  fld_ty :: c_type
  fld_bit_width :: "bit_width option"
  fld_range :: source_range
  fld_provenance :: source_provenance
  fld_attributes :: "source_attribute list"
  fld_support :: support_status
  fld_tokens :: "string list"
  fld_ordinal :: nat

record source_record =
  rec_kind :: record_kind
  rec_completeness :: record_completeness
  rec_fields :: "source_field list"
  rec_alignment :: "nat option"
  rec_packing :: "nat option"

datatype enum_value = Evaluated exact_integer | Unevaluated string

record source_enum_variant =
  var_id :: child_id
  var_name :: source_name
  var_value :: enum_value
  var_range :: source_range
  var_provenance :: source_provenance
  var_attributes :: "source_attribute list"
  var_support :: support_status
  var_tokens :: "string list"
  var_ordinal :: nat

record source_enum =
  enum_underlying :: "c_type option"
  enum_variants :: "source_enum_variant list"

record source_variable =
  vr_link_name :: string
  vr_ty :: c_type
  vr_thread_local :: bool

datatype unsupported_declaration_category =
    StaticAssertion | InlineAssembly | CompilerBuiltinDeclaration | UnsupportedExtension | InvalidDeclaration

record source_unsupported =
  uns_category :: unsupported_declaration_category
  uns_spelling :: string
  uns_diagnostic :: diagnostic_code

text \<open>A type alias has its target as the only field.\<close>

datatype source_declaration_kind =
    FunctionDecl source_function
  | RecordDecl source_record
  | EnumDecl source_enum
  | TypeAliasDecl c_type
  | VariableDecl source_variable
  | UnsupportedDecl source_unsupported

record source_declaration =
  decl_id :: declaration_id
  decl_identity :: declaration_identity
  decl_name :: "source_name option"
  decl_linkage :: linkage
  decl_visibility :: visibility
  decl_occurrences :: "declaration_occurrence list"
  decl_support :: support_status
  decl_kind :: source_declaration_kind

subsection \<open>Macros\<close>

datatype macro_form = ObjectLike | FunctionLike
datatype macro_category = BindableConstant | ConfigurationFlag | AbiAffecting | UnsupportedMacro
datatype macro_value = IntegerValue exact_integer | StringValue string | TokensValue "string list"

record macro_occurrence =
  mocc_id :: occurrence_id
  mocc_range :: source_range
  mocc_tokens :: "string list"
  mocc_ordinal :: nat
  mocc_provenance :: source_provenance

record source_macro =
  mac_id :: macro_id
  mac_identity_file :: file_id
  mac_name :: string
  mac_form :: macro_form
  mac_category :: macro_category
  mac_body :: string
  mac_tokens :: "string list"
  mac_value :: "macro_value option"
  mac_occurrences :: "macro_occurrence list"
  mac_support :: support_status

subsection \<open>Inputs\<close>

datatype include_search_kind = QuoteSearch | UserSearch | SystemSearch | FrameworkSearch

record include_search_entry =
  search_logical_path :: string
  search_kind :: include_search_kind
  search_content :: "content_fingerprint option"

datatype define_event = DefineEvent string "string option" | UndefineEvent string

datatype preprocessor_identity =
    BuiltinPreprocessor string
  | ExternalPreprocessor string content_fingerprint "string list"

record captured_environment =
  env_name :: string
  env_fingerprint :: content_fingerprint

datatype environment_inputs = Hermetic | Captured "captured_environment list"

record effective_inputs =
  in_entry_files :: "file_id list"
  in_include_search :: "include_search_entry list"
  in_define_events :: "define_event list"
  in_forced_includes :: "file_id list"
  in_preprocessor :: preprocessor_identity
  in_environment :: environment_inputs
  in_path_mapping :: content_fingerprint

subsection \<open>The package\<close>

record schema_header =
  schema_id :: string
  schema_version :: nat

definition source_package_v2 :: schema_header where
  "source_package_v2 = \<lparr>schema_id = ''follang.parc.source-package'', schema_version = 2\<rparr>"

definition is_source_package_v2 :: "schema_header \<Rightarrow> bool" where
  "is_source_package_v2 h \<longleftrightarrow> schema_id h = ''follang.parc.source-package'' \<and> schema_version h = 2"

text \<open>
  \<open>SourcePackageInput\<close>, and \<open>SourcePackage\<close> with the two fields that the constructor derives.  The target
  description is a type parameter.
\<close>

record 't source_package_input =
  pkg_target :: 't
  pkg_files :: "source_file list"
  pkg_inputs :: effective_inputs
  pkg_declarations :: "source_declaration list"
  pkg_macros :: "source_macro list"
  pkg_diagnostics :: "source_diagnostic list"
  pkg_completeness :: completeness

record 't source_package = "'t source_package_input" +
  pkg_schema :: schema_header
  pkg_fingerprint :: source_fingerprint

end
