(* ===== verification/Package.thy ===== *)
theory Package
  imports Contract
begin

text \<open>
  Lookup in a package (\<open>SourcePackage::declaration\<close>, \<open>selection_contains\<close>) and the selection of roots
  (\<open>src/contract/selection.rs\<close>), and the references of a declaration to others
  (\<open>compose.rs\<close>, \<open>enqueue_declaration_references\<close>).
\<close>

subsection \<open>Binary search\<close>

text \<open>
  \<open>slice::binary_search\<close>: the part of \<open>len\<close> elements (\<open>size\<close> in the library) from \<open>base\<close> on is halved until one element is left.
\<close>

function bs_loop :: "('k::linorder) list \<Rightarrow> 'k \<Rightarrow> nat \<Rightarrow> nat \<Rightarrow> nat" where
  "bs_loop xs k base len =
     (if len \<le> 1 then base
      else
        let half = len div 2; mid = base + half
        in bs_loop xs k (if k < xs ! mid then base else mid) (len - half))"
  by pat_completeness auto
termination
  by (relation "measure (\<lambda>(xs, k, base, len). len)") auto

declare bs_loop.simps [simp del]

definition binary_search :: "('k::linorder) list \<Rightarrow> 'k \<Rightarrow> nat option" where
  "binary_search xs k =
     (if xs = [] then None
      else let i = bs_loop xs k 0 (length xs) in if xs ! i = k then Some i else None)"

lemma bs_loop_range: "0 < len \<Longrightarrow> base \<le> bs_loop xs k base len \<and> bs_loop xs k base len < base + len"
proof (induction xs k base len rule: bs_loop.induct)
  case (1 xs k base len)
  show ?case
  proof (cases "len \<le> 1")
    case False
    let ?b = "if k < xs ! (base + len div 2) then base else base + len div 2"
    have "?b \<le> bs_loop xs k ?b (len - len div 2) \<and> bs_loop xs k ?b (len - len div 2) < ?b + (len - len div 2)"
      using "1.IH" [OF False refl refl] False by auto
    then show ?thesis
      using False by (subst (1 2) bs_loop.simps) (auto simp: Let_def split: if_splits)
  qed (use 1 in \<open>simp add: bs_loop.simps\<close>)
qed

lemma bs_loop_finds:
  assumes "sorted xs" "base + len \<le> length xs" "base \<le> i" "i < base + len" "xs ! i = k"
  shows "xs ! bs_loop xs k base len = k"
  using assms
proof (induction xs k base len arbitrary: i rule: bs_loop.induct)
  case (1 xs k base len)
  show ?case
  proof (cases "len \<le> 1")
    case True
    then have "i = base" using "1.prems" by linarith
    then show ?thesis using True "1.prems"(5) by (simp add: bs_loop.simps)
  next
    case False
    let ?mid = "base + len div 2"
    have mid: "?mid < length xs" using False "1.prems"(2) by linarith
    note step = bs_loop.simps [of xs k base len]
    show ?thesis
    proof (cases "k < xs ! ?mid")
      case True
      then have "i < ?mid"
        using sorted_nth_mono [OF "1.prems"(1), of ?mid i] "1.prems" mid by (metis leD leI less_le_trans)
      then show ?thesis
        using "1.IH" [OF False refl refl, of i] "1.prems" True False step by (simp add: Let_def)
    next
      case below: False
      define j where "j = (if ?mid \<le> i then i else ?mid)"
      have "xs ! j = k"
        using sorted_nth_mono [OF "1.prems"(1), of i ?mid] "1.prems" mid below
        unfolding j_def by (auto simp: not_le)
      moreover have "?mid \<le> j" "j < ?mid + (len - len div 2)"
        using "1.prems"(4) False unfolding j_def by auto
      ultimately show ?thesis
        using "1.IH" [OF False refl refl, of j] "1.prems"(1,2) below False step by (simp add: Let_def)
    qed
  qed
qed

lemma binary_search_SomeD: "binary_search xs k = Some i \<Longrightarrow> i < length xs \<and> xs ! i = k"
  using bs_loop_range [of "length xs" 0 xs k] by (auto simp: binary_search_def Let_def split: if_splits)

lemma binary_search_None_iff:
  assumes "sorted xs"
  shows "binary_search xs k = None \<longleftrightarrow> k \<notin> set xs"
proof
  assume "binary_search xs k = None"
  then show "k \<notin> set xs"
    using bs_loop_finds [OF assms, of 0 "length xs" _ k]
    by (auto simp: binary_search_def Let_def in_set_conv_nth split: if_splits)
next
  assume "k \<notin> set xs"
  then show "binary_search xs k = None"
    using binary_search_SomeD [of xs k] by (cases "binary_search xs k") (auto simp: in_set_conv_nth)
qed

text \<open>\<open>binary_search_by_key\<close> and the element found.\<close>

definition find_by_key :: "('v \<Rightarrow> 'k::linorder) \<Rightarrow> 'v list \<Rightarrow> 'k \<Rightarrow> 'v option" where
  "find_by_key key vs k = map_option (\<lambda>i. vs ! i) (binary_search (map key vs) k)"

lemma find_by_keyD: "find_by_key key vs k = Some v \<Longrightarrow> v \<in> set vs \<and> key v = k"
  using binary_search_SomeD [of "map key vs" k] by (auto simp: find_by_key_def)

text \<open>On a table in strict order the search is a lookup.\<close>

lemma find_by_key_iff:
  assumes "sorted_wrt (<) (map key vs)"
  shows "find_by_key key vs k = Some v \<longleftrightarrow> v \<in> set vs \<and> key v = k"
proof
  assume v: "v \<in> set vs \<and> key v = k"
  then have "binary_search (map key vs) k \<noteq> None"
    using binary_search_None_iff [of "map key vs" k] assms by (auto simp: strict_sorted_iff)
  then obtain w where w: "find_by_key key vs k = Some w" by (auto simp: find_by_key_def)
  have "inj_on key (set vs)" using assms by (simp add: strict_sorted_iff distinct_map)
  then have "w = v" using find_by_keyD [OF w] v by (auto dest: inj_onD)
  then show "find_by_key key vs k = Some v" using w by simp
qed (rule find_by_keyD)

lemma find_by_key_None_iff:
  "sorted_wrt (<) (map key vs) \<Longrightarrow> find_by_key key vs k = None \<longleftrightarrow> k \<notin> key ` set vs"
  using find_by_key_iff [of key vs k] by (cases "find_by_key key vs k") (auto, metis imageI)

lemma find_by_key_filter:
  assumes "sorted_wrt (<) (map key vs)"
  shows "find_by_key key (filter P vs) k =
    (case find_by_key key vs k of Some v \<Rightarrow> if P v then Some v else None | None \<Rightarrow> None)"
proof -
  have s: "sorted_wrt (<) (map key (filter P vs))"
    using assms by (simp add: sorted_wrt_map sorted_wrt_filter)
  show ?thesis
  proof (cases "find_by_key key vs k")
    case None
    then have "k \<notin> key ` set (filter P vs)" using find_by_key_None_iff [OF assms] by auto
    then show ?thesis using None find_by_key_None_iff [OF s] by simp
  next
    case (Some v)
    have v: "v \<in> set vs" "key v = k" using find_by_keyD [OF Some] by simp_all
    show ?thesis
    proof (cases "P v")
      case True
      then show ?thesis using Some v find_by_key_iff [OF s] by simp
    next
      case False
      have "inj_on key (set vs)" using assms by (simp add: strict_sorted_iff distinct_map)
      then have "k \<notin> key ` set (filter P vs)" using v False by (auto dest: inj_onD)
      then show ?thesis using Some False find_by_key_None_iff [OF s] by simp
    qed
  qed
qed

subsection \<open>Selections\<close>

datatype selection =
    AllSupported
  | Only "declaration_id list"
  | OpaqueOnly "declaration_id list"

datatype selection_error = EmptySelection | Duplicate declaration_id

fun first_duplicate :: "declaration_id list \<Rightarrow> declaration_id list \<Rightarrow> declaration_id option" where
  "first_duplicate seen [] = None"
| "first_duplicate seen (i # ids) = (if i \<in> set seen then Some i else first_duplicate (i # seen) ids)"

definition checked_ids :: "declaration_id list \<Rightarrow> selection_error + declaration_id list" where
  "checked_ids ids =
     (if ids = [] then Inl EmptySelection
      else case first_duplicate [] ids of Some i \<Rightarrow> Inl (Duplicate i) | None \<Rightarrow> Inr (sort ids))"

definition selection_only :: "declaration_id list \<Rightarrow> selection_error + selection" where
  "selection_only ids = map_sum id Only (checked_ids ids)"

definition selection_opaque :: "declaration_id list \<Rightarrow> selection_error + selection" where
  "selection_opaque ids = map_sum id OpaqueOnly (checked_ids ids)"

fun selection_roots :: "selection \<Rightarrow> declaration_id list option" where
  "selection_roots AllSupported = None"
| "selection_roots (Only ids) = Some ids"
| "selection_roots (OpaqueOnly ids) = Some ids"

definition explicit_ids :: "selection \<Rightarrow> declaration_id list" where
  "explicit_ids s = (case selection_roots s of None \<Rightarrow> [] | Some ids \<Rightarrow> ids)"

definition find_declaration :: "('t, 'z) source_package_input_scheme \<Rightarrow> declaration_id \<Rightarrow> source_declaration option" where
  "find_declaration p i = find_by_key decl_id (pkg_declarations p) i"

fun selection_contains :: "('t, 'z) source_package_input_scheme \<Rightarrow> selection \<Rightarrow> declaration_id \<Rightarrow> bool" where
  "selection_contains p AllSupported i =
     (case find_declaration p i of None \<Rightarrow> False | Some d \<Rightarrow> is_supported (decl_support d))"
| "selection_contains p (Only ids) i = (binary_search ids i \<noteq> None)"
| "selection_contains p (OpaqueOnly ids) i = (binary_search ids i \<noteq> None)"

lemma first_duplicate_None_iff: "first_duplicate seen ids = None \<longleftrightarrow> distinct ids \<and> set ids \<inter> set seen = {}"
  by (induction seen ids rule: first_duplicate.induct) auto

lemma first_duplicate_SomeD:
  "first_duplicate seen ids = Some i \<Longrightarrow>
     \<exists>us vs. ids = us @ i # vs \<and> i \<in> set seen \<union> set us \<and> distinct us \<and> set us \<inter> set seen = {}"
proof (induction seen ids rule: first_duplicate.induct)
  case (2 seen j ids)
  show ?case
  proof (cases "j \<in> set seen")
    case True
    then show ?thesis using 2 by (intro exI [of _ "[]"] exI [of _ ids]) auto
  next
    case False
    then obtain us vs where "ids = us @ i # vs" "i \<in> set (j # seen) \<union> set us" "distinct us" "set us \<inter> set (j # seen) = {}"
      using 2 by auto
    then show ?thesis using False by (intro exI [of _ "j # us"] exI [of _ vs]) auto
  qed
qed simp

subsection \<open>References\<close>

fun type_references :: "c_type \<Rightarrow> declaration_id list"
  and kind_references :: "c_type_kind \<Rightarrow> declaration_id list"
  and function_references :: "c_function_type \<Rightarrow> declaration_id list"
  and parameter_references :: "c_function_parameter \<Rightarrow> declaration_id list" where
  "type_references (CType q n k s) = kind_references k"
| "kind_references (Pointer t) = type_references t"
| "kind_references (Array t b q) = type_references t"
| "kind_references (Function f) = function_references f"
| "kind_references (AliasRef i) = [i]"
| "kind_references (RecordRef i) = [i]"
| "kind_references (EnumRef i) = [i]"
| "kind_references Void = []"
| "kind_references Bool = []"
| "kind_references (Integer i) = []"
| "kind_references (Floating f) = []"
| "kind_references (Complex f) = []"
| "kind_references (UnsupportedKind c s) = []"
| "function_references (CFunctionType r ps pt cc) = type_references r @ concat (map parameter_references ps)"
| "parameter_references (CFunctionParameter n t) = type_references t"

fun declaration_kind_references :: "source_declaration_kind \<Rightarrow> declaration_id list" where
  "declaration_kind_references (FunctionDecl f) =
     type_references (fun_return f) @ concat (map (type_references \<circ> par_ty) (fun_parameters f))"
| "declaration_kind_references (RecordDecl r) = concat (map (type_references \<circ> fld_ty) (rec_fields r))"
| "declaration_kind_references (EnumDecl e) =
     (case enum_underlying e of None \<Rightarrow> [] | Some t \<Rightarrow> type_references t)"
| "declaration_kind_references (TypeAliasDecl t) = type_references t"
| "declaration_kind_references (VariableDecl v) = type_references (vr_ty v)"
| "declaration_kind_references (UnsupportedDecl u) = []"

text \<open>The declaration that owns the scope of the identity.\<close>

definition scope_owner :: "entity_scope \<Rightarrow> declaration_id list" where
  "scope_owner s = (case s of Owner i \<Rightarrow> [i] | _ \<Rightarrow> [])"

fun identity_owner :: "declaration_identity \<Rightarrow> declaration_id list" where
  "identity_owner (NamedIdentity ns scope n) = scope_owner scope"
| "identity_owner (AnonymousIdentity scope f k) = scope_owner scope"

subsection \<open>Properties\<close>

text \<open>
  a checked selection selects what it was given.  \<open>only\<close> accepts a list of identifiers exactly if it is
  not empty and has no duplicates, and then \<open>selection_contains\<close>, which searches the sorted list by
  halving, finds exactly the given identifiers, in any order of the input; the roots are the
  given ones, in order.
\<close>
theorem selection_membership:
  "case selection_only ids of
     Inr sel \<Rightarrow> ids \<noteq> [] \<and> distinct ids \<and> explicit_ids sel = sort ids \<and>
       selection_contains p sel = (\<lambda>i. i \<in> set ids)
   | Inl EmptySelection \<Rightarrow> ids = []
   | Inl (Duplicate i) \<Rightarrow> \<exists>us vs. ids = us @ i # vs \<and> i \<in> set us \<and> distinct us"
proof (cases "first_duplicate [] ids")
  case None
  then have "selection_contains p (Only (sort ids)) = (\<lambda>i. i \<in> set ids)"
    using binary_search_None_iff [of "sort ids"] by (auto simp: fun_eq_iff)
  then show ?thesis
    using None first_duplicate_None_iff [of "[]" ids]
    by (simp add: selection_only_def checked_ids_def explicit_ids_def del: selection_contains.simps)
next
  case (Some i)
  then show ?thesis
    using first_duplicate_SomeD [OF Some]
    by (auto simp: selection_only_def checked_ids_def)
qed

end
