(* ===== verification/Compose.thy ===== *)
theory Compose
  imports Package
begin

text \<open>
  Projection and composition of packages (\<open>src/contract/compose.rs\<close>): \<open>retain\<close> with its closure over
  references, and \<open>merge\<close> with its keyed unions.  Both are modelled up to the input that they hand to
  \<open>SourcePackage::try_new\<close>.
\<close>

datatype compose_error =
    MissingDeclaration declaration_id
  | OpaqueRootIsNotRecord declaration_id
  | IncompatibleTarget
  | IncompatibleSourceInputs string
  | ConflictingFile file_id
  | ConflictingDeclaration declaration_id
  | ConflictingMacro macro_id

subsection \<open>The closure of the roots\<close>

definition references :: "source_declaration \<Rightarrow> declaration_id list" where
  "references d = identity_owner (decl_identity d) @ declaration_kind_references (decl_kind d)"

definition declared_ids :: "('t, 'z) source_package_input_scheme \<Rightarrow> declaration_id set" where
  "declared_ids p = decl_id ` set (pkg_declarations p)"

lemma find_declarationD: "find_declaration p i = Some d \<Longrightarrow> decl_id d = i \<and> i \<in> declared_ids p"
  using find_by_keyD [of decl_id "pkg_declarations p" i d] by (auto simp: find_declaration_def declared_ids_def)

function closure_loop ::
  "('t, 'z) source_package_input_scheme \<Rightarrow> declaration_id list \<Rightarrow> declaration_id list \<Rightarrow> compose_error + declaration_id list" where
  "closure_loop p retained [] = Inr retained"
| "closure_loop p retained (i # queue) =
     (if i \<in> set retained then closure_loop p retained queue
      else
        case find_declaration p i of
          None \<Rightarrow> Inl (MissingDeclaration i)
        | Some d \<Rightarrow> closure_loop p (i # retained) (queue @ references d))"
  by pat_completeness auto
termination
proof (relation "measures [\<lambda>(p, retained, queue). card (declared_ids p - set retained),
    \<lambda>(p, retained, queue). length queue]", goal_cases)
  case (3 p retained i queue d)
  then have "i \<in> declared_ids p - set retained" by (simp add: find_declarationD)
  then have "card (declared_ids p - set (i # retained)) < card (declared_ids p - set retained)"
    by (intro psubset_card_mono) (auto simp: declared_ids_def)
  then show ?case by simp
qed simp_all

text \<open>The set \<open>retained\<close>, as its ordered list of elements.\<close>

definition declaration_closure ::
  "('t, 'z) source_package_input_scheme \<Rightarrow> declaration_id list \<Rightarrow> compose_error + declaration_id list" where
  "declaration_closure p roots = map_sum id btree_set (closure_loop p [] roots)"

definition completeness_from_diagnostics :: "source_diagnostic list \<Rightarrow> completeness" where
  "completeness_from_diagnostics diagnostics =
     (let reasons = btree_set (map (\<lambda>d. CompletenessReason (diag_code d) (diag_message d) (diag_range d))
            (filter (\<lambda>d. diag_impact d \<noteq> Informational) diagnostics))
      in if list_ex (\<lambda>d. diag_impact d = ForcesRejected) diagnostics then Rejected reasons
         else if reasons \<noteq> [] then Partial reasons
         else Complete)"

fun is_record :: "source_declaration_kind \<Rightarrow> bool" where
  "is_record (RecordDecl r) = True"
| "is_record _ = False"

fun check_opaque_roots :: "('t, 'z) source_package_input_scheme \<Rightarrow> declaration_id list \<Rightarrow> compose_error option" where
  "check_opaque_roots p [] = None"
| "check_opaque_roots p (i # ids) =
     (case find_declaration p i of
        None \<Rightarrow> Some (MissingDeclaration i)
      | Some d \<Rightarrow> if \<not> is_record (decl_kind d) then Some (OpaqueRootIsNotRecord i) else check_opaque_roots p ids)"

definition retain_roots ::
  "('t, 'z) source_package_input_scheme \<Rightarrow> selection \<Rightarrow> compose_error + declaration_id list" where
  "retain_roots p selection =
     (case selection of
        AllSupported \<Rightarrow> Inr (map decl_id (filter (\<lambda>d. is_supported (decl_support d)) (pkg_declarations p)))
      | Only ids \<Rightarrow> Inr ids
      | OpaqueOnly ids \<Rightarrow>
          (case check_opaque_roots p ids of Some e \<Rightarrow> Inl e | None \<Rightarrow> Inr ids))"

definition retain ::
  "'t source_package_input \<Rightarrow> selection \<Rightarrow> compose_error + 't source_package_input" where
  "retain p selection =
     (case retain_roots p selection of
        Inl e \<Rightarrow> Inl e
      | Inr roots \<Rightarrow>
          (case declaration_closure p roots of
             Inl e \<Rightarrow> Inl e
           | Inr retained \<Rightarrow>
               let declarations = filter (\<lambda>d. decl_id d \<in> set retained) (pkg_declarations p);
                   diagnostics = filter
                     (\<lambda>d. case diag_declaration d of None \<Rightarrow> True | Some i \<Rightarrow> i \<in> set retained)
                     (pkg_diagnostics p)
               in Inr \<lparr>pkg_target = pkg_target p, pkg_files = pkg_files p, pkg_inputs = pkg_inputs p,
                    pkg_declarations = declarations, pkg_macros = pkg_macros p,
                    pkg_diagnostics = diagnostics,
                    pkg_completeness = completeness_from_diagnostics diagnostics\<rparr>))"

subsection \<open>The closure is reachability\<close>

definition reference_edges :: "('t, 'z) source_package_input_scheme \<Rightarrow> (declaration_id \<times> declaration_id) set" where
  "reference_edges p = {(i, j). \<exists>d. find_declaration p i = Some d \<and> j \<in> set (references d)}"

definition reachable :: "('t, 'z) source_package_input_scheme \<Rightarrow> declaration_id list \<Rightarrow> declaration_id set" where
  "reachable p roots = (reference_edges p)\<^sup>* `` set roots"

lemma reachable_simps [simp]:
  "reachable p [] = {}"
  "reachable p (xs @ ys) = reachable p xs \<union> reachable p ys"
  "i \<in> reachable p (i # xs)"
  by (auto simp: reachable_def)

lemma reachable_Cons: "reachable p (i # xs) = reachable p [i] \<union> reachable p xs"
  by (auto simp: reachable_def)

lemma reachable_references: "find_declaration p i = Some d \<Longrightarrow> reachable p (references d) \<subseteq> reachable p [i]"
  by (force simp: reachable_def reference_edges_def intro: converse_rtrancl_into_rtrancl)

lemma reachable_closed: "set xs \<subseteq> reachable p ys \<Longrightarrow> reachable p xs \<subseteq> reachable p ys"
  by (auto simp: reachable_def intro: rtrancl_trans)

lemma closure_loop_Inr:
  assumes "closure_loop p retained queue = Inr r"
  shows "set retained \<union> set queue \<subseteq> set r"
    "set r \<subseteq> set retained \<union> reachable p queue"
    "\<forall>i \<in> set r - set retained. \<exists>d. find_declaration p i = Some d \<and> set (references d) \<subseteq> set r"
  using assms
proof (induction p retained queue rule: closure_loop.induct)
  case (2 p retained i queue)
  {
    case 1
    then show ?case using 2 by (auto split: if_splits option.splits)
  next
    case 2
    show ?case
    proof (cases "i \<in> set retained")
      case True
      then show ?thesis using 2 "2.IH"(2) reachable_Cons [of p i queue] by auto
    next
      case False
      then obtain d where d: "find_declaration p i = Some d" using 2 by (auto split: option.splits)
      then show ?thesis
        using 2 "2.IH"(5) [OF False d] False reachable_references [OF d] reachable_Cons [of p i queue] by auto
    qed
  next
    case 3
    then show ?case using 2 by (auto split: if_splits option.splits)
  }
qed (auto simp: reachable_def)

lemma closure_loop_Inl:
  assumes "closure_loop p retained queue = Inl e"
  shows "\<exists>i \<in> reachable p queue. find_declaration p i = None \<and> e = MissingDeclaration i"
  using assms
proof (induction p retained queue rule: closure_loop.induct)
  case (2 p retained i queue)
  show ?case
  proof (cases "i \<in> set retained")
    case True
    then show ?thesis using 2 reachable_Cons [of p i queue] by auto
  next
    case new: False
    show ?thesis
    proof (cases "find_declaration p i")
      case None
      then show ?thesis using 2 new by auto
    next
      case (Some d)
      then have "\<exists>j \<in> reachable p (queue @ references d). find_declaration p j = None \<and> e = MissingDeclaration j"
        using 2 new by simp
      then show ?thesis using reachable_references [OF Some] reachable_Cons [of p i queue] by auto
    qed
  qed
qed simp

text \<open>What the closure of the code computes, or why it fails.\<close>

lemma declaration_closure_reachable:
  "case declaration_closure p roots of
     Inr r \<Rightarrow> set r = reachable p roots \<and> sorted_wrt (<) r \<and> set r \<subseteq> dom (find_declaration p)
   | Inl e \<Rightarrow> \<exists>i. i \<in> reachable p roots \<and> find_declaration p i = None \<and> e = MissingDeclaration i"
proof (cases "closure_loop p [] roots")
  case (Inl e)
  then show ?thesis using closure_loop_Inl [OF Inl] by (auto simp: declaration_closure_def)
next
  case (Inr r)
  note facts = closure_loop_Inr [OF Inr]
  have step: "j \<in> set r" if "i \<in> set r" "(i, j) \<in> reference_edges p" for i j
    using that facts(3) by (fastforce simp: reference_edges_def)
  have "j \<in> set r" if "(i, j) \<in> (reference_edges p)\<^sup>*" "i \<in> set roots" for i j
    using that(1) by (induction) (use that(2) facts(1) step in auto)
  then have "reachable p roots = set r" using facts(2) by (auto simp: reachable_def)
  then show ?thesis using facts(3) Inr by (auto simp: declaration_closure_def btree_set_sorted)
qed

lemma declaration_closure_Inr_iff:
  "declaration_closure p roots = Inr r \<longleftrightarrow>
     set r = reachable p roots \<and> sorted_wrt (<) r \<and> reachable p roots \<subseteq> dom (find_declaration p)"
proof
  assume "declaration_closure p roots = Inr r"
  then show "set r = reachable p roots \<and> sorted_wrt (<) r \<and> reachable p roots \<subseteq> dom (find_declaration p)"
    using declaration_closure_reachable [of p roots] by auto
next
  assume r: "set r = reachable p roots \<and> sorted_wrt (<) r \<and> reachable p roots \<subseteq> dom (find_declaration p)"
  then show "declaration_closure p roots = Inr r"
    using declaration_closure_reachable [of p roots]
    by (auto split: sum.splits intro: strict_sorted_equal)
qed

subsection \<open>Retaining\<close>

definition ordered_declarations :: "('t, 'z) source_package_input_scheme \<Rightarrow> bool" where
  "ordered_declarations p \<longleftrightarrow> sorted_wrt (<) (map decl_id (pkg_declarations p))"

lemma find_declaration_filter:
  assumes "ordered_declarations p" "pkg_declarations q = filter (\<lambda>d. decl_id d \<in> S) (pkg_declarations p)"
  shows "find_declaration q i = (if i \<in> S then find_declaration p i else None)"
  using assms find_by_key_filter [of decl_id "pkg_declarations p" "\<lambda>d. decl_id d \<in> S" i] find_declarationD [of p i]
  by (auto simp: find_declaration_def ordered_declarations_def split: option.splits)

lemma find_declaration_iff:
  "ordered_declarations p \<Longrightarrow> find_declaration p i = Some d \<longleftrightarrow> d \<in> set (pkg_declarations p) \<and> decl_id d = i"
  unfolding ordered_declarations_def find_declaration_def by (rule find_by_key_iff)

lemma reachable_filter:
  assumes "\<And>i. find_declaration q i = (if i \<in> reachable p roots then find_declaration p i else None)"
  shows "reachable q roots = reachable p roots"
proof -
  have "(i, j) \<in> (reference_edges p)\<^sup>*" if "(i, j) \<in> (reference_edges q)\<^sup>*" for i j
    using that by (rule rtrancl_mono [THEN subsetD, rotated]) (auto simp: reference_edges_def assms split: if_splits)
  moreover have "(i, j) \<in> (reference_edges q)\<^sup>*" if "(i, j) \<in> (reference_edges p)\<^sup>*" "i \<in> set roots" for i j
    using that(1)
  proof induction
    case (step j k)
    have "j \<in> reachable p roots" using step(1) that(2) by (auto simp: reachable_def)
    then have "(j, k) \<in> reference_edges q" using step(2) by (auto simp: reference_edges_def assms)
    with step(3) show ?case by simp
  qed simp
  ultimately show ?thesis unfolding reachable_def by blast
qed

lemma retainD:
  assumes "retain p selection = Inr q"
  obtains roots retained where "retain_roots p selection = Inr roots" "declaration_closure p roots = Inr retained"
    "pkg_declarations q = filter (\<lambda>d. decl_id d \<in> set retained) (pkg_declarations p)"
    "pkg_diagnostics q = filter
       (\<lambda>d. case diag_declaration d of None \<Rightarrow> True | Some i \<Rightarrow> i \<in> set retained) (pkg_diagnostics p)"
    "pkg_completeness q = completeness_from_diagnostics (pkg_diagnostics q)"
    "pkg_target q = pkg_target p" "pkg_files q = pkg_files p" "pkg_inputs q = pkg_inputs p" "pkg_macros q = pkg_macros p"
  using assms by (auto simp: retain_def Let_def split: sum.splits)

lemma retain_roots_declared:
  assumes "retain_roots p AllSupported = Inr roots"
  shows "roots = map decl_id (filter (\<lambda>d. is_supported (decl_support d)) (pkg_declarations p))"
  using assms by (simp add: retain_roots_def)

lemma check_opaque_roots_None_iff:
  "check_opaque_roots p ids = None \<longleftrightarrow>
     (\<forall>i \<in> set ids. \<exists>d. find_declaration p i = Some d \<and> is_record (decl_kind d))"
  by (induction p ids rule: check_opaque_roots.induct) (auto split: option.splits)

lemma roots_reachable: "set roots \<subseteq> reachable p roots"
  by (auto simp: reachable_def)

lemma retain_roots_again:
  assumes "retain_roots p selection = Inr roots" "set roots \<subseteq> S"
    and lookup: "\<And>i. find_declaration q i = (if i \<in> S then find_declaration p i else None)"
    and declarations: "pkg_declarations q = filter (\<lambda>d. decl_id d \<in> S) (pkg_declarations p)"
  shows "retain_roots q selection = Inr roots"
proof (cases selection)
  case AllSupported
  then have "filter (\<lambda>d. is_supported (decl_support d)) (pkg_declarations q) =
    filter (\<lambda>d. is_supported (decl_support d)) (pkg_declarations p)"
    using assms(1,2) declarations by (auto simp: retain_roots_def intro!: filter_cong)
  then show ?thesis using assms(1) AllSupported by (simp add: retain_roots_def)
next
  case (OpaqueOnly ids)
  then show ?thesis
    using assms(1,2) check_opaque_roots_None_iff [of p ids] check_opaque_roots_None_iff [of q ids]
    by (auto simp: retain_roots_def lookup split: option.splits)
qed (use assms(1) in \<open>simp add: retain_roots_def\<close>)

subsection \<open>Keyed unions\<close>

text \<open>
  A \<open>BTreeMap\<close> whose values carry their keys, as the list of its values in the order of the keys;
  \<open>join current new\<close> is what happens when the key of the new item is taken.
\<close>

fun btree_entry ::
  "('v \<Rightarrow> 'k::linorder) \<Rightarrow> ('v \<Rightarrow> 'v \<Rightarrow> compose_error + 'v) \<Rightarrow> 'v \<Rightarrow> 'v list \<Rightarrow> compose_error + 'v list" where
  "btree_entry key join v [] = Inr [v]"
| "btree_entry key join v (x # xs) =
     (if key v < key x then Inr (v # x # xs)
      else if key v = key x then map_sum id (\<lambda>y. y # xs) (join x v)
      else map_sum id (\<lambda>ys. x # ys) (btree_entry key join v xs))"

fun btree_entries ::
  "('v \<Rightarrow> 'k::linorder) \<Rightarrow> ('v \<Rightarrow> 'v \<Rightarrow> compose_error + 'v) \<Rightarrow> 'v list \<Rightarrow> 'v list \<Rightarrow> compose_error + 'v list" where
  "btree_entries key join [] m = Inr m"
| "btree_entries key join (v # vs) m =
     (case btree_entry key join v m of Inl e \<Rightarrow> Inl e | Inr m' \<Rightarrow> btree_entries key join vs m')"

definition keyed_union ::
  "('v \<Rightarrow> 'k::linorder) \<Rightarrow> ('v \<Rightarrow> 'v \<Rightarrow> compose_error + 'v) \<Rightarrow> 'v list \<Rightarrow> 'v list \<Rightarrow> compose_error + 'v list" where
  "keyed_union key join left right = btree_entries key join (left @ right) []"

definition equal_or :: "compose_error \<Rightarrow> 'v \<Rightarrow> 'v \<Rightarrow> compose_error + 'v" where
  "equal_or e current new = (if current = new then Inr current else Inl e)"

definition join_files :: "source_file \<Rightarrow> source_file \<Rightarrow> compose_error + source_file" where
  "join_files current new = equal_or (ConflictingFile (sf_id new)) current new"

definition merge_files :: "source_file list \<Rightarrow> source_file list \<Rightarrow> compose_error + source_file list" where
  "merge_files = keyed_union sf_id join_files"

definition merge_occurrences ::
  "declaration_id \<Rightarrow> declaration_occurrence list \<Rightarrow> declaration_occurrence list \<Rightarrow> compose_error + declaration_occurrence list" where
  "merge_occurrences d = keyed_union occ_id (equal_or (ConflictingDeclaration d))"

definition join_declarations :: "source_declaration \<Rightarrow> source_declaration \<Rightarrow> compose_error + source_declaration" where
  "join_declarations current new =
     (if decl_identity current \<noteq> decl_identity new \<or> decl_name current \<noteq> decl_name new \<or>
         decl_linkage current \<noteq> decl_linkage new \<or> decl_visibility current \<noteq> decl_visibility new \<or>
         decl_support current \<noteq> decl_support new \<or> decl_kind current \<noteq> decl_kind new
      then Inl (ConflictingDeclaration (decl_id new))
      else map_sum id (\<lambda>os. current\<lparr>decl_occurrences := os\<rparr>)
             (merge_occurrences (decl_id new) (decl_occurrences current) (decl_occurrences new)))"

definition merge_declarations ::
  "source_declaration list \<Rightarrow> source_declaration list \<Rightarrow> compose_error + source_declaration list" where
  "merge_declarations = keyed_union decl_id join_declarations"

definition join_macros :: "source_macro \<Rightarrow> source_macro \<Rightarrow> compose_error + source_macro" where
  "join_macros current new =
     (if mac_identity_file current \<noteq> mac_identity_file new \<or> mac_name current \<noteq> mac_name new \<or>
         mac_form current \<noteq> mac_form new \<or> mac_category current \<noteq> mac_category new \<or>
         mac_body current \<noteq> mac_body new \<or> mac_tokens current \<noteq> mac_tokens new \<or>
         mac_value current \<noteq> mac_value new \<or> mac_support current \<noteq> mac_support new
      then Inl (ConflictingMacro (mac_id new))
      else map_sum id (\<lambda>os. current\<lparr>mac_occurrences := os\<rparr>)
             (keyed_union mocc_id (equal_or (ConflictingMacro (mac_id new)))
                (mac_occurrences current) (mac_occurrences new)))"

definition merge_macros :: "source_macro list \<Rightarrow> source_macro list \<Rightarrow> compose_error + source_macro list" where
  "merge_macros = keyed_union mac_id join_macros"

definition merge_inputs :: "effective_inputs \<Rightarrow> effective_inputs \<Rightarrow> compose_error + effective_inputs" where
  "merge_inputs left right =
     (if in_include_search left \<noteq> in_include_search right then Inl (IncompatibleSourceInputs ''include_search'')
      else if in_define_events left \<noteq> in_define_events right then Inl (IncompatibleSourceInputs ''define_events'')
      else if in_forced_includes left \<noteq> in_forced_includes right then Inl (IncompatibleSourceInputs ''forced_includes'')
      else if in_preprocessor left \<noteq> in_preprocessor right then Inl (IncompatibleSourceInputs ''preprocessor'')
      else if in_environment left \<noteq> in_environment right then Inl (IncompatibleSourceInputs ''environment'')
      else if in_path_mapping left \<noteq> in_path_mapping right
        then Inl (IncompatibleSourceInputs ''path_mapping_fingerprint'')
      else Inr (left\<lparr>in_entry_files := btree_set (in_entry_files left @ in_entry_files right)\<rparr>))"

definition merge_packages ::
  "'t source_package_input \<Rightarrow> 't source_package_input \<Rightarrow> compose_error + 't source_package_input" where
  "merge_packages p q =
     (if pkg_target p \<noteq> pkg_target q then Inl IncompatibleTarget
      else
        case merge_inputs (pkg_inputs p) (pkg_inputs q) of Inl e \<Rightarrow> Inl e | Inr inputs \<Rightarrow>
        case merge_files (pkg_files p) (pkg_files q) of Inl e \<Rightarrow> Inl e | Inr files \<Rightarrow>
        case merge_declarations (pkg_declarations p) (pkg_declarations q) of Inl e \<Rightarrow> Inl e | Inr declarations \<Rightarrow>
        case merge_macros (pkg_macros p) (pkg_macros q) of Inl e \<Rightarrow> Inl e | Inr macros \<Rightarrow>
          let diagnostics = btree_set (pkg_diagnostics p @ pkg_diagnostics q)
          in Inr \<lparr>pkg_target = pkg_target p, pkg_files = files, pkg_inputs = inputs,
               pkg_declarations = declarations, pkg_macros = macros, pkg_diagnostics = diagnostics,
               pkg_completeness = completeness_from_diagnostics diagnostics\<rparr>)"

subsection \<open>Keyed unions as unions of tables\<close>

definition table :: "('v \<Rightarrow> 'k) \<Rightarrow> 'v list \<Rightarrow> 'k \<Rightarrow> 'v option" where
  "table key vs = map_of (map (\<lambda>v. (key v, v)) vs)"

abbreviation ordered :: "('v \<Rightarrow> 'k::linorder) \<Rightarrow> 'v list \<Rightarrow> bool" where
  "ordered key vs \<equiv> sorted_wrt (<) (map key vs)"

lemma table_simps [simp]:
  "table key [] = Map.empty" "table key (v # vs) = (table key vs)(key v \<mapsto> v)"
  by (auto simp: table_def)

lemma table_None_iff: "table key vs k = None \<longleftrightarrow> k \<notin> key ` set vs"
  by (induction vs) auto

lemma table_SomeD: "table key vs k = Some v \<Longrightarrow> v \<in> set vs \<and> key v = k"
  by (induction vs) (auto split: if_splits)

lemma table_iff: "distinct (map key vs) \<Longrightarrow> table key vs k = Some v \<longleftrightarrow> v \<in> set vs \<and> key v = k"
  by (induction vs) (auto simp: rev_image_eqI)

lemma ordered_unique:
  assumes "ordered key xs" "ordered key ys" "table key xs = table key ys"
  shows "xs = ys"
proof -
  have d: "distinct (map key xs)" "distinct (map key ys)" using assms(1,2) by (auto simp: strict_sorted_iff)
  have "x \<in> set xs \<longleftrightarrow> x \<in> set ys" for x
    using table_iff [OF d(1), of "key x" x] table_iff [OF d(2), of "key x" x] assms(3) by simp
  then have sets: "set xs = set ys" by blast
  have "map key xs = map key ys"
    using assms(1,2) sets by (intro strict_sorted_equal) auto
  moreover have "inj_on key (set xs \<union> set ys)"
    using d(1) sets by (simp add: distinct_map)
  ultimately show ?thesis by (rule map_inj_on)
qed

text \<open>The entry \<open>c\<close> of a union, from the entries \<open>a\<close> and \<open>b\<close> of the two tables.\<close>

definition joined_entry ::
  "('v \<Rightarrow> 'v \<Rightarrow> compose_error + 'v) \<Rightarrow> 'v option \<Rightarrow> 'v option \<Rightarrow> 'v option \<Rightarrow> bool" where
  "joined_entry join a b c =
     (case (a, b) of
        (Some x, Some y) \<Rightarrow> (\<exists>z. join x y = Inr z \<and> c = Some z)
      | (Some x, None) \<Rightarrow> c = Some x
      | (None, _) \<Rightarrow> c = b)"

lemma joined_entry_unique: "joined_entry join a b c \<Longrightarrow> joined_entry join a b c' \<Longrightarrow> c = c'"
  by (auto simp: joined_entry_def split: option.splits)

lemma btree_entries_append:
  "btree_entries key join (us @ vs) m =
     (case btree_entries key join us m of Inl e \<Rightarrow> Inl e | Inr m' \<Rightarrow> btree_entries key join vs m')"
  by (induction us arbitrary: m) (auto split: sum.splits)

locale keyed_join =
  fixes key :: "'v \<Rightarrow> 'k::linorder" and join :: "'v \<Rightarrow> 'v \<Rightarrow> compose_error + 'v"
  assumes join_key: "key x = key y \<Longrightarrow> join x y = Inr z \<Longrightarrow> key z = key x"
begin

lemma entry_step:
  "btree_entry key join v (x # m) = r \<Longrightarrow>
     key v < key x \<and> r = Inr (v # x # m) \<or>
     key v = key x \<and> map_sum id (\<lambda>y. y # m) (join x v) = r \<or>
     key x < key v \<and> map_sum id (\<lambda>ys. x # ys) (btree_entry key join v m) = r"
  using neq_iff [of "key v" "key x"] by (cases "key v < key x"; cases "key v = key x") auto

lemma entry_Inl: "btree_entry key join v m = Inl e \<Longrightarrow> \<exists>x \<in> set m. key x = key v \<and> join x v = Inl e"
proof (induction m)
  case (Cons x m)
  from entry_step [OF Cons.prems] Cons.IH show ?case by fastforce
qed simp

lemma entry_table:
  assumes "btree_entry key join v m = Inr m'" "ordered key m"
  shows "key ` set m' = insert (key v) (key ` set m) \<and> ordered key m' \<and>
    (\<exists>w. table key m' = (table key m)(key v \<mapsto> w) \<and>
       (case table key m (key v) of None \<Rightarrow> w = v | Some x \<Rightarrow> join x v = Inr w))"
  using assms
proof (induction m arbitrary: m')
  case (Cons x m)
  have none: "key v \<le> key x \<Longrightarrow> table key m (key v) = None"
    using Cons.prems(2) by (force simp: table_None_iff)
  from entry_step [OF Cons.prems(1)] consider
      "key v < key x" "m' = v # x # m"
    | y where "key v = key x" "join x v = Inr y" "m' = y # m"
    | m'' where "key x < key v" "btree_entry key join v m = Inr m''" "m' = x # m''"
    by auto
  then show ?case
  proof cases
    case 1
    then show ?thesis using Cons.prems(2) none by (auto intro!: exI [of _ v])
  next
    case 2
    then have "key y = key x" using join_key by metis
    then show ?thesis using 2 Cons.prems(2) by (auto intro!: exI [of _ y])
  next
    case 3
    have "ordered key m" using Cons.prems(2) by simp
    from Cons.IH [OF 3(2) this] obtain w where "key ` set m'' = insert (key v) (key ` set m)" "ordered key m''"
      "table key m'' = (table key m)(key v \<mapsto> w)"
      "case table key m (key v) of None \<Rightarrow> w = v | Some x \<Rightarrow> join x v = Inr w"
      by blast
    then show ?thesis
      using 3 Cons.prems(2) by (auto intro!: exI [of _ w] simp flip: image_set split: option.splits)
  qed
qed simp

lemma entries_Inl:
  "btree_entries key join vs m = Inl e \<Longrightarrow> ordered key m \<Longrightarrow> distinct (map key vs) \<Longrightarrow>
     \<exists>k x y. table key m k = Some x \<and> table key vs k = Some y \<and> join x y = Inl e"
proof (induction vs arbitrary: m)
  case (Cons v vs)
  show ?case
  proof (cases "btree_entry key join v m")
    case (Inl e')
    then obtain x where "x \<in> set m" "key x = key v" "join x v = Inl e"
      using entry_Inl [of v m] Cons.prems(1) by auto
    then show ?thesis
      using Cons.prems(2) by (intro exI [of _ "key v"] exI [of _ x] exI [of _ v]) (auto simp: table_iff strict_sorted_iff)
  next
    case (Inr m')
    note m' = entry_table [OF Inr Cons.prems(2)]
    then have "ordered key m'" by blast
    moreover have "btree_entries key join vs m' = Inl e" "distinct (map key vs)"
      using Cons.prems(1,3) Inr by simp_all
    ultimately obtain k x y where k: "table key m' k = Some x" "table key vs k = Some y" "join x y = Inl e"
      using Cons.IH by blast
    have "k \<noteq> key v" using k(2) Cons.prems(3) table_None_iff [of key vs "key v"] by auto
    then show ?thesis using k m' by (intro exI [of _ k] exI [of _ x] exI [of _ y]) auto
  qed
qed simp

lemma entries_Inr:
  "btree_entries key join vs m = Inr m' \<Longrightarrow> ordered key m \<Longrightarrow> distinct (map key vs) \<Longrightarrow>
     ordered key m' \<and> (\<forall>k. joined_entry join (table key m k) (table key vs k) (table key m' k))"
proof (induction vs arbitrary: m)
  case Nil
  then show ?case by (simp add: joined_entry_def split: option.splits)
next
  case (Cons v vs)
  then obtain m1 where m1: "btree_entry key join v m = Inr m1" "btree_entries key join vs m1 = Inr m'"
    by (auto split: sum.splits)
  obtain w where w: "ordered key m1" "table key m1 = (table key m)(key v \<mapsto> w)"
    "case table key m (key v) of None \<Rightarrow> w = v | Some x \<Rightarrow> join x v = Inr w"
    using entry_table [OF m1(1) Cons.prems(2)] by blast
  have v: "table key vs (key v) = None" using Cons.prems(3) by (auto simp: table_None_iff)
  have IH: "ordered key m'" "joined_entry join (table key m1 k) (table key vs k) (table key m' k)" for k
    using Cons.IH [OF m1(2) w(1)] Cons.prems(3) by auto
  have "joined_entry join (table key m k) (table key (v # vs) k) (table key m' k)" for k
    using IH(2) [of k] w(2,3) v by (auto simp: joined_entry_def split: option.splits if_splits)
  then show ?case using IH(1) by blast
qed

lemma union_cases:
  assumes "ordered key l" "ordered key r"
  shows "case keyed_union key join l r of
     Inr m \<Rightarrow> ordered key m \<and> (\<forall>k. joined_entry join (table key l k) (table key r k) (table key m k))
   | Inl e \<Rightarrow> \<exists>k x y. table key l k = Some x \<and> table key r k = Some y \<and> join x y = Inl e"
proof -
  have d: "distinct (map key l)" "distinct (map key r)" using assms by (auto simp: strict_sorted_iff)
  obtain m where m: "btree_entries key join l [] = Inr m"
    using entries_Inl [of l "[]"] d(1) by (cases "btree_entries key join l []") auto
  have t: "ordered key m" "table key m = table key l"
    using entries_Inr [OF m _ d(1)] by (auto simp: joined_entry_def)
  have "keyed_union key join l r = btree_entries key join r m"
    by (simp add: keyed_union_def btree_entries_append m)
  then show ?thesis
    using entries_Inr [of r m, OF _ t(1) d(2)] entries_Inl [of r m, OF _ t(1) d(2)] t(2)
    by (auto split: sum.splits)
qed

text \<open>The keyed union is the pointwise join of the two tables, and fails only where a join does.\<close>

lemma union_iff:
  assumes "ordered key l" "ordered key r"
  shows "keyed_union key join l r = Inr m \<longleftrightarrow>
    ordered key m \<and> (\<forall>k. joined_entry join (table key l k) (table key r k) (table key m k))"
proof
  assume "keyed_union key join l r = Inr m"
  then show "ordered key m \<and> (\<forall>k. joined_entry join (table key l k) (table key r k) (table key m k))"
    using union_cases [OF assms] by simp
next
  assume m: "ordered key m \<and> (\<forall>k. joined_entry join (table key l k) (table key r k) (table key m k))"
  show "keyed_union key join l r = Inr m"
  proof (cases "keyed_union key join l r")
    case (Inl e)
    then obtain k x y where "table key l k = Some x" "table key r k = Some y" "join x y = Inl e"
      using union_cases [OF assms] by auto
    then have "joined_entry join (Some x) (Some y) (table key m k)" "join x y = Inl e" using m by metis+
    then show ?thesis by (simp add: joined_entry_def)
  next
    case (Inr m')
    then have m': "ordered key m'" "\<forall>k. joined_entry join (table key l k) (table key r k) (table key m' k)"
      using union_cases [OF assms] by auto
    then have "table key m' = table key m" using m joined_entry_unique by fast
    then show ?thesis using ordered_unique [of key m' m] Inr m m'(1) by simp
  qed
qed

end

locale commuting_join = keyed_join +
  assumes join_commute: "key x = key y \<Longrightarrow> join x y = Inr z \<longleftrightarrow> join y x = Inr z"
begin

lemma joined_entry_commute:
  "joined_entry join (table key l k) (table key r k) c \<longleftrightarrow> joined_entry join (table key r k) (table key l k) c"
proof (cases "table key l k"; cases "table key r k")
  fix x y
  assume xy: "table key l k = Some x" "table key r k = Some y"
  then have "key x = key y" using table_SomeD [of key] by metis
  then show ?thesis using xy join_commute by (simp add: joined_entry_def)
qed (auto simp: joined_entry_def)

lemma union_commute:
  "ordered key l \<Longrightarrow> ordered key r \<Longrightarrow> keyed_union key join l r = Inr m \<longleftrightarrow> keyed_union key join r l = Inr m"
  using joined_entry_commute by (simp add: union_iff)

end

interpretation equal: keyed_join key "equal_or e" for key :: "'v \<Rightarrow> 'k::linorder" and e
  by unfold_locales (auto simp: equal_or_def split: if_splits)

lemma equal_entry:
  fixes key :: "'v \<Rightarrow> 'k::linorder"
  assumes "btree_entry key (equal_or e) v m = Inr m'" "ordered key m"
  shows "ordered key m' \<and> set m' = insert v (set m)"
proof -
  obtain w where w: "ordered key m'" "table key m' = (table key m)(key v \<mapsto> w)"
    "case table key m (key v) of None \<Rightarrow> w = v | Some x \<Rightarrow> equal_or e x v = Inr w"
    using equal.entry_table [OF assms] by blast
  have d: "distinct (map key m)" "distinct (map key m')" using assms(2) w(1) by (auto simp: strict_sorted_iff)
  have "w = v" "table key m (key v) = None \<or> table key m (key v) = Some v"
    using w(3) by (auto simp: equal_or_def split: option.splits if_splits)
  then have "x \<in> set m' \<longleftrightarrow> x \<in> insert v (set m)" for x
    using w(2) table_iff [OF d(1), of "key x" x] table_iff [OF d(2), of "key x" x]
    by (cases "key x = key v") auto
  then show ?thesis using w(1) by blast
qed

lemma equal_entries:
  fixes key :: "'v \<Rightarrow> 'k::linorder"
  assumes "ordered key m"
  shows "case btree_entries key (equal_or e) vs m of
      Inr m' \<Rightarrow> ordered key m' \<and> set m' = set vs \<union> set m
    | Inl e' \<Rightarrow> \<not> inj_on key (set vs \<union> set m)"
  using assms
proof (induction vs arbitrary: m)
  case (Cons v vs)
  show ?case
  proof (cases "btree_entry key (equal_or e) v m")
    case (Inl e')
    then obtain x where "x \<in> set m" "key x = key v" "x \<noteq> v"
      using equal.entry_Inl [OF Inl] by (auto simp: equal_or_def split: if_splits)
    then show ?thesis using Inl by (auto simp: inj_on_def)
  next
    case (Inr m')
    note m' = equal_entry [OF Inr Cons.prems]
    then show ?thesis using Cons.IH [of m'] Inr by (simp split: sum.splits)
  qed
qed simp

text \<open>A union without joins: the union of the two sets, in order, if no key has two values.\<close>

lemma equal_union:
  fixes key :: "'v \<Rightarrow> 'k::linorder"
  shows "keyed_union key (equal_or e) l r = Inr m \<longleftrightarrow> ordered key m \<and> set m = set l \<union> set r"
proof
  assume m: "ordered key m \<and> set m = set l \<union> set r"
  then have "ordered key m" and sets: "set (l @ r) = set m" by simp_all
  then have "inj_on key (set (l @ r))" unfolding sets by (simp add: strict_sorted_iff distinct_map)
  then obtain m' where m': "keyed_union key (equal_or e) l r = Inr m'" "ordered key m'" "set m' = set (l @ r)"
    using equal_entries [where key = key and m = "[]" and e = e and vs = "l @ r"] by (auto simp: keyed_union_def split: sum.splits)
  have "distinct (map key m)" "distinct (map key m')"
    using \<open>ordered key m\<close> m'(2) by (auto simp: strict_sorted_iff)
  then have "table key m' k = Some x \<longleftrightarrow> table key m k = Some x" for k x
    using table_iff [of key m k x] table_iff [of key m' k x] m'(3) sets by blast
  then have "table key m' k = table key m k" for k
    by (metis not_Some_eq)
  then have "m' = m" using ordered_unique [OF m'(2) \<open>ordered key m\<close>] by blast
  then show "keyed_union key (equal_or e) l r = Inr m" using m'(1) by simp
qed (use equal_entries [where key = key and m = "[]" and e = e and vs = "l @ r"] in \<open>auto simp: keyed_union_def\<close>)

interpretation files: commuting_join sf_id join_files
  by unfold_locales (simp_all add: join_files_def equal_or_def eq_commute split: if_splits)

interpretation declarations: commuting_join decl_id join_declarations
proof
  fix x y z :: source_declaration
  assume id: "decl_id x = decl_id y"
  show "join_declarations x y = Inr z \<Longrightarrow> decl_id z = decl_id x"
    by (auto simp: join_declarations_def split: if_splits)
  show "join_declarations x y = Inr z \<longleftrightarrow> join_declarations y x = Inr z"
    using id by (auto simp: join_declarations_def merge_occurrences_def equal_union Un_commute split: if_splits)
qed

interpretation macros: commuting_join mac_id join_macros
proof
  fix x y z :: source_macro
  assume id: "mac_id x = mac_id y"
  show "join_macros x y = Inr z \<Longrightarrow> mac_id z = mac_id x"
    by (auto simp: join_macros_def split: if_splits)
  show "join_macros x y = Inr z \<longleftrightarrow> join_macros y x = Inr z"
    using id by (auto simp: join_macros_def equal_union Un_commute split: if_splits)
qed

lemma merge_inputs_commute: "merge_inputs x y = Inr z \<longleftrightarrow> merge_inputs y x = Inr z"
  using btree_set_unique [of "in_entry_files x @ in_entry_files y" "in_entry_files y @ in_entry_files x"]
  by (cases x; cases y) (auto simp: merge_inputs_def Un_commute split: if_splits)

subsection \<open>Properties\<close>

definition ordered_package :: "('t, 'z) source_package_input_scheme \<Rightarrow> bool" where
  "ordered_package p \<longleftrightarrow>
     ordered sf_id (pkg_files p) \<and> ordered decl_id (pkg_declarations p) \<and> ordered mac_id (pkg_macros p)"

lemma find_declaration_table:
  "ordered decl_id (pkg_declarations p) \<Longrightarrow> find_declaration p = table decl_id (pkg_declarations p)"
  using find_by_key_iff [of decl_id "pkg_declarations p"] table_iff [of decl_id "pkg_declarations p"]
  by (intro ext) (metis find_declaration_def not_Some_eq strict_sorted_iff)

lemma join_declarations_Inr:
  "decl_id x = decl_id y \<Longrightarrow> join_declarations x y = Inr z \<Longrightarrow>
     z = x\<lparr>decl_occurrences := decl_occurrences z\<rparr> \<and> z = y\<lparr>decl_occurrences := decl_occurrences z\<rparr> \<and>
     set (decl_occurrences z) = set (decl_occurrences x) \<union> set (decl_occurrences y)"
  by (auto simp: join_declarations_def merge_occurrences_def equal_union split: if_splits)

lemma merge_packages_Inr_iff:
  "merge_packages p q = Inr m \<longleftrightarrow>
     pkg_target p = pkg_target q \<and> pkg_target m = pkg_target p \<and>
     merge_inputs (pkg_inputs p) (pkg_inputs q) = Inr (pkg_inputs m) \<and>
     merge_files (pkg_files p) (pkg_files q) = Inr (pkg_files m) \<and>
     merge_declarations (pkg_declarations p) (pkg_declarations q) = Inr (pkg_declarations m) \<and>
     merge_macros (pkg_macros p) (pkg_macros q) = Inr (pkg_macros m) \<and>
     pkg_diagnostics m = btree_set (pkg_diagnostics p @ pkg_diagnostics q) \<and>
     pkg_completeness m = completeness_from_diagnostics (pkg_diagnostics m)"
  by (cases m) (auto simp: merge_packages_def Let_def split: sum.splits)

text \<open>Packages to try the operations on: an alias that points to a record, and a record of its own.\<close>

definition sample_declaration :: "string \<Rightarrow> declaration_occurrence list \<Rightarrow> source_declaration_kind \<Rightarrow> source_declaration" where
  "sample_declaration i os k =
     \<lparr>decl_id = DeclarationId i, decl_identity = NamedIdentity Ordinary TranslationUnit i, decl_name = None,
      decl_linkage = NoLinkage, decl_visibility = UnspecifiedVisibility, decl_occurrences = os,
      decl_support = Supported, decl_kind = k\<rparr>"

definition sample_record :: source_declaration_kind where
  "sample_record = RecordDecl \<lparr>rec_kind = Struct, rec_completeness = CompleteRecord, rec_fields = [],
     rec_alignment = None, rec_packing = None\<rparr>"

definition sample_type :: "c_type_kind \<Rightarrow> c_type" where
  "sample_type k = CType no_qualifiers Unspecified k Supported"

definition sample_occurrence :: "string \<Rightarrow> declaration_occurrence" where
  "sample_occurrence i =
     \<lparr>occ_id = OccurrenceId i, occ_range = SourceRange (FileId ''f'') 0 1, occ_name_range = None,
      occ_spelling = i, occ_tokens = [i], occ_ordinal = 0, occ_storage = NoStorage, occ_is_definition = False,
      occ_attributes = [], occ_provenance = \<lparr>prov_origin = EntryOrigin, prov_include_chain = [],
        prov_macro_expansions = []\<rparr>\<rparr>"

definition sample_package :: "source_declaration list \<Rightarrow> unit source_package_input" where
  "sample_package ds =
     \<lparr>pkg_target = (), pkg_files = [],
      pkg_inputs = \<lparr>in_entry_files = [], in_include_search = [], in_define_events = [], in_forced_includes = [],
        in_preprocessor = BuiltinPreprocessor ''1'', in_environment = Hermetic,
        in_path_mapping = ContentFingerprint []\<rparr>,
      pkg_declarations = ds, pkg_macros = [], pkg_diagnostics = [], pkg_completeness = Complete\<rparr>"

definition sample_alias :: source_declaration where
  "sample_alias = sample_declaration ''a'' [sample_occurrence ''1'']
     (TypeAliasDecl (sample_type (Pointer (sample_type (RecordRef (DeclarationId ''r''))))))"

definition left_package :: "unit source_package_input" where
  "left_package = sample_package
     [sample_alias, sample_declaration ''r'' [sample_occurrence ''2''] sample_record,
      sample_declaration ''s'' [sample_occurrence ''3''] sample_record]"

definition right_package :: "unit source_package_input" where
  "right_package = sample_package
     [sample_declaration ''r'' [sample_occurrence ''4''] sample_record,
      sample_declaration ''t'' [sample_occurrence ''5''] sample_record]"

lemmas sample_defs = sample_declaration_def sample_record_def sample_type_def sample_occurrence_def
  sample_package_def sample_alias_def left_package_def right_package_def

lemma sample_ordered: "ordered_package left_package \<and> ordered_package right_package"
  unfolding ordered_package_def by code_simp

lemma sample_ordered_declarations: "ordered_declarations left_package"
  using sample_ordered by (simp add: ordered_package_def ordered_declarations_def)

lemma sample_retained:
  "retain left_package (Only [DeclarationId ''a'']) =
     Inr (sample_package [sample_alias, sample_declaration ''r'' [sample_occurrence ''2''] sample_record])"
  by code_simp

lemma sample_merged:
  "merge_packages left_package right_package =
     Inr (sample_package
       [sample_alias, sample_declaration ''r'' [sample_occurrence ''2'', sample_occurrence ''4''] sample_record,
        sample_declaration ''s'' [sample_occurrence ''3''] sample_record,
        sample_declaration ''t'' [sample_occurrence ''5''] sample_record])"
  by code_simp

text \<open>
  C7: what \<open>retain\<close> keeps is closed, and no more than that.  The declarations that remain are those
  reachable from the selected roots through the references in types and the owners of scopes, unchanged and
  in their order; every reference of a remaining declaration leads to a remaining one.
\<close>
theorem retain_closed:
  assumes "ordered_declarations p" "retain p selection = Inr q"
  shows "\<exists>roots. retain_roots p selection = Inr roots \<and> declared_ids q = reachable p roots \<and>
    pkg_declarations q = filter (\<lambda>d. decl_id d \<in> reachable p roots) (pkg_declarations p) \<and>
    (\<Union>d \<in> set (pkg_declarations q). set (references d)) \<subseteq> declared_ids q"
  using assms(2)
proof (rule retainD)
  fix roots retained
  assume roots: "retain_roots p selection = Inr roots" "declaration_closure p roots = Inr retained"
    and decls: "pkg_declarations q = filter (\<lambda>d. decl_id d \<in> set retained) (pkg_declarations p)"
  have ret: "set retained = reachable p roots" "reachable p roots \<subseteq> dom (find_declaration p)"
    using roots(2) by (simp_all add: declaration_closure_Inr_iff)
  have ids: "declared_ids q = reachable p roots"
    using decls ret find_declaration_iff [OF assms(1)] by (fastforce simp: declared_ids_def)
  moreover have "set (references d) \<subseteq> reachable p roots" if "d \<in> set (pkg_declarations q)" for d
  proof -
    have "find_declaration p (decl_id d) = Some d" "decl_id d \<in> reachable p roots"
      using that decls ret find_declaration_iff [OF assms(1)] by auto
    then have "j \<in> set (references d) \<Longrightarrow> (decl_id d, j) \<in> reference_edges p" for j
      by (simp add: reference_edges_def)
    then show ?thesis
      using \<open>decl_id d \<in> reachable p roots\<close> by (auto simp: reachable_def intro: rtrancl_into_rtrancl)
  qed
  ultimately show ?thesis using roots(1) decls ret by (intro exI [of _ roots]) auto
qed

theorem retain_closed_witness:
  "\<exists>q roots. retain left_package (Only [DeclarationId ''a'']) = Inr q \<and>
     declared_ids q = reachable left_package roots \<and>
     (\<Union>d \<in> set (pkg_declarations q). set (references d)) \<subseteq> declared_ids q"
  using retain_closed [OF sample_ordered_declarations sample_retained] sample_retained by blast

text \<open>
  retaining is a projection.  Retaining the same selection from the result of \<open>retain\<close> returns it unchanged,
  diagnostics and completeness included.
\<close>
theorem retain_idempotent:
  assumes "ordered_declarations p" "retain p selection = Inr q"
  shows "retain q selection = Inr q"
  using assms(2)
proof (rule retainD)
  fix roots retained
  assume roots: "retain_roots p selection = Inr roots" "declaration_closure p roots = Inr retained"
    and decls: "pkg_declarations q = filter (\<lambda>d. decl_id d \<in> set retained) (pkg_declarations p)"
    and diags: "pkg_diagnostics q = filter
      (\<lambda>d. case diag_declaration d of None \<Rightarrow> True | Some i \<Rightarrow> i \<in> set retained) (pkg_diagnostics p)"
    and rest: "pkg_completeness q = completeness_from_diagnostics (pkg_diagnostics q)"
  have ret: "set retained = reachable p roots" "sorted_wrt (<) retained" "reachable p roots \<subseteq> dom (find_declaration p)"
    using roots(2) by (auto simp: declaration_closure_Inr_iff)
  note lookup = find_declaration_filter [OF assms(1) decls]
  have "reachable q roots = reachable p roots" using reachable_filter lookup ret(1) by metis
  moreover have "reachable p roots \<subseteq> dom (find_declaration q)"
    using ret(1,3) by (auto simp: lookup dom_def)
  ultimately have "declaration_closure q roots = Inr retained"
    using ret(1,2) by (simp add: declaration_closure_Inr_iff)
  moreover have "retain_roots q selection = Inr roots"
    using retain_roots_again [OF roots(1) _ lookup decls] roots_reachable ret(1) by blast
  moreover have "filter (\<lambda>d. decl_id d \<in> set retained) (pkg_declarations q) = pkg_declarations q"
    "filter (\<lambda>d. case diag_declaration d of None \<Rightarrow> True | Some i \<Rightarrow> i \<in> set retained) (pkg_diagnostics q) =
      pkg_diagnostics q"
    using decls diags by simp_all
  ultimately show ?thesis using rest by (cases q) (simp add: retain_def)
qed

theorem retain_idempotent_witness:
  "\<exists>q. retain left_package (Only [DeclarationId ''a'']) = Inr q \<and> retain q (Only [DeclarationId ''a'']) = Inr q"
  using retain_idempotent [OF sample_ordered_declarations sample_retained] sample_retained by blast

text \<open>
  C25: merging does not depend on the order of the packages.  If one of the two merges succeeds, so does the
  other, with the same package.
\<close>
theorem merge_commutes:
  assumes "ordered_package p" "ordered_package q"
  shows "merge_packages p q = Inr m \<longleftrightarrow> merge_packages q p = Inr m"
  using assms files.union_commute declarations.union_commute macros.union_commute merge_inputs_commute
    btree_set_unique [of "pkg_diagnostics p @ pkg_diagnostics q" "pkg_diagnostics q @ pkg_diagnostics p"]
  by (auto simp: merge_packages_Inr_iff ordered_package_def merge_files_def merge_declarations_def merge_macros_def
      Un_commute)

theorem merge_commutes_witness:
  "\<exists>m. merge_packages left_package right_package = Inr m \<and> merge_packages right_package left_package = Inr m"
  using merge_commutes [of left_package right_package] sample_ordered sample_merged by blast

text \<open>
  C15: a merged package has the declarations of both.  A declaration of only one package is kept as it is; one
  of both packages must agree in everything but its occurrences, and gets the occurrences of both.  The
  tables of the result are again in strict order.
\<close>
theorem merge_declares_both:
  assumes "ordered_package p" "ordered_package q" "merge_packages p q = Inr m"
  shows "ordered_package m \<and>
    (case (find_declaration p i, find_declaration q i) of
       (Some x, Some y) \<Rightarrow> \<exists>z. find_declaration m i = Some z \<and>
         z = x\<lparr>decl_occurrences := decl_occurrences z\<rparr> \<and> z = y\<lparr>decl_occurrences := decl_occurrences z\<rparr> \<and>
         set (decl_occurrences z) = set (decl_occurrences x) \<union> set (decl_occurrences y)
     | (Some x, None) \<Rightarrow> find_declaration m i = Some x
     | (None, y) \<Rightarrow> find_declaration m i = y)"
proof -
  have m: "ordered sf_id (pkg_files m)" "ordered mac_id (pkg_macros m)" "ordered decl_id (pkg_declarations m)"
    and joined: "joined_entry join_declarations (find_declaration p i) (find_declaration q i) (find_declaration m i)"
    using assms files.union_iff [of "pkg_files p" "pkg_files q"] macros.union_iff [of "pkg_macros p" "pkg_macros q"]
      declarations.union_iff [of "pkg_declarations p" "pkg_declarations q"]
    by (auto simp: merge_packages_Inr_iff ordered_package_def merge_files_def merge_declarations_def
        merge_macros_def find_declaration_table)
  have "z = x\<lparr>decl_occurrences := decl_occurrences z\<rparr> \<and> z = y\<lparr>decl_occurrences := decl_occurrences z\<rparr> \<and>
      set (decl_occurrences z) = set (decl_occurrences x) \<union> set (decl_occurrences y)"
    if "find_declaration p i = Some x" "find_declaration q i = Some y" "join_declarations x y = Inr z" for x y z
    using join_declarations_Inr [OF _ that(3)] find_declarationD [OF that(1)] find_declarationD [OF that(2)] by simp
  then show ?thesis
    using m joined unfolding ordered_package_def joined_entry_def by (auto split: option.splits)
qed

theorem merge_declares_both_witness:
  "\<exists>m z. merge_packages left_package right_package = Inr m \<and> ordered_package m \<and>
     find_declaration m (DeclarationId ''r'') = Some z \<and>
     set (decl_occurrences z) = {sample_occurrence ''2'', sample_occurrence ''4''}"
proof -
  have x: "find_declaration left_package (DeclarationId ''r'') =
      Some (sample_declaration ''r'' [sample_occurrence ''2''] sample_record)"
    and y: "find_declaration right_package (DeclarationId ''r'') =
      Some (sample_declaration ''r'' [sample_occurrence ''4''] sample_record)"
    by code_simp+
  show ?thesis
    using merge_declares_both [OF _ _ sample_merged, of "DeclarationId ''r''"] sample_ordered sample_merged
    unfolding x y by (auto simp: sample_declaration_def)
qed

end
