(* ===== verification/Complete.thy ===== *)
theory Complete
  imports Compose
begin

text \<open>
  The proof of completeness (\<open>src/contract/complete.rs\<close>): \<open>into_complete\<close> walks the declarations that the
  selected roots need, with the strength in which each is needed, and collects what blocks them.
\<close>

subsection \<open>Needs and blockers\<close>

datatype need = OpaqueSufficient | Definition

instantiation need :: linorder
begin

definition less_eq_need :: "need \<Rightarrow> need \<Rightarrow> bool" where
  "a \<le> b \<longleftrightarrow> a = OpaqueSufficient \<or> b = Definition"

definition less_need :: "need \<Rightarrow> need \<Rightarrow> bool" where
  "a < b \<longleftrightarrow> a = OpaqueSufficient \<and> b = Definition"

instance
proof
  fix x y z :: need
  show "x < y \<longleftrightarrow> x \<le> y \<and> \<not> y \<le> x" "x \<le> x" "x \<le> y \<Longrightarrow> y \<le> z \<Longrightarrow> x \<le> z" "x \<le> y \<Longrightarrow> y \<le> x \<Longrightarrow> x = y"
    "x \<le> y \<or> y \<le> x"
    by (cases x; cases y; cases z; simp add: less_eq_need_def less_need_def)+
qed

end

lemma need_simps [simp]:
  "n \<le> Definition" "OpaqueSufficient \<le> n" "Definition \<le> n \<longleftrightarrow> n = Definition" "n < Definition \<longleftrightarrow> n = OpaqueSufficient"
  "\<not> n < OpaqueSufficient" "n \<le> OpaqueSufficient \<longleftrightarrow> n = OpaqueSufficient"
  by (cases n; simp add: less_eq_need_def less_need_def)+

datatype completion_blocker =
    PackageIncomplete "completeness_reason list"
  | MissingBlocker declaration_id
  | UnsupportedBlocker declaration_id string string
  | IncompleteRecordBlocker declaration_id
  | OpaqueRootBlocker declaration_id

text \<open>The derived \<open>Display\<close>.\<close>

definition display_declaration_id :: "declaration_id \<Rightarrow> string" where
  "display_declaration_id i = display_digest ''pdecl1_'' (declaration_bytes i)"

fun blocker_text :: "completion_blocker \<Rightarrow> string" where
  "blocker_text (PackageIncomplete reasons) = ''source package is partial or rejected''"
| "blocker_text (MissingBlocker i) =
     ''selected or transitive declaration '' @ display_declaration_id i @ '' is missing''"
| "blocker_text (UnsupportedBlocker i path reason) =
     ''declaration '' @ display_declaration_id i @ '' is not fully supported at '' @ path @ '': '' @ reason"
| "blocker_text (IncompleteRecordBlocker i) =
     ''record declaration '' @ display_declaration_id i @ '' is incomplete but a complete definition is required''"
| "blocker_text (OpaqueRootBlocker i) =
     ''opaque selection root '' @ display_declaration_id i @ '' is not a record declaration''"

subsection \<open>The walk\<close>

record closure_state =
  cl_required :: "(declaration_id \<times> need) list"
  cl_queue :: "(declaration_id \<times> need) list"
  cl_blockers :: "completion_blocker list"

definition block :: "completion_blocker \<Rightarrow> closure_state \<Rightarrow> closure_state" where
  "block b st = st\<lparr>cl_blockers := cl_blockers st @ [b]\<rparr>"

definition reject :: "declaration_id \<Rightarrow> string \<Rightarrow> string \<Rightarrow> closure_state \<Rightarrow> closure_state" where
  "reject i path reason = block (UnsupportedBlocker i path reason)"

definition reject_status :: "declaration_id \<Rightarrow> string \<Rightarrow> support_status \<Rightarrow> closure_state \<Rightarrow> closure_state" where
  "reject_status owner path status st =
     (case status of
        Supported \<Rightarrow> st
      | PartialSupport code reason \<Rightarrow> reject owner path reason st
      | UnsupportedSupport code reason \<Rightarrow> reject owner path reason st)"

definition indexed :: "string \<Rightarrow> nat \<Rightarrow> string" where
  "indexed path i = path @ ''['' @ print_digits 10 i @ '']''"

fun reject_attributes :: "declaration_id \<Rightarrow> string \<Rightarrow> nat \<Rightarrow> source_attribute list \<Rightarrow> closure_state \<Rightarrow> closure_state" where
  "reject_attributes owner path i [] st = st"
| "reject_attributes owner path i (a # as) st =
     reject_attributes owner path (Suc i) as
       (if attr_disposition a = UnsupportedAbiRelevant then reject owner (indexed path i) (attr_spelling a) st else st)"

definition reject_convention :: "declaration_id \<Rightarrow> string \<Rightarrow> calling_convention \<Rightarrow> closure_state \<Rightarrow> closure_state" where
  "reject_convention owner path cc st =
     (case cc of UnsupportedConvention spelling \<Rightarrow> reject owner path spelling st | _ \<Rightarrow> st)"

definition enqueue :: "declaration_id \<Rightarrow> need \<Rightarrow> closure_state \<Rightarrow> closure_state" where
  "enqueue i need st =
     (case map_of (cl_required st) i of
        None \<Rightarrow> st\<lparr>cl_required := AList.update i need (cl_required st), cl_queue := cl_queue st @ [(i, need)]\<rparr>
      | Some existing \<Rightarrow>
          if existing < need
          then st\<lparr>cl_required := AList.update i need (cl_required st), cl_queue := cl_queue st @ [(i, need)]\<rparr>
          else st)"

definition pointer_need :: "bool \<Rightarrow> need" where
  "pointer_need behind_pointer = (if behind_pointer then OpaqueSufficient else Definition)"

fun visit_type :: "declaration_id \<Rightarrow> string \<Rightarrow> c_type \<Rightarrow> bool \<Rightarrow> closure_state \<Rightarrow> closure_state"
  and visit_kind :: "declaration_id \<Rightarrow> string \<Rightarrow> c_type_kind \<Rightarrow> bool \<Rightarrow> closure_state \<Rightarrow> closure_state"
  and visit_function :: "declaration_id \<Rightarrow> string \<Rightarrow> c_function_type \<Rightarrow> closure_state \<Rightarrow> closure_state"
  and visit_parameters ::
    "declaration_id \<Rightarrow> string \<Rightarrow> nat \<Rightarrow> c_function_parameter list \<Rightarrow> closure_state \<Rightarrow> closure_state" where
  "visit_type owner path (CType q n k s) bp st =
     visit_kind owner path k bp (reject_status owner (path @ ''.support'') s st)"
| "visit_kind owner path (Pointer t) bp st = visit_type owner (path @ ''.pointee'') t True st"
| "visit_kind owner path (Array t b q) bp st =
     visit_type owner (path @ ''.element'') t bp
       (case b of InvalidBound spelling code \<Rightarrow> reject owner (path @ ''.bound'') spelling st | _ \<Rightarrow> st)"
| "visit_kind owner path (Function f) bp st = visit_function owner path f st"
| "visit_kind owner path (AliasRef i) bp st = enqueue i (pointer_need bp) st"
| "visit_kind owner path (EnumRef i) bp st = enqueue i Definition st"
| "visit_kind owner path (RecordRef i) bp st = enqueue i (pointer_need bp) st"
| "visit_kind owner path (UnsupportedKind c spelling) bp st = reject owner path spelling st"
| "visit_kind owner path Void bp st = st"
| "visit_kind owner path Bool bp st = st"
| "visit_kind owner path (Integer it) bp st = st"
| "visit_kind owner path (Floating ft) bp st = st"
| "visit_kind owner path (Complex ft) bp st = st"
| "visit_function owner path (CFunctionType r ps pt cc) st =
     visit_parameters owner path 0 ps
       (visit_type owner (path @ ''.return_type'') r False
         (reject_convention owner (path @ ''.calling_convention'') cc st))"
| "visit_parameters owner path i [] st = st"
| "visit_parameters owner path i (CFunctionParameter name t # ps) st =
     visit_parameters owner path (Suc i) ps (visit_type owner (indexed (path @ ''.parameters'') i) t False st)"

fun visit_source_parameters :: "declaration_id \<Rightarrow> nat \<Rightarrow> source_parameter list \<Rightarrow> closure_state \<Rightarrow> closure_state" where
  "visit_source_parameters owner i [] st = st"
| "visit_source_parameters owner i (p # ps) st =
     (let path = indexed ''kind.function.parameters'' i in
      visit_source_parameters owner (Suc i) ps
        (visit_type owner (path @ ''.ty'') (par_ty p) False
          (reject_attributes owner (path @ ''.attributes'') 0 (par_attributes p)
            (reject_status owner (path @ ''.support'') (par_support p) st))))"

fun visit_fields :: "declaration_id \<Rightarrow> nat \<Rightarrow> source_field list \<Rightarrow> closure_state \<Rightarrow> closure_state" where
  "visit_fields owner i [] st = st"
| "visit_fields owner i (f # fs) st =
     (let path = indexed ''kind.record.fields'' i in
      visit_fields owner (Suc i) fs
        (visit_type owner (path @ ''.ty'') (fld_ty f) False
          (reject_attributes owner (path @ ''.attributes'') 0 (fld_attributes f)
            (reject_status owner (path @ ''.support'') (fld_support f) st))))"

fun visit_variants :: "declaration_id \<Rightarrow> nat \<Rightarrow> source_enum_variant list \<Rightarrow> closure_state \<Rightarrow> closure_state" where
  "visit_variants owner i [] st = st"
| "visit_variants owner i (v # vs) st =
     (let path = indexed ''kind.enum.variants'' i in
      visit_variants owner (Suc i) vs
        (reject_attributes owner (path @ ''.attributes'') 0 (var_attributes v)
          (reject_status owner (path @ ''.support'') (var_support v) st)))"

fun visit_occurrences :: "declaration_id \<Rightarrow> nat \<Rightarrow> declaration_occurrence list \<Rightarrow> closure_state \<Rightarrow> closure_state" where
  "visit_occurrences owner i [] st = st"
| "visit_occurrences owner i (o1 # os) st =
     visit_occurrences owner (Suc i) os
       (reject_attributes owner (indexed ''occurrences'' i @ ''.attributes'') 0 (occ_attributes o1) st)"

fun visit_declaration_kind ::
  "declaration_id \<Rightarrow> need \<Rightarrow> source_declaration_kind \<Rightarrow> closure_state \<Rightarrow> closure_state" where
  "visit_declaration_kind i need (FunctionDecl f) st =
     visit_source_parameters i 0 (fun_parameters f)
       (visit_type i ''kind.function.return_type'' (fun_return f) False
         (reject_convention i ''kind.function.calling_convention'' (fun_convention f) st))"
| "visit_declaration_kind i need (RecordDecl r) st =
     (let st1 = (if need = Definition \<and> rec_completeness r = IncompleteRecord
                 then block (IncompleteRecordBlocker i) st else st)
      in if need = Definition then visit_fields i 0 (rec_fields r) st1 else st1)"
| "visit_declaration_kind i need (EnumDecl e) st =
     visit_variants i 0 (enum_variants e)
       (case enum_underlying e of
          None \<Rightarrow> st
        | Some t \<Rightarrow> visit_type i ''kind.enum.explicit_underlying_type'' t False st)"
| "visit_declaration_kind i need (TypeAliasDecl t) st =
     visit_type i ''kind.type_alias.target'' t (need = OpaqueSufficient) st"
| "visit_declaration_kind i need (VariableDecl v) st = visit_type i ''kind.variable.ty'' (vr_ty v) False st"
| "visit_declaration_kind i need (UnsupportedDecl u) st = reject i ''kind.unsupported'' (uns_spelling u) st"

definition validate_declaration_closure :: "source_declaration \<Rightarrow> need \<Rightarrow> closure_state \<Rightarrow> closure_state" where
  "validate_declaration_closure d need st =
     visit_declaration_kind (decl_id d) need (decl_kind d)
       (visit_occurrences (decl_id d) 0 (decl_occurrences d)
         (reject_status (decl_id d) ''support'' (decl_support d) st))"

subsection \<open>What a declaration needs, and whether it is supported\<close>

fun convention_supported :: "calling_convention \<Rightarrow> bool" where
  "convention_supported (UnsupportedConvention s) = False"
| "convention_supported _ = True"

fun bound_valid :: "array_bound \<Rightarrow> bool" where
  "bound_valid (InvalidBound s c) = False"
| "bound_valid _ = True"

definition attributes_supported :: "source_attribute list \<Rightarrow> bool" where
  "attributes_supported = list_all (\<lambda>a. attr_disposition a \<noteq> UnsupportedAbiRelevant)"

fun type_needs :: "bool \<Rightarrow> c_type \<Rightarrow> (declaration_id \<times> need) list"
  and kind_needs :: "bool \<Rightarrow> c_type_kind \<Rightarrow> (declaration_id \<times> need) list"
  and function_needs :: "c_function_type \<Rightarrow> (declaration_id \<times> need) list"
  and parameter_needs :: "c_function_parameter list \<Rightarrow> (declaration_id \<times> need) list" where
  "type_needs bp (CType q n k s) = kind_needs bp k"
| "kind_needs bp (Pointer t) = type_needs True t"
| "kind_needs bp (Array t b q) = type_needs bp t"
| "kind_needs bp (Function f) = function_needs f"
| "kind_needs bp (AliasRef i) = [(i, pointer_need bp)]"
| "kind_needs bp (RecordRef i) = [(i, pointer_need bp)]"
| "kind_needs bp (EnumRef i) = [(i, Definition)]"
| "kind_needs bp (UnsupportedKind c s) = []"
| "kind_needs bp Void = []"
| "kind_needs bp Bool = []"
| "kind_needs bp (Integer it) = []"
| "kind_needs bp (Floating ft) = []"
| "kind_needs bp (Complex ft) = []"
| "function_needs (CFunctionType r ps pt cc) = type_needs False r @ parameter_needs ps"
| "parameter_needs [] = []"
| "parameter_needs (CFunctionParameter n t # ps) = type_needs False t @ parameter_needs ps"

fun type_supported :: "c_type \<Rightarrow> bool"
  and kind_supported :: "c_type_kind \<Rightarrow> bool"
  and function_supported :: "c_function_type \<Rightarrow> bool"
  and parameters_supported :: "c_function_parameter list \<Rightarrow> bool" where
  "type_supported (CType q n k s) \<longleftrightarrow> is_supported s \<and> kind_supported k"
| "kind_supported (Pointer t) = type_supported t"
| "kind_supported (Array t b q) \<longleftrightarrow> bound_valid b \<and> type_supported t"
| "kind_supported (Function f) = function_supported f"
| "kind_supported (UnsupportedKind c s) = False"
| "kind_supported (AliasRef i) = True"
| "kind_supported (RecordRef i) = True"
| "kind_supported (EnumRef i) = True"
| "kind_supported Void = True"
| "kind_supported Bool = True"
| "kind_supported (Integer it) = True"
| "kind_supported (Floating ft) = True"
| "kind_supported (Complex ft) = True"
| "function_supported (CFunctionType r ps pt cc) \<longleftrightarrow>
     convention_supported cc \<and> type_supported r \<and> parameters_supported ps"
| "parameters_supported [] = True"
| "parameters_supported (CFunctionParameter n t # ps) \<longleftrightarrow> type_supported t \<and> parameters_supported ps"

fun declaration_needs :: "need \<Rightarrow> source_declaration_kind \<Rightarrow> (declaration_id \<times> need) list" where
  "declaration_needs need (FunctionDecl f) =
     type_needs False (fun_return f) @ concat (map (type_needs False \<circ> par_ty) (fun_parameters f))"
| "declaration_needs need (RecordDecl r) =
     (if need = Definition then concat (map (type_needs False \<circ> fld_ty) (rec_fields r)) else [])"
| "declaration_needs need (EnumDecl e) =
     (case enum_underlying e of None \<Rightarrow> [] | Some t \<Rightarrow> type_needs False t)"
| "declaration_needs need (TypeAliasDecl t) = type_needs (need = OpaqueSufficient) t"
| "declaration_needs need (VariableDecl v) = type_needs False (vr_ty v)"
| "declaration_needs need (UnsupportedDecl u) = []"

fun declaration_kind_supported :: "need \<Rightarrow> source_declaration_kind \<Rightarrow> bool" where
  "declaration_kind_supported need (FunctionDecl f) \<longleftrightarrow>
     convention_supported (fun_convention f) \<and> type_supported (fun_return f) \<and>
     list_all (\<lambda>p. is_supported (par_support p) \<and> attributes_supported (par_attributes p) \<and> type_supported (par_ty p))
       (fun_parameters f)"
| "declaration_kind_supported need (RecordDecl r) \<longleftrightarrow>
     need = OpaqueSufficient \<or>
     rec_completeness r = CompleteRecord \<and>
     list_all (\<lambda>f. is_supported (fld_support f) \<and> attributes_supported (fld_attributes f) \<and> type_supported (fld_ty f))
       (rec_fields r)"
| "declaration_kind_supported need (EnumDecl e) \<longleftrightarrow>
     (case enum_underlying e of None \<Rightarrow> True | Some t \<Rightarrow> type_supported t) \<and>
     list_all (\<lambda>v. is_supported (var_support v) \<and> attributes_supported (var_attributes v)) (enum_variants e)"
| "declaration_kind_supported need (TypeAliasDecl t) \<longleftrightarrow> type_supported t"
| "declaration_kind_supported need (VariableDecl v) \<longleftrightarrow> type_supported (vr_ty v)"
| "declaration_kind_supported need (UnsupportedDecl u) \<longleftrightarrow> False"

definition declaration_supported :: "need \<Rightarrow> source_declaration \<Rightarrow> bool" where
  "declaration_supported need d \<longleftrightarrow>
     is_supported (decl_support d) \<and> list_all (attributes_supported \<circ> occ_attributes) (decl_occurrences d) \<and>
     declaration_kind_supported need (decl_kind d)"

subsection \<open>The effect of a visit\<close>

definition request :: "(declaration_id \<times> need) list \<Rightarrow> closure_state \<Rightarrow> closure_state" where
  "request = fold (\<lambda>(i, n). enqueue i n)"

definition add_blockers :: "completion_blocker list \<Rightarrow> closure_state \<Rightarrow> closure_state" where
  "add_blockers bs st = st\<lparr>cl_blockers := cl_blockers st @ bs\<rparr>"

text \<open>A visit enqueues the needs \<open>rs\<close>, and adds a blocker exactly if something is not supported.\<close>

definition effect :: "(declaration_id \<times> need) list \<Rightarrow> bool \<Rightarrow> closure_state \<Rightarrow> closure_state \<Rightarrow> bool" where
  "effect rs ok st st' \<longleftrightarrow> (\<exists>bs. st' = add_blockers bs (request rs st) \<and> (bs = [] \<longleftrightarrow> ok))"

lemma enqueue_add_blockers: "enqueue i n (add_blockers bs st) = add_blockers bs (enqueue i n st)"
  by (simp add: enqueue_def add_blockers_def split: option.splits)

lemma request_add_blockers: "request rs (add_blockers bs st) = add_blockers bs (request rs st)"
  by (induction rs arbitrary: st) (auto simp: request_def enqueue_add_blockers)

lemma add_blockers_append: "add_blockers bs (add_blockers cs st) = add_blockers (cs @ bs) st"
  by (simp add: add_blockers_def)

lemma add_blockers_Nil [simp]: "add_blockers [] st = st"
  by (simp add: add_blockers_def)

named_theorems effects "effects of the visiting functions"

lemma effect_id [effects]: "effect [] True st st"
  unfolding effect_def request_def by (rule exI [of _ "[]"]) simp

lemma effect_seq: "effect rs ok st st' \<Longrightarrow> effect rs' ok' st' st'' \<Longrightarrow> effect (rs @ rs') (ok \<and> ok') st st''"
proof -
  assume "effect rs ok st st'" "effect rs' ok' st' st''"
  then obtain bs bs' where "st' = add_blockers bs (request rs st)" "bs = [] \<longleftrightarrow> ok"
    "st'' = add_blockers bs' (request rs' st')" "bs' = [] \<longleftrightarrow> ok'"
    by (auto simp: effect_def)
  moreover have "request (rs @ rs') st = request rs' (request rs st)" by (simp add: request_def)
  ultimately show ?thesis
    unfolding effect_def by (intro exI [of _ "bs @ bs'"]) (simp add: request_add_blockers add_blockers_append)
qed

lemma effect_block [effects]: "effect [] False st (block b st)" "effect [] False st (reject i path reason st)"
  by (auto simp: effect_def request_def reject_def block_def add_blockers_def)

lemma effect_enqueue [effects]: "effect [(i, n)] True st (enqueue i n st)"
  by (auto simp: effect_def request_def)

lemma effect_status [effects]: "effect [] (is_supported s) st (reject_status owner path s st)"
  by (cases s) (simp_all add: reject_status_def is_supported_def effects)

lemma effect_convention [effects]: "effect [] (convention_supported cc) st (reject_convention owner path cc st)"
  by (cases cc) (simp_all add: reject_convention_def effects)

lemma effect_attributes [effects]:
  "effect [] (attributes_supported as) st (reject_attributes owner path i as st)"
proof (induction as arbitrary: i st)
  case Nil
  then show ?case by (simp add: attributes_supported_def effects)
next
  case (Cons a as)
  have "effect [] (attr_disposition a \<noteq> UnsupportedAbiRelevant) st
    (if attr_disposition a = UnsupportedAbiRelevant then reject owner (indexed path i) (attr_spelling a) st else st)"
    by (simp add: effects)
  from effect_seq [OF this Cons.IH] show ?case by (simp add: attributes_supported_def)
qed

lemma effect_seq0: "effect [] ok st st' \<Longrightarrow> effect rs ok' st' st'' \<Longrightarrow> effect rs (ok \<and> ok') st st''"
  using effect_seq [of "[]"] by simp

lemma effect_seq1: "effect rs ok st st' \<Longrightarrow> effect [] ok' st' st'' \<Longrightarrow> effect rs (ok \<and> ok') st st''"
  using effect_seq [of rs ok st st' "[]"] by simp

lemma effect_bound [effects]:
  "effect [] (bound_valid b) st
     (case b of InvalidBound spelling code \<Rightarrow> reject owner path spelling st | _ \<Rightarrow> st)"
  by (cases b) (simp_all add: effects)

lemma effect_visit:
  "effect (type_needs bp t) (type_supported t) st (visit_type owner path t bp st)"
  "effect (kind_needs bp k) (kind_supported k) st (visit_kind owner path k bp st)"
  "effect (function_needs f) (function_supported f) st (visit_function owner path f st)"
  "effect (parameter_needs ps) (parameters_supported ps) st (visit_parameters owner path i ps st)"
proof (induction owner path t bp st and owner path k bp st and owner path f st and owner path i ps st
    rule: visit_type_visit_kind_visit_function_visit_parameters.induct)
  case (1 owner path q n k s bp st)
  from effect_seq0 [OF effect_status 1] show ?case by simp
next
  case (3 owner path t b q bp st)
  from effect_seq0 [OF effect_bound 3] show ?case by simp
next
  case (14 owner path r ps pt cc st)
  from effect_seq [OF effect_seq0 [OF effect_convention 14(1)] 14(2)] show ?case by (simp add: conj_assoc)
next
  case (16 owner path i name t ps st)
  from effect_seq [OF 16(1) 16(2)] show ?case by simp
qed (simp_all add: effects)

lemma effect_item:
  "effect (type_needs False t) (is_supported s \<and> attributes_supported as \<and> type_supported t) st
     (visit_type owner path t False (reject_attributes owner path' 0 as (reject_status owner path'' s st)))"
  using effect_seq0 [OF effect_status effect_seq0 [OF effect_attributes effect_visit(1)]] by blast

lemma effect_source_parameters:
  "effect (concat (map (type_needs False \<circ> par_ty) ps))
     (list_all (\<lambda>p. is_supported (par_support p) \<and> attributes_supported (par_attributes p) \<and> type_supported (par_ty p)) ps)
     st (visit_source_parameters owner i ps st)"
proof (induction owner i ps st rule: visit_source_parameters.induct)
  case (2 owner i x xs st)
  from effect_seq [OF effect_item 2 [OF refl]] show ?case by (simp add: Let_def conj_assoc)
qed (simp add: effects)

lemma effect_fields:
  "effect (concat (map (type_needs False \<circ> fld_ty) fs))
     (list_all (\<lambda>f. is_supported (fld_support f) \<and> attributes_supported (fld_attributes f) \<and> type_supported (fld_ty f)) fs)
     st (visit_fields owner i fs st)"
proof (induction owner i fs st rule: visit_fields.induct)
  case (2 owner i x xs st)
  from effect_seq [OF effect_item 2 [OF refl]] show ?case by (simp add: Let_def conj_assoc)
qed (simp add: effects)

lemma effect_variants:
  "effect [] (list_all (\<lambda>v. is_supported (var_support v) \<and> attributes_supported (var_attributes v)) vs)
     st (visit_variants owner i vs st)"
proof (induction owner i vs st rule: visit_variants.induct)
  case (2 owner i v vs st)
  from effect_seq0 [OF effect_seq0 [OF effect_status effect_attributes] 2 [OF refl]] show ?case
    by (simp add: Let_def)
qed (simp add: effects)

lemma effect_occurrences:
  "effect [] (list_all (attributes_supported \<circ> occ_attributes) os) st (visit_occurrences owner i os st)"
proof (induction owner i os st rule: visit_occurrences.induct)
  case (2 owner i o1 os st)
  from effect_seq0 [OF effect_attributes 2] show ?case by simp
qed (simp add: effects)

lemma effect_declaration_kind:
  "effect (declaration_needs need k) (declaration_kind_supported need k) st (visit_declaration_kind i need k st)"
proof (cases k)
  case (FunctionDecl f)
  from effect_seq [OF effect_seq0 [OF effect_convention effect_visit(1)] effect_source_parameters]
  show ?thesis by (simp add: FunctionDecl conj_assoc)
next
  case (RecordDecl r)
  have "effect [] (need = OpaqueSufficient \<or> rec_completeness r = CompleteRecord) st
    (if need = Definition \<and> rec_completeness r = IncompleteRecord then block (IncompleteRecordBlocker i) st else st)"
    by (cases need; cases "rec_completeness r") (simp_all add: effects)
  from effect_seq0 [OF this effect_fields] this show ?thesis
    by (cases need) (simp_all add: RecordDecl Let_def)
next
  case (EnumDecl e)
  have "effect (case enum_underlying e of None \<Rightarrow> [] | Some t \<Rightarrow> type_needs False t)
    (case enum_underlying e of None \<Rightarrow> True | Some t \<Rightarrow> type_supported t) st
    (case enum_underlying e of None \<Rightarrow> st | Some t \<Rightarrow> visit_type i ''kind.enum.explicit_underlying_type'' t False st)"
    by (simp add: effects effect_visit(1) split: option.split)
  from effect_seq1 [OF this effect_variants] show ?thesis by (simp add: EnumDecl)
qed (simp_all add: effects effect_visit(1))

lemma effect_declaration:
  "effect (declaration_needs need (decl_kind d)) (declaration_supported need d) st
     (validate_declaration_closure d need st)"
  unfolding validate_declaration_closure_def declaration_supported_def
  using effect_seq0 [OF effect_status effect_seq0 [OF effect_occurrences effect_declaration_kind]] by blast

subsection \<open>The loop\<close>

definition needs :: "('t, 'z) source_package_input_scheme \<Rightarrow> declaration_id \<Rightarrow> need \<Rightarrow> (declaration_id \<times> need) list" where
  "needs p i n = (case find_declaration p i of None \<Rightarrow> [] | Some d \<Rightarrow> declaration_needs n (decl_kind d))"

text \<open>
  For termination: what is still missing from the requirements of the identifiers that the package refers to,
  counted twice, and the entries in the queue.
\<close>

definition referred :: "('t, 'z) source_package_input_scheme \<Rightarrow> declaration_id set" where
  "referred p = (\<Union>d \<in> set (pkg_declarations p). \<Union>n \<in> {OpaqueSufficient, Definition}.
     fst ` set (declaration_needs n (decl_kind d)))"

fun missing :: "need option \<Rightarrow> nat" where
  "missing None = 2"
| "missing (Some OpaqueSufficient) = 1"
| "missing (Some Definition) = 0"

definition work_left :: "declaration_id set \<Rightarrow> closure_state \<Rightarrow> nat" where
  "work_left U st = 2 * (\<Sum>i \<in> U. missing (map_of (cl_required st) i)) + length (cl_queue st)"

lemma enqueue_work:
  assumes "finite U" "i \<in> U"
  shows "work_left U (enqueue i n st) \<le> work_left U st"
proof (cases "map_of (cl_required (enqueue i n st)) = map_of (cl_required st)")
  case True
  then have "enqueue i n st = st"
    by (auto simp: enqueue_def update_conv' less_need_def dest!: fun_cong [of _ _ i] split: option.splits if_splits)
  then show ?thesis by simp
next
  case False
  then have new: "map_of (cl_required (enqueue i n st)) = (map_of (cl_required st))(i \<mapsto> n)"
    "length (cl_queue (enqueue i n st)) = Suc (length (cl_queue st))"
    "missing (Some n) < missing (map_of (cl_required st) i)"
    by (cases n; auto simp: enqueue_def update_conv' less_need_def split: option.splits if_splits)+
  have "(\<Sum>j \<in> U. missing (map_of (cl_required (enqueue i n st)) j)) < (\<Sum>j \<in> U. missing (map_of (cl_required st) j))"
    using assms new(1,3) by (intro sum_strict_mono_ex1) (auto simp del: missing.simps)
  then show ?thesis using new(2) by (simp add: work_left_def)
qed

lemma request_work:
  "finite U \<Longrightarrow> fst ` set rs \<subseteq> U \<Longrightarrow> work_left U (request rs st) \<le> work_left U st"
proof (induction rs arbitrary: st)
  case (Cons r rs)
  obtain i n where r: "r = (i, n)" by (rule prod.exhaust)
  have "work_left U (request (r # rs) st) \<le> work_left U (enqueue i n st)"
    using Cons by (simp add: r request_def)
  also have "\<dots> \<le> work_left U st" using Cons.prems r by (simp add: enqueue_work)
  finally show ?case .
qed (simp add: request_def)

lemma work_left_add_blockers [simp]: "work_left U (add_blockers bs st) = work_left U st"
  by (simp add: work_left_def add_blockers_def)

lemma finite_referred: "finite (referred p)"
  by (simp add: referred_def)

lemma validate_work:
  assumes "find_declaration p i = Some d"
  shows "work_left (referred p) (validate_declaration_closure d n st) \<le> work_left (referred p) st"
proof -
  have "d \<in> set (pkg_declarations p)"
    using assms find_by_keyD unfolding find_declaration_def by metis
  then have "fst ` set (declaration_needs n (decl_kind d)) \<subseteq> referred p"
    by (cases n) (auto simp: referred_def)
  then show ?thesis
    using effect_declaration [of n d st] request_work [OF finite_referred] by (auto simp: effect_def)
qed

fun opaque_only :: "selection \<Rightarrow> bool" where
  "opaque_only (OpaqueOnly ids) = True"
| "opaque_only _ = False"

function completion_loop ::
  "('t, 'z) source_package_input_scheme \<Rightarrow> selection \<Rightarrow> closure_state \<Rightarrow> closure_state" where
  "completion_loop p selected st =
     (case cl_queue st of
        [] \<Rightarrow> st
      | (i, need) # queue \<Rightarrow>
          let st1 = st\<lparr>cl_queue := queue\<rparr>;
              current_need = (case map_of (cl_required st) i of Some n \<Rightarrow> n | None \<Rightarrow> need)
          in if current_need \<noteq> need \<and> need = OpaqueSufficient then completion_loop p selected st1
             else
               case find_declaration p i of
                 None \<Rightarrow> completion_loop p selected (block (MissingBlocker i) st1)
               | Some d \<Rightarrow>
                   if opaque_only selected \<and> need = OpaqueSufficient \<and> \<not> is_record (decl_kind d)
                   then completion_loop p selected (block (OpaqueRootBlocker i) st1)
                   else completion_loop p selected (validate_declaration_closure d current_need st1))"
  by pat_completeness auto
termination
proof (relation "measure (\<lambda>(p, selected, st). work_left (referred p) st)", goal_cases)
  case (5 p selected st x xs i need st1 current_need d)
  have "work_left (referred p) st1 < work_left (referred p) st" using 5 by (simp add: work_left_def)
  moreover have "work_left (referred p) (validate_declaration_closure d current_need st1) \<le> work_left (referred p) st1"
    using 5 validate_work by blast
  ultimately show ?case by simp
qed (simp_all add: work_left_def block_def)

declare completion_loop.simps [simp del]

subsection \<open>\<open>into_complete\<close>\<close>

datatype closure_requirement = OpaqueRequirement | DefinitionRequirement

record 't complete_source_package =
  csp_package :: "'t source_package"
  csp_selection :: selection
  csp_closure :: "(declaration_id \<times> closure_requirement) list"

definition support_code :: "support_status \<Rightarrow> diagnostic_code option" where
  "support_code s =
     (case s of Supported \<Rightarrow> None | PartialSupport c r \<Rightarrow> Some c | UnsupportedSupport c r \<Rightarrow> Some c)"

definition package_scoped_reasons :: "('t, 'z) source_package_input_scheme \<Rightarrow> completeness_reason list" where
  "package_scoped_reasons p =
     (let attributed = List.map_filter (\<lambda>m. support_code (mac_support m)) (pkg_macros p)
      in map (\<lambda>d. CompletenessReason (diag_code d) (diag_message d) (diag_range d))
           (filter (\<lambda>d. diag_impact d \<noteq> Informational \<and> diag_declaration d = None \<and> diag_stage d \<noteq> Recovery \<and>
                        diag_code d \<notin> set attributed)
             (pkg_diagnostics p)))"

definition package_blockers :: "('t, 'z) source_package_input_scheme \<Rightarrow> completion_blocker list" where
  "package_blockers p =
     (case pkg_completeness p of
        Complete \<Rightarrow> []
      | Rejected reasons \<Rightarrow> [PackageIncomplete reasons]
      | Partial _ \<Rightarrow>
          let package_scoped = package_scoped_reasons p
          in if package_scoped \<noteq> [] then [PackageIncomplete package_scoped] else [])"

definition root_need :: "source_declaration_kind \<Rightarrow> need" where
  "root_need k =
     (case k of
        RecordDecl r \<Rightarrow> if rec_completeness r = IncompleteRecord then OpaqueSufficient else Definition
      | _ \<Rightarrow> Definition)"

definition completion_roots :: "('t, 'z) source_package_input_scheme \<Rightarrow> selection \<Rightarrow> (declaration_id \<times> need) list" where
  "completion_roots p selected =
     (case selected of
        AllSupported \<Rightarrow> map (\<lambda>d. (decl_id d, root_need (decl_kind d)))
          (filter (\<lambda>d. is_supported (decl_support d)) (pkg_declarations p))
      | Only ids \<Rightarrow> map (\<lambda>i. (i, Definition)) ids
      | OpaqueOnly ids \<Rightarrow> map (\<lambda>i. (i, OpaqueSufficient)) ids)"

fun closure_requirement_of :: "need \<Rightarrow> closure_requirement" where
  "closure_requirement_of OpaqueSufficient = OpaqueRequirement"
| "closure_requirement_of Definition = DefinitionRequirement"

definition final_state :: "('t, 'z) source_package_input_scheme \<Rightarrow> selection \<Rightarrow> closure_state" where
  "final_state p selected =
     completion_loop p selected
       (request (completion_roots p selected)
         \<lparr>cl_required = [], cl_queue = [], cl_blockers = package_blockers p\<rparr>)"

definition into_complete ::
  "'t source_package \<Rightarrow> selection \<Rightarrow> completion_blocker list + 't complete_source_package" where
  "into_complete p selected =
     (let st = final_state p selected;
          blockers = remdups_adj (sort_key blocker_text (cl_blockers st))
      in if blockers \<noteq> [] then Inl blockers
         else Inr \<lparr>csp_package = p, csp_selection = selected,
           csp_closure = map (\<lambda>(i, n). (i, closure_requirement_of n)) (sort_key fst (cl_required st))\<rparr>)"

subsection \<open>What the walk establishes\<close>

definition need_edges ::
  "('t, 'z) source_package_input_scheme \<Rightarrow> ((declaration_id \<times> need) \<times> (declaration_id \<times> need)) set" where
  "need_edges p = {((i, n), (j, m)). (j, m) \<in> set (needs p i n)}"

text \<open>Everything the roots need, each with the strengths in which it is needed.\<close>

definition needed :: "('t, 'z) source_package_input_scheme \<Rightarrow> (declaration_id \<times> need) list \<Rightarrow> (declaration_id \<times> need) set" where
  "needed p roots = (need_edges p)\<^sup>* `` set roots"

definition acceptable :: "('t, 'z) source_package_input_scheme \<Rightarrow> selection \<Rightarrow> declaration_id \<Rightarrow> need \<Rightarrow> bool" where
  "acceptable p selected i n \<longleftrightarrow>
     (case find_declaration p i of
        None \<Rightarrow> False
      | Some d \<Rightarrow> declaration_supported n d \<and>
          (opaque_only selected \<and> n = OpaqueSufficient \<longrightarrow> is_record (decl_kind d)))"

definition covered :: "closure_state \<Rightarrow> declaration_id \<Rightarrow> need \<Rightarrow> bool" where
  "covered st i n \<longleftrightarrow> (\<exists>m. map_of (cl_required st) i = Some m \<and> n \<le> m)"

lemma state_simps [simp]:
  "cl_required (add_blockers bs st) = cl_required st" "cl_queue (add_blockers bs st) = cl_queue st"
  "cl_blockers (add_blockers bs st) = cl_blockers st @ bs"
  "covered (add_blockers bs st) = covered st" "covered (st\<lparr>cl_queue := q\<rparr>) = covered st"
  by (auto simp: add_blockers_def covered_def fun_eq_iff)

text \<open>One request: what was covered stays covered, and what changes is queued.\<close>

definition extends :: "(declaration_id \<times> need) list \<Rightarrow> closure_state \<Rightarrow> closure_state \<Rightarrow> bool" where
  "extends rs st st' \<longleftrightarrow>
     (\<forall>i n. covered st i n \<longrightarrow> covered st' i n) \<and>
     (\<forall>(i, n) \<in> set rs. covered st' i n) \<and>
     (\<forall>i n. map_of (cl_required st') i = Some n \<longrightarrow>
        map_of (cl_required st) i = Some n \<or> (i, n) \<in> set rs \<inter> set (cl_queue st')) \<and>
     set (cl_queue st) \<subseteq> set (cl_queue st') \<and> set (cl_queue st') \<subseteq> set (cl_queue st) \<union> set rs \<and>
     cl_blockers st' = cl_blockers st \<and>
     (distinct (map fst (cl_required st)) \<longrightarrow> distinct (map fst (cl_required st')))"

lemma extends_enqueue: "extends [(i, n)] st (enqueue i n st)"
proof (cases "covered st i n")
  case True
  then have "enqueue i n st = st" by (auto simp: covered_def enqueue_def split: option.splits)
  then show ?thesis using True by (auto simp: extends_def)
next
  case False
  then have e: "enqueue i n st = st\<lparr>cl_required := AList.update i n (cl_required st), cl_queue := cl_queue st @ [(i, n)]\<rparr>"
    by (auto simp: covered_def enqueue_def not_le split: option.splits)
  have "map_of (cl_required st) i = Some m \<Longrightarrow> m \<le> n" for m
    using False by (auto simp: covered_def not_le)
  then show ?thesis
    unfolding e extends_def covered_def by (auto simp: update_conv' distinct_update intro: order_trans)
qed

lemma extendsD:
  assumes "extends rs st st'"
  shows "covered st i n \<Longrightarrow> covered st' i n" "(i, n) \<in> set rs \<Longrightarrow> covered st' i n"
    "map_of (cl_required st') i = Some n \<Longrightarrow>
       map_of (cl_required st) i = Some n \<or> (i, n) \<in> set rs \<and> (i, n) \<in> set (cl_queue st')"
    "set (cl_queue st) \<subseteq> set (cl_queue st')" "set (cl_queue st') \<subseteq> set (cl_queue st) \<union> set rs"
    "cl_blockers st' = cl_blockers st"
    "distinct (map fst (cl_required st)) \<Longrightarrow> distinct (map fst (cl_required st'))"
  using assms unfolding extends_def by blast+

lemma extends_trans:
  assumes a: "extends rs st st1" and b: "extends rs' st1 st2"
  shows "extends (rs @ rs') st st2"
  unfolding extends_def
proof (intro conjI allI impI ballI)
  fix i n
  show "covered st i n \<Longrightarrow> covered st2 i n" using extendsD(1) [OF a] extendsD(1) [OF b] by blast
  show "map_of (cl_required st2) i = Some n \<Longrightarrow>
      map_of (cl_required st) i = Some n \<or> (i, n) \<in> set (rs @ rs') \<inter> set (cl_queue st2)"
    using extendsD(3) [OF a] extendsD(3) [OF b] extendsD(4) [OF b] by fastforce
next
  fix r
  assume "r \<in> set (rs @ rs')"
  then show "case r of (i, n) \<Rightarrow> covered st2 i n"
    using extendsD(2) [OF a] extendsD(1,2) [OF b] by fastforce
next
  show "set (cl_queue st) \<subseteq> set (cl_queue st2)" using extendsD(4) [OF a] extendsD(4) [OF b] by blast
  show "set (cl_queue st2) \<subseteq> set (cl_queue st) \<union> set (rs @ rs')"
    using extendsD(5) [OF a] extendsD(5) [OF b] by auto
  show "cl_blockers st2 = cl_blockers st" using extendsD(6) [OF a] extendsD(6) [OF b] by simp
  show "distinct (map fst (cl_required st)) \<Longrightarrow> distinct (map fst (cl_required st2))"
    using extendsD(7) [OF a] extendsD(7) [OF b] by blast
qed

lemma extends_request: "extends rs st (request rs st)"
proof (induction rs arbitrary: st)
  case Nil
  then show ?case by (simp add: extends_def request_def)
next
  case (Cons r rs)
  obtain i n where r: "r = (i, n)" by (rule prod.exhaust)
  show ?case using extends_trans [OF extends_enqueue Cons.IH] by (simp add: r request_def)
qed

text \<open>The invariant of the loop.\<close>

definition finished :: "('t, 'z) source_package_input_scheme \<Rightarrow> selection \<Rightarrow> closure_state \<Rightarrow> declaration_id \<Rightarrow> need \<Rightarrow> bool" where
  "finished p selected st i n \<longleftrightarrow>
     cl_blockers st \<noteq> [] \<or> acceptable p selected i n \<and> (\<forall>(j, m) \<in> set (needs p i n). covered st j m)"

definition walking ::
  "('t, 'z) source_package_input_scheme \<Rightarrow> selection \<Rightarrow> (declaration_id \<times> need) list \<Rightarrow> closure_state \<Rightarrow> bool" where
  "walking p selected roots st \<longleftrightarrow>
     (\<forall>i n. map_of (cl_required st) i = Some n \<longrightarrow>
        (i, n) \<in> needed p roots \<and> ((i, n) \<in> set (cl_queue st) \<or> finished p selected st i n)) \<and>
     (\<forall>(i, n) \<in> set (cl_queue st). (i, n) \<in> needed p roots \<and> covered st i n) \<and>
     (\<forall>(i, n) \<in> set roots. covered st i n) \<and>
     (cl_blockers st \<noteq> [] \<longrightarrow>
        package_blockers p \<noteq> [] \<or> (\<exists>(i, n) \<in> needed p roots. \<not> acceptable p selected i n)) \<and>
     (package_blockers p \<noteq> [] \<longrightarrow> cl_blockers st \<noteq> []) \<and>
     (opaque_only selected \<longrightarrow> cl_blockers st \<noteq> [] \<or>
        (\<forall>i n. map_of (cl_required st) i = Some n \<longrightarrow> n = OpaqueSufficient)) \<and>
     distinct (map fst (cl_required st))"

lemma needed_step: "(i, n) \<in> needed p roots \<Longrightarrow> (j, m) \<in> set (needs p i n) \<Longrightarrow> (j, m) \<in> needed p roots"
  by (auto simp: needed_def need_edges_def intro: rtrancl_into_rtrancl)

lemma finished_extends:
  "finished p selected st i n \<Longrightarrow> extends rs st st' \<Longrightarrow> finished p selected st' i n"
  unfolding finished_def using extendsD(1,6) by fastforce

lemma finished_add_blockers: "finished p selected st i n \<Longrightarrow> finished p selected (add_blockers bs st) i n"
  by (auto simp: finished_def)

lemma walkingD:
  assumes "walking p selected roots st"
  shows "map_of (cl_required st) i = Some n \<Longrightarrow> (i, n) \<in> needed p roots"
    "map_of (cl_required st) i = Some n \<Longrightarrow> (i, n) \<notin> set (cl_queue st) \<Longrightarrow> finished p selected st i n"
    "(i, n) \<in> set (cl_queue st) \<Longrightarrow> (i, n) \<in> needed p roots"
    "(i, n) \<in> set (cl_queue st) \<Longrightarrow> covered st i n"
    "(i, n) \<in> set roots \<Longrightarrow> covered st i n"
    "cl_blockers st \<noteq> [] \<Longrightarrow>
       package_blockers p \<noteq> [] \<or> (\<exists>(i, n) \<in> needed p roots. \<not> acceptable p selected i n)"
    "package_blockers p \<noteq> [] \<Longrightarrow> cl_blockers st \<noteq> []"
    "opaque_only selected \<Longrightarrow> cl_blockers st = [] \<Longrightarrow> map_of (cl_required st) i = Some n \<Longrightarrow> n = OpaqueSufficient"
    "distinct (map fst (cl_required st))"
  using assms unfolding walking_def by fast+

lemma walkingI:
  assumes "\<And>i n. map_of (cl_required st) i = Some n \<Longrightarrow> (i, n) \<in> needed p roots"
    "\<And>i n. map_of (cl_required st) i = Some n \<Longrightarrow> (i, n) \<notin> set (cl_queue st) \<Longrightarrow> finished p selected st i n"
    "\<And>i n. (i, n) \<in> set (cl_queue st) \<Longrightarrow> (i, n) \<in> needed p roots"
    "\<And>i n. (i, n) \<in> set (cl_queue st) \<Longrightarrow> covered st i n"
    "\<And>i n. (i, n) \<in> set roots \<Longrightarrow> covered st i n"
    "cl_blockers st \<noteq> [] \<Longrightarrow>
       package_blockers p \<noteq> [] \<or> (\<exists>(i, n) \<in> needed p roots. \<not> acceptable p selected i n)"
    "package_blockers p \<noteq> [] \<Longrightarrow> cl_blockers st \<noteq> []"
    "\<And>i n. opaque_only selected \<Longrightarrow> cl_blockers st = [] \<Longrightarrow> map_of (cl_required st) i = Some n \<Longrightarrow>
       n = OpaqueSufficient"
    "distinct (map fst (cl_required st))"
  shows "walking p selected roots st"
  using assms unfolding walking_def by fast

lemma finished_queue [simp]: "finished p selected (st\<lparr>cl_queue := q\<rparr>) i n = finished p selected st i n"
  by (simp add: finished_def)

text \<open>An entry that was upgraded while it was queued is dropped.\<close>

lemma walking_skip:
  assumes "walking p selected roots st" "cl_queue st = (i, need) # queue" "map_of (cl_required st) i \<noteq> Some need"
  shows "walking p selected roots (st\<lparr>cl_queue := queue\<rparr>)"
  by (rule walkingI) (use walkingD [OF assms(1)] assms(2,3) in \<open>auto split: prod.splits\<close>)

text \<open>A blocked entry.\<close>

lemma walking_block:
  assumes "walking p selected roots st" "cl_queue st = (i, need) # queue"
    and "map_of (cl_required st) i = Some n" "\<not> acceptable p selected i n"
  shows "walking p selected roots (block b (st\<lparr>cl_queue := queue\<rparr>))"
proof -
  have "(i, n) \<in> needed p roots" using walkingD(1) [OF assms(1,3)] .
  then show ?thesis
    by (intro walkingI)
      (use walkingD [OF assms(1)] assms(2,4) in \<open>auto simp: block_def finished_def covered_def\<close>)
qed

text \<open>A visited entry.\<close>

lemma walking_visit:
  assumes walking: "walking p selected roots st" and queue: "cl_queue st = (i, need) # queue"
    and n: "map_of (cl_required st) i = Some n" and d: "find_declaration p i = Some d"
    and rec: "\<not> (opaque_only selected \<and> need = OpaqueSufficient \<and> \<not> is_record (decl_kind d))"
  shows "walking p selected roots (validate_declaration_closure d n (st\<lparr>cl_queue := queue\<rparr>))"
proof -
  define rs where "rs = needs p i n"
  let ?st1 = "st\<lparr>cl_queue := queue\<rparr>"
  obtain bs where st': "validate_declaration_closure d n ?st1 = add_blockers bs (request rs ?st1)"
    and bs: "bs = [] \<longleftrightarrow> declaration_supported n d"
    using effect_declaration [of n d ?st1] d by (auto simp: effect_def rs_def needs_def)
  let ?st2 = "request rs ?st1"
  note ext = extendsD [OF extends_request [of rs ?st1]]
  note old = walkingD [OF walking]
  have "need \<le> n" using old(4) [of i need] queue n by (auto simp: covered_def)
  then have acc: "bs = [] \<longleftrightarrow> acceptable p selected i n"
    using rec d bs by (auto simp: acceptable_def)
  have inn: "(i, n) \<in> needed p roots" using old(1) [OF n] .
  then have rs: "(j, m) \<in> set rs \<Longrightarrow> (j, m) \<in> needed p roots" for j m
    unfolding rs_def by (rule needed_step)
  have none: "opaque_only selected \<Longrightarrow> cl_blockers st = [] \<Longrightarrow> rs = []"
  proof -
    assume "opaque_only selected" "cl_blockers st = []"
    then have "n = OpaqueSufficient" "is_record (decl_kind d)"
      using old(8) [OF _ _ n] rec \<open>need \<le> n\<close> by auto
    then show "rs = []" using d by (cases "decl_kind d") (simp_all add: rs_def needs_def)
  qed
  show ?thesis
    unfolding st'
  proof (rule walkingI)
    fix j m
    show "map_of (cl_required (add_blockers bs ?st2)) j = Some m \<Longrightarrow> (j, m) \<in> needed p roots"
      using ext(3) [of j m] old(1) [of j m] rs by auto
    show "map_of (cl_required (add_blockers bs ?st2)) j = Some m \<Longrightarrow>
      (j, m) \<notin> set (cl_queue (add_blockers bs ?st2)) \<Longrightarrow> finished p selected (add_blockers bs ?st2) j m"
    proof -
      assume "map_of (cl_required (add_blockers bs ?st2)) j = Some m"
        "(j, m) \<notin> set (cl_queue (add_blockers bs ?st2))"
      then have j: "map_of (cl_required ?st2) j = Some m" "(j, m) \<notin> set (cl_queue ?st2)" by simp_all
      then have was: "map_of (cl_required st) j = Some m" using ext(3) [of j m] by auto
      show ?thesis
      proof (cases "(j, m) \<in> set (cl_queue st)")
        case True
        then have "j = i" using j(2) ext(4) queue by auto
        then have "m = n" using was n by simp
        then show ?thesis
          using \<open>j = i\<close> acc ext(2) by (auto simp: finished_def rs_def)
      next
        case False
        have "finished p selected ?st1 j m" using old(2) [OF was False] by simp
        then show ?thesis
          using finished_extends [OF _ extends_request] finished_add_blockers by blast
      qed
    qed
    show "(j, m) \<in> set (cl_queue (add_blockers bs ?st2)) \<Longrightarrow> (j, m) \<in> needed p roots"
      using ext(5) old(3) [of j m] rs queue by auto
    show "(j, m) \<in> set (cl_queue (add_blockers bs ?st2)) \<Longrightarrow> covered (add_blockers bs ?st2) j m"
      using ext(1,2,5) old(4) [of j m] queue by auto
    show "(j, m) \<in> set roots \<Longrightarrow> covered (add_blockers bs ?st2) j m"
      using ext(1) old(5) by auto
    show "opaque_only selected \<Longrightarrow> cl_blockers (add_blockers bs ?st2) = [] \<Longrightarrow>
      map_of (cl_required (add_blockers bs ?st2)) j = Some m \<Longrightarrow> m = OpaqueSufficient"
      using ext(6) none old(8) [of j m] by (auto simp: request_def)
  next
    show "package_blockers p \<noteq> [] \<Longrightarrow> cl_blockers (add_blockers bs ?st2) \<noteq> []"
      using ext(6) old(7) by simp
    show "cl_blockers (add_blockers bs ?st2) \<noteq> [] \<Longrightarrow>
      package_blockers p \<noteq> [] \<or> (\<exists>(i, n) \<in> needed p roots. \<not> acceptable p selected i n)"
      using ext(6) old(6) acc inn by auto
    show "distinct (map fst (cl_required (add_blockers bs ?st2)))" using ext(7) old(9) by simp
  qed
qed

lemma walking_loop:
  "walking p selected roots st \<Longrightarrow>
     walking p selected roots (completion_loop p selected st) \<and> cl_queue (completion_loop p selected st) = []"
proof (induction p selected st rule: completion_loop.induct)
  case (1 p selected st)
  show ?case
  proof (cases "cl_queue st")
    case Nil
    then show ?thesis using 1 by (subst (1 2) completion_loop.simps) simp
  next
    case (Cons e queue)
    obtain i need where e: "e = (i, need)" by (rule prod.exhaust)
    note q = Cons [unfolded e]
    obtain n where n: "map_of (cl_required st) i = Some n" "need \<le> n"
      using walkingD(4) [OF 1(5), of i need] q by (auto simp: covered_def)
    let ?st1 = "st\<lparr>cl_queue := queue\<rparr>"
    have cur: "n = (case map_of (cl_required st) i of Some n \<Rightarrow> n | None \<Rightarrow> need)" using n by simp
    note IH = "1.IH" [OF Cons e [symmetric] refl cur]
    note step = completion_loop.simps [of p selected st]
    show ?thesis
    proof (cases "n \<noteq> need \<and> need = OpaqueSufficient")
      case True
      then have "need = OpaqueSufficient" "n \<noteq> OpaqueSufficient" by auto
      then have "completion_loop p selected st = completion_loop p selected ?st1"
        using step q n(1) by (simp add: Let_def)
      moreover have "walking p selected roots ?st1"
        by (rule walking_skip [OF 1(5) q]) (use True n in auto)
      ultimately show ?thesis using IH(1) [OF True] by simp
    next
      case False
      show ?thesis
      proof (cases "find_declaration p i")
        case None
        then have "completion_loop p selected st = completion_loop p selected (block (MissingBlocker i) ?st1)"
          using step q n False None by (auto simp: Let_def)
        then show ?thesis
          using IH(2) [OF False None walking_block [OF 1(5) q n(1)]] None by (simp add: acceptable_def)
      next
        case (Some d)
        show ?thesis
        proof (cases "opaque_only selected \<and> need = OpaqueSufficient \<and> \<not> is_record (decl_kind d)")
          case True
          then have "completion_loop p selected st = completion_loop p selected (block (OpaqueRootBlocker i) ?st1)"
            using step q n False Some by (auto simp: Let_def)
          moreover have "\<not> acceptable p selected i n" using True False Some by (auto simp: acceptable_def)
          ultimately show ?thesis
            using IH(3) [OF False Some True walking_block [OF 1(5) q n(1)]] by simp
        next
          case visit: False
          then have "completion_loop p selected st =
              completion_loop p selected (validate_declaration_closure d n ?st1)"
            using step q n False Some by (auto simp: Let_def)
          then show ?thesis
            using IH(4) [OF False Some visit walking_visit [OF 1(5) q n(1) Some visit]] by simp
        qed
      qed
    qed
  qed
qed

lemma opaque_roots: "opaque_only selected \<Longrightarrow> (i, n) \<in> set (completion_roots p selected) \<Longrightarrow> n = OpaqueSufficient"
  by (cases selected) (auto simp: completion_roots_def)

lemma walking_initial:
  fixes p :: "('t, 'z) source_package_input_scheme" and selected
  defines "roots \<equiv> completion_roots p selected"
  shows "walking p selected roots
    (request roots \<lparr>cl_required = [], cl_queue = [], cl_blockers = package_blockers p\<rparr>)"
proof -
  let ?st = "\<lparr>cl_required = [], cl_queue = [], cl_blockers = package_blockers p\<rparr>"
  note ext = extendsD [OF extends_request [of roots ?st]]
  have roots: "(i, n) \<in> set roots \<Longrightarrow> (i, n) \<in> needed p roots" for i n
    by (auto simp: needed_def)
  show ?thesis
  proof (rule walkingI)
    fix i n
    show "map_of (cl_required (request roots ?st)) i = Some n \<Longrightarrow> (i, n) \<in> needed p roots"
      using ext(3) roots by auto
    show "map_of (cl_required (request roots ?st)) i = Some n \<Longrightarrow> (i, n) \<notin> set (cl_queue (request roots ?st)) \<Longrightarrow>
        finished p selected (request roots ?st) i n"
      using ext(3) by auto
    show "(i, n) \<in> set (cl_queue (request roots ?st)) \<Longrightarrow> (i, n) \<in> needed p roots"
      "(i, n) \<in> set (cl_queue (request roots ?st)) \<Longrightarrow> covered (request roots ?st) i n"
      using ext(2,5) roots by auto
    show "(i, n) \<in> set roots \<Longrightarrow> covered (request roots ?st) i n" by (rule ext(2))
    show "opaque_only selected \<Longrightarrow> cl_blockers (request roots ?st) = [] \<Longrightarrow>
        map_of (cl_required (request roots ?st)) i = Some n \<Longrightarrow> n = OpaqueSufficient"
      using ext(3) opaque_roots unfolding roots_def by fastforce
  qed (use ext(6,7) in auto)
qed

lemma final_walking:
  "walking p selected (completion_roots p selected) (final_state p selected) \<and> cl_queue (final_state p selected) = []"
  unfolding final_state_def by (rule walking_loop [OF walking_initial])

text \<open>A stronger need asks for at least as much.\<close>

lemma type_needs_mono:
  "(j, m) \<in> set (type_needs True t) \<Longrightarrow> \<exists>m'. m \<le> m' \<and> (j, m') \<in> set (type_needs False t)"
proof (induction t rule: measure_induct_rule [of size])
  case (less t)
  obtain q nl k s where t: "t = CType q nl k s" by (cases t)
  show ?case using less by (cases k) (auto simp: t pointer_need_def)
qed

lemma needs_mono:
  assumes "(j, m) \<in> set (needs p i n)" "n \<le> n'"
  shows "\<exists>m'. m \<le> m' \<and> (j, m') \<in> set (needs p i n')"
proof (cases "n = n'")
  case False
  then have "n = OpaqueSufficient" "n' = Definition" using assms(2) by (cases n; cases n'; simp)+
  moreover obtain d where "find_declaration p i = Some d"
    using assms(1) by (cases "find_declaration p i") (auto simp: needs_def)
  ultimately show ?thesis
    using assms(1) type_needs_mono [of j m] by (cases "decl_kind d") (auto simp: needs_def)
qed (use assms in auto)

lemma declaration_supported_mono:
  "declaration_supported n' d \<Longrightarrow> n \<le> n' \<Longrightarrow> declaration_supported n d"
  by (cases "decl_kind d"; cases n; cases n') (auto simp: declaration_supported_def)

text \<open>Without blockers, what is required is what is needed, at its strongest.\<close>

lemma needed_covered:
  assumes w: "walking p selected roots st" and q: "cl_queue st = []" and b: "cl_blockers st = []"
    and i: "(i, n) \<in> needed p roots"
  shows "covered st i n"
proof -
  have "covered st (fst x) (snd x)" if "(r, x) \<in> (need_edges p)\<^sup>*" "r \<in> set roots" for r x
    using that
  proof induction
    case base
    then show ?case using walkingD(5) [OF w] by (cases r) auto
  next
    case (step y z)
    obtain j m i n where yz: "y = (j, m)" "z = (i, n)" by (cases y; cases z)
    then obtain m' where m': "map_of (cl_required st) j = Some m'" "m \<le> m'"
      using step by (auto simp: covered_def)
    have "(i, n) \<in> set (needs p j m)" using step(2) yz by (simp add: need_edges_def)
    then obtain n' where "n \<le> n'" "(i, n') \<in> set (needs p j m')"
      using needs_mono [OF _ m'(2)] by blast
    moreover have "finished p selected st j m'" using walkingD(2) [OF w m'(1)] q by simp
    ultimately show ?case using b yz by (fastforce simp: finished_def covered_def)
  qed
  then show ?thesis using i by (force simp: needed_def)
qed

lemma all_acceptable:
  assumes w: "walking p selected (completion_roots p selected) st" and q: "cl_queue st = []" and b: "cl_blockers st = []"
    and i: "(i, n) \<in> needed p (completion_roots p selected)"
  shows "acceptable p selected i n"
proof -
  obtain n' where n': "map_of (cl_required st) i = Some n'" "n \<le> n'"
    using needed_covered [OF w q b i] by (auto simp: covered_def)
  then have "acceptable p selected i n'" using walkingD(2) [OF w n'(1)] q b by (simp add: finished_def)
  moreover have "opaque_only selected \<Longrightarrow> n' = OpaqueSufficient" using walkingD(8) [OF w _ b n'(1)] .
  ultimately show ?thesis
    using n'(2) declaration_supported_mono
    by (cases "opaque_only selected") (auto simp: acceptable_def split: option.splits)
qed

lemma required_needed:
  assumes w: "walking p selected roots st" and q: "cl_queue st = []" and b: "cl_blockers st = []"
  shows "map_of (cl_required st) i =
    (if (i, Definition) \<in> needed p roots then Some Definition
     else if (i, OpaqueSufficient) \<in> needed p roots then Some OpaqueSufficient else None)"
proof (cases "map_of (cl_required st) i")
  case None
  then show ?thesis using needed_covered [OF w q b, of i] by (auto simp: covered_def)
next
  case (Some n)
  then show ?thesis
    using needed_covered [OF w q b, of i] walkingD(1) [OF w Some] by (cases n) (auto simp: covered_def)
qed

subsection \<open>Properties\<close>

lemma alist_unique:
  fixes xs ys :: "('k::linorder \<times> 'v) list"
  assumes "ordered fst xs" "ordered fst ys" "map_of xs = map_of ys"
  shows "xs = ys"
proof -
  have d: "distinct (map fst xs)" "distinct (map fst ys)" using assms(1,2) by (auto simp: strict_sorted_iff)
  then have sets: "set xs = set ys" using assms(3) map_of_inject_set by blast
  then have "map fst xs = map fst ys" using assms(1,2) by (intro strict_sorted_equal) auto
  moreover have "inj_on fst (set xs \<union> set ys)" using d(1) sets by (simp add: distinct_map)
  ultimately show ?thesis by (rule map_inj_on)
qed

definition closure_entries :: "closure_state \<Rightarrow> (declaration_id \<times> closure_requirement) list" where
  "closure_entries st = map (\<lambda>(i, n). (i, closure_requirement_of n)) (sort_key fst (cl_required st))"

lemma closure_entries_facts:
  assumes "distinct (map fst (cl_required st))"
  shows "ordered fst (closure_entries st)"
    "map_of (closure_entries st) i = map_option closure_requirement_of (map_of (cl_required st) i)"
proof -
  let ?xs = "sort_key fst (cl_required st)"
  have d: "distinct (map fst ?xs)" using assms by (simp add: distinct_map)
  have fst: "map fst (closure_entries st) = map fst ?xs"
    unfolding closure_entries_def by (simp add: case_prod_beta comp_def)
  then show "ordered fst (closure_entries st)" using d by (simp add: strict_sorted_iff)
  have "map_of ?xs = map_of (cl_required st)" using map_of_inject_set [OF d assms] by simp
  then show "map_of (closure_entries st) i = map_option closure_requirement_of (map_of (cl_required st) i)"
    unfolding closure_entries_def map_of_map by simp
qed

lemma no_blockers_iff:
  "cl_blockers (final_state p selected) = [] \<longleftrightarrow>
     package_blockers p = [] \<and> needed p (completion_roots p selected) \<subseteq> {(i, n). acceptable p selected i n}"
proof -
  have w: "walking p selected (completion_roots p selected) (final_state p selected)"
    and q: "cl_queue (final_state p selected) = []"
    using final_walking by auto
  show ?thesis using all_acceptable [OF w q] walkingD(6,7) [OF w] by blast
qed

text \<open>
  C2: \<open>into_complete\<close> accepts exactly what is complete.  It succeeds if and only if nothing blocks the package as a
  whole and everything that the roots need, in types and at every distance, is declared and supported with the
  strength in which it is needed: a record behind a pointer may be opaque, one used by value must be complete.
  The closure it then returns lists, in order, the needed declarations, each with its strongest requirement.
\<close>
theorem into_complete_iff:
  "into_complete p selected = Inr c \<longleftrightarrow>
     (let N = needed p (completion_roots p selected) in
      package_blockers p = [] \<and> N \<subseteq> {(i, n). acceptable p selected i n} \<and>
      csp_package c = p \<and> csp_selection c = selected \<and> sorted_wrt (<) (map fst (csp_closure c)) \<and>
      map_of (csp_closure c) =
        (\<lambda>i. if (i, Definition) \<in> N then Some DefinitionRequirement
             else if (i, OpaqueSufficient) \<in> N then Some OpaqueRequirement else None))"
proof -
  let ?st = "final_state p selected" and ?N = "needed p (completion_roots p selected)"
  have w: "walking p selected (completion_roots p selected) ?st" and q: "cl_queue ?st = []"
    using final_walking by auto
  have "remdups_adj (sort_key blocker_text bs) = [] \<longleftrightarrow> bs = []" for bs
    by (metis length_0_conv length_sort remdups_adj_Nil_iff)
  then have ok: "into_complete p selected = Inr c \<longleftrightarrow> cl_blockers ?st = [] \<and>
      c = \<lparr>csp_package = p, csp_selection = selected, csp_closure = closure_entries ?st\<rparr>"
    by (auto simp: into_complete_def Let_def closure_entries_def)
  note entries = closure_entries_facts [OF walkingD(9) [OF w]]
  show ?thesis
  proof (cases "cl_blockers ?st = []")
    case True
    have "map_of (closure_entries ?st) =
        (\<lambda>i. if (i, Definition) \<in> ?N then Some DefinitionRequirement
             else if (i, OpaqueSufficient) \<in> ?N then Some OpaqueRequirement else None)" (is "_ = ?F")
      using entries(2) required_needed [OF w q True] by (auto simp: fun_eq_iff)
    then have "sorted_wrt (<) (map fst xs) \<and> map_of xs = ?F \<longleftrightarrow> xs = closure_entries ?st" for xs
      using entries(1) alist_unique [of xs "closure_entries ?st"] by metis
    then show ?thesis
      using True no_blockers_iff [of p selected] unfolding ok Let_def by (cases c) simp
  next
    case False
    then show ?thesis using no_blockers_iff [of p selected] unfolding ok Let_def by blast
  qed
qed

end
