(* ===== verification/Ast.thy ===== *)
theory Ast
  imports Main
begin

text \<open>
  The abstract syntax tree of the C parser (\<open>src/ast\<close>): one datatype per struct or enum, a struct with
  one selector per field, an enum with its variants named \<open>Enum_Variant\<close>.  \<open>Box<T>\<close> is \<open>T\<close>.  The
  types that contain each other (expressions, type specifiers, declarators, initializers and
  statements) are declared together; a type that only contains them is declared before, over type
  variables standing for them, and gets its name by an abbreviation afterwards.
\<close>

text \<open>Spans and nodes (\<open>src/span.rs\<close>); \<open>Span::none()\<close> is the pair of the largest \<open>usize\<close>.\<close>

datatype (plugins only: code size) span = Span (span_start: nat) (span_end: nat)

datatype (plugins only: code size) 'a node = Node (node: 'a) (node_span: span)

definition usize_max :: nat where
  "usize_max = 2 ^ 64 - 1"

definition span_none :: span where
  "span_none = Span usize_max usize_max"

definition span_is_none :: "span \<Rightarrow> bool" where
  "span_is_none s \<longleftrightarrow> span_start s = usize_max \<and> span_end s = usize_max"

text \<open>\<open>PartialEq\<close>: an undefined span equals every span.\<close>

definition span_eq :: "span \<Rightarrow> span \<Rightarrow> bool" where
  "span_eq a b \<longleftrightarrow>
     (span_start a = span_start b \<and> span_end a = span_end b) \<or> span_is_none a \<or> span_is_none b"

type_synonym string_literal = "string list"

datatype (plugins only: code size) c_identifier = Identifier (c_identifier_name: string)

datatype (plugins only: code size) integer_base = IntegerBase_Decimal | IntegerBase_Octal | IntegerBase_Hexadecimal |
    IntegerBase_Binary

datatype (plugins only: code size) integer_size = IntegerSize_Int | IntegerSize_Long | IntegerSize_LongLong

datatype (plugins only: code size) integer_suffix = IntegerSuffix (integer_suffix_size: integer_size)
    (integer_suffix_unsigned: bool) (integer_suffix_imaginary: bool)

datatype (plugins only: code size) c_integer = Integer (c_integer_base: integer_base) (c_integer_number: string)
    (c_integer_suffix: integer_suffix)

datatype (plugins only: code size) float_base = FloatBase_Decimal | FloatBase_Hexadecimal

datatype (plugins only: code size) ts18661_float_format = TS18661FloatFormat_BinaryInterchange |
    TS18661FloatFormat_BinaryExtended | TS18661FloatFormat_DecimalInterchange |
    TS18661FloatFormat_DecimalExtended

datatype (plugins only: code size) ts18661_float_type = TS18661FloatType (ts18661_float_type_format: ts18661_float_format)
    (ts18661_float_type_width: nat)

datatype (plugins only: code size) float_format = 
    FloatFormat_Float
  | FloatFormat_Double
  | FloatFormat_LongDouble
  | FloatFormat_TS18661Format ts18661_float_type

datatype (plugins only: code size) float_suffix = FloatSuffix (float_suffix_format: float_format)
    (float_suffix_imaginary: bool)

datatype (plugins only: code size) c_float = Float (c_float_base: float_base) (c_float_number: string)
    (c_float_suffix: float_suffix)

datatype (plugins only: code size) c_constant = 
    Constant_Integer c_integer
  | Constant_Float c_float
  | Constant_Character string

datatype (plugins only: code size) storage_class_specifier = StorageClassSpecifier_Typedef | StorageClassSpecifier_Extern |
    StorageClassSpecifier_Static | StorageClassSpecifier_ThreadLocal | StorageClassSpecifier_Auto
    | StorageClassSpecifier_Register | StorageClassSpecifier_Constexpr

datatype (plugins only: code size) type_qualifier = TypeQualifier_Const | TypeQualifier_Restrict | TypeQualifier_Volatile |
    TypeQualifier_Nonnull | TypeQualifier_NullUnspecified | TypeQualifier_Nullable |
    TypeQualifier_Atomic

datatype (plugins only: code size) function_specifier = FunctionSpecifier_Inline | FunctionSpecifier_Noreturn

datatype (plugins only: code size) 'e c_attribute_of = Attribute (c_attribute_name: "string node")
    (c_attribute_arguments: "'e node list")

datatype (plugins only: code size) availability_version = AvailabilityVersion (availability_version_major: string)
    (availability_version_minor: "string option") (availability_version_subminor: "string option")

datatype (plugins only: code size) availability_clause = 
    AvailabilityClause_Introduced "availability_version node"
  | AvailabilityClause_Deprecated "availability_version node"
  | AvailabilityClause_Obsoleted "availability_version node"
  | AvailabilityClause_Unavailable
  | AvailabilityClause_Message "string_literal node"
  | AvailabilityClause_Replacement "string_literal node"

datatype (plugins only: code size) availability_attribute = AvailabilityAttribute
    (availability_attribute_platform: "c_identifier node")
    (availability_attribute_clauses: "availability_clause node list")

datatype (plugins only: code size) 'e c_extension_of = 
    Extension_Attribute "'e c_attribute_of"
  | Extension_AsmLabel "string_literal node"
  | Extension_AvailabilityAttribute "availability_attribute node"

datatype (plugins only: code size) ('e, 'ts) specifier_qualifier_of = 
    SpecifierQualifier_TypeSpecifier "'ts node"
  | SpecifierQualifier_TypeQualifier "type_qualifier node"
  | SpecifierQualifier_Extension "'e c_extension_of node list"

datatype (plugins only: code size) ('e, 'ts, 'r) type_name_of = TypeName
    (type_name_specifiers: "('e, 'ts) specifier_qualifier_of node list")
    (type_name_declarator: "'r node option")

datatype (plugins only: code size) ('e, 'ts, 'r) alignment_specifier_of = 
    AlignmentSpecifier_Type "('e, 'ts, 'r) type_name_of node"
  | AlignmentSpecifier_Constant "'e node"

datatype (plugins only: code size) ('e, 'ts, 'r) declaration_specifier_of = 
    DeclarationSpecifier_StorageClass "storage_class_specifier node"
  | DeclarationSpecifier_TypeSpecifier "'ts node"
  | DeclarationSpecifier_TypeQualifier "type_qualifier node"
  | DeclarationSpecifier_Function "function_specifier node"
  | DeclarationSpecifier_Alignment "('e, 'ts, 'r) alignment_specifier_of node"
  | DeclarationSpecifier_Extension "'e c_extension_of node list"

datatype (plugins only: code size) ('r, 'i) init_declarator_of = InitDeclarator (init_declarator_declarator: "'r node")
    (init_declarator_initializer: "'i node option")

datatype (plugins only: code size) ('e, 'ts, 'r, 'i) c_declaration_of = Declaration
    (c_declaration_specifiers: "('e, 'ts, 'r) declaration_specifier_of node list")
    (c_declaration_declarators: "('r, 'i) init_declarator_of node list")

datatype (plugins only: code size) struct_kind = StructKind_Struct | StructKind_Union

datatype (plugins only: code size) ('e, 'r) struct_declarator_of = StructDeclarator
    (struct_declarator_declarator: "'r node option")
    (struct_declarator_bit_width: "'e node option")

datatype (plugins only: code size) ('e, 'ts, 'r) struct_field_of = StructField
    (struct_field_specifiers: "('e, 'ts) specifier_qualifier_of node list")
    (struct_field_declarators: "('e, 'r) struct_declarator_of node list")

datatype (plugins only: code size) 'e static_assert_of = StaticAssert (static_assert_expression: "'e node")
    (static_assert_message: "string_literal node")

datatype (plugins only: code size) ('e, 'ts, 'r) struct_declaration_of = 
    StructDeclaration_Field "('e, 'ts, 'r) struct_field_of node"
  | StructDeclaration_StaticAssert "'e static_assert_of node"

datatype (plugins only: code size) ('e, 'ts, 'r) struct_type_of = StructType (struct_type_kind: "struct_kind node")
    (struct_type_identifier: "c_identifier node option")
    (struct_type_declarations: "('e, 'ts, 'r) struct_declaration_of node list option")
    (struct_type_extensions: "'e c_extension_of node list")

datatype (plugins only: code size) 'e enumerator_of = Enumerator (enumerator_identifier: "c_identifier node")
    (enumerator_expression: "'e node option")
    (enumerator_extensions: "'e c_extension_of node list")

datatype (plugins only: code size) 'e enum_type_of = EnumType (enum_type_identifier: "c_identifier node option")
    (enum_type_enumerators: "'e enumerator_of node list")

datatype (plugins only: code size) 'r declarator_kind_of = 
    DeclaratorKind_Abstract
  | DeclaratorKind_Identifier "c_identifier node"
  | DeclaratorKind_Declarator "'r node"

datatype (plugins only: code size) 'e pointer_qualifier_of = 
    PointerQualifier_TypeQualifier "type_qualifier node"
  | PointerQualifier_Extension "'e c_extension_of node list"

datatype (plugins only: code size) 'e array_size_of = 
    ArraySize_Unknown
  | ArraySize_VariableUnknown
  | ArraySize_VariableExpression "'e node"
  | ArraySize_StaticExpression "'e node"

datatype (plugins only: code size) 'e array_declarator_of = ArrayDeclarator
    (array_declarator_qualifiers: "type_qualifier node list")
    (array_declarator_size: "'e array_size_of")

datatype (plugins only: code size) ('e, 'ts, 'r) parameter_declaration_of = ParameterDeclaration
    (parameter_declaration_specifiers: "('e, 'ts, 'r) declaration_specifier_of node list")
    (parameter_declaration_declarator: "'r node option")
    (parameter_declaration_extensions: "'e c_extension_of node list")

datatype (plugins only: code size) ellipsis = Ellipsis_Some | Ellipsis_None

datatype (plugins only: code size) ('e, 'ts, 'r) function_declarator_of = FunctionDeclarator
    (function_declarator_parameters: "('e, 'ts, 'r) parameter_declaration_of node list")
    (function_declarator_ellipsis: ellipsis)

datatype (plugins only: code size) ('e, 'ts, 'r) derived_declarator_of = 
    DerivedDeclarator_Pointer "'e pointer_qualifier_of node list"
  | DerivedDeclarator_Array "'e array_declarator_of node"
  | DerivedDeclarator_Function "('e, 'ts, 'r) function_declarator_of node"
  | DerivedDeclarator_KRFunction "c_identifier node list"
  | DerivedDeclarator_Block "'e pointer_qualifier_of node list"

datatype (plugins only: code size) 'e range_designator_of = RangeDesignator (range_designator_from: "'e node")
    (range_designator_to: "'e node")

datatype (plugins only: code size) 'e designator_of = 
    Designator_Index "'e node"
  | Designator_Member "c_identifier node"
  | Designator_Range "'e range_designator_of node"

datatype (plugins only: code size) ('e, 'i) initializer_list_item_of = InitializerListItem
    (initializer_list_item_designation: "'e designator_of node list")
    (initializer_list_item_initializer: "'i node")

datatype (plugins only: code size) ('e, 'ts, 'r, 'i, 's) function_definition_of = FunctionDefinition
    (function_definition_specifiers: "('e, 'ts, 'r) declaration_specifier_of node list")
    (function_definition_declarator: "'r node")
    (function_definition_declarations: "('e, 'ts, 'r, 'i) c_declaration_of node list")
    (function_definition_statement: "'s node")

datatype (plugins only: code size) ('e, 'ts, 'r, 'i, 's) external_declaration_of = 
    ExternalDeclaration_Declaration "('e, 'ts, 'r, 'i) c_declaration_of node"
  | ExternalDeclaration_StaticAssert "'e static_assert_of node"
  | ExternalDeclaration_FunctionDefinition "('e, 'ts, 'r, 'i, 's) function_definition_of node"

datatype (plugins only: code size) ('e, 'ts, 'r, 'i, 's) translation_unit_of = TranslationUnit
    "('e, 'ts, 'r, 'i, 's) external_declaration_of node list"

datatype (plugins only: code size) 'e gnu_asm_operand_of = GnuAsmOperand
    (gnu_asm_operand_symbolic_name: "c_identifier node option")
    (gnu_asm_operand_constraints: "string_literal node")
    (gnu_asm_operand_variable_name: "'e node")

datatype (plugins only: code size) 'e gnu_extended_asm_statement_of = GnuExtendedAsmStatement
    (gnu_extended_asm_statement_qualifier: "type_qualifier node option")
    (gnu_extended_asm_statement_template: "string_literal node")
    (gnu_extended_asm_statement_outputs: "'e gnu_asm_operand_of node list")
    (gnu_extended_asm_statement_inputs: "'e gnu_asm_operand_of node list")
    (gnu_extended_asm_statement_clobbers: "string_literal node list")

datatype (plugins only: code size) 'e asm_statement_of = 
    AsmStatement_GnuBasic "string_literal node"
  | AsmStatement_GnuExtended "'e gnu_extended_asm_statement_of"

datatype (plugins only: code size) ('e, 'ts, 'r) type_of_of = 
    TypeOf_Expression "'e node"
  | TypeOf_Type "('e, 'ts, 'r) type_name_of node"

datatype (plugins only: code size) member_operator = MemberOperator_Direct | MemberOperator_Indirect

datatype (plugins only: code size) ('e, 'ts, 'r) generic_association_type_of = GenericAssociationType
    (generic_association_type_type_name: "('e, 'ts, 'r) type_name_of node")
    (generic_association_type_expression: "'e node")

datatype (plugins only: code size) ('e, 'ts, 'r) generic_association_of = 
    GenericAssociation_Type "('e, 'ts, 'r) generic_association_type_of node"
  | GenericAssociation_Default "'e node"

datatype (plugins only: code size) ('e, 'ts, 'r) generic_selection_of = GenericSelection
    (generic_selection_expression: "'e node")
    (generic_selection_associations: "('e, 'ts, 'r) generic_association_of node list")

datatype (plugins only: code size) 'e member_expression_of = MemberExpression
    (member_expression_operator: "member_operator node") (member_expression_expression: "'e node")
    (member_expression_identifier: "c_identifier node")

datatype (plugins only: code size) 'e call_expression_of = CallExpression (call_expression_callee: "'e node")
    (call_expression_arguments: "'e node list")

datatype (plugins only: code size) ('e, 'ts, 'r, 'i) compound_literal_of = CompoundLiteral
    (compound_literal_type_name: "('e, 'ts, 'r) type_name_of node")
    (compound_literal_initializer_list: "('e, 'i) initializer_list_item_of node list")

datatype (plugins only: code size) ('e, 'ts, 'r) size_of_ty_of = SizeOfTy "('e, 'ts, 'r) type_name_of node"

datatype (plugins only: code size) 'e size_of_val_of = SizeOfVal "'e node"

datatype (plugins only: code size) ('e, 'ts, 'r) align_of_of = AlignOf "('e, 'ts, 'r) type_name_of node"

datatype (plugins only: code size) unary_operator = UnaryOperator_PostIncrement | UnaryOperator_PostDecrement |
    UnaryOperator_PreIncrement | UnaryOperator_PreDecrement | UnaryOperator_Address |
    UnaryOperator_Indirection | UnaryOperator_Plus | UnaryOperator_Minus |
    UnaryOperator_Complement | UnaryOperator_Negate

datatype (plugins only: code size) 'e unary_operator_expression_of = UnaryOperatorExpression
    (unary_operator_expression_operator: "unary_operator node")
    (unary_operator_expression_operand: "'e node")

datatype (plugins only: code size) ('e, 'ts, 'r) cast_expression_of = CastExpression
    (cast_expression_type_name: "('e, 'ts, 'r) type_name_of node")
    (cast_expression_expression: "'e node")

datatype (plugins only: code size) binary_operator = BinaryOperator_Index | BinaryOperator_Multiply | BinaryOperator_Divide
    | BinaryOperator_Modulo | BinaryOperator_Plus | BinaryOperator_Minus |
    BinaryOperator_ShiftLeft | BinaryOperator_ShiftRight | BinaryOperator_Less |
    BinaryOperator_Greater | BinaryOperator_LessOrEqual | BinaryOperator_GreaterOrEqual |
    BinaryOperator_Equals | BinaryOperator_NotEquals | BinaryOperator_BitwiseAnd |
    BinaryOperator_BitwiseXor | BinaryOperator_BitwiseOr | BinaryOperator_LogicalAnd |
    BinaryOperator_LogicalOr | BinaryOperator_Assign | BinaryOperator_AssignMultiply |
    BinaryOperator_AssignDivide | BinaryOperator_AssignModulo | BinaryOperator_AssignPlus |
    BinaryOperator_AssignMinus | BinaryOperator_AssignShiftLeft | BinaryOperator_AssignShiftRight
    | BinaryOperator_AssignBitwiseAnd | BinaryOperator_AssignBitwiseXor |
    BinaryOperator_AssignBitwiseOr

datatype (plugins only: code size) 'e binary_operator_expression_of = BinaryOperatorExpression
    (binary_operator_expression_operator: "binary_operator node")
    (binary_operator_expression_lhs: "'e node") (binary_operator_expression_rhs: "'e node")

datatype (plugins only: code size) 'e conditional_expression_of = ConditionalExpression
    (conditional_expression_condition: "'e node")
    (conditional_expression_then_expression: "'e node")
    (conditional_expression_else_expression: "'e node")

datatype (plugins only: code size) ('e, 'ts, 'r) va_arg_expression_of = VaArgExpression
    (va_arg_expression_va_list: "'e node")
    (va_arg_expression_type_name: "('e, 'ts, 'r) type_name_of node")

datatype (plugins only: code size) 'e offset_member_of = 
    OffsetMember_Member "c_identifier node"
  | OffsetMember_IndirectMember "c_identifier node"
  | OffsetMember_Index "'e node"

datatype (plugins only: code size) 'e offset_designator_of = OffsetDesignator (offset_designator_base: "c_identifier node")
    (offset_designator_members: "'e offset_member_of node list")

datatype (plugins only: code size) ('e, 'ts, 'r) offset_of_expression_of = OffsetOfExpression
    (offset_of_expression_type_name: "('e, 'ts, 'r) type_name_of node")
    (offset_of_expression_designator: "'e offset_designator_of node")

datatype (plugins only: code size) 'e case_range_of = CaseRange (case_range_low: "'e node") (case_range_high: "'e node")

datatype (plugins only: code size) 'e c_label_of = 
    Label_Identifier "c_identifier node"
  | Label_Case "'e node"
  | Label_CaseRange "'e case_range_of node"
  | Label_Default

datatype (plugins only: code size) ('e, 's) labeled_statement_of = LabeledStatement
    (labeled_statement_label: "'e c_label_of node") (labeled_statement_statement: "'s node")

datatype (plugins only: code size) ('e, 's) if_statement_of = IfStatement (if_statement_condition: "'e node")
    (if_statement_then_statement: "'s node") (if_statement_else_statement: "'s node option")

datatype (plugins only: code size) ('e, 's) switch_statement_of = SwitchStatement (switch_statement_expression: "'e node")
    (switch_statement_statement: "'s node")

datatype (plugins only: code size) ('e, 's) while_statement_of = WhileStatement (while_statement_expression: "'e node")
    (while_statement_statement: "'s node")

datatype (plugins only: code size) ('e, 's) do_while_statement_of = DoWhileStatement
    (do_while_statement_statement: "'s node") (do_while_statement_expression: "'e node")

datatype (plugins only: code size) ('e, 'ts, 'r, 'i) for_initializer_of = 
    ForInitializer_Empty
  | ForInitializer_Expression "'e node"
  | ForInitializer_Declaration "('e, 'ts, 'r, 'i) c_declaration_of node"
  | ForInitializer_StaticAssert "'e static_assert_of node"

datatype (plugins only: code size) ('e, 'ts, 'r, 'i, 's) for_statement_of = ForStatement
    (for_statement_initializer: "('e, 'ts, 'r, 'i) for_initializer_of node")
    (for_statement_condition: "'e node option") (for_statement_step: "'e node option")
    (for_statement_statement: "'s node")

datatype (plugins only: code size) ('e, 'ts, 'r, 'i, 's) block_item_of = 
    BlockItem_Declaration "('e, 'ts, 'r, 'i) c_declaration_of node"
  | BlockItem_StaticAssert "'e static_assert_of node"
  | BlockItem_Statement "'s node"

text \<open>The types that contain each other.\<close>

datatype (plugins only: code size) expression = 
    Expression_Identifier "c_identifier node"
  | Expression_Constant "c_constant node"
  | Expression_StringLiteral "string_literal node"
  | Expression_GenericSelection "(expression, type_specifier, declarator) generic_selection_of node"
  | Expression_Member "expression member_expression_of node"
  | Expression_Call "expression call_expression_of node"
  | Expression_CompoundLiteral "(expression, type_specifier, declarator, initializer) compound_literal_of node"
  | Expression_SizeOfTy "(expression, type_specifier, declarator) size_of_ty_of node"
  | Expression_SizeOfVal "expression size_of_val_of node"
  | Expression_AlignOf "(expression, type_specifier, declarator) align_of_of node"
  | Expression_UnaryOperator "expression unary_operator_expression_of node"
  | Expression_Cast "(expression, type_specifier, declarator) cast_expression_of node"
  | Expression_BinaryOperator "expression binary_operator_expression_of node"
  | Expression_Conditional "expression conditional_expression_of node"
  | Expression_Comma "expression node list"
  | Expression_OffsetOf "(expression, type_specifier, declarator) offset_of_expression_of node"
  | Expression_VaArg "(expression, type_specifier, declarator) va_arg_expression_of node"
  | Expression_Statement "statement node"
and type_specifier = 
    TypeSpecifier_Void
  | TypeSpecifier_Char
  | TypeSpecifier_Short
  | TypeSpecifier_Int
  | TypeSpecifier_Long
  | TypeSpecifier_Float
  | TypeSpecifier_Double
  | TypeSpecifier_Signed
  | TypeSpecifier_Unsigned
  | TypeSpecifier_Bool
  | TypeSpecifier_Complex
  | TypeSpecifier_Atomic "(expression, type_specifier, declarator) type_name_of node"
  | TypeSpecifier_Struct "(expression, type_specifier, declarator) struct_type_of node"
  | TypeSpecifier_Enum "expression enum_type_of node"
  | TypeSpecifier_TypedefName "c_identifier node"
  | TypeSpecifier_TypeOf "(expression, type_specifier, declarator) type_of_of node"
  | TypeSpecifier_TS18661Float ts18661_float_type
  | TypeSpecifier_Int128
  | TypeSpecifier_Float128
  | TypeSpecifier_BitInt "expression node"
and declarator = Declarator (declarator_kind: "declarator declarator_kind_of node")
    (declarator_derived: "(expression, type_specifier, declarator) derived_declarator_of node list")
    (declarator_extensions: "expression c_extension_of node list")
and initializer = 
    Initializer_Expression "expression node"
  | Initializer_List "(expression, initializer) initializer_list_item_of node list"
and statement = 
    Statement_Labeled "(expression, statement) labeled_statement_of node"
  | Statement_Compound "(expression, type_specifier, declarator, initializer, statement) block_item_of node list"
  | Statement_Expression "expression node option"
  | Statement_If "(expression, statement) if_statement_of node"
  | Statement_Switch "(expression, statement) switch_statement_of node"
  | Statement_While "(expression, statement) while_statement_of node"
  | Statement_DoWhile "(expression, statement) do_while_statement_of node"
  | Statement_For "(expression, type_specifier, declarator, initializer, statement) for_statement_of node"
  | Statement_Goto "c_identifier node"
  | Statement_Continue
  | Statement_Break
  | Statement_Return "expression node option"
  | Statement_Asm "expression asm_statement_of node"

type_synonym c_attribute = "expression c_attribute_of"
type_synonym c_extension = "expression c_extension_of"
type_synonym specifier_qualifier = "(expression, type_specifier) specifier_qualifier_of"
type_synonym type_name = "(expression, type_specifier, declarator) type_name_of"
type_synonym alignment_specifier = "(expression, type_specifier, declarator) alignment_specifier_of"
type_synonym declaration_specifier = "(expression, type_specifier, declarator) declaration_specifier_of"
type_synonym init_declarator = "(declarator, initializer) init_declarator_of"
type_synonym c_declaration = "(expression, type_specifier, declarator, initializer) c_declaration_of"
type_synonym struct_declarator = "(expression, declarator) struct_declarator_of"
type_synonym struct_field = "(expression, type_specifier, declarator) struct_field_of"
type_synonym static_assert = "expression static_assert_of"
type_synonym struct_declaration = "(expression, type_specifier, declarator) struct_declaration_of"
type_synonym struct_type = "(expression, type_specifier, declarator) struct_type_of"
type_synonym enumerator = "expression enumerator_of"
type_synonym enum_type = "expression enum_type_of"
type_synonym declarator_kind = "declarator declarator_kind_of"
type_synonym pointer_qualifier = "expression pointer_qualifier_of"
type_synonym array_size = "expression array_size_of"
type_synonym array_declarator = "expression array_declarator_of"
type_synonym parameter_declaration = "(expression, type_specifier, declarator) parameter_declaration_of"
type_synonym function_declarator = "(expression, type_specifier, declarator) function_declarator_of"
type_synonym derived_declarator = "(expression, type_specifier, declarator) derived_declarator_of"
type_synonym range_designator = "expression range_designator_of"
type_synonym designator = "expression designator_of"
type_synonym initializer_list_item = "(expression, initializer) initializer_list_item_of"
type_synonym function_definition = "(expression, type_specifier, declarator, initializer, statement) function_definition_of"
type_synonym external_declaration = "(expression, type_specifier, declarator, initializer, statement) external_declaration_of"
type_synonym translation_unit = "(expression, type_specifier, declarator, initializer, statement) translation_unit_of"
type_synonym gnu_asm_operand = "expression gnu_asm_operand_of"
type_synonym gnu_extended_asm_statement = "expression gnu_extended_asm_statement_of"
type_synonym asm_statement = "expression asm_statement_of"
type_synonym type_of = "(expression, type_specifier, declarator) type_of_of"
type_synonym generic_association_type = "(expression, type_specifier, declarator) generic_association_type_of"
type_synonym generic_association = "(expression, type_specifier, declarator) generic_association_of"
type_synonym generic_selection = "(expression, type_specifier, declarator) generic_selection_of"
type_synonym member_expression = "expression member_expression_of"
type_synonym call_expression = "expression call_expression_of"
type_synonym compound_literal = "(expression, type_specifier, declarator, initializer) compound_literal_of"
type_synonym size_of_ty = "(expression, type_specifier, declarator) size_of_ty_of"
type_synonym size_of_val = "expression size_of_val_of"
type_synonym align_of = "(expression, type_specifier, declarator) align_of_of"
type_synonym unary_operator_expression = "expression unary_operator_expression_of"
type_synonym cast_expression = "(expression, type_specifier, declarator) cast_expression_of"
type_synonym binary_operator_expression = "expression binary_operator_expression_of"
type_synonym conditional_expression = "expression conditional_expression_of"
type_synonym va_arg_expression = "(expression, type_specifier, declarator) va_arg_expression_of"
type_synonym offset_member = "expression offset_member_of"
type_synonym offset_designator = "expression offset_designator_of"
type_synonym offset_of_expression = "(expression, type_specifier, declarator) offset_of_expression_of"
type_synonym case_range = "expression case_range_of"
type_synonym c_label = "expression c_label_of"
type_synonym labeled_statement = "(expression, statement) labeled_statement_of"
type_synonym if_statement = "(expression, statement) if_statement_of"
type_synonym switch_statement = "(expression, statement) switch_statement_of"
type_synonym while_statement = "(expression, statement) while_statement_of"
type_synonym do_while_statement = "(expression, statement) do_while_statement_of"
type_synonym for_initializer = "(expression, type_specifier, declarator, initializer) for_initializer_of"
type_synonym for_statement = "(expression, type_specifier, declarator, initializer, statement) for_statement_of"
type_synonym block_item = "(expression, type_specifier, declarator, initializer, statement) block_item_of"

end
