(* ===== verification/Env.thy ===== *)
theory Env
  imports Prelude Ast
begin

text \<open>
  What the parser's actions call: the symbol table that tells type names from identifiers
  (\<open>src/env.rs\<close>), the reserved words of the language flavours (\<open>src/strings.rs\<close>), and the helpers of
  \<open>src/astutil.rs\<close> (operators applied to expressions, integer suffixes).

  A scope is an association list with the newest entry of a name first; the vector of scopes is a
  list with the innermost scope first, so \<open>symbols.last_mut()\<close> is the head of the list.
\<close>

subsection \<open>Reserved words\<close>

definition reserved_c11 :: "string list" where
  "reserved_c11 =
   [''auto'', ''break'', ''case'', ''char'', ''const'', ''continue'', ''default'', ''do'',
    ''double'', ''else'', ''enum'', ''extern'', ''float'', ''for'', ''goto'', ''if'', ''inline'',
    ''int'', ''long'', ''register'', ''restrict'', ''return'', ''short'', ''signed'', ''sizeof'',
    ''static'', ''struct'', ''switch'', ''typedef'', ''union'', ''unsigned'', ''void'',
    ''volatile'', ''while'', ''_Alignas'', ''_Alignof'', ''_Atomic'', ''_Bool'', ''_Complex'',
    ''_Generic'', ''_Imaginary'', ''_Noreturn'', ''_Static_assert'', ''_Thread_local'',
    ''_Float16'', ''_Float16x'', ''_Float32'', ''_Float32x'', ''_Float64'', ''_Float64x'',
    ''_Float128'', ''_Float128x'', ''_Decimal32'', ''_Decimal32x'', ''_Decimal64'',
    ''_Decimal64x'', ''_Decimal128'', ''_Decimal128x'', ''bool'', ''true'', ''false'',
    ''static_assert'', ''alignas'', ''alignof'', ''thread_local'', ''nullptr'', ''constexpr'',
    ''noreturn'', ''complex'', ''_BitInt'']"

definition reserved_gnu :: "string list" where
  "reserved_gnu =
   [''__FUNCTION__'', ''__PRETTY_FUNCTION__'', ''__alignof'', ''__alignof__'', ''__asm'',
    ''__asm__'', ''__attribute'', ''__attribute__'', ''__builtin_offsetof'', ''__builtin_va_arg'',
    ''__complex'', ''__complex__'', ''__const'', ''__extension__'', ''__func__'', ''__imag'',
    ''__imag__'', ''__inline'', ''__inline__'', ''__label__'', ''__null'', ''__real'',
    ''__real__'', ''__restrict'', ''__restrict__'', ''__signed'', ''__signed__'', ''__thread'',
    ''__typeof'', ''__volatile'', ''__volatile__'', ''__int128'', ''__float128'']"

definition reserved_clang :: "string list" where
  "reserved_clang =
   [''__single_inheritance'', ''__multiple_inheritance'', ''__virtual_inheritance'',
    ''__unspecified_inheritance'', ''__fastcall'', ''__regcall'', ''__stdcall'', ''__thiscall'',
    ''__vectorcall'', ''_Nonnull'', ''_Null_unspecified'', ''_Nullable'']"

subsection \<open>Scopes\<close>

datatype symbol = Symbol_Typename | Symbol_Identifier

record env =
  symbols :: "(string \<times> symbol) list list"
  extensions_gnu :: bool
  extensions_clang :: bool
  reserved :: "string list"

definition with_core :: env where
  "with_core =
     \<lparr>symbols = [[]], extensions_gnu = False, extensions_clang = False, reserved = reserved_c11\<rparr>"

definition with_gnu :: env where
  "with_gnu =
     \<lparr>symbols = [[(''__builtin_va_list'', Symbol_Typename)]], extensions_gnu = True,
      extensions_clang = False, reserved = reserved_c11 @ reserved_gnu\<rparr>"

definition with_clang :: env where
  "with_clang =
     \<lparr>symbols = [[(''__builtin_va_list'', Symbol_Typename)]], extensions_gnu = True,
      extensions_clang = True, reserved = reserved_c11 @ reserved_gnu @ reserved_clang\<rparr>"

definition enter_scope :: "env \<Rightarrow> env" where
  "enter_scope e = e\<lparr>symbols := [] # symbols e\<rparr>"

text \<open>\<open>pop().expect(..)\<close> panics without a scope.\<close>

definition leave_scope :: "env \<Rightarrow> env outcome" where
  "leave_scope e =
     (case symbols e of [] \<Rightarrow> Panic ExpectFailed | _ # ss \<Rightarrow> Ok (e\<lparr>symbols := ss\<rparr>))"

fun typename_in :: "(string \<times> symbol) list list \<Rightarrow> string \<Rightarrow> bool" where
  "typename_in [] ident = False"
| "typename_in (scope # ss) ident =
     (case map_of scope ident of Some symbol \<Rightarrow> symbol = Symbol_Typename | None \<Rightarrow> typename_in ss ident)"

definition is_typename :: "env \<Rightarrow> string \<Rightarrow> bool" where
  "is_typename e ident = typename_in (symbols e) ident"

definition add_symbol :: "string \<Rightarrow> symbol \<Rightarrow> env \<Rightarrow> env outcome" where
  "add_symbol s symbol e =
     (case symbols e of
        [] \<Rightarrow> Panic ExpectFailed
      | scope # ss \<Rightarrow> Ok (e\<lparr>symbols := ((s, symbol) # scope) # ss\<rparr>))"

fun find_declarator_name :: "declarator \<Rightarrow> string option" where
  "find_declarator_name (Declarator (Node DeclaratorKind_Abstract _) _ _) = None"
| "find_declarator_name (Declarator (Node (DeclaratorKind_Identifier i) _) _ _) =
     Some (c_identifier_name (node i))"
| "find_declarator_name (Declarator (Node (DeclaratorKind_Declarator (Node d _)) _) _ _) =
     find_declarator_name d"

definition handle_declarator :: "declarator node \<Rightarrow> symbol \<Rightarrow> env \<Rightarrow> env outcome" where
  "handle_declarator d symbol e =
     (case find_declarator_name (node d) of None \<Rightarrow> Ok e | Some name \<Rightarrow> add_symbol name symbol e)"

subsection \<open>Expressions from operators\<close>

datatype operation =
    Operation_Member "member_operator node" "c_identifier node"
  | Operation_Unary "unary_operator node"
  | Operation_Binary "binary_operator node" "expression node"
  | Operation_Call "expression node list"

definition apply_op :: "expression node \<Rightarrow> operation node \<Rightarrow> expression node" where
  "apply_op a op =
     (let span = Span (span_start (node_span a)) (span_end (node_span op));
          expr =
            (case node op of
               Operation_Member mop i \<Rightarrow>
                 Expression_Member (Node (MemberExpression mop a i) span)
             | Operation_Unary uop \<Rightarrow>
                 Expression_UnaryOperator (Node (UnaryOperatorExpression uop a) span)
             | Operation_Binary bop b \<Rightarrow>
                 Expression_BinaryOperator (Node (BinaryOperatorExpression bop a b) span)
             | Operation_Call args \<Rightarrow>
                 Expression_Call (Node (CallExpression a args) span))
      in Node expr span)"

definition apply_ops :: "operation node list \<Rightarrow> expression node \<Rightarrow> expression node" where
  "apply_ops ops expr = foldl apply_op expr ops"

definition infix_op :: "unit node \<Rightarrow> binary_operator \<Rightarrow> expression node \<Rightarrow> expression node \<Rightarrow> expression node" where
  "infix_op n op lhs rhs =
     (let span = Span (span_start (node_span lhs)) (span_end (node_span rhs))
      in Node (Expression_BinaryOperator
                 (Node (BinaryOperatorExpression (Node op (node_span n)) lhs rhs) span)) span)"

definition with_ext :: "declarator node \<Rightarrow> c_extension node list option \<Rightarrow> declarator node" where
  "with_ext d e =
     (case e of
        None \<Rightarrow> d
      | Some e \<Rightarrow>
          (case d of Node (Declarator k ds xs) s \<Rightarrow> Node (Declarator k ds (xs @ e)) s))"

definition ts18661_float :: "bool \<Rightarrow> nat \<Rightarrow> bool \<Rightarrow> ts18661_float_type" where
  "ts18661_float binary width extended =
     TS18661FloatType
       (if binary then
          (if extended then TS18661FloatFormat_BinaryExtended
           else TS18661FloatFormat_BinaryInterchange)
        else
          (if extended then TS18661FloatFormat_DecimalExtended
           else TS18661FloatFormat_DecimalInterchange)) width"

subsection \<open>Integer suffixes\<close>

text \<open>One turn of the loop of \<open>int_suffix\<close> drops two bytes of \<open>ll\<close>, or one byte.\<close>

function int_suffix_loop :: "string \<Rightarrow> integer_size \<Rightarrow> bool \<Rightarrow> bool \<Rightarrow> string + integer_suffix" where
  "int_suffix_loop s l u i =
     (if s = [] then Inr (IntegerSuffix l u i)
      else if l = IntegerSize_Int \<and> (starts_with s ''ll'' \<or> starts_with s ''LL'') then
        int_suffix_loop (drop 2 s) IntegerSize_LongLong u i
      else if l = IntegerSize_Int \<and> (starts_with s ''l'' \<or> starts_with s ''L'') then
        int_suffix_loop (drop 1 s) IntegerSize_Long u i
      else if \<not> u \<and> (starts_with s ''u'' \<or> starts_with s ''U'') then
        int_suffix_loop (drop 1 s) l True i
      else if \<not> i \<and> (starts_with s ''i'' \<or> starts_with s ''I'' \<or> starts_with s ''j'' \<or> starts_with s ''J'') then
        int_suffix_loop (drop 1 s) l u True
      else Inl ''integer suffix'')"
  by pat_completeness auto

termination
  by (relation "measure (\<lambda>(s, l, u, i). length s)") auto

declare int_suffix_loop.simps [simp del]

definition int_suffix :: "string \<Rightarrow> string + integer_suffix" where
  "int_suffix s = int_suffix_loop s IntegerSize_Int False False"

end
