(* ===== verification/Peg.thy ===== *)
theory Peg
  imports Env
begin

text \<open>
  The shapes that the parser's functions are made of (\<open>src/parser/prelude.rs\<close> and the code repeated in
  every \<open>__parse_*\<close> function).  A rule reads the input at a position, with a mutable parse state and the
  mutable environment, and matches up to a position with a value or fails; changes of the state
  persist on failure.  Each shape of the parser's code is a combinator here: \<open>match p { Matched(__pos, v)
  => q, Failed => Failed }\<close> is \<open>p_seq\<close>, \<open>match p { Matched(..) => .., Failed => q }\<close> is \<open>p_choice\<close>, the
  \<open>loop\<close> with \<open>__repeat_pos\<close> is \<open>p_loop\<close>, \<open>suppress_fail += 1; ..; suppress_fail -= 1\<close> is \<open>p_quiet\<close>,
  and so on.

  The second half is a calculus for these combinators: \<open>ok s k p\<close> says that on valid UTF-8 text and at a
  character boundary with fewer than \<open>k\<close> bytes left, \<open>p\<close> returns without panic, at a boundary not before
  where it started (after it, if \<open>s\<close>), and leaves the scopes and the suppression counter balanced.  The
  collection \<open>ok_intros\<close> has one rule per combinator, so that a grammar rule is checked by walking
  through its definition.
\<close>

named_theorems ok_intros "introduction rules of the calculus, one per combinator and grammar rule"

subsection \<open>Parse state\<close>

datatype 'a rule_result = Matched nat 'a | Failed

record parse_state =
  max_err_pos :: nat
  suppress_fail :: nat
  expected :: "string set"
  postfix_expression0_cache :: "nat \<rightharpoonup> expression rule_result"
  env :: env

definition new_parse_state :: "env \<Rightarrow> parse_state" where
  "new_parse_state e =
     \<lparr>max_err_pos = 0, suppress_fail = 0, expected = {}, postfix_expression0_cache = Map.empty,
      env = e\<rparr>"

type_synonym 'a parser = "string \<Rightarrow> nat \<Rightarrow> parse_state \<Rightarrow> ('a rule_result \<times> parse_state) outcome"

definition mark_failure :: "nat \<Rightarrow> string \<Rightarrow> parse_state \<Rightarrow> parse_state" where
  "mark_failure pos name st =
     (if suppress_fail st \<noteq> 0 then st
      else if pos > max_err_pos st then st\<lparr>max_err_pos := pos, expected := {name}\<rparr>
      else if pos = max_err_pos st then st\<lparr>expected := insert name (expected st)\<rparr>
      else st)"

subsection \<open>Combinators\<close>

definition p_pure :: "'a \<Rightarrow> 'a parser" where
  "p_pure v input pos st = Ok (Matched pos v, st)"

definition p_fail :: "'a parser" where
  "p_fail input pos st = Ok (Failed, st)"

definition p_mark :: "string \<Rightarrow> 'a parser" where
  "p_mark name input pos st = Ok (Failed, mark_failure pos name st)"

definition p_seq :: "'a parser \<Rightarrow> ('a \<Rightarrow> 'b parser) \<Rightarrow> 'b parser" where
  "p_seq p q input pos st =
     and_then (p input pos st) (\<lambda>(r, st).
       case r of Matched pos v \<Rightarrow> q v input pos st | Failed \<Rightarrow> Ok (Failed, st))"

abbreviation p_then :: "'a parser \<Rightarrow> 'b parser \<Rightarrow> 'b parser" where
  "p_then p q \<equiv> p_seq p (\<lambda>_. q)"

definition p_choice :: "'a parser \<Rightarrow> 'a parser \<Rightarrow> 'a parser" where
  "p_choice p q input pos st =
     and_then (p input pos st) (\<lambda>(r, st).
       case r of Matched pos v \<Rightarrow> Ok (Matched pos v, st) | Failed \<Rightarrow> q input pos st)"

text \<open>A chain of alternatives, tried in order.\<close>

fun p_choices :: "'a parser list \<Rightarrow> 'a parser" where
  "p_choices [] = p_fail"
| "p_choices [p] = p"
| "p_choices (p # ps) = p_choice p (p_choices ps)"

declare p_choices.simps [simp del]

definition p_opt :: "'a parser \<Rightarrow> 'a option parser" where
  "p_opt p = p_choice (p_seq p (\<lambda>v. p_pure (Some v))) (p_pure None)"

text \<open>\<open>Failed => Matched(__pos, ())\<close>: an optional part whose value is not used.\<close>

definition p_maybe :: "'a parser \<Rightarrow> unit parser" where
  "p_maybe p = p_choice (p_then p (p_pure ())) (p_pure ())"

definition p_pos :: "nat parser" where
  "p_pos input pos st = Ok (Matched pos pos, st)"

text \<open>A value with the span it was read from.\<close>

definition p_node :: "'a parser \<Rightarrow> 'a node parser" where
  "p_node p = p_seq p_pos (\<lambda>l. p_seq p (\<lambda>e. p_seq p_pos (\<lambda>r. p_pure (Node e (Span l r)))))"

definition p_quiet :: "'a parser \<Rightarrow> 'a parser" where
  "p_quiet p input pos st =
     and_then (p input pos (st\<lparr>suppress_fail := Suc (suppress_fail st)\<rparr>)) (\<lambda>(r, st).
       Ok (r, st\<lparr>suppress_fail := suppress_fail st - 1\<rparr>))"

text \<open>The assertions \<open>!p\<close> and \<open>&p\<close> consume nothing.\<close>

definition p_not :: "'a parser \<Rightarrow> unit parser" where
  "p_not p input pos st =
     and_then (p_quiet p input pos st) (\<lambda>(r, st).
       Ok (case r of Failed \<Rightarrow> Matched pos () | Matched _ _ \<Rightarrow> Failed, st))"

definition p_and :: "'a parser \<Rightarrow> 'a parser" where
  "p_and p input pos st =
     and_then (p_quiet p input pos st) (\<lambda>(r, st).
       Ok (case r of Matched _ v \<Rightarrow> Matched pos v | Failed \<Rightarrow> Failed, st))"

text \<open>A failure that is reported under a name of its own.\<close>

definition p_named :: "string \<Rightarrow> 'a parser \<Rightarrow> 'a parser" where
  "p_named name p = p_choice p (p_mark name)"

text \<open>\<open>slice_eq\<close>: a literal.\<close>

definition p_lit :: "string \<Rightarrow> unit parser" where
  "p_lit m input pos st =
     (if pos + length m \<le> length input \<and> take (length m) (drop pos input) = m
      then Ok (Matched (pos + length m) (), st)
      else p_mark m input pos st)"

text \<open>
  \<open>char_range_at\<close> slices the text at the position, which must be a character boundary, and returns
  the position after the character there.  The character classes of the grammar only name ASCII
  characters, so a class is a predicate on the first byte.
\<close>

definition utf8_len :: "char \<Rightarrow> nat" where
  "utf8_len c = (if byte c < 128 then 1 else if byte c < 224 then 2 else if byte c < 240 then 3 else 4)"

definition p_class :: "string \<Rightarrow> (char \<Rightarrow> bool) \<Rightarrow> unit parser" where
  "p_class name P input pos st =
     (if pos < length input then
        if \<not> is_char_boundary input pos then Panic SliceOutOfRange
        else if P (input ! pos) then Ok (Matched (pos + utf8_len (input ! pos)) (), st)
        else p_mark name input pos st
      else p_mark name input pos st)"

text \<open>\<open>&__input[str_start..__newpos]\<close>: the text that was matched.\<close>

definition p_slice :: "'a parser \<Rightarrow> string parser" where
  "p_slice p input pos st =
     and_then (p input pos st) (\<lambda>(r, st).
       case r of
         Failed \<Rightarrow> Ok (Failed, st)
       | Matched newpos _ \<Rightarrow>
           if pos \<le> newpos \<and> newpos \<le> length input \<and> is_char_boundary input pos \<and> is_char_boundary input newpos
           then Ok (Matched newpos (take (newpos - pos) (drop pos input)), st)
           else Panic SliceOutOfRange)"

text \<open>
  The loop of a repetition: a turn that does not match ends it, at the position where the last turn
  that did match ended.  A turn that matches without consuming would be repeated for ever.
\<close>

function p_loop :: "('a \<Rightarrow> 'a parser) \<Rightarrow> 'a \<Rightarrow> 'a parser" where
  "p_loop step acc input pos st =
     and_then (step acc input pos st) (\<lambda>(r, st).
       case r of
         Failed \<Rightarrow> Ok (Matched pos acc, st)
       | Matched newpos acc \<Rightarrow>
           if pos < newpos \<and> newpos \<le> length input then p_loop step acc input newpos st else NoReturn)"
  by pat_completeness auto

termination
  by (relation "measure (\<lambda>(step, acc, input, pos, st). length input - pos)") auto

declare p_loop.simps [simp del]

text \<open>
  Repetitions: without a value, and collecting values, with a separator before every item but the
  first, at least \<open>n\<close> items, or at most \<open>n\<close> items.
\<close>

definition p_skip_many :: "'a parser \<Rightarrow> unit parser" where
  "p_skip_many p = p_loop (\<lambda>_. p_then p (p_pure ())) ()"

definition p_at_least :: "nat \<Rightarrow> 'a list parser \<Rightarrow> 'a list parser" where
  "p_at_least n p = p_seq p (\<lambda>vs. if length vs \<ge> n then p_pure vs else p_fail)"

definition p_many :: "'a parser \<Rightarrow> 'a list parser" where
  "p_many p = p_loop (\<lambda>vs. p_seq p (\<lambda>v. p_pure (vs @ [v]))) []"

definition p_many_sep :: "'a parser \<Rightarrow> 'b parser \<Rightarrow> 'a list parser" where
  "p_many_sep p sep =
     p_loop (\<lambda>vs. p_then (if vs = [] then p_pure () else p_then sep (p_pure ()))
                    (p_seq p (\<lambda>v. p_pure (vs @ [v])))) []"

definition p_up_to :: "nat \<Rightarrow> 'a parser \<Rightarrow> 'a list parser" where
  "p_up_to n p = p_loop (\<lambda>vs. if length vs \<ge> n then p_fail else p_seq p (\<lambda>v. p_pure (vs @ [v]))) []"

text \<open>Actions with a condition on the environment (\<open>{? .. }\<close>) and actions that change it.\<close>

definition p_check :: "(env \<Rightarrow> string + 'a) \<Rightarrow> 'a parser" where
  "p_check f input pos st =
     (case f (env st) of Inr v \<Rightarrow> p_pure v input pos st | Inl name \<Rightarrow> p_mark name input pos st)"

definition p_modify :: "(env \<Rightarrow> env outcome) \<Rightarrow> unit parser" where
  "p_modify f input pos st =
     and_then (f (env st)) (\<lambda>e. p_pure () input pos (st\<lparr>env := e\<rparr>))"

text \<open>
  \<open>{ env.enter_scope(); } e:p? {? env.leave_scope(); e.ok_or("") }\<close>
\<close>

definition p_scoped :: "'a parser \<Rightarrow> 'a parser" where
  "p_scoped p =
     p_then (p_modify (\<lambda>e. Ok (enter_scope e)))
       (p_seq (p_opt p) (\<lambda>e.
          p_then (p_modify leave_scope)
            (p_check (\<lambda>_. case e of Some v \<Rightarrow> Inr v | None \<Rightarrow> Inl ''''))))"

text \<open>A match that is used only if its value satisfies a condition; a value that must exist.\<close>

definition p_guard :: "('a \<Rightarrow> bool) \<Rightarrow> 'a parser \<Rightarrow> 'a parser" where
  "p_guard P p = p_seq p (\<lambda>v. if P v then p_pure v else p_fail)"

definition p_unwrap :: "'a option \<Rightarrow> 'a parser" where
  "p_unwrap x input pos st = (case x of Some v \<Rightarrow> Ok (Matched pos v, st) | None \<Rightarrow> Panic ExpectFailed)"

text \<open>A keyword: not followed by a character of an identifier, and not reported on failure.\<close>

definition p_keyword :: "'a parser \<Rightarrow> 'a parser" where
  "p_keyword p =
     p_quiet (p_seq p (\<lambda>e. p_then (p_not (p_class ''[_a-zA-Z0-9]'' ident_char)) (p_pure e)))"

text \<open>The result of \<open>__parse_postfix_expression0\<close> is remembered for its position.\<close>

definition p_memo :: "expression parser \<Rightarrow> expression parser" where
  "p_memo p input pos st =
     (case postfix_expression0_cache st pos of
        Some r \<Rightarrow> Ok (r, st)
      | None \<Rightarrow>
          and_then (p input pos st) (\<lambda>(r, st).
            Ok (r, st\<lparr>postfix_expression0_cache := (postfix_expression0_cache st)(pos \<mapsto> r)\<rparr>)))"

subsection \<open>The calculus\<close>

definition at_boundary :: "string \<Rightarrow> nat \<Rightarrow> bool" where
  "at_boundary input pos \<longleftrightarrow> pos \<le> length input \<and> utf8_valid (drop pos input)"

definition good_result :: "bool \<Rightarrow> string \<Rightarrow> nat \<Rightarrow> 'a rule_result \<Rightarrow> bool" where
  "good_result s input pos r \<longleftrightarrow>
     (case r of
        Failed \<Rightarrow> True
      | Matched q _ \<Rightarrow> pos \<le> q \<and> (s \<longrightarrow> pos < q) \<and> at_boundary input q)"

definition good_state :: "string \<Rightarrow> parse_state \<Rightarrow> bool" where
  "good_state input st \<longleftrightarrow>
     (\<forall>p r. postfix_expression0_cache st p = Some r \<longrightarrow> good_result True input p r) \<and>
     symbols (env st) \<noteq> [] \<and> at_boundary input (max_err_pos st)"

text \<open>
  What a rule may change of the environment: it adds names to the innermost scope, and nothing else.
\<close>

definition env_grows :: "env \<Rightarrow> env \<Rightarrow> bool" where
  "env_grows e e' \<longleftrightarrow>
     (\<exists>new. symbols e' = (case symbols e of [] \<Rightarrow> [] | s # ss \<Rightarrow> (new @ s) # ss)) \<and>
     extensions_gnu e' = extensions_gnu e \<and> extensions_clang e' = extensions_clang e \<and>
     reserved e' = reserved e"

definition state_kept :: "parse_state \<Rightarrow> parse_state \<Rightarrow> bool" where
  "state_kept st st' \<longleftrightarrow> suppress_fail st' = suppress_fail st \<and> env_grows (env st) (env st')"

definition returns :: "bool \<Rightarrow> string \<Rightarrow> nat \<Rightarrow> parse_state \<Rightarrow> ('a rule_result \<times> parse_state) outcome \<Rightarrow> bool" where
  "returns s input pos st x \<longleftrightarrow>
     (\<exists>r st'. x = Ok (r, st') \<and> good_result s input pos r \<and> good_state input st' \<and> state_kept st st')"

definition ok :: "bool \<Rightarrow> nat \<Rightarrow> 'a parser \<Rightarrow> bool" where
  "ok s k p \<longleftrightarrow>
     (\<forall>input pos st. at_boundary input pos \<longrightarrow> length input - pos < k \<longrightarrow> good_state input st \<longrightarrow>
        returns s input pos st (p input pos st))"

lemma okI:
  "(\<And>input pos st. at_boundary input pos \<Longrightarrow> length input - pos < k \<Longrightarrow> good_state input st \<Longrightarrow>
      returns s input pos st (p input pos st)) \<Longrightarrow> ok s k p"
  by (simp add: ok_def)

lemma okE:
  assumes "ok s k p" "at_boundary input pos" "length input - pos < k" "good_state input st"
  obtains r st' where "p input pos st = Ok (r, st')" "good_result s input pos r"
    "good_state input st'" "state_kept st st'"
  using assms unfolding ok_def returns_def by blast

lemma ok_weaken: "ok s k p \<Longrightarrow> (s' \<longrightarrow> s) \<Longrightarrow> k' \<le> k \<Longrightarrow> ok s' k' p"
proof (rule okI)
  fix input pos st
  assume p: "ok s k p" "s' \<longrightarrow> s" "k' \<le> k"
    and *: "at_boundary input pos" "length input - pos < k'" "good_state input st"
  then have "length input - pos < k" by simp
  with p(1) * obtain r st1 where "p input pos st = Ok (r, st1)" "good_result s input pos r"
    "good_state input st1" "state_kept st st1" by (elim okE)
  with p(2) show "returns s' input pos st (p input pos st)"
    by (cases r) (auto simp: returns_def good_result_def)
qed

lemma good_result_simps [simp]:
  "good_result s input pos Failed"
  "good_result s input pos (Matched q v) \<longleftrightarrow> pos \<le> q \<and> (s \<longrightarrow> pos < q) \<and> at_boundary input q"
  by (simp_all add: good_result_def)

lemma returns_Ok [simp]:
  "returns s input pos st (Ok (r, st')) \<longleftrightarrow>
     good_result s input pos r \<and> good_state input st' \<and> state_kept st st'"
  by (simp add: returns_def)

lemma env_grows_refl [simp]: "env_grows e e"
  by (auto simp: env_grows_def split: list.split)

lemma env_grows_trans: "env_grows e e' \<Longrightarrow> env_grows e' e'' \<Longrightarrow> env_grows e e''"
  by (fastforce simp: env_grows_def split: list.splits)

lemma state_kept_refl [simp]: "state_kept st st"
  by (simp add: state_kept_def)

lemma state_kept_trans: "state_kept st st' \<Longrightarrow> state_kept st' st'' \<Longrightarrow> state_kept st st''"
  by (auto simp: state_kept_def intro: env_grows_trans)

lemma good_state_mark [simp]:
  "good_state input st \<Longrightarrow> at_boundary input pos \<Longrightarrow> good_state input (mark_failure pos name st)"
  by (auto simp: good_state_def mark_failure_def)

lemma state_kept_mark [simp]: "state_kept st (mark_failure pos name st)"
  by (simp add: state_kept_def mark_failure_def)

lemma good_state_suppress [simp]:
  "good_state input (st\<lparr>suppress_fail := n\<rparr>) \<longleftrightarrow> good_state input st"
  by (simp add: good_state_def)

subsection \<open>Character boundaries\<close>

lemma utf8_valid_no_cont: "utf8_valid (c # s) \<Longrightarrow> \<not> cont_byte c"
proof
  assume valid: "utf8_valid (c # s)" and "cont_byte c"
  then have "128 \<le> byte c" "byte c \<le> 191" by (simp_all add: cont_byte_def)
  with valid show False
    by (cases s; cases "tl s"; cases "tl (tl s)")
      (simp_all add: utf8_valid.simps(2) [of c] del: utf8_valid.simps)
qed

lemma at_boundary_le: "at_boundary input pos \<Longrightarrow> pos \<le> length input"
  by (simp add: at_boundary_def)

lemma at_boundary_char: "at_boundary input pos \<Longrightarrow> is_char_boundary input pos"
proof (cases "pos < length input")
  case True
  assume "at_boundary input pos"
  with True show ?thesis
    using utf8_valid_no_cont [of "input ! pos" "drop (Suc pos) input"]
    by (simp add: at_boundary_def is_char_boundary_def Cons_nth_drop_Suc)
qed (simp add: at_boundary_def is_char_boundary_def)

lemma utf8_valid_2:
  assumes "utf8_valid (c # s)" "\<not> byte c < 128" "byte c < 224"
  shows "\<exists>b t. s = b # t \<and> utf8_valid t"
  using assms
  by (cases s)
    (auto simp: utf8_valid.simps(2) [of c] simp del: utf8_valid.simps split: if_split_asm list.splits)

lemma utf8_valid_3:
  assumes "utf8_valid (c # s)" "\<not> byte c < 224" "byte c < 240"
  shows "\<exists>b d t. s = b # d # t \<and> utf8_valid t"
  using assms
  by (cases s; cases "tl s")
    (simp_all add: utf8_valid.simps(2) [of c] del: utf8_valid.simps split: if_split_asm)

lemma utf8_valid_4:
  assumes "utf8_valid (c # s)" "\<not> byte c < 240"
  shows "\<exists>b d e t. s = b # d # e # t \<and> utf8_valid t"
  using assms
  by (cases s; cases "tl s"; cases "tl (tl s)")
    (simp_all add: utf8_valid.simps(2) [of c] del: utf8_valid.simps split: if_split_asm)

lemma utf8_valid_next:
  assumes "utf8_valid (c # s)"
  shows "utf8_valid (drop (utf8_len c) (c # s))" "utf8_len c \<le> length (c # s)"
proof -
  have "utf8_valid (drop (utf8_len c) (c # s)) \<and> utf8_len c \<le> length (c # s)"
    using assms utf8_valid_2 [OF assms] utf8_valid_3 [OF assms] utf8_valid_4 [OF assms]
    by (cases "byte c < 128"; cases "byte c < 224"; cases "byte c < 240")
      (auto simp: utf8_len_def simp del: utf8_valid.simps(2) simp add: utf8_valid.simps(2) [of c])
  then show "utf8_valid (drop (utf8_len c) (c # s))" "utf8_len c \<le> length (c # s)" by auto
qed

text \<open>The bytes of a character after its first one are not ASCII.\<close>

lemma utf8_valid_lead:
  assumes "utf8_valid (c # s)" "Suc i < utf8_len c"
  shows "128 \<le> byte (s ! i)"
proof -
  from assms(2) have "i < 3" "128 \<le> byte c"
    by (auto simp: utf8_len_def split: if_splits)
  then have "i = 0 \<or> i = 1 \<or> i = 2" by linarith
  moreover have "i = 1 \<Longrightarrow> 224 \<le> byte c" "i = 2 \<Longrightarrow> 240 \<le> byte c"
    using assms(2) by (auto simp: utf8_len_def split: if_splits)
  ultimately consider "i = 0" | "i = 1" "224 \<le> byte c" | "i = 2" "240 \<le> byte c" by blast
  then show ?thesis
    using assms(1) \<open>128 \<le> byte c\<close>
    by cases
      (cases s; cases "tl s"; cases "tl (tl s)";
        simp add: utf8_valid.simps(2) [of c] cont_byte_def del: utf8_valid.simps split: if_split_asm)+
qed

lemma utf8_valid_append_ascii: "ascii m \<Longrightarrow> utf8_valid (m @ s) \<longleftrightarrow> utf8_valid s"
  by (induction m) simp_all

lemma utf8_len_pos [simp]: "0 < utf8_len c"
  by (simp add: utf8_len_def)

lemma at_boundary_next:
  assumes "at_boundary input pos" "pos < length input"
  shows "at_boundary input (pos + utf8_len (input ! pos))"
proof -
  from assms have valid: "utf8_valid (input ! pos # drop (Suc pos) input)"
    by (simp add: at_boundary_def Cons_nth_drop_Suc)
  have "drop n (input ! pos # drop (Suc pos) input) = drop (pos + n) input" for n
    using assms(2) by (metis Cons_nth_drop_Suc add.commute drop_drop)
  with utf8_valid_next [OF valid] assms(2) show ?thesis
    by (simp add: at_boundary_def)
qed

lemma at_boundary_lit:
  assumes "at_boundary input pos" "ascii m" "pos + length m \<le> length input"
    "take (length m) (drop pos input) = m"
  shows "at_boundary input (pos + length m)"
proof -
  have "drop pos input = m @ drop (pos + length m) input"
    using assms(4) append_take_drop_id [of "length m" "drop pos input"] by (simp add: add.commute)
  with assms show ?thesis
    by (simp add: at_boundary_def utf8_valid_append_ascii)
qed

subsection \<open>The rules of the combinators\<close>

text \<open>The bound on the bytes left after a rule that consumed at least one byte (or may have consumed none).\<close>

definition left_after :: "bool \<Rightarrow> nat \<Rightarrow> nat" where
  "left_after s k = (if s then k - 1 else k)"

lemma left_after_simps [simp]: "left_after True k = k - 1" "left_after False k = k"
  by (simp_all add: left_after_def)

lemma left_after_le: "left_after s k \<le> k"
  by (simp add: left_after_def)

lemma ok_strict: "ok s k p \<Longrightarrow> s' \<longrightarrow> s \<Longrightarrow> ok s' k p"
  by (erule (1) ok_weaken) simp

lemma ok_pure [ok_intros]: "ok False k (p_pure v)"
  by (rule okI) (simp add: p_pure_def)

lemma ok_fail [ok_intros]: "ok True k p_fail"
  by (rule okI) (simp add: p_fail_def)

lemma ok_mark [ok_intros]: "ok True k (p_mark name)"
  by (rule okI) (simp add: p_mark_def at_boundary_le)

lemma ok_pos [ok_intros]: "ok False k p_pos"
  by (rule okI) (simp add: p_pos_def)

lemma ok_seq [ok_intros]:
  assumes p: "ok s k p" and q: "\<And>v. ok s' (left_after s k) (q v)"
  shows "ok (s \<or> s') k (p_seq p q)"
proof (rule okI)
  fix input pos st
  assume *: "at_boundary input pos" "length input - pos < k" "good_state input st"
  from p * obtain r st1 where 1: "p input pos st = Ok (r, st1)" "good_result s input pos r"
    "good_state input st1" "state_kept st st1" by (rule okE)
  show "returns (s \<or> s') input pos st (p_seq p q input pos st)"
  proof (cases r)
    case (Matched pos1 v)
    with 1(2) have 2: "pos \<le> pos1" "s \<longrightarrow> pos < pos1" "at_boundary input pos1" by simp_all
    have "length input - pos1 < left_after s k"
      using *(2) 2 at_boundary_le [OF 2(3)] by (auto simp: left_after_def)
    from okE [OF q 2(3) this 1(3)] obtain r2 st2 where 3: "q v input pos1 st1 = Ok (r2, st2)"
      "good_result s' input pos1 r2" "good_state input st2" "state_kept st1 st2" .
    with 1 2 Matched show ?thesis
      by (cases r2) (auto simp: p_seq_def intro: state_kept_trans)
  qed (use 1 in \<open>simp add: p_seq_def\<close>)
qed

lemma ok_seq_same: "ok s k p \<Longrightarrow> (\<And>v. ok s' k (q v)) \<Longrightarrow> ok (s \<or> s') k (p_seq p q)"
  by (rule ok_seq, assumption) (rule ok_weaken, assumption, simp_all add: left_after_le)

lemma ok_choice [ok_intros]:
  assumes p: "ok s k p" and q: "ok s' k q"
  shows "ok (s \<and> s') k (p_choice p q)"
proof (rule okI)
  fix input pos st
  assume *: "at_boundary input pos" "length input - pos < k" "good_state input st"
  from p * obtain r st1 where 1: "p input pos st = Ok (r, st1)" "good_result s input pos r"
    "good_state input st1" "state_kept st st1" by (rule okE)
  show "returns (s \<and> s') input pos st (p_choice p q input pos st)"
  proof (cases r)
    case Failed
    from q *(1,2) 1(3) obtain r2 st2 where "q input pos st1 = Ok (r2, st2)"
      "good_result s' input pos r2" "good_state input st2" "state_kept st1 st2" by (rule okE)
    with 1 Failed show ?thesis
      by (cases r2) (auto simp: p_choice_def intro: state_kept_trans)
  qed (use 1 in \<open>auto simp: p_choice_def\<close>)
qed

lemma ok_choices_one [ok_intros]: "ok s k p \<Longrightarrow> ok s k (p_choices [p])"
  by (simp add: p_choices.simps)

lemma ok_choices [ok_intros]:
  "ok s k p \<Longrightarrow> ok s' k (p_choices (q # ps)) \<Longrightarrow> ok (s \<and> s') k (p_choices (p # q # ps))"
  by (simp add: p_choices.simps ok_choice)

lemma ok_choices_list: "(\<And>p. p \<in> set ps \<Longrightarrow> ok True k p) \<Longrightarrow> ok True k (p_choices ps)"
  by (induction ps rule: p_choices.induct)
    (auto simp: p_choices.simps intro: ok_fail ok_strict [OF ok_choice])

lemma ok_opt [ok_intros]:
  assumes "ok s k p" shows "ok False k (p_opt p)"
  unfolding p_opt_def
  by (rule ok_weaken [OF ok_choice [OF ok_seq_same [OF assms ok_pure] ok_pure]]) simp_all

lemma ok_maybe [ok_intros]:
  assumes "ok s k p" shows "ok False k (p_maybe p)"
  unfolding p_maybe_def
  by (rule ok_weaken [OF ok_choice [OF ok_seq_same [OF assms ok_pure] ok_pure]]) simp_all

lemma ok_node [ok_intros]:
  assumes "ok s k p" shows "ok s k (p_node p)"
  unfolding p_node_def
  by (rule ok_weaken [OF ok_seq_same [OF ok_pos ok_seq_same [OF assms ok_seq_same [OF ok_pos ok_pure]]]]) auto

lemma ok_quiet [ok_intros]:
  assumes "ok s k p" shows "ok s k (p_quiet p)"
proof (rule okI)
  fix input pos st
  assume *: "at_boundary input pos" "length input - pos < k" "good_state input st"
  then have "good_state input (st\<lparr>suppress_fail := Suc (suppress_fail st)\<rparr>)" by simp
  with assms *(1,2) obtain r st1 where
    "p input pos (st\<lparr>suppress_fail := Suc (suppress_fail st)\<rparr>) = Ok (r, st1)"
    "good_result s input pos r" "good_state input st1"
    "state_kept (st\<lparr>suppress_fail := Suc (suppress_fail st)\<rparr>) st1" by (rule okE)
  then show "returns s input pos st (p_quiet p input pos st)"
    by (simp add: p_quiet_def state_kept_def)
qed

lemma ok_not [ok_intros]:
  assumes "ok s k p" shows "ok False k (p_not p)"
proof (rule okI)
  fix input pos st
  assume *: "at_boundary input pos" "length input - pos < k" "good_state input st"
  from ok_quiet [OF assms] * obtain r st1 where "p_quiet p input pos st = Ok (r, st1)"
    "good_result s input pos r" "good_state input st1" "state_kept st st1" by (rule okE)
  with * show "returns False input pos st (p_not p input pos st)"
    by (cases r) (simp_all add: p_not_def)
qed

lemma ok_and [ok_intros]:
  assumes "ok s k p" shows "ok False k (p_and p)"
proof (rule okI)
  fix input pos st
  assume *: "at_boundary input pos" "length input - pos < k" "good_state input st"
  from ok_quiet [OF assms] * obtain r st1 where "p_quiet p input pos st = Ok (r, st1)"
    "good_result s input pos r" "good_state input st1" "state_kept st st1" by (rule okE)
  with * show "returns False input pos st (p_and p input pos st)"
    by (cases r) (simp_all add: p_and_def)
qed

lemma ok_named [ok_intros]:
  assumes "ok s k p" shows "ok s k (p_named name p)"
  unfolding p_named_def by (rule ok_weaken [OF ok_choice [OF assms ok_mark]]) simp_all

lemma ok_lit [ok_intros]:
  assumes "ascii m \<and> m \<noteq> []" shows "ok True k (p_lit m)"
proof (rule okI)
  fix input pos st
  assume *: "at_boundary input pos" "length input - pos < k" "good_state input st"
  with assms show "returns True input pos st (p_lit m input pos st)"
    using at_boundary_lit [OF *(1)] by (auto simp: p_lit_def p_mark_def at_boundary_le)
qed

lemma ok_class [ok_intros]: "ok True k (p_class name P)"
proof (rule okI)
  fix input pos st
  assume *: "at_boundary input pos" "length input - pos < k" "good_state input st"
  then show "returns True input pos st (p_class name P input pos st)"
    using at_boundary_next [OF *(1)] at_boundary_char [OF *(1)]
    by (auto simp: p_class_def p_mark_def at_boundary_le)
qed

lemma ok_slice [ok_intros]:
  assumes "ok s k p" shows "ok s k (p_slice p)"
proof (rule okI)
  fix input pos st
  assume *: "at_boundary input pos" "length input - pos < k" "good_state input st"
  from assms * obtain r st1 where "p input pos st = Ok (r, st1)"
    "good_result s input pos r" "good_state input st1" "state_kept st st1" by (rule okE)
  with * show "returns s input pos st (p_slice p input pos st)"
    by (cases r) (auto simp: p_slice_def at_boundary_char at_boundary_le)
qed

lemma returns_after:
  "returns s input pos1 st1 x \<Longrightarrow> state_kept st st1 \<Longrightarrow> pos \<le> pos1 \<Longrightarrow> returns False input pos st x"
  unfolding returns_def good_result_def
  by (elim exE conjE, rename_tac r st', case_tac r) (auto intro: state_kept_trans)

lemma returns_loop:
  assumes step: "\<And>acc. ok True k (step acc)"
    and "at_boundary input pos" "length input - pos < k" "good_state input st"
  shows "returns False input pos st (p_loop step acc input pos st)"
  using assms(2-4)
proof (induction "length input - pos" arbitrary: acc pos st rule: less_induct)
  case less
  from step less.prems obtain r st1 where 1: "step acc input pos st = Ok (r, st1)"
    "good_result True input pos r" "good_state input st1" "state_kept st st1"
    by (rule okE [of _ _ "step acc"])
  show ?case
  proof (cases r)
    case (Matched pos1 acc1)
    with 1(2) have 2: "pos < pos1" "at_boundary input pos1" "pos1 \<le> length input"
      by (auto dest: at_boundary_le)
    from 2 less.prems have "length input - pos1 < length input - pos" "length input - pos1 < k"
      by auto
    with less.hyps [of pos1 st1 acc1] 2(2) 1(3)
    have "returns False input pos1 st1 (p_loop step acc1 input pos1 st1)" by simp
    with 1 2 Matched show ?thesis
      by (subst p_loop.simps)
        (auto elim!: returns_after)
  qed (use 1 less.prems in \<open>simp add: p_loop.simps\<close>)
qed

lemma ok_loop: "(\<And>acc. ok True k (step acc)) \<Longrightarrow> ok False k (p_loop step acc)"
  by (rule okI) (rule returns_loop)

lemma ok_if:
  assumes "ok s k p" "ok s' k q" shows "ok (s \<and> s') k (if b then p else q)"
  using assms by (auto elim!: ok_weaken)

lemma ok_skip_many:
  assumes "ok True k p" shows "ok False k (p_skip_many p)"
  unfolding p_skip_many_def
  by (rule ok_loop, rule ok_weaken [OF ok_seq_same [OF assms ok_pure]]) simp_all

lemma ok_many:
  assumes "ok True k p" shows "ok False k (p_many p)"
  unfolding p_many_def
  by (rule ok_loop, rule ok_weaken [OF ok_seq_same [OF assms ok_pure]]) simp_all

lemma ok_up_to:
  assumes "ok True k p" shows "ok False k (p_up_to n p)"
  unfolding p_up_to_def
  by (rule ok_loop, rule ok_weaken [OF ok_if [OF ok_fail ok_seq_same [OF assms ok_pure]]]) simp_all

lemma ok_many_sep:
  assumes "ok True k p" "ok s k sep" shows "ok False k (p_many_sep p sep)"
proof -
  have "ok False k (if vs = [] then p_pure () else p_then sep (p_pure ()))" for vs :: "'a list"
    by (rule ok_weaken [OF ok_if [OF ok_pure ok_seq_same [OF assms(2) ok_pure]]]) simp_all
  then have "ok True k (p_then (if vs = [] then p_pure () else p_then sep (p_pure ()))
      (p_seq p (\<lambda>v. p_pure (vs @ [v]))))" for vs
    by (rule ok_weaken [OF ok_seq_same [OF _ ok_seq_same [OF assms(1) ok_pure]]]) simp_all
  then show ?thesis
    unfolding p_many_sep_def by (rule ok_loop)
qed

text \<open>
  At least one item: something was consumed.  The number of collected items is at most the number of
  consumed bytes.
\<close>

lemma loop_collects:
  assumes step: "\<And>acc. ok True k (step acc)"
    and empty: "\<And>acc input pos st q v st'. step acc input pos st = Ok (Matched q v, st') \<Longrightarrow> v \<noteq> []"
    and "at_boundary input pos" "length input - pos < k" "good_state input st"
    and "p_loop step [] input pos st = Ok (Matched q vs, st')" "vs \<noteq> []"
  shows "pos < q"
proof -
  from step assms(3-5) obtain r st1 where 1: "step [] input pos st = Ok (r, st1)"
    "good_result True input pos r" "good_state input st1" by (rule okE [of _ _ "step []"])
  show ?thesis
  proof (cases r)
    case (Matched pos1 acc1)
    with 1(2) have 2: "pos < pos1" "at_boundary input pos1" "pos1 \<le> length input"
      by (auto dest: at_boundary_le)
    then have "length input - pos1 < k" using assms(4) by simp
    with returns_loop [where step = step and acc = acc1, OF step 2(2) _ 1(3)] 1 2 Matched assms(6)
    show ?thesis
      by (auto simp: p_loop.simps [of step "[]"])
  qed (use 1 assms(6,7) in \<open>simp add: p_loop.simps [of step "[]"]\<close>)
qed

lemma ok_at_least_one:
  assumes step: "\<And>acc. ok True k (step acc)"
    and empty: "\<And>acc input pos st q v st'. step acc input pos st = Ok (Matched q v, st') \<Longrightarrow> v \<noteq> []"
    and n: "0 < n"
  shows "ok True k (p_at_least n (p_loop step []))"
proof (rule okI)
  fix input pos st
  assume *: "at_boundary input pos" "length input - pos < k" "good_state input st"
  from returns_loop [where step = step and acc = "[]", OF step *] obtain r st1 where 1: "p_loop step [] input pos st = Ok (r, st1)"
    "good_result False input pos r" "good_state input st1" "state_kept st st1"
    by (auto simp: returns_def)
  show "returns True input pos st (p_at_least n (p_loop step []) input pos st)"
  proof (cases r)
    case (Matched q vs)
    have "vs \<noteq> [] \<Longrightarrow> pos < q"
      using loop_collects [where step = step, OF step _ *] empty 1(1) Matched by blast
    with 1 Matched n show ?thesis
      by (cases vs) (auto simp: p_at_least_def p_seq_def p_pure_def p_fail_def)
  qed (use 1 in \<open>simp add: p_at_least_def p_seq_def\<close>)
qed

lemma p_seq_Matched:
  "p_seq p q input pos st = Ok (Matched y w, st') \<longleftrightarrow>
     (\<exists>x v st1. p input pos st = Ok (Matched x v, st1) \<and> q v input x st1 = Ok (Matched y w, st'))"
proof (cases "p input pos st")
  case (Ok x)
  then show ?thesis
    by (cases x; cases "fst x") (auto simp: p_seq_def)
qed (simp_all add: p_seq_def)

lemma collect_nonempty:
  "p_seq p (\<lambda>v. p_pure (vs @ [v])) input pos st = Ok (Matched q ws, st') \<Longrightarrow> ws \<noteq> []"
  by (auto simp: p_seq_Matched p_pure_def)

lemma ok_many1:
  assumes "ok True k p" and n: "0 < n" shows "ok True k (p_at_least n (p_many p))"
  unfolding p_many_def
  by (rule ok_at_least_one [OF _ _ n], rule ok_weaken [OF ok_seq_same [OF assms(1) ok_pure]])
    (auto dest: collect_nonempty)

lemma ok_up_to1:
  assumes "ok True k p" and n: "0 < n" shows "ok True k (p_at_least n (p_up_to m p))"
  unfolding p_up_to_def
  by (rule ok_at_least_one [OF _ _ n], rule ok_weaken [OF ok_if [OF ok_fail ok_seq_same [OF assms(1) ok_pure]]])
    (auto simp: p_fail_def split: if_splits dest: collect_nonempty)

lemma ok_many_sep1:
  assumes "ok True k p" "ok s k sep" and n: "0 < n" shows "ok True k (p_at_least n (p_many_sep p sep))"
proof -
  have "ok False k (if vs = [] then p_pure () else p_then sep (p_pure ()))" for vs :: "'a list"
    by (rule ok_weaken [OF ok_if [OF ok_pure ok_seq_same [OF assms(2) ok_pure]]]) simp_all
  then have step: "ok True k (p_then (if vs = [] then p_pure () else p_then sep (p_pure ()))
      (p_seq p (\<lambda>v. p_pure (vs @ [v]))))" for vs
    by (rule ok_weaken [OF ok_seq_same [OF _ ok_seq_same [OF assms(1) ok_pure]]]) simp_all
  show ?thesis
    unfolding p_many_sep_def
    by (rule ok_at_least_one [OF step _ n]) (auto simp: p_seq_Matched p_pure_def)
qed

text \<open>The same rules with the strictness of the repeated rule still to be found.\<close>

lemma ok_repeat [ok_intros]:
  "ok s k p \<Longrightarrow> s \<Longrightarrow> ok False k (p_skip_many p)"
  "ok s k p \<Longrightarrow> s \<Longrightarrow> ok False k (p_many p)"
  "ok s k p \<Longrightarrow> s \<Longrightarrow> ok False k (p_up_to m p)"
  "ok s k p \<Longrightarrow> s \<Longrightarrow> ok s' k sep \<Longrightarrow> ok False k (p_many_sep p sep)"
  "ok s k p \<Longrightarrow> s \<Longrightarrow> 0 < n \<Longrightarrow> ok True k (p_at_least n (p_many p))"
  "ok s k p \<Longrightarrow> s \<Longrightarrow> 0 < n \<Longrightarrow> ok True k (p_at_least n (p_up_to m p))"
  "ok s k p \<Longrightarrow> s \<Longrightarrow> ok s' k sep \<Longrightarrow> 0 < n \<Longrightarrow> ok True k (p_at_least n (p_many_sep p sep))"
  by (simp_all add: ok_skip_many ok_many ok_up_to ok_many_sep ok_many1 ok_up_to1 ok_many_sep1)

lemma ok_check [ok_intros]: "ok False k (p_check f)"
  by (rule okI) (simp add: p_check_def p_pure_def p_mark_def at_boundary_le split: sum.split)

text \<open>An action on the environment is fine if it only adds names to the innermost scope.\<close>

definition env_action :: "(env \<Rightarrow> env outcome) \<Rightarrow> bool" where
  "env_action f \<longleftrightarrow> (\<forall>e. symbols e \<noteq> [] \<longrightarrow> (\<exists>e'. f e = Ok e' \<and> env_grows e e'))"

lemma env_action_add_symbol [ok_intros]: "env_action (add_symbol name symbol)"
  by (auto simp: env_action_def env_grows_def add_symbol_def split: list.split)

lemma env_action_declarator [ok_intros]: "env_action (handle_declarator d symbol)"
  using env_action_add_symbol
  by (auto simp: env_action_def handle_declarator_def split: option.split)

lemma env_grows_nonempty: "env_grows e e' \<Longrightarrow> symbols e \<noteq> [] \<Longrightarrow> symbols e' \<noteq> []"
  by (cases "symbols e") (auto simp: env_grows_def)

lemma ok_modify [ok_intros]:
  assumes "env_action f" shows "ok False k (p_modify f)"
proof (rule okI)
  fix input pos st
  assume *: "at_boundary input pos" "length input - pos < k" "good_state input st"
  with assms obtain e where "f (env st) = Ok e" "env_grows (env st) e"
    by (auto simp: env_action_def good_state_def)
  with * show "returns False input pos st (p_modify f input pos st)"
    by (auto simp: p_modify_def p_pure_def good_state_def state_kept_def dest: env_grows_nonempty)
qed

lemma ok_scoped [ok_intros]:
  assumes "ok s k p" shows "ok s k (p_scoped p)"
proof (rule okI)
  fix input pos st
  assume *: "at_boundary input pos" "length input - pos < k" "good_state input st"
  let ?st = "st\<lparr>env := enter_scope (env st)\<rparr>"
  from *(3) have "good_state input ?st" by (simp add: good_state_def enter_scope_def)
  with assms *(1,2) obtain r st1 where 1: "p input pos ?st = Ok (r, st1)"
    "good_result s input pos r" "good_state input st1" "state_kept ?st st1" by (rule okE)
  from 1(4) *(3) obtain scope where "symbols (env st1) = scope # symbols (env st)"
    "suppress_fail st1 = suppress_fail st" "extensions_gnu (env st1) = extensions_gnu (env st)"
    "extensions_clang (env st1) = extensions_clang (env st)" "reserved (env st1) = reserved (env st)"
    by (auto simp: state_kept_def env_grows_def enter_scope_def)
  with 1 * show "returns s input pos st (p_scoped p input pos st)"
    by (cases r)
      (auto simp: p_scoped_def p_opt_def p_choice_def p_seq_def p_modify_def p_pure_def p_check_def
        p_mark_def leave_scope_def good_state_def state_kept_def env_grows_def mark_failure_def
        at_boundary_le split: list.split)
qed

lemma ok_guard [ok_intros]:
  assumes "ok s k p" shows "ok s k (p_guard P p)"
  unfolding p_guard_def
  by (rule ok_weaken [OF ok_seq_same [OF assms ok_if [OF ok_pure ok_fail]]]) simp_all

lemma ok_unwrap: "ok False k (p_unwrap (Some v))"
  by (rule okI) (simp add: p_unwrap_def)

text \<open>A choice of literals matches one of them, so what is sliced is one of them.\<close>

lemma choice_lits:
  "p_choices (map p_lit ms) input pos st = Ok (Matched q u, st') \<Longrightarrow>
     \<exists>m\<in>set ms. q = pos + length m \<and> take (length m) (drop pos input) = m"
proof (induction ms arbitrary: st rule: induct_list012)
  case (3 m m' ms)
  then show ?case
    by (cases "p_lit m input pos st")
      (auto simp: p_choices.simps p_choice_def p_lit_def p_mark_def split: if_splits)
qed (auto simp: p_choices.simps p_fail_def p_lit_def p_mark_def split: if_splits)

lemma slice_lits:
  "p_slice (p_choices (map p_lit ms)) input pos st = Ok (Matched q v, st') \<Longrightarrow> v \<in> set ms"
proof (cases "p_choices (map p_lit ms) input pos st")
  case (Ok x)
  assume "p_slice (p_choices (map p_lit ms)) input pos st = Ok (Matched q v, st')"
  with Ok choice_lits [of ms input pos st] show ?thesis
    by (cases x; cases "fst x") (auto simp: p_slice_def split: if_splits)
qed (simp_all add: p_slice_def)

lemma ok_keyword [ok_intros]:
  assumes "ok s k p" shows "ok s k (p_keyword p)"
  unfolding p_keyword_def
  by (rule ok_quiet, rule ok_weaken [OF ok_seq_same [OF assms ok_seq_same [OF ok_not [OF ok_class] ok_pure]]])
    auto

lemma ok_memo [ok_intros]:
  assumes p: "ok s k p" and s shows "ok True k (p_memo p)"
proof (rule okI)
  fix input pos st
  assume *: "at_boundary input pos" "length input - pos < k" "good_state input st"
  from p * obtain r st1 where "p input pos st = Ok (r, st1)"
    "good_result s input pos r" "good_state input st1" "state_kept st st1" by (rule okE)
  with * \<open>s\<close> show "returns True input pos st (p_memo p input pos st)"
    by (auto simp: p_memo_def good_state_def state_kept_def split: option.split)
qed

end
