(* ===== verification/Grammar_Lexical.thy ===== *)
theory Grammar_Lexical
  imports Peg
begin

text \<open>
  The lexical rules of the grammar (\<open>src/parser/prelude.rs\<close>, \<open>identifiers_and_integers.rs\<close>,
  \<open>floats_and_strings.rs\<close>): white space and line markers, identifiers, numbers, character constants and
  string literals.  None of them refers back to the rest of the grammar.
\<close>

definition parse_usize :: "string \<Rightarrow> nat option" where
  "parse_usize s = map_option nat (from_str_radix 0 (2 ^ 64) 10 s)"

lemma parse_usize_widths:
  "parse_usize ''16'' = Some 16" "parse_usize ''32'' = Some 32" "parse_usize ''64'' = Some 64"
  "parse_usize ''128'' = Some 128"
  by code_simp+

definition parse_directive_line :: "unit parser" where
  "parse_directive_line =
     p_then (p_lit ''#'') (
       p_skip_many (p_class (''[^'' @ [CHR 0x0A] @ '']'') (\<lambda>c. \<not> (c = CHR 0x0A))))"

lemma ok_parse_directive_line [ok_intros]:
  "ok True k parse_directive_line"
  unfolding parse_directive_line_def
  by (rule ok_strict, (rule ok_intros | assumption | simp)+)

definition parse_ws :: "unit parser" where
  "parse_ws =
     p_quiet
      (p_skip_many
        (p_choices
           [p_then (p_maybe (p_lit [CHR 0x0D])) (
            p_then (p_lit [CHR 0x0A]) (p_maybe parse_directive_line)),
            p_class (''[ '' @ [CHR 0x09] @ '']'') (\<lambda>c. c = CHR '' '' \<or> c = CHR 0x09)]))"

lemma ok_parse_ws [ok_intros]:
  "ok False k parse_ws"
  unfolding parse_ws_def
  by (rule ok_strict, (rule ok_intros | assumption | simp)+)

definition parse_gnu_guard :: "unit parser" where
  "parse_gnu_guard =
     p_check (\<lambda>env. if extensions_gnu env then Inr () else Inl ''gnu extensions disabled'')"

lemma ok_parse_gnu_guard [ok_intros]:
  "ok False k parse_gnu_guard"
  unfolding parse_gnu_guard_def
  by (rule ok_strict, (rule ok_intros | assumption | simp)+)

definition parse_clang_guard :: "unit parser" where
  "parse_clang_guard =
     p_check (\<lambda>env. if extensions_clang env then Inr () else Inl ''clang extensions disabled'')"

lemma ok_parse_clang_guard [ok_intros]:
  "ok False k parse_clang_guard"
  unfolding parse_clang_guard_def
  by (rule ok_strict, (rule ok_intros | assumption | simp)+)

definition parse_identifier0 :: "c_identifier parser" where
  "parse_identifier0 =
     p_seq (p_slice
             (p_then (p_class ''[_a-zA-Z]'' ident_start) (
                p_skip_many (p_class ''[_a-zA-Z0-9]'' ident_char)))) (\<lambda>n.
       p_check (\<lambda>env. if n \<notin> set (reserved env) then Inr (Identifier n) else Inl ''identifier''))"

lemma ok_parse_identifier0 [ok_intros]:
  "ok True k parse_identifier0"
  unfolding parse_identifier0_def
  by (rule ok_strict, (rule ok_intros | assumption | simp)+)

definition parse_identifier :: "c_identifier node parser" where
  "parse_identifier =
     p_node parse_identifier0"

lemma ok_parse_identifier [ok_intros]:
  "ok True k parse_identifier"
  unfolding parse_identifier_def
  by (rule ok_strict, (rule ok_intros | assumption | simp)+)

definition parse_ohx :: "unit parser" where
  "parse_ohx =
     p_then (p_lit ''0'') (p_class ''[xX]'' (\<lambda>c. c = CHR ''x'' \<or> c = CHR ''X''))"

lemma ok_parse_ohx [ok_intros]:
  "ok True k parse_ohx"
  unfolding parse_ohx_def
  by (rule ok_strict, (rule ok_intros | assumption | simp)+)

definition parse_obb :: "unit parser" where
  "parse_obb =
     p_then (p_lit ''0'') (p_class ''[bB]'' (\<lambda>c. c = CHR ''b'' \<or> c = CHR ''B''))"

lemma ok_parse_obb [ok_intros]:
  "ok True k parse_obb"
  unfolding parse_obb_def
  by (rule ok_strict, (rule ok_intros | assumption | simp)+)

definition parse_dec :: "unit parser" where
  "parse_dec =
     p_class ''[0-9]'' is_ascii_digit"

lemma ok_parse_dec [ok_intros]:
  "ok True k parse_dec"
  unfolding parse_dec_def
  by (rule ok_strict, (rule ok_intros | assumption | simp)+)

definition parse_oct :: "unit parser" where
  "parse_oct =
     p_class ''[0-7]'' (\<lambda>c. byte (CHR ''0'') \<le> byte c \<and> byte c \<le> byte (CHR ''7''))"

lemma ok_parse_oct [ok_intros]:
  "ok True k parse_oct"
  unfolding parse_oct_def
  by (rule ok_strict, (rule ok_intros | assumption | simp)+)

definition parse_hex :: "unit parser" where
  "parse_hex =
     p_class ''[0-9a-fA-F]''
       (\<lambda>c. is_ascii_digit c \<or> byte (CHR ''a'') \<le> byte c \<and> byte c \<le> byte (CHR ''f'') \<or> byte (CHR ''A'') \<le> byte c \<and> byte c \<le> byte (CHR ''F''))"

lemma ok_parse_hex [ok_intros]:
  "ok True k parse_hex"
  unfolding parse_hex_def
  by (rule ok_strict, (rule ok_intros | assumption | simp)+)

definition parse_bin :: "unit parser" where
  "parse_bin =
     p_class ''[0-1]'' (\<lambda>c. byte (CHR ''0'') \<le> byte c \<and> byte c \<le> byte (CHR ''1''))"

lemma ok_parse_bin [ok_intros]:
  "ok True k parse_bin"
  unfolding parse_bin_def
  by (rule ok_strict, (rule ok_intros | assumption | simp)+)

definition parse_integer_number_2 :: "(integer_base \<times> string) parser" where
  "parse_integer_number_2 =
     p_choices
       [p_then (p_and parse_gnu_guard) (
        p_then parse_obb (
        p_seq (p_slice (p_then (p_at_least 1 (p_many parse_bin)) (p_pure ()))) (\<lambda>n.
          p_pure (IntegerBase_Binary, n)))),
        p_seq (p_slice (p_lit ''0'')) (\<lambda>n. p_pure (IntegerBase_Decimal, n))]"

lemma ok_parse_integer_number_2 [ok_intros]:
  "ok True k parse_integer_number_2"
  unfolding parse_integer_number_2_def
  by (rule ok_strict, (rule ok_intros | assumption | simp)+)

definition parse_integer_number :: "(integer_base \<times> string) parser" where
  "parse_integer_number =
     p_choices
       [p_seq (p_slice
                (p_then (p_class ''[1-9]''
                           (\<lambda>c. byte (CHR ''1'') \<le> byte c \<and> byte c \<le> byte (CHR ''9''))) (
                   p_skip_many parse_dec))) (\<lambda>n.
          p_pure (IntegerBase_Decimal, n)),
        p_then parse_ohx (
        p_seq (p_slice (p_then (p_at_least 1 (p_many parse_hex)) (p_pure ()))) (\<lambda>n.
          p_pure (IntegerBase_Hexadecimal, n))),
        p_then (p_lit ''0'') (
        p_seq (p_slice (p_then (p_at_least 1 (p_many parse_oct)) (p_pure ()))) (\<lambda>n.
          p_pure (IntegerBase_Octal, n))),
        parse_integer_number_2]"

lemma ok_parse_integer_number [ok_intros]:
  "ok True k parse_integer_number"
  unfolding parse_integer_number_def
  by (rule ok_strict, (rule ok_intros | assumption | simp)+)

definition parse_integer_suffix_inner :: "integer_suffix parser" where
  "parse_integer_suffix_inner =
     p_seq (p_slice
             (p_skip_many
               (p_choices
                  [p_class ''[uUlL]'' (\<lambda>c. c \<in> {CHR ''u'', CHR ''U'', CHR ''l'', CHR ''L''}),
                   p_then (p_and parse_gnu_guard) (
                     p_class ''[iIjJ]'' (\<lambda>c. c \<in> {CHR ''i'', CHR ''I'', CHR ''j'', CHR ''J''}))]))) (\<lambda>s.
       p_check (\<lambda>_. int_suffix s))"

lemma ok_parse_integer_suffix_inner [ok_intros]:
  "ok False k parse_integer_suffix_inner"
  unfolding parse_integer_suffix_inner_def
  by (rule ok_strict, (rule ok_intros | assumption | simp)+)

definition parse_integer_suffix :: "integer_suffix parser" where
  "parse_integer_suffix =
     p_named ''integer suffix'' (p_quiet parse_integer_suffix_inner)"

lemma ok_parse_integer_suffix [ok_intros]:
  "ok False k parse_integer_suffix"
  unfolding parse_integer_suffix_def
  by (rule ok_strict, (rule ok_intros | assumption | simp)+)

definition parse_integer_constant :: "c_integer parser" where
  "parse_integer_constant =
     p_seq parse_integer_number (\<lambda>n.
     p_seq parse_integer_suffix (\<lambda>suffix. p_pure (Integer (fst n) (snd n) suffix)))"

lemma ok_parse_integer_constant [ok_intros]:
  "ok True k parse_integer_constant"
  unfolding parse_integer_constant_def
  by (rule ok_strict, (rule ok_intros | assumption | simp)+)

definition parse_float_decimal_exp :: "unit parser" where
  "parse_float_decimal_exp =
     p_then (p_class ''[eE]'' (\<lambda>c. c = CHR ''e'' \<or> c = CHR ''E'')) (
     p_then (p_maybe (p_class ''[+-]'' (\<lambda>c. c = CHR ''+'' \<or> c = CHR ''-''))) (
       p_then (p_at_least 1 (p_many parse_dec)) (p_pure ())))"

lemma ok_parse_float_decimal_exp [ok_intros]:
  "ok True k parse_float_decimal_exp"
  unfolding parse_float_decimal_exp_def
  by (rule ok_strict, (rule ok_intros | assumption | simp)+)

definition parse_float_decimal :: "unit parser" where
  "parse_float_decimal =
     p_choices
       [p_then (p_skip_many parse_dec) (
        p_then (p_lit ''.'') (
        p_then (p_then (p_at_least 1 (p_many parse_dec)) (p_pure ())) (
          p_maybe parse_float_decimal_exp))),
        p_then (p_then (p_at_least 1 (p_many parse_dec)) (p_pure ())) (
        p_then (p_lit ''.'') (p_maybe parse_float_decimal_exp)),
        p_then (p_then (p_at_least 1 (p_many parse_dec)) (p_pure ())) parse_float_decimal_exp]"

lemma ok_parse_float_decimal [ok_intros]:
  "ok True k parse_float_decimal"
  unfolding parse_float_decimal_def
  by (rule ok_strict, (rule ok_intros | assumption | simp)+)

definition parse_float_binary_exp :: "unit parser" where
  "parse_float_binary_exp =
     p_then (p_class ''[pP]'' (\<lambda>c. c = CHR ''p'' \<or> c = CHR ''P'')) (
     p_then (p_maybe (p_class ''[+-]'' (\<lambda>c. c = CHR ''+'' \<or> c = CHR ''-''))) (
       p_then (p_at_least 1 (p_many parse_dec)) (p_pure ())))"

lemma ok_parse_float_binary_exp [ok_intros]:
  "ok True k parse_float_binary_exp"
  unfolding parse_float_binary_exp_def
  by (rule ok_strict, (rule ok_intros | assumption | simp)+)

definition parse_float_hexadecimal :: "unit parser" where
  "parse_float_hexadecimal =
     p_choices
       [p_then (p_skip_many parse_hex) (
        p_then (p_lit ''.'') (
        p_then (p_then (p_at_least 1 (p_many parse_hex)) (p_pure ())) parse_float_binary_exp)),
        p_then (p_then (p_at_least 1 (p_many parse_hex)) (p_pure ())) (
        p_then (p_lit ''.'') parse_float_binary_exp),
        p_then (p_then (p_at_least 1 (p_many parse_hex)) (p_pure ())) parse_float_binary_exp]"

lemma ok_parse_float_hexadecimal [ok_intros]:
  "ok True k parse_float_hexadecimal"
  unfolding parse_float_hexadecimal_def
  by (rule ok_strict, (rule ok_intros | assumption | simp)+)

definition parse_float_number :: "(float_base \<times> string) parser" where
  "parse_float_number =
     p_choices
       [p_seq (p_slice parse_float_decimal) (\<lambda>n. p_pure (FloatBase_Decimal, n)),
        p_then parse_ohx (
        p_seq (p_slice parse_float_hexadecimal) (\<lambda>n. p_pure (FloatBase_Hexadecimal, n)))]"

lemma ok_parse_float_number [ok_intros]:
  "ok True k parse_float_number"
  unfolding parse_float_number_def
  by (rule ok_strict, (rule ok_intros | assumption | simp)+)

definition parse_ts18661_binary_width :: "nat parser" where
  "parse_ts18661_binary_width =
     p_seq (p_slice (p_choices [p_lit ''16'', p_lit ''32'', p_lit ''64'', p_lit ''128''])) (\<lambda>n.
       p_unwrap (parse_usize n))"

lemma ok_parse_ts18661_binary_width [ok_intros]:
  "ok True k parse_ts18661_binary_width"
proof (rule okI)
  fix input pos st
  assume *: "at_boundary input pos" "length input - pos < k" "good_state input st"
  let ?p = "p_slice (p_choices (map p_lit [''16'', ''32'', ''64'', ''128'']))"
  have "ok True k ?p" unfolding list.map by (rule ok_strict, (rule ok_intros | simp)+)
  from okE [OF this *] obtain r st1 where "?p input pos st = Ok (r, st1)"
    "good_result True input pos r" "good_state input st1" "state_kept st st1" .
  with slice_lits [of "[''16'', ''32'', ''64'', ''128'']" input pos st]
  show "returns True input pos st (parse_ts18661_binary_width input pos st)"
    by (cases r) (auto simp: parse_ts18661_binary_width_def p_seq_def p_unwrap_def parse_usize_widths)
qed

definition parse_ts18661_decimal_width :: "nat parser" where
  "parse_ts18661_decimal_width =
     p_seq (p_slice (p_choices [p_lit ''32'', p_lit ''64'', p_lit ''128''])) (\<lambda>n.
       p_unwrap (parse_usize n))"

lemma ok_parse_ts18661_decimal_width [ok_intros]:
  "ok True k parse_ts18661_decimal_width"
proof (rule okI)
  fix input pos st
  assume *: "at_boundary input pos" "length input - pos < k" "good_state input st"
  let ?p = "p_slice (p_choices (map p_lit [''32'', ''64'', ''128'']))"
  have "ok True k ?p" unfolding list.map by (rule ok_strict, (rule ok_intros | simp)+)
  from okE [OF this *] obtain r st1 where "?p input pos st = Ok (r, st1)"
    "good_result True input pos r" "good_state input st1" "state_kept st st1" .
  with slice_lits [of "[''32'', ''64'', ''128'']" input pos st]
  show "returns True input pos st (parse_ts18661_decimal_width input pos st)"
    by (cases r) (auto simp: parse_ts18661_decimal_width_def p_seq_def p_unwrap_def parse_usize_widths)
qed

definition parse_ts18661_float_suffix :: "ts18661_float_type parser" where
  "parse_ts18661_float_suffix =
     p_choices
       [p_then (p_choices [p_lit ''df'', p_lit ''DF'']) (p_pure (ts18661_float False 32 False)),
        p_then (p_choices [p_lit ''dd'', p_lit ''DD'']) (p_pure (ts18661_float False 64 False)),
        p_then (p_choices [p_lit ''dl'', p_lit ''DL'']) (p_pure (ts18661_float False 128 False)),
        p_then (p_class ''[fF]'' (\<lambda>c. c = CHR ''f'' \<or> c = CHR ''F'')) (
        p_seq parse_ts18661_binary_width (\<lambda>width.
        p_seq (p_opt (p_lit ''x'')) (\<lambda>extended.
          p_pure (ts18661_float True width (extended \<noteq> None))))),
        p_then (p_class ''[dD]'' (\<lambda>c. c = CHR ''d'' \<or> c = CHR ''D'')) (
        p_seq parse_ts18661_decimal_width (\<lambda>width.
        p_seq (p_opt (p_lit ''x'')) (\<lambda>extended.
          p_pure (ts18661_float False width (extended \<noteq> None)))))]"

lemma ok_parse_ts18661_float_suffix [ok_intros]:
  "ok True k parse_ts18661_float_suffix"
  unfolding parse_ts18661_float_suffix_def
  by (rule ok_strict, (rule ok_intros | assumption | simp)+)

definition parse_float_format :: "float_format parser" where
  "parse_float_format =
     p_choices
       [p_seq parse_ts18661_float_suffix (\<lambda>f. p_pure (FloatFormat_TS18661Format f)),
        p_then (p_class ''[fF]'' (\<lambda>c. c = CHR ''f'' \<or> c = CHR ''F'')) (p_pure FloatFormat_Float),
        p_then (p_class ''[lL]'' (\<lambda>c. c = CHR ''l'' \<or> c = CHR ''L'')) (
          p_pure FloatFormat_LongDouble),
        p_pure FloatFormat_Double]"

lemma ok_parse_float_format [ok_intros]:
  "ok False k parse_float_format"
  unfolding parse_float_format_def
  by (rule ok_strict, (rule ok_intros | assumption | simp)+)

definition parse_float_suffix_inner :: "float_suffix parser" where
  "parse_float_suffix_inner =
     p_choices
       [p_then (p_then (p_and parse_gnu_guard) (
                  p_class ''[iIjJ]'' (\<lambda>c. c \<in> {CHR ''i'', CHR ''I'', CHR ''j'', CHR ''J''}))) (
        p_seq parse_float_format (\<lambda>format. p_pure (FloatSuffix format True))),
        p_seq parse_float_format (\<lambda>format.
        p_seq (p_opt
                (p_then (p_and parse_gnu_guard) (
                   p_class ''[iIjJ]'' (\<lambda>c. c \<in> {CHR ''i'', CHR ''I'', CHR ''j'', CHR ''J''})))) (\<lambda>imaginary.
          p_pure (FloatSuffix format (imaginary \<noteq> None))))]"

lemma ok_parse_float_suffix_inner [ok_intros]:
  "ok False k parse_float_suffix_inner"
  unfolding parse_float_suffix_inner_def
  by (rule ok_strict, (rule ok_intros | assumption | simp)+)

definition parse_float_suffix :: "float_suffix parser" where
  "parse_float_suffix =
     p_named ''float literal suffix'' (p_quiet parse_float_suffix_inner)"

lemma ok_parse_float_suffix [ok_intros]:
  "ok False k parse_float_suffix"
  unfolding parse_float_suffix_def
  by (rule ok_strict, (rule ok_intros | assumption | simp)+)

definition parse_float_constant :: "c_float parser" where
  "parse_float_constant =
     p_seq parse_float_number (\<lambda>n.
     p_seq parse_float_suffix (\<lambda>suffix. p_pure (Float (fst n) (snd n) suffix)))"

lemma ok_parse_float_constant [ok_intros]:
  "ok True k parse_float_constant"
  unfolding parse_float_constant_def
  by (rule ok_strict, (rule ok_intros | assumption | simp)+)

definition parse_numeric_constant :: "c_constant parser" where
  "parse_numeric_constant =
     p_choices
       [p_seq parse_float_constant (\<lambda>c. p_pure (Constant_Float c)),
        p_seq parse_integer_constant (\<lambda>c. p_pure (Constant_Integer c))]"

lemma ok_parse_numeric_constant [ok_intros]:
  "ok True k parse_numeric_constant"
  unfolding parse_numeric_constant_def
  by (rule ok_strict, (rule ok_intros | assumption | simp)+)

definition parse_escape_sequence :: "unit parser" where
  "parse_escape_sequence =
     p_then (p_lit [CHR 0x5C]) (
       p_choices
         [p_class (''['' @ [CHR 0x27] @ [CHR 0x22] @ ''?'' @ [CHR 0x5C] @ ''abfnrtv]'')
            (\<lambda>c. c \<in> {CHR 0x27, CHR 0x22, CHR ''?'', CHR 0x5C, CHR ''a'', CHR ''b'', CHR ''f'', CHR ''n'', CHR ''r'', CHR ''t'', CHR ''v''}),
          p_then (p_at_least 1 (p_up_to 3 parse_oct)) (p_pure ()),
          p_then (p_lit ''x'') (p_then (p_at_least 1 (p_many parse_hex)) (p_pure ()))])"

lemma ok_parse_escape_sequence [ok_intros]:
  "ok True k parse_escape_sequence"
  unfolding parse_escape_sequence_def
  by (rule ok_strict, (rule ok_intros | assumption | simp)+)

definition parse_character :: "unit parser" where
  "parse_character =
     p_choices
       [p_class (''[^'' @ [CHR 0x27] @ [CHR 0x5C] @ [CHR 0x0A] @ '']'')
          (\<lambda>c. \<not> (c = CHR 0x27 \<or> c = CHR 0x5C \<or> c = CHR 0x0A)),
        parse_escape_sequence]"

lemma ok_parse_character [ok_intros]:
  "ok True k parse_character"
  unfolding parse_character_def
  by (rule ok_strict, (rule ok_intros | assumption | simp)+)

definition parse_character_constant :: "string parser" where
  "parse_character_constant =
     p_seq (p_slice
             (p_then (p_maybe
                       (p_class ''[LuU]'' (\<lambda>c. c = CHR ''L'' \<or> c = CHR ''u'' \<or> c = CHR ''U''))) (
              p_then (p_lit [CHR 0x27]) (
              p_then (p_then (p_at_least 1 (p_many parse_character)) (p_pure ())) (
                p_lit [CHR 0x27]))))) (\<lambda>c.
       p_pure c)"

lemma ok_parse_character_constant [ok_intros]:
  "ok True k parse_character_constant"
  unfolding parse_character_constant_def
  by (rule ok_strict, (rule ok_intros | assumption | simp)+)

definition parse_constant :: "c_constant parser" where
  "parse_constant =
     p_choices
       [p_then (p_and (p_class ''[0-9.]'' (\<lambda>c. is_ascii_digit c \<or> c = CHR ''.''))) (
          parse_numeric_constant),
        p_then (p_and
                 (p_class (''['' @ [CHR 0x27] @ ''uUL]'')
                    (\<lambda>c. c \<in> {CHR 0x27, CHR ''u'', CHR ''U'', CHR ''L''}))) (
        p_seq parse_character_constant (\<lambda>c. p_pure (Constant_Character c)))]"

lemma ok_parse_constant [ok_intros]:
  "ok True k parse_constant"
  unfolding parse_constant_def
  by (rule ok_strict, (rule ok_intros | assumption | simp)+)

definition parse_encoding_prefix :: "unit parser" where
  "parse_encoding_prefix =
     p_choices
       [p_lit ''u8'',
        p_class ''[uUL]'' (\<lambda>c. c = CHR ''u'' \<or> c = CHR ''U'' \<or> c = CHR ''L'')]"

lemma ok_parse_encoding_prefix [ok_intros]:
  "ok True k parse_encoding_prefix"
  unfolding parse_encoding_prefix_def
  by (rule ok_strict, (rule ok_intros | assumption | simp)+)

definition parse_string_char :: "unit parser" where
  "parse_string_char =
     p_choices
       [p_class (''[^'' @ [CHR 0x22] @ [CHR 0x5C] @ [CHR 0x0A] @ '']'')
          (\<lambda>c. \<not> (c = CHR 0x22 \<or> c = CHR 0x5C \<or> c = CHR 0x0A)),
        parse_escape_sequence]"

lemma ok_parse_string_char [ok_intros]:
  "ok True k parse_string_char"
  unfolding parse_string_char_def
  by (rule ok_strict, (rule ok_intros | assumption | simp)+)

definition parse_string_literal0 :: "string parser" where
  "parse_string_literal0 =
     p_seq (p_slice
             (p_then (p_maybe parse_encoding_prefix) (
              p_then (p_lit [CHR 0x22]) (
              p_then (p_skip_many parse_string_char) (p_lit [CHR 0x22]))))) (\<lambda>s.
       p_pure s)"

lemma ok_parse_string_literal0 [ok_intros]:
  "ok True k parse_string_literal0"
  unfolding parse_string_literal0_def
  by (rule ok_strict, (rule ok_intros | assumption | simp)+)

definition parse_string_literal :: "string list node parser" where
  "parse_string_literal =
     p_node (p_at_least 1 (p_many_sep parse_string_literal0 parse_ws))"

lemma ok_parse_string_literal [ok_intros]:
  "ok True k parse_string_literal"
  unfolding parse_string_literal_def
  by (rule ok_strict, (rule ok_intros | assumption | simp)+)

end
