(* ===== verification/Grammar_Types.thy ===== *)
theory Grammar_Types
  imports Grammar_Lexical
begin

text \<open>
  Attributes, type specifiers, qualifiers and type names (\<open>attributes.rs\<close>,
  \<open>availability_and_asm_labels.rs\<close>, \<open>structs.rs\<close>, \<open>enums_and_qualifiers.rs\<close>, \<open>type_specifiers.rs\<close>,
  \<open>specifier_qualifiers.rs\<close>, \<open>typeof_and_ts18661.rs\<close>).

  The functions of the parser call each other recursively.  A rule takes the record \<open>g\<close> of the rules
  that are called before they are defined; Parser ties the knot.
\<close>

subsection \<open>The rules that are used before they are defined\<close>

record grammar =
  g_type_name :: "type_name node parser"
  g_unary_expression0 :: "expression parser"
  g_conditional_expression0 :: "expression parser"
  g_unary_expression :: "expression node parser"
  g_assignment_expression0 :: "expression parser"
  g_expression0 :: "expression parser"
  g_cast_expression :: "expression node parser"
  g_assignment_expression :: "expression node parser"
  g_constant_expression :: "expression node parser"
  g_declarator :: "declarator node parser"
  g_struct_declaration :: "struct_declaration parser"
  g_abstract_declarator :: "declarator node parser"
  g_parameter_declarator :: "declarator node option parser"
  g_initializer_list_item :: "initializer_list_item parser"
  g_statement :: "statement node parser"
  g_block_item :: "block_item parser"
  g_typeof_specifier0 :: "type_of parser"

text \<open>Enough for recursive calls with fewer than \<open>n\<close> bytes left.\<close>

definition good_grammar :: "nat \<Rightarrow> grammar \<Rightarrow> bool" where
  "good_grammar n g \<longleftrightarrow>
     ok True n (g_type_name g) \<and>
     ok True n (g_unary_expression0 g) \<and>
     ok True n (g_conditional_expression0 g) \<and>
     ok True n (g_unary_expression g) \<and>
     ok True n (g_assignment_expression0 g) \<and>
     ok True n (g_expression0 g) \<and>
     ok True n (g_cast_expression g) \<and>
     ok True n (g_assignment_expression g) \<and>
     ok True n (g_constant_expression g) \<and>
     ok True n (g_declarator g) \<and>
     ok True n (g_struct_declaration g) \<and>
     ok True n (g_abstract_declarator g) \<and>
     ok False n (g_parameter_declarator g) \<and>
     ok True n (g_initializer_list_item g) \<and>
     ok True n (g_statement g) \<and>
     ok True n (g_block_item g) \<and>
     ok True n (g_typeof_specifier0 g)"

lemma ok_g_type_name [ok_intros]: "good_grammar n g \<Longrightarrow> k \<le> n \<Longrightarrow> ok True k (g_type_name g)"
  by (auto simp: good_grammar_def elim: ok_weaken)

lemma ok_g_unary_expression0 [ok_intros]: "good_grammar n g \<Longrightarrow> k \<le> n \<Longrightarrow> ok True k (g_unary_expression0 g)"
  by (auto simp: good_grammar_def elim: ok_weaken)

lemma ok_g_conditional_expression0 [ok_intros]: "good_grammar n g \<Longrightarrow> k \<le> n \<Longrightarrow> ok True k (g_conditional_expression0 g)"
  by (auto simp: good_grammar_def elim: ok_weaken)

lemma ok_g_unary_expression [ok_intros]: "good_grammar n g \<Longrightarrow> k \<le> n \<Longrightarrow> ok True k (g_unary_expression g)"
  by (auto simp: good_grammar_def elim: ok_weaken)

lemma ok_g_assignment_expression0 [ok_intros]: "good_grammar n g \<Longrightarrow> k \<le> n \<Longrightarrow> ok True k (g_assignment_expression0 g)"
  by (auto simp: good_grammar_def elim: ok_weaken)

lemma ok_g_expression0 [ok_intros]: "good_grammar n g \<Longrightarrow> k \<le> n \<Longrightarrow> ok True k (g_expression0 g)"
  by (auto simp: good_grammar_def elim: ok_weaken)

lemma ok_g_cast_expression [ok_intros]: "good_grammar n g \<Longrightarrow> k \<le> n \<Longrightarrow> ok True k (g_cast_expression g)"
  by (auto simp: good_grammar_def elim: ok_weaken)

lemma ok_g_assignment_expression [ok_intros]: "good_grammar n g \<Longrightarrow> k \<le> n \<Longrightarrow> ok True k (g_assignment_expression g)"
  by (auto simp: good_grammar_def elim: ok_weaken)

lemma ok_g_constant_expression [ok_intros]: "good_grammar n g \<Longrightarrow> k \<le> n \<Longrightarrow> ok True k (g_constant_expression g)"
  by (auto simp: good_grammar_def elim: ok_weaken)

lemma ok_g_declarator [ok_intros]: "good_grammar n g \<Longrightarrow> k \<le> n \<Longrightarrow> ok True k (g_declarator g)"
  by (auto simp: good_grammar_def elim: ok_weaken)

lemma ok_g_struct_declaration [ok_intros]: "good_grammar n g \<Longrightarrow> k \<le> n \<Longrightarrow> ok True k (g_struct_declaration g)"
  by (auto simp: good_grammar_def elim: ok_weaken)

lemma ok_g_abstract_declarator [ok_intros]: "good_grammar n g \<Longrightarrow> k \<le> n \<Longrightarrow> ok True k (g_abstract_declarator g)"
  by (auto simp: good_grammar_def elim: ok_weaken)

lemma ok_g_parameter_declarator [ok_intros]: "good_grammar n g \<Longrightarrow> k \<le> n \<Longrightarrow> ok False k (g_parameter_declarator g)"
  by (auto simp: good_grammar_def elim: ok_weaken)

lemma ok_g_initializer_list_item [ok_intros]: "good_grammar n g \<Longrightarrow> k \<le> n \<Longrightarrow> ok True k (g_initializer_list_item g)"
  by (auto simp: good_grammar_def elim: ok_weaken)

lemma ok_g_statement [ok_intros]: "good_grammar n g \<Longrightarrow> k \<le> n \<Longrightarrow> ok True k (g_statement g)"
  by (auto simp: good_grammar_def elim: ok_weaken)

lemma ok_g_block_item [ok_intros]: "good_grammar n g \<Longrightarrow> k \<le> n \<Longrightarrow> ok True k (g_block_item g)"
  by (auto simp: good_grammar_def elim: ok_weaken)

lemma ok_g_typeof_specifier0 [ok_intros]: "good_grammar n g \<Longrightarrow> k \<le> n \<Longrightarrow> ok True k (g_typeof_specifier0 g)"
  by (auto simp: good_grammar_def elim: ok_weaken)


definition parse_attribute_name :: "string parser" where
  "parse_attribute_name =
     p_seq (p_slice
             (p_quiet
               (p_then (p_class ''[_a-zA-Z]'' ident_start) (
                  p_skip_many (p_class ''[_a-zA-Z0-9]'' ident_char))))) (\<lambda>n.
       p_pure n)"

lemma ok_parse_attribute_name [ok_intros]:
  "ok True k parse_attribute_name"
  unfolding parse_attribute_name_def
  by (rule ok_strict, (rule ok_intros | assumption | simp)+)

definition parse_attribute_parameters :: "grammar \<Rightarrow> expression node list parser" where
  "parse_attribute_parameters g =
     p_then (p_lit ''('') (
     p_then parse_ws (
     p_seq (p_many_sep
              (p_node (g_assignment_expression0 g))
              (p_then parse_ws (p_then (p_lit '','') parse_ws))) (\<lambda>e.
     p_then parse_ws (p_then (p_lit '')'') (p_pure e)))))"

lemma ok_parse_attribute_parameters [ok_intros]:
  "good_grammar n g \<Longrightarrow> k \<le> Suc n \<Longrightarrow> ok True k (parse_attribute_parameters g)"
  unfolding parse_attribute_parameters_def
  by (rule ok_strict, (rule ok_intros | assumption | simp)+)

definition parse_attr_availability_version :: "availability_version parser" where
  "parse_attr_availability_version =
     p_seq (p_slice (p_then (p_at_least 1 (p_many parse_dec)) (p_pure ()))) (\<lambda>a.
     p_seq (p_opt
             (p_then (p_lit ''.'') (
                p_slice (p_then (p_at_least 1 (p_many parse_dec)) (p_pure ()))))) (\<lambda>b.
     p_seq (p_opt
             (p_then (p_lit ''.'') (
                p_slice (p_then (p_at_least 1 (p_many parse_dec)) (p_pure ()))))) (\<lambda>c.
       p_pure (AvailabilityVersion a b c))))"

lemma ok_parse_attr_availability_version [ok_intros]:
  "ok True k parse_attr_availability_version"
  unfolding parse_attr_availability_version_def
  by (rule ok_strict, (rule ok_intros | assumption | simp)+)

definition parse_attr_availability_clause_4 :: "availability_clause parser" where
  "parse_attr_availability_clause_4 =
     p_choices
       [p_then (p_keyword (p_lit ''message'')) (
        p_then parse_ws (
        p_then (p_lit ''='') (
        p_then parse_ws (
        p_seq parse_string_literal (\<lambda>s. p_pure (AvailabilityClause_Message s)))))),
        p_then (p_keyword (p_lit ''replacement'')) (
        p_then parse_ws (
        p_then (p_lit ''='') (
        p_then parse_ws (
        p_seq parse_string_literal (\<lambda>s. p_pure (AvailabilityClause_Replacement s))))))]"

lemma ok_parse_attr_availability_clause_4 [ok_intros]:
  "ok True k parse_attr_availability_clause_4"
  unfolding parse_attr_availability_clause_4_def
  by (rule ok_strict, (rule ok_intros | assumption | simp)+)

definition parse_attr_availability_clause_3 :: "availability_clause parser" where
  "parse_attr_availability_clause_3 =
     p_choices
       [p_then (p_keyword (p_lit ''obsoleted'')) (
        p_then parse_ws (
        p_then (p_lit ''='') (
        p_then parse_ws (
        p_seq (p_node parse_attr_availability_version) (\<lambda>v.
          p_pure (AvailabilityClause_Obsoleted v)))))),
        p_then (p_keyword (p_lit ''unavailable'')) (p_pure AvailabilityClause_Unavailable),
        parse_attr_availability_clause_4]"

lemma ok_parse_attr_availability_clause_3 [ok_intros]:
  "ok True k parse_attr_availability_clause_3"
  unfolding parse_attr_availability_clause_3_def
  by (rule ok_strict, (rule ok_intros | assumption | simp)+)

definition parse_attr_availability_clause_2 :: "availability_clause parser" where
  "parse_attr_availability_clause_2 =
     p_choices
       [p_then (p_keyword (p_lit ''deprecated'')) (
        p_then parse_ws (
        p_then (p_lit ''='') (
        p_then parse_ws (
        p_seq (p_node parse_attr_availability_version) (\<lambda>v.
          p_pure (AvailabilityClause_Deprecated v)))))),
        parse_attr_availability_clause_3]"

lemma ok_parse_attr_availability_clause_2 [ok_intros]:
  "ok True k parse_attr_availability_clause_2"
  unfolding parse_attr_availability_clause_2_def
  by (rule ok_strict, (rule ok_intros | assumption | simp)+)

definition parse_attr_availability_clause :: "availability_clause parser" where
  "parse_attr_availability_clause =
     p_choices
       [p_then (p_keyword (p_lit ''introduced'')) (
        p_then parse_ws (
        p_then (p_lit ''='') (
        p_then parse_ws (
        p_seq (p_node parse_attr_availability_version) (\<lambda>v.
          p_pure (AvailabilityClause_Introduced v)))))),
        parse_attr_availability_clause_2]"

lemma ok_parse_attr_availability_clause [ok_intros]:
  "ok True k parse_attr_availability_clause"
  unfolding parse_attr_availability_clause_def
  by (rule ok_strict, (rule ok_intros | assumption | simp)+)

definition parse_attr_availability :: "availability_attribute parser" where
  "parse_attr_availability =
     p_then (p_keyword (p_lit ''availability'')) (
     p_then parse_ws (
     p_then (p_lit ''('') (
     p_then parse_ws (
     p_seq parse_identifier (\<lambda>p.
     p_then parse_ws (
     p_then (p_lit '','') (
     p_then parse_ws (
     p_seq (p_at_least 1
             (p_many_sep
                (p_node parse_attr_availability_clause)
                (p_then parse_ws (p_then (p_lit '','') parse_ws)))) (\<lambda>c.
     p_then parse_ws (p_then (p_lit '')'') (p_pure (AvailabilityAttribute p c))))))))))))"

lemma ok_parse_attr_availability [ok_intros]:
  "ok True k parse_attr_availability"
  unfolding parse_attr_availability_def
  by (rule ok_strict, (rule ok_intros | assumption | simp)+)

definition parse_attribute :: "grammar \<Rightarrow> c_extension parser" where
  "parse_attribute g =
     p_choices
       [p_seq (p_then (p_and parse_clang_guard) (p_node parse_attr_availability)) (\<lambda>c.
          p_pure (Extension_AvailabilityAttribute c)),
        p_seq (p_node parse_attribute_name) (\<lambda>n.
        p_then parse_ws (
        p_seq (p_opt (parse_attribute_parameters g)) (\<lambda>p.
          p_pure (Extension_Attribute (Attribute n (case p of None \<Rightarrow> [] | Some xs \<Rightarrow> xs))))))]"

lemma ok_parse_attribute [ok_intros]:
  "good_grammar n g \<Longrightarrow> k \<le> Suc n \<Longrightarrow> ok True k (parse_attribute g)"
  unfolding parse_attribute_def
  by (rule ok_strict, (rule ok_intros | assumption | simp)+)

definition parse_attribute_specifier :: "grammar \<Rightarrow> c_extension node list parser" where
  "parse_attribute_specifier g =
     p_then (p_keyword (p_then (p_lit ''__attribute'') (p_maybe (p_lit ''__'')))) (
     p_then parse_ws (
     p_then (p_lit ''(('') (
     p_then parse_ws (
     p_seq (p_many_sep
              (p_node (parse_attribute g))
              (p_then parse_ws (p_then (p_lit '','') parse_ws))) (\<lambda>a.
     p_then parse_ws (p_then (p_lit ''))'') (p_pure a)))))))"

lemma ok_parse_attribute_specifier [ok_intros]:
  "good_grammar n g \<Longrightarrow> k \<le> Suc n \<Longrightarrow> ok True k (parse_attribute_specifier g)"
  unfolding parse_attribute_specifier_def
  by (rule ok_strict, (rule ok_intros | assumption | simp)+)

definition parse_attribute_specifier_list :: "grammar \<Rightarrow> c_extension node list parser" where
  "parse_attribute_specifier_list g =
     p_seq (p_many_sep (parse_attribute_specifier g) parse_ws) (\<lambda>a. p_pure (concat a))"

lemma ok_parse_attribute_specifier_list [ok_intros]:
  "good_grammar n g \<Longrightarrow> k \<le> Suc n \<Longrightarrow> ok False k (parse_attribute_specifier_list g)"
  unfolding parse_attribute_specifier_list_def
  by (rule ok_strict, (rule ok_intros | assumption | simp)+)

definition parse_struct_or_union_body ::
  "grammar \<Rightarrow> struct_declaration node list option parser" where
  "parse_struct_or_union_body g =
     p_choices
       [p_then (p_lit ''{'') (
        p_then parse_ws (
        p_seq (p_at_least 1 (p_many_sep (p_node (g_struct_declaration g)) parse_ws)) (\<lambda>d.
        p_then parse_ws (p_then (p_lit ''}'') (p_pure (Some d)))))),
        p_then (p_then (p_and parse_gnu_guard) (
                p_then (p_lit ''{'') (p_then parse_ws (p_lit ''}'')))) (
          p_pure (Some [])),
        p_pure None]"

lemma ok_parse_struct_or_union_body [ok_intros]:
  "good_grammar n g \<Longrightarrow> k \<le> Suc n \<Longrightarrow> ok False k (parse_struct_or_union_body g)"
  unfolding parse_struct_or_union_body_def
  by (rule ok_strict, (rule ok_intros | assumption | simp)+)

definition parse_struct_or_union :: "struct_kind parser" where
  "parse_struct_or_union =
     p_choices
       [p_then (p_keyword (p_lit ''struct'')) (p_pure StructKind_Struct),
        p_then (p_keyword (p_lit ''union'')) (p_pure StructKind_Union)]"

lemma ok_parse_struct_or_union [ok_intros]:
  "ok True k parse_struct_or_union"
  unfolding parse_struct_or_union_def
  by (rule ok_strict, (rule ok_intros | assumption | simp)+)

definition parse_struct_or_union_specifier :: "grammar \<Rightarrow> struct_type parser" where
  "parse_struct_or_union_specifier g =
     p_choices
       [p_seq (p_node parse_struct_or_union) (\<lambda>t.
        p_then parse_ws (
        p_seq (p_opt (p_seq (p_guard (\<lambda>x. x \<noteq> []) (parse_attribute_specifier_list g)) (\<lambda>x.
                   p_then (p_maybe parse_ws) (p_pure x)))) (\<lambda>attrs.
        p_seq (p_opt parse_identifier) (\<lambda>i.
        p_then parse_ws (
        p_seq (parse_struct_or_union_body g) (\<lambda>d. p_pure (StructType t i d (case attrs of None \<Rightarrow> [] | Some x \<Rightarrow> x)))))))),
        p_seq (p_node parse_struct_or_union) (\<lambda>t.
        p_then parse_ws (p_seq parse_identifier (\<lambda>i. p_pure (StructType t (Some i) None []))))]"

lemma ok_parse_struct_or_union_specifier [ok_intros]:
  "good_grammar n g \<Longrightarrow> k \<le> Suc n \<Longrightarrow> ok True k (parse_struct_or_union_specifier g)"
  unfolding parse_struct_or_union_specifier_def
  by (rule ok_strict, (rule ok_intros | assumption | simp)+)

definition parse_enumerator_constant :: "grammar \<Rightarrow> expression node parser" where
  "parse_enumerator_constant g =
     p_then (p_lit ''='') (p_then parse_ws (g_constant_expression g))"

lemma ok_parse_enumerator_constant [ok_intros]:
  "good_grammar n g \<Longrightarrow> k \<le> Suc n \<Longrightarrow> ok True k (parse_enumerator_constant g)"
  unfolding parse_enumerator_constant_def
  by (rule ok_strict, (rule ok_intros | assumption | simp)+)

definition parse_enumerator :: "grammar \<Rightarrow> enumerator parser" where
  "parse_enumerator g =
     p_seq parse_identifier (\<lambda>i.
     p_then parse_ws (
     p_seq (p_opt (p_then (p_and parse_gnu_guard) (parse_attribute_specifier_list g))) (\<lambda>a.
     p_then parse_ws (
     p_seq (p_opt (parse_enumerator_constant g)) (\<lambda>e.
       p_then (p_modify (add_symbol (c_identifier_name (node i)) Symbol_Identifier))
         (p_pure (Enumerator i e (case a of None \<Rightarrow> [] | Some xs \<Rightarrow> xs))))))))"

lemma ok_parse_enumerator [ok_intros]:
  "good_grammar n g \<Longrightarrow> k \<le> Suc n \<Longrightarrow> ok True k (parse_enumerator g)"
  unfolding parse_enumerator_def
  by (rule ok_strict, (rule ok_intros | assumption | simp)+)

definition parse_enum_specifier_2 :: "grammar \<Rightarrow> enum_type parser" where
  "parse_enum_specifier_2 g =
     p_then (p_keyword (p_lit ''enum'')) (
     p_then parse_ws (p_seq parse_identifier (\<lambda>i. p_pure (EnumType (Some i) []))))"

lemma ok_parse_enum_specifier_2 [ok_intros]:
  "good_grammar n g \<Longrightarrow> k \<le> Suc n \<Longrightarrow> ok True k (parse_enum_specifier_2 g)"
  unfolding parse_enum_specifier_2_def
  by (rule ok_strict, (rule ok_intros | assumption | simp)+)

definition parse_enum_specifier :: "grammar \<Rightarrow> enum_type parser" where
  "parse_enum_specifier g =
     p_choices
       [p_then (p_keyword (p_lit ''enum'')) (
        p_then parse_ws (
        p_seq (p_opt parse_identifier) (\<lambda>i.
        p_then parse_ws (
        p_then (p_lit ''{'') (
        p_then parse_ws (
        p_seq (p_at_least 1
                (p_many_sep
                   (p_node (parse_enumerator g))
                   (p_then parse_ws (p_then (p_lit '','') parse_ws)))) (\<lambda>e.
        p_then parse_ws (
        p_then (p_maybe (p_lit '','')) (
        p_then parse_ws (p_then (p_lit ''}'') (p_pure (EnumType i e)))))))))))),
        parse_enum_specifier_2 g]"

lemma ok_parse_enum_specifier [ok_intros]:
  "good_grammar n g \<Longrightarrow> k \<le> Suc n \<Longrightarrow> ok True k (parse_enum_specifier g)"
  unfolding parse_enum_specifier_def
  by (rule ok_strict, (rule ok_intros | assumption | simp)+)

definition parse_typedef_name0 :: "c_identifier node parser" where
  "parse_typedef_name0 =
     p_seq parse_identifier (\<lambda>i.
       p_check (\<lambda>env. if is_typename env (c_identifier_name (node i)) then Inr i else Inl ''<unused>''))"

lemma ok_parse_typedef_name0 [ok_intros]:
  "ok True k parse_typedef_name0"
  unfolding parse_typedef_name0_def
  by (rule ok_strict, (rule ok_intros | assumption | simp)+)

definition parse_typedef_name :: "c_identifier node parser" where
  "parse_typedef_name =
     p_named ''<typedef_name>'' (p_quiet parse_typedef_name0)"

lemma ok_parse_typedef_name [ok_intros]:
  "ok True k parse_typedef_name"
  unfolding parse_typedef_name_def
  by (rule ok_strict, (rule ok_intros | assumption | simp)+)

definition parse_type_specifier_unique_4 :: "grammar \<Rightarrow> type_specifier parser" where
  "parse_type_specifier_unique_4 g =
     p_seq parse_typedef_name (\<lambda>t. p_pure (TypeSpecifier_TypedefName t))"

lemma ok_parse_type_specifier_unique_4 [ok_intros]:
  "good_grammar n g \<Longrightarrow> k \<le> Suc n \<Longrightarrow> ok True k (parse_type_specifier_unique_4 g)"
  unfolding parse_type_specifier_unique_4_def
  by (rule ok_strict, (rule ok_intros | assumption | simp)+)

definition parse_type_specifier_unique_3 :: "grammar \<Rightarrow> type_specifier parser" where
  "parse_type_specifier_unique_3 g =
     p_choices
       [p_then (p_keyword (p_lit ''_Atomic'')) (
        p_then parse_ws (
        p_then (p_lit ''('') (
        p_then parse_ws (
        p_seq (g_type_name g) (\<lambda>t.
        p_then parse_ws (p_then (p_lit '')'') (p_pure (TypeSpecifier_Atomic t)))))))),
        p_seq (p_node (parse_struct_or_union_specifier g)) (\<lambda>s. p_pure (TypeSpecifier_Struct s)),
        p_seq (p_node (parse_enum_specifier g)) (\<lambda>e. p_pure (TypeSpecifier_Enum e)),
        parse_type_specifier_unique_4 g]"

lemma ok_parse_type_specifier_unique_3 [ok_intros]:
  "good_grammar n g \<Longrightarrow> k \<le> Suc n \<Longrightarrow> ok True k (parse_type_specifier_unique_3 g)"
  unfolding parse_type_specifier_unique_3_def
  by (rule ok_strict, (rule ok_intros | assumption | simp)+)

definition parse_type_specifier_unique_2 :: "grammar \<Rightarrow> type_specifier parser" where
  "parse_type_specifier_unique_2 g =
     p_choices
       [p_then (p_and parse_gnu_guard) (
        p_then (p_keyword (p_lit ''__float128'')) (p_pure TypeSpecifier_Float128)),
        p_then (p_keyword (p_lit ''_BitInt'')) (
        p_then parse_ws (
        p_then (p_lit ''('') (
        p_then parse_ws (
        p_seq (g_constant_expression g) (\<lambda>w.
        p_then parse_ws (p_then (p_lit '')'') (p_pure (TypeSpecifier_BitInt w)))))))),
        parse_type_specifier_unique_3 g]"

lemma ok_parse_type_specifier_unique_2 [ok_intros]:
  "good_grammar n g \<Longrightarrow> k \<le> Suc n \<Longrightarrow> ok True k (parse_type_specifier_unique_2 g)"
  unfolding parse_type_specifier_unique_2_def
  by (rule ok_strict, (rule ok_intros | assumption | simp)+)

definition parse_type_specifier_unique :: "grammar \<Rightarrow> type_specifier parser" where
  "parse_type_specifier_unique g =
     p_choices
       [p_then (p_keyword (p_lit ''void'')) (p_pure TypeSpecifier_Void),
        p_then (p_keyword (p_choices [p_lit ''_Bool'', p_lit ''bool''])) (
          p_pure TypeSpecifier_Bool),
        parse_type_specifier_unique_2 g]"

lemma ok_parse_type_specifier_unique [ok_intros]:
  "good_grammar n g \<Longrightarrow> k \<le> Suc n \<Longrightarrow> ok True k (parse_type_specifier_unique g)"
  unfolding parse_type_specifier_unique_def
  by (rule ok_strict, (rule ok_intros | assumption | simp)+)

definition parse_specifier_qualifier_unique_type0 :: "grammar \<Rightarrow> specifier_qualifier parser" where
  "parse_specifier_qualifier_unique_type0 g =
     p_seq (p_node (parse_type_specifier_unique g)) (\<lambda>s.
       p_pure (SpecifierQualifier_TypeSpecifier s))"

lemma ok_parse_specifier_qualifier_unique_type0 [ok_intros]:
  "good_grammar n g \<Longrightarrow> k \<le> Suc n \<Longrightarrow> ok True k (parse_specifier_qualifier_unique_type0 g)"
  unfolding parse_specifier_qualifier_unique_type0_def
  by (rule ok_strict, (rule ok_intros | assumption | simp)+)

definition parse_typeof_specifier :: "grammar \<Rightarrow> type_specifier parser" where
  "parse_typeof_specifier g =
     p_then (p_keyword
              (p_choices
                 [p_lit ''typeof'',
                  p_then (p_lit ''__typeof'') (p_maybe (p_lit ''__''))])) (
     p_then parse_ws (
     p_then (p_lit ''('') (
     p_then parse_ws (
     p_seq (p_node (g_typeof_specifier0 g)) (\<lambda>e.
     p_then parse_ws (p_then (p_lit '')'') (p_pure (TypeSpecifier_TypeOf e))))))))"

lemma ok_parse_typeof_specifier [ok_intros]:
  "good_grammar n g \<Longrightarrow> k \<le> Suc n \<Longrightarrow> ok True k (parse_typeof_specifier g)"
  unfolding parse_typeof_specifier_def
  by (rule ok_strict, (rule ok_intros | assumption | simp)+)

definition parse_ts18661_binary_float :: "ts18661_float_type parser" where
  "parse_ts18661_binary_float =
     p_then (p_lit ''_Float'') (
     p_seq parse_ts18661_binary_width (\<lambda>width.
     p_seq (p_opt (p_lit ''x'')) (\<lambda>extended.
       p_pure (ts18661_float True width (extended \<noteq> None)))))"

lemma ok_parse_ts18661_binary_float [ok_intros]:
  "ok True k parse_ts18661_binary_float"
  unfolding parse_ts18661_binary_float_def
  by (rule ok_strict, (rule ok_intros | assumption | simp)+)

definition parse_ts18661_decimal_float :: "ts18661_float_type parser" where
  "parse_ts18661_decimal_float =
     p_then (p_lit ''_Decimal'') (
     p_seq parse_ts18661_decimal_width (\<lambda>width.
     p_seq (p_opt (p_lit ''x'')) (\<lambda>extended.
       p_pure (ts18661_float False width (extended \<noteq> None)))))"

lemma ok_parse_ts18661_decimal_float [ok_intros]:
  "ok True k parse_ts18661_decimal_float"
  unfolding parse_ts18661_decimal_float_def
  by (rule ok_strict, (rule ok_intros | assumption | simp)+)

definition parse_ts18661_float_type_specifier :: "ts18661_float_type parser" where
  "parse_ts18661_float_type_specifier =
     p_choices [parse_ts18661_binary_float, parse_ts18661_decimal_float]"

lemma ok_parse_ts18661_float_type_specifier [ok_intros]:
  "ok True k parse_ts18661_float_type_specifier"
  unfolding parse_ts18661_float_type_specifier_def
  by (rule ok_strict, (rule ok_intros | assumption | simp)+)

definition parse_type_specifier_nonunique_5 :: "grammar \<Rightarrow> type_specifier parser" where
  "parse_type_specifier_nonunique_5 g =
     p_choices
       [p_then (p_and parse_gnu_guard) (
        p_then (p_keyword (p_lit ''__int128'')) (p_pure TypeSpecifier_Int128)),
        parse_typeof_specifier g]"

lemma ok_parse_type_specifier_nonunique_5 [ok_intros]:
  "good_grammar n g \<Longrightarrow> k \<le> Suc n \<Longrightarrow> ok True k (parse_type_specifier_nonunique_5 g)"
  unfolding parse_type_specifier_nonunique_5_def
  by (rule ok_strict, (rule ok_intros | assumption | simp)+)

definition parse_type_specifier_nonunique_4 :: "grammar \<Rightarrow> type_specifier parser" where
  "parse_type_specifier_nonunique_4 g =
     p_choices
       [p_then (p_keyword
                 (p_choices
                    [p_choices [p_lit ''_Complex'', p_lit ''complex''],
                     p_then (p_and parse_gnu_guard) (
                     p_then (p_lit ''__complex'') (p_maybe (p_lit ''__'')))])) (
          p_pure TypeSpecifier_Complex),
        p_seq (p_keyword parse_ts18661_float_type_specifier) (\<lambda>t.
          p_pure (TypeSpecifier_TS18661Float t)),
        parse_type_specifier_nonunique_5 g]"

lemma ok_parse_type_specifier_nonunique_4 [ok_intros]:
  "good_grammar n g \<Longrightarrow> k \<le> Suc n \<Longrightarrow> ok True k (parse_type_specifier_nonunique_4 g)"
  unfolding parse_type_specifier_nonunique_4_def
  by (rule ok_strict, (rule ok_intros | assumption | simp)+)

definition parse_type_specifier_nonunique_3 :: "grammar \<Rightarrow> type_specifier parser" where
  "parse_type_specifier_nonunique_3 g =
     p_choices
       [p_then (p_keyword
                 (p_choices
                    [p_lit ''signed'',
                     p_then (p_and parse_gnu_guard) (
                     p_then (p_lit ''__signed'') (p_maybe (p_lit ''__'')))])) (
          p_pure TypeSpecifier_Signed),
        p_then (p_keyword (p_lit ''unsigned'')) (p_pure TypeSpecifier_Unsigned),
        parse_type_specifier_nonunique_4 g]"

lemma ok_parse_type_specifier_nonunique_3 [ok_intros]:
  "good_grammar n g \<Longrightarrow> k \<le> Suc n \<Longrightarrow> ok True k (parse_type_specifier_nonunique_3 g)"
  unfolding parse_type_specifier_nonunique_3_def
  by (rule ok_strict, (rule ok_intros | assumption | simp)+)

definition parse_type_specifier_nonunique_2 :: "grammar \<Rightarrow> type_specifier parser" where
  "parse_type_specifier_nonunique_2 g =
     p_choices
       [p_then (p_keyword (p_lit ''long'')) (p_pure TypeSpecifier_Long),
        p_then (p_keyword (p_lit ''float'')) (p_pure TypeSpecifier_Float),
        p_then (p_keyword (p_lit ''double'')) (p_pure TypeSpecifier_Double),
        parse_type_specifier_nonunique_3 g]"

lemma ok_parse_type_specifier_nonunique_2 [ok_intros]:
  "good_grammar n g \<Longrightarrow> k \<le> Suc n \<Longrightarrow> ok True k (parse_type_specifier_nonunique_2 g)"
  unfolding parse_type_specifier_nonunique_2_def
  by (rule ok_strict, (rule ok_intros | assumption | simp)+)

definition parse_type_specifier_nonunique :: "grammar \<Rightarrow> type_specifier parser" where
  "parse_type_specifier_nonunique g =
     p_choices
       [p_then (p_keyword (p_lit ''char'')) (p_pure TypeSpecifier_Char),
        p_then (p_keyword (p_lit ''short'')) (p_pure TypeSpecifier_Short),
        p_then (p_keyword (p_lit ''int'')) (p_pure TypeSpecifier_Int),
        parse_type_specifier_nonunique_2 g]"

lemma ok_parse_type_specifier_nonunique [ok_intros]:
  "good_grammar n g \<Longrightarrow> k \<le> Suc n \<Longrightarrow> ok True k (parse_type_specifier_nonunique g)"
  unfolding parse_type_specifier_nonunique_def
  by (rule ok_strict, (rule ok_intros | assumption | simp)+)

definition parse_specifier_qualifier_nonunique_type0 ::
  "grammar \<Rightarrow> specifier_qualifier parser" where
  "parse_specifier_qualifier_nonunique_type0 g =
     p_seq (p_node (parse_type_specifier_nonunique g)) (\<lambda>s.
       p_pure (SpecifierQualifier_TypeSpecifier s))"

lemma ok_parse_specifier_qualifier_nonunique_type0 [ok_intros]:
  "good_grammar n g \<Longrightarrow> k \<le> Suc n \<Longrightarrow> ok True k (parse_specifier_qualifier_nonunique_type0 g)"
  unfolding parse_specifier_qualifier_nonunique_type0_def
  by (rule ok_strict, (rule ok_intros | assumption | simp)+)

definition parse_type_qualifier0_4 :: "type_qualifier parser" where
  "parse_type_qualifier0_4 =
     p_then (p_keyword (p_lit ''_Atomic'')) (
     p_then parse_ws (p_then (p_not (p_lit ''('')) (p_pure TypeQualifier_Atomic)))"

lemma ok_parse_type_qualifier0_4 [ok_intros]:
  "ok True k parse_type_qualifier0_4"
  unfolding parse_type_qualifier0_4_def
  by (rule ok_strict, (rule ok_intros | assumption | simp)+)

definition parse_type_qualifier0_3 :: "type_qualifier parser" where
  "parse_type_qualifier0_3 =
     p_choices
       [p_then (p_then (p_and parse_clang_guard) (p_keyword (p_lit ''_Null_unspecified''))) (
          p_pure TypeQualifier_NullUnspecified),
        p_then (p_then (p_and parse_clang_guard) (p_keyword (p_lit ''_Nullable''))) (
          p_pure TypeQualifier_Nullable),
        parse_type_qualifier0_4]"

lemma ok_parse_type_qualifier0_3 [ok_intros]:
  "ok True k parse_type_qualifier0_3"
  unfolding parse_type_qualifier0_3_def
  by (rule ok_strict, (rule ok_intros | assumption | simp)+)

definition parse_type_qualifier0_2 :: "type_qualifier parser" where
  "parse_type_qualifier0_2 =
     p_choices
       [p_then (p_keyword
                 (p_choices
                    [p_lit ''volatile'',
                     p_then (p_and parse_gnu_guard) (
                     p_then (p_lit ''__volatile'') (p_maybe (p_lit ''__'')))])) (
          p_pure TypeQualifier_Volatile),
        p_then (p_then (p_and parse_clang_guard) (p_keyword (p_lit ''_Nonnull''))) (
          p_pure TypeQualifier_Nonnull),
        parse_type_qualifier0_3]"

lemma ok_parse_type_qualifier0_2 [ok_intros]:
  "ok True k parse_type_qualifier0_2"
  unfolding parse_type_qualifier0_2_def
  by (rule ok_strict, (rule ok_intros | assumption | simp)+)

definition parse_type_qualifier0 :: "type_qualifier parser" where
  "parse_type_qualifier0 =
     p_choices
       [p_then (p_keyword
                 (p_choices
                    [p_lit ''const'',
                     p_then (p_and parse_gnu_guard) (p_lit ''__const'')])) (
          p_pure TypeQualifier_Const),
        p_then (p_keyword
                 (p_choices
                    [p_lit ''restrict'',
                     p_then (p_and parse_gnu_guard) (
                     p_then (p_lit ''__restrict'') (p_maybe (p_lit ''__'')))])) (
          p_pure TypeQualifier_Restrict),
        parse_type_qualifier0_2]"

lemma ok_parse_type_qualifier0 [ok_intros]:
  "ok True k parse_type_qualifier0"
  unfolding parse_type_qualifier0_def
  by (rule ok_strict, (rule ok_intros | assumption | simp)+)

definition parse_type_qualifier :: "type_qualifier node parser" where
  "parse_type_qualifier =
     p_node parse_type_qualifier0"

lemma ok_parse_type_qualifier [ok_intros]:
  "ok True k parse_type_qualifier"
  unfolding parse_type_qualifier_def
  by (rule ok_strict, (rule ok_intros | assumption | simp)+)

definition parse_specifier_qualifier_qualifier0 :: "grammar \<Rightarrow> specifier_qualifier parser" where
  "parse_specifier_qualifier_qualifier0 g =
     p_choices
       [p_seq parse_type_qualifier (\<lambda>q. p_pure (SpecifierQualifier_TypeQualifier q)),
        p_seq (p_then (p_and parse_gnu_guard) (parse_attribute_specifier g)) (\<lambda>e.
          p_pure (SpecifierQualifier_Extension e))]"

lemma ok_parse_specifier_qualifier_qualifier0 [ok_intros]:
  "good_grammar n g \<Longrightarrow> k \<le> Suc n \<Longrightarrow> ok True k (parse_specifier_qualifier_qualifier0 g)"
  unfolding parse_specifier_qualifier_qualifier0_def
  by (rule ok_strict, (rule ok_intros | assumption | simp)+)

definition parse_specifier_qualifiers_2 :: "grammar \<Rightarrow> specifier_qualifier node list parser" where
  "parse_specifier_qualifiers_2 g =
     p_seq (p_many_sep (p_node (parse_specifier_qualifier_qualifier0 g)) parse_ws) (\<lambda>left.
     p_then parse_ws (
     p_seq (p_node (parse_specifier_qualifier_nonunique_type0 g)) (\<lambda>single.
     p_then parse_ws (
     p_seq (p_many_sep
              (p_choices
                 [p_node (parse_specifier_qualifier_nonunique_type0 g),
                  p_node (parse_specifier_qualifier_qualifier0 g)])
              (parse_ws)) (\<lambda>right.
       p_pure (left @ [single] @ right))))))"

lemma ok_parse_specifier_qualifiers_2 [ok_intros]:
  "good_grammar n g \<Longrightarrow> k \<le> Suc n \<Longrightarrow> ok True k (parse_specifier_qualifiers_2 g)"
  unfolding parse_specifier_qualifiers_2_def
  by (rule ok_strict, (rule ok_intros | assumption | simp)+)

definition parse_specifier_qualifiers :: "grammar \<Rightarrow> specifier_qualifier node list parser" where
  "parse_specifier_qualifiers g =
     p_choices
       [p_seq (p_many_sep (p_node (parse_specifier_qualifier_qualifier0 g)) parse_ws) (\<lambda>left.
        p_then parse_ws (
        p_seq (p_node (parse_specifier_qualifier_unique_type0 g)) (\<lambda>single.
        p_then parse_ws (
        p_seq (p_many_sep (p_node (parse_specifier_qualifier_qualifier0 g)) parse_ws) (\<lambda>right.
          p_pure (left @ [single] @ right)))))),
        parse_specifier_qualifiers_2 g]"

lemma ok_parse_specifier_qualifiers [ok_intros]:
  "good_grammar n g \<Longrightarrow> k \<le> Suc n \<Longrightarrow> ok True k (parse_specifier_qualifiers g)"
  unfolding parse_specifier_qualifiers_def
  by (rule ok_strict, (rule ok_intros | assumption | simp)+)

definition parse_type_name0 :: "grammar \<Rightarrow> type_name parser" where
  "parse_type_name0 g =
     p_seq (parse_specifier_qualifiers g) (\<lambda>s.
     p_then parse_ws (p_seq (p_opt (g_abstract_declarator g)) (\<lambda>d. p_pure (TypeName s d))))"

lemma ok_parse_type_name0 [ok_intros]:
  "good_grammar n g \<Longrightarrow> k \<le> Suc n \<Longrightarrow> ok True k (parse_type_name0 g)"
  unfolding parse_type_name0_def
  by (rule ok_strict, (rule ok_intros | assumption | simp)+)

definition parse_type_name :: "grammar \<Rightarrow> type_name node parser" where
  "parse_type_name g =
     p_node (parse_type_name0 g)"

lemma ok_parse_type_name [ok_intros]:
  "good_grammar n g \<Longrightarrow> k \<le> Suc n \<Longrightarrow> ok True k (parse_type_name g)"
  unfolding parse_type_name_def
  by (rule ok_strict, (rule ok_intros | assumption | simp)+)

end
