(* ===== verification/Grammar_Expr.thy ===== *)
theory Grammar_Expr
  imports Grammar_Types
begin

text \<open>
  Expressions (\<open>primary_and_generic.rs\<close>, \<open>gnu_keyword_and_offsetof.rs\<close>, \<open>postfix_and_compound.rs\<close>,
  \<open>unary_sizeof_alignof.rs\<close>, \<open>casts_and_binary.rs\<close>, \<open>conditional_assignment_and_expression.rs\<close>), and the
  compound statement that a statement expression contains.
\<close>

definition parse_generic_association :: "grammar \<Rightarrow> generic_association parser" where
  "parse_generic_association g =
     p_choices
       [p_seq (parse_type_name g) (\<lambda>t.
        p_then parse_ws (
        p_then (p_lit '':'') (
        p_then parse_ws (
        p_seq (g_assignment_expression g) (\<lambda>e.
          p_pure
            (GenericAssociation_Type (Node (GenericAssociationType t e) (Span (span_start (node_span t)) (span_end
              (node_span e)))))))))),
        p_then (p_keyword (p_lit ''default'')) (
        p_then parse_ws (
        p_then (p_lit '':'') (
        p_then parse_ws (
        p_seq (g_assignment_expression g) (\<lambda>e. p_pure (GenericAssociation_Default e))))))]"

lemma ok_parse_generic_association [ok_intros]:
  "good_grammar n g \<Longrightarrow> k \<le> Suc n \<Longrightarrow> ok True k (parse_generic_association g)"
  unfolding parse_generic_association_def
  by (rule ok_strict, (rule ok_intros | assumption | simp)+)

definition parse_generic_selection :: "grammar \<Rightarrow> generic_selection parser" where
  "parse_generic_selection g =
     p_then (p_keyword (p_lit ''_Generic'')) (
     p_then parse_ws (
     p_then (p_lit ''('') (
     p_then parse_ws (
     p_seq (g_assignment_expression g) (\<lambda>e.
     p_then parse_ws (
     p_then (p_lit '','') (
     p_then parse_ws (
     p_seq (p_at_least 1
             (p_many_sep
                (p_node (parse_generic_association g))
                (p_then parse_ws (p_then (p_lit '','') parse_ws)))) (\<lambda>a.
     p_then parse_ws (p_then (p_lit '')'') (p_pure (GenericSelection e a))))))))))))"

lemma ok_parse_generic_selection [ok_intros]:
  "good_grammar n g \<Longrightarrow> k \<le> Suc n \<Longrightarrow> ok True k (parse_generic_selection g)"
  unfolding parse_generic_selection_def
  by (rule ok_strict, (rule ok_intros | assumption | simp)+)

definition parse_compound_statement :: "grammar \<Rightarrow> statement parser" where
  "parse_compound_statement g =
     p_then (p_lit ''{'') (
     p_then parse_ws (
     p_seq (p_many_sep (p_node (g_block_item g)) parse_ws) (\<lambda>b.
     p_then parse_ws (p_then (p_lit ''}'') (p_pure (Statement_Compound b))))))"

lemma ok_parse_compound_statement [ok_intros]:
  "good_grammar n g \<Longrightarrow> k \<le> Suc n \<Longrightarrow> ok True k (parse_compound_statement g)"
  unfolding parse_compound_statement_def
  by (rule ok_strict, (rule ok_intros | assumption | simp)+)

definition parse_statement_expression :: "grammar \<Rightarrow> expression parser" where
  "parse_statement_expression g =
     p_then (p_lit ''('') (
     p_then parse_ws (
     p_seq (p_scoped (p_node (parse_compound_statement g))) (\<lambda>s.
     p_then parse_ws (p_then (p_lit '')'') (p_pure (Expression_Statement s))))))"

lemma ok_parse_statement_expression [ok_intros]:
  "good_grammar n g \<Longrightarrow> k \<le> Suc n \<Longrightarrow> ok True k (parse_statement_expression g)"
  unfolding parse_statement_expression_def
  by (rule ok_strict, (rule ok_intros | assumption | simp)+)

definition parse_va_arg_expression_inner :: "grammar \<Rightarrow> va_arg_expression parser" where
  "parse_va_arg_expression_inner g =
     p_then (p_keyword (p_lit ''__builtin_va_arg'')) (
     p_then parse_ws (
     p_then (p_lit ''('') (
     p_then parse_ws (
     p_seq (g_assignment_expression g) (\<lambda>e.
     p_then parse_ws (
     p_then (p_lit '','') (
     p_then parse_ws (
     p_seq (parse_type_name g) (\<lambda>t.
     p_then parse_ws (p_then (p_lit '')'') (p_pure (VaArgExpression e t))))))))))))"

lemma ok_parse_va_arg_expression_inner [ok_intros]:
  "good_grammar n g \<Longrightarrow> k \<le> Suc n \<Longrightarrow> ok True k (parse_va_arg_expression_inner g)"
  unfolding parse_va_arg_expression_inner_def
  by (rule ok_strict, (rule ok_intros | assumption | simp)+)

definition parse_va_arg_expression :: "grammar \<Rightarrow> expression parser" where
  "parse_va_arg_expression g =
     p_seq (p_node (parse_va_arg_expression_inner g)) (\<lambda>n. p_pure (Expression_VaArg n))"

lemma ok_parse_va_arg_expression [ok_intros]:
  "good_grammar n g \<Longrightarrow> k \<le> Suc n \<Longrightarrow> ok True k (parse_va_arg_expression g)"
  unfolding parse_va_arg_expression_def
  by (rule ok_strict, (rule ok_intros | assumption | simp)+)

definition parse_keyword_expression0 :: "unit parser" where
  "parse_keyword_expression0 =
     p_choices
       [p_keyword (p_lit ''__func__''),
        p_keyword (p_lit ''__FUNCTION__''),
        p_keyword (p_lit ''__PRETTY_FUNCTION__'')]"

lemma ok_parse_keyword_expression0 [ok_intros]:
  "ok True k parse_keyword_expression0"
  unfolding parse_keyword_expression0_def
  by (rule ok_strict, (rule ok_intros | assumption | simp)+)

definition parse_keyword_expression :: "expression parser" where
  "parse_keyword_expression =
     p_seq (p_node (p_slice parse_keyword_expression0)) (\<lambda>k.
       p_pure (Expression_Identifier (Node (Identifier (node k)) (node_span k))))"

lemma ok_parse_keyword_expression [ok_intros]:
  "ok True k parse_keyword_expression"
  unfolding parse_keyword_expression_def
  by (rule ok_strict, (rule ok_intros | assumption | simp)+)

definition parse_offsetof_member :: "grammar \<Rightarrow> offset_member parser" where
  "parse_offsetof_member g =
     p_choices
       [p_then (p_lit ''.'') (
        p_then parse_ws (p_seq parse_identifier (\<lambda>i. p_pure (OffsetMember_Member i)))),
        p_then (p_lit ''->'') (
        p_then parse_ws (p_seq parse_identifier (\<lambda>i. p_pure (OffsetMember_IndirectMember i)))),
        p_then (p_lit ''['') (
        p_then parse_ws (
        p_seq (p_node (g_expression0 g)) (\<lambda>e.
        p_then parse_ws (p_then (p_lit '']'') (p_pure (OffsetMember_Index e))))))]"

lemma ok_parse_offsetof_member [ok_intros]:
  "good_grammar n g \<Longrightarrow> k \<le> Suc n \<Longrightarrow> ok True k (parse_offsetof_member g)"
  unfolding parse_offsetof_member_def
  by (rule ok_strict, (rule ok_intros | assumption | simp)+)

definition parse_offsetof_designator :: "grammar \<Rightarrow> offset_designator parser" where
  "parse_offsetof_designator g =
     p_seq parse_identifier (\<lambda>i.
     p_then parse_ws (
     p_seq (p_many_sep (p_node (parse_offsetof_member g)) parse_ws) (\<lambda>d.
       p_pure (OffsetDesignator i d))))"

lemma ok_parse_offsetof_designator [ok_intros]:
  "good_grammar n g \<Longrightarrow> k \<le> Suc n \<Longrightarrow> ok True k (parse_offsetof_designator g)"
  unfolding parse_offsetof_designator_def
  by (rule ok_strict, (rule ok_intros | assumption | simp)+)

definition parse_offsetof_expression_inner :: "grammar \<Rightarrow> offset_of_expression parser" where
  "parse_offsetof_expression_inner g =
     p_then (p_keyword (p_lit ''__builtin_offsetof'')) (
     p_then parse_ws (
     p_then (p_lit ''('') (
     p_then parse_ws (
     p_seq (parse_type_name g) (\<lambda>t.
     p_then parse_ws (
     p_then (p_lit '','') (
     p_then parse_ws (
     p_seq (p_node (parse_offsetof_designator g)) (\<lambda>d.
     p_then parse_ws (p_then (p_lit '')'') (p_pure (OffsetOfExpression t d))))))))))))"

lemma ok_parse_offsetof_expression_inner [ok_intros]:
  "good_grammar n g \<Longrightarrow> k \<le> Suc n \<Longrightarrow> ok True k (parse_offsetof_expression_inner g)"
  unfolding parse_offsetof_expression_inner_def
  by (rule ok_strict, (rule ok_intros | assumption | simp)+)

definition parse_offsetof_expression :: "grammar \<Rightarrow> expression parser" where
  "parse_offsetof_expression g =
     p_seq (p_node (parse_offsetof_expression_inner g)) (\<lambda>n. p_pure (Expression_OffsetOf n))"

lemma ok_parse_offsetof_expression [ok_intros]:
  "good_grammar n g \<Longrightarrow> k \<le> Suc n \<Longrightarrow> ok True k (parse_offsetof_expression g)"
  unfolding parse_offsetof_expression_def
  by (rule ok_strict, (rule ok_intros | assumption | simp)+)

definition parse_gnu_primary_expression :: "grammar \<Rightarrow> expression parser" where
  "parse_gnu_primary_expression g =
     p_choices
       [parse_statement_expression g,
        parse_offsetof_expression g,
        parse_va_arg_expression g,
        parse_keyword_expression]"

lemma ok_parse_gnu_primary_expression [ok_intros]:
  "good_grammar n g \<Longrightarrow> k \<le> Suc n \<Longrightarrow> ok True k (parse_gnu_primary_expression g)"
  unfolding parse_gnu_primary_expression_def
  by (rule ok_strict, (rule ok_intros | assumption | simp)+)

definition parse_primary_expression0_2 :: "grammar \<Rightarrow> expression parser" where
  "parse_primary_expression0_2 g =
     p_choices
       [p_seq parse_identifier (\<lambda>a. p_pure (Expression_Identifier a)),
        p_then (p_lit ''('') (
        p_then parse_ws (
        p_seq (g_expression0 g) (\<lambda>a. p_then parse_ws (p_then (p_lit '')'') (p_pure a))))),
        p_seq (p_node (parse_generic_selection g)) (\<lambda>a. p_pure (Expression_GenericSelection a)),
        p_then (p_and parse_gnu_guard) (parse_gnu_primary_expression g)]"

lemma ok_parse_primary_expression0_2 [ok_intros]:
  "good_grammar n g \<Longrightarrow> k \<le> Suc n \<Longrightarrow> ok True k (parse_primary_expression0_2 g)"
  unfolding parse_primary_expression0_2_def
  by (rule ok_strict, (rule ok_intros | assumption | simp)+)

definition parse_primary_expression0 :: "grammar \<Rightarrow> expression parser" where
  "parse_primary_expression0 g =
     p_choices
       [p_seq parse_string_literal (\<lambda>a. p_pure (Expression_StringLiteral a)),
        p_seq (p_node parse_constant) (\<lambda>a. p_pure (Expression_Constant a)),
        p_then (p_keyword (p_lit ''true'')) (
          p_pure
            (Expression_Constant (Node (Constant_Integer (Integer IntegerBase_Decimal ''1''
              (IntegerSuffix IntegerSize_Int False False))) span_none))),
        p_then (p_keyword (p_choices [p_lit ''false'', p_lit ''nullptr''])) (
          p_pure
            (Expression_Constant (Node (Constant_Integer (Integer IntegerBase_Decimal ''0''
              (IntegerSuffix IntegerSize_Int False False))) span_none))),
        parse_primary_expression0_2 g]"

lemma ok_parse_primary_expression0 [ok_intros]:
  "good_grammar n g \<Longrightarrow> k \<le> Suc n \<Longrightarrow> ok True k (parse_primary_expression0 g)"
  unfolding parse_primary_expression0_def
  by (rule ok_strict, (rule ok_intros | assumption | simp)+)

definition parse_compound_literal_inner :: "grammar \<Rightarrow> compound_literal parser" where
  "parse_compound_literal_inner g =
     p_then (p_lit ''('') (
     p_then parse_ws (
     p_seq (parse_type_name g) (\<lambda>t.
     p_then parse_ws (
     p_then (p_lit '')'') (
     p_then parse_ws (
     p_then (p_lit ''{'') (
     p_then parse_ws (
     p_seq (p_at_least 1
             (p_many_sep
                (p_node (g_initializer_list_item g))
                (p_then parse_ws (p_then (p_lit '','') parse_ws)))) (\<lambda>i.
     p_then parse_ws (
     p_then (p_maybe (p_lit '','')) (
     p_then parse_ws (p_then (p_lit ''}'') (p_pure (CompoundLiteral t i))))))))))))))"

lemma ok_parse_compound_literal_inner [ok_intros]:
  "good_grammar n g \<Longrightarrow> k \<le> Suc n \<Longrightarrow> ok True k (parse_compound_literal_inner g)"
  unfolding parse_compound_literal_inner_def
  by (rule ok_strict, (rule ok_intros | assumption | simp)+)

definition parse_compound_literal :: "grammar \<Rightarrow> expression parser" where
  "parse_compound_literal g =
     p_seq (p_node (parse_compound_literal_inner g)) (\<lambda>n. p_pure (Expression_CompoundLiteral n))"

lemma ok_parse_compound_literal [ok_intros]:
  "good_grammar n g \<Longrightarrow> k \<le> Suc n \<Longrightarrow> ok True k (parse_compound_literal g)"
  unfolding parse_compound_literal_def
  by (rule ok_strict, (rule ok_intros | assumption | simp)+)

definition parse_postfix_expression1 :: "grammar \<Rightarrow> expression parser" where
  "parse_postfix_expression1 g =
     p_choices [parse_compound_literal g, parse_primary_expression0 g]"

lemma ok_parse_postfix_expression1 [ok_intros]:
  "good_grammar n g \<Longrightarrow> k \<le> Suc n \<Longrightarrow> ok True k (parse_postfix_expression1 g)"
  unfolding parse_postfix_expression1_def
  by (rule ok_strict, (rule ok_intros | assumption | simp)+)

definition parse_index_operator0 :: "grammar \<Rightarrow> expression node parser" where
  "parse_index_operator0 g =
     p_then (p_lit ''['') (
     p_then parse_ws (
     p_seq (p_node (g_expression0 g)) (\<lambda>e. p_then parse_ws (p_then (p_lit '']'') (p_pure e)))))"

lemma ok_parse_index_operator0 [ok_intros]:
  "good_grammar n g \<Longrightarrow> k \<le> Suc n \<Longrightarrow> ok True k (parse_index_operator0 g)"
  unfolding parse_index_operator0_def
  by (rule ok_strict, (rule ok_intros | assumption | simp)+)

definition parse_index_operator :: "grammar \<Rightarrow> operation parser" where
  "parse_index_operator g =
     p_seq (p_node (parse_index_operator0 g)) (\<lambda>i.
       p_pure (Operation_Binary (Node BinaryOperator_Index (node_span i)) (node i)))"

lemma ok_parse_index_operator [ok_intros]:
  "good_grammar n g \<Longrightarrow> k \<le> Suc n \<Longrightarrow> ok True k (parse_index_operator g)"
  unfolding parse_index_operator_def
  by (rule ok_strict, (rule ok_intros | assumption | simp)+)

definition parse_member_operator :: "member_operator parser" where
  "parse_member_operator =
     p_choices
       [p_then (p_lit ''.'') (p_pure MemberOperator_Direct),
        p_then (p_lit ''->'') (p_pure MemberOperator_Indirect)]"

lemma ok_parse_member_operator [ok_intros]:
  "ok True k parse_member_operator"
  unfolding parse_member_operator_def
  by (rule ok_strict, (rule ok_intros | assumption | simp)+)

definition parse_postfix_operator :: "unary_operator parser" where
  "parse_postfix_operator =
     p_choices
       [p_then (p_lit ''++'') (p_pure UnaryOperator_PostIncrement),
        p_then (p_lit ''--'') (p_pure UnaryOperator_PostDecrement)]"

lemma ok_parse_postfix_operator [ok_intros]:
  "ok True k parse_postfix_operator"
  unfolding parse_postfix_operator_def
  by (rule ok_strict, (rule ok_intros | assumption | simp)+)

definition parse_postfix_expressionT_2 :: "grammar \<Rightarrow> operation parser" where
  "parse_postfix_expressionT_2 g =
     p_seq (p_node parse_postfix_operator) (\<lambda>opr. p_pure (Operation_Unary opr))"

lemma ok_parse_postfix_expressionT_2 [ok_intros]:
  "good_grammar n g \<Longrightarrow> k \<le> Suc n \<Longrightarrow> ok True k (parse_postfix_expressionT_2 g)"
  unfolding parse_postfix_expressionT_2_def
  by (rule ok_strict, (rule ok_intros | assumption | simp)+)

definition parse_postfix_expressionT :: "grammar \<Rightarrow> operation parser" where
  "parse_postfix_expressionT g =
     p_choices
       [parse_index_operator g,
        p_then (p_lit ''('') (
        p_then parse_ws (
        p_seq (p_many_sep
                 (p_node (g_assignment_expression0 g))
                 (p_then parse_ws (p_then (p_lit '','') parse_ws))) (\<lambda>e.
        p_then parse_ws (p_then (p_lit '')'') (p_pure (Operation_Call e)))))),
        p_seq (p_node parse_member_operator) (\<lambda>opr.
        p_then parse_ws (p_seq parse_identifier (\<lambda>i. p_pure (Operation_Member opr i)))),
        parse_postfix_expressionT_2 g]"

lemma ok_parse_postfix_expressionT [ok_intros]:
  "good_grammar n g \<Longrightarrow> k \<le> Suc n \<Longrightarrow> ok True k (parse_postfix_expressionT g)"
  unfolding parse_postfix_expressionT_def
  by (rule ok_strict, (rule ok_intros | assumption | simp)+)

definition parse_postfix_expression0 :: "grammar \<Rightarrow> expression parser" where
  "parse_postfix_expression0 g =
     p_memo
      (p_seq (p_node (parse_postfix_expression1 g)) (\<lambda>e.
       p_then parse_ws (
       p_seq (p_many_sep (p_node (parse_postfix_expressionT g)) parse_ws) (\<lambda>t.
         p_pure (node (apply_ops t e))))))"

lemma ok_parse_postfix_expression0 [ok_intros]:
  "good_grammar n g \<Longrightarrow> k \<le> Suc n \<Longrightarrow> ok True k (parse_postfix_expression0 g)"
  unfolding parse_postfix_expression0_def
  by (rule ok_strict, (rule ok_intros | assumption | simp)+)

definition parse_prefix_operator :: "unary_operator parser" where
  "parse_prefix_operator =
     p_choices
       [p_then (p_lit ''++'') (p_pure UnaryOperator_PreIncrement),
        p_then (p_lit ''--'') (p_pure UnaryOperator_PreDecrement)]"

lemma ok_parse_prefix_operator [ok_intros]:
  "ok True k parse_prefix_operator"
  unfolding parse_prefix_operator_def
  by (rule ok_strict, (rule ok_intros | assumption | simp)+)

definition parse_unary_prefix_inner :: "grammar \<Rightarrow> unary_operator_expression parser" where
  "parse_unary_prefix_inner g =
     p_seq (p_node parse_prefix_operator) (\<lambda>op.
     p_then parse_ws (p_seq (g_unary_expression g) (\<lambda>e. p_pure (UnaryOperatorExpression op e))))"

lemma ok_parse_unary_prefix_inner [ok_intros]:
  "good_grammar n g \<Longrightarrow> k \<le> Suc n \<Longrightarrow> ok True k (parse_unary_prefix_inner g)"
  unfolding parse_unary_prefix_inner_def
  by (rule ok_strict, (rule ok_intros | assumption | simp)+)

definition parse_unary_prefix :: "grammar \<Rightarrow> expression parser" where
  "parse_unary_prefix g =
     p_seq (p_node (parse_unary_prefix_inner g)) (\<lambda>n. p_pure (Expression_UnaryOperator n))"

lemma ok_parse_unary_prefix [ok_intros]:
  "good_grammar n g \<Longrightarrow> k \<le> Suc n \<Longrightarrow> ok True k (parse_unary_prefix g)"
  unfolding parse_unary_prefix_def
  by (rule ok_strict, (rule ok_intros | assumption | simp)+)

definition parse_unary_operator :: "unary_operator parser" where
  "parse_unary_operator =
     p_choices
       [p_then (p_lit ''&'') (p_then (p_not (p_lit ''&'')) (p_pure UnaryOperator_Address)),
        p_then (p_lit ''*'') (p_pure UnaryOperator_Indirection),
        p_then (p_lit ''+'') (p_pure UnaryOperator_Plus),
        p_then (p_lit ''-'') (p_pure UnaryOperator_Minus),
        p_then (p_lit ''~'') (p_pure UnaryOperator_Complement),
        p_then (p_lit ''!'') (p_pure UnaryOperator_Negate)]"

lemma ok_parse_unary_operator [ok_intros]:
  "ok True k parse_unary_operator"
  unfolding parse_unary_operator_def
  by (rule ok_strict, (rule ok_intros | assumption | simp)+)

definition parse_unary_cast_inner :: "grammar \<Rightarrow> unary_operator_expression parser" where
  "parse_unary_cast_inner g =
     p_seq (p_node parse_unary_operator) (\<lambda>op.
     p_then parse_ws (p_seq (g_cast_expression g) (\<lambda>e. p_pure (UnaryOperatorExpression op e))))"

lemma ok_parse_unary_cast_inner [ok_intros]:
  "good_grammar n g \<Longrightarrow> k \<le> Suc n \<Longrightarrow> ok True k (parse_unary_cast_inner g)"
  unfolding parse_unary_cast_inner_def
  by (rule ok_strict, (rule ok_intros | assumption | simp)+)

definition parse_unary_cast :: "grammar \<Rightarrow> expression parser" where
  "parse_unary_cast g =
     p_seq (p_node (parse_unary_cast_inner g)) (\<lambda>n. p_pure (Expression_UnaryOperator n))"

lemma ok_parse_unary_cast [ok_intros]:
  "good_grammar n g \<Longrightarrow> k \<le> Suc n \<Longrightarrow> ok True k (parse_unary_cast g)"
  unfolding parse_unary_cast_def
  by (rule ok_strict, (rule ok_intros | assumption | simp)+)

definition parse_sizeof_ty_expression0 :: "grammar \<Rightarrow> size_of_ty parser" where
  "parse_sizeof_ty_expression0 g =
     p_then (p_keyword (p_lit ''sizeof'')) (
     p_then parse_ws (
     p_then (p_lit ''('') (
     p_then parse_ws (
     p_seq (parse_type_name g) (\<lambda>t.
     p_then parse_ws (p_then (p_lit '')'') (p_pure (SizeOfTy t))))))))"

lemma ok_parse_sizeof_ty_expression0 [ok_intros]:
  "good_grammar n g \<Longrightarrow> k \<le> Suc n \<Longrightarrow> ok True k (parse_sizeof_ty_expression0 g)"
  unfolding parse_sizeof_ty_expression0_def
  by (rule ok_strict, (rule ok_intros | assumption | simp)+)

definition parse_sizeof_ty_expression :: "grammar \<Rightarrow> size_of_ty node parser" where
  "parse_sizeof_ty_expression g =
     p_seq (p_node (parse_sizeof_ty_expression0 g)) (\<lambda>e. p_pure e)"

lemma ok_parse_sizeof_ty_expression [ok_intros]:
  "good_grammar n g \<Longrightarrow> k \<le> Suc n \<Longrightarrow> ok True k (parse_sizeof_ty_expression g)"
  unfolding parse_sizeof_ty_expression_def
  by (rule ok_strict, (rule ok_intros | assumption | simp)+)

definition parse_sizeof_val_expression0 :: "grammar \<Rightarrow> size_of_val parser" where
  "parse_sizeof_val_expression0 g =
     p_then (p_keyword (p_lit ''sizeof'')) (
     p_then parse_ws (p_seq (g_unary_expression g) (\<lambda>e. p_pure (SizeOfVal e))))"

lemma ok_parse_sizeof_val_expression0 [ok_intros]:
  "good_grammar n g \<Longrightarrow> k \<le> Suc n \<Longrightarrow> ok True k (parse_sizeof_val_expression0 g)"
  unfolding parse_sizeof_val_expression0_def
  by (rule ok_strict, (rule ok_intros | assumption | simp)+)

definition parse_sizeof_val_expression :: "grammar \<Rightarrow> size_of_val node parser" where
  "parse_sizeof_val_expression g =
     p_seq (p_node (parse_sizeof_val_expression0 g)) (\<lambda>e. p_pure e)"

lemma ok_parse_sizeof_val_expression [ok_intros]:
  "good_grammar n g \<Longrightarrow> k \<le> Suc n \<Longrightarrow> ok True k (parse_sizeof_val_expression g)"
  unfolding parse_sizeof_val_expression_def
  by (rule ok_strict, (rule ok_intros | assumption | simp)+)

definition parse_sizeof_expression :: "grammar \<Rightarrow> expression parser" where
  "parse_sizeof_expression g =
     p_choices
       [p_seq (parse_sizeof_ty_expression g) (\<lambda>n. p_pure (Expression_SizeOfTy n)),
        p_seq (parse_sizeof_val_expression g) (\<lambda>n. p_pure (Expression_SizeOfVal n))]"

lemma ok_parse_sizeof_expression [ok_intros]:
  "good_grammar n g \<Longrightarrow> k \<le> Suc n \<Longrightarrow> ok True k (parse_sizeof_expression g)"
  unfolding parse_sizeof_expression_def
  by (rule ok_strict, (rule ok_intros | assumption | simp)+)

definition parse_alignof0 :: "grammar \<Rightarrow> align_of parser" where
  "parse_alignof0 g =
     p_then (p_keyword
              (p_choices
                 [p_lit ''_Alignof'',
                  p_lit ''alignof'',
                  p_then (p_and parse_gnu_guard) (
                  p_then (p_lit ''__alignof'') (p_maybe (p_lit ''__'')))])) (
     p_then parse_ws (
     p_then (p_lit ''('') (
     p_then parse_ws (
     p_seq (parse_type_name g) (\<lambda>t.
     p_then parse_ws (p_then (p_lit '')'') (p_pure (AlignOf t))))))))"

lemma ok_parse_alignof0 [ok_intros]:
  "good_grammar n g \<Longrightarrow> k \<le> Suc n \<Longrightarrow> ok True k (parse_alignof0 g)"
  unfolding parse_alignof0_def
  by (rule ok_strict, (rule ok_intros | assumption | simp)+)

definition parse_alignof :: "grammar \<Rightarrow> align_of node parser" where
  "parse_alignof g =
     p_seq (p_node (parse_alignof0 g)) (\<lambda>e. p_pure e)"

lemma ok_parse_alignof [ok_intros]:
  "good_grammar n g \<Longrightarrow> k \<le> Suc n \<Longrightarrow> ok True k (parse_alignof g)"
  unfolding parse_alignof_def
  by (rule ok_strict, (rule ok_intros | assumption | simp)+)

definition parse_alignof_expression :: "grammar \<Rightarrow> expression parser" where
  "parse_alignof_expression g =
     p_seq (parse_alignof g) (\<lambda>e. p_pure (Expression_AlignOf e))"

lemma ok_parse_alignof_expression [ok_intros]:
  "good_grammar n g \<Longrightarrow> k \<le> Suc n \<Longrightarrow> ok True k (parse_alignof_expression g)"
  unfolding parse_alignof_expression_def
  by (rule ok_strict, (rule ok_intros | assumption | simp)+)

definition parse_unary_expression0 :: "grammar \<Rightarrow> expression parser" where
  "parse_unary_expression0 g =
     p_choices
       [parse_postfix_expression0 g,
        parse_unary_prefix g,
        parse_unary_cast g,
        parse_sizeof_expression g,
        parse_alignof_expression g,
        p_then (p_then (p_and parse_gnu_guard) (p_keyword (p_lit ''__extension__''))) (
        p_then parse_ws (g_unary_expression0 g))]"

lemma ok_parse_unary_expression0 [ok_intros]:
  "good_grammar n g \<Longrightarrow> k \<le> Suc n \<Longrightarrow> ok True k (parse_unary_expression0 g)"
  unfolding parse_unary_expression0_def
  by (rule ok_strict, (rule ok_intros | assumption | simp)+)

definition parse_cast_expression_inner :: "grammar \<Rightarrow> cast_expression parser" where
  "parse_cast_expression_inner g =
     p_then (p_lit ''('') (
     p_then parse_ws (
     p_seq (parse_type_name g) (\<lambda>t.
     p_then parse_ws (
     p_then (p_lit '')'') (
     p_then parse_ws (p_seq (g_cast_expression g) (\<lambda>e. p_pure (CastExpression t e))))))))"

lemma ok_parse_cast_expression_inner [ok_intros]:
  "good_grammar n g \<Longrightarrow> k \<le> Suc n \<Longrightarrow> ok True k (parse_cast_expression_inner g)"
  unfolding parse_cast_expression_inner_def
  by (rule ok_strict, (rule ok_intros | assumption | simp)+)

definition parse_cast_expression0 :: "grammar \<Rightarrow> expression parser" where
  "parse_cast_expression0 g =
     p_choices
       [p_seq (p_node (parse_cast_expression_inner g)) (\<lambda>c. p_pure (Expression_Cast c)),
        parse_unary_expression0 g]"

lemma ok_parse_cast_expression0 [ok_intros]:
  "good_grammar n g \<Longrightarrow> k \<le> Suc n \<Longrightarrow> ok True k (parse_cast_expression0 g)"
  unfolding parse_cast_expression0_def
  by (rule ok_strict, (rule ok_intros | assumption | simp)+)

definition parse_binary_operand :: "grammar \<Rightarrow> expression node parser" where
  "parse_binary_operand g =
     p_node (parse_cast_expression0 g)"

lemma ok_parse_binary_operand [ok_intros]:
  "good_grammar n g \<Longrightarrow> k \<le> Suc n \<Longrightarrow> ok True k (parse_binary_operand g)"
  unfolding parse_binary_operand_def
  by (rule ok_strict, (rule ok_intros | assumption | simp)+)

text \<open>
  Binary operators by precedence climbing (\<open>__infix_parse\<close>): the levels of the operators, loosest
  first, each with its operators in the order in which they are tried.
\<close>

definition binary_level_0 :: "(unit parser \<times> binary_operator) list" where
  "binary_level_0 =
     [(p_lit ''||'', BinaryOperator_LogicalOr)]"

definition binary_level_1 :: "(unit parser \<times> binary_operator) list" where
  "binary_level_1 =
     [(p_lit ''&&'', BinaryOperator_LogicalAnd)]"

definition binary_level_2 :: "(unit parser \<times> binary_operator) list" where
  "binary_level_2 =
     [(p_lit ''|'', BinaryOperator_BitwiseOr)]"

definition binary_level_3 :: "(unit parser \<times> binary_operator) list" where
  "binary_level_3 =
     [(p_lit ''^'', BinaryOperator_BitwiseXor)]"

definition binary_level_4 :: "(unit parser \<times> binary_operator) list" where
  "binary_level_4 =
     [(p_then (p_lit ''&'') (p_not (p_lit ''&'')), BinaryOperator_BitwiseAnd)]"

definition binary_level_5 :: "(unit parser \<times> binary_operator) list" where
  "binary_level_5 =
     [(p_lit ''=='', BinaryOperator_Equals),
      (p_lit ''!='', BinaryOperator_NotEquals)]"

definition binary_level_6 :: "(unit parser \<times> binary_operator) list" where
  "binary_level_6 =
     [(p_lit ''<'', BinaryOperator_Less),
      (p_lit ''>'', BinaryOperator_Greater),
      (p_lit ''<='', BinaryOperator_LessOrEqual),
      (p_lit ''>='', BinaryOperator_GreaterOrEqual)]"

definition binary_level_7 :: "(unit parser \<times> binary_operator) list" where
  "binary_level_7 =
     [(p_lit ''<<'', BinaryOperator_ShiftLeft),
      (p_lit ''>>'', BinaryOperator_ShiftRight)]"

definition binary_level_8 :: "(unit parser \<times> binary_operator) list" where
  "binary_level_8 =
     [(p_lit ''+'', BinaryOperator_Plus),
      (p_lit ''-'', BinaryOperator_Minus)]"

definition binary_level_9 :: "(unit parser \<times> binary_operator) list" where
  "binary_level_9 =
     [(p_lit ''*'', BinaryOperator_Multiply),
      (p_lit ''/'', BinaryOperator_Divide),
      (p_lit ''%'', BinaryOperator_Modulo)]"

definition binary_levels :: "(nat \<times> (unit parser \<times> binary_operator) list) list" where
  "binary_levels =
     [(0, binary_level_0), (1, binary_level_1), (2, binary_level_2), (3, binary_level_3),
      (4, binary_level_4), (5, binary_level_5), (6, binary_level_6), (7, binary_level_7),
      (8, binary_level_8), (9, binary_level_9)]"

definition infix_operator :: "unit parser \<Rightarrow> unit node parser" where
  "infix_operator p = p_then parse_ws (p_seq (p_node p) (\<lambda>n. p_then parse_ws (p_pure n)))"

text \<open>
  One turn of the loop tries the operators whose level is at least \<open>m\<close>; \<open>operand level\<close> reads the right
  operand of an operator, at the level above, so that operators of one level associate to the left.
\<close>

definition infix_turn ::
  "(nat \<Rightarrow> expression node parser) \<Rightarrow> nat \<Rightarrow> expression node \<Rightarrow> expression node parser" where
  "infix_turn operand m x =
     p_choices (concat (map (\<lambda>(level, ops).
       if m \<le> level then
         map (\<lambda>(p, bop).
           p_seq (infix_operator p) (\<lambda>opr.
           p_seq (operand level) (\<lambda>y.
           p_pure (infix_op opr bop x y)))) ops
       else []) binary_levels))"

function infix_parse :: "grammar \<Rightarrow> nat \<Rightarrow> expression node parser" where
  "infix_parse g m =
     p_seq (parse_binary_operand g)
       (p_loop (infix_turn (\<lambda>level.
          if m \<le> level \<and> level < 10 then infix_parse g (Suc level) else p_fail) m))"
  by pat_completeness auto

termination
  by (relation "measure (\<lambda>(g, m). 10 - m)") auto

declare infix_parse.simps [simp del]

definition parse_binary_expression0 :: "grammar \<Rightarrow> expression node parser" where
  "parse_binary_expression0 g = infix_parse g 0"

lemma ok_infix_operator: "ok True k p \<Longrightarrow> ok True k (infix_operator p)"
  unfolding infix_operator_def by (rule ok_strict, (rule ok_intros | assumption | simp)+)

lemma ok_binary_levels: "(level, ops) \<in> set binary_levels \<Longrightarrow> (p, bop) \<in> set ops \<Longrightarrow> ok True k p"
  by (auto simp: binary_levels_def binary_level_0_def binary_level_1_def binary_level_2_def
    binary_level_3_def binary_level_4_def binary_level_5_def binary_level_6_def binary_level_7_def
    binary_level_8_def binary_level_9_def intro!: ok_lit)
    (rule ok_strict, (rule ok_intros | simp)+)

lemma ok_infix_turn:
  assumes "\<And>level. ok True (left_after True k) (operand level)"
  shows "ok True k (infix_turn operand m x)"
  unfolding infix_turn_def
proof (rule ok_choices_list)
  have step: "ok True k (p_seq (infix_operator p) (\<lambda>opr. p_seq (operand level) (\<lambda>y.
      p_pure (infix_op opr bop x y))))"
    if "(level, ops) \<in> set binary_levels" "(p, bop) \<in> set ops" for level ops p bop
    by (rule ok_strict [OF ok_seq [OF ok_infix_operator [OF ok_binary_levels [OF that]]
          ok_seq_same [OF assms ok_pure]]]) simp
  fix q
  assume "q \<in> set (concat (map (\<lambda>(level, ops).
       if m \<le> level then
         map (\<lambda>(p, bop).
           p_seq (infix_operator p) (\<lambda>opr.
           p_seq (operand level) (\<lambda>y.
           p_pure (infix_op opr bop x y)))) ops
       else []) binary_levels))"
  then show "ok True k q"
    by (auto split: if_splits intro: step)
qed

lemma ok_infix_parse: "good_grammar n g \<Longrightarrow> k \<le> Suc n \<Longrightarrow> ok True k (infix_parse g m)"
proof (induction "10 - m" arbitrary: m k rule: less_induct)
  case less
  have operand: "ok True j (if m \<le> level \<and> level < 10 then infix_parse g (Suc level) else p_fail)"
    if "j \<le> Suc n" for j level
    using less.hyps [of "Suc level" j] less.prems(1) that by (auto intro: ok_fail)
  have "ok False (left_after True k)
      (p_loop (infix_turn (\<lambda>level.
          if m \<le> level \<and> level < 10 then infix_parse g (Suc level) else p_fail) m) x)" for x
    by (intro ok_loop ok_infix_turn operand) (use less.prems(2) in simp)
  then show ?case
    unfolding infix_parse.simps [of g m]
    by (rule ok_strict [OF ok_seq [OF ok_parse_binary_operand [OF less.prems]]]) simp
qed

lemma ok_parse_binary_expression0 [ok_intros]:
  "good_grammar n g \<Longrightarrow> k \<le> Suc n \<Longrightarrow> ok True k (parse_binary_expression0 g)"
  unfolding parse_binary_expression0_def by (rule ok_infix_parse)

definition parse_conditional_expressionT ::
  "grammar \<Rightarrow> (expression node \<times> expression node) parser" where
  "parse_conditional_expressionT g =
     p_then (p_lit ''?'') (
     p_then parse_ws (
     p_seq (p_node (g_expression0 g)) (\<lambda>a.
     p_then parse_ws (
     p_then (p_lit '':'') (
     p_then parse_ws (p_seq (p_node (g_conditional_expression0 g)) (\<lambda>b. p_pure (a, b))))))))"

lemma ok_parse_conditional_expressionT [ok_intros]:
  "good_grammar n g \<Longrightarrow> k \<le> Suc n \<Longrightarrow> ok True k (parse_conditional_expressionT g)"
  unfolding parse_conditional_expressionT_def
  by (rule ok_strict, (rule ok_intros | assumption | simp)+)

definition parse_conditional_expression0 :: "grammar \<Rightarrow> expression parser" where
  "parse_conditional_expression0 g =
     p_seq (parse_binary_expression0 g) (\<lambda>a.
     p_then parse_ws (
     p_seq (p_opt (parse_conditional_expressionT g)) (\<lambda>t.
       p_pure
         (case t of
            Some (b, c) \<Rightarrow>
              Expression_Conditional (Node (ConditionalExpression a b c) (Span (span_start (node_span a)) (span_end (node_span c))))
          | None \<Rightarrow> node a))))"

lemma ok_parse_conditional_expression0 [ok_intros]:
  "good_grammar n g \<Longrightarrow> k \<le> Suc n \<Longrightarrow> ok True k (parse_conditional_expression0 g)"
  unfolding parse_conditional_expression0_def
  by (rule ok_strict, (rule ok_intros | assumption | simp)+)

definition parse_unary_expression :: "grammar \<Rightarrow> expression node parser" where
  "parse_unary_expression g =
     p_seq (p_node (parse_unary_expression0 g)) (\<lambda>e. p_pure e)"

lemma ok_parse_unary_expression [ok_intros]:
  "good_grammar n g \<Longrightarrow> k \<le> Suc n \<Longrightarrow> ok True k (parse_unary_expression g)"
  unfolding parse_unary_expression_def
  by (rule ok_strict, (rule ok_intros | assumption | simp)+)

definition parse_assignment_operator :: "binary_operator parser" where
  "parse_assignment_operator =
     p_choices
       [p_then (p_lit ''='') (p_pure BinaryOperator_Assign),
        p_then (p_lit ''*='') (p_pure BinaryOperator_AssignMultiply),
        p_then (p_lit ''/='') (p_pure BinaryOperator_AssignDivide),
        p_then (p_lit ''%='') (p_pure BinaryOperator_AssignModulo),
        p_then (p_lit ''+='') (p_pure BinaryOperator_AssignPlus),
        p_then (p_lit ''-='') (p_pure BinaryOperator_AssignMinus),
        p_then (p_lit ''<<='') (p_pure BinaryOperator_AssignShiftLeft),
        p_then (p_lit ''>>='') (p_pure BinaryOperator_AssignShiftRight),
        p_then (p_lit ''&='') (p_pure BinaryOperator_AssignBitwiseAnd),
        p_then (p_lit ''^='') (p_pure BinaryOperator_AssignBitwiseXor),
        p_then (p_lit ''|='') (p_pure BinaryOperator_AssignBitwiseOr)]"

lemma ok_parse_assignment_operator [ok_intros]:
  "ok True k parse_assignment_operator"
  unfolding parse_assignment_operator_def
  by (rule ok_strict, (rule ok_intros | assumption | simp)+)

definition parse_assignment_expression_inner ::
  "grammar \<Rightarrow> binary_operator_expression parser" where
  "parse_assignment_expression_inner g =
     p_seq (parse_unary_expression g) (\<lambda>a.
     p_then parse_ws (
     p_seq (p_node parse_assignment_operator) (\<lambda>op.
     p_then parse_ws (
     p_seq (g_assignment_expression g) (\<lambda>b. p_pure (BinaryOperatorExpression op a b))))))"

lemma ok_parse_assignment_expression_inner [ok_intros]:
  "good_grammar n g \<Longrightarrow> k \<le> Suc n \<Longrightarrow> ok True k (parse_assignment_expression_inner g)"
  unfolding parse_assignment_expression_inner_def
  by (rule ok_strict, (rule ok_intros | assumption | simp)+)

definition parse_assignment_expression0 :: "grammar \<Rightarrow> expression parser" where
  "parse_assignment_expression0 g =
     p_choices
       [p_seq (p_node (parse_assignment_expression_inner g)) (\<lambda>n.
          p_pure (Expression_BinaryOperator n)),
        parse_conditional_expression0 g]"

lemma ok_parse_assignment_expression0 [ok_intros]:
  "good_grammar n g \<Longrightarrow> k \<le> Suc n \<Longrightarrow> ok True k (parse_assignment_expression0 g)"
  unfolding parse_assignment_expression0_def
  by (rule ok_strict, (rule ok_intros | assumption | simp)+)

definition parse_expressionT :: "grammar \<Rightarrow> expression node parser" where
  "parse_expressionT g =
     p_then (p_lit '','') (p_then parse_ws (p_node (parse_assignment_expression0 g)))"

lemma ok_parse_expressionT [ok_intros]:
  "good_grammar n g \<Longrightarrow> k \<le> Suc n \<Longrightarrow> ok True k (parse_expressionT g)"
  unfolding parse_expressionT_def
  by (rule ok_strict, (rule ok_intros | assumption | simp)+)

definition parse_expression0 :: "grammar \<Rightarrow> expression parser" where
  "parse_expression0 g =
     p_seq (p_node (parse_assignment_expression0 g)) (\<lambda>e.
     p_then parse_ws (
     p_seq (p_many_sep (parse_expressionT g) parse_ws) (\<lambda>t.
       p_pure (if t \<noteq> [] then Expression_Comma (e # t) else node e))))"

lemma ok_parse_expression0 [ok_intros]:
  "good_grammar n g \<Longrightarrow> k \<le> Suc n \<Longrightarrow> ok True k (parse_expression0 g)"
  unfolding parse_expression0_def
  by (rule ok_strict, (rule ok_intros | assumption | simp)+)

definition parse_expression :: "grammar \<Rightarrow> expression node parser" where
  "parse_expression g =
     p_seq (p_node (parse_expression0 g)) (\<lambda>e. p_pure e)"

lemma ok_parse_expression [ok_intros]:
  "good_grammar n g \<Longrightarrow> k \<le> Suc n \<Longrightarrow> ok True k (parse_expression g)"
  unfolding parse_expression_def
  by (rule ok_strict, (rule ok_intros | assumption | simp)+)

definition parse_primary_expression :: "grammar \<Rightarrow> expression node parser" where
  "parse_primary_expression g =
     p_seq (p_node (parse_primary_expression0 g)) (\<lambda>e. p_pure e)"

lemma ok_parse_primary_expression [ok_intros]:
  "good_grammar n g \<Longrightarrow> k \<le> Suc n \<Longrightarrow> ok True k (parse_primary_expression g)"
  unfolding parse_primary_expression_def
  by (rule ok_strict, (rule ok_intros | assumption | simp)+)

definition parse_postfix_expression :: "grammar \<Rightarrow> expression node parser" where
  "parse_postfix_expression g =
     p_seq (p_node (parse_postfix_expression0 g)) (\<lambda>e. p_pure e)"

lemma ok_parse_postfix_expression [ok_intros]:
  "good_grammar n g \<Longrightarrow> k \<le> Suc n \<Longrightarrow> ok True k (parse_postfix_expression g)"
  unfolding parse_postfix_expression_def
  by (rule ok_strict, (rule ok_intros | assumption | simp)+)

definition parse_cast_expression :: "grammar \<Rightarrow> expression node parser" where
  "parse_cast_expression g =
     p_seq (p_node (parse_cast_expression0 g)) (\<lambda>e. p_pure e)"

lemma ok_parse_cast_expression [ok_intros]:
  "good_grammar n g \<Longrightarrow> k \<le> Suc n \<Longrightarrow> ok True k (parse_cast_expression g)"
  unfolding parse_cast_expression_def
  by (rule ok_strict, (rule ok_intros | assumption | simp)+)

definition parse_binary_expression :: "grammar \<Rightarrow> expression node parser" where
  "parse_binary_expression g =
     p_seq (parse_binary_expression0 g) (\<lambda>e. p_pure e)"

lemma ok_parse_binary_expression [ok_intros]:
  "good_grammar n g \<Longrightarrow> k \<le> Suc n \<Longrightarrow> ok True k (parse_binary_expression g)"
  unfolding parse_binary_expression_def
  by (rule ok_strict, (rule ok_intros | assumption | simp)+)

definition parse_conditional_expression :: "grammar \<Rightarrow> expression node parser" where
  "parse_conditional_expression g =
     p_seq (p_node (parse_conditional_expression0 g)) (\<lambda>e. p_pure e)"

lemma ok_parse_conditional_expression [ok_intros]:
  "good_grammar n g \<Longrightarrow> k \<le> Suc n \<Longrightarrow> ok True k (parse_conditional_expression g)"
  unfolding parse_conditional_expression_def
  by (rule ok_strict, (rule ok_intros | assumption | simp)+)

definition parse_assignment_expression :: "grammar \<Rightarrow> expression node parser" where
  "parse_assignment_expression g =
     p_seq (p_node (parse_assignment_expression0 g)) (\<lambda>e. p_pure e)"

lemma ok_parse_assignment_expression [ok_intros]:
  "good_grammar n g \<Longrightarrow> k \<le> Suc n \<Longrightarrow> ok True k (parse_assignment_expression g)"
  unfolding parse_assignment_expression_def
  by (rule ok_strict, (rule ok_intros | assumption | simp)+)

definition parse_constant_expression :: "grammar \<Rightarrow> expression node parser" where
  "parse_constant_expression g =
     parse_conditional_expression g"

lemma ok_parse_constant_expression [ok_intros]:
  "good_grammar n g \<Longrightarrow> k \<le> Suc n \<Longrightarrow> ok True k (parse_constant_expression g)"
  unfolding parse_constant_expression_def
  by (rule ok_strict, (rule ok_intros | assumption | simp)+)

definition parse_constant_expression0 :: "grammar \<Rightarrow> expression parser" where
  "parse_constant_expression0 g =
     parse_conditional_expression0 g"

lemma ok_parse_constant_expression0 [ok_intros]:
  "good_grammar n g \<Longrightarrow> k \<le> Suc n \<Longrightarrow> ok True k (parse_constant_expression0 g)"
  unfolding parse_constant_expression0_def
  by (rule ok_strict, (rule ok_intros | assumption | simp)+)

end
