(* ===== verification/Grammar_Decl.thy ===== *)
theory Grammar_Decl
  imports Grammar_Expr
begin

text \<open>
  Declarations, declarators and initializers (\<open>declarations_entry.rs\<close>,
  \<open>init_declarators_and_storage.rs\<close>, \<open>function_and_alignment_specifiers.rs\<close>, \<open>declarators.rs\<close>,
  \<open>pointers_parameters_and_typenames.rs\<close>, \<open>abstract_declarators.rs\<close>,
  \<open>typedefs_initializers_and_asserts.rs\<close>).
\<close>

definition parse_declaration_specifier_unique_type0 ::
  "grammar \<Rightarrow> declaration_specifier parser" where
  "parse_declaration_specifier_unique_type0 g =
     p_seq (p_node (parse_type_specifier_unique g)) (\<lambda>s.
       p_pure (DeclarationSpecifier_TypeSpecifier s))"

lemma ok_parse_declaration_specifier_unique_type0 [ok_intros]:
  "good_grammar n g \<Longrightarrow> k \<le> Suc n \<Longrightarrow> ok True k (parse_declaration_specifier_unique_type0 g)"
  unfolding parse_declaration_specifier_unique_type0_def
  by (rule ok_strict, (rule ok_intros | assumption | simp)+)

definition parse_declaration_unique_type ::
  "grammar \<Rightarrow> declaration_specifier node list parser" where
  "parse_declaration_unique_type g =
     p_seq (p_node (parse_declaration_specifier_unique_type0 g)) (\<lambda>n. p_pure [n])"

lemma ok_parse_declaration_unique_type [ok_intros]:
  "good_grammar n g \<Longrightarrow> k \<le> Suc n \<Longrightarrow> ok True k (parse_declaration_unique_type g)"
  unfolding parse_declaration_unique_type_def
  by (rule ok_strict, (rule ok_intros | assumption | simp)+)

definition parse_declaration_specifier_nonunique_type0 ::
  "grammar \<Rightarrow> declaration_specifier parser" where
  "parse_declaration_specifier_nonunique_type0 g =
     p_seq (p_node (parse_type_specifier_nonunique g)) (\<lambda>s.
       p_pure (DeclarationSpecifier_TypeSpecifier s))"

lemma ok_parse_declaration_specifier_nonunique_type0 [ok_intros]:
  "good_grammar n g \<Longrightarrow> k \<le> Suc n \<Longrightarrow> ok True k (parse_declaration_specifier_nonunique_type0 g)"
  unfolding parse_declaration_specifier_nonunique_type0_def
  by (rule ok_strict, (rule ok_intros | assumption | simp)+)

definition parse_declaration_nonunique_type ::
  "grammar \<Rightarrow> declaration_specifier node list parser" where
  "parse_declaration_nonunique_type g =
     p_seq (p_node (parse_declaration_specifier_nonunique_type0 g)) (\<lambda>n. p_pure [n])"

lemma ok_parse_declaration_nonunique_type [ok_intros]:
  "good_grammar n g \<Longrightarrow> k \<le> Suc n \<Longrightarrow> ok True k (parse_declaration_nonunique_type g)"
  unfolding parse_declaration_nonunique_type_def
  by (rule ok_strict, (rule ok_intros | assumption | simp)+)

definition parse_storage_class_specifier0_2 :: "storage_class_specifier parser" where
  "parse_storage_class_specifier0_2 =
     p_choices
       [p_then (p_keyword (p_lit ''auto'')) (p_pure StorageClassSpecifier_Auto),
        p_then (p_keyword (p_lit ''register'')) (p_pure StorageClassSpecifier_Register),
        p_then (p_keyword (p_lit ''constexpr'')) (p_pure StorageClassSpecifier_Constexpr)]"

lemma ok_parse_storage_class_specifier0_2 [ok_intros]:
  "ok True k parse_storage_class_specifier0_2"
  unfolding parse_storage_class_specifier0_2_def
  by (rule ok_strict, (rule ok_intros | assumption | simp)+)

definition parse_storage_class_specifier0 :: "storage_class_specifier parser" where
  "parse_storage_class_specifier0 =
     p_choices
       [p_then (p_keyword (p_lit ''extern'')) (p_pure StorageClassSpecifier_Extern),
        p_then (p_keyword (p_lit ''static'')) (p_pure StorageClassSpecifier_Static),
        p_then (p_keyword (p_choices [p_lit ''_Thread_local'', p_lit ''thread_local''])) (
          p_pure StorageClassSpecifier_ThreadLocal),
        parse_storage_class_specifier0_2]"

lemma ok_parse_storage_class_specifier0 [ok_intros]:
  "ok True k parse_storage_class_specifier0"
  unfolding parse_storage_class_specifier0_def
  by (rule ok_strict, (rule ok_intros | assumption | simp)+)

definition parse_storage_class_specifier :: "storage_class_specifier node parser" where
  "parse_storage_class_specifier =
     p_node parse_storage_class_specifier0"

lemma ok_parse_storage_class_specifier [ok_intros]:
  "ok True k parse_storage_class_specifier"
  unfolding parse_storage_class_specifier_def
  by (rule ok_strict, (rule ok_intros | assumption | simp)+)

definition parse_function_specifier0 :: "function_specifier parser" where
  "parse_function_specifier0 =
     p_choices
       [p_then (p_keyword
                 (p_choices
                    [p_lit ''inline'',
                     p_then (p_and parse_gnu_guard) (
                     p_then (p_lit ''__inline'') (p_maybe (p_lit ''__'')))])) (
          p_pure FunctionSpecifier_Inline),
        p_then (p_keyword (p_choices [p_lit ''_Noreturn'', p_lit ''noreturn''])) (
          p_pure FunctionSpecifier_Noreturn)]"

lemma ok_parse_function_specifier0 [ok_intros]:
  "ok True k parse_function_specifier0"
  unfolding parse_function_specifier0_def
  by (rule ok_strict, (rule ok_intros | assumption | simp)+)

definition parse_function_specifier :: "function_specifier node parser" where
  "parse_function_specifier =
     p_node parse_function_specifier0"

lemma ok_parse_function_specifier [ok_intros]:
  "ok True k parse_function_specifier"
  unfolding parse_function_specifier_def
  by (rule ok_strict, (rule ok_intros | assumption | simp)+)

definition parse_alignment_specifier0_2 :: "grammar \<Rightarrow> alignment_specifier parser" where
  "parse_alignment_specifier0_2 g =
     p_then (p_keyword (p_choices [p_lit ''_Alignas'', p_lit ''alignas''])) (
     p_then parse_ws (
     p_then (p_lit ''('') (
     p_then parse_ws (
     p_seq (parse_constant_expression g) (\<lambda>e.
     p_then parse_ws (p_then (p_lit '')'') (p_pure (AlignmentSpecifier_Constant e))))))))"

lemma ok_parse_alignment_specifier0_2 [ok_intros]:
  "good_grammar n g \<Longrightarrow> k \<le> Suc n \<Longrightarrow> ok True k (parse_alignment_specifier0_2 g)"
  unfolding parse_alignment_specifier0_2_def
  by (rule ok_strict, (rule ok_intros | assumption | simp)+)

definition parse_alignment_specifier0 :: "grammar \<Rightarrow> alignment_specifier parser" where
  "parse_alignment_specifier0 g =
     p_choices
       [p_then (p_keyword (p_choices [p_lit ''_Alignas'', p_lit ''alignas''])) (
        p_then parse_ws (
        p_then (p_lit ''('') (
        p_then parse_ws (
        p_seq (parse_type_name g) (\<lambda>t.
        p_then parse_ws (p_then (p_lit '')'') (p_pure (AlignmentSpecifier_Type t)))))))),
        parse_alignment_specifier0_2 g]"

lemma ok_parse_alignment_specifier0 [ok_intros]:
  "good_grammar n g \<Longrightarrow> k \<le> Suc n \<Longrightarrow> ok True k (parse_alignment_specifier0 g)"
  unfolding parse_alignment_specifier0_def
  by (rule ok_strict, (rule ok_intros | assumption | simp)+)

definition parse_alignment_specifier :: "grammar \<Rightarrow> alignment_specifier node parser" where
  "parse_alignment_specifier g =
     p_node (parse_alignment_specifier0 g)"

lemma ok_parse_alignment_specifier [ok_intros]:
  "good_grammar n g \<Longrightarrow> k \<le> Suc n \<Longrightarrow> ok True k (parse_alignment_specifier g)"
  unfolding parse_alignment_specifier_def
  by (rule ok_strict, (rule ok_intros | assumption | simp)+)

definition parse_declaration_specifier_nontype :: "grammar \<Rightarrow> declaration_specifier parser" where
  "parse_declaration_specifier_nontype g =
     p_choices
       [p_seq parse_storage_class_specifier (\<lambda>s. p_pure (DeclarationSpecifier_StorageClass s)),
        p_seq parse_type_qualifier (\<lambda>s. p_pure (DeclarationSpecifier_TypeQualifier s)),
        p_seq parse_function_specifier (\<lambda>s. p_pure (DeclarationSpecifier_Function s)),
        p_seq (parse_alignment_specifier g) (\<lambda>s. p_pure (DeclarationSpecifier_Alignment s)),
        p_seq (p_then (p_and parse_gnu_guard) (parse_attribute_specifier g)) (\<lambda>s.
          p_pure (DeclarationSpecifier_Extension s))]"

lemma ok_parse_declaration_specifier_nontype [ok_intros]:
  "good_grammar n g \<Longrightarrow> k \<le> Suc n \<Longrightarrow> ok True k (parse_declaration_specifier_nontype g)"
  unfolding parse_declaration_specifier_nontype_def
  by (rule ok_strict, (rule ok_intros | assumption | simp)+)

definition parse_declaration_specifiers_unique ::
  "grammar \<Rightarrow> declaration_specifier node list parser" where
  "parse_declaration_specifiers_unique g =
     p_many_sep (p_node (parse_declaration_specifier_nontype g)) parse_ws"

lemma ok_parse_declaration_specifiers_unique [ok_intros]:
  "good_grammar n g \<Longrightarrow> k \<le> Suc n \<Longrightarrow> ok False k (parse_declaration_specifiers_unique g)"
  unfolding parse_declaration_specifiers_unique_def
  by (rule ok_strict, (rule ok_intros | assumption | simp)+)

definition parse_declaration_specifiers_nonunique ::
  "grammar \<Rightarrow> declaration_specifier node list parser" where
  "parse_declaration_specifiers_nonunique g =
     p_many_sep
       (p_node
         (p_choices
            [parse_declaration_specifier_nontype g,
             parse_declaration_specifier_nonunique_type0 g]))
       (parse_ws)"

lemma ok_parse_declaration_specifiers_nonunique [ok_intros]:
  "good_grammar n g \<Longrightarrow> k \<le> Suc n \<Longrightarrow> ok False k (parse_declaration_specifiers_nonunique g)"
  unfolding parse_declaration_specifiers_nonunique_def
  by (rule ok_strict, (rule ok_intros | assumption | simp)+)

definition parse_asm_label_keyword :: "unit parser" where
  "parse_asm_label_keyword =
     p_named ''asm''
      (p_quiet
        (p_choices
           [p_keyword (p_lit ''asm''),
            p_keyword (p_then (p_lit ''__asm'') (p_maybe (p_lit ''__'')))]))"

lemma ok_parse_asm_label_keyword [ok_intros]:
  "ok True k parse_asm_label_keyword"
  unfolding parse_asm_label_keyword_def
  by (rule ok_strict, (rule ok_intros | assumption | simp)+)

definition parse_asm_label0 :: "c_extension parser" where
  "parse_asm_label0 =
     p_then parse_asm_label_keyword (
     p_then parse_ws (
     p_then (p_lit ''('') (
     p_then parse_ws (
     p_seq parse_string_literal (\<lambda>s.
     p_then parse_ws (p_then (p_lit '')'') (p_pure (Extension_AsmLabel s))))))))"

lemma ok_parse_asm_label0 [ok_intros]:
  "ok True k parse_asm_label0"
  unfolding parse_asm_label0_def
  by (rule ok_strict, (rule ok_intros | assumption | simp)+)

definition parse_asm_label :: "c_extension node parser" where
  "parse_asm_label =
     p_node parse_asm_label0"

lemma ok_parse_asm_label [ok_intros]:
  "ok True k parse_asm_label"
  unfolding parse_asm_label_def
  by (rule ok_strict, (rule ok_intros | assumption | simp)+)

definition parse_init_declarator_gnu :: "grammar \<Rightarrow> c_extension node list parser" where
  "parse_init_declarator_gnu g =
     p_seq (p_opt parse_asm_label) (\<lambda>l.
     p_then parse_ws (
     p_seq (parse_attribute_specifier_list g) (\<lambda>a.
       p_pure ((case l of None \<Rightarrow> [] | Some x \<Rightarrow> [x]) @ a))))"

lemma ok_parse_init_declarator_gnu [ok_intros]:
  "good_grammar n g \<Longrightarrow> k \<le> Suc n \<Longrightarrow> ok False k (parse_init_declarator_gnu g)"
  unfolding parse_init_declarator_gnu_def
  by (rule ok_strict, (rule ok_intros | assumption | simp)+)

definition parse_direct_declarator :: "grammar \<Rightarrow> declarator_kind parser" where
  "parse_direct_declarator g =
     p_choices
       [p_seq parse_identifier (\<lambda>i. p_pure (DeclaratorKind_Identifier i)),
        p_then (p_lit ''('') (
        p_then parse_ws (
        p_seq (g_declarator g) (\<lambda>d.
        p_then parse_ws (p_then (p_lit '')'') (p_pure (DeclaratorKind_Declarator d))))))]"

lemma ok_parse_direct_declarator [ok_intros]:
  "good_grammar n g \<Longrightarrow> k \<le> Suc n \<Longrightarrow> ok True k (parse_direct_declarator g)"
  unfolding parse_direct_declarator_def
  by (rule ok_strict, (rule ok_intros | assumption | simp)+)

definition parse_array_declarator_4 :: "grammar \<Rightarrow> array_declarator parser" where
  "parse_array_declarator_4 g =
     p_seq (p_many_sep parse_type_qualifier parse_ws) (\<lambda>q.
     p_then parse_ws (
     p_then (p_lit ''*'') (
     p_then parse_ws (
     p_then (p_lit '']'') (p_pure (ArrayDeclarator q ArraySize_VariableUnknown))))))"

lemma ok_parse_array_declarator_4 [ok_intros]:
  "good_grammar n g \<Longrightarrow> k \<le> Suc n \<Longrightarrow> ok True k (parse_array_declarator_4 g)"
  unfolding parse_array_declarator_4_def
  by (rule ok_strict, (rule ok_intros | assumption | simp)+)

definition parse_array_declarator_3 :: "grammar \<Rightarrow> array_declarator parser" where
  "parse_array_declarator_3 g =
     p_choices
       [p_seq (p_at_least 1 (p_many_sep parse_type_qualifier parse_ws)) (\<lambda>q.
        p_then parse_ws (
        p_then (p_keyword (p_lit ''static'')) (
        p_then parse_ws (
        p_seq (parse_assignment_expression g) (\<lambda>e.
        p_then parse_ws (
        p_then (p_lit '']'') (p_pure (ArrayDeclarator q (ArraySize_StaticExpression e))))))))),
        parse_array_declarator_4 g]"

lemma ok_parse_array_declarator_3 [ok_intros]:
  "good_grammar n g \<Longrightarrow> k \<le> Suc n \<Longrightarrow> ok True k (parse_array_declarator_3 g)"
  unfolding parse_array_declarator_3_def
  by (rule ok_strict, (rule ok_intros | assumption | simp)+)

definition parse_array_declarator_2 :: "grammar \<Rightarrow> array_declarator parser" where
  "parse_array_declarator_2 g =
     p_choices
       [p_then (p_keyword (p_lit ''static'')) (
        p_then parse_ws (
        p_seq (p_many_sep parse_type_qualifier parse_ws) (\<lambda>q.
        p_then parse_ws (
        p_seq (parse_assignment_expression g) (\<lambda>e.
        p_then parse_ws (
        p_then (p_lit '']'') (p_pure (ArrayDeclarator q (ArraySize_StaticExpression e))))))))),
        parse_array_declarator_3 g]"

lemma ok_parse_array_declarator_2 [ok_intros]:
  "good_grammar n g \<Longrightarrow> k \<le> Suc n \<Longrightarrow> ok True k (parse_array_declarator_2 g)"
  unfolding parse_array_declarator_2_def
  by (rule ok_strict, (rule ok_intros | assumption | simp)+)

definition parse_array_declarator :: "grammar \<Rightarrow> array_declarator parser" where
  "parse_array_declarator g =
     p_choices
       [p_seq (p_many_sep parse_type_qualifier parse_ws) (\<lambda>q.
        p_then parse_ws (p_then (p_lit '']'') (p_pure (ArrayDeclarator q ArraySize_Unknown)))),
        p_seq (p_many_sep parse_type_qualifier parse_ws) (\<lambda>q.
        p_then parse_ws (
        p_seq (parse_assignment_expression g) (\<lambda>e.
        p_then parse_ws (
        p_then (p_lit '']'') (p_pure (ArrayDeclarator q (ArraySize_VariableExpression e))))))),
        parse_array_declarator_2 g]"

lemma ok_parse_array_declarator [ok_intros]:
  "good_grammar n g \<Longrightarrow> k \<le> Suc n \<Longrightarrow> ok True k (parse_array_declarator g)"
  unfolding parse_array_declarator_def
  by (rule ok_strict, (rule ok_intros | assumption | simp)+)

definition parse_ellipsis :: "ellipsis parser" where
  "parse_ellipsis =
     p_choices
       [p_then (p_lit '','') (p_then parse_ws (p_then (p_lit ''...'') (p_pure Ellipsis_Some))),
        p_pure Ellipsis_None]"

lemma ok_parse_ellipsis [ok_intros]:
  "ok False k parse_ellipsis"
  unfolding parse_ellipsis_def
  by (rule ok_strict, (rule ok_intros | assumption | simp)+)

definition parse_declaration_specifiers_tail ::
  "grammar \<Rightarrow> declaration_specifier node list parser" where
  "parse_declaration_specifiers_tail g =
     p_choices
       [p_seq (parse_declaration_unique_type g) (\<lambda>t.
        p_then parse_ws (p_seq (parse_declaration_specifiers_unique g) (\<lambda>s. p_pure (t @ s)))),
        p_seq (parse_declaration_nonunique_type g) (\<lambda>t.
        p_then parse_ws (p_seq (parse_declaration_specifiers_nonunique g) (\<lambda>s. p_pure (t @ s))))]"

lemma ok_parse_declaration_specifiers_tail [ok_intros]:
  "good_grammar n g \<Longrightarrow> k \<le> Suc n \<Longrightarrow> ok True k (parse_declaration_specifiers_tail g)"
  unfolding parse_declaration_specifiers_tail_def
  by (rule ok_strict, (rule ok_intros | assumption | simp)+)

definition parse_declaration_specifiers ::
  "grammar \<Rightarrow> declaration_specifier node list parser" where
  "parse_declaration_specifiers g =
     p_seq (parse_declaration_specifiers_unique g) (\<lambda>s.
     p_then parse_ws (p_seq (parse_declaration_specifiers_tail g) (\<lambda>t. p_pure (s @ t))))"

lemma ok_parse_declaration_specifiers [ok_intros]:
  "good_grammar n g \<Longrightarrow> k \<le> Suc n \<Longrightarrow> ok True k (parse_declaration_specifiers g)"
  unfolding parse_declaration_specifiers_def
  by (rule ok_strict, (rule ok_intros | assumption | simp)+)

definition parse_parameter_declaration0 :: "grammar \<Rightarrow> parameter_declaration parser" where
  "parse_parameter_declaration0 g =
     p_seq (parse_declaration_specifiers g) (\<lambda>s.
     p_then parse_ws (
     p_seq (g_parameter_declarator g) (\<lambda>d.
     p_then parse_ws (
     p_seq (p_opt (p_then (p_and parse_gnu_guard) (parse_attribute_specifier_list g))) (\<lambda>a.
       p_pure (ParameterDeclaration s d (case a of None \<Rightarrow> [] | Some xs \<Rightarrow> xs)))))))"

lemma ok_parse_parameter_declaration0 [ok_intros]:
  "good_grammar n g \<Longrightarrow> k \<le> Suc n \<Longrightarrow> ok True k (parse_parameter_declaration0 g)"
  unfolding parse_parameter_declaration0_def
  by (rule ok_strict, (rule ok_intros | assumption | simp)+)

definition parse_parameter_declaration :: "grammar \<Rightarrow> parameter_declaration node parser" where
  "parse_parameter_declaration g =
     p_node (parse_parameter_declaration0 g)"

lemma ok_parse_parameter_declaration [ok_intros]:
  "good_grammar n g \<Longrightarrow> k \<le> Suc n \<Longrightarrow> ok True k (parse_parameter_declaration g)"
  unfolding parse_parameter_declaration_def
  by (rule ok_strict, (rule ok_intros | assumption | simp)+)

definition parse_function_declarator :: "grammar \<Rightarrow> function_declarator parser" where
  "parse_function_declarator g =
     p_seq (p_at_least 1
             (p_many_sep
                (parse_parameter_declaration g)
                (p_then parse_ws (p_then (p_lit '','') parse_ws)))) (\<lambda>p.
     p_then parse_ws (p_seq parse_ellipsis (\<lambda>e. p_pure (FunctionDeclarator p e))))"

lemma ok_parse_function_declarator [ok_intros]:
  "good_grammar n g \<Longrightarrow> k \<le> Suc n \<Longrightarrow> ok True k (parse_function_declarator g)"
  unfolding parse_function_declarator_def
  by (rule ok_strict, (rule ok_intros | assumption | simp)+)

definition parse_derived_declarator_2 :: "grammar \<Rightarrow> derived_declarator parser" where
  "parse_derived_declarator_2 g =
     p_then (p_lit ''('') (
     p_then parse_ws (
     p_seq (p_many_sep parse_identifier (p_then parse_ws (p_then (p_lit '','') parse_ws))) (\<lambda>p.
     p_then parse_ws (p_then (p_lit '')'') (p_pure (DerivedDeclarator_KRFunction p))))))"

lemma ok_parse_derived_declarator_2 [ok_intros]:
  "good_grammar n g \<Longrightarrow> k \<le> Suc n \<Longrightarrow> ok True k (parse_derived_declarator_2 g)"
  unfolding parse_derived_declarator_2_def
  by (rule ok_strict, (rule ok_intros | assumption | simp)+)

definition parse_derived_declarator :: "grammar \<Rightarrow> derived_declarator parser" where
  "parse_derived_declarator g =
     p_choices
       [p_then (p_lit ''['') (
        p_then parse_ws (
        p_seq (p_node (parse_array_declarator g)) (\<lambda>a. p_pure (DerivedDeclarator_Array a)))),
        p_then (p_lit ''('') (
        p_then parse_ws (
        p_seq (p_scoped (p_node (parse_function_declarator g))) (\<lambda>f.
        p_then parse_ws (p_then (p_lit '')'') (p_pure (DerivedDeclarator_Function f)))))),
        parse_derived_declarator_2 g]"

lemma ok_parse_derived_declarator [ok_intros]:
  "good_grammar n g \<Longrightarrow> k \<le> Suc n \<Longrightarrow> ok True k (parse_derived_declarator g)"
  unfolding parse_derived_declarator_def
  by (rule ok_strict, (rule ok_intros | assumption | simp)+)

definition parse_pointer_qualifier :: "grammar \<Rightarrow> pointer_qualifier parser" where
  "parse_pointer_qualifier g =
     p_choices
       [p_seq parse_type_qualifier (\<lambda>q. p_pure (PointerQualifier_TypeQualifier q)),
        p_seq (p_then (p_and parse_gnu_guard) (parse_attribute_specifier g)) (\<lambda>e.
          p_pure (PointerQualifier_Extension e))]"

lemma ok_parse_pointer_qualifier [ok_intros]:
  "good_grammar n g \<Longrightarrow> k \<le> Suc n \<Longrightarrow> ok True k (parse_pointer_qualifier g)"
  unfolding parse_pointer_qualifier_def
  by (rule ok_strict, (rule ok_intros | assumption | simp)+)

definition parse_pointer0 :: "grammar \<Rightarrow> derived_declarator parser" where
  "parse_pointer0 g =
     p_seq (p_slice (p_choices [p_lit ''*'', p_then (p_and parse_clang_guard) (p_lit ''^'')])) (\<lambda>t.
     p_then parse_ws (
     p_seq (p_many_sep (p_node (parse_pointer_qualifier g)) parse_ws) (\<lambda>q.
       p_pure (if t = ''^'' then DerivedDeclarator_Block q else DerivedDeclarator_Pointer q))))"

lemma ok_parse_pointer0 [ok_intros]:
  "good_grammar n g \<Longrightarrow> k \<le> Suc n \<Longrightarrow> ok True k (parse_pointer0 g)"
  unfolding parse_pointer0_def
  by (rule ok_strict, (rule ok_intros | assumption | simp)+)

definition parse_pointer :: "grammar \<Rightarrow> derived_declarator node parser" where
  "parse_pointer g =
     p_node (parse_pointer0 g)"

lemma ok_parse_pointer [ok_intros]:
  "good_grammar n g \<Longrightarrow> k \<le> Suc n \<Longrightarrow> ok True k (parse_pointer g)"
  unfolding parse_pointer_def
  by (rule ok_strict, (rule ok_intros | assumption | simp)+)

definition parse_declarator0 :: "grammar \<Rightarrow> declarator parser" where
  "parse_declarator0 g =
     p_seq (p_opt (p_then (p_and parse_gnu_guard) (parse_attribute_specifier_list g))) (\<lambda>attr.
     p_then parse_ws (
     p_seq (p_many_sep (parse_pointer g) parse_ws) (\<lambda>pointer.
     p_then parse_ws (
     p_seq (p_node (parse_direct_declarator g)) (\<lambda>kind.
     p_then parse_ws (
     p_seq (p_many_sep (p_node (parse_derived_declarator g)) parse_ws) (\<lambda>derived.
       p_pure
         (Declarator kind (pointer @ derived)
           (case attr of None \<Rightarrow> [] | Some xs \<Rightarrow> xs)))))))))"

lemma ok_parse_declarator0 [ok_intros]:
  "good_grammar n g \<Longrightarrow> k \<le> Suc n \<Longrightarrow> ok True k (parse_declarator0 g)"
  unfolding parse_declarator0_def
  by (rule ok_strict, (rule ok_intros | assumption | simp)+)

definition parse_declarator :: "grammar \<Rightarrow> declarator node parser" where
  "parse_declarator g =
     p_node (parse_declarator0 g)"

lemma ok_parse_declarator [ok_intros]:
  "good_grammar n g \<Longrightarrow> k \<le> Suc n \<Longrightarrow> ok True k (parse_declarator g)"
  unfolding parse_declarator_def
  by (rule ok_strict, (rule ok_intros | assumption | simp)+)

definition parse_type_declarator :: "grammar \<Rightarrow> init_declarator parser" where
  "parse_type_declarator g =
     p_seq (parse_declarator g) (\<lambda>d.
     p_then parse_ws (
     p_seq (p_opt (p_then (p_and parse_gnu_guard) (parse_init_declarator_gnu g))) (\<lambda>e.
       p_then (p_modify (handle_declarator d Symbol_Typename))
         (p_pure (InitDeclarator (with_ext d e) None)))))"

lemma ok_parse_type_declarator [ok_intros]:
  "good_grammar n g \<Longrightarrow> k \<le> Suc n \<Longrightarrow> ok True k (parse_type_declarator g)"
  unfolding parse_type_declarator_def
  by (rule ok_strict, (rule ok_intros | assumption | simp)+)

definition parse_declaration_type_declarators ::
  "grammar \<Rightarrow> init_declarator node list parser" where
  "parse_declaration_type_declarators g =
     p_many_sep
       (p_node (parse_type_declarator g))
       (p_then parse_ws (p_then (p_lit '','') parse_ws))"

lemma ok_parse_declaration_type_declarators [ok_intros]:
  "good_grammar n g \<Longrightarrow> k \<le> Suc n \<Longrightarrow> ok False k (parse_declaration_type_declarators g)"
  unfolding parse_declaration_type_declarators_def
  by (rule ok_strict, (rule ok_intros | assumption | simp)+)

definition parse_declaration_typedef_tail0 ::
  "grammar \<Rightarrow> (declaration_specifier node list \<times> init_declarator node list) parser" where
  "parse_declaration_typedef_tail0 g =
     p_choices
       [p_seq (parse_declaration_unique_type g) (\<lambda>h.
        p_then parse_ws (
        p_seq (p_seq (parse_declaration_specifiers_unique g) (\<lambda>s.
               p_then parse_ws (
               p_seq (parse_declaration_type_declarators g) (\<lambda>d. p_pure (s, d))))) (\<lambda>t.
          p_pure ((h @ (fst t)), (snd t))))),
        p_seq (parse_declaration_nonunique_type g) (\<lambda>h.
        p_then parse_ws (
        p_seq (p_seq (parse_declaration_specifiers_nonunique g) (\<lambda>s.
               p_then parse_ws (
               p_seq (parse_declaration_type_declarators g) (\<lambda>d. p_pure (s, d))))) (\<lambda>t.
          p_pure ((h @ (fst t)), (snd t)))))]"

lemma ok_parse_declaration_typedef_tail0 [ok_intros]:
  "good_grammar n g \<Longrightarrow> k \<le> Suc n \<Longrightarrow> ok True k (parse_declaration_typedef_tail0 g)"
  unfolding parse_declaration_typedef_tail0_def
  by (rule ok_strict, (rule ok_intros | assumption | simp)+)

definition parse_declaration_typedef_tail ::
  "grammar \<Rightarrow> (declaration_specifier node list \<times> init_declarator node list) parser" where
  "parse_declaration_typedef_tail g =
     p_seq (parse_declaration_specifiers_unique g) (\<lambda>h.
     p_then parse_ws (
     p_seq (parse_declaration_typedef_tail0 g) (\<lambda>t. p_pure ((h @ (fst t)), (snd t)))))"

lemma ok_parse_declaration_typedef_tail [ok_intros]:
  "good_grammar n g \<Longrightarrow> k \<le> Suc n \<Longrightarrow> ok True k (parse_declaration_typedef_tail g)"
  unfolding parse_declaration_typedef_tail_def
  by (rule ok_strict, (rule ok_intros | assumption | simp)+)

definition parse_storage_class_typedef0 :: "storage_class_specifier parser" where
  "parse_storage_class_typedef0 =
     p_then (p_keyword (p_lit ''typedef'')) (p_pure StorageClassSpecifier_Typedef)"

lemma ok_parse_storage_class_typedef0 [ok_intros]:
  "ok True k parse_storage_class_typedef0"
  unfolding parse_storage_class_typedef0_def
  by (rule ok_strict, (rule ok_intros | assumption | simp)+)

definition parse_storage_class_typedef :: "storage_class_specifier node parser" where
  "parse_storage_class_typedef =
     p_node parse_storage_class_typedef0"

lemma ok_parse_storage_class_typedef [ok_intros]:
  "ok True k parse_storage_class_typedef"
  unfolding parse_storage_class_typedef_def
  by (rule ok_strict, (rule ok_intros | assumption | simp)+)

definition parse_declaration_typedef0 :: "declaration_specifier parser" where
  "parse_declaration_typedef0 =
     p_seq parse_storage_class_typedef (\<lambda>s. p_pure (DeclarationSpecifier_StorageClass s))"

lemma ok_parse_declaration_typedef0 [ok_intros]:
  "ok True k parse_declaration_typedef0"
  unfolding parse_declaration_typedef0_def
  by (rule ok_strict, (rule ok_intros | assumption | simp)+)

definition parse_declaration_typedef :: "declaration_specifier node list parser" where
  "parse_declaration_typedef =
     p_seq (p_node parse_declaration_typedef0) (\<lambda>s. p_pure [s])"

lemma ok_parse_declaration_typedef [ok_intros]:
  "ok True k parse_declaration_typedef"
  unfolding parse_declaration_typedef_def
  by (rule ok_strict, (rule ok_intros | assumption | simp)+)

definition parse_init_declarator_declarator :: "grammar \<Rightarrow> declarator node parser" where
  "parse_init_declarator_declarator g =
     p_seq (parse_declarator g) (\<lambda>d.
       p_then (p_modify (handle_declarator d Symbol_Identifier)) (p_pure d))"

lemma ok_parse_init_declarator_declarator [ok_intros]:
  "good_grammar n g \<Longrightarrow> k \<le> Suc n \<Longrightarrow> ok True k (parse_init_declarator_declarator g)"
  unfolding parse_init_declarator_declarator_def
  by (rule ok_strict, (rule ok_intros | assumption | simp)+)

definition parse_initializer_2 :: "grammar \<Rightarrow> initializer parser" where
  "parse_initializer_2 g =
     p_then (p_then (p_and parse_gnu_guard) (
             p_then (p_lit ''{'') (p_then parse_ws (p_lit ''}'')))) (
       p_pure (Initializer_List []))"

lemma ok_parse_initializer_2 [ok_intros]:
  "good_grammar n g \<Longrightarrow> k \<le> Suc n \<Longrightarrow> ok True k (parse_initializer_2 g)"
  unfolding parse_initializer_2_def
  by (rule ok_strict, (rule ok_intros | assumption | simp)+)

definition parse_initializer :: "grammar \<Rightarrow> initializer parser" where
  "parse_initializer g =
     p_choices
       [p_seq (parse_assignment_expression g) (\<lambda>e. p_pure (Initializer_Expression e)),
        p_then (p_lit ''{'') (
        p_then parse_ws (
        p_seq (p_at_least 1
                (p_many_sep
                   (p_node (g_initializer_list_item g))
                   (p_then parse_ws (p_then (p_lit '','') parse_ws)))) (\<lambda>i.
        p_then parse_ws (
        p_then (p_maybe (p_lit '','')) (
        p_then parse_ws (p_then (p_lit ''}'') (p_pure (Initializer_List i)))))))),
        parse_initializer_2 g]"

lemma ok_parse_initializer [ok_intros]:
  "good_grammar n g \<Longrightarrow> k \<le> Suc n \<Longrightarrow> ok True k (parse_initializer g)"
  unfolding parse_initializer_def
  by (rule ok_strict, (rule ok_intros | assumption | simp)+)

definition parse_init_declarator_init :: "grammar \<Rightarrow> initializer parser" where
  "parse_init_declarator_init g =
     p_then (p_lit ''='') (p_then parse_ws (parse_initializer g))"

lemma ok_parse_init_declarator_init [ok_intros]:
  "good_grammar n g \<Longrightarrow> k \<le> Suc n \<Longrightarrow> ok True k (parse_init_declarator_init g)"
  unfolding parse_init_declarator_init_def
  by (rule ok_strict, (rule ok_intros | assumption | simp)+)

definition parse_init_declarator :: "grammar \<Rightarrow> init_declarator parser" where
  "parse_init_declarator g =
     p_seq (parse_init_declarator_declarator g) (\<lambda>d.
     p_then parse_ws (
     p_seq (p_opt (p_then (p_and parse_gnu_guard) (parse_init_declarator_gnu g))) (\<lambda>e.
     p_then parse_ws (
     p_seq (p_opt (p_node (parse_init_declarator_init g))) (\<lambda>i.
       p_pure (InitDeclarator (with_ext d e) i))))))"

lemma ok_parse_init_declarator [ok_intros]:
  "good_grammar n g \<Longrightarrow> k \<le> Suc n \<Longrightarrow> ok True k (parse_init_declarator g)"
  unfolding parse_init_declarator_def
  by (rule ok_strict, (rule ok_intros | assumption | simp)+)

definition parse_declaration_init_declarators ::
  "grammar \<Rightarrow> init_declarator node list parser" where
  "parse_declaration_init_declarators g =
     p_many_sep
       (p_node (parse_init_declarator g))
       (p_then parse_ws (p_then (p_lit '','') parse_ws))"

lemma ok_parse_declaration_init_declarators [ok_intros]:
  "good_grammar n g \<Longrightarrow> k \<le> Suc n \<Longrightarrow> ok False k (parse_declaration_init_declarators g)"
  unfolding parse_declaration_init_declarators_def
  by (rule ok_strict, (rule ok_intros | assumption | simp)+)

definition parse_declaration2_2 ::
  "grammar \<Rightarrow> (declaration_specifier node list \<times> init_declarator node list) parser" where
  "parse_declaration2_2 g =
     p_seq (parse_declaration_nonunique_type g) (\<lambda>h.
     p_then parse_ws (
     p_seq (p_seq (parse_declaration_specifiers_nonunique g) (\<lambda>h.
            p_then parse_ws (
            p_seq (p_choices
                     [p_seq parse_declaration_typedef (\<lambda>h.
                      p_then parse_ws (
                      p_seq (p_seq (parse_declaration_specifiers_nonunique g) (\<lambda>s.
                             p_then parse_ws (
                             p_seq (parse_declaration_type_declarators g) (\<lambda>d. p_pure (s, d))))) (\<lambda>t.
                        p_pure ((h @ (fst t)), (snd t))))),
                      p_seq (parse_declaration_init_declarators g) (\<lambda>d. p_pure ([], d))]) (\<lambda>t.
              p_pure ((h @ (fst t)), (snd t)))))) (\<lambda>t.
       p_pure ((h @ (fst t)), (snd t)))))"

lemma ok_parse_declaration2_2 [ok_intros]:
  "good_grammar n g \<Longrightarrow> k \<le> Suc n \<Longrightarrow> ok True k (parse_declaration2_2 g)"
  unfolding parse_declaration2_2_def
  by (rule ok_strict, (rule ok_intros | assumption | simp)+)

definition parse_declaration2 ::
  "grammar \<Rightarrow> (declaration_specifier node list \<times> init_declarator node list) parser" where
  "parse_declaration2 g =
     p_choices
       [p_seq parse_declaration_typedef (\<lambda>h.
        p_then parse_ws (
        p_seq (parse_declaration_typedef_tail g) (\<lambda>t. p_pure ((h @ (fst t)), (snd t))))),
        p_seq (parse_declaration_unique_type g) (\<lambda>h.
        p_then parse_ws (
        p_seq (p_seq (parse_declaration_specifiers_unique g) (\<lambda>h.
               p_then parse_ws (
               p_seq (p_choices
                        [p_seq parse_declaration_typedef (\<lambda>h.
                         p_then parse_ws (
                         p_seq (p_seq (parse_declaration_specifiers_unique g) (\<lambda>s.
                                p_then parse_ws (
                                p_seq (parse_declaration_type_declarators g) (\<lambda>d.
                                  p_pure (s, d))))) (\<lambda>t.
                           p_pure ((h @ (fst t)), (snd t))))),
                         p_seq (parse_declaration_init_declarators g) (\<lambda>d. p_pure ([], d))]) (\<lambda>t.
                 p_pure ((h @ (fst t)), (snd t)))))) (\<lambda>t.
          p_pure ((h @ (fst t)), (snd t))))),
        parse_declaration2_2 g]"

lemma ok_parse_declaration2 [ok_intros]:
  "good_grammar n g \<Longrightarrow> k \<le> Suc n \<Longrightarrow> ok True k (parse_declaration2 g)"
  unfolding parse_declaration2_def
  by (rule ok_strict, (rule ok_intros | assumption | simp)+)

definition parse_declaration1 ::
  "grammar \<Rightarrow> (declaration_specifier node list \<times> init_declarator node list) parser" where
  "parse_declaration1 g =
     p_seq (parse_declaration_specifiers_unique g) (\<lambda>h.
     p_then parse_ws (p_seq (parse_declaration2 g) (\<lambda>t. p_pure ((h @ (fst t)), (snd t)))))"

lemma ok_parse_declaration1 [ok_intros]:
  "good_grammar n g \<Longrightarrow> k \<le> Suc n \<Longrightarrow> ok True k (parse_declaration1 g)"
  unfolding parse_declaration1_def
  by (rule ok_strict, (rule ok_intros | assumption | simp)+)

definition parse_declaration0 :: "grammar \<Rightarrow> c_declaration parser" where
  "parse_declaration0 g =
     p_then (p_maybe (p_then (p_and parse_gnu_guard) (p_keyword (p_lit ''__extension__'')))) (
     p_then parse_ws (
     p_seq (parse_declaration1 g) (\<lambda>d.
     p_then parse_ws (p_then (p_lit '';'') (p_pure (Declaration (fst d) (snd d)))))))"

lemma ok_parse_declaration0 [ok_intros]:
  "good_grammar n g \<Longrightarrow> k \<le> Suc n \<Longrightarrow> ok True k (parse_declaration0 g)"
  unfolding parse_declaration0_def
  by (rule ok_strict, (rule ok_intros | assumption | simp)+)

definition parse_declaration :: "grammar \<Rightarrow> c_declaration node parser" where
  "parse_declaration g =
     p_node (parse_declaration0 g)"

lemma ok_parse_declaration [ok_intros]:
  "good_grammar n g \<Longrightarrow> k \<le> Suc n \<Longrightarrow> ok True k (parse_declaration g)"
  unfolding parse_declaration_def
  by (rule ok_strict, (rule ok_intros | assumption | simp)+)

definition parse_struct_declarator :: "grammar \<Rightarrow> struct_declarator parser" where
  "parse_struct_declarator g =
     p_choices
       [p_seq (p_opt (parse_declarator g)) (\<lambda>d.
        p_then parse_ws (
        p_then (p_lit '':'') (
        p_then parse_ws (
        p_seq (parse_constant_expression g) (\<lambda>e.
        p_seq (p_opt (p_then (p_and parse_gnu_guard) (parse_attribute_specifier_list g))) (\<lambda>a.
          p_pure (StructDeclarator (map_option (\<lambda>d. with_ext d a) d) (Some e)))))))),
        p_seq (parse_declarator g) (\<lambda>d.
        p_then parse_ws (
        p_seq (p_opt (p_then (p_and parse_gnu_guard) (parse_attribute_specifier_list g))) (\<lambda>a.
          p_pure (StructDeclarator (Some (with_ext d a)) None))))]"

lemma ok_parse_struct_declarator [ok_intros]:
  "good_grammar n g \<Longrightarrow> k \<le> Suc n \<Longrightarrow> ok True k (parse_struct_declarator g)"
  unfolding parse_struct_declarator_def
  by (rule ok_strict, (rule ok_intros | assumption | simp)+)

definition parse_struct_field :: "grammar \<Rightarrow> struct_field parser" where
  "parse_struct_field g =
     p_seq (parse_specifier_qualifiers g) (\<lambda>s.
     p_then parse_ws (
     p_seq (p_many_sep
              (p_node (parse_struct_declarator g))
              (p_then parse_ws (p_then (p_lit '','') parse_ws))) (\<lambda>d.
     p_then parse_ws (
     p_then (p_lit '';'') (
     p_then (p_maybe (p_then (p_and parse_gnu_guard) (p_many (p_then parse_ws (p_lit '';''))))) (
       p_pure (StructField s d)))))))"

lemma ok_parse_struct_field [ok_intros]:
  "good_grammar n g \<Longrightarrow> k \<le> Suc n \<Longrightarrow> ok True k (parse_struct_field g)"
  unfolding parse_struct_field_def
  by (rule ok_strict, (rule ok_intros | assumption | simp)+)

definition parse_static_assert0 :: "grammar \<Rightarrow> static_assert parser" where
  "parse_static_assert0 g =
     p_then (p_maybe (p_then (p_and parse_gnu_guard) (p_keyword (p_lit ''__extension__'')))) (
     p_then parse_ws (
     p_then (p_keyword (p_choices [p_lit ''_Static_assert'', p_lit ''static_assert''])) (
     p_then parse_ws (
     p_then (p_lit ''('') (
     p_then parse_ws (
     p_seq (parse_constant_expression g) (\<lambda>e.
     p_then parse_ws (
     p_then (p_lit '','') (
     p_then parse_ws (
     p_seq parse_string_literal (\<lambda>s.
     p_then parse_ws (
     p_then (p_lit '')'') (
     p_then parse_ws (p_then (p_lit '';'') (p_pure (StaticAssert e s))))))))))))))))"

lemma ok_parse_static_assert0 [ok_intros]:
  "good_grammar n g \<Longrightarrow> k \<le> Suc n \<Longrightarrow> ok True k (parse_static_assert0 g)"
  unfolding parse_static_assert0_def
  by (rule ok_strict, (rule ok_intros | assumption | simp)+)

definition parse_static_assert :: "grammar \<Rightarrow> static_assert node parser" where
  "parse_static_assert g =
     p_node (parse_static_assert0 g)"

lemma ok_parse_static_assert [ok_intros]:
  "good_grammar n g \<Longrightarrow> k \<le> Suc n \<Longrightarrow> ok True k (parse_static_assert g)"
  unfolding parse_static_assert_def
  by (rule ok_strict, (rule ok_intros | assumption | simp)+)

definition parse_struct_declaration :: "grammar \<Rightarrow> struct_declaration parser" where
  "parse_struct_declaration g =
     p_choices
       [p_seq (p_node (parse_struct_field g)) (\<lambda>f. p_pure (StructDeclaration_Field f)),
        p_seq (parse_static_assert g) (\<lambda>s. p_pure (StructDeclaration_StaticAssert s)),
        p_then (p_then (p_and parse_gnu_guard) (p_keyword (p_lit ''__extension__''))) (
        p_then parse_ws (g_struct_declaration g))]"

lemma ok_parse_struct_declaration [ok_intros]:
  "good_grammar n g \<Longrightarrow> k \<le> Suc n \<Longrightarrow> ok True k (parse_struct_declaration g)"
  unfolding parse_struct_declaration_def
  by (rule ok_strict, (rule ok_intros | assumption | simp)+)

definition parse_direct_abstract_declarator :: "grammar \<Rightarrow> declarator_kind parser" where
  "parse_direct_abstract_declarator g =
     p_then (p_lit ''('') (
     p_then parse_ws (
     p_seq (g_abstract_declarator g) (\<lambda>d.
     p_then parse_ws (p_then (p_lit '')'') (p_pure (DeclaratorKind_Declarator d))))))"

lemma ok_parse_direct_abstract_declarator [ok_intros]:
  "good_grammar n g \<Longrightarrow> k \<le> Suc n \<Longrightarrow> ok True k (parse_direct_abstract_declarator g)"
  unfolding parse_direct_abstract_declarator_def
  by (rule ok_strict, (rule ok_intros | assumption | simp)+)

definition parse_abstract_array_declarator_3 :: "grammar \<Rightarrow> array_declarator parser" where
  "parse_abstract_array_declarator_3 g =
     p_choices
       [p_seq (p_at_least 1 (p_many_sep parse_type_qualifier parse_ws)) (\<lambda>q.
        p_then parse_ws (
        p_then (p_keyword (p_lit ''static'')) (
        p_then parse_ws (
        p_seq (parse_assignment_expression g) (\<lambda>e.
        p_then parse_ws (
        p_then (p_lit '']'') (p_pure (ArrayDeclarator q (ArraySize_StaticExpression e))))))))),
        p_then (p_lit ''*'') (
        p_then parse_ws (
        p_then (p_lit '']'') (p_pure (ArrayDeclarator [] ArraySize_VariableUnknown))))]"

lemma ok_parse_abstract_array_declarator_3 [ok_intros]:
  "good_grammar n g \<Longrightarrow> k \<le> Suc n \<Longrightarrow> ok True k (parse_abstract_array_declarator_3 g)"
  unfolding parse_abstract_array_declarator_3_def
  by (rule ok_strict, (rule ok_intros | assumption | simp)+)

definition parse_abstract_array_declarator_2 :: "grammar \<Rightarrow> array_declarator parser" where
  "parse_abstract_array_declarator_2 g =
     p_choices
       [p_then (p_keyword (p_lit ''static'')) (
        p_then parse_ws (
        p_seq (p_many_sep parse_type_qualifier parse_ws) (\<lambda>q.
        p_then parse_ws (
        p_seq (parse_assignment_expression g) (\<lambda>e.
        p_then parse_ws (
        p_then (p_lit '']'') (p_pure (ArrayDeclarator q (ArraySize_StaticExpression e))))))))),
        parse_abstract_array_declarator_3 g]"

lemma ok_parse_abstract_array_declarator_2 [ok_intros]:
  "good_grammar n g \<Longrightarrow> k \<le> Suc n \<Longrightarrow> ok True k (parse_abstract_array_declarator_2 g)"
  unfolding parse_abstract_array_declarator_2_def
  by (rule ok_strict, (rule ok_intros | assumption | simp)+)

definition parse_abstract_array_declarator :: "grammar \<Rightarrow> array_declarator parser" where
  "parse_abstract_array_declarator g =
     p_choices
       [p_seq (p_many_sep parse_type_qualifier parse_ws) (\<lambda>q.
        p_then parse_ws (p_then (p_lit '']'') (p_pure (ArrayDeclarator q ArraySize_Unknown)))),
        p_seq (p_many_sep parse_type_qualifier parse_ws) (\<lambda>q.
        p_then parse_ws (
        p_seq (parse_assignment_expression g) (\<lambda>e.
        p_then parse_ws (
        p_then (p_lit '']'') (p_pure (ArrayDeclarator q (ArraySize_VariableExpression e))))))),
        parse_abstract_array_declarator_2 g]"

lemma ok_parse_abstract_array_declarator [ok_intros]:
  "good_grammar n g \<Longrightarrow> k \<le> Suc n \<Longrightarrow> ok True k (parse_abstract_array_declarator g)"
  unfolding parse_abstract_array_declarator_def
  by (rule ok_strict, (rule ok_intros | assumption | simp)+)

definition parse_abstract_function_declarator :: "grammar \<Rightarrow> function_declarator parser" where
  "parse_abstract_function_declarator g =
     p_choices
       [p_seq (p_at_least 1
                (p_many_sep
                   (parse_parameter_declaration g)
                   (p_then parse_ws (p_then (p_lit '','') parse_ws)))) (\<lambda>p.
        p_then parse_ws (p_seq parse_ellipsis (\<lambda>e. p_pure (FunctionDeclarator p e)))),
        p_pure (FunctionDeclarator [] Ellipsis_None)]"

lemma ok_parse_abstract_function_declarator [ok_intros]:
  "good_grammar n g \<Longrightarrow> k \<le> Suc n \<Longrightarrow> ok False k (parse_abstract_function_declarator g)"
  unfolding parse_abstract_function_declarator_def
  by (rule ok_strict, (rule ok_intros | assumption | simp)+)

definition parse_derived_abstract_declarator0 :: "grammar \<Rightarrow> derived_declarator parser" where
  "parse_derived_abstract_declarator0 g =
     p_choices
       [p_then (p_lit ''['') (
        p_then parse_ws (
        p_seq (p_node (parse_abstract_array_declarator g)) (\<lambda>a.
          p_pure (DerivedDeclarator_Array a)))),
        p_then (p_lit ''('') (
        p_then parse_ws (
        p_seq (p_node (parse_abstract_function_declarator g)) (\<lambda>d.
        p_then parse_ws (p_then (p_lit '')'') (p_pure (DerivedDeclarator_Function d))))))]"

lemma ok_parse_derived_abstract_declarator0 [ok_intros]:
  "good_grammar n g \<Longrightarrow> k \<le> Suc n \<Longrightarrow> ok True k (parse_derived_abstract_declarator0 g)"
  unfolding parse_derived_abstract_declarator0_def
  by (rule ok_strict, (rule ok_intros | assumption | simp)+)

definition parse_derived_abstract_declarator :: "grammar \<Rightarrow> derived_declarator node parser" where
  "parse_derived_abstract_declarator g =
     p_node (parse_derived_abstract_declarator0 g)"

lemma ok_parse_derived_abstract_declarator [ok_intros]:
  "good_grammar n g \<Longrightarrow> k \<le> Suc n \<Longrightarrow> ok True k (parse_derived_abstract_declarator g)"
  unfolding parse_derived_abstract_declarator_def
  by (rule ok_strict, (rule ok_intros | assumption | simp)+)

definition parse_abstract_declarator0_2 :: "grammar \<Rightarrow> declarator parser" where
  "parse_abstract_declarator0_2 g =
     p_choices
       [p_seq (p_many_sep (parse_pointer g) parse_ws) (\<lambda>p.
        p_seq p_pos (\<lambda>k.
        p_then parse_ws (
        p_seq (p_at_least 1 (p_many_sep (parse_derived_abstract_declarator g) parse_ws)) (\<lambda>d.
          p_pure (Declarator (Node DeclaratorKind_Abstract (Span k k)) (p @ d) []))))),
        p_seq (p_at_least 1 (p_many_sep (parse_pointer g) parse_ws)) (\<lambda>p.
        p_seq p_pos (\<lambda>k. p_pure (Declarator (Node DeclaratorKind_Abstract (Span k k)) p [])))]"

lemma ok_parse_abstract_declarator0_2 [ok_intros]:
  "good_grammar n g \<Longrightarrow> k \<le> Suc n \<Longrightarrow> ok True k (parse_abstract_declarator0_2 g)"
  unfolding parse_abstract_declarator0_2_def
  by (rule ok_strict, (rule ok_intros | assumption | simp)+)

definition parse_abstract_declarator0 :: "grammar \<Rightarrow> declarator parser" where
  "parse_abstract_declarator0 g =
     p_choices
       [p_seq (p_many_sep (parse_pointer g) parse_ws) (\<lambda>p.
        p_then parse_ws (
        p_seq (p_node (parse_direct_abstract_declarator g)) (\<lambda>k.
        p_then parse_ws (
        p_seq (p_many_sep (parse_derived_abstract_declarator g) parse_ws) (\<lambda>d.
          p_pure (Declarator k (p @ d) [])))))),
        parse_abstract_declarator0_2 g]"

lemma ok_parse_abstract_declarator0 [ok_intros]:
  "good_grammar n g \<Longrightarrow> k \<le> Suc n \<Longrightarrow> ok True k (parse_abstract_declarator0 g)"
  unfolding parse_abstract_declarator0_def
  by (rule ok_strict, (rule ok_intros | assumption | simp)+)

definition parse_abstract_declarator :: "grammar \<Rightarrow> declarator node parser" where
  "parse_abstract_declarator g =
     p_node (parse_abstract_declarator0 g)"

lemma ok_parse_abstract_declarator [ok_intros]:
  "good_grammar n g \<Longrightarrow> k \<le> Suc n \<Longrightarrow> ok True k (parse_abstract_declarator g)"
  unfolding parse_abstract_declarator_def
  by (rule ok_strict, (rule ok_intros | assumption | simp)+)

definition parse_parameter_declarator :: "grammar \<Rightarrow> declarator node option parser" where
  "parse_parameter_declarator g =
     p_choices
       [p_seq (parse_declarator g) (\<lambda>d.
          p_then (p_modify (handle_declarator d Symbol_Identifier)) (p_pure (Some d))),
        p_seq (parse_abstract_declarator g) (\<lambda>d. p_pure (Some d)),
        p_pure None]"

lemma ok_parse_parameter_declarator [ok_intros]:
  "good_grammar n g \<Longrightarrow> k \<le> Suc n \<Longrightarrow> ok False k (parse_parameter_declarator g)"
  unfolding parse_parameter_declarator_def
  by (rule ok_strict, (rule ok_intros | assumption | simp)+)

definition parse_colon_designation :: "designator parser" where
  "parse_colon_designation =
     p_seq parse_identifier (\<lambda>i.
     p_then parse_ws (p_then (p_lit '':'') (p_pure (Designator_Member i))))"

lemma ok_parse_colon_designation [ok_intros]:
  "ok True k parse_colon_designation"
  unfolding parse_colon_designation_def
  by (rule ok_strict, (rule ok_intros | assumption | simp)+)

definition parse_range_suffix :: "grammar \<Rightarrow> expression node parser" where
  "parse_range_suffix g =
     p_then (p_lit ''...'') (p_then parse_ws (p_node (parse_constant_expression0 g)))"

lemma ok_parse_range_suffix [ok_intros]:
  "good_grammar n g \<Longrightarrow> k \<le> Suc n \<Longrightarrow> ok True k (parse_range_suffix g)"
  unfolding parse_range_suffix_def
  by (rule ok_strict, (rule ok_intros | assumption | simp)+)

definition parse_array_designator :: "grammar \<Rightarrow> designator parser" where
  "parse_array_designator g =
     p_then (p_lit ''['') (
     p_then parse_ws (
     p_seq (p_node (parse_constant_expression0 g)) (\<lambda>a.
     p_then parse_ws (
     p_seq (p_opt (p_then (p_and parse_gnu_guard) (parse_range_suffix g))) (\<lambda>b.
     p_then (p_lit '']'') (
       p_pure
         (case b of
            Some b \<Rightarrow>
              Designator_Range (Node (RangeDesignator a b) (Span (span_start (node_span a)) (span_end (node_span b))))
          | None \<Rightarrow> Designator_Index a)))))))"

lemma ok_parse_array_designator [ok_intros]:
  "good_grammar n g \<Longrightarrow> k \<le> Suc n \<Longrightarrow> ok True k (parse_array_designator g)"
  unfolding parse_array_designator_def
  by (rule ok_strict, (rule ok_intros | assumption | simp)+)

definition parse_designator :: "grammar \<Rightarrow> designator parser" where
  "parse_designator g =
     p_choices
       [parse_array_designator g,
        p_then (p_lit ''.'') (
        p_then parse_ws (p_seq parse_identifier (\<lambda>i. p_pure (Designator_Member i))))]"

lemma ok_parse_designator [ok_intros]:
  "good_grammar n g \<Longrightarrow> k \<le> Suc n \<Longrightarrow> ok True k (parse_designator g)"
  unfolding parse_designator_def
  by (rule ok_strict, (rule ok_intros | assumption | simp)+)

definition parse_designation_2 :: "grammar \<Rightarrow> designator node list parser" where
  "parse_designation_2 g =
     p_seq (p_then (p_and parse_gnu_guard) (p_node (parse_array_designator g))) (\<lambda>d. p_pure [d])"

lemma ok_parse_designation_2 [ok_intros]:
  "good_grammar n g \<Longrightarrow> k \<le> Suc n \<Longrightarrow> ok True k (parse_designation_2 g)"
  unfolding parse_designation_2_def
  by (rule ok_strict, (rule ok_intros | assumption | simp)+)

definition parse_designation :: "grammar \<Rightarrow> designator node list parser" where
  "parse_designation g =
     p_choices
       [p_seq (p_at_least 1 (p_many_sep (p_node (parse_designator g)) parse_ws)) (\<lambda>d.
        p_then parse_ws (p_then (p_lit ''='') (p_pure d))),
        p_seq (p_then (p_and parse_gnu_guard) (p_node parse_colon_designation)) (\<lambda>d. p_pure [d]),
        parse_designation_2 g]"

lemma ok_parse_designation [ok_intros]:
  "good_grammar n g \<Longrightarrow> k \<le> Suc n \<Longrightarrow> ok True k (parse_designation g)"
  unfolding parse_designation_def
  by (rule ok_strict, (rule ok_intros | assumption | simp)+)

definition parse_initializer_list_item :: "grammar \<Rightarrow> initializer_list_item parser" where
  "parse_initializer_list_item g =
     p_seq (p_opt (parse_designation g)) (\<lambda>d.
     p_then parse_ws (
     p_seq (p_node (parse_initializer g)) (\<lambda>i.
       p_pure (InitializerListItem (case d of None \<Rightarrow> [] | Some xs \<Rightarrow> xs) i))))"

lemma ok_parse_initializer_list_item [ok_intros]:
  "good_grammar n g \<Longrightarrow> k \<le> Suc n \<Longrightarrow> ok True k (parse_initializer_list_item g)"
  unfolding parse_initializer_list_item_def
  by (rule ok_strict, (rule ok_intros | assumption | simp)+)

end
