(* ===== verification/Grammar_Stmt.thy ===== *)
theory Grammar_Stmt
  imports Grammar_Decl
begin

text \<open>
  Statements and translation units (\<open>statements_labels_and_selection.rs\<close>,
  \<open>statements_iteration_and_jump.rs\<close>, \<open>asm_statements.rs\<close>, \<open>translation_units_and_functions.rs\<close>).
\<close>

definition parse_label_2 :: "grammar \<Rightarrow> c_label parser" where
  "parse_label_2 g =
     p_then (p_keyword (p_lit ''default'')) (p_pure Label_Default)"

lemma ok_parse_label_2 [ok_intros]:
  "good_grammar n g \<Longrightarrow> k \<le> Suc n \<Longrightarrow> ok True k (parse_label_2 g)"
  unfolding parse_label_2_def
  by (rule ok_strict, (rule ok_intros | assumption | simp)+)

definition parse_label :: "grammar \<Rightarrow> c_label parser" where
  "parse_label g =
     p_choices
       [p_seq parse_identifier (\<lambda>i. p_pure (Label_Identifier i)),
        p_then (p_keyword (p_lit ''case'')) (
        p_then parse_ws (
        p_seq (parse_constant_expression g) (\<lambda>a.
        p_then parse_ws (
        p_seq (p_opt (p_then (p_and parse_gnu_guard) (parse_range_suffix g))) (\<lambda>b.
          p_pure
            (case b of
               Some b \<Rightarrow>
                 Label_CaseRange (Node (CaseRange a b) (Span (span_start (node_span a)) (span_end (node_span b))))
             | None \<Rightarrow> Label_Case a)))))),
        parse_label_2 g]"

lemma ok_parse_label [ok_intros]:
  "good_grammar n g \<Longrightarrow> k \<le> Suc n \<Longrightarrow> ok True k (parse_label g)"
  unfolding parse_label_def
  by (rule ok_strict, (rule ok_intros | assumption | simp)+)

definition parse_labeled_statement :: "grammar \<Rightarrow> labeled_statement parser" where
  "parse_labeled_statement g =
     p_seq (p_node (parse_label g)) (\<lambda>l.
     p_then parse_ws (
     p_then (p_lit '':'') (
     p_then parse_ws (p_seq (g_statement g) (\<lambda>s. p_pure (LabeledStatement l s))))))"

lemma ok_parse_labeled_statement [ok_intros]:
  "good_grammar n g \<Longrightarrow> k \<le> Suc n \<Longrightarrow> ok True k (parse_labeled_statement g)"
  unfolding parse_labeled_statement_def
  by (rule ok_strict, (rule ok_intros | assumption | simp)+)

definition parse_expression_statement :: "grammar \<Rightarrow> statement parser" where
  "parse_expression_statement g =
     p_seq (p_opt (parse_expression g)) (\<lambda>e.
     p_then parse_ws (p_then (p_lit '';'') (p_pure (Statement_Expression e))))"

lemma ok_parse_expression_statement [ok_intros]:
  "good_grammar n g \<Longrightarrow> k \<le> Suc n \<Longrightarrow> ok True k (parse_expression_statement g)"
  unfolding parse_expression_statement_def
  by (rule ok_strict, (rule ok_intros | assumption | simp)+)

definition parse_else_statement :: "grammar \<Rightarrow> statement node parser" where
  "parse_else_statement g =
     p_then (p_keyword (p_lit ''else'')) (p_then parse_ws (g_statement g))"

lemma ok_parse_else_statement [ok_intros]:
  "good_grammar n g \<Longrightarrow> k \<le> Suc n \<Longrightarrow> ok True k (parse_else_statement g)"
  unfolding parse_else_statement_def
  by (rule ok_strict, (rule ok_intros | assumption | simp)+)

definition parse_if_statement :: "grammar \<Rightarrow> if_statement parser" where
  "parse_if_statement g =
     p_then (p_keyword (p_lit ''if'')) (
     p_then parse_ws (
     p_then (p_lit ''('') (
     p_then parse_ws (
     p_seq (parse_expression g) (\<lambda>e.
     p_then parse_ws (
     p_then (p_lit '')'') (
     p_then parse_ws (
     p_seq (g_statement g) (\<lambda>a.
     p_then parse_ws (
     p_seq (p_opt (parse_else_statement g)) (\<lambda>b. p_pure (IfStatement e a b))))))))))))"

lemma ok_parse_if_statement [ok_intros]:
  "good_grammar n g \<Longrightarrow> k \<le> Suc n \<Longrightarrow> ok True k (parse_if_statement g)"
  unfolding parse_if_statement_def
  by (rule ok_strict, (rule ok_intros | assumption | simp)+)

definition parse_switch_statement :: "grammar \<Rightarrow> switch_statement parser" where
  "parse_switch_statement g =
     p_then (p_keyword (p_lit ''switch'')) (
     p_then parse_ws (
     p_then (p_lit ''('') (
     p_then parse_ws (
     p_seq (parse_expression g) (\<lambda>e.
     p_then parse_ws (
     p_then (p_lit '')'') (
     p_then parse_ws (p_seq (g_statement g) (\<lambda>s. p_pure (SwitchStatement e s))))))))))"

lemma ok_parse_switch_statement [ok_intros]:
  "good_grammar n g \<Longrightarrow> k \<le> Suc n \<Longrightarrow> ok True k (parse_switch_statement g)"
  unfolding parse_switch_statement_def
  by (rule ok_strict, (rule ok_intros | assumption | simp)+)

definition parse_selection_statement :: "grammar \<Rightarrow> statement parser" where
  "parse_selection_statement g =
     p_choices
       [p_seq (p_node (parse_if_statement g)) (\<lambda>s. p_pure (Statement_If s)),
        p_seq (p_node (parse_switch_statement g)) (\<lambda>s. p_pure (Statement_Switch s))]"

lemma ok_parse_selection_statement [ok_intros]:
  "good_grammar n g \<Longrightarrow> k \<le> Suc n \<Longrightarrow> ok True k (parse_selection_statement g)"
  unfolding parse_selection_statement_def
  by (rule ok_strict, (rule ok_intros | assumption | simp)+)

definition parse_while_statement :: "grammar \<Rightarrow> while_statement parser" where
  "parse_while_statement g =
     p_then (p_keyword (p_lit ''while'')) (
     p_then parse_ws (
     p_then (p_lit ''('') (
     p_then parse_ws (
     p_seq (parse_expression g) (\<lambda>e.
     p_then parse_ws (
     p_then (p_lit '')'') (
     p_then parse_ws (p_seq (g_statement g) (\<lambda>s. p_pure (WhileStatement e s))))))))))"

lemma ok_parse_while_statement [ok_intros]:
  "good_grammar n g \<Longrightarrow> k \<le> Suc n \<Longrightarrow> ok True k (parse_while_statement g)"
  unfolding parse_while_statement_def
  by (rule ok_strict, (rule ok_intros | assumption | simp)+)

definition parse_do_while_statement :: "grammar \<Rightarrow> do_while_statement parser" where
  "parse_do_while_statement g =
     p_then (p_keyword (p_lit ''do'')) (
     p_then parse_ws (
     p_seq (g_statement g) (\<lambda>s.
     p_then parse_ws (
     p_then (p_keyword (p_lit ''while'')) (
     p_then parse_ws (
     p_then (p_lit ''('') (
     p_then parse_ws (
     p_seq (parse_expression g) (\<lambda>e.
     p_then parse_ws (
     p_then (p_lit '')'') (
     p_then parse_ws (p_then (p_lit '';'') (p_pure (DoWhileStatement s e))))))))))))))"

lemma ok_parse_do_while_statement [ok_intros]:
  "good_grammar n g \<Longrightarrow> k \<le> Suc n \<Longrightarrow> ok True k (parse_do_while_statement g)"
  unfolding parse_do_while_statement_def
  by (rule ok_strict, (rule ok_intros | assumption | simp)+)

definition parse_for_initializer :: "grammar \<Rightarrow> for_initializer parser" where
  "parse_for_initializer g =
     p_choices
       [p_seq (parse_expression g) (\<lambda>e.
        p_then parse_ws (p_then (p_lit '';'') (p_pure (ForInitializer_Expression e)))),
        p_seq (parse_declaration g) (\<lambda>d. p_pure (ForInitializer_Declaration d)),
        p_seq (parse_static_assert g) (\<lambda>s. p_pure (ForInitializer_StaticAssert s)),
        p_then (p_lit '';'') (p_pure ForInitializer_Empty)]"

lemma ok_parse_for_initializer [ok_intros]:
  "good_grammar n g \<Longrightarrow> k \<le> Suc n \<Longrightarrow> ok True k (parse_for_initializer g)"
  unfolding parse_for_initializer_def
  by (rule ok_strict, (rule ok_intros | assumption | simp)+)

definition parse_for_statement :: "grammar \<Rightarrow> for_statement parser" where
  "parse_for_statement g =
     p_then (p_keyword (p_lit ''for'')) (
     p_then parse_ws (
     p_then (p_lit ''('') (
     p_then parse_ws (
     p_seq (p_node (parse_for_initializer g)) (\<lambda>a.
     p_then parse_ws (
     p_seq (p_opt (parse_expression g)) (\<lambda>b.
     p_then parse_ws (
     p_then (p_lit '';'') (
     p_then parse_ws (
     p_seq (p_opt (parse_expression g)) (\<lambda>c.
     p_then parse_ws (
     p_then (p_lit '')'') (
     p_then parse_ws (p_seq (g_statement g) (\<lambda>s. p_pure (ForStatement a b c s))))))))))))))))"

lemma ok_parse_for_statement [ok_intros]:
  "good_grammar n g \<Longrightarrow> k \<le> Suc n \<Longrightarrow> ok True k (parse_for_statement g)"
  unfolding parse_for_statement_def
  by (rule ok_strict, (rule ok_intros | assumption | simp)+)

definition parse_iteration_statement :: "grammar \<Rightarrow> statement parser" where
  "parse_iteration_statement g =
     p_choices
       [p_seq (p_node (parse_while_statement g)) (\<lambda>s. p_pure (Statement_While s)),
        p_seq (p_node (parse_do_while_statement g)) (\<lambda>s. p_pure (Statement_DoWhile s)),
        p_seq (p_node (parse_for_statement g)) (\<lambda>s. p_pure (Statement_For s))]"

lemma ok_parse_iteration_statement [ok_intros]:
  "good_grammar n g \<Longrightarrow> k \<le> Suc n \<Longrightarrow> ok True k (parse_iteration_statement g)"
  unfolding parse_iteration_statement_def
  by (rule ok_strict, (rule ok_intros | assumption | simp)+)

definition parse_jump_statement_2 :: "grammar \<Rightarrow> statement parser" where
  "parse_jump_statement_2 g =
     p_choices
       [p_then (p_keyword (p_lit ''break'')) (
        p_then parse_ws (p_then (p_lit '';'') (p_pure Statement_Break))),
        p_then (p_keyword (p_lit ''return'')) (
        p_then parse_ws (
        p_seq (p_opt (parse_expression g)) (\<lambda>e.
        p_then parse_ws (p_then (p_lit '';'') (p_pure (Statement_Return e))))))]"

lemma ok_parse_jump_statement_2 [ok_intros]:
  "good_grammar n g \<Longrightarrow> k \<le> Suc n \<Longrightarrow> ok True k (parse_jump_statement_2 g)"
  unfolding parse_jump_statement_2_def
  by (rule ok_strict, (rule ok_intros | assumption | simp)+)

definition parse_jump_statement :: "grammar \<Rightarrow> statement parser" where
  "parse_jump_statement g =
     p_choices
       [p_then (p_keyword (p_lit ''goto'')) (
        p_then parse_ws (
        p_seq parse_identifier (\<lambda>i.
        p_then parse_ws (p_then (p_lit '';'') (p_pure (Statement_Goto i)))))),
        p_then (p_keyword (p_lit ''continue'')) (
        p_then parse_ws (p_then (p_lit '';'') (p_pure Statement_Continue))),
        parse_jump_statement_2 g]"

lemma ok_parse_jump_statement [ok_intros]:
  "good_grammar n g \<Longrightarrow> k \<le> Suc n \<Longrightarrow> ok True k (parse_jump_statement g)"
  unfolding parse_jump_statement_def
  by (rule ok_strict, (rule ok_intros | assumption | simp)+)

definition parse_asm_operand :: "grammar \<Rightarrow> gnu_asm_operand parser" where
  "parse_asm_operand g =
     p_seq (p_opt
             (p_then (p_lit ''['') (
              p_then parse_ws (
              p_seq parse_identifier (\<lambda>i.
              p_then parse_ws (p_then (p_lit '']'') (p_then parse_ws (p_pure i)))))))) (\<lambda>i.
     p_seq parse_string_literal (\<lambda>s.
     p_then parse_ws (
     p_then (p_lit ''('') (
     p_then parse_ws (
     p_seq (p_node (parse_expression0 g)) (\<lambda>e.
     p_then parse_ws (p_then (p_lit '')'') (p_pure (GnuAsmOperand i s e)))))))))"

lemma ok_parse_asm_operand [ok_intros]:
  "good_grammar n g \<Longrightarrow> k \<le> Suc n \<Longrightarrow> ok True k (parse_asm_operand g)"
  unfolding parse_asm_operand_def
  by (rule ok_strict, (rule ok_intros | assumption | simp)+)

definition parse_asm_operand_list :: "grammar \<Rightarrow> gnu_asm_operand node list parser" where
  "parse_asm_operand_list g =
     p_many_sep (p_node (parse_asm_operand g)) (p_then parse_ws (p_then (p_lit '','') parse_ws))"

lemma ok_parse_asm_operand_list [ok_intros]:
  "good_grammar n g \<Longrightarrow> k \<le> Suc n \<Longrightarrow> ok False k (parse_asm_operand_list g)"
  unfolding parse_asm_operand_list_def
  by (rule ok_strict, (rule ok_intros | assumption | simp)+)

definition parse_asm_statement0 :: "grammar \<Rightarrow> asm_statement parser" where
  "parse_asm_statement0 g =
     p_then (p_keyword
              (p_choices [p_lit ''asm'', p_then (p_lit ''__asm'') (p_maybe (p_lit ''__''))])) (
     p_then parse_ws (
     p_seq (p_opt parse_type_qualifier) (\<lambda>q.
     p_then parse_ws (
     p_then (p_lit ''('') (
     p_then parse_ws (
     p_seq parse_string_literal (\<lambda>a.
     p_then parse_ws (
     p_seq (p_opt
             (p_then (p_lit '':'') (
              p_then parse_ws (
              p_seq (parse_asm_operand_list g) (\<lambda>e.
              p_then parse_ws (
              p_seq (p_opt
                      (p_then (p_lit '':'') (
                       p_then parse_ws (
                       p_seq (parse_asm_operand_list g) (\<lambda>e.
                       p_then parse_ws (
                       p_seq (p_opt
                               (p_then (p_lit '':'') (
                                p_then parse_ws (
                                p_seq (p_many_sep
                                         (parse_string_literal)
                                         (p_then parse_ws (p_then (p_lit '','') parse_ws))) (\<lambda>e.
                                p_then parse_ws (
                                p_seq (p_opt (p_pure ())) (\<lambda>t.
                                  p_pure (e, case t of None \<Rightarrow> () | Some x \<Rightarrow> x)))))))) (\<lambda>t.
                         p_pure (e, case t of None \<Rightarrow> ([], ()) | Some x \<Rightarrow> x)))))))) (\<lambda>t.
                p_pure (e, case t of None \<Rightarrow> ([], [], ()) | Some x \<Rightarrow> x)))))))) (\<lambda>opr.
     p_then parse_ws (
     p_then (p_lit '')'') (
     p_then parse_ws (
     p_then (p_lit '';'') (
       p_pure
         (case opr of
            Some (outs, ins, clobbers, _) \<Rightarrow>
              AsmStatement_GnuExtended (GnuExtendedAsmStatement q a outs ins clobbers)
          | None \<Rightarrow> AsmStatement_GnuBasic a))))))))))))))"

lemma ok_parse_asm_statement0 [ok_intros]:
  "good_grammar n g \<Longrightarrow> k \<le> Suc n \<Longrightarrow> ok True k (parse_asm_statement0 g)"
  unfolding parse_asm_statement0_def
  by (rule ok_strict, (rule ok_intros | assumption | simp)+)

definition parse_asm_statement :: "grammar \<Rightarrow> statement parser" where
  "parse_asm_statement g =
     p_seq (p_node (parse_asm_statement0 g)) (\<lambda>s. p_pure (Statement_Asm s))"

lemma ok_parse_asm_statement [ok_intros]:
  "good_grammar n g \<Longrightarrow> k \<le> Suc n \<Longrightarrow> ok True k (parse_asm_statement g)"
  unfolding parse_asm_statement_def
  by (rule ok_strict, (rule ok_intros | assumption | simp)+)

definition parse_statement0_2 :: "grammar \<Rightarrow> statement parser" where
  "parse_statement0_2 g =
     p_then (p_and parse_gnu_guard) (parse_asm_statement g)"

lemma ok_parse_statement0_2 [ok_intros]:
  "good_grammar n g \<Longrightarrow> k \<le> Suc n \<Longrightarrow> ok True k (parse_statement0_2 g)"
  unfolding parse_statement0_2_def
  by (rule ok_strict, (rule ok_intros | assumption | simp)+)

definition parse_statement0 :: "grammar \<Rightarrow> statement parser" where
  "parse_statement0 g =
     p_choices
       [p_seq (p_node (parse_labeled_statement g)) (\<lambda>s. p_pure (Statement_Labeled s)),
        p_scoped (parse_compound_statement g),
        parse_expression_statement g,
        p_scoped (parse_selection_statement g),
        p_scoped (parse_iteration_statement g),
        parse_jump_statement g,
        parse_statement0_2 g]"

lemma ok_parse_statement0 [ok_intros]:
  "good_grammar n g \<Longrightarrow> k \<le> Suc n \<Longrightarrow> ok True k (parse_statement0 g)"
  unfolding parse_statement0_def
  by (rule ok_strict, (rule ok_intros | assumption | simp)+)

definition parse_statement :: "grammar \<Rightarrow> statement node parser" where
  "parse_statement g =
     p_seq (p_node (parse_statement0 g)) (\<lambda>e. p_pure e)"

lemma ok_parse_statement [ok_intros]:
  "good_grammar n g \<Longrightarrow> k \<le> Suc n \<Longrightarrow> ok True k (parse_statement g)"
  unfolding parse_statement_def
  by (rule ok_strict, (rule ok_intros | assumption | simp)+)

definition parse_block_item :: "grammar \<Rightarrow> block_item parser" where
  "parse_block_item g =
     p_choices
       [p_seq (parse_declaration g) (\<lambda>d. p_pure (BlockItem_Declaration d)),
        p_seq (parse_static_assert g) (\<lambda>s. p_pure (BlockItem_StaticAssert s)),
        p_seq (p_node (parse_statement0 g)) (\<lambda>s. p_pure (BlockItem_Statement s))]"

lemma ok_parse_block_item [ok_intros]:
  "good_grammar n g \<Longrightarrow> k \<le> Suc n \<Longrightarrow> ok True k (parse_block_item g)"
  unfolding parse_block_item_def
  by (rule ok_strict, (rule ok_intros | assumption | simp)+)

definition parse_function_definition :: "grammar \<Rightarrow> function_definition parser" where
  "parse_function_definition g =
     p_then (p_maybe (p_then (p_and parse_gnu_guard) (p_keyword (p_lit ''__extension__'')))) (
     p_then parse_ws (
     p_seq (parse_declaration_specifiers g) (\<lambda>a.
     p_then parse_ws (
     p_seq (parse_declarator g) (\<lambda>b.
     p_then parse_ws (
     p_seq (p_many_sep (parse_declaration g) parse_ws) (\<lambda>c.
     p_then parse_ws (
     p_seq (p_node (parse_compound_statement g)) (\<lambda>d.
       p_pure (FunctionDefinition a b c d))))))))))"

lemma ok_parse_function_definition [ok_intros]:
  "good_grammar n g \<Longrightarrow> k \<le> Suc n \<Longrightarrow> ok True k (parse_function_definition g)"
  unfolding parse_function_definition_def
  by (rule ok_strict, (rule ok_intros | assumption | simp)+)

definition parse_external_declaration0 :: "grammar \<Rightarrow> external_declaration parser" where
  "parse_external_declaration0 g =
     p_choices
       [p_seq (parse_declaration g) (\<lambda>d. p_pure (ExternalDeclaration_Declaration d)),
        p_seq (parse_static_assert g) (\<lambda>s. p_pure (ExternalDeclaration_StaticAssert s)),
        p_seq (p_scoped (p_node (parse_function_definition g))) (\<lambda>d.
          p_pure (ExternalDeclaration_FunctionDefinition d))]"

lemma ok_parse_external_declaration0 [ok_intros]:
  "good_grammar n g \<Longrightarrow> k \<le> Suc n \<Longrightarrow> ok True k (parse_external_declaration0 g)"
  unfolding parse_external_declaration0_def
  by (rule ok_strict, (rule ok_intros | assumption | simp)+)

definition parse_external_declaration :: "grammar \<Rightarrow> external_declaration parser" where
  "parse_external_declaration g =
     p_seq (parse_external_declaration0 g) (\<lambda>d.
     p_then (p_maybe (p_then (p_and parse_gnu_guard) (p_many (p_then parse_ws (p_lit '';''))))) (
       p_pure d))"

lemma ok_parse_external_declaration [ok_intros]:
  "good_grammar n g \<Longrightarrow> k \<le> Suc n \<Longrightarrow> ok True k (parse_external_declaration g)"
  unfolding parse_external_declaration_def
  by (rule ok_strict, (rule ok_intros | assumption | simp)+)

definition parse_translation_unit :: "grammar \<Rightarrow> translation_unit parser" where
  "parse_translation_unit g =
     p_then (p_maybe parse_directive_line) (
     p_then parse_ws (
     p_seq (p_many_sep (p_node (parse_external_declaration g)) parse_ws) (\<lambda>d.
     p_then parse_ws (p_pure (TranslationUnit d)))))"

lemma ok_parse_translation_unit [ok_intros]:
  "good_grammar n g \<Longrightarrow> k \<le> Suc n \<Longrightarrow> ok False k (parse_translation_unit g)"
  unfolding parse_translation_unit_def
  by (rule ok_strict, (rule ok_intros | assumption | simp)+)

definition parse_typeof_specifier0 :: "grammar \<Rightarrow> type_of parser" where
  "parse_typeof_specifier0 g =
     p_choices
       [p_seq (p_node (parse_expression0 g)) (\<lambda>e. p_pure (TypeOf_Expression e)),
        p_seq (parse_type_name g) (\<lambda>t. p_pure (TypeOf_Type t))]"

lemma ok_parse_typeof_specifier0 [ok_intros]:
  "good_grammar n g \<Longrightarrow> k \<le> Suc n \<Longrightarrow> ok True k (parse_typeof_specifier0 g)"
  unfolding parse_typeof_specifier0_def
  by (rule ok_strict, (rule ok_intros | assumption | simp)+)

end
