(* ===== verification/Parser.thy ===== *)
theory Parser
  imports Grammar_Stmt
begin

text \<open>
  The recursive parser, its entry points (\<open>src/parser/public_api.rs\<close>), and what holds of every rule: on
  valid UTF-8 text the parser returns, without panic, with its position and its error position at a
  character boundary of the text, having only added names to the current scope.

  The recursion is bounded by a level argument: each level ties the rules to the rules of the level
  below, and the lowest level does not return.  Every recursive call happens after at least one byte was
  consumed, so the length of the text plus one is enough.
\<close>

subsection \<open>The recursive grammar\<close>

definition p_stuck :: "'a parser" where
  "p_stuck input pos st = NoReturn"

primrec grammar_at :: "nat \<Rightarrow> grammar" where
  "grammar_at 0 =
     \<lparr>g_type_name = p_stuck,
      g_unary_expression0 = p_stuck,
      g_conditional_expression0 = p_stuck,
      g_unary_expression = p_stuck,
      g_assignment_expression0 = p_stuck,
      g_expression0 = p_stuck,
      g_cast_expression = p_stuck,
      g_assignment_expression = p_stuck,
      g_constant_expression = p_stuck,
      g_declarator = p_stuck,
      g_struct_declaration = p_stuck,
      g_abstract_declarator = p_stuck,
      g_parameter_declarator = p_stuck,
      g_initializer_list_item = p_stuck,
      g_statement = p_stuck,
      g_block_item = p_stuck,
      g_typeof_specifier0 = p_stuck\<rparr>"
| "grammar_at (Suc n) =
     (let g = grammar_at n in
     \<lparr>g_type_name = parse_type_name g,
      g_unary_expression0 = parse_unary_expression0 g,
      g_conditional_expression0 = parse_conditional_expression0 g,
      g_unary_expression = parse_unary_expression g,
      g_assignment_expression0 = parse_assignment_expression0 g,
      g_expression0 = parse_expression0 g,
      g_cast_expression = parse_cast_expression g,
      g_assignment_expression = parse_assignment_expression g,
      g_constant_expression = parse_constant_expression g,
      g_declarator = parse_declarator g,
      g_struct_declaration = parse_struct_declaration g,
      g_abstract_declarator = parse_abstract_declarator g,
      g_parameter_declarator = parse_parameter_declarator g,
      g_initializer_list_item = parse_initializer_list_item g,
      g_statement = parse_statement g,
      g_block_item = parse_block_item g,
      g_typeof_specifier0 = parse_typeof_specifier0 g\<rparr>)"

lemma good_grammar_at: "good_grammar n (grammar_at n)"
proof (induction n)
  case 0
  show ?case by (simp add: good_grammar_def ok_def)
next
  case (Suc n)
  note rules = ok_parse_type_name
    ok_parse_unary_expression0
    ok_parse_conditional_expression0
    ok_parse_unary_expression
    ok_parse_assignment_expression0
    ok_parse_expression0
    ok_parse_cast_expression
    ok_parse_assignment_expression
    ok_parse_constant_expression
    ok_parse_declarator
    ok_parse_struct_declaration
    ok_parse_abstract_declarator
    ok_parse_parameter_declarator
    ok_parse_initializer_list_item
    ok_parse_statement
    ok_parse_block_item
    ok_parse_typeof_specifier0
  show ?case
    unfolding good_grammar_def
    by (simp add: rules [OF Suc.IH] Let_def)
qed

definition grammar_for :: "string \<Rightarrow> grammar" where
  "grammar_for input = grammar_at (length input)"


subsection \<open>Entry points\<close>

record parse_error =
  err_line :: nat
  err_column :: nat
  err_offset :: nat
  err_expected :: "string set"

text \<open>
  \<open>&input[..pos]\<close> panics inside a character.  The column counts characters, that is, the bytes that do
  not continue one.
\<close>

definition pos_to_line :: "string \<Rightarrow> nat \<Rightarrow> (nat \<times> nat) outcome" where
  "pos_to_line input pos =
     (if pos \<le> length input \<and> is_char_boundary input pos then
        let start = take pos input
        in Ok (length (filter (\<lambda>c. c = NL) start) + 1,
               length (filter (\<lambda>c. \<not> cont_byte c) (takeWhile (\<lambda>c. c \<noteq> NL) (rev start))) + 1)
      else Panic SliceOutOfRange)"

definition error_at :: "string \<Rightarrow> nat \<Rightarrow> string set \<Rightarrow> parse_error outcome" where
  "error_at input offset names =
     and_then (pos_to_line input offset) (\<lambda>(line, col).
       Ok \<lparr>err_line = line, err_column = col, err_offset = offset, err_expected = names\<rparr>)"

text \<open>The body that the entry points share.  The environment is returned as the parser leaves it.\<close>

definition parse_all :: "'a parser \<Rightarrow> string \<Rightarrow> env \<Rightarrow> ((parse_error + 'a) \<times> env) outcome" where
  "parse_all p input e =
     and_then (p input 0 (new_parse_state e)) (\<lambda>(r, st).
       let failed = and_then (error_at input (max_err_pos st) (expected st)) (\<lambda>err. Ok (Inl err, env st))
       in case r of
            Matched pos v \<Rightarrow> if pos = length input then Ok (Inr v, env st) else failed
          | Failed \<Rightarrow> failed)"

definition parse_constant_text :: "string \<Rightarrow> env \<Rightarrow> ((parse_error + c_constant) \<times> env) outcome" where
  "parse_constant_text input = parse_all parse_constant input"

definition parse_string_literal_text ::
  "string \<Rightarrow> env \<Rightarrow> ((parse_error + string list node) \<times> env) outcome" where
  "parse_string_literal_text input = parse_all parse_string_literal input"

definition parse_expression_text ::
  "string \<Rightarrow> env \<Rightarrow> ((parse_error + expression node) \<times> env) outcome" where
  "parse_expression_text input = parse_all (parse_expression (grammar_for input)) input"

definition parse_declaration_text ::
  "string \<Rightarrow> env \<Rightarrow> ((parse_error + c_declaration node) \<times> env) outcome" where
  "parse_declaration_text input = parse_all (parse_declaration (grammar_for input)) input"

definition parse_statement_text ::
  "string \<Rightarrow> env \<Rightarrow> ((parse_error + statement node) \<times> env) outcome" where
  "parse_statement_text input = parse_all (parse_statement (grammar_for input)) input"

definition parse_translation_unit_text ::
  "string \<Rightarrow> env \<Rightarrow> ((parse_error + translation_unit) \<times> env) outcome" where
  "parse_translation_unit_text input = parse_all (parse_translation_unit (grammar_for input)) input"

subsection \<open>Recovery\<close>

record recovery_error =
  rec_error :: parse_error
  rec_skipped :: span

record recovered_translation_unit =
  rec_unit :: translation_unit
  rec_errors :: "recovery_error list"

definition skip_while :: "(char \<Rightarrow> bool) \<Rightarrow> string \<Rightarrow> nat \<Rightarrow> nat" where
  "skip_while P input i = i + length (takeWhile P (drop i input))"

lemma skip_while_ge [simp]: "i \<le> skip_while P input i"
  by (simp add: skip_while_def)

lemma skip_while_step: "i < length input \<Longrightarrow> P (input ! i) \<Longrightarrow> i < skip_while P input i"
  by (simp add: skip_while_def Cons_nth_drop_Suc [symmetric])

function skip_comment :: "string \<Rightarrow> nat \<Rightarrow> nat" where
  "skip_comment input i =
     (if i + 1 < length input then
        if input ! i = CHR ''*'' \<and> input ! (i + 1) = CHR ''/'' then i + 2
        else skip_comment input (i + 1)
      else i)"
  by pat_completeness auto

termination
  by (relation "measure (\<lambda>(input, i). length input - i)") auto

declare skip_comment.simps [simp del]

lemma skip_comment_ge: "i \<le> skip_comment input i"
  by (induction input i rule: skip_comment.induct) (subst skip_comment.simps, auto)

function skip_quoted :: "string \<Rightarrow> char \<Rightarrow> nat \<Rightarrow> nat" where
  "skip_quoted input quote i =
     (if i < length input then
        if input ! i = quote then i + 1
        else if input ! i = CHR 0x5C \<and> i + 1 < length input then skip_quoted input quote (i + 2)
        else skip_quoted input quote (i + 1)
      else i)"
  by pat_completeness auto

termination
  by (relation "measure (\<lambda>(input, quote, i). length input - i)") auto

declare skip_quoted.simps [simp del]

lemma skip_quoted_ge: "i \<le> skip_quoted input quote i"
  by (induction input quote i rule: skip_quoted.induct) (subst skip_quoted.simps, auto)

text \<open>After the brace that closes a block: white space and one semicolon.\<close>

definition after_block :: "string \<Rightarrow> nat \<Rightarrow> nat" where
  "after_block input i =
     (let j = skip_while (\<lambda>c. c \<in> {CHR '' '', CHR 0x09, NL, CHR 0x0D}) input i
      in if j < length input \<and> input ! j = CHR '';'' then j + 1 else j)"

text \<open>\<open>__skip_to_sync_point\<close>; the brace depth is an \<open>i32\<close> that is never negative.\<close>

function skip_to_sync_point :: "string \<Rightarrow> nat \<Rightarrow> nat \<Rightarrow> nat option outcome" where
  "skip_to_sync_point input i depth =
     (if i < length input then
        let b = input ! i; next_is = (\<lambda>c. i + 1 < length input \<and> input ! (i + 1) = c) in
        if b = CHR ''{'' then
          if depth + 1 < 2 ^ 31 then skip_to_sync_point input (i + 1) (depth + 1)
          else Panic ArithmeticOverflow
        else if b = CHR ''}'' then
          if depth > 0 then
            if depth - 1 = 0 then Ok (Some (after_block input (i + 1)))
            else skip_to_sync_point input (i + 1) (depth - 1)
          else skip_to_sync_point input (i + 1) depth
        else if b = CHR '';'' \<and> depth = 0 then Ok (Some (i + 1))
        else if b = CHR ''/'' \<and> next_is (CHR ''/'') then
          skip_to_sync_point input (skip_while (\<lambda>c. c \<noteq> NL) input i) depth
        else if b = CHR ''/'' \<and> next_is (CHR ''*'') then
          skip_to_sync_point input (skip_comment input (i + 2)) depth
        else if b = CHR 0x27 \<or> b = CHR 0x22 then
          skip_to_sync_point input (skip_quoted input b (i + 1)) depth
        else skip_to_sync_point input (i + 1) depth
      else Ok None)"
  by pat_completeness auto

termination
proof (relation "measure (\<lambda>(input, i, depth). length input - i)", goal_cases)
  case (5 input i depth b next_is)
  then have "i < skip_while (\<lambda>c. c \<noteq> NL) input i" by (intro skip_while_step) auto
  with 5 show ?case by auto
next
  case (6 input i depth b next_is)
  have "i + 2 \<le> skip_comment input (i + 2)" by (rule skip_comment_ge)
  with 6 show ?case by auto
next
  case (7 input i depth b next_is)
  have "i + 1 \<le> skip_quoted input b (i + 1)" by (rule skip_quoted_ge)
  with 7 show ?case by auto
qed auto

declare skip_to_sync_point.simps [simp del]

text \<open>
  \<open>match __parse__(..) { Matched(new_pos, _) => pos = new_pos, _ => {} }\<close> with a fresh parse state.
\<close>

definition skip_white_space :: "string \<Rightarrow> nat \<Rightarrow> env \<Rightarrow> (nat \<times> env) outcome" where
  "skip_white_space input pos e =
     and_then (parse_ws input pos (new_parse_state e)) (\<lambda>(r, st).
       Ok (case r of Matched new_pos _ \<Rightarrow> new_pos | Failed \<Rightarrow> pos, env st))"

text \<open>
  The recovery loop.  A turn that does not move the position would be repeated for ever; that it moves is
  proved below.
\<close>

function recovery_loop ::
  "string \<Rightarrow> nat \<Rightarrow> external_declaration node list \<Rightarrow> recovery_error list \<Rightarrow> env \<Rightarrow>
    (recovered_translation_unit \<times> env) outcome" where
  "recovery_loop input pos items errors e =
     (if pos < length input then
        and_then (parse_external_declaration (grammar_for input) input pos (new_parse_state e)) (\<lambda>(r, st).
          case r of
            Matched new_pos decl \<Rightarrow>
              and_then (skip_white_space input new_pos (env st)) (\<lambda>(next_pos, e).
                if pos < next_pos
                then recovery_loop input next_pos (items @ [Node decl (Span pos new_pos)]) errors e
                else NoReturn)
          | Failed \<Rightarrow>
              and_then (error_at input (min (max (max_err_pos st) pos) (length input)) (expected st))
                (\<lambda>err. and_then (skip_to_sync_point input pos 0) (\<lambda>sync.
                  case sync of
                    Some new_pos \<Rightarrow>
                      and_then (skip_white_space input new_pos (env st)) (\<lambda>(next_pos, e).
                        if pos < next_pos
                        then recovery_loop input next_pos items
                               (errors @ [\<lparr>rec_error = err, rec_skipped = Span pos new_pos\<rparr>]) e
                        else NoReturn)
                  | None \<Rightarrow>
                      Ok (\<lparr>rec_unit = TranslationUnit items,
                           rec_errors = errors @ [\<lparr>rec_error = err, rec_skipped = Span pos (length input)\<rparr>]\<rparr>,
                          env st))))
      else Ok (\<lparr>rec_unit = TranslationUnit items, rec_errors = errors\<rparr>, e))"
  by pat_completeness auto

termination
  by (relation "measure (\<lambda>(input, pos, items, errors, e). length input - pos)") auto

declare recovery_loop.simps [simp del]

definition translation_unit_resilient ::
  "string \<Rightarrow> env \<Rightarrow> (recovered_translation_unit \<times> env) outcome" where
  "translation_unit_resilient input e =
     and_then (parse_translation_unit (grammar_for input) input 0 (new_parse_state e)) (\<lambda>(r, st).
       case r of
         Matched pos v \<Rightarrow>
           if pos = length input then Ok (\<lparr>rec_unit = v, rec_errors = []\<rparr>, env st)
           else and_then (skip_white_space input 0 e) (\<lambda>(pos, e). recovery_loop input pos [] [] e)
       | Failed \<Rightarrow> and_then (skip_white_space input 0 e) (\<lambda>(pos, e). recovery_loop input pos [] [] e))"

subsection \<open>What a run of the parser guarantees\<close>

lemma at_boundary_0: "utf8_valid input \<Longrightarrow> at_boundary input 0"
  by (simp add: at_boundary_def)

lemma good_new_state [simp]:
  "utf8_valid input \<Longrightarrow> symbols e \<noteq> [] \<Longrightarrow> good_state input (new_parse_state e)"
  by (simp add: good_state_def new_parse_state_def at_boundary_0)

lemma env_new_state [simp]: "env (new_parse_state e) = e"
  by (simp add: new_parse_state_def)

lemma good_grammar_for [simp]: "good_grammar (length input) (grammar_for input)"
  unfolding grammar_for_def by (rule good_grammar_at)

text \<open>A run from a fresh state at a boundary.\<close>

lemma run_fresh:
  assumes "ok s (Suc (length input)) p" "utf8_valid input" "at_boundary input pos" "symbols e \<noteq> []"
  obtains r st where "p input pos (new_parse_state e) = Ok (r, st)" "good_result s input pos r"
    "good_state input st" "env_grows e (env st)"
proof -
  have "length input - pos < Suc (length input)" by simp
  from okE [OF assms(1,3) this good_new_state [OF assms(2,4)]] that
  show thesis by (auto simp: state_kept_def)
qed

lemma error_at_boundary:
  "at_boundary input pos \<Longrightarrow> \<exists>err. error_at input pos names = Ok err \<and> err_offset err = pos"
  by (simp add: error_at_def pos_to_line_def Let_def at_boundary_le at_boundary_char)

definition sound_parse :: "string \<Rightarrow> env \<Rightarrow> ((parse_error + 'a) \<times> env) outcome \<Rightarrow> bool" where
  "sound_parse input e x \<longleftrightarrow>
     (\<exists>r e'. x = Ok (r, e') \<and> env_grows e e' \<and>
        (\<forall>err. r = Inl err \<longrightarrow> at_boundary input (err_offset err)))"

lemma sound_parse_all:
  assumes "ok s (Suc (length input)) p" "utf8_valid input" "symbols e \<noteq> []"
  shows "sound_parse input e (parse_all p input e)"
proof -
  from run_fresh [OF assms(1,2) at_boundary_0 [OF assms(2)] assms(3)] obtain r st where
    run: "p input 0 (new_parse_state e) = Ok (r, st)" "good_state input st" "env_grows e (env st)" .
  then have "at_boundary input (max_err_pos st)" by (simp add: good_state_def)
  with error_at_boundary obtain err where
    "error_at input (max_err_pos st) (expected st) = Ok err" "at_boundary input (err_offset err)"
    by metis
  with run(1,3) show ?thesis
    by (cases r) (auto simp: parse_all_def sound_parse_def)
qed

lemmas entry_points = parse_constant_text_def parse_string_literal_text_def
  parse_expression_text_def parse_declaration_text_def parse_statement_text_def
  parse_translation_unit_text_def

subsection \<open>Synchronization points\<close>

declare utf8_valid.simps(2) [simp del]

lemma after_ascii_boundary:
  "utf8_valid input \<Longrightarrow> i < length input \<Longrightarrow> byte (input ! i) < 128 \<Longrightarrow> at_boundary input (Suc i)"
proof (induction "length input" arbitrary: input i rule: less_induct)
  case less
  then obtain c s where input: "input = c # s" by (cases input) auto
  let ?n = "utf8_len c"
  have valid: "utf8_valid (drop ?n input)" "?n \<le> length input"
    using less.prems(1) utf8_valid_next unfolding input by blast+
  show ?case
  proof (cases "i < ?n")
    case True
    have "i = 0"
    proof (cases i)
      case (Suc j)
      with utf8_valid_lead [of c s j] less.prems True show ?thesis by (simp add: input)
    qed
    with less.prems input have "?n = 1" by (simp add: utf8_len_def)
    with valid \<open>i = 0\<close> show ?thesis by (simp add: at_boundary_def)
  next
    case False
    with less.prems valid have "at_boundary (drop ?n input) (Suc (i - ?n))"
      by (intro less.hyps) (auto simp: input)
    with False valid(2) less.prems(2) show ?thesis by (simp add: at_boundary_def)
  qed
qed

lemma skip_while_end:
  "skip_while P input i = i \<or>
     i < skip_while P input i \<and> skip_while P input i \<le> length input \<and>
     P (input ! (skip_while P input i - 1))"
proof (cases "takeWhile P (drop i input) = []")
  case False
  define k where "k = length (takeWhile P (drop i input))"
  have k: "0 < k" "k \<le> length input - i"
    using False length_takeWhile_le [of P "drop i input"] by (simp_all add: k_def)
  then have "k - 1 < length (takeWhile P (drop i input))" by (simp add: k_def)
  then have "P (drop i input ! (k - 1))" by (metis nth_mem set_takeWhileD takeWhile_nth)
  with k have "P (input ! (i + k - 1))" by simp
  with k show ?thesis
    by (auto simp: skip_while_def k_def [symmetric])
qed (simp add: skip_while_def)

lemma after_block_boundary:
  assumes "utf8_valid input" "at_boundary input i"
  shows "at_boundary input (after_block input i)" "i \<le> after_block input i"
proof -
  let ?ws = "\<lambda>c. c \<in> {CHR '' '', CHR 0x09, NL, CHR 0x0D}"
  let ?j = "skip_while ?ws input i"
  have "at_boundary input ?j"
  proof (cases "?j = i")
    case False
    with skip_while_end [of ?ws input i] have
      "i < ?j" "?j \<le> length input" "?ws (input ! (?j - 1))" by auto
    then have "byte (input ! (?j - 1)) < 128" "?j - 1 < length input" by auto
    with after_ascii_boundary [OF assms(1), of "?j - 1"] \<open>i < ?j\<close> show ?thesis by simp
  qed (simp add: assms(2))
  with after_ascii_boundary [OF assms(1), of ?j]
  show "at_boundary input (after_block input i)"
    by (auto simp: after_block_def Let_def)
  show "i \<le> after_block input i"
    using skip_while_ge [of i ?ws input] by (auto simp: after_block_def Let_def intro: le_SucI)
qed

lemma sync_point:
  assumes valid: "utf8_valid input"
  shows "depth + (length input - i) < 2 ^ 31 \<Longrightarrow>
    \<exists>r. skip_to_sync_point input i depth = Ok r \<and>
      (\<forall>q. r = Some q \<longrightarrow> i < q \<and> at_boundary input q)"
proof (induction "length input - i" arbitrary: i depth rule: less_induct)
  case less
  show ?case
  proof (cases "i < length input")
    case i: True
    have rec: "\<exists>r. skip_to_sync_point input j d = Ok r \<and>
        (\<forall>q. r = Some q \<longrightarrow> i < q \<and> at_boundary input q)"
      if "i < j" "d \<le> depth + 1" for j d
      using less.hyps [of j d] less.prems i that by fastforce
    have next_boundary: "byte (input ! i) < 128 \<Longrightarrow> at_boundary input (Suc i)"
      using after_ascii_boundary [OF valid i] .
    note block = after_block_boundary [OF valid, of "Suc i"]
    have comment: "i < skip_comment input (Suc (Suc i))"
      using skip_comment_ge [of "Suc (Suc i)" input] by simp
    have quoted: "i < skip_quoted input c (Suc i)" for c
      using skip_quoted_ge [of "Suc i" input c] by simp
    have line: "input ! i = CHR ''/'' \<Longrightarrow> i < skip_while (\<lambda>c. c \<noteq> NL) input i"
      using skip_while_step [OF i] by simp
    show ?thesis
      using i less.prems next_boundary block
      by (subst skip_to_sync_point.simps)
        (auto simp: Let_def intro!: rec comment quoted line)
  qed (simp add: skip_to_sync_point.simps)
qed

subsection \<open>Recovery accounts for every byte\<close>

definition white_space_to :: "string \<Rightarrow> nat \<Rightarrow> nat \<Rightarrow> bool" where
  "white_space_to input pos q \<longleftrightarrow> (\<exists>e e'. skip_white_space input pos e = Ok (q, e'))"

text \<open>
  From \<open>pos\<close> to the end of the text there is one range after the other, each nonempty, with only white
  space and line markers behind it.
\<close>

fun tiles :: "string \<Rightarrow> nat \<Rightarrow> span list \<Rightarrow> bool" where
  "tiles input pos [] \<longleftrightarrow> pos = length input"
| "tiles input pos (s # ss) \<longleftrightarrow>
     span_start s = pos \<and> pos < span_end s \<and> span_end s \<le> length input \<and>
     (\<exists>q. white_space_to input (span_end s) q \<and> tiles input q ss)"

lemma skip_white_space_boundary:
  assumes "utf8_valid input" "at_boundary input pos" "symbols e \<noteq> []"
  obtains q e' where "skip_white_space input pos e = Ok (q, e')" "pos \<le> q" "at_boundary input q"
    "env_grows e e'" "white_space_to input pos q"
proof -
  from run_fresh [OF ok_parse_ws assms(1,2,3)] obtain r st where
    "parse_ws input pos (new_parse_state e) = Ok (r, st)" "good_result False input pos r"
    "env_grows e (env st)" by metis
  then have "skip_white_space input pos e = Ok (case r of Matched q _ \<Rightarrow> q | Failed \<Rightarrow> pos, env st)"
    "pos \<le> (case r of Matched q _ \<Rightarrow> q | Failed \<Rightarrow> pos)"
    "at_boundary input (case r of Matched q _ \<Rightarrow> q | Failed \<Rightarrow> pos)"
    using assms(2) by (auto simp: skip_white_space_def good_result_def split: rule_result.splits)
  with \<open>env_grows e (env st)\<close> that show thesis
    unfolding white_space_to_def by blast
qed

lemma white_space_at_end: "utf8_valid input \<Longrightarrow> white_space_to input (length input) (length input)"
proof -
  assume valid: "utf8_valid input"
  have "at_boundary input (length input)" by (simp add: at_boundary_def)
  moreover have "symbols with_core \<noteq> []" by (simp add: with_core_def)
  ultimately obtain q e' where "white_space_to input (length input) q" "length input \<le> q"
    "at_boundary input q"
    by (metis skip_white_space_boundary [OF valid])
  with at_boundary_le [of input q] show ?thesis by simp
qed

lemma ok_external_declaration: "ok True (Suc (length input)) (parse_external_declaration (grammar_for input))"
  by (rule ok_parse_external_declaration [OF good_grammar_for]) simp

definition recovered :: "string \<Rightarrow> nat \<Rightarrow> recovered_translation_unit \<times> env \<Rightarrow>
    external_declaration node list \<Rightarrow> recovery_error list \<Rightarrow> env \<Rightarrow> bool" where
  "recovered input pos x items errors e \<longleftrightarrow>
     (\<exists>items' errors' zs.
        fst x = \<lparr>rec_unit = TranslationUnit (items @ items'), rec_errors = errors @ errors'\<rparr> \<and>
        zs \<in> shuffles (map node_span items') (map rec_skipped errors') \<and> tiles input pos zs \<and>
        env_grows e (snd x))"

lemma recovered_item:
  assumes "recovered input q x (items @ [Node d (Span pos b)]) errors e'" "env_grows e e'"
    "pos < b" "b \<le> length input" "white_space_to input b q"
  shows "recovered input pos x items errors e"
proof -
  from assms(1) obtain items' errors' zs where
    "fst x = \<lparr>rec_unit = TranslationUnit (items @ (Node d (Span pos b) # items')),
       rec_errors = errors @ errors'\<rparr>"
    "zs \<in> shuffles (map node_span items') (map rec_skipped errors')" "tiles input q zs"
    "env_grows e' (snd x)"
    by (auto simp: recovered_def)
  with assms(2-5) show ?thesis
    unfolding recovered_def
    by (intro exI [of _ "Node d (Span pos b) # items'"] exI [of _ errors'] exI [of _ "Span pos b # zs"])
      (auto intro: env_grows_trans Cons_in_shuffles_leftI)
qed

lemma recovered_error:
  assumes "recovered input q x items (errors @ [\<lparr>rec_error = err, rec_skipped = Span pos b\<rparr>]) e'"
    "env_grows e e'" "pos < b" "b \<le> length input" "white_space_to input b q"
  shows "recovered input pos x items errors e"
proof -
  let ?r = "\<lparr>rec_error = err, rec_skipped = Span pos b\<rparr>"
  from assms(1) obtain items' errors' zs where
    "fst x = \<lparr>rec_unit = TranslationUnit (items @ items'), rec_errors = errors @ (?r # errors')\<rparr>"
    "zs \<in> shuffles (map node_span items') (map rec_skipped errors')" "tiles input q zs"
    "env_grows e' (snd x)"
    by (auto simp: recovered_def)
  with assms(2-5) show ?thesis
    unfolding recovered_def
    by (intro exI [of _ items'] exI [of _ "?r # errors'"] exI [of _ "Span pos b # zs"])
      (auto intro: env_grows_trans Cons_in_shuffles_rightI)
qed

lemma recovery_loop_tiles:
  assumes valid: "utf8_valid input" and len: "length input < 2 ^ 31"
  shows "at_boundary input pos \<Longrightarrow> symbols e \<noteq> [] \<Longrightarrow>
    \<exists>x. recovery_loop input pos items errors e = Ok x \<and> recovered input pos x items errors e"
proof (induction "length input - pos" arbitrary: pos items errors e rule: less_induct)
  case less
  show ?case
  proof (cases "pos < length input")
    case pos: True
    from run_fresh [OF ok_external_declaration valid less.prems] obtain r st where
      run: "parse_external_declaration (grammar_for input) input pos (new_parse_state e) = Ok (r, st)"
      "good_result True input pos r" "good_state input st" "env_grows e (env st)" .
    then have scopes: "symbols (env st) \<noteq> []" using less.prems(2) env_grows_nonempty by blast
    show ?thesis
    proof (cases r)
      case (Matched b d)
      with run(2) have b: "pos < b" "at_boundary input b" by simp_all
      from skip_white_space_boundary [OF valid b(2) scopes] obtain q e' where
        q: "skip_white_space input b (env st) = Ok (q, e')" "b \<le> q" "at_boundary input q"
        "env_grows (env st) e'" "white_space_to input b q" .
      with scopes have "symbols e' \<noteq> []" using env_grows_nonempty by blast
      with less.hyps [of q e' "items @ [Node d (Span pos b)]" errors] b q pos obtain x where
        "recovery_loop input q (items @ [Node d (Span pos b)]) errors e' = Ok x"
        "recovered input q x (items @ [Node d (Span pos b)]) errors e'" by fastforce
      with recovered_item [OF this(2) env_grows_trans [OF run(4) q(4)] b(1) at_boundary_le [OF b(2)] q(5)]
        pos run(1) Matched q(1,2) b(1) show ?thesis
        by (subst recovery_loop.simps) simp
    next
      case Failed
      let ?off = "min (max (max_err_pos st) pos) (length input)"
      have "at_boundary input ?off"
        using less.prems(1) run(3) at_boundary_le
        by (auto simp: good_state_def min_def max_def)
      with error_at_boundary obtain err where err: "error_at input ?off (expected st) = Ok err" by metis
      from len have "0 + (length input - pos) < 2 ^ 31" by linarith
      from sync_point [OF valid this] obtain sync where
        sync: "skip_to_sync_point input pos 0 = Ok sync"
        "\<And>b. sync = Some b \<Longrightarrow> pos < b \<and> at_boundary input b" by auto
      show ?thesis
      proof (cases sync)
        case None
        let ?r = "\<lparr>rec_error = err, rec_skipped = Span pos (length input)\<rparr>"
        have "recovered input (length input) (\<lparr>rec_unit = TranslationUnit items, rec_errors = errors @ [?r]\<rparr>, env st)
            items (errors @ [?r]) (env st)"
          unfolding recovered_def by (intro exI [of _ "[]"]) simp
        from recovered_error [OF this run(4) pos order_refl white_space_at_end [OF valid]] pos run(1) Failed
          err sync(1) None show ?thesis
          by (subst recovery_loop.simps) simp
      next
        case (Some b)
        with sync(2) have b: "pos < b" "at_boundary input b" by auto
        from skip_white_space_boundary [OF valid b(2) scopes] obtain q e' where
          q: "skip_white_space input b (env st) = Ok (q, e')" "b \<le> q" "at_boundary input q"
          "env_grows (env st) e'" "white_space_to input b q" .
        with scopes have "symbols e' \<noteq> []" using env_grows_nonempty by blast
        let ?r = "\<lparr>rec_error = err, rec_skipped = Span pos b\<rparr>"
        from \<open>symbols e' \<noteq> []\<close> less.hyps [of q e' items "errors @ [?r]"] b q pos obtain x where
          "recovery_loop input q items (errors @ [?r]) e' = Ok x"
          "recovered input q x items (errors @ [?r]) e'" by fastforce
        with recovered_error [OF this(2) env_grows_trans [OF run(4) q(4)] b(1) at_boundary_le [OF b(2)] q(5)]
          pos run(1) Failed err sync(1) Some q(1,2) b(1) show ?thesis
          by (subst recovery_loop.simps) simp
      qed
    qed
  next
    case False
    with less.prems(1) have "pos = length input" by (simp add: at_boundary_def)
    then show ?thesis
      by (subst recovery_loop.simps) (auto simp: recovered_def intro!: exI [of _ "[]"])
  qed
qed

end
