(* ===== verification/Runs.thy ===== *)
theory Runs
  imports Parser
begin

text \<open>
  Runs of the parser: \<open>gives p input pos e r\<close> says that \<open>p\<close> at a position has the result \<open>r\<close> in
  the environment \<open>e\<close>, whatever errors were recorded before, and leaves the environment and the cache of
  expressions alone.  With one rule per combinator this is a big-step semantics of the lexical grammar.
\<close>

subsection \<open>The relation\<close>

definition undisturbed :: "parse_state \<Rightarrow> parse_state \<Rightarrow> bool" where
  "undisturbed st st' \<longleftrightarrow>
     env st' = env st \<and> suppress_fail st' = suppress_fail st \<and>
     postfix_expression0_cache st' = postfix_expression0_cache st"

definition gives :: "'a parser \<Rightarrow> string \<Rightarrow> nat \<Rightarrow> env \<Rightarrow> 'a rule_result \<Rightarrow> bool" where
  "gives p input pos e r \<longleftrightarrow>
     (\<forall>st. env st = e \<longrightarrow> (\<exists>st'. p input pos st = Ok (r, st') \<and> undisturbed st st'))"

named_theorems runs "the rules of the relation gives"

lemma givesI:
  "(\<And>st. env st = e \<Longrightarrow> \<exists>st'. p input pos st = Ok (r, st') \<and> undisturbed st st') \<Longrightarrow>
     gives p input pos e r"
  by (simp add: gives_def)

lemma givesE:
  assumes "gives p input pos (env st) r"
  obtains st' where "p input pos st = Ok (r, st')" "undisturbed st st'"
  using assms by (auto simp: gives_def)

lemma undisturbed_refl [simp]: "undisturbed st st"
  by (simp add: undisturbed_def)

lemma undisturbed_trans: "undisturbed st st' \<Longrightarrow> undisturbed st' st'' \<Longrightarrow> undisturbed st st''"
  by (simp add: undisturbed_def)

lemma undisturbed_env: "undisturbed st st' \<Longrightarrow> env st' = env st"
  by (simp add: undisturbed_def)

lemma undisturbed_mark [simp]: "undisturbed st (mark_failure pos name st)"
  by (simp add: undisturbed_def mark_failure_def)

lemma gives_pure [runs]: "gives (p_pure v) input pos e (Matched pos v)"
  by (rule givesI) (simp add: p_pure_def)

lemma gives_fail [runs]: "gives p_fail input pos e Failed"
  by (rule givesI) (simp add: p_fail_def)

lemma gives_mark: "gives (p_mark name) input pos e Failed"
  by (rule givesI) (simp add: p_mark_def)

lemma gives_pos [runs]: "gives p_pos input pos e (Matched pos pos)"
  by (rule givesI) (simp add: p_pos_def)

lemma gives_seq:
  assumes "gives p input pos e (Matched q v)" "gives (f v) input q e r"
  shows "gives (p_seq p f) input pos e r"
proof (rule givesI)
  fix st :: parse_state
  assume "env st = e"
  with assms(1) obtain st1 where 1: "p input pos st = Ok (Matched q v, st1)" "undisturbed st st1"
    by (auto simp: gives_def)
  with assms(2) \<open>env st = e\<close> obtain st2 where "f v input q st1 = Ok (r, st2)" "undisturbed st1 st2"
    by (auto simp: gives_def dest: undisturbed_env)
  with 1 show "\<exists>st'. p_seq p f input pos st = Ok (r, st') \<and> undisturbed st st'"
    by (auto simp: p_seq_def intro: undisturbed_trans)
qed

lemma gives_then:
  "gives p input pos e (Matched q v) \<Longrightarrow> gives p' input q e r \<Longrightarrow> gives (p_then p p') input pos e r"
  by (rule gives_seq)

lemma gives_seq_fail:
  assumes "gives p input pos e Failed"
  shows "gives (p_seq p f) input pos e Failed"
  using assms by (fastforce simp: gives_def p_seq_def)

lemma gives_choice_left:
  assumes "gives p input pos e (Matched q v)"
  shows "gives (p_choice p p') input pos e (Matched q v)"
  using assms by (fastforce simp: gives_def p_choice_def)

lemma gives_choice_right:
  assumes "gives p input pos e Failed" "gives p' input pos e r"
  shows "gives (p_choice p p') input pos e r"
proof (rule givesI)
  fix st :: parse_state
  assume "env st = e"
  with assms(1) obtain st1 where 1: "p input pos st = Ok (Failed, st1)" "undisturbed st st1"
    by (auto simp: gives_def)
  with assms(2) \<open>env st = e\<close> obtain st2 where "p' input pos st1 = Ok (r, st2)" "undisturbed st1 st2"
    by (auto simp: gives_def dest: undisturbed_env)
  with 1 show "\<exists>st'. p_choice p p' input pos st = Ok (r, st') \<and> undisturbed st st'"
    by (auto simp: p_choice_def intro: undisturbed_trans)
qed

lemma gives_choices_one: "gives p input pos e r \<Longrightarrow> gives (p_choices [p]) input pos e r"
  by (simp add: p_choices.simps)

lemma gives_choices_first:
  assumes "gives p input pos e (Matched q v)"
  shows "gives (p_choices (p # ps)) input pos e (Matched q v)"
  using assms by (cases ps) (simp_all add: p_choices.simps gives_choice_left)

lemma gives_choices_next:
  assumes "gives p input pos e Failed" "gives (p_choices (p' # ps)) input pos e r"
  shows "gives (p_choices (p # p' # ps)) input pos e r"
  using assms by (simp add: p_choices.simps gives_choice_right)

lemma gives_choices_fail:
  "(\<And>p. p \<in> set ps \<Longrightarrow> gives p input pos e Failed) \<Longrightarrow> gives (p_choices ps) input pos e Failed"
  by (induction ps rule: p_choices.induct)
    (auto simp: p_choices.simps intro: gives_fail gives_choice_right)

lemma gives_opt:
  "gives p input pos e (Matched q v) \<Longrightarrow> gives (p_opt p) input pos e (Matched q (Some v))"
  "gives p input pos e Failed \<Longrightarrow> gives (p_opt p) input pos e (Matched pos None)"
  unfolding p_opt_def
  by (auto intro: gives_choice_left gives_choice_right gives_seq gives_seq_fail gives_pure)

lemma gives_maybe:
  "gives p input pos e (Matched q v) \<Longrightarrow> gives (p_maybe p) input pos e (Matched q ())"
  "gives p input pos e Failed \<Longrightarrow> gives (p_maybe p) input pos e (Matched pos ())"
  unfolding p_maybe_def
  by (auto intro: gives_choice_left gives_choice_right gives_seq gives_seq_fail gives_pure)

lemma gives_quiet:
  assumes "gives p input pos e r" shows "gives (p_quiet p) input pos e r"
proof (rule givesI)
  fix st :: parse_state
  assume "env st = e"
  with assms have "gives p input pos (env (st\<lparr>suppress_fail := Suc (suppress_fail st)\<rparr>)) r" by simp
  then obtain st1 where "p input pos (st\<lparr>suppress_fail := Suc (suppress_fail st)\<rparr>) = Ok (r, st1)"
    "undisturbed (st\<lparr>suppress_fail := Suc (suppress_fail st)\<rparr>) st1" by (rule givesE)
  then show "\<exists>st'. p_quiet p input pos st = Ok (r, st') \<and> undisturbed st st'"
    by (auto simp: p_quiet_def undisturbed_def)
qed

lemma gives_not:
  "gives p input pos e Failed \<Longrightarrow> gives (p_not p) input pos e (Matched pos ())"
  "gives p input pos e (Matched q v) \<Longrightarrow> gives (p_not p) input pos e Failed"
  using gives_quiet [of p input pos e] by (fastforce simp: gives_def p_not_def)+

lemma gives_and:
  "gives p input pos e (Matched q v) \<Longrightarrow> gives (p_and p) input pos e (Matched pos v)"
  "gives p input pos e Failed \<Longrightarrow> gives (p_and p) input pos e Failed"
  using gives_quiet [of p input pos e] by (fastforce simp: gives_def p_and_def)+

lemma gives_named:
  "gives p input pos e (Matched q v) \<Longrightarrow> gives (p_named name p) input pos e (Matched q v)"
  "gives p input pos e Failed \<Longrightarrow> gives (p_named name p) input pos e Failed"
  unfolding p_named_def by (auto intro: gives_choice_left gives_choice_right gives_mark)

lemma gives_node:
  assumes "gives p input pos e (Matched q v)"
  shows "gives (p_node p) input pos e (Matched q (Node v (Span pos q)))"
  unfolding p_node_def
  by (rule gives_seq [OF gives_pos gives_seq [OF assms gives_seq [OF gives_pos gives_pure]]])

lemma gives_check:
  "f e = Inr v \<Longrightarrow> gives (p_check f) input pos e (Matched pos v)"
  "f e = Inl name \<Longrightarrow> gives (p_check f) input pos e Failed"
  by (auto intro!: givesI simp: p_check_def p_pure_def p_mark_def)

subsection \<open>Characters\<close>

lemma gives_lit:
  "drop pos input = m @ t \<Longrightarrow> pos \<le> length input \<Longrightarrow> gives (p_lit m) input pos e (Matched (pos + length m) ())"
proof (rule givesI)
  fix st :: parse_state
  assume "drop pos input = m @ t" "pos \<le> length input"
  moreover from this have "length input = pos + length m + length t"
    by (metis append.assoc append_take_drop_id length_append length_take min.absorb2)
  ultimately show "\<exists>st'. p_lit m input pos st = Ok (Matched (pos + length m) (), st') \<and> undisturbed st st'"
    by (simp add: p_lit_def)
qed

lemma gives_lit_fail:
  "take (length m) (drop pos input) \<noteq> m \<Longrightarrow> gives (p_lit m) input pos e Failed"
  by (rule givesI) (auto simp: p_lit_def p_mark_def)

lemma ascii_nth: "ascii s \<Longrightarrow> i < length s \<Longrightarrow> byte (s ! i) < 128"
  by (simp add: ascii_def list_all_length)

lemma ascii_char_boundary: "ascii s \<Longrightarrow> i \<le> length s \<Longrightarrow> is_char_boundary s i"
  using ascii_nth [of s i] by (auto simp: is_char_boundary_def cont_byte_def not_le [symmetric])

lemma gives_class:
  assumes "ascii input" "drop pos input = c # t" "P c"
  shows "gives (p_class name P) input pos e (Matched (Suc pos) ())"
proof (rule givesI)
  fix st :: parse_state
  from assms(2) have pos: "pos < length input" by (metis drop_all list.distinct(1) not_le)
  with assms(2) have "input ! pos = c" by (simp add: Cons_nth_drop_Suc [symmetric])
  with pos assms(1,3) show "\<exists>st'. p_class name P input pos st = Ok (Matched (Suc pos) (), st') \<and> undisturbed st st'"
    using ascii_nth [OF assms(1) pos] ascii_char_boundary [OF assms(1), of pos]
    by (simp add: p_class_def utf8_len_def)
qed

lemma gives_class_fail:
  assumes "ascii input" "\<And>c t. drop pos input = c # t \<Longrightarrow> \<not> P c"
  shows "gives (p_class name P) input pos e Failed"
proof (rule givesI)
  fix st :: parse_state
  have "\<not> P (input ! pos)" if "pos < length input"
    using assms(2) that by (simp add: Cons_nth_drop_Suc [symmetric])
  then show "\<exists>st'. p_class name P input pos st = Ok (Failed, st') \<and> undisturbed st st'"
    using ascii_char_boundary [OF assms(1), of pos]
    by (simp add: p_class_def p_mark_def)
qed

lemma gives_slice:
  assumes "gives p input pos e (Matched q v)" "ascii input" "pos \<le> q" "q \<le> length input"
  shows "gives (p_slice p) input pos e (Matched q (take (q - pos) (drop pos input)))"
  using assms(1,3,4) ascii_char_boundary [OF assms(2)]
  by (fastforce simp: gives_def p_slice_def)

lemma gives_slice_fail: "gives p input pos e Failed \<Longrightarrow> gives (p_slice p) input pos e Failed"
  by (fastforce simp: gives_def p_slice_def)

subsection \<open>Repetitions\<close>

lemma gives_loop_stop: "gives (step acc) input pos e Failed \<Longrightarrow> gives (p_loop step acc) input pos e (Matched pos acc)"
  by (fastforce simp: gives_def p_loop.simps)

lemma gives_loop_turn:
  assumes "gives (step acc) input pos e (Matched q acc')" "pos < q" "q \<le> length input"
    "gives (p_loop step acc') input q e r"
  shows "gives (p_loop step acc) input pos e r"
proof (rule givesI)
  fix st :: parse_state
  assume "env st = e"
  with assms(1) obtain st1 where 1: "step acc input pos st = Ok (Matched q acc', st1)" "undisturbed st st1"
    by (auto simp: gives_def)
  with assms(4) \<open>env st = e\<close> obtain st2 where "p_loop step acc' input q st1 = Ok (r, st2)" "undisturbed st1 st2"
    by (auto simp: gives_def dest: undisturbed_env)
  with 1 assms(2,3) show "\<exists>st'. p_loop step acc input pos st = Ok (r, st') \<and> undisturbed st st'"
    by (subst p_loop.simps) (auto intro: undisturbed_trans)
qed

lemma drop_next: "drop pos input = c # s \<Longrightarrow> drop (Suc pos) input = s"
  by (metis drop_Suc_Cons drop_drop drop0 add_Suc plus_nat.add_0)

lemma drop_lt: "drop pos input = c # s \<Longrightarrow> pos < length input"
  by (metis drop_all list.distinct(1) not_le)

text \<open>A run of characters of a class, as long as possible.\<close>

definition run_of :: "(char \<Rightarrow> bool) \<Rightarrow> string \<Rightarrow> string \<Rightarrow> bool" where
  "run_of P s t \<longleftrightarrow> (\<forall>c\<in>set s. P c) \<and> (t = [] \<or> \<not> P (hd t))"

lemma run_of_simps [simp]:
  "run_of P [] t \<longleftrightarrow> (t = [] \<or> \<not> P (hd t))"
  "run_of P (c # s) t \<longleftrightarrow> P c \<and> run_of P s t"
  by (auto simp: run_of_def)

lemma gives_run:
  assumes "drop pos input = s @ t" "run_of P s t"
    and stop: "\<And>pos acc. drop pos input = [] \<or> \<not> P (hd (drop pos input)) \<Longrightarrow> gives (step acc) input pos e Failed"
    and turn: "\<And>pos acc c t. drop pos input = c # t \<Longrightarrow> P c \<Longrightarrow>
      gives (step acc) input pos e (Matched (Suc pos) (f acc))"
  shows "gives (p_loop step acc) input pos e (Matched (pos + length s) ((f ^^ length s) acc))"
  using assms(1,2)
proof (induction s arbitrary: pos acc)
  case Nil
  then have "gives (step acc) input pos e Failed" by (intro stop) auto
  then show ?case by (simp add: gives_loop_stop)
next
  case (Cons c s)
  from Cons.prems have next_at: "drop (Suc pos) input = s @ t" "pos < length input" "P c"
    by (auto dest: drop_next drop_lt)
  with Cons.prems have "gives (step acc) input pos e (Matched (Suc pos) (f acc))"
    by (intro turn [of _ c "s @ t"]) simp_all
  from gives_loop_turn [OF this _ _ Cons.IH [OF next_at(1)]] Cons.prems next_at(2) show ?case
    by (simp add: funpow_swap1)
qed

lemma gives_skip_many:
  assumes "drop pos input = s @ t" "run_of P s t"
    and "\<And>pos. drop pos input = [] \<or> \<not> P (hd (drop pos input)) \<Longrightarrow> gives p input pos e Failed"
    and "\<And>pos c t. drop pos input = c # t \<Longrightarrow> P c \<Longrightarrow> gives p input pos e (Matched (Suc pos) ())"
  shows "gives (p_skip_many p) input pos e (Matched (pos + length s) ())"
proof -
  have "gives (p_loop (\<lambda>_. p_then p (p_pure ())) ()) input pos e
      (Matched (pos + length s) (((\<lambda>_. ()) ^^ length s) ()))"
    by (rule gives_run [OF assms(1,2)])
      (rule gives_seq_fail assms(3) gives_seq [OF assms(4) gives_pure] | assumption)+
  then show ?thesis by (simp add: p_skip_many_def)
qed

lemma gives_at_least:
  "gives p input pos e (Matched q vs) \<Longrightarrow> n \<le> length vs \<Longrightarrow>
     gives (p_at_least n p) input pos e (Matched q vs)"
  unfolding p_at_least_def by (erule gives_seq) (simp add: gives_pure)

lemma gives_skip_run:
  assumes "ascii input" "drop pos input = s @ t" "run_of P s t"
  shows "gives (p_skip_many (p_class name P)) input pos e (Matched (pos + length s) ())"
  by (rule gives_skip_many [OF assms(2,3)])
    (auto intro: gives_class [OF assms(1)] gives_class_fail [OF assms(1)])

lemma gives_many_run:
  assumes "ascii input" "drop pos input = s @ t" "run_of P s t" "s \<noteq> []"
  shows "gives (p_then (p_at_least 1 (p_many (p_class name P))) (p_pure ())) input pos e
    (Matched (pos + length s) ())"
proof -
  let ?f = "\<lambda>vs. vs @ [()]"
  have "gives (p_many (p_class name P)) input pos e (Matched (pos + length s) ((?f ^^ length s) []))"
    unfolding p_many_def
    by (rule gives_run [OF assms(2,3)])
      (auto intro: gives_seq [OF gives_class [OF assms(1)] gives_pure]
        gives_seq_fail [OF gives_class_fail [OF assms(1)]])
  moreover have "length ((?f ^^ n) vs) = n + length vs" for n vs
    by (induction n) simp_all
  then have "1 \<le> length ((?f ^^ length s) [])"
    using assms(4) by (simp add: Suc_le_eq)
  ultimately show ?thesis
    by (intro gives_seq [OF gives_at_least gives_pure])
qed

lemma gives_many_none:
  assumes "ascii input" "drop pos input = t" "t = [] \<or> \<not> P (hd t)"
  shows "gives (p_then (p_at_least 1 (p_many (p_class name P))) (p_pure ())) input pos e Failed"
proof -
  have "gives (p_class name P) input pos e Failed"
    using assms by (intro gives_class_fail) auto
  then have "gives (p_many (p_class name P)) input pos e (Matched pos [])"
    unfolding p_many_def by (intro gives_loop_stop gives_seq_fail)
  then show ?thesis
    unfolding p_at_least_def by (intro gives_seq_fail gives_seq [of _ _ _ _ _ "[]"]) (simp_all add: gives_fail)
qed

subsection \<open>Identifiers\<close>

lemma drop_append_length: "drop pos input = m @ t \<Longrightarrow> drop (pos + length m) input = t"
  by (metis add.commute append_eq_conv_conj drop_drop)

lemma gives_slice_at:
  assumes "gives p input pos e (Matched (pos + length s) v)" "ascii input" "drop pos input = s @ t"
    "pos \<le> length input"
  shows "gives (p_slice p) input pos e (Matched (pos + length s) s)"
proof -
  from assms(3,4) have "pos + length s \<le> length input"
    by (metis add_diff_cancel_left' append_eq_conv_conj le_add_diff_inverse length_append length_drop
        nat_le_linear le_add1 add_le_mono1 add.commute)
  with gives_slice [OF assms(1,2)] assms(3) show ?thesis by simp
qed

lemma gives_identifier0:
  assumes "ascii input" "drop pos input = c # s @ t" "ident_start c" "run_of ident_char s t"
  shows "gives parse_identifier0 input pos e
    (if c # s \<in> set (reserved e) then Failed else Matched (pos + length (c # s)) (Identifier (c # s)))"
proof -
  have "gives (p_then (p_class ''[_a-zA-Z]'' ident_start) (p_skip_many (p_class ''[_a-zA-Z0-9]'' ident_char)))
      input pos e (Matched (Suc pos + length s) ())"
    using drop_next [OF assms(2)] assms
    by (intro gives_seq [OF gives_class] gives_skip_run) simp_all
  then have "gives (p_slice (p_then (p_class ''[_a-zA-Z]'' ident_start)
      (p_skip_many (p_class ''[_a-zA-Z0-9]'' ident_char)))) input pos e (Matched (pos + length (c # s)) (c # s))"
    using drop_lt [OF assms(2)] assms(1,2) by (intro gives_slice_at [of _ _ _ _ "c # s"]) simp_all
  then show ?thesis
    unfolding parse_identifier0_def by (rule gives_seq) (auto intro: gives_check)
qed

end
