(* ===== verification/Literals.thy ===== *)
theory Literals
  imports Runs
begin

text \<open>
  What the lexical grammar reads: identifiers and integer constants, from their spelling.
\<close>

subsection \<open>Spellings of integer constants\<close>

definition size_spellings :: "integer_size \<Rightarrow> string list" where
  "size_spellings l =
     (case l of
        IntegerSize_Int \<Rightarrow> ['''']
      | IntegerSize_Long \<Rightarrow> [''l'', ''L'']
      | IntegerSize_LongLong \<Rightarrow> [''ll'', ''LL''])"

definition unsigned_spellings :: "bool \<Rightarrow> string list" where
  "unsigned_spellings u = (if u then [''u'', ''U''] else [''''])"

definition imaginary_spellings :: "bool \<Rightarrow> string list" where
  "imaginary_spellings i = (if i then [''i'', ''I'', ''j'', ''J''] else [''''])"

text \<open>The three parts of a suffix, in any order.\<close>

definition suffix_spellings :: "integer_suffix \<Rightarrow> string list" where
  "suffix_spellings suffix =
     (case suffix of IntegerSuffix l u i \<Rightarrow>
        concat (map (\<lambda>a. concat (map (\<lambda>b. concat (map (\<lambda>c.
          [a @ b @ c, a @ c @ b, b @ a @ c, b @ c @ a, c @ a @ b, c @ b @ a])
          (imaginary_spellings i))) (unsigned_spellings u))) (size_spellings l)))"

definition is_imaginary :: "integer_suffix \<Rightarrow> bool" where
  "is_imaginary suffix \<longleftrightarrow> (case suffix of IntegerSuffix _ _ i \<Rightarrow> i)"

fun base_prefixes :: "integer_base \<Rightarrow> string list" where
  "base_prefixes IntegerBase_Decimal = ['''']"
| "base_prefixes IntegerBase_Octal = [''0'']"
| "base_prefixes IntegerBase_Hexadecimal = [''0x'', ''0X'']"
| "base_prefixes IntegerBase_Binary = [''0b'', ''0B'']"

fun base_digit :: "integer_base \<Rightarrow> char \<Rightarrow> bool" where
  "base_digit IntegerBase_Decimal c \<longleftrightarrow> is_ascii_digit c"
| "base_digit IntegerBase_Octal c \<longleftrightarrow> byte (CHR ''0'') \<le> byte c \<and> byte c \<le> byte (CHR ''7'')"
| "base_digit IntegerBase_Hexadecimal c \<longleftrightarrow>
     is_ascii_digit c \<or> byte (CHR ''a'') \<le> byte c \<and> byte c \<le> byte (CHR ''f'') \<or>
     byte (CHR ''A'') \<le> byte c \<and> byte c \<le> byte (CHR ''F'')"
| "base_digit IntegerBase_Binary c \<longleftrightarrow> byte (CHR ''0'') \<le> byte c \<and> byte c \<le> byte (CHR ''1'')"

text \<open>The digits of a number; a decimal number of more than one digit has no leading zero.\<close>

definition number_spelling :: "integer_base \<Rightarrow> string \<Rightarrow> bool" where
  "number_spelling base n \<longleftrightarrow>
     n \<noteq> [] \<and> (\<forall>c\<in>set n. base_digit base c) \<and>
     (base = IntegerBase_Decimal \<longrightarrow> n = ''0'' \<or> hd n \<noteq> CHR ''0'')"

lemma suffix_spellings_read:
  "s \<in> set (suffix_spellings suffix) \<Longrightarrow> int_suffix s = Inr suffix"
proof -
  have *: "list_all (\<lambda>l. list_all (\<lambda>u. list_all (\<lambda>i.
      list_all (\<lambda>s. int_suffix s = Inr (IntegerSuffix l u i)) (suffix_spellings (IntegerSuffix l u i)))
      [True, False]) [True, False]) [IntegerSize_Int, IntegerSize_Long, IntegerSize_LongLong]"
    by code_simp
  obtain l u i where "suffix = IntegerSuffix l u i" by (cases suffix)
  with * show "s \<in> set (suffix_spellings suffix) \<Longrightarrow> int_suffix s = Inr suffix"
    by (cases l; cases u; cases i) (simp_all add: list_all_iff)
qed

lemma suffix_spellings_chars:
  "s \<in> set (suffix_spellings suffix) \<Longrightarrow> c \<in> set s \<Longrightarrow>
     c \<in> set ''uUlL'' \<or> is_imaginary suffix \<and> c \<in> set ''iIjJ''"
  by (cases suffix)
    (auto simp: suffix_spellings_def size_spellings_def unsigned_spellings_def imaginary_spellings_def
      is_imaginary_def split: integer_size.splits if_split_asm)

subsection \<open>Reading integer constants\<close>

lemma gives_lit1_fail:
  "drop pos input = r \<Longrightarrow> r = [] \<or> hd r \<noteq> c \<Longrightarrow> gives (p_lit [c]) input pos e Failed"
  by (rule gives_lit_fail) (cases r; auto)

lemma gives_class1_fail:
  "ascii input \<Longrightarrow> drop pos input = r \<Longrightarrow> r = [] \<or> \<not> P (hd r) \<Longrightarrow>
     gives (p_class name P) input pos e Failed"
  by (rule gives_class_fail) auto

text \<open>What follows a number: nothing that could continue it.\<close>

definition number_end :: "string \<Rightarrow> bool" where
  "number_end r \<longleftrightarrow> r = [] \<or> \<not> base_digit IntegerBase_Hexadecimal (hd r) \<and> hd r \<notin> set ''.xXpP''"

lemma number_endD:
  assumes "number_end r"
  shows "r = [] \<or> hd r \<noteq> CHR ''.''" "r = [] \<or> \<not> is_ascii_digit (hd r)"
    "r = [] \<or> hd r \<notin> set ''eE''" "r = [] \<or> hd r \<notin> set ''xX''" "r = [] \<or> hd r \<notin> set ''pP''"
    "r = [] \<or> \<not> base_digit base (hd r)"
  using assms unfolding number_end_def by (cases base; auto simp: is_ascii_digit_def)+

lemma float_decimal_fails:
  assumes "ascii input" "drop pos input = ds @ r" "run_of is_ascii_digit ds r"
    "r = [] \<or> hd r \<noteq> CHR ''.''" "r = [] \<or> hd r \<notin> set ''eE''"
  shows "gives parse_float_decimal input pos e Failed"
proof -
  note after = drop_append_length [OF assms(2)]
  have dot: "gives (p_lit ''.'') input (pos + length ds) e Failed"
    using after assms(4) by (rule gives_lit1_fail)
  have skipped: "gives (p_skip_many parse_dec) input pos e (Matched (pos + length ds) ())"
    unfolding parse_dec_def by (rule gives_skip_run [OF assms(1-3)])
  have exp: "gives parse_float_decimal_exp input (pos + length ds) e Failed"
    unfolding parse_float_decimal_exp_def
    by (rule gives_seq_fail, rule gives_class1_fail [OF assms(1) after]) (use assms(5) in auto)
  have digits: "gives (p_then (p_then (p_at_least 1 (p_many parse_dec)) (p_pure ())) p) input pos e Failed"
    if "gives p input (pos + length ds) e Failed" for p :: "unit parser"
  proof (cases "ds = []")
    case True
    with assms(2,3) show ?thesis
      unfolding parse_dec_def by (intro gives_seq_fail gives_many_none [OF assms(1)]) auto
  next
    case False
    show ?thesis
      unfolding parse_dec_def by (rule gives_seq [OF gives_many_run [OF assms(1-3) False] that])
  qed
  show ?thesis
    unfolding parse_float_decimal_def
    by (intro gives_choices_next gives_choices_one gives_seq [OF skipped] digits exp gives_seq_fail dot)
qed

lemma float_hexadecimal_fails:
  assumes "ascii input" "drop pos input = ds @ r" "run_of (\<lambda>c. base_digit IntegerBase_Hexadecimal c) ds r"
    "number_end r"
  shows "gives parse_float_hexadecimal input pos e Failed"
proof -
  note after = drop_append_length [OF assms(2)] and ends = number_endD [OF assms(4)]
  note run = assms(3) [unfolded base_digit.simps]
  have dot: "gives (p_lit ''.'') input (pos + length ds) e Failed"
    using after ends(1) by (rule gives_lit1_fail)
  have skipped: "gives (p_skip_many parse_hex) input pos e (Matched (pos + length ds) ())"
    unfolding parse_hex_def by (rule gives_skip_run [OF assms(1,2) run])
  have exp: "gives parse_float_binary_exp input (pos + length ds) e Failed"
    unfolding parse_float_binary_exp_def
    by (rule gives_seq_fail, rule gives_class1_fail [OF assms(1) after]) (use ends(5) in auto)
  have digits: "gives (p_then (p_then (p_at_least 1 (p_many parse_hex)) (p_pure ())) p) input pos e Failed"
    if "gives p input (pos + length ds) e Failed" for p :: "unit parser"
  proof (cases "ds = []")
    case True
    with assms(2) run show ?thesis
      unfolding parse_hex_def by (intro gives_seq_fail gives_many_none [OF assms(1)]) auto
  next
    case False
    show ?thesis
      unfolding parse_hex_def by (rule gives_seq [OF gives_many_run [OF assms(1,2) run False] that])
  qed
  show ?thesis
    unfolding parse_float_hexadecimal_def
    by (intro gives_choices_next gives_choices_one gives_seq [OF skipped] digits exp gives_seq_fail dot)
qed

text \<open>\<open>n\<close> is the digits after the prefix \<open>p\<close> of the base.\<close>

definition spells_number :: "integer_base \<Rightarrow> string \<Rightarrow> string \<Rightarrow> bool" where
  "spells_number base p n \<longleftrightarrow> p \<in> set (base_prefixes base) \<and> number_spelling base n"

lemma run_number: "number_spelling base n \<Longrightarrow> number_end r \<Longrightarrow> run_of (\<lambda>c. base_digit base c) n r"
  using number_endD(6) [of r base] by (auto simp: number_spelling_def run_of_def)

lemma gives_slice_run:
  assumes "ascii input" "drop pos input = s @ t" "run_of P s t" "s \<noteq> []"
  shows "gives (p_slice (p_then (p_at_least 1 (p_many (p_class name P))) (p_pure ()))) input pos e
    (Matched (pos + length s) s)"
proof -
  from assms(2,4) have "pos < length input" by (cases "pos < length input") auto
  then have "pos \<le> length input" by simp
  then show ?thesis by (rule gives_slice_at [OF gives_many_run [OF assms] assms(1,2)])
qed

lemma gives_zero:
  assumes "drop pos input = CHR ''0'' # r"
  shows "gives (p_lit ''0'') input pos e (Matched (Suc pos) ())"
proof -
  from assms have "drop pos input = ''0'' @ r" by simp
  from gives_lit [OF this less_imp_le [OF drop_lt [OF assms]]] show ?thesis by simp
qed

lemma ohx_fails:
  assumes "ascii input" "drop pos input = c # r" "c \<noteq> CHR ''0'' \<or> r = [] \<or> hd r \<notin> set ''xX''"
  shows "gives parse_ohx input pos e Failed"
proof (cases "c = CHR ''0''")
  case True
  with assms(3) have "r = [] \<or> \<not> (hd r = CHR ''x'' \<or> hd r = CHR ''X'')" by auto
  with True assms(2) show ?thesis
    unfolding parse_ohx_def
    by (intro gives_seq [OF gives_zero] gives_class1_fail [OF assms(1) drop_next]) simp_all
next
  case False
  with assms(2) show ?thesis
    unfolding parse_ohx_def by (intro gives_seq_fail gives_lit1_fail [OF assms(2)]) simp
qed

lemma gives_two:
  assumes "ascii input" "drop pos input = CHR ''0'' # x # r" "P x"
  shows "gives (p_then (p_lit ''0'') (p_class name P)) input pos e (Matched (pos + 2) ())"
proof -
  have "gives (p_class name P) input (Suc pos) e (Matched (Suc (Suc pos)) ())"
    by (rule gives_class [where P = P, OF assms(1) drop_next [OF assms(2)] assms(3)])
  with gives_seq [OF gives_zero [OF assms(2)] this] show ?thesis by simp
qed

lemma gives_hexadecimal:
  assumes "ascii input" "drop pos input = p @ n @ r" "spells_number IntegerBase_Hexadecimal p n" "number_end r"
  shows "gives parse_float_number input pos e Failed"
    "gives parse_integer_number input pos e (Matched (pos + length (p @ n)) (IntegerBase_Hexadecimal, n))"
proof -
  from assms(3) have n: "number_spelling IntegerBase_Hexadecimal n" "n \<noteq> []"
    by (auto simp: spells_number_def number_spelling_def)
  from assms(2,3) obtain x where x: "drop pos input = CHR ''0'' # x # n @ r" "x \<in> set ''xX''" "length p = 2"
    by (auto simp: spells_number_def)
  from drop_append_length [of pos input "CHR ''0'' # [x]"] x(1) have after: "drop (pos + 2) input = n @ r"
    by simp
  have ohx: "gives parse_ohx input pos e (Matched (pos + 2) ())"
    unfolding parse_ohx_def by (rule gives_two [OF assms(1) x(1)]) (use x(2) in auto)
  have "run_of is_ascii_digit [CHR ''0''] (x # n @ r)" using x(2) by (auto simp: is_ascii_digit_def)
  from float_decimal_fails [OF assms(1) _ this] x have decimal: "gives parse_float_decimal input pos e Failed"
    by auto
  show "gives parse_float_number input pos e Failed"
    unfolding parse_float_number_def
    by (intro gives_choices_next gives_choices_one gives_seq_fail gives_slice_fail decimal
        gives_seq [OF ohx] float_hexadecimal_fails [OF assms(1) after run_number [OF n(1) assms(4)] assms(4)])
  have first: "gives (p_class ''[1-9]'' (\<lambda>c. byte (CHR ''1'') \<le> byte c \<and> byte c \<le> byte (CHR ''9'')))
      input pos e Failed"
    by (rule gives_class1_fail [OF assms(1) x(1)]) simp
  have "gives parse_integer_number input pos e (Matched (pos + 2 + length n) (IntegerBase_Hexadecimal, n))"
    unfolding parse_integer_number_def parse_hex_def
    by (rule gives_choices_next [OF gives_seq_fail [OF gives_slice_fail [OF gives_seq_fail [OF first]]]],
        rule gives_choices_first, rule gives_seq [OF ohx], rule gives_seq,
        rule gives_slice_run [OF assms(1) after run_number [OF n(1) assms(4), unfolded base_digit.simps] n(2)],
        rule gives_pure)
  with x(3) show "gives parse_integer_number input pos e
      (Matched (pos + length (p @ n)) (IntegerBase_Hexadecimal, n))" by simp
qed

lemma gives_octal:
  assumes "ascii input" "drop pos input = ''0'' @ n @ r" "number_spelling IntegerBase_Octal n" "number_end r"
  shows "gives parse_float_number input pos e Failed"
    "gives parse_integer_number input pos e (Matched (pos + length (''0'' @ n)) (IntegerBase_Octal, n))"
proof -
  from assms(3) have n: "n \<noteq> []" "\<forall>c\<in>set n. is_ascii_digit c"
    by (auto simp: number_spelling_def is_ascii_digit_def)
  have start: "drop pos input = CHR ''0'' # n @ r" using assms(2) by simp
  from n have "hd (n @ r) \<notin> set ''xX''" by (cases n) (auto simp: is_ascii_digit_def)
  with start have ohx: "gives parse_ohx input pos e Failed"
    by (intro ohx_fails [OF assms(1)]) auto
  have "run_of is_ascii_digit (CHR ''0'' # n) r"
    using n number_endD(2) [OF assms(4)] by (auto simp: run_of_def is_ascii_digit_def)
  from float_decimal_fails [OF assms(1) _ this number_endD(1,3) [OF assms(4)]] start
  have decimal: "gives parse_float_decimal input pos e Failed" by simp
  show "gives parse_float_number input pos e Failed"
    unfolding parse_float_number_def
    by (intro gives_choices_next gives_choices_one gives_seq_fail gives_slice_fail decimal ohx)
  have first: "gives (p_class ''[1-9]'' (\<lambda>c. byte (CHR ''1'') \<le> byte c \<and> byte c \<le> byte (CHR ''9'')))
      input pos e Failed"
    by (rule gives_class1_fail [OF assms(1) start]) simp
  have "gives parse_integer_number input pos e (Matched (Suc pos + length n) (IntegerBase_Octal, n))"
    unfolding parse_integer_number_def parse_oct_def
    by (rule gives_choices_next [OF gives_seq_fail [OF gives_slice_fail [OF gives_seq_fail [OF first]]]],
        rule gives_choices_next [OF gives_seq_fail [OF ohx]],
        rule gives_choices_first, rule gives_seq [OF gives_zero [OF start]], rule gives_seq,
        rule gives_slice_run [OF assms(1) drop_next [OF start]
          run_number [OF assms(3,4), unfolded base_digit.simps] n(1)],
        rule gives_pure)
  then show "gives parse_integer_number input pos e
      (Matched (pos + length (''0'' @ n)) (IntegerBase_Octal, n))" by simp
qed

lemma gives_guard: "extensions_gnu e \<Longrightarrow> gives parse_gnu_guard input pos e (Matched pos ())"
  unfolding parse_gnu_guard_def by (rule gives_check) simp

lemma gives_binary:
  assumes "ascii input" "drop pos input = p @ n @ r" "spells_number IntegerBase_Binary p n" "number_end r"
    "extensions_gnu e"
  shows "gives parse_float_number input pos e Failed"
    "gives parse_integer_number input pos e (Matched (pos + length (p @ n)) (IntegerBase_Binary, n))"
proof -
  from assms(3) have n: "number_spelling IntegerBase_Binary n" "n \<noteq> []"
    by (auto simp: spells_number_def number_spelling_def)
  from assms(2,3) obtain x where x: "drop pos input = CHR ''0'' # x # n @ r" "x \<in> set ''bB''" "length p = 2"
    by (auto simp: spells_number_def)
  from drop_append_length [of pos input "CHR ''0'' # [x]"] x(1) have after: "drop (pos + 2) input = n @ r"
    by simp
  from x have ohx: "gives parse_ohx input pos e Failed"
    by (intro ohx_fails [OF assms(1)]) auto
  have obb: "gives parse_obb input pos e (Matched (pos + 2) ())"
    unfolding parse_obb_def by (rule gives_two [OF assms(1) x(1)]) (use x(2) in auto)
  have "run_of is_ascii_digit [CHR ''0''] (x # n @ r)" using x(2) by (auto simp: is_ascii_digit_def)
  from float_decimal_fails [OF assms(1) _ this] x have decimal: "gives parse_float_decimal input pos e Failed"
    by auto
  show "gives parse_float_number input pos e Failed"
    unfolding parse_float_number_def
    by (intro gives_choices_next gives_choices_one gives_seq_fail gives_slice_fail decimal ohx)
  have first: "gives (p_class ''[1-9]'' (\<lambda>c. byte (CHR ''1'') \<le> byte c \<and> byte c \<le> byte (CHR ''9'')))
      input pos e Failed"
    by (rule gives_class1_fail [OF assms(1) x(1)]) simp
  have octal: "gives (p_slice (p_then (p_at_least 1 (p_many parse_oct)) (p_pure ()))) input (Suc pos) e Failed"
    unfolding parse_oct_def
    by (rule gives_slice_fail, rule gives_many_none [OF assms(1) drop_next [OF x(1)]]) (use x(2) in auto)
  have "gives parse_integer_number_2 input pos e (Matched (pos + 2 + length n) (IntegerBase_Binary, n))"
    unfolding parse_integer_number_2_def parse_bin_def
    by (rule gives_choices_first, rule gives_seq [OF gives_and(1) [OF gives_guard [OF assms(5)]]],
        rule gives_seq [OF obb], rule gives_seq,
        rule gives_slice_run [OF assms(1) after run_number [OF n(1) assms(4), unfolded base_digit.simps] n(2)],
        rule gives_pure)
  then have "gives parse_integer_number input pos e (Matched (pos + 2 + length n) (IntegerBase_Binary, n))"
    unfolding parse_integer_number_def
    by (intro gives_choices_next [OF gives_seq_fail [OF gives_slice_fail [OF gives_seq_fail [OF first]]]]
        gives_choices_next [OF gives_seq_fail [OF ohx]]
        gives_choices_next [OF gives_then [OF gives_zero [OF x(1)] gives_seq_fail [OF octal]]]
        gives_choices_one)
  with x(3) show "gives parse_integer_number input pos e
      (Matched (pos + length (p @ n)) (IntegerBase_Binary, n))" by simp
qed

lemma gives_decimal:
  assumes "ascii input" "drop pos input = n @ r" "number_spelling IntegerBase_Decimal n" "number_end r"
    "r = [] \<or> hd r \<notin> set ''bB''"
  shows "gives parse_float_number input pos e Failed"
    "gives parse_integer_number input pos e (Matched (pos + length n) (IntegerBase_Decimal, n))"
proof -
  note run = run_number [OF assms(3,4), unfolded base_digit.simps]
  from assms(3) obtain c s where n: "n = c # s" "is_ascii_digit c" "c = CHR ''0'' \<longrightarrow> s = []"
    by (cases n) (auto simp: number_spelling_def)
  with assms(2) have start: "drop pos input = c # s @ r" by simp
  have ohx: "gives parse_ohx input pos e Failed"
    using n number_endD(4) [OF assms(4)] by (intro ohx_fails [OF assms(1) start]) auto
  from float_decimal_fails [OF assms(1,2) run number_endD(1,3) [OF assms(4)]]
  have decimal: "gives parse_float_decimal input pos e Failed" .
  show "gives parse_float_number input pos e Failed"
    unfolding parse_float_number_def
    by (intro gives_choices_next gives_choices_one gives_seq_fail gives_slice_fail decimal ohx)
  let ?P = "\<lambda>c. byte (CHR ''1'') \<le> byte c \<and> byte c \<le> byte (CHR ''9'')"
  show "gives parse_integer_number input pos e (Matched (pos + length n) (IntegerBase_Decimal, n))"
  proof (cases "c = CHR ''0''")
    case False
    then have "byte c \<noteq> byte (CHR ''0'')" using of_char_eq_iff [of c "CHR ''0''"] by metis
    with n(2) have P: "?P c" by (auto simp: is_ascii_digit_def)
    have tail: "run_of is_ascii_digit s r" using run n(1) by simp
    have "gives (p_then (p_class ''[1-9]'' ?P) (p_skip_many parse_dec)) input pos e
        (Matched (Suc pos + length s) ())"
      unfolding parse_dec_def
      by (rule gives_seq [OF gives_class [where P = ?P, OF assms(1) start P]
            gives_skip_run [OF assms(1) drop_next [OF start] tail]])
    then have "gives (p_slice (p_then (p_class ''[1-9]'' ?P) (p_skip_many parse_dec))) input pos e
        (Matched (pos + length n) n)"
      using drop_lt [OF start] n(1) by (intro gives_slice_at [OF _ assms(1,2)]) simp_all
    then show ?thesis
      unfolding parse_integer_number_def
      by (intro gives_choices_first gives_seq [OF _ gives_pure])
  next
    case True
    with n start have zero: "n = ''0''" "drop pos input = CHR ''0'' # r" by simp_all
    have first: "gives (p_class ''[1-9]'' ?P) input pos e Failed"
      by (rule gives_class1_fail [OF assms(1) zero(2)]) simp
    have octal: "gives (p_slice (p_then (p_at_least 1 (p_many parse_oct)) (p_pure ()))) input (Suc pos) e Failed"
      unfolding parse_oct_def
      by (rule gives_slice_fail, rule gives_many_none [OF assms(1) drop_next [OF zero(2)]])
        (use number_endD(6) [OF assms(4), of IntegerBase_Octal] in simp)
    have "gives (p_class ''[bB]'' (\<lambda>c. c = CHR ''b'' \<or> c = CHR ''B'')) input (Suc pos) e Failed"
      by (rule gives_class1_fail [OF assms(1) drop_next [OF zero(2)]]) (use assms(5) in auto)
    then have obb: "gives parse_obb input pos e Failed"
      unfolding parse_obb_def by (rule gives_seq [OF gives_zero [OF zero(2)]])
    have "gives (p_slice (p_lit ''0'')) input pos e (Matched (pos + length ''0'') ''0'')"
      using gives_zero [OF zero(2)] assms(1,2) zero(1) drop_lt [OF start]
      by (intro gives_slice_at [of _ _ _ _ "''0''" _ r]) simp_all
    then have number: "gives (p_seq (p_slice (p_lit ''0'')) (\<lambda>n. p_pure (IntegerBase_Decimal, n)))
        input pos e (Matched (pos + length n) (IntegerBase_Decimal, n))"
      unfolding zero(1) by (rule gives_seq) (rule gives_pure)
    have "gives (p_then (p_and parse_gnu_guard) (p_then parse_obb
        (p_seq (p_slice (p_then (p_at_least 1 (p_many parse_bin)) (p_pure ()))) (\<lambda>n.
          p_pure (IntegerBase_Binary, n))))) input pos e Failed"
    proof (cases "extensions_gnu e")
      case True
      then show ?thesis by (rule gives_seq [OF gives_and(1) [OF gives_guard] gives_seq_fail [OF obb]])
    next
      case False
      then have "gives parse_gnu_guard input pos e Failed"
        unfolding parse_gnu_guard_def by (intro gives_check(2)) simp
      then show ?thesis by (intro gives_seq_fail gives_and(2))
    qed
    with number have "gives parse_integer_number_2 input pos e (Matched (pos + length n) (IntegerBase_Decimal, n))"
      unfolding parse_integer_number_2_def by (intro gives_choices_next gives_choices_one)
    then show ?thesis
      unfolding parse_integer_number_def
      by (intro gives_choices_next [OF gives_seq_fail [OF gives_slice_fail [OF gives_seq_fail [OF first]]]]
          gives_choices_next [OF gives_seq_fail [OF ohx]]
          gives_choices_next [OF gives_then [OF gives_zero [OF zero(2)] gives_seq_fail [OF octal]]]
          gives_choices_one)
  qed
qed

text \<open>The suffix is read to its end, and split by \<open>int_suffix\<close>.\<close>

definition suffix_char :: "env \<Rightarrow> char \<Rightarrow> bool" where
  "suffix_char e c \<longleftrightarrow> c \<in> set ''uUlL'' \<or> extensions_gnu e \<and> c \<in> set ''iIjJ''"

lemma gives_suffix:
  assumes "ascii input" "drop pos input = s @ t" "run_of (suffix_char e) s t" "pos \<le> length input"
    "int_suffix s = Inr suffix"
  shows "gives parse_integer_suffix input pos e (Matched (pos + length s) suffix)"
proof -
  let ?ul = "p_class ''[uUlL]'' (\<lambda>c. c \<in> {CHR ''u'', CHR ''U'', CHR ''l'', CHR ''L''})"
  let ?ij = "p_class ''[iIjJ]'' (\<lambda>c. c \<in> {CHR ''i'', CHR ''I'', CHR ''j'', CHR ''J''})"
  let ?p = "p_choices [?ul, p_then (p_and parse_gnu_guard) ?ij]"
  have no_guard: "gives parse_gnu_guard input pos e Failed" if "\<not> extensions_gnu e" for pos
    unfolding parse_gnu_guard_def using that by (intro gives_check(2)) simp
  have stop: "gives ?p input pos e Failed"
    if "drop pos input = [] \<or> \<not> suffix_char e (hd (drop pos input))" for pos
  proof -
    have "gives ?ul input pos e Failed"
      using that by (intro gives_class_fail [OF assms(1)]) (auto simp: suffix_char_def)
    moreover have "gives (p_then (p_and parse_gnu_guard) ?ij) input pos e Failed"
    proof (cases "extensions_gnu e")
      case True
      with that have "gives ?ij input pos e Failed"
        by (intro gives_class_fail [OF assms(1)]) (auto simp: suffix_char_def)
      with True show ?thesis by (intro gives_then [OF gives_and(1) [OF gives_guard]])
    qed (intro gives_seq_fail gives_and(2) no_guard)
    ultimately show ?thesis by (intro gives_choices_next gives_choices_one)
  qed
  have turn: "gives ?p input pos e (Matched (Suc pos) ())"
    if "drop pos input = c # r" "suffix_char e c" for pos c r
  proof (cases "c \<in> set ''uUlL''")
    case True
    then show ?thesis by (intro gives_choices_first gives_class [OF assms(1) that(1)]) simp
  next
    case False
    with that(1) have "gives ?ul input pos e Failed"
      by (intro gives_class_fail [OF assms(1)]) auto
    moreover from False that(2) have gnu: "extensions_gnu e" "c \<in> {CHR ''i'', CHR ''I'', CHR ''j'', CHR ''J''}"
      by (auto simp: suffix_char_def)
    moreover from gnu(2) have "gives ?ij input pos e (Matched (Suc pos) ())"
      by (rule gives_class [OF assms(1) that(1)])
    ultimately show ?thesis
      by (intro gives_choices_next gives_choices_one gives_then [OF gives_and(1) [OF gives_guard]])
  qed
  have "gives (p_skip_many ?p) input pos e (Matched (pos + length s) ())"
    by (rule gives_skip_many [OF assms(2,3)]) (fact stop, fact turn)
  from gives_slice_at [OF this assms(1,2,4)]
  have "gives (p_slice (p_skip_many ?p)) input pos e (Matched (pos + length s) s)" .
  then have "gives parse_integer_suffix_inner input pos e (Matched (pos + length s) suffix)"
    unfolding parse_integer_suffix_inner_def
    by (rule gives_seq) (intro gives_check(1), simp add: assms(5))
  then show ?thesis
    unfolding parse_integer_suffix_def by (intro gives_named gives_quiet)
qed

text \<open>What a constant may be followed by.\<close>

definition constant_end :: "string \<Rightarrow> bool" where
  "constant_end t \<longleftrightarrow> t = [] \<or> \<not> ident_char (hd t) \<and> hd t \<noteq> CHR ''.''"

definition reads_integer :: "env \<Rightarrow> string \<Rightarrow> c_integer \<Rightarrow> bool" where
  "reads_integer e s x \<longleftrightarrow>
     (case x of Integer base n suffix \<Rightarrow>
        \<exists>p r. s = p @ n @ r \<and> p \<in> set (base_prefixes base) \<and> number_spelling base n \<and>
          r \<in> set (suffix_spellings suffix) \<and>
          (base = IntegerBase_Binary \<or> is_imaginary suffix \<longrightarrow> extensions_gnu e))"

lemma ident_chars: "constant_end t \<Longrightarrow> c \<in> set ''abcdefABCDEFxXpPuUlLiIjJ_'' \<Longrightarrow> t = [] \<or> hd t \<noteq> c"
  by (auto simp: constant_end_def ident_char_def ident_start_def is_lower_def is_upper_def)

lemma constant_end_number: "constant_end t \<Longrightarrow> number_end t"
  by (auto simp: constant_end_def number_end_def ident_char_def ident_start_def is_lower_def
    is_upper_def is_ascii_digit_def)

lemma number_end_suffix:
  assumes "r \<in> set (suffix_spellings suffix)" "constant_end t"
  shows "number_end (r @ t) \<and> (r @ t = [] \<or> hd (r @ t) \<notin> set ''bB'')"
proof (cases r)
  case Nil
  with constant_end_number [OF assms(2)] ident_chars [OF assms(2)] show ?thesis by auto
next
  case (Cons c r')
  with suffix_spellings_chars [OF assms(1), of c] have "c \<in> set ''uUlLiIjJ''" by auto
  then have "number_end [c] \<and> c \<notin> set ''bB''" by (auto simp: number_end_def is_ascii_digit_def)
  with Cons show ?thesis by (simp add: number_end_def)
qed

lemma gives_integer_constant:
  assumes "ascii input" "drop pos input = s @ t" "pos \<le> length input" "reads_integer e s x" "constant_end t"
  shows "gives parse_float_constant input pos e Failed"
    "gives parse_integer_constant input pos e (Matched (pos + length s) x)"
proof -
  obtain base n suffix where x: "x = Integer base n suffix" by (cases x)
  with assms(4) obtain p r where s: "s = p @ n @ r" "p \<in> set (base_prefixes base)" "number_spelling base n"
    "r \<in> set (suffix_spellings suffix)" "base = IntegerBase_Binary \<or> is_imaginary suffix \<longrightarrow> extensions_gnu e"
    by (auto simp: reads_integer_def)
  have at: "drop pos input = (p @ n) @ r @ t" "drop pos input = p @ n @ r @ t" using assms(2) s(1) by simp_all
  have run: "run_of (suffix_char e) r t"
    using suffix_spellings_chars [OF s(4)] s(5) ident_chars [OF assms(5)]
    by (auto simp: run_of_def suffix_char_def)
  have ends: "number_end (r @ t)" "r @ t = [] \<or> hd (r @ t) \<notin> set ''bB''"
    using number_end_suffix [OF s(4) assms(5)] by simp_all
  have number: "gives parse_float_number input pos e Failed \<and>
      gives parse_integer_number input pos e (Matched (pos + length (p @ n)) (base, n))"
  proof (cases base)
    case IntegerBase_Decimal
    with s(2,3) at gives_decimal [OF assms(1) _ _ ends] show ?thesis by simp
  next
    case IntegerBase_Octal
    with s(2,3) at gives_octal [OF assms(1) _ _ ends(1)] show ?thesis by simp
  next
    case IntegerBase_Hexadecimal
    with s(2,3) gives_hexadecimal [OF assms(1) at(2) _ ends(1)] show ?thesis
      by (simp add: spells_number_def)
  next
    case IntegerBase_Binary
    with s(2,3,5) gives_binary [OF assms(1) at(2) _ ends(1)] show ?thesis
      by (simp add: spells_number_def)
  qed
  then show "gives parse_float_constant input pos e Failed"
    unfolding parse_float_constant_def by (intro gives_seq_fail) simp
  from at(1) have "length input - pos = length (p @ n) + length (r @ t)"
    by (metis length_append length_drop)
  with assms(3) have "pos + length (p @ n) \<le> length input" by linarith
  from gives_suffix [OF assms(1) drop_append_length [OF at(1)] run this suffix_spellings_read [OF s(4)]]
  have "gives parse_integer_suffix input (pos + length (p @ n)) e (Matched (pos + length s) suffix)"
    using s(1) by (simp add: ac_simps)
  then show "gives parse_integer_constant input pos e (Matched (pos + length s) x)"
    unfolding parse_integer_constant_def x
    using number by (auto intro!: gives_seq gives_pure)
qed

lemma reads_integer_ascii: "reads_integer e s x \<Longrightarrow> ascii s"
proof -
  assume "reads_integer e s x"
  then obtain base p n r suffix where s: "s = p @ n @ r" "p \<in> set (base_prefixes base)"
    "number_spelling base n" "r \<in> set (suffix_spellings suffix)"
    by (cases x) (auto simp: reads_integer_def)
  have "base_digit base c \<Longrightarrow> byte c < 128" for c
    by (cases base) (auto simp: is_ascii_digit_def)
  with s(3) have "ascii n" by (auto simp: number_spelling_def ascii_def list_all_iff)
  moreover have "ascii p" using s(2) by (cases base) auto
  moreover have "byte c < 128" if "c \<in> set r" for c
    using suffix_spellings_chars [OF s(4) that] by auto
  then have "ascii r" by (simp add: ascii_def list_all_iff)
  ultimately show ?thesis by (simp add: s(1))
qed

lemma gives_parse_all:
  assumes "gives p input 0 e (Matched (length input) v)"
  shows "parse_all p input e = Ok (Inr v, e)"
proof -
  from assms have "gives p input 0 (env (new_parse_state e)) (Matched (length input) v)" by simp
  then obtain st where "p input 0 (new_parse_state e) = Ok (Matched (length input) v, st)"
    "undisturbed (new_parse_state e) st" by (rule givesE)
  then show ?thesis by (simp add: parse_all_def undisturbed_def)
qed

lemma gives_constant:
  assumes "ascii input" "drop pos input = s @ t" "pos \<le> length input" "reads_integer e s x" "constant_end t"
  shows "gives parse_constant input pos e (Matched (pos + length s) (Constant_Integer x))"
proof -
  from assms(4) have "\<exists>c r. s = c # r \<and> is_ascii_digit c"
    by (cases x; cases "case x of Integer base _ _ \<Rightarrow> base")
      (fastforce simp: reads_integer_def number_spelling_def neq_Nil_conv is_ascii_digit_def)+
  then obtain c r where s: "s = c # r" "is_ascii_digit c" by blast
  then have "gives (p_class ''[0-9.]'' (\<lambda>c. is_ascii_digit c \<or> c = CHR ''.'')) input pos e
      (Matched (Suc pos) ())"
    using assms(2) by (intro gives_class [OF assms(1), of _ c "r @ t"]) simp_all
  note numeric = gives_and(1) [OF this]
  note int = gives_integer_constant [OF assms]
  have "gives parse_numeric_constant input pos e (Matched (pos + length s) (Constant_Integer x))"
    unfolding parse_numeric_constant_def
    by (intro gives_choices_next [OF gives_seq_fail [OF int(1)]] gives_choices_one
        gives_seq [OF int(2)] gives_pure)
  then show ?thesis
    unfolding parse_constant_def by (intro gives_choices_first gives_then [OF numeric])
qed

subsection \<open>The properties\<close>

text \<open>
  C32: every spelling of an integer constant is read back: decimal, octal, hexadecimal or (with GNU
  extensions) binary digits with the prefix of their base, followed by a size suffix, an unsigned suffix and
  (with GNU extensions) an imaginary suffix in any order, is parsed to the constant with that base, those
  digits and that suffix; the whole text is consumed and the environment is left alone.
\<close>
theorem integer_constant_roundtrip:
  assumes "reads_integer e s x"
  shows "parse_constant_text s e = Ok (Inr (Constant_Integer x), e)"
  unfolding parse_constant_text_def
  using gives_constant [OF reads_integer_ascii [OF assms] _ _ assms, of 0 "[]"]
  by (intro gives_parse_all) (simp add: constant_end_def)

theorem integer_constant_roundtrip_witness:
  "parse_constant_text ''0x1fuLL'' with_core =
     Ok (Inr (Constant_Integer (Integer IntegerBase_Hexadecimal ''1f''
       (IntegerSuffix IntegerSize_LongLong True False))), with_core)"
proof (rule integer_constant_roundtrip)
  have "''uLL'' \<in> set (suffix_spellings (IntegerSuffix IntegerSize_LongLong True False))"
    by (simp add: suffix_spellings_def size_spellings_def unsigned_spellings_def imaginary_spellings_def)
  then show "reads_integer with_core ''0x1fuLL''
      (Integer IntegerBase_Hexadecimal ''1f'' (IntegerSuffix IntegerSize_LongLong True False))"
    unfolding reads_integer_def c_integer.case
    by (intro exI [of _ "''0x''"] exI [of _ "''uLL''"])
      (simp add: number_spelling_def is_ascii_digit_def is_imaginary_def)
qed

text \<open>
  an identifier is the longest run of letters, digits and underscores from a letter or underscore on;
  it is matched, with its exact text, unless the whole run is a reserved word of the language flavour, and
  then nothing is matched (no shorter prefix of a keyword is taken for an identifier).
\<close>
theorem identifier_maximal_munch:
  assumes "ascii input" and "pos < length input" and "ident_start (input ! pos)"
  shows "\<exists>st'. parse_identifier0 input pos st =
    Ok (let name = takeWhile ident_char (drop pos input) in
        if name \<in> set (reserved (env st)) then Failed
        else Matched (pos + length name) (Identifier name), st') \<and> env st' = env st"
proof -
  let ?c = "input ! pos" and ?s = "takeWhile ident_char (drop (Suc pos) input)"
    and ?t = "dropWhile ident_char (drop (Suc pos) input)"
  have split: "drop pos input = ?c # ?s @ ?t"
    using assms(2) by (simp add: Cons_nth_drop_Suc [symmetric])
  have "run_of ident_char ?s ?t"
    using hd_dropWhile [of ident_char "drop (Suc pos) input"]
    by (auto simp: run_of_def dest: set_takeWhileD)
  from gives_identifier0 [OF assms(1) split assms(3) this, of "env st"] obtain st' where
    "parse_identifier0 input pos st =
       Ok (if ?c # ?s \<in> set (reserved (env st)) then Failed
           else Matched (pos + length (?c # ?s)) (Identifier (?c # ?s)), st')" "undisturbed st st'"
    by (rule givesE)
  moreover have "takeWhile ident_char (drop pos input) = ?c # ?s"
    using assms(2,3) by (simp add: Cons_nth_drop_Suc [symmetric] ident_char_def)
  ultimately show ?thesis by (simp add: undisturbed_def Let_def)
qed

theorem identifier_maximal_munch_witness:
  "\<exists>st'. parse_identifier0 ''int8 x'' 0 (new_parse_state with_core) =
    Ok (Matched 4 (Identifier ''int8''), st') \<and> env st' = with_core"
proof -
  have "takeWhile ident_char ''int8 x'' = ''int8''"
    by (simp add: ident_start_def ident_char_def is_lower_def is_upper_def is_ascii_digit_def)
  moreover have "ident_start (''int8 x'' ! 0)" by (simp add: ident_start_def is_lower_def)
  moreover have "''int8'' \<notin> set (reserved with_core)" by (simp add: with_core_def reserved_c11_def)
  ultimately show ?thesis
    using identifier_maximal_munch [of "''int8 x''" 0 "new_parse_state with_core"]
    by (simp add: eval_nat_numeral)
qed

end
