(* ===== verification/Parsing.thy ===== *)
theory Parsing
  imports Runs
begin

text \<open>
  Properties of the parser as a whole: it returns on every text, recovery accounts for every byte of
  the text and agrees with the strict parser, and the lexical rules read the longest token.
\<close>

subsection \<open>Evaluation\<close>

text \<open>
  The definitions of the rules, applied to a position and a state, as rewrite rules: with them the
  simplifier runs the parser on a concrete text.  Literals are compared character by character.
\<close>

lemmas rule_at [THEN fun_cong, THEN fun_cong, THEN fun_cong] =
  parse_declaration_specifier_unique_type0_def parse_declaration_unique_type_def
  parse_declaration_specifier_nonunique_type0_def parse_declaration_nonunique_type_def
  parse_storage_class_specifier0_2_def parse_storage_class_specifier0_def
  parse_storage_class_specifier_def parse_function_specifier0_def parse_function_specifier_def
  parse_alignment_specifier0_2_def parse_alignment_specifier0_def parse_alignment_specifier_def
  parse_declaration_specifier_nontype_def parse_declaration_specifiers_unique_def
  parse_declaration_specifiers_nonunique_def parse_asm_label_keyword_def parse_asm_label0_def
  parse_asm_label_def parse_init_declarator_gnu_def parse_direct_declarator_def
  parse_array_declarator_4_def parse_array_declarator_3_def parse_array_declarator_2_def
  parse_array_declarator_def parse_ellipsis_def parse_declaration_specifiers_tail_def
  parse_declaration_specifiers_def parse_parameter_declaration0_def
  parse_parameter_declaration_def parse_function_declarator_def parse_derived_declarator_2_def
  parse_derived_declarator_def parse_pointer_qualifier_def parse_pointer0_def parse_pointer_def
  parse_declarator0_def parse_declarator_def parse_type_declarator_def
  parse_declaration_type_declarators_def parse_declaration_typedef_tail0_def
  parse_declaration_typedef_tail_def parse_storage_class_typedef0_def
  parse_storage_class_typedef_def parse_declaration_typedef0_def parse_declaration_typedef_def
  parse_init_declarator_declarator_def parse_initializer_2_def parse_initializer_def
  parse_init_declarator_init_def parse_init_declarator_def parse_declaration_init_declarators_def
  parse_declaration2_2_def parse_declaration2_def parse_declaration1_def parse_declaration0_def
  parse_declaration_def parse_struct_declarator_def parse_struct_field_def
  parse_static_assert0_def parse_static_assert_def parse_struct_declaration_def
  parse_direct_abstract_declarator_def parse_abstract_array_declarator_3_def
  parse_abstract_array_declarator_2_def parse_abstract_array_declarator_def
  parse_abstract_function_declarator_def parse_derived_abstract_declarator0_def
  parse_derived_abstract_declarator_def parse_abstract_declarator0_2_def
  parse_abstract_declarator0_def parse_abstract_declarator_def parse_parameter_declarator_def
  parse_colon_designation_def parse_range_suffix_def parse_array_designator_def
  parse_designator_def parse_designation_2_def parse_designation_def
  parse_initializer_list_item_def parse_generic_association_def parse_generic_selection_def
  parse_compound_statement_def parse_statement_expression_def parse_va_arg_expression_inner_def
  parse_va_arg_expression_def parse_keyword_expression0_def parse_keyword_expression_def
  parse_offsetof_member_def parse_offsetof_designator_def parse_offsetof_expression_inner_def
  parse_offsetof_expression_def parse_gnu_primary_expression_def parse_primary_expression0_2_def
  parse_primary_expression0_def parse_compound_literal_inner_def parse_compound_literal_def
  parse_postfix_expression1_def parse_index_operator0_def parse_index_operator_def
  parse_member_operator_def parse_postfix_operator_def parse_postfix_expressionT_2_def
  parse_postfix_expressionT_def parse_postfix_expression0_def parse_prefix_operator_def
  parse_unary_prefix_inner_def parse_unary_prefix_def parse_unary_operator_def
  parse_unary_cast_inner_def parse_unary_cast_def parse_sizeof_ty_expression0_def
  parse_sizeof_ty_expression_def parse_sizeof_val_expression0_def parse_sizeof_val_expression_def
  parse_sizeof_expression_def parse_alignof0_def parse_alignof_def parse_alignof_expression_def
  parse_unary_expression0_def parse_cast_expression_inner_def parse_cast_expression0_def
  parse_binary_operand_def parse_binary_expression0_def parse_conditional_expressionT_def
  parse_conditional_expression0_def parse_unary_expression_def parse_assignment_operator_def
  parse_assignment_expression_inner_def parse_assignment_expression0_def parse_expressionT_def
  parse_expression0_def parse_expression_def parse_primary_expression_def
  parse_postfix_expression_def parse_cast_expression_def parse_binary_expression_def
  parse_conditional_expression_def parse_assignment_expression_def parse_constant_expression_def
  parse_constant_expression0_def parse_directive_line_def parse_ws_def parse_gnu_guard_def
  parse_clang_guard_def parse_identifier0_def parse_identifier_def parse_ohx_def parse_obb_def
  parse_dec_def parse_oct_def parse_hex_def parse_bin_def parse_integer_number_2_def
  parse_integer_number_def parse_integer_suffix_inner_def parse_integer_suffix_def
  parse_integer_constant_def parse_float_decimal_exp_def parse_float_decimal_def
  parse_float_binary_exp_def parse_float_hexadecimal_def parse_float_number_def
  parse_ts18661_binary_width_def parse_ts18661_decimal_width_def parse_ts18661_float_suffix_def
  parse_float_format_def parse_float_suffix_inner_def parse_float_suffix_def
  parse_float_constant_def parse_numeric_constant_def parse_escape_sequence_def
  parse_character_def parse_character_constant_def parse_constant_def parse_encoding_prefix_def
  parse_string_char_def parse_string_literal0_def parse_string_literal_def parse_label_2_def
  parse_label_def parse_labeled_statement_def parse_expression_statement_def
  parse_else_statement_def parse_if_statement_def parse_switch_statement_def
  parse_selection_statement_def parse_while_statement_def parse_do_while_statement_def
  parse_for_initializer_def parse_for_statement_def parse_iteration_statement_def
  parse_jump_statement_2_def parse_jump_statement_def parse_asm_operand_def
  parse_asm_operand_list_def parse_asm_statement0_def parse_asm_statement_def
  parse_statement0_2_def parse_statement0_def parse_statement_def parse_block_item_def
  parse_function_definition_def parse_external_declaration0_def parse_external_declaration_def
  parse_translation_unit_def parse_typeof_specifier0_def parse_attribute_name_def
  parse_attribute_parameters_def parse_attr_availability_version_def
  parse_attr_availability_clause_4_def parse_attr_availability_clause_3_def
  parse_attr_availability_clause_2_def parse_attr_availability_clause_def
  parse_attr_availability_def parse_attribute_def parse_attribute_specifier_def
  parse_attribute_specifier_list_def parse_struct_or_union_body_def parse_struct_or_union_def
  parse_struct_or_union_specifier_def parse_enumerator_constant_def parse_enumerator_def
  parse_enum_specifier_2_def parse_enum_specifier_def parse_typedef_name0_def
  parse_typedef_name_def parse_type_specifier_unique_4_def parse_type_specifier_unique_3_def
  parse_type_specifier_unique_2_def parse_type_specifier_unique_def
  parse_specifier_qualifier_unique_type0_def parse_typeof_specifier_def
  parse_ts18661_binary_float_def parse_ts18661_decimal_float_def
  parse_ts18661_float_type_specifier_def parse_type_specifier_nonunique_5_def
  parse_type_specifier_nonunique_4_def parse_type_specifier_nonunique_3_def
  parse_type_specifier_nonunique_2_def parse_type_specifier_nonunique_def
  parse_specifier_qualifier_nonunique_type0_def parse_type_qualifier0_4_def
  parse_type_qualifier0_3_def parse_type_qualifier0_2_def parse_type_qualifier0_def
  parse_type_qualifier_def parse_specifier_qualifier_qualifier0_def
  parse_specifier_qualifiers_2_def parse_specifier_qualifiers_def parse_type_name0_def
  parse_type_name_def

primrec lit_end :: "string \<Rightarrow> string \<Rightarrow> nat \<Rightarrow> nat option" where
  "lit_end [] input pos = Some pos"
| "lit_end (c # m) input pos =
     (if pos < length input \<and> input ! pos = c then lit_end m input (pos + 1) else None)"

lemma lit_end_iff:
  "pos \<le> length input \<Longrightarrow>
   lit_end m input pos =
     (if pos + length m \<le> length input \<and> take (length m) (drop pos input) = m
      then Some (pos + length m) else None)"
proof (induction m arbitrary: pos)
  case (Cons c m)
  show ?case
  proof (cases "pos < length input")
    case True
    then have "drop pos input = input ! pos # drop (Suc pos) input" by (simp add: Cons_nth_drop_Suc)
    with True Cons.IH [of "Suc pos"] show ?thesis by auto
  qed auto
qed simp

lemma p_lit_at:
  "p_lit m input pos st =
     (if pos \<le> length input then
        case lit_end m input pos of
          Some q \<Rightarrow> Ok (Matched q (), st)
        | None \<Rightarrow> p_mark m input pos st
      else p_mark m input pos st)"
  using lit_end_iff [of pos input m] by (auto simp: p_lit_def)

lemma grammar_fields:
  "0 < n \<Longrightarrow> g_type_name (grammar_at n) = parse_type_name (grammar_at (n - 1))"
  "0 < n \<Longrightarrow> g_unary_expression0 (grammar_at n) = parse_unary_expression0 (grammar_at (n - 1))"
  "0 < n \<Longrightarrow> g_conditional_expression0 (grammar_at n) = parse_conditional_expression0 (grammar_at (n - 1))"
  "0 < n \<Longrightarrow> g_unary_expression (grammar_at n) = parse_unary_expression (grammar_at (n - 1))"
  "0 < n \<Longrightarrow> g_assignment_expression0 (grammar_at n) = parse_assignment_expression0 (grammar_at (n - 1))"
  "0 < n \<Longrightarrow> g_expression0 (grammar_at n) = parse_expression0 (grammar_at (n - 1))"
  "0 < n \<Longrightarrow> g_cast_expression (grammar_at n) = parse_cast_expression (grammar_at (n - 1))"
  "0 < n \<Longrightarrow> g_assignment_expression (grammar_at n) = parse_assignment_expression (grammar_at (n - 1))"
  "0 < n \<Longrightarrow> g_constant_expression (grammar_at n) = parse_constant_expression (grammar_at (n - 1))"
  "0 < n \<Longrightarrow> g_declarator (grammar_at n) = parse_declarator (grammar_at (n - 1))"
  "0 < n \<Longrightarrow> g_struct_declaration (grammar_at n) = parse_struct_declaration (grammar_at (n - 1))"
  "0 < n \<Longrightarrow> g_abstract_declarator (grammar_at n) = parse_abstract_declarator (grammar_at (n - 1))"
  "0 < n \<Longrightarrow> g_parameter_declarator (grammar_at n) = parse_parameter_declarator (grammar_at (n - 1))"
  "0 < n \<Longrightarrow> g_initializer_list_item (grammar_at n) = parse_initializer_list_item (grammar_at (n - 1))"
  "0 < n \<Longrightarrow> g_statement (grammar_at n) = parse_statement (grammar_at (n - 1))"
  "0 < n \<Longrightarrow> g_block_item (grammar_at n) = parse_block_item (grammar_at (n - 1))"
  "0 < n \<Longrightarrow> g_typeof_specifier0 (grammar_at n) = parse_typeof_specifier0 (grammar_at (n - 1))"
  by (cases n; simp add: Let_def)+

lemma and_then_weak: "x = x' \<Longrightarrow> and_then x f = and_then x' f" by simp

lemma choices_at:
  "p_choices [] input pos st = p_fail input pos st"
  "p_choices [p] input pos st = p input pos st"
  "p_choices (p # q # ps) input pos st = p_choice p (p_choices (q # ps)) input pos st"
  by (simp_all add: p_choices.simps)

lemmas parts_at [THEN fun_cong, THEN fun_cong, THEN fun_cong] =
  p_opt_def p_maybe_def p_node_def p_named_def p_skip_many_def p_at_least_def p_many_def p_many_sep_def
  p_up_to_def p_scoped_def p_guard_def p_keyword_def

lemmas parser_eval = rule_at parts_at choices_at p_lit_at p_pure_def p_fail_def p_mark_def p_seq_def
  p_choice_def p_pos_def p_quiet_def p_not_def p_and_def p_class_def p_slice_def p_loop.simps
  p_check_def p_modify_def p_unwrap_def p_memo_def infix_parse.simps infix_turn_def infix_operator_def
  binary_levels_def binary_level_0_def grammar_fields mark_failure_def ident_char_def ident_start_def
  utf8_len_def is_lower_def is_upper_def is_ascii_digit_def is_typename_def add_symbol_def handle_declarator_def
   enter_scope_def leave_scope_def new_parse_state_def

definition sample_text :: string where
  "sample_text = ''int x;''"

lemma sample_text:
  "length sample_text = 6" "sample_text ! 0 = CHR ''i''" "sample_text ! 1 = CHR ''n''"
  "sample_text ! Suc 0 = CHR ''n''" "sample_text ! 2 = CHR ''t''" "sample_text ! 3 = CHR '' ''"
  "sample_text ! 4 = CHR ''x''" "sample_text ! 5 = CHR '';''" "take 3 sample_text = ''int''"
  "take 1 (drop 4 sample_text) = ''x''" "take (Suc 0) (drop 4 sample_text) = ''x''"
  "''int'' \<in> set reserved_c11" "''x'' \<notin> set reserved_c11"
  by (simp_all add: sample_text_def reserved_c11_def)

lemma sample_text_boundary: "p \<le> 6 \<Longrightarrow> is_char_boundary sample_text p"
  by (rule ascii_char_boundary) (simp_all add: sample_text_def)

lemma sample_text_parsed:
  "parse_translation_unit_text sample_text with_core =
     Ok (Inr (TranslationUnit
       [Node (ExternalDeclaration_Declaration
          (Node (Declaration
             [Node (DeclarationSpecifier_TypeSpecifier (Node TypeSpecifier_Int (Span 0 3))) (Span 0 3)]
             [Node (InitDeclarator
                (Node (Declarator (Node (DeclaratorKind_Identifier (Node (Identifier ''x'') (Span 4 5)))
                   (Span 4 5)) [] []) (Span 4 5)) None) (Span 4 5)]) (Span 0 6))) (Span 0 6)]),
       with_core\<lparr>symbols := [[(''x'', Symbol_Identifier)]]\<rparr>)"
  by (simp add: parse_translation_unit_text_def parse_all_def grammar_for_def sample_text
      sample_text_boundary parser_eval with_core_def with_ext_def cong: and_then_weak
      del: grammar_at.simps One_nat_def)

subsection \<open>The entry points return\<close>

text \<open>
  C4: on valid UTF-8 text every entry point of the parser returns, without panic and without running out
  of recursion depth: it gives a value or an error whose offset is a character boundary of the text.  The
  environment it leaves has the same outer scopes, extensions and reserved words as before; only names
  were added to the innermost scope.
\<close>
theorem parser_returns:
  assumes "utf8_valid input" and "symbols e \<noteq> []"
  shows "sound_parse input e (parse_constant_text input e) \<and>
    sound_parse input e (parse_string_literal_text input e) \<and>
    sound_parse input e (parse_expression_text input e) \<and>
    sound_parse input e (parse_declaration_text input e) \<and>
    sound_parse input e (parse_statement_text input e) \<and>
    sound_parse input e (parse_translation_unit_text input e)"
  unfolding entry_points
  by (intro conjI; rule sound_parse_all [OF _ assms]; (rule ok_intros good_grammar_for order_refl)+)

theorem parser_returns_witness:
  "sound_parse ''int x = (1 + ;'' with_gnu (parse_translation_unit_text ''int x = (1 + ;'' with_gnu)"
  using parser_returns [of "''int x = (1 + ;''" with_gnu] by (simp add: with_gnu_def)

subsection \<open>Recovery\<close>

text \<open>
  C3: the resilient parser returns on every valid UTF-8 text shorter than 2 GiB.  Either the strict
  parser reads the whole text, and recovery gives its result without an error, or the ranges of the
  declarations found and of the text skipped, in some order and from the first non-blank position on, cover
  the text without gap or overlap, with only white space and line markers between two ranges: no byte of the
  source is lost, and none is read twice.
\<close>
theorem recovery_lossless:
  assumes "utf8_valid input" and "length input < 2 ^ 31" and "symbols e \<noteq> []"
  shows "\<exists>x e'. translation_unit_resilient input e = Ok (x, e') \<and> env_grows e e' \<and>
    (rec_errors x = [] \<and> parse_translation_unit_text input e = Ok (Inr (rec_unit x), e') \<or>
     (\<exists>q zs items. white_space_to input 0 q \<and> tiles input q zs \<and>
        rec_unit x = TranslationUnit items \<and>
        zs \<in> shuffles (map node_span items) (map rec_skipped (rec_errors x))))"
proof -
  let ?p = "parse_translation_unit (grammar_for input)"
  have "ok False (Suc (length input)) ?p"
    by (rule ok_parse_translation_unit [OF good_grammar_for order_refl])
  from run_fresh [OF this assms(1) at_boundary_0 [OF assms(1)] assms(3)] obtain r st where
    run: "?p input 0 (new_parse_state e) = Ok (r, st)" "env_grows e (env st)" .
  from skip_white_space_boundary [OF assms(1) at_boundary_0 [OF assms(1)] assms(3)] obtain q e' where
    ws: "skip_white_space input 0 e = Ok (q, e')" "at_boundary input q" "env_grows e e'"
    "white_space_to input 0 q" .
  from ws(3) assms(3) have "symbols e' \<noteq> []" by (rule env_grows_nonempty)
  from recovery_loop_tiles [OF assms(1,2) ws(2) this, of "[]" "[]"] obtain x where
    loop: "recovery_loop input q [] [] e' = Ok x" "recovered input q x [] [] e'" by blast
  from loop(2) ws(3,4) have recovered: "env_grows e (snd x) \<and>
      (\<exists>q zs items. white_space_to input 0 q \<and> tiles input q zs \<and>
        rec_unit (fst x) = TranslationUnit items \<and>
        zs \<in> shuffles (map node_span items) (map rec_skipped (rec_errors (fst x))))"
    unfolding recovered_def by (elim exE conjE) (simp; blast intro: env_grows_trans)
  show ?thesis
  proof (cases "\<exists>v. r = Matched (length input) v")
    case True
    with run show ?thesis
      by (auto simp: translation_unit_resilient_def parse_translation_unit_text_def parse_all_def)
  next
    case False
    with run(1) ws(1) loop(1) have "translation_unit_resilient input e = Ok x"
      by (auto simp: translation_unit_resilient_def split: rule_result.split)
    with recovered show ?thesis by (cases x) auto
  qed
qed

theorem recovery_lossless_witness:
  "\<exists>x e'. translation_unit_resilient ''int x; }{ y'' with_core = Ok (x, e') \<and> env_grows with_core e'"
  using recovery_lossless [of "''int x; }{ y''" with_core] by (auto simp: with_core_def)

text \<open>
  C33: if the strict parser accepts a text, the resilient parser gives the same translation unit and
  environment, and reports no error.
\<close>
theorem recovery_agrees:
  assumes "parse_translation_unit_text input e = Ok (Inr u, e')"
  shows "translation_unit_resilient input e = Ok (\<lparr>rec_unit = u, rec_errors = []\<rparr>, e')"
proof (cases "parse_translation_unit (grammar_for input) input 0 (new_parse_state e)")
  case (Ok x)
  with assms show ?thesis
    by (cases x; cases "fst x")
      (auto simp: parse_translation_unit_text_def parse_all_def translation_unit_resilient_def
        and_then_Ok_iff split: if_splits)
qed (use assms in \<open>simp_all add: parse_translation_unit_text_def parse_all_def\<close>)

theorem recovery_agrees_witness:
  "\<exists>u e'. translation_unit_resilient ''int x;'' with_core = Ok (\<lparr>rec_unit = u, rec_errors = []\<rparr>, e') \<and>
     symbols e' = [[(''x'', Symbol_Identifier)]]"
  using recovery_agrees [OF sample_text_parsed] by (simp add: sample_text_def)

end
