(* ===== verification/Target.thy ===== *)
theory Target
  imports Contract Directive "HOL-Library.Word"
begin

text \<open>
  Targets (\<open>src/contract/target.rs\<close>): the facts that are declared about a compiler, its target triple and
  its C data model, their validation, and the canonical bytes behind the target fingerprint.  A \<open>u16\<close> is
  a \<open>16 word\<close>.  Where the code stores the message of a value error, the error itself is stored.
  Unicode NFC (\<open>unicode-normalization\<close>) is the parameter \<open>nfc\<close>, BLAKE3 the parameter \<open>H\<close>.
\<close>

type_synonym u16 = "16 word"

subsection \<open>Declared facts\<close>

datatype architecture =
    Arch_X86 | Arch_X86_64 | Arch_Arm | Arch_Aarch64 | Arch_RiscV32 | Arch_RiscV64 | Arch_PowerPc
  | Arch_PowerPc64 | Arch_S390x | Arch_Mips | Arch_Mips64 | Arch_Sparc64 | Arch_Wasm32 | Arch_Wasm64

datatype operating_system =
    Os_Linux | Os_Android | Os_Darwin | Os_MacOs | Os_Ios | Os_TvOs | Os_WatchOs | Os_Windows
  | Os_FreeBsd | Os_NetBsd | Os_OpenBsd | Os_DragonFly | Os_None

datatype environment =
    Env_None | Env_Gnu | Env_GnuAbi64 | Env_Musl | Env_Msvc | Env_Android | Env_Eabi | Env_Eabihf
  | Env_Simulator

datatype object_format = Obj_Elf | Obj_MachO | Obj_Coff | Obj_Wasm | Obj_Xcoff
datatype endian = Little | Big
datatype language_standard = C89 | C95 | C99 | C11 | C17 | C23
datatype extension_family = Ext_Strict | Ext_Gnu | Ext_Clang | Ext_Msvc
datatype compiler_family = Compiler_Gcc | Compiler_Clang | Compiler_AppleClang | Compiler_Msvc
datatype char_sign = CharSigned | CharUnsigned
datatype signed_representation = TwosComplement | OnesComplement | SignMagnitude
datatype data_model_class = ILP32 | LP64 | LLP64 | ILP64 | ExplicitModel string

datatype floating_format =
    IeeeBinary32 | IeeeBinary64 | IeeeBinary128 | X87Extended80 | IbmDoubleDouble128
  | Decimal32 | Decimal64 | Decimal128
  | ExplicitFormat string u16 u16

record scalar_layout =
  storage_bits :: u16
  alignment_bits :: u16

record integer_layout =
  il_scalar :: scalar_layout
  il_signedness :: signedness
  il_representation :: signed_representation

record floating_layout =
  fl_scalar :: scalar_layout
  fl_format :: floating_format

record c_data_model =
  dm_class :: data_model_class
  char_bit :: u16
  char_signedness :: char_sign
  signed_integer_representation :: signed_representation
  bool_layout :: scalar_layout
  char_layout :: scalar_layout
  short_layout :: scalar_layout
  int_layout :: scalar_layout
  long_layout :: scalar_layout
  long_long_layout :: scalar_layout
  int128_layout :: "scalar_layout option"
  pointer_layout :: scalar_layout
  float_layout :: floating_layout
  double_layout :: floating_layout
  long_double_layout :: floating_layout
  wchar_layout :: integer_layout
  size_t_layout :: integer_layout
  ptrdiff_t_layout :: integer_layout

record extension_profile =
  ext_family :: extension_family
  ext_enabled :: "string list"

record compiler_identity =
  cc_family :: compiler_family
  cc_executable :: string
  cc_executable_content :: content_fingerprint
  cc_version_text :: content_fingerprint
  cc_reported_target :: string
  cc_version :: string

record sysroot_identity =
  sysroot_path :: string
  sysroot_content :: content_fingerprint

record target_spec_parts =
  tp_triple :: string
  tp_architecture :: architecture
  tp_vendor :: string
  tp_operating_system :: operating_system
  tp_environment :: environment
  tp_object_format :: object_format
  tp_endian :: endian
  tp_pointer_width :: u16
  tp_c_data_model :: c_data_model
  tp_language_standard :: language_standard
  tp_extension_profile :: extension_profile
  tp_compiler :: compiler_identity
  tp_sysroot :: "sysroot_identity option"
  tp_abi_flags :: "string list"

record target_spec = target_spec_parts +
  ts_fingerprint :: target_fingerprint

subsection \<open>Errors\<close>

datatype target_value_error =
    EmptyValue string
  | NotNfc string
  | SurroundingWhitespace string
  | ControlCharacter string nat
  | InvalidCharacter string nat nat
  | AbsolutePath string
  | ForbiddenPathComponent string string

datatype detail = Text string | ValueError target_value_error

datatype target_violation =
    InvalidTriple detail
  | TripleArchitectureMismatch string architecture
  | TripleVendorMismatch string string
  | TripleOperatingSystemMismatch string operating_system
  | TripleEnvironmentMismatch string environment
  | TripleEndianMismatch string endian endian
  | TriplePointerWidthMismatch string u16 u16
  | PointerWidthMismatch u16 u16
  | InvalidLayout string string
  | DataModelClassMismatch data_model_class string u16 u16
  | InvalidDataModelFact string detail
  | FloatingFormatMismatch string floating_format detail
  | UnsupportedTargetCombination string
  | InvalidExtensionProfile detail
  | InvalidCompilerIdentity string detail
  | CompilerReportedTargetMismatch string string
  | InvalidSysrootIdentity detail
  | InvalidAbiFlag nat detail
  | TargetFingerprintMismatch string string

subsection \<open>Values\<close>

fun split_on :: "char \<Rightarrow> string \<Rightarrow> string list" where
  "split_on d [] = [[]]"
| "split_on d (c # s) =
     (if c = d then [] # split_on d s
      else case split_on d s of w # ws \<Rightarrow> (c # w) # ws | [] \<Rightarrow> [[c]])"

text \<open>A check returns the error, if there is one; \<open>?\<close> is the first error of a list of checks.\<close>

abbreviation checks :: "'e option list \<Rightarrow> 'e option" where
  "checks es \<equiv> (case filter (\<lambda>e. e \<noteq> None) es of [] \<Rightarrow> None | e # _ \<Rightarrow> e)"

definition validate_nfc_nonempty :: "(string \<Rightarrow> string) \<Rightarrow> string \<Rightarrow> string \<Rightarrow> target_value_error option" where
  "validate_nfc_nonempty nfc fld value =
     (if value = [] then Some (EmptyValue fld)
      else if nfc value \<noteq> value then Some (NotNfc fld) else None)"

text \<open>
  The loops over \<open>char_indices\<close>: the characters that are allowed are ASCII, so the first one that is not
  allowed begins at the first byte that is not.
\<close>

definition validate_characters :: "(char \<Rightarrow> bool) \<Rightarrow> string \<Rightarrow> string \<Rightarrow> target_value_error option" where
  "validate_characters P fld value =
     (case position (\<lambda>c. \<not> P c) value of
        None \<Rightarrow> None
      | Some i \<Rightarrow> Some (InvalidCharacter fld (the (first_char (drop i value))) i))"

definition component_char :: "char \<Rightarrow> bool" where
  "component_char c \<longleftrightarrow> is_lower c \<or> is_ascii_digit c \<or> c = CHR ''_''"

definition identifier_char :: "char \<Rightarrow> bool" where
  "identifier_char c \<longleftrightarrow> is_lower c \<or> is_ascii_digit c \<or> c \<in> set ''_-.+''"

definition target_char :: "char \<Rightarrow> bool" where
  "target_char c \<longleftrightarrow> is_lower c \<or> is_ascii_digit c \<or> c \<in> set ''_-''"

definition validate_component :: "(string \<Rightarrow> string) \<Rightarrow> string \<Rightarrow> string \<Rightarrow> target_value_error option" where
  "validate_component nfc fld value =
     checks [validate_nfc_nonempty nfc fld value, validate_characters component_char fld value]"

definition validate_normalized_identifier :: "(string \<Rightarrow> string) \<Rightarrow> string \<Rightarrow> string \<Rightarrow> target_value_error option" where
  "validate_normalized_identifier nfc fld value =
     checks [validate_nfc_nonempty nfc fld value, validate_characters identifier_char fld value]"

definition validate_target_text :: "(string \<Rightarrow> string) \<Rightarrow> string \<Rightarrow> string \<Rightarrow> target_value_error option" where
  "validate_target_text nfc fld value =
     checks [validate_nfc_nonempty nfc fld value, validate_characters target_char fld value,
       if [] \<in> set (split_on (CHR ''-'') value) then Some (ForbiddenPathComponent fld []) else None]"

text \<open>\<open>char::is_control\<close>: U+0000 to U+001F and U+007F to U+009F, the latter in two bytes.\<close>

fun control_at :: "nat \<Rightarrow> string \<Rightarrow> nat option" where
  "control_at i [] = None"
| "control_at i (c # s) =
     (if byte c < 32 \<or> byte c = 127 \<or>
         (byte c = 194 \<and> s \<noteq> [] \<and> 128 \<le> byte (hd s) \<and> byte (hd s) < 160)
      then Some i else control_at (Suc i) s)"

definition validate_no_controls :: "string \<Rightarrow> string \<Rightarrow> target_value_error option" where
  "validate_no_controls fld value = map_option (ControlCharacter fld) (control_at 0 value)"

definition validate_human_text :: "(string \<Rightarrow> string) \<Rightarrow> string \<Rightarrow> string \<Rightarrow> target_value_error option" where
  "validate_human_text nfc fld value =
     checks [validate_nfc_nonempty nfc fld value,
       if trim value \<noteq> value then Some (SurroundingWhitespace fld) else None,
       validate_no_controls fld value]"

definition validate_compiler_arg :: "(string \<Rightarrow> string) \<Rightarrow> string \<Rightarrow> target_value_error option" where
  "validate_compiler_arg nfc value =
     (let fld = ''normalized compiler argument'' in
      checks [validate_nfc_nonempty nfc fld value,
        if trim value \<noteq> value then Some (SurroundingWhitespace fld) else None,
        validate_no_controls fld value])"

definition ascii_alphabetic :: "char \<Rightarrow> bool" where
  "ascii_alphabetic c \<longleftrightarrow> is_lower c \<or> is_upper c"

definition validate_logical_path :: "(string \<Rightarrow> string) \<Rightarrow> string \<Rightarrow> string \<Rightarrow> target_value_error option" where
  "validate_logical_path nfc fld value =
     checks [validate_nfc_nonempty nfc fld value, validate_no_controls fld value,
       if starts_with value ''/'' \<or> starts_with value [CHR 0x5C] then Some (AbsolutePath fld) else None,
       map_option (InvalidCharacter fld 92) (position (\<lambda>c. c = CHR 0x5C) value),
       map_option (ForbiddenPathComponent fld)
         (find (\<lambda>c. c = [] \<or> c = ''.'' \<or> c = ''..'') (split_on (CHR ''/'') value)),
       if 1 < length value \<and> value ! 1 = CHR '':'' \<and> ascii_alphabetic (value ! 0)
       then Some (AbsolutePath fld) else None]"

text \<open>The constructors of checked values.\<close>

definition vendor_new :: "(string \<Rightarrow> string) \<Rightarrow> string \<Rightarrow> target_value_error + string" where
  "vendor_new nfc value =
     (case validate_component nfc ''vendor'' value of Some e \<Rightarrow> Inl e | None \<Rightarrow> Inr value)"

definition extension_id_new :: "(string \<Rightarrow> string) \<Rightarrow> string \<Rightarrow> target_value_error + string" where
  "extension_id_new nfc value =
     (case validate_normalized_identifier nfc ''extension id'' value of Some e \<Rightarrow> Inl e | None \<Rightarrow> Inr value)"

definition extension_profile_new :: "extension_family \<Rightarrow> string list \<Rightarrow> extension_profile" where
  "extension_profile_new family enabled = \<lparr>ext_family = family, ext_enabled = sort (remdups enabled)\<rparr>"

definition compiler_identity_new ::
  "(string \<Rightarrow> string) \<Rightarrow> compiler_family \<Rightarrow> string \<Rightarrow> content_fingerprint \<Rightarrow> content_fingerprint \<Rightarrow>
    string \<Rightarrow> string \<Rightarrow> target_value_error + compiler_identity" where
  "compiler_identity_new nfc family executable content version_text reported version =
     (case checks [validate_logical_path nfc ''compiler logical executable'' executable,
             validate_target_text nfc ''compiler reported target'' reported,
             validate_human_text nfc ''compiler version'' version] of
        Some e \<Rightarrow> Inl e
      | None \<Rightarrow> Inr \<lparr>cc_family = family, cc_executable = executable, cc_executable_content = content,
          cc_version_text = version_text, cc_reported_target = reported, cc_version = version\<rparr>)"

definition sysroot_identity_new ::
  "(string \<Rightarrow> string) \<Rightarrow> string \<Rightarrow> content_fingerprint \<Rightarrow> target_value_error + sysroot_identity" where
  "sysroot_identity_new nfc path content =
     (case validate_logical_path nfc ''sysroot logical path'' path of
        Some e \<Rightarrow> Inl e
      | None \<Rightarrow> Inr \<lparr>sysroot_path = path, sysroot_content = content\<rparr>)"

definition compiler_arg_new :: "(string \<Rightarrow> string) \<Rightarrow> string \<Rightarrow> target_value_error + string" where
  "compiler_arg_new nfc value =
     (case validate_compiler_arg nfc value of Some e \<Rightarrow> Inl e | None \<Rightarrow> Inr value)"

subsection \<open>Names\<close>

text \<open>The names in the canonical bytes, and the names that \<open>Debug\<close> prints in messages.\<close>

fun architecture_name :: "architecture \<Rightarrow> string" where
  "architecture_name Arch_X86 = ''x86''"
| "architecture_name Arch_X86_64 = ''x86_64''"
| "architecture_name Arch_Arm = ''arm''"
| "architecture_name Arch_Aarch64 = ''aarch64''"
| "architecture_name Arch_RiscV32 = ''riscv32''"
| "architecture_name Arch_RiscV64 = ''riscv64''"
| "architecture_name Arch_PowerPc = ''power_pc''"
| "architecture_name Arch_PowerPc64 = ''power_pc64''"
| "architecture_name Arch_S390x = ''s390x''"
| "architecture_name Arch_Mips = ''mips''"
| "architecture_name Arch_Mips64 = ''mips64''"
| "architecture_name Arch_Sparc64 = ''sparc64''"
| "architecture_name Arch_Wasm32 = ''wasm32''"
| "architecture_name Arch_Wasm64 = ''wasm64''"

fun operating_system_name :: "operating_system \<Rightarrow> string" where
  "operating_system_name Os_Linux = ''linux''"
| "operating_system_name Os_Android = ''android''"
| "operating_system_name Os_Darwin = ''darwin''"
| "operating_system_name Os_MacOs = ''mac_os''"
| "operating_system_name Os_Ios = ''ios''"
| "operating_system_name Os_TvOs = ''tv_os''"
| "operating_system_name Os_WatchOs = ''watch_os''"
| "operating_system_name Os_Windows = ''windows''"
| "operating_system_name Os_FreeBsd = ''free_bsd''"
| "operating_system_name Os_NetBsd = ''net_bsd''"
| "operating_system_name Os_OpenBsd = ''open_bsd''"
| "operating_system_name Os_DragonFly = ''dragon_fly''"
| "operating_system_name Os_None = ''none''"

fun environment_name :: "environment \<Rightarrow> string" where
  "environment_name Env_None = ''none''"
| "environment_name Env_Gnu = ''gnu''"
| "environment_name Env_GnuAbi64 = ''gnu_abi64''"
| "environment_name Env_Musl = ''musl''"
| "environment_name Env_Msvc = ''msvc''"
| "environment_name Env_Android = ''android''"
| "environment_name Env_Eabi = ''eabi''"
| "environment_name Env_Eabihf = ''eabihf''"
| "environment_name Env_Simulator = ''simulator''"

fun object_format_name :: "object_format \<Rightarrow> string" where
  "object_format_name Obj_Elf = ''elf''"
| "object_format_name Obj_MachO = ''mach_o''"
| "object_format_name Obj_Coff = ''coff''"
| "object_format_name Obj_Wasm = ''wasm''"
| "object_format_name Obj_Xcoff = ''xcoff''"

fun endian_name :: "endian \<Rightarrow> string" where
  "endian_name Little = ''little''"
| "endian_name Big = ''big''"

fun language_standard_name :: "language_standard \<Rightarrow> string" where
  "language_standard_name C89 = ''c89''"
| "language_standard_name C95 = ''c95''"
| "language_standard_name C99 = ''c99''"
| "language_standard_name C11 = ''c11''"
| "language_standard_name C17 = ''c17''"
| "language_standard_name C23 = ''c23''"

fun extension_family_name :: "extension_family \<Rightarrow> string" where
  "extension_family_name Ext_Strict = ''strict''"
| "extension_family_name Ext_Gnu = ''gnu''"
| "extension_family_name Ext_Clang = ''clang''"
| "extension_family_name Ext_Msvc = ''msvc''"

fun compiler_family_name :: "compiler_family \<Rightarrow> string" where
  "compiler_family_name Compiler_Gcc = ''gcc''"
| "compiler_family_name Compiler_Clang = ''clang''"
| "compiler_family_name Compiler_AppleClang = ''apple_clang''"
| "compiler_family_name Compiler_Msvc = ''msvc''"

fun char_signedness_name :: "char_sign \<Rightarrow> string" where
  "char_signedness_name CharSigned = ''signed''"
| "char_signedness_name CharUnsigned = ''unsigned''"

fun signedness_name :: "signedness \<Rightarrow> string" where
  "signedness_name Signed = ''signed''"
| "signedness_name Unsigned = ''unsigned''"

fun signed_representation_name :: "signed_representation \<Rightarrow> string" where
  "signed_representation_name TwosComplement = ''twos_complement''"
| "signed_representation_name OnesComplement = ''ones_complement''"
| "signed_representation_name SignMagnitude = ''sign_magnitude''"

fun architecture_debug :: "architecture \<Rightarrow> string" where
  "architecture_debug Arch_X86 = ''X86''"
| "architecture_debug Arch_X86_64 = ''X86_64''"
| "architecture_debug Arch_Arm = ''Arm''"
| "architecture_debug Arch_Aarch64 = ''Aarch64''"
| "architecture_debug Arch_RiscV32 = ''RiscV32''"
| "architecture_debug Arch_RiscV64 = ''RiscV64''"
| "architecture_debug Arch_PowerPc = ''PowerPc''"
| "architecture_debug Arch_PowerPc64 = ''PowerPc64''"
| "architecture_debug Arch_S390x = ''S390x''"
| "architecture_debug Arch_Mips = ''Mips''"
| "architecture_debug Arch_Mips64 = ''Mips64''"
| "architecture_debug Arch_Sparc64 = ''Sparc64''"
| "architecture_debug Arch_Wasm32 = ''Wasm32''"
| "architecture_debug Arch_Wasm64 = ''Wasm64''"

fun operating_system_debug :: "operating_system \<Rightarrow> string" where
  "operating_system_debug Os_Linux = ''Linux''"
| "operating_system_debug Os_Android = ''Android''"
| "operating_system_debug Os_Darwin = ''Darwin''"
| "operating_system_debug Os_MacOs = ''MacOs''"
| "operating_system_debug Os_Ios = ''Ios''"
| "operating_system_debug Os_TvOs = ''TvOs''"
| "operating_system_debug Os_WatchOs = ''WatchOs''"
| "operating_system_debug Os_Windows = ''Windows''"
| "operating_system_debug Os_FreeBsd = ''FreeBsd''"
| "operating_system_debug Os_NetBsd = ''NetBsd''"
| "operating_system_debug Os_OpenBsd = ''OpenBsd''"
| "operating_system_debug Os_DragonFly = ''DragonFly''"
| "operating_system_debug Os_None = ''None''"

fun environment_debug :: "environment \<Rightarrow> string" where
  "environment_debug Env_None = ''None''"
| "environment_debug Env_Gnu = ''Gnu''"
| "environment_debug Env_GnuAbi64 = ''GnuAbi64''"
| "environment_debug Env_Musl = ''Musl''"
| "environment_debug Env_Msvc = ''Msvc''"
| "environment_debug Env_Android = ''Android''"
| "environment_debug Env_Eabi = ''Eabi''"
| "environment_debug Env_Eabihf = ''Eabihf''"
| "environment_debug Env_Simulator = ''Simulator''"

fun object_format_debug :: "object_format \<Rightarrow> string" where
  "object_format_debug Obj_Elf = ''Elf''"
| "object_format_debug Obj_MachO = ''MachO''"
| "object_format_debug Obj_Coff = ''Coff''"
| "object_format_debug Obj_Wasm = ''Wasm''"
| "object_format_debug Obj_Xcoff = ''Xcoff''"

fun compiler_family_debug :: "compiler_family \<Rightarrow> string" where
  "compiler_family_debug Compiler_Gcc = ''Gcc''"
| "compiler_family_debug Compiler_Clang = ''Clang''"
| "compiler_family_debug Compiler_AppleClang = ''AppleClang''"
| "compiler_family_debug Compiler_Msvc = ''Msvc''"

text \<open>\<open>Debug\<close> of a \<open>u16\<close>, and of a string of characters that need no escape.\<close>

definition show_u16 :: "u16 \<Rightarrow> string" where
  "show_u16 w = print_digits 10 (unat w)"

definition quoted :: "string \<Rightarrow> string" where
  "quoted s = [CHR 0x22] @ s @ [CHR 0x22]"

subsection \<open>Target triples\<close>

record parsed_target_triple =
  pt_architecture_component :: string
  pt_architecture :: architecture
  pt_vendor :: string
  pt_operating_system_component :: string
  pt_operating_system :: operating_system
  pt_environment_component :: "string option"
  pt_environment :: environment
  pt_endian :: endian
  pt_pointer_width :: u16

definition architecture_table :: "(string \<times> architecture \<times> endian \<times> u16) list" where
  "architecture_table =
     [(''x86'', Arch_X86, Little, 32),
      (''i386'', Arch_X86, Little, 32),
      (''i486'', Arch_X86, Little, 32),
      (''i586'', Arch_X86, Little, 32),
      (''i686'', Arch_X86, Little, 32),
      (''x86_64'', Arch_X86_64, Little, 64),
      (''arm'', Arch_Arm, Little, 32),
      (''thumb'', Arch_Arm, Little, 32),
      (''armeb'', Arch_Arm, Big, 32),
      (''thumbeb'', Arch_Arm, Big, 32),
      (''aarch64'', Arch_Aarch64, Little, 64),
      (''aarch64_be'', Arch_Aarch64, Big, 64),
      (''powerpc'', Arch_PowerPc, Big, 32),
      (''ppc'', Arch_PowerPc, Big, 32),
      (''powerpcle'', Arch_PowerPc, Little, 32),
      (''ppcle'', Arch_PowerPc, Little, 32),
      (''powerpc64'', Arch_PowerPc64, Big, 64),
      (''ppc64'', Arch_PowerPc64, Big, 64),
      (''powerpc64le'', Arch_PowerPc64, Little, 64),
      (''ppc64le'', Arch_PowerPc64, Little, 64),
      (''s390x'', Arch_S390x, Big, 64),
      (''mips'', Arch_Mips, Big, 32),
      (''mipsel'', Arch_Mips, Little, 32),
      (''mips64'', Arch_Mips64, Big, 64),
      (''mips64el'', Arch_Mips64, Little, 64),
      (''sparc64'', Arch_Sparc64, Big, 64),
      (''wasm32'', Arch_Wasm32, Little, 32),
      (''wasm64'', Arch_Wasm64, Little, 64)]"

definition parse_architecture :: "string \<Rightarrow> (architecture \<times> endian \<times> u16) option" where
  "parse_architecture component =
     (case map_of architecture_table component of
        Some parsed \<Rightarrow> Some parsed
      | None \<Rightarrow>
          if starts_with component ''armv'' \<or> starts_with component ''thumbv'' then Some (Arch_Arm, Little, 32)
          else if starts_with component ''riscv32'' then Some (Arch_RiscV32, Little, 32)
          else if starts_with component ''riscv64'' then Some (Arch_RiscV64, Little, 64)
          else None)"

definition parse_operating_system :: "string \<Rightarrow> operating_system option" where
  "parse_operating_system component = map_of
     [(''linux'', Os_Linux),
      (''android'', Os_Android),
      (''darwin'', Os_Darwin),
      (''macos'', Os_MacOs),
      (''ios'', Os_Ios),
      (''tvos'', Os_TvOs),
      (''watchos'', Os_WatchOs),
      (''windows'', Os_Windows),
      (''freebsd'', Os_FreeBsd),
      (''netbsd'', Os_NetBsd),
      (''openbsd'', Os_OpenBsd),
      (''dragonfly'', Os_DragonFly),
      (''none'', Os_None)] component"

definition parse_environment :: "string \<Rightarrow> environment option" where
  "parse_environment component = map_of
     [(''gnu'', Env_Gnu),
      (''gnuabi64'', Env_GnuAbi64),
      (''musl'', Env_Musl),
      (''msvc'', Env_Msvc),
      (''android'', Env_Android),
      (''eabi'', Env_Eabi),
      (''eabihf'', Env_Eabihf),
      (''sim'', Env_Simulator),
      (''simulator'', Env_Simulator)] component"

definition parse_target_triple :: "(string \<Rightarrow> string) \<Rightarrow> string \<Rightarrow> detail + parsed_target_triple" where
  "parse_target_triple nfc triple =
     (case validate_target_text nfc ''target triple'' triple of
        Some e \<Rightarrow> Inl (ValueError e)
      | None \<Rightarrow>
          let components = split_on (CHR ''-'') triple in
          if length components \<noteq> 3 \<and> length components \<noteq> 4 then
            Inl (Text (''expected architecture-vendor-os[-environment], found '' @
              print_digits 10 (length components) @ '' components''))
          else
            (case parse_architecture (components ! 0) of
               None \<Rightarrow> Inl (Text (''unsupported architecture component '' @ quoted (components ! 0)))
             | Some (architecture, endian, pointer_width) \<Rightarrow>
                 (case validate_component nfc ''target vendor'' (components ! 1) of
                    Some e \<Rightarrow> Inl (ValueError e)
                  | None \<Rightarrow>
                      (case parse_operating_system (components ! 2) of
                         None \<Rightarrow> Inl (Text (''unsupported operating-system component '' @ quoted (components ! 2)))
                       | Some operating_system \<Rightarrow>
                           (let parsed = (\<lambda>component environment.
                              \<lparr>pt_architecture_component = components ! 0, pt_architecture = architecture,
                               pt_vendor = components ! 1, pt_operating_system_component = components ! 2,
                               pt_operating_system = operating_system, pt_environment_component = component,
                               pt_environment = environment, pt_endian = endian,
                               pt_pointer_width = pointer_width\<rparr>)
                            in if length components = 4 then
                                 (case parse_environment (components ! 3) of
                                    None \<Rightarrow> Inl (Text (''unsupported environment component '' @
                                      quoted (components ! 3)))
                                  | Some e \<Rightarrow> Inr (parsed (Some (components ! 3)) e))
                               else Inr (parsed None Env_None))))))"

subsection \<open>Supported combinations\<close>

definition is_apple_os :: "operating_system \<Rightarrow> bool" where
  "is_apple_os os \<longleftrightarrow> os \<in> {Os_Darwin, Os_MacOs, Os_Ios, Os_TvOs, Os_WatchOs}"

fun environment_is_supported :: "operating_system \<Rightarrow> environment \<Rightarrow> bool" where
  "environment_is_supported Os_Linux e \<longleftrightarrow> e \<in> {Env_None, Env_Gnu, Env_GnuAbi64, Env_Musl, Env_Android}"
| "environment_is_supported Os_Android e \<longleftrightarrow> e \<in> {Env_None, Env_Android}"
| "environment_is_supported Os_Darwin e \<longleftrightarrow> e = Env_None"
| "environment_is_supported Os_MacOs e \<longleftrightarrow> e = Env_None"
| "environment_is_supported Os_Ios e \<longleftrightarrow> e \<in> {Env_None, Env_Simulator}"
| "environment_is_supported Os_TvOs e \<longleftrightarrow> e \<in> {Env_None, Env_Simulator}"
| "environment_is_supported Os_WatchOs e \<longleftrightarrow> e \<in> {Env_None, Env_Simulator}"
| "environment_is_supported Os_Windows e \<longleftrightarrow> e \<in> {Env_None, Env_Gnu, Env_Msvc}"
| "environment_is_supported Os_None e \<longleftrightarrow> e \<in> {Env_None, Env_Eabi, Env_Eabihf}"
| "environment_is_supported _ e \<longleftrightarrow> e = Env_None"

fun architecture_os_is_supported :: "architecture \<Rightarrow> operating_system \<Rightarrow> bool" where
  "architecture_os_is_supported a Os_Linux \<longleftrightarrow> a \<notin> {Arch_Wasm32, Arch_Wasm64}"
| "architecture_os_is_supported a Os_Android \<longleftrightarrow>
     a \<in> {Arch_X86, Arch_X86_64, Arch_Arm, Arch_Aarch64, Arch_RiscV64}"
| "architecture_os_is_supported a Os_Darwin \<longleftrightarrow> a \<in> {Arch_X86, Arch_X86_64, Arch_Aarch64}"
| "architecture_os_is_supported a Os_MacOs \<longleftrightarrow> a \<in> {Arch_X86, Arch_X86_64, Arch_Aarch64}"
| "architecture_os_is_supported a Os_Ios \<longleftrightarrow> a \<in> {Arch_X86, Arch_X86_64, Arch_Arm, Arch_Aarch64}"
| "architecture_os_is_supported a Os_TvOs \<longleftrightarrow> a \<in> {Arch_X86, Arch_X86_64, Arch_Arm, Arch_Aarch64}"
| "architecture_os_is_supported a Os_WatchOs \<longleftrightarrow> a \<in> {Arch_X86, Arch_X86_64, Arch_Arm, Arch_Aarch64}"
| "architecture_os_is_supported a Os_Windows \<longleftrightarrow> a \<in> {Arch_X86, Arch_X86_64, Arch_Arm, Arch_Aarch64}"
| "architecture_os_is_supported a Os_None \<longleftrightarrow> True"
| "architecture_os_is_supported a _ \<longleftrightarrow> a \<notin> {Arch_Wasm32, Arch_Wasm64, Arch_S390x}"

definition is_wasm :: "architecture \<Rightarrow> bool" where
  "is_wasm a \<longleftrightarrow> a \<in> {Arch_Wasm32, Arch_Wasm64}"

fun object_format_matches :: "object_format \<Rightarrow> architecture \<Rightarrow> string \<Rightarrow> operating_system \<Rightarrow> bool" where
  "object_format_matches Obj_Wasm a vendor os \<longleftrightarrow> is_wasm a"
| "object_format_matches Obj_MachO a vendor os \<longleftrightarrow> is_apple_os os"
| "object_format_matches Obj_Coff a vendor os \<longleftrightarrow> os = Os_Windows"
| "object_format_matches Obj_Xcoff a vendor os \<longleftrightarrow>
     a \<in> {Arch_PowerPc, Arch_PowerPc64} \<and> vendor = ''ibm'' \<and> os = Os_None"
| "object_format_matches Obj_Elf a vendor os \<longleftrightarrow> \<not> is_wasm a \<and> \<not> is_apple_os os \<and> os \<noteq> Os_Windows"

fun compiler_combination_is_supported :: "compiler_family \<Rightarrow> operating_system \<Rightarrow> environment \<Rightarrow> bool" where
  "compiler_combination_is_supported Compiler_Msvc os e \<longleftrightarrow> os = Os_Windows \<and> e = Env_Msvc"
| "compiler_combination_is_supported Compiler_AppleClang os e \<longleftrightarrow> is_apple_os os"
| "compiler_combination_is_supported Compiler_Gcc os e \<longleftrightarrow> e \<noteq> Env_Msvc"
| "compiler_combination_is_supported Compiler_Clang os e \<longleftrightarrow> True"

text \<open>\<open>violations.push(..)\<close> under a condition.\<close>

abbreviation push_if :: "bool \<Rightarrow> 'a \<Rightarrow> 'a list" where
  "push_if b v \<equiv> (if b then [v] else [])"

definition validate_target_combination ::
  "'z target_spec_parts_scheme \<Rightarrow> parsed_target_triple \<Rightarrow> target_violation list" where
  "validate_target_combination p parsed =
     (let a = tp_architecture p; os = tp_operating_system p; e = tp_environment p;
          family = cc_family (tp_compiler p) in
      push_if (\<not> environment_is_supported os e)
        (UnsupportedTargetCombination (''environment '' @ environment_debug e @ '' is not valid for '' @
          operating_system_debug os)) @
      push_if (\<not> architecture_os_is_supported a os)
        (UnsupportedTargetCombination (''architecture '' @ architecture_debug a @ '' is not supported for '' @
          operating_system_debug os)) @
      push_if (\<not> object_format_matches (tp_object_format p) a (tp_vendor p) os)
        (UnsupportedTargetCombination (''object format '' @ object_format_debug (tp_object_format p) @
          '' is incompatible with '' @ architecture_debug a @ ''/'' @ operating_system_debug os)) @
      push_if (is_apple_os os \<and> tp_vendor p \<noteq> ''apple'')
        (UnsupportedTargetCombination (''Apple operating system '' @ operating_system_debug os @
          '' requires vendor apple, found '' @ tp_vendor p)) @
      push_if (is_wasm a \<and> tp_object_format p \<noteq> Obj_Wasm)
        (UnsupportedTargetCombination ''WebAssembly architectures require the wasm object format'') @
      push_if (\<not> is_wasm a \<and> tp_object_format p = Obj_Wasm)
        (UnsupportedTargetCombination ''the wasm object format requires a WebAssembly architecture'') @
      push_if (pt_architecture parsed = Arch_S390x \<and> pt_endian parsed \<noteq> Big)
        (UnsupportedTargetCombination ''s390x is only supported as big-endian'') @
      push_if (\<not> compiler_combination_is_supported family os e)
        (UnsupportedTargetCombination (''compiler family '' @ compiler_family_debug family @
          '' is incompatible with '' @ operating_system_debug os @ ''/'' @ environment_debug e)) @
      push_if (e = Env_Msvc \<and> family \<notin> {Compiler_Msvc, Compiler_Clang})
        (UnsupportedTargetCombination (''MSVC environment requires an MSVC-compatible compiler, found '' @
          compiler_family_debug family)))"

subsection \<open>C data models\<close>

function is_power_of_two :: "nat \<Rightarrow> bool" where
  "is_power_of_two n \<longleftrightarrow> (if 1 < n \<and> even n then is_power_of_two (n div 2) else n = 1)"
  by pat_completeness auto
termination is_power_of_two by (relation "measure id") auto

declare is_power_of_two.simps [simp del]

definition validate_scalar_layout :: "string \<Rightarrow> scalar_layout \<Rightarrow> u16 \<Rightarrow> target_violation list" where
  "validate_scalar_layout fld l cb =
     (let storage = storage_bits l; alignment = alignment_bits l in
      push_if (storage = 0) (InvalidLayout fld ''storage width must be nonzero'') @
      (if alignment = 0 then [InvalidLayout fld ''alignment must be nonzero'']
       else push_if (\<not> is_power_of_two (unat alignment))
         (InvalidLayout fld (''alignment '' @ show_u16 alignment @ '' is not a power of two''))) @
      push_if (cb \<noteq> 0 \<and> \<not> unat cb dvd unat storage)
        (InvalidLayout fld (''storage width '' @ show_u16 storage @ '' is not a whole number of '' @
          show_u16 cb @ ''-bit C bytes'')) @
      push_if (cb \<noteq> 0 \<and> \<not> unat cb dvd unat alignment)
        (InvalidLayout fld (''alignment '' @ show_u16 alignment @ '' is not a whole number of '' @
          show_u16 cb @ ''-bit C bytes'')))"

fun valid_storage :: "floating_format \<Rightarrow> u16 \<Rightarrow> bool" where
  "valid_storage IeeeBinary32 storage \<longleftrightarrow> storage = 32"
| "valid_storage Decimal32 storage \<longleftrightarrow> storage = 32"
| "valid_storage IeeeBinary64 storage \<longleftrightarrow> storage = 64"
| "valid_storage Decimal64 storage \<longleftrightarrow> storage = 64"
| "valid_storage IeeeBinary128 storage \<longleftrightarrow> storage = 128"
| "valid_storage IbmDoubleDouble128 storage \<longleftrightarrow> storage = 128"
| "valid_storage Decimal128 storage \<longleftrightarrow> storage = 128"
| "valid_storage X87Extended80 storage \<longleftrightarrow> storage = 80 \<or> storage = 96 \<or> storage = 128"
| "valid_storage (ExplicitFormat _ _ _) storage \<longleftrightarrow> True"

definition option_list :: "'a option \<Rightarrow> 'a list" where
  "option_list x = (case x of None \<Rightarrow> [] | Some v \<Rightarrow> [v])"

definition validate_floating_layout ::
  "(string \<Rightarrow> string) \<Rightarrow> string \<Rightarrow> floating_layout \<Rightarrow> u16 \<Rightarrow> target_violation list" where
  "validate_floating_layout nfc fld l cb =
     (let storage = storage_bits (fl_scalar l); mismatch = FloatingFormatMismatch fld (fl_format l) in
      validate_scalar_layout fld (fl_scalar l) cb @
      (case fl_format l of
         ExplicitFormat name radix precision \<Rightarrow>
           map (\<lambda>e. mismatch (ValueError e))
             (option_list (validate_normalized_identifier nfc ''floating format name'' name)) @
           push_if (radix < 2) (mismatch (Text (''radix must be at least 2, found '' @ show_u16 radix))) @
           push_if (precision = 0 \<or> precision > storage)
             (mismatch (Text (''precision must be in 1..='' @ show_u16 storage @ '', found '' @ show_u16 precision)))
       | _ \<Rightarrow> []) @
      push_if (\<not> valid_storage (fl_format l) storage)
        (mismatch (Text (''incompatible storage width '' @ show_u16 storage))))"

definition require_model_width :: "data_model_class \<Rightarrow> string \<Rightarrow> u16 \<Rightarrow> u16 \<Rightarrow> target_violation list" where
  "require_model_width cls fld actual expected =
     push_if (actual \<noteq> expected) (DataModelClassMismatch cls fld expected actual)"

definition validate_data_model_class :: "(string \<Rightarrow> string) \<Rightarrow> c_data_model \<Rightarrow> target_violation list" where
  "validate_data_model_class nfc m =
     (let require = (\<lambda>fld actual expected.
            require_model_width (dm_class m) fld (storage_bits actual) expected) in
      case dm_class m of
        ILP32 \<Rightarrow> require ''int'' (int_layout m) 32 @ require ''long'' (long_layout m) 32 @
          require ''pointer'' (pointer_layout m) 32
      | LP64 \<Rightarrow> require ''int'' (int_layout m) 32 @ require ''long'' (long_layout m) 64 @
          require ''pointer'' (pointer_layout m) 64
      | LLP64 \<Rightarrow> require ''int'' (int_layout m) 32 @ require ''long'' (long_layout m) 32 @
          require ''long_long'' (long_long_layout m) 64 @ require ''pointer'' (pointer_layout m) 64
      | ILP64 \<Rightarrow> require ''int'' (int_layout m) 64 @ require ''long'' (long_layout m) 64 @
          require ''pointer'' (pointer_layout m) 64
      | ExplicitModel name \<Rightarrow>
          map (\<lambda>e. InvalidDataModelFact ''class'' (ValueError e))
            (option_list (validate_normalized_identifier nfc ''explicit data-model name'' name)))"

text \<open>The widths of neighbouring ranks (\<open>windows(2)\<close>).\<close>

fun rank_violations :: "(string \<times> u16) list \<Rightarrow> target_violation list" where
  "rank_violations ((left_name, left_width) # (right_name, right_width) # rest) =
     push_if (left_width > right_width)
       (InvalidDataModelFact ''integer rank widths'' (Text (left_name @ '' width '' @ show_u16 left_width @
         '' exceeds '' @ right_name @ '' width '' @ show_u16 right_width))) @
     rank_violations ((right_name, right_width) # rest)"
| "rank_violations _ = []"

definition validate_c_data_model :: "(string \<Rightarrow> string) \<Rightarrow> c_data_model \<Rightarrow> target_violation list" where
  "validate_c_data_model nfc m =
     (let cb = char_bit m; pointer = storage_bits (pointer_layout m);
          size_t = size_t_layout m; ptrdiff_t = ptrdiff_t_layout m; wchar = wchar_layout m;
          fact = (\<lambda>fld t. InvalidDataModelFact fld (Text t)) in
      push_if (cb = 0) (fact ''char_bit'' ''must be nonzero'') @
      validate_scalar_layout ''bool'' (bool_layout m) cb @
      validate_scalar_layout ''char'' (char_layout m) cb @
      validate_scalar_layout ''short'' (short_layout m) cb @
      validate_scalar_layout ''int'' (int_layout m) cb @
      validate_scalar_layout ''long'' (long_layout m) cb @
      validate_scalar_layout ''long_long'' (long_long_layout m) cb @
      (case int128_layout m of
         None \<Rightarrow> []
       | Some l \<Rightarrow> validate_scalar_layout ''int128'' l cb @
           push_if (storage_bits l \<noteq> 128)
             (fact ''int128.storage_bits'' (''must be 128, found '' @ show_u16 (storage_bits l)))) @
      validate_scalar_layout ''pointer'' (pointer_layout m) cb @
      validate_floating_layout nfc ''float'' (float_layout m) cb @
      validate_floating_layout nfc ''double'' (double_layout m) cb @
      validate_floating_layout nfc ''long_double'' (long_double_layout m) cb @
      validate_scalar_layout ''wchar'' (il_scalar wchar) cb @
      validate_scalar_layout ''size_t'' (il_scalar size_t) cb @
      validate_scalar_layout ''ptrdiff_t'' (il_scalar ptrdiff_t) cb @
      push_if (storage_bits (char_layout m) \<noteq> cb)
        (fact ''char.storage_bits'' (''must equal char_bit '' @ show_u16 cb @ '', found '' @
          show_u16 (storage_bits (char_layout m)))) @
      rank_violations
        [(''short'', storage_bits (short_layout m)), (''int'', storage_bits (int_layout m)),
         (''long'', storage_bits (long_layout m)), (''long_long'', storage_bits (long_long_layout m))] @
      push_if (storage_bits (il_scalar size_t) \<noteq> pointer)
        (fact ''size_t.storage_bits'' (''must match pointer width '' @ show_u16 pointer @ '', found '' @
          show_u16 (storage_bits (il_scalar size_t)))) @
      push_if (storage_bits (il_scalar ptrdiff_t) \<noteq> pointer)
        (fact ''ptrdiff_t.storage_bits'' (''must match pointer width '' @ show_u16 pointer @ '', found '' @
          show_u16 (storage_bits (il_scalar ptrdiff_t)))) @
      push_if (il_signedness size_t \<noteq> Unsigned) (fact ''size_t.signedness'' ''must be unsigned'') @
      push_if (il_signedness ptrdiff_t \<noteq> Signed) (fact ''ptrdiff_t.signedness'' ''must be signed'') @
      push_if (il_representation ptrdiff_t \<noteq> signed_integer_representation m)
        (fact ''ptrdiff_t.representation'' ''must match the target signed integer representation'') @
      push_if (il_signedness wchar = Signed \<and> il_representation wchar \<noteq> signed_integer_representation m)
        (fact ''wchar.representation'' ''signed wchar_t must match the target signed integer representation'') @
      validate_data_model_class nfc m)"

subsection \<open>Compilers and extensions\<close>

fun order_violations :: "string list \<Rightarrow> target_violation list" where
  "order_violations (a # b # rest) =
     push_if (a \<ge> b) (InvalidExtensionProfile (Text
       (''extension IDs must be strictly sorted and unique; found '' @ a @ '' before '' @ b))) @
     order_violations (b # rest)"
| "order_violations _ = []"

definition validate_extension_profile :: "(string \<Rightarrow> string) \<Rightarrow> extension_profile \<Rightarrow> target_violation list" where
  "validate_extension_profile nfc profile =
     concat (map (\<lambda>x. map (\<lambda>e. InvalidExtensionProfile (ValueError e))
       (option_list (validate_normalized_identifier nfc ''extension id'' x))) (ext_enabled profile)) @
     order_violations (ext_enabled profile)"

definition compiler_reported_target_matches :: "string \<Rightarrow> string \<Rightarrow> bool" where
  "compiler_reported_target_matches reported requested \<longleftrightarrow>
     reported = requested \<or>
     ((reported = ''x86_64-linux-gnu'' \<or> reported = ''x86_64-pc-linux-gnu'') \<and>
      requested = ''x86_64-unknown-linux-gnu'')"

definition validate_compiler_identity ::
  "(string \<Rightarrow> string) \<Rightarrow> compiler_identity \<Rightarrow> string \<Rightarrow> target_violation list" where
  "validate_compiler_identity nfc c requested =
     (let invalid = (\<lambda>fld e. InvalidCompilerIdentity fld (ValueError e)) in
      map (invalid ''logical_executable'')
        (option_list (validate_logical_path nfc ''compiler logical executable'' (cc_executable c))) @
      map (invalid ''reported_target'')
        (option_list (validate_target_text nfc ''compiler reported target'' (cc_reported_target c))) @
      map (invalid ''version'') (option_list (validate_human_text nfc ''compiler version'' (cc_version c))) @
      push_if (\<not> compiler_reported_target_matches (cc_reported_target c) requested)
        (CompilerReportedTargetMismatch (cc_reported_target c) requested))"

subsection \<open>All violations\<close>

definition triple_violations ::
  "'z target_spec_parts_scheme \<Rightarrow> parsed_target_triple \<Rightarrow> target_violation list" where
  "triple_violations p t =
     push_if (pt_architecture t \<noteq> tp_architecture p)
       (TripleArchitectureMismatch (pt_architecture_component t) (tp_architecture p)) @
     push_if (pt_vendor t \<noteq> tp_vendor p) (TripleVendorMismatch (pt_vendor t) (tp_vendor p)) @
     push_if (pt_operating_system t \<noteq> tp_operating_system p)
       (TripleOperatingSystemMismatch (pt_operating_system_component t) (tp_operating_system p)) @
     push_if (pt_environment t \<noteq> tp_environment p)
       (TripleEnvironmentMismatch (case pt_environment_component t of None \<Rightarrow> [] | Some c \<Rightarrow> c)
         (tp_environment p)) @
     push_if (pt_endian t \<noteq> tp_endian p)
       (TripleEndianMismatch (pt_architecture_component t) (pt_endian t) (tp_endian p)) @
     push_if (pt_pointer_width t \<noteq> tp_pointer_width p)
       (TriplePointerWidthMismatch (pt_architecture_component t) (pt_pointer_width t) (tp_pointer_width p)) @
     validate_target_combination p t"

fun flag_violations :: "(string \<Rightarrow> string) \<Rightarrow> nat \<Rightarrow> string list \<Rightarrow> target_violation list" where
  "flag_violations nfc i [] = []"
| "flag_violations nfc i (flag # flags) =
     map (\<lambda>e. InvalidAbiFlag i (ValueError e)) (option_list (validate_compiler_arg nfc flag)) @
     flag_violations nfc (Suc i) flags"

definition collect_violations :: "(string \<Rightarrow> string) \<Rightarrow> 'z target_spec_parts_scheme \<Rightarrow> target_violation list" where
  "collect_violations nfc p =
     (case parse_target_triple nfc (tp_triple p) of
        Inl d \<Rightarrow> [InvalidTriple d]
      | Inr parsed \<Rightarrow> triple_violations p parsed) @
     push_if (tp_pointer_width p \<noteq> storage_bits (pointer_layout (tp_c_data_model p)))
       (PointerWidthMismatch (tp_pointer_width p) (storage_bits (pointer_layout (tp_c_data_model p)))) @
     validate_c_data_model nfc (tp_c_data_model p) @
     validate_extension_profile nfc (tp_extension_profile p) @
     validate_compiler_identity nfc (tp_compiler p) (tp_triple p) @
     (case tp_sysroot p of
        None \<Rightarrow> []
      | Some sysroot \<Rightarrow>
          map (\<lambda>e. InvalidSysrootIdentity (ValueError e))
            (option_list (validate_logical_path nfc ''sysroot logical path'' (sysroot_path sysroot)))) @
     flag_violations nfc 0 (tp_abi_flags p)"

subsection \<open>Canonical bytes and fingerprint\<close>

definition enc_text :: "string \<Rightarrow> string" where
  "enc_text value = u64_le (length value) @ value"

definition enc_u16 :: "u16 \<Rightarrow> string" where
  "enc_u16 w = enc_text (le_bytes 2 (unat w))"

definition enc_count :: "nat \<Rightarrow> string" where
  "enc_count n = enc_text (u64_le n)"

definition enc_scalar :: "scalar_layout \<Rightarrow> string" where
  "enc_scalar l = enc_u16 (storage_bits l) @ enc_u16 (alignment_bits l)"

fun enc_format :: "floating_format \<Rightarrow> string" where
  "enc_format IeeeBinary32 = enc_text ''ieee_binary32''"
| "enc_format IeeeBinary64 = enc_text ''ieee_binary64''"
| "enc_format IeeeBinary128 = enc_text ''ieee_binary128''"
| "enc_format X87Extended80 = enc_text ''x87_extended80''"
| "enc_format IbmDoubleDouble128 = enc_text ''ibm_double_double128''"
| "enc_format Decimal32 = enc_text ''decimal32''"
| "enc_format Decimal64 = enc_text ''decimal64''"
| "enc_format Decimal128 = enc_text ''decimal128''"
| "enc_format (ExplicitFormat name radix precision) =
     enc_text ''explicit'' @ enc_text name @ enc_u16 radix @ enc_u16 precision"

definition encode_floating_layout :: "floating_layout \<Rightarrow> string" where
  "encode_floating_layout l = enc_scalar (fl_scalar l) @ enc_format (fl_format l)"

definition encode_integer_layout :: "integer_layout \<Rightarrow> string" where
  "encode_integer_layout l =
     enc_scalar (il_scalar l) @ enc_text (signedness_name (il_signedness l)) @
     enc_text (signed_representation_name (il_representation l))"

fun enc_class :: "data_model_class \<Rightarrow> string" where
  "enc_class ILP32 = enc_text ''ilp32''"
| "enc_class LP64 = enc_text ''lp64''"
| "enc_class LLP64 = enc_text ''llp64''"
| "enc_class ILP64 = enc_text ''ilp64''"
| "enc_class (ExplicitModel name) = enc_text ''explicit'' @ enc_text name"

fun enc_option :: "('a \<Rightarrow> string) \<Rightarrow> 'a option \<Rightarrow> string" where
  "enc_option enc None = enc_text ''none''"
| "enc_option enc (Some x) = enc_text ''some'' @ enc x"

definition encode_c_data_model :: "c_data_model \<Rightarrow> string" where
  "encode_c_data_model m =
     enc_class (dm_class m) @ enc_u16 (char_bit m) @
     enc_text (char_signedness_name (char_signedness m)) @
     enc_text (signed_representation_name (signed_integer_representation m)) @
     enc_scalar (bool_layout m) @ enc_scalar (char_layout m) @ enc_scalar (short_layout m) @
     enc_scalar (int_layout m) @ enc_scalar (long_layout m) @ enc_scalar (long_long_layout m) @
     enc_option enc_scalar (int128_layout m) @ enc_scalar (pointer_layout m) @
     encode_floating_layout (float_layout m) @ encode_floating_layout (double_layout m) @
     encode_floating_layout (long_double_layout m) @ encode_integer_layout (wchar_layout m) @
     encode_integer_layout (size_t_layout m) @ encode_integer_layout (ptrdiff_t_layout m)"

definition enc_list :: "string list \<Rightarrow> string" where
  "enc_list xs = enc_count (length xs) @ concat (map enc_text xs)"

definition enc_sysroot :: "sysroot_identity \<Rightarrow> string" where
  "enc_sysroot s = enc_text (sysroot_path s) @ enc_text (content_bytes (sysroot_content s))"

definition canonical_parts_bytes :: "'z target_spec_parts_scheme \<Rightarrow> string" where
  "canonical_parts_bytes p =
     enc_text ''follang.parc.target-canonical.v1'' @ enc_text (tp_triple p) @
     enc_text (architecture_name (tp_architecture p)) @ enc_text (tp_vendor p) @
     enc_text (operating_system_name (tp_operating_system p)) @
     enc_text (environment_name (tp_environment p)) @
     enc_text (object_format_name (tp_object_format p)) @ enc_text (endian_name (tp_endian p)) @
     enc_u16 (tp_pointer_width p) @ encode_c_data_model (tp_c_data_model p) @
     enc_text (language_standard_name (tp_language_standard p)) @
     enc_text (extension_family_name (ext_family (tp_extension_profile p))) @
     enc_list (ext_enabled (tp_extension_profile p)) @
     enc_text (compiler_family_name (cc_family (tp_compiler p))) @
     enc_text (cc_executable (tp_compiler p)) @
     enc_text (content_bytes (cc_executable_content (tp_compiler p))) @
     enc_text (content_bytes (cc_version_text (tp_compiler p))) @
     enc_text (cc_reported_target (tp_compiler p)) @ enc_text (cc_version (tp_compiler p)) @
     enc_option enc_sysroot (tp_sysroot p) @ enc_list (tp_abi_flags p)"

definition target_fingerprint_derive :: "hash \<Rightarrow> string \<Rightarrow> target_fingerprint" where
  "target_fingerprint_derive H bytes =
     TargetFingerprint (derive_fingerprint H ''follang.parc.target-fingerprint.v1'' bytes)"

definition show_target_fingerprint :: "target_fingerprint \<Rightarrow> string" where
  "show_target_fingerprint f = display_digest ''ptarget1_'' (target_bytes f)"

subsection \<open>Checked targets\<close>

definition from_parts_unchecked :: "target_spec_parts \<Rightarrow> target_fingerprint \<Rightarrow> target_spec" where
  "from_parts_unchecked p f = target_spec_parts.extend p (target_spec.fields f)"

definition target_spec_try_new ::
  "hash \<Rightarrow> (string \<Rightarrow> string) \<Rightarrow> target_spec_parts \<Rightarrow> target_violation list + target_spec" where
  "target_spec_try_new H nfc p =
     (if collect_violations nfc p = []
      then Inr (from_parts_unchecked p (target_fingerprint_derive H (canonical_parts_bytes p)))
      else Inl (collect_violations nfc p))"

definition fingerprint_violations :: "hash \<Rightarrow> 'z target_spec_parts_scheme \<Rightarrow> target_fingerprint \<Rightarrow> target_violation list" where
  "fingerprint_violations H p f =
     (let expected = target_fingerprint_derive H (canonical_parts_bytes p) in
      push_if (f \<noteq> expected)
        (TargetFingerprintMismatch (show_target_fingerprint f) (show_target_fingerprint expected)))"

definition try_from_parts_with_fingerprint ::
  "hash \<Rightarrow> (string \<Rightarrow> string) \<Rightarrow> target_spec_parts \<Rightarrow> target_fingerprint \<Rightarrow> target_violation list + target_spec" where
  "try_from_parts_with_fingerprint H nfc p f =
     (let violations = collect_violations nfc p @ fingerprint_violations H p f in
      if violations \<noteq> [] then Inl violations else Inr (from_parts_unchecked p f))"

definition target_spec_validate :: "hash \<Rightarrow> (string \<Rightarrow> string) \<Rightarrow> target_spec \<Rightarrow> target_violation list" where
  "target_spec_validate H nfc t = collect_violations nfc t @ fingerprint_violations H t (ts_fingerprint t)"

subsection \<open>Framing\<close>

text \<open>
  An encoding can be read back from the front of what follows it: equal bytes come from equal values.  The
  lemmas are rewrite rules, so that the whole of two canonical encodings is compared by the simplifier.
\<close>

lemma enc_text_push: "enc_text s = push_field [] s"
  by (simp add: enc_text_def push_field_def)

lemma enc_text_eq: "short a \<Longrightarrow> short b \<Longrightarrow> enc_text a @ x = enc_text b @ y \<longleftrightarrow> a = b \<and> x = y"
  unfolding enc_text_push using push_field_inj by blast

lemma short_le [simp]: "length s \<le> 32 \<Longrightarrow> short s"
  by (simp add: short_def)

lemma enc_u16_eq: "enc_u16 v @ x = enc_u16 w @ y \<longleftrightarrow> v = w \<and> x = y"
proof -
  have "le_bytes 2 (unat v) = le_bytes 2 (unat w) \<longleftrightarrow> v = w"
    using le_bytes_inj [of "unat v" 2 "unat w"] unsigned_less [of v] unsigned_less [of w]
    by (auto intro: unsigned_word_eqI)
  then show ?thesis by (simp add: enc_u16_def enc_text_eq)
qed

lemma enc_count_eq: "n < 2 ^ 64 \<Longrightarrow> k < 2 ^ 64 \<Longrightarrow> enc_count n @ x = enc_count k @ y \<longleftrightarrow> n = k \<and> x = y"
  using u64_le_inj [of n k] by (auto simp: enc_count_def enc_text_eq)

lemma enc_scalar_eq: "enc_scalar l @ x = enc_scalar m @ y \<longleftrightarrow> l = m \<and> x = y"
  by (cases l; cases m) (auto simp: enc_scalar_def enc_u16_eq)

text \<open>The names are different, and short.\<close>

lemma short_names [simp]:
  "short (architecture_name a)" "short (operating_system_name os)" "short (environment_name e)"
  "short (object_format_name f)" "short (endian_name d)" "short (language_standard_name l)"
  "short (extension_family_name x)" "short (compiler_family_name c)" "short (char_signedness_name h)"
  "short (signedness_name g)" "short (signed_representation_name r)"
  by ((cases a; simp), (cases os; simp), (cases e; simp), (cases f; simp), (cases d; simp), (cases l; simp),
    (cases x; simp), (cases c; simp), (cases h; simp), (cases g; simp), (cases r; simp))

lemma architecture_name_eq [simp]: "architecture_name a = architecture_name b \<longleftrightarrow> a = b"
  by (cases a; cases b) simp_all

lemma operating_system_name_eq [simp]: "operating_system_name a = operating_system_name b \<longleftrightarrow> a = b"
  by (cases a; cases b) simp_all

lemma environment_name_eq [simp]: "environment_name a = environment_name b \<longleftrightarrow> a = b"
  by (cases a; cases b) simp_all

lemma small_name_eq [simp]:
  "object_format_name f = object_format_name f' \<longleftrightarrow> f = f'"
  "endian_name d = endian_name d' \<longleftrightarrow> d = d'"
  "language_standard_name l = language_standard_name l' \<longleftrightarrow> l = l'"
  "extension_family_name x = extension_family_name x' \<longleftrightarrow> x = x'"
  "compiler_family_name c = compiler_family_name c' \<longleftrightarrow> c = c'"
  "char_signedness_name h = char_signedness_name h' \<longleftrightarrow> h = h'"
  "signedness_name g = signedness_name g' \<longleftrightarrow> g = g'"
  "signed_representation_name r = signed_representation_name r' \<longleftrightarrow> r = r'"
  by ((cases f; cases f'; simp), (cases d; cases d'; simp), (cases l; cases l'; simp),
    (cases x; cases x'; simp), (cases c; cases c'; simp), (cases h; cases h'; simp),
    (cases g; cases g'; simp), (cases r; cases r'; simp))

fun format_texts :: "floating_format \<Rightarrow> string list" where
  "format_texts (ExplicitFormat name _ _) = [name]"
| "format_texts _ = []"

fun class_texts :: "data_model_class \<Rightarrow> string list" where
  "class_texts (ExplicitModel name) = [name]"
| "class_texts _ = []"

lemma enc_format_eq:
  "list_all short (format_texts f @ format_texts g) \<Longrightarrow>
     enc_format f @ x = enc_format g @ y \<longleftrightarrow> f = g \<and> x = y"
  by (cases f; cases g) (auto simp: enc_text_eq enc_u16_eq)

lemma enc_class_eq:
  "list_all short (class_texts f @ class_texts g) \<Longrightarrow>
     enc_class f @ x = enc_class g @ y \<longleftrightarrow> f = g \<and> x = y"
  by (cases f; cases g) (auto simp: enc_text_eq)

lemma enc_floating_eq:
  "list_all short (format_texts (fl_format f) @ format_texts (fl_format g)) \<Longrightarrow>
     encode_floating_layout f @ x = encode_floating_layout g @ y \<longleftrightarrow> f = g \<and> x = y"
  by (cases f; cases g) (auto simp: encode_floating_layout_def enc_scalar_eq enc_format_eq)

lemma enc_integer_eq: "encode_integer_layout f @ x = encode_integer_layout g @ y \<longleftrightarrow> f = g \<and> x = y"
  by (cases f; cases g) (auto simp: encode_integer_layout_def enc_scalar_eq enc_text_eq)

lemma enc_option_eq:
  assumes "\<And>a b x y. m = Some a \<Longrightarrow> n = Some b \<Longrightarrow> enc a @ x = enc b @ y \<longleftrightarrow> a = b \<and> x = y"
  shows "enc_option enc m @ x = enc_option enc n @ y \<longleftrightarrow> m = n \<and> x = y"
  using assms by (cases m; cases n) (auto simp: enc_text_eq)

lemma enc_texts_eq:
  "length xs = length ys \<Longrightarrow> list_all short (xs @ ys) \<Longrightarrow>
     concat (map enc_text xs) @ x = concat (map enc_text ys) @ y \<longleftrightarrow> xs = ys \<and> x = y"
  by (induction xs ys rule: list_induct2) (auto simp: enc_text_eq)

lemma enc_list_eq:
  assumes "list_all short (xs @ ys)" "length xs < 2 ^ 64" "length ys < 2 ^ 64"
  shows "enc_list xs @ x = enc_list ys @ y \<longleftrightarrow> xs = ys \<and> x = y"
proof (cases "length xs = length ys")
  case True
  then show ?thesis using assms by (simp add: enc_list_def enc_count_eq enc_texts_eq)
next
  case False
  then show ?thesis using assms by (auto simp: enc_list_def enc_count_eq)
qed

definition model_texts :: "c_data_model \<Rightarrow> string list" where
  "model_texts m = class_texts (dm_class m) @ format_texts (fl_format (float_layout m)) @
     format_texts (fl_format (double_layout m)) @ format_texts (fl_format (long_double_layout m))"

lemma enc_model_eq:
  assumes "list_all short (model_texts m @ model_texts n)"
  shows "encode_c_data_model m @ x = encode_c_data_model n @ y \<longleftrightarrow> m = n \<and> x = y"
proof -
  have t: "list_all short (class_texts (dm_class m) @ class_texts (dm_class n))"
    "list_all short (format_texts (fl_format (float_layout m)) @ format_texts (fl_format (float_layout n)))"
    "list_all short (format_texts (fl_format (double_layout m)) @ format_texts (fl_format (double_layout n)))"
    "list_all short (format_texts (fl_format (long_double_layout m)) @
       format_texts (fl_format (long_double_layout n)))"
    using assms by (simp_all add: model_texts_def)
  show ?thesis
    by (simp only: encode_c_data_model_def append_assoc enc_class_eq [OF t(1)] enc_u16_eq
        enc_text_eq [OF short_names(9) short_names(9)] enc_text_eq [OF short_names(11) short_names(11)]
        small_name_eq enc_scalar_eq enc_option_eq
        enc_floating_eq [OF t(2)] enc_floating_eq [OF t(3)] enc_floating_eq [OF t(4)] enc_integer_eq
        c_data_model.equality)
      (cases m; cases n; auto)
qed

lemma content_bytes_eq [simp]: "content_bytes c = content_bytes d \<longleftrightarrow> c = d"
  by (cases c; cases d) simp

lemma enc_sysroot_eq:
  "list_all short [sysroot_path r, content_bytes (sysroot_content r), sysroot_path s,
     content_bytes (sysroot_content s)] \<Longrightarrow> enc_sysroot r @ x = enc_sysroot s @ y \<longleftrightarrow> r = s \<and> x = y"
  by (cases r; cases s) (auto simp: enc_sysroot_def enc_text_eq)

text \<open>The texts of the parts, which a 64-bit length can count.\<close>

definition part_texts :: "target_spec_parts \<Rightarrow> string list" where
  "part_texts p =
     [tp_triple p, tp_vendor p, cc_executable (tp_compiler p), cc_reported_target (tp_compiler p),
      cc_version (tp_compiler p), content_bytes (cc_executable_content (tp_compiler p)),
      content_bytes (cc_version_text (tp_compiler p))] @
     model_texts (tp_c_data_model p) @ ext_enabled (tp_extension_profile p) @ tp_abi_flags p @
     (case tp_sysroot p of None \<Rightarrow> [] | Some s \<Rightarrow> [sysroot_path s, content_bytes (sysroot_content s)])"

definition encodable :: "target_spec_parts \<Rightarrow> bool" where
  "encodable p \<longleftrightarrow> list_all short (part_texts p) \<and>
     length (ext_enabled (tp_extension_profile p)) < 2 ^ 64 \<and> length (tp_abi_flags p) < 2 ^ 64"

lemma canonical_parts_inj:
  assumes "encodable p" "encodable q" "canonical_parts_bytes p = canonical_parts_bytes q"
  shows "p = q"
proof -
  let ?cp = "tp_compiler p" and ?cq = "tp_compiler q"
  let ?ep = "tp_extension_profile p" and ?eq = "tp_extension_profile q"
  have short_p: "short (tp_triple p)" "short (tp_vendor p)" "short (cc_executable ?cp)"
      "short (cc_reported_target ?cp)" "short (cc_version ?cp)"
      "short (content_bytes (cc_executable_content ?cp))" "short (content_bytes (cc_version_text ?cp))"
    and short_q: "short (tp_triple q)" "short (tp_vendor q)" "short (cc_executable ?cq)"
      "short (cc_reported_target ?cq)" "short (cc_version ?cq)"
      "short (content_bytes (cc_executable_content ?cq))" "short (content_bytes (cc_version_text ?cq))"
    and model: "list_all short (model_texts (tp_c_data_model p) @ model_texts (tp_c_data_model q))"
    and lists: "list_all short (ext_enabled ?ep @ ext_enabled ?eq)"
      "list_all short (tp_abi_flags p @ tp_abi_flags q)"
    using assms(1,2) by (simp_all add: encodable_def part_texts_def)
  have lengths: "length (ext_enabled ?ep) < 2 ^ 64" "length (ext_enabled ?eq) < 2 ^ 64"
    "length (tp_abi_flags p) < 2 ^ 64" "length (tp_abi_flags q) < 2 ^ 64"
    using assms(1,2) by (simp_all add: encodable_def)
  have sysroot: "enc_option enc_sysroot (tp_sysroot p) @ x = enc_option enc_sysroot (tp_sysroot q) @ y \<longleftrightarrow>
      tp_sysroot p = tp_sysroot q \<and> x = y" for x y
    using assms(1,2) by (intro enc_option_eq enc_sysroot_eq) (simp add: encodable_def part_texts_def)
  have "canonical_parts_bytes p @ [] = canonical_parts_bytes q @ []"
    using assms(3) by simp
  then have "tp_triple p = tp_triple q \<and> tp_architecture p = tp_architecture q \<and> tp_vendor p = tp_vendor q \<and>
      tp_operating_system p = tp_operating_system q \<and> tp_environment p = tp_environment q \<and>
      tp_object_format p = tp_object_format q \<and> tp_endian p = tp_endian q \<and>
      tp_pointer_width p = tp_pointer_width q \<and> tp_c_data_model p = tp_c_data_model q \<and>
      tp_language_standard p = tp_language_standard q \<and> ext_family ?ep = ext_family ?eq \<and>
      ext_enabled ?ep = ext_enabled ?eq \<and> cc_family ?cp = cc_family ?cq \<and>
      cc_executable ?cp = cc_executable ?cq \<and> cc_executable_content ?cp = cc_executable_content ?cq \<and>
      cc_version_text ?cp = cc_version_text ?cq \<and> cc_reported_target ?cp = cc_reported_target ?cq \<and>
      cc_version ?cp = cc_version ?cq \<and> tp_sysroot p = tp_sysroot q \<and> tp_abi_flags p = tp_abi_flags q"
    unfolding canonical_parts_bytes_def append_assoc same_append_eq
    by (simp only: simp_thms enc_text_eq short_names short_p short_q enc_u16_eq enc_model_eq [OF model] sysroot
        enc_list_eq [OF lists(1) lengths(1,2)] enc_list_eq [OF lists(2) lengths(3,4)] small_name_eq
        architecture_name_eq operating_system_name_eq environment_name_eq content_bytes_eq)
  then show ?thesis by simp
qed

subsection \<open>What an accepted target satisfies\<close>

lemma is_power_of_two_iff: "is_power_of_two n \<longleftrightarrow> (\<exists>k. n = 2 ^ k)"
proof (induction n rule: is_power_of_two.induct)
  case (1 n)
  show ?case
  proof (cases "1 < n \<and> even n")
    case True
    then have "(\<exists>k. n = 2 ^ k) \<longleftrightarrow> (\<exists>k. n div 2 = 2 ^ k)"
      by (metis dvd_mult_div_cancel even_power less_numeral_extra(4) nonzero_mult_div_cancel_left
          numeral_eq_one_iff old.nat.exhaust power_0 power_Suc semiring_norm(85) zero_neq_numeral)
    then show ?thesis using 1 True by (simp add: is_power_of_two.simps [of n])
  next
    case False
    then have "(\<exists>k. n = 2 ^ k) \<longleftrightarrow> n = 1"
      by (metis One_nat_def Suc_lessI bot_nat_0.not_eq_extremum even_power less_one power_0 power_eq_0_iff
          zero_neq_numeral dvd_refl)
    then show ?thesis using False by (subst is_power_of_two.simps) auto
  qed
qed

definition layout_ok :: "u16 \<Rightarrow> scalar_layout \<Rightarrow> bool" where
  "layout_ok cb l \<longleftrightarrow> storage_bits l \<noteq> 0 \<and> (\<exists>k. unat (alignment_bits l) = 2 ^ k) \<and>
     unat cb dvd unat (storage_bits l) \<and> unat cb dvd unat (alignment_bits l)"

lemma scalar_layout_ok:
  "cb \<noteq> 0 \<Longrightarrow> validate_scalar_layout fld l cb = [] \<longleftrightarrow> layout_ok cb l"
  unfolding validate_scalar_layout_def layout_ok_def Let_def is_power_of_two_iff
  by (auto simp: unat_eq_0 split: if_splits)

definition model_layouts :: "c_data_model \<Rightarrow> scalar_layout list" where
  "model_layouts m =
     [bool_layout m, char_layout m, short_layout m, int_layout m, long_layout m, long_long_layout m,
      pointer_layout m, fl_scalar (float_layout m), fl_scalar (double_layout m),
      fl_scalar (long_double_layout m), il_scalar (wchar_layout m), il_scalar (size_t_layout m),
      il_scalar (ptrdiff_t_layout m)] @ option_list (int128_layout m)"

text \<open>The model promised to the rest of the code.\<close>

definition model_ok :: "c_data_model \<Rightarrow> bool" where
  "model_ok m \<longleftrightarrow>
     char_bit m \<noteq> 0 \<and> list_all (layout_ok (char_bit m)) (model_layouts m) \<and>
     storage_bits (char_layout m) = char_bit m \<and>
     storage_bits (short_layout m) \<le> storage_bits (int_layout m) \<and>
     storage_bits (int_layout m) \<le> storage_bits (long_layout m) \<and>
     storage_bits (long_layout m) \<le> storage_bits (long_long_layout m) \<and>
     storage_bits (il_scalar (size_t_layout m)) = storage_bits (pointer_layout m) \<and>
     storage_bits (il_scalar (ptrdiff_t_layout m)) = storage_bits (pointer_layout m) \<and>
     il_signedness (size_t_layout m) = Unsigned \<and> il_signedness (ptrdiff_t_layout m) = Signed"

lemma floating_layout_ok:
  "cb \<noteq> 0 \<Longrightarrow> validate_floating_layout nfc fld l cb = [] \<Longrightarrow> layout_ok cb (fl_scalar l)"
  by (simp add: validate_floating_layout_def Let_def scalar_layout_ok)

lemma push_if_Nil [simp]: "push_if b v = [] \<longleftrightarrow> \<not> b"
  by simp

lemma validate_c_data_model_ok:
  assumes "validate_c_data_model nfc m = []"
  shows "model_ok m"
proof -
  note v = assms [unfolded validate_c_data_model_def Let_def append_is_Nil_conv push_if_Nil not_not]
  have cb: "char_bit m \<noteq> 0" using v by blast
  have "list_all (layout_ok (char_bit m)) (model_layouts m)"
    unfolding model_layouts_def using v floating_layout_ok [OF cb]
    by (cases "int128_layout m") (auto simp: option_list_def scalar_layout_ok [OF cb])
  moreover have "storage_bits (short_layout m) \<le> storage_bits (int_layout m) \<and>
     storage_bits (int_layout m) \<le> storage_bits (long_layout m) \<and>
     storage_bits (long_layout m) \<le> storage_bits (long_long_layout m)"
  proof -
    have "rank_violations [(''short'', storage_bits (short_layout m)), (''int'', storage_bits (int_layout m)),
         (''long'', storage_bits (long_layout m)), (''long_long'', storage_bits (long_long_layout m))] = []"
      using v by blast
    then show ?thesis by (simp add: not_less)
  qed
  ultimately show ?thesis unfolding model_ok_def using v by blast
qed

lemma order_violations_ok: "order_violations xs = [] \<Longrightarrow> sorted_wrt (<) xs"
proof (induction xs rule: order_violations.induct)
  case (1 a b rest)
  then have "a < b" "sorted_wrt (<) (b # rest)" by (simp_all add: not_le)
  then show ?case by (auto intro: less_trans)
qed simp_all

lemma collect_violations_ok:
  assumes "collect_violations nfc p = []"
  shows "\<exists>parsed. parse_target_triple nfc (tp_triple p) = Inr parsed \<and> triple_violations p parsed = []"
    and "tp_pointer_width p = storage_bits (pointer_layout (tp_c_data_model p))"
    and "model_ok (tp_c_data_model p)"
    and "sorted_wrt (<) (ext_enabled (tp_extension_profile p))"
proof -
  note v = assms [unfolded collect_violations_def append_is_Nil_conv push_if_Nil not_not]
  show "\<exists>parsed. parse_target_triple nfc (tp_triple p) = Inr parsed \<and> triple_violations p parsed = []"
    using v by (auto split: sum.splits)
  show "tp_pointer_width p = storage_bits (pointer_layout (tp_c_data_model p))" using v by blast
  show "model_ok (tp_c_data_model p)" using v validate_c_data_model_ok by blast
  show "sorted_wrt (<) (ext_enabled (tp_extension_profile p))"
    using v order_violations_ok by (simp add: validate_extension_profile_def)
qed

lemma extended_parts [simp]:
  "target_spec_parts.truncate (from_parts_unchecked p f) = p"
  "ts_fingerprint (from_parts_unchecked p f) = f"
  by (simp_all add: from_parts_unchecked_def target_spec_parts.defs target_spec.defs)

lemma extended_selectors [simp]:
  "tp_triple (from_parts_unchecked p f) = tp_triple p"
  "tp_architecture (from_parts_unchecked p f) = tp_architecture p"
  "tp_vendor (from_parts_unchecked p f) = tp_vendor p"
  "tp_operating_system (from_parts_unchecked p f) = tp_operating_system p"
  "tp_environment (from_parts_unchecked p f) = tp_environment p"
  "tp_object_format (from_parts_unchecked p f) = tp_object_format p"
  "tp_endian (from_parts_unchecked p f) = tp_endian p"
  "tp_pointer_width (from_parts_unchecked p f) = tp_pointer_width p"
  "tp_c_data_model (from_parts_unchecked p f) = tp_c_data_model p"
  "tp_language_standard (from_parts_unchecked p f) = tp_language_standard p"
  "tp_extension_profile (from_parts_unchecked p f) = tp_extension_profile p"
  "tp_compiler (from_parts_unchecked p f) = tp_compiler p"
  "tp_sysroot (from_parts_unchecked p f) = tp_sysroot p"
  "tp_abi_flags (from_parts_unchecked p f) = tp_abi_flags p"
  by (simp_all add: from_parts_unchecked_def target_spec_parts.defs target_spec.defs)

lemma extended_checks [simp]:
  "collect_violations nfc (from_parts_unchecked p f) = collect_violations nfc p"
  "fingerprint_violations H (from_parts_unchecked p f) g = fingerprint_violations H p g"
proof -
  have tv: "triple_violations (from_parts_unchecked p f) t = triple_violations p t" for t
    by (simp only: triple_violations_def validate_target_combination_def extended_selectors)
  show "collect_violations nfc (from_parts_unchecked p f) = collect_violations nfc p"
    by (simp only: collect_violations_def tv extended_selectors)
  show "fingerprint_violations H (from_parts_unchecked p f) g = fingerprint_violations H p g"
    by (simp only: fingerprint_violations_def canonical_parts_bytes_def extended_selectors)
qed

lemma fingerprint_violations_Nil:
  "fingerprint_violations H p f = [] \<longleftrightarrow> f = target_fingerprint_derive H (canonical_parts_bytes p)"
  by (simp add: fingerprint_violations_def Let_def)

lemma try_newD:
  "target_spec_try_new H nfc p = Inr t \<Longrightarrow> collect_violations nfc p = [] \<and>
     t = from_parts_unchecked p (target_fingerprint_derive H (canonical_parts_bytes p))"
  by (simp add: target_spec_try_new_def split: if_splits)

subsection \<open>A Linux target\<close>

definition sample_layout :: "u16 \<Rightarrow> scalar_layout" where
  "sample_layout w = \<lparr>storage_bits = w, alignment_bits = w\<rparr>"

definition sample_integer :: "u16 \<Rightarrow> signedness \<Rightarrow> integer_layout" where
  "sample_integer w s = \<lparr>il_scalar = sample_layout w, il_signedness = s, il_representation = TwosComplement\<rparr>"

definition sample_floating :: "u16 \<Rightarrow> floating_format \<Rightarrow> floating_layout" where
  "sample_floating w f = \<lparr>fl_scalar = sample_layout w, fl_format = f\<rparr>"

definition sample_model :: c_data_model where
  "sample_model =
     \<lparr>dm_class = LP64, char_bit = 8, char_signedness = CharSigned,
      signed_integer_representation = TwosComplement,
      bool_layout = sample_layout 8, char_layout = sample_layout 8, short_layout = sample_layout 16,
      int_layout = sample_layout 32, long_layout = sample_layout 64, long_long_layout = sample_layout 64,
      int128_layout = Some (sample_layout 128), pointer_layout = sample_layout 64,
      float_layout = sample_floating 32 IeeeBinary32, double_layout = sample_floating 64 IeeeBinary64,
      long_double_layout = sample_floating 128 X87Extended80, wchar_layout = sample_integer 32 Signed,
      size_t_layout = sample_integer 64 Unsigned, ptrdiff_t_layout = sample_integer 64 Signed\<rparr>"

definition sample_target :: "string list \<Rightarrow> target_spec_parts" where
  "sample_target flags =
     \<lparr>tp_triple = ''x86_64-unknown-linux-gnu'', tp_architecture = Arch_X86_64, tp_vendor = ''unknown'',
      tp_operating_system = Os_Linux, tp_environment = Env_Gnu, tp_object_format = Obj_Elf,
      tp_endian = Little, tp_pointer_width = 64, tp_c_data_model = sample_model,
      tp_language_standard = C17,
      tp_extension_profile = extension_profile_new Ext_Gnu [''vector'', ''asm''],
      tp_compiler = \<lparr>cc_family = Compiler_Gcc, cc_executable = ''usr/bin/cc'',
        cc_executable_content = ContentFingerprint [], cc_version_text = ContentFingerprint [],
        cc_reported_target = ''x86_64-linux-gnu'', cc_version = ''13.2''\<rparr>,
      tp_sysroot = None, tp_abi_flags = flags\<rparr>"

lemma sample_accepted:
  "collect_violations (\<lambda>s. s) (sample_target []) = []"
  "collect_violations (\<lambda>s. s) (sample_target [''-m64'']) = []"
  by code_simp+

lemma sample_encodable: "encodable (sample_target [])" "encodable (sample_target [''-m64''])"
  by (simp_all add: encodable_def part_texts_def sample_target_def sample_model_def sample_floating_def
      model_texts_def extension_profile_new_def short_def)

subsection \<open>Properties\<close>

text \<open>
  C18: a target that is accepted is coherent: its triple parses, to the architecture, vendor, operating
  system, environment, byte order and pointer width that it declares, and its object format belongs to
  them; the pointer width is that of the data model, of \<open>size_t\<close> (unsigned) and of \<open>ptrdiff_t\<close> (signed);
  every layout has a width that is not zero, a power of two as alignment, and both are multiples of the bits of a
  \<open>char\<close>; the widths grow with the rank of the integers; the extensions are sorted without duplicates.
\<close>
theorem accepted_target_coherent:
  assumes "target_spec_try_new H nfc p = Inr t"
  shows "target_spec_parts.truncate t = p \<and>
    (\<exists>parsed. parse_target_triple nfc (tp_triple p) = Inr parsed \<and>
       pt_architecture parsed = tp_architecture p \<and> pt_vendor parsed = tp_vendor p \<and>
       pt_operating_system parsed = tp_operating_system p \<and> pt_environment parsed = tp_environment p \<and>
       pt_endian parsed = tp_endian p \<and> pt_pointer_width parsed = tp_pointer_width p) \<and>
    object_format_matches (tp_object_format p) (tp_architecture p) (tp_vendor p) (tp_operating_system p) \<and>
    tp_pointer_width p = storage_bits (pointer_layout (tp_c_data_model p)) \<and>
    model_ok (tp_c_data_model p) \<and> sorted_wrt (<) (ext_enabled (tp_extension_profile p))"
proof -
  note accepted = try_newD [OF assms]
  note ok = collect_violations_ok [OF conjunct1 [OF accepted]]
  obtain parsed where parsed: "parse_target_triple nfc (tp_triple p) = Inr parsed"
    "triple_violations p parsed = []"
    using ok(1) by blast
  note facts = parsed(2) [unfolded triple_violations_def validate_target_combination_def Let_def
      append_is_Nil_conv push_if_Nil not_not]
  show ?thesis using parsed(1) facts ok(2-4) accepted by auto
qed

theorem accepted_target_coherent_witness:
  "tp_pointer_width (sample_target []) = 64 \<and>
   (\<exists>t. target_spec_try_new (\<lambda>c b. b) (\<lambda>s. s) (sample_target []) = Inr t \<and>
     target_spec_parts.truncate t = sample_target [] \<and> model_ok (tp_c_data_model (sample_target [])))"
proof -
  obtain t where t: "target_spec_try_new (\<lambda>c b. b) (\<lambda>s. s) (sample_target []) = Inr t"
    using sample_accepted by (simp add: target_spec_try_new_def)
  show ?thesis using accepted_target_coherent [OF t] t by (auto simp: sample_target_def)
qed

text \<open>
  C17: the fingerprint of a target stands for the target.  If two accepted targets have the same fingerprint, then all
  their parts are equal, or the hash function collides on two different byte strings that
  encode them: the canonical encoding of the parts, with its counts, tags and length prefixes, is injective.
\<close>
theorem target_fingerprint_identity:
  assumes "target_spec_try_new H nfc p = Inr s" "target_spec_try_new H nfc q = Inr t"
    and "ts_fingerprint s = ts_fingerprint t" "encodable p" "encodable q"
  shows "p = q \<or>
    (let x = canonical_parts_bytes p; y = canonical_parts_bytes q
     in x \<noteq> y \<and> target_fingerprint_derive H x = target_fingerprint_derive H y)"
proof (cases "canonical_parts_bytes p = canonical_parts_bytes q")
  case True
  then show ?thesis using canonical_parts_inj assms(4,5) by blast
next
  case False
  then show ?thesis using try_newD [OF assms(1)] try_newD [OF assms(2)] assms(3) by simp
qed

theorem target_fingerprint_identity_witness:
  "\<exists>s t. target_spec_try_new (\<lambda>c b. drop 8 b) (\<lambda>s. s) (sample_target []) = Inr s \<and>
     target_spec_try_new (\<lambda>c b. drop 8 b) (\<lambda>s. s) (sample_target [''-m64'']) = Inr t \<and>
     ts_fingerprint s \<noteq> ts_fingerprint t"
proof -
  obtain s t where s: "target_spec_try_new (\<lambda>c b. drop 8 b) (\<lambda>s. s) (sample_target []) = Inr s"
    and t: "target_spec_try_new (\<lambda>c b. drop 8 b) (\<lambda>s. s) (sample_target [''-m64'']) = Inr t"
    using sample_accepted by (simp add: target_spec_try_new_def)
  have "target_fingerprint_derive (\<lambda>c b. drop 8 b) x = TargetFingerprint x" for x
    by (simp add: target_fingerprint_derive_def derive_fingerprint_def field_def finish_def hasher_new_def
        push_field_def)
  moreover have "sample_target [] \<noteq> sample_target [''-m64'']"
    by (simp add: sample_target_def)
  ultimately have "ts_fingerprint s \<noteq> ts_fingerprint t"
    using target_fingerprint_identity [OF s t _ sample_encodable] by (auto simp: Let_def)
  then show ?thesis using s t by blast
qed

text \<open>
  C19: rebuilding a target from its parts and a fingerprint succeeds exactly if the parts are accepted and the
  fingerprint is the one that they have, it gives the same target as making it anew, and what either
  gives passes its own validation.
\<close>
theorem target_rebuilt:
  "(try_from_parts_with_fingerprint H nfc p f = Inr t \<longleftrightarrow>
      target_spec_try_new H nfc p = Inr t \<and> ts_fingerprint t = f) \<and>
   (target_spec_try_new H nfc p = Inr u \<longrightarrow> target_spec_validate H nfc u = [] \<and>
      try_from_parts_with_fingerprint H nfc (target_spec_parts.truncate u) (ts_fingerprint u) = Inr u)"
proof -
  have rebuilt: "try_from_parts_with_fingerprint H nfc p f = Inr t \<longleftrightarrow>
      target_spec_try_new H nfc p = Inr t \<and> ts_fingerprint t = f" for f t
    using fingerprint_violations_Nil [of H p f]
    by (auto simp: try_from_parts_with_fingerprint_def target_spec_try_new_def Let_def split: if_splits)
  moreover have "target_spec_validate H nfc u = [] \<and>
      try_from_parts_with_fingerprint H nfc (target_spec_parts.truncate u) (ts_fingerprint u) = Inr u"
    if u: "target_spec_try_new H nfc p = Inr u"
  proof -
    have "target_spec_parts.truncate u = p" using try_newD [OF u] by simp
    then show ?thesis
      using u rebuilt [of "ts_fingerprint u" u] try_newD [OF u]
      by (simp add: target_spec_validate_def fingerprint_violations_Nil)
  qed
  ultimately show ?thesis by blast
qed

theorem target_rebuilt_witness:
  "\<exists>u. target_spec_try_new (\<lambda>c b. b) (\<lambda>s. s) (sample_target []) = Inr u \<and>
     target_spec_validate (\<lambda>c b. b) (\<lambda>s. s) u = []"
proof -
  obtain u where u: "target_spec_try_new (\<lambda>c b. b) (\<lambda>s. s) (sample_target []) = Inr u"
    using sample_accepted by (simp add: target_spec_try_new_def)
  show ?thesis using target_rebuilt [of "\<lambda>c b. b" "\<lambda>s. s" "sample_target []"] u by blast
qed

end
