(* ===== verification/Evaluate.thy ===== *)
theory Evaluate
  imports Expr Ast Target
begin

text \<open>
  The sizes that a C data model gives (\<open>SizeOfTable\<close> of \<open>src/extract/types.rs\<close>), the best-effort evaluation of
  constant expressions behind array bounds and bit widths (\<open>eval_const_expr\<close>), and the exact evaluation
  behind enumerators (\<open>eval_exact_integer_in_env\<close>, \<open>eval_exact_binary\<close>).  An \<open>i128\<close> or \<open>u128\<close> is an \<open>int\<close>
  with its range written out; \<open>chk\<close> says whether overflow checks are compiled in.
\<close>

declare and_then_cong [fundef_cong]

subsection \<open>Sizes\<close>

record size_of_table =
  sz_bool :: nat
  sz_char :: nat
  sz_short :: nat
  sz_int :: nat
  sz_long :: nat
  sz_long_long :: nat
  sz_pointer :: nat
  sz_float :: nat
  sz_double :: nat
  sz_long_double :: nat
  sz_int_bits :: nat
  sz_char_bit :: nat

definition from_data_model :: "c_data_model \<Rightarrow> size_of_table" where
  "from_data_model m =
     (let cb = max (unat (char_bit m)) 1;
          bytes = (\<lambda>l. unat (storage_bits l) div cb)
      in \<lparr>sz_bool = bytes (bool_layout m), sz_char = bytes (char_layout m), sz_short = bytes (short_layout m),
          sz_int = bytes (int_layout m), sz_long = bytes (long_layout m),
          sz_long_long = bytes (long_long_layout m), sz_pointer = bytes (pointer_layout m),
          sz_float = bytes (fl_scalar (float_layout m)), sz_double = bytes (fl_scalar (double_layout m)),
          sz_long_double = bytes (fl_scalar (long_double_layout m)),
          sz_int_bits = unat (storage_bits (int_layout m)), sz_char_bit = cb\<rparr>)"

definition integer_range :: "size_of_table \<Rightarrow> c_integer_type \<Rightarrow> (nat \<times> bool) option" where
  "integer_range sizes t =
     (let ranged = (\<lambda>bytes signed.
        if bytes * sz_char_bit sizes < 2 ^ 32 then Some (bytes * sz_char_bit sizes, signed) else None)
      in case t of
        CharInt SignedChar \<Rightarrow> ranged (sz_char sizes) True
      | CharInt UnsignedChar \<Rightarrow> ranged (sz_char sizes) False
      | ShortInt s \<Rightarrow> ranged (sz_short sizes) (s = Signed)
      | IntInt s \<Rightarrow> ranged (sz_int sizes) (s = Signed)
      | LongInt s \<Rightarrow> ranged (sz_long sizes) (s = Signed)
      | LongLongInt s \<Rightarrow> ranged (sz_long_long sizes) (s = Signed)
      | _ \<Rightarrow> None)"

fun specifiers_loop ::
  "specifier_qualifier node list \<Rightarrow> nat \<Rightarrow> type_specifier option \<Rightarrow> bool \<Rightarrow>
    (nat \<times> type_specifier option \<times> bool) option" where
  "specifiers_loop [] longs base sign_only = Some (longs, base, sign_only)"
| "specifiers_loop (Node (SpecifierQualifier_TypeSpecifier t) _ # rest) longs base sign_only =
     (case node t of
        TypeSpecifier_Long \<Rightarrow> specifiers_loop rest (Suc longs) base sign_only
      | TypeSpecifier_Signed \<Rightarrow> specifiers_loop rest longs base True
      | TypeSpecifier_Unsigned \<Rightarrow> specifiers_loop rest longs base True
      | TypeSpecifier_Int \<Rightarrow>
          specifiers_loop rest longs (if base = None then Some (node t) else base) sign_only
      | TypeSpecifier_Char \<Rightarrow> specifiers_loop rest longs (Some (node t)) sign_only
      | TypeSpecifier_Short \<Rightarrow> specifiers_loop rest longs (Some (node t)) sign_only
      | TypeSpecifier_Float \<Rightarrow> specifiers_loop rest longs (Some (node t)) sign_only
      | TypeSpecifier_Double \<Rightarrow> specifiers_loop rest longs (Some (node t)) sign_only
      | TypeSpecifier_Bool \<Rightarrow> specifiers_loop rest longs (Some (node t)) sign_only
      | _ \<Rightarrow> None)"
| "specifiers_loop (_ # rest) longs base sign_only = specifiers_loop rest longs base sign_only"

definition size_of_specifiers :: "size_of_table \<Rightarrow> specifier_qualifier node list \<Rightarrow> nat option" where
  "size_of_specifiers sizes specifiers =
     (case specifiers_loop specifiers 0 None False of
        None \<Rightarrow> None
      | Some (longs, base, sign_only) \<Rightarrow>
          (case base of
             Some TypeSpecifier_Bool \<Rightarrow> if longs = 0 then Some (sz_bool sizes) else None
           | Some TypeSpecifier_Char \<Rightarrow> if longs = 0 then Some (sz_char sizes) else None
           | Some TypeSpecifier_Short \<Rightarrow> if longs = 0 then Some (sz_short sizes) else None
           | Some TypeSpecifier_Float \<Rightarrow> if longs = 0 then Some (sz_float sizes) else None
           | Some TypeSpecifier_Double \<Rightarrow>
               if longs = 0 then Some (sz_double sizes)
               else if longs = 1 then Some (sz_long_double sizes) else None
           | Some TypeSpecifier_Int \<Rightarrow>
               if longs = 1 then Some (sz_long sizes)
               else if longs = 2 then Some (sz_long_long sizes)
               else if longs = 0 then Some (sz_int sizes) else None
           | None \<Rightarrow>
               if longs = 1 then Some (sz_long sizes)
               else if longs = 2 then Some (sz_long_long sizes)
               else if longs = 0 \<and> sign_only then Some (sz_int sizes) else None
           | _ \<Rightarrow> None))"

fun pointer_or_block :: "derived_declarator node \<Rightarrow> bool" where
  "pointer_or_block (Node (DerivedDeclarator_Pointer _) _) \<longleftrightarrow> True"
| "pointer_or_block (Node (DerivedDeclarator_Block _) _) \<longleftrightarrow> True"
| "pointer_or_block _ \<longleftrightarrow> False"

definition size_of_type_name :: "size_of_table \<Rightarrow> type_name \<Rightarrow> nat option" where
  "size_of_type_name sizes name =
     (case type_name_declarator name of
        Some declarator \<Rightarrow>
          if declarator_derived (node declarator) = [] then size_of_specifiers sizes (type_name_specifiers name)
          else if list_all pointer_or_block (declarator_derived (node declarator)) then Some (sz_pointer sizes)
          else None
      | None \<Rightarrow> size_of_specifiers sizes (type_name_specifiers name))"

subsection \<open>Best-effort evaluation\<close>

text \<open>Checked operations: \<open>None\<close> for an overflow; the amount of a shift is checked, its result wraps.\<close>

definition checked :: "int \<Rightarrow> int option" where
  "checked v = (if in_i128 v then Some v else None)"

definition checked_shl :: "int \<Rightarrow> nat \<Rightarrow> int option" where
  "checked_shl v n = (if n < 128 then Some (wrap_i128 (v * 2 ^ n)) else None)"

definition checked_shr :: "int \<Rightarrow> nat \<Rightarrow> int option" where
  "checked_shr v n = (if n < 128 then Some (v div 2 ^ n) else None)"

definition try_u32 :: "int \<Rightarrow> nat option" where
  "try_u32 v = (if 0 \<le> v \<and> v < 2 ^ 32 then Some (nat v) else None)"

definition try_u64 :: "int \<Rightarrow> nat option" where
  "try_u64 v = (if 0 \<le> v \<and> v < 2 ^ 64 then Some (nat v) else None)"

fun radix_of :: "integer_base \<Rightarrow> nat" where
  "radix_of IntegerBase_Decimal = 10"
| "radix_of IntegerBase_Octal = 8"
| "radix_of IntegerBase_Hexadecimal = 16"
| "radix_of IntegerBase_Binary = 2"

definition const_unary :: "unary_operator \<Rightarrow> int \<Rightarrow> int option" where
  "const_unary operator inner =
     (case operator of
        UnaryOperator_Minus \<Rightarrow> checked (- inner)
      | UnaryOperator_Plus \<Rightarrow> Some inner
      | UnaryOperator_Complement \<Rightarrow> Some (NOT inner)
      | UnaryOperator_Negate \<Rightarrow> Some (truth (inner = 0))
      | _ \<Rightarrow> None)"

definition const_binary :: "binary_operator \<Rightarrow> int \<Rightarrow> int \<Rightarrow> int option" where
  "const_binary operator lhs rhs =
     (case operator of
        BinaryOperator_Plus \<Rightarrow> checked (lhs + rhs)
      | BinaryOperator_Minus \<Rightarrow> checked (lhs - rhs)
      | BinaryOperator_Multiply \<Rightarrow> checked (lhs * rhs)
      | BinaryOperator_Divide \<Rightarrow> if rhs \<noteq> 0 then checked (trunc_div lhs rhs) else None
      | BinaryOperator_Modulo \<Rightarrow>
          if rhs \<noteq> 0 \<and> in_i128 (trunc_div lhs rhs) then Some (lhs - trunc_div lhs rhs * rhs) else None
      | BinaryOperator_ShiftLeft \<Rightarrow> Option.bind (try_u32 rhs) (checked_shl lhs)
      | BinaryOperator_ShiftRight \<Rightarrow> Option.bind (try_u32 rhs) (checked_shr lhs)
      | BinaryOperator_BitwiseAnd \<Rightarrow> Some (lhs AND rhs)
      | BinaryOperator_BitwiseOr \<Rightarrow> Some (lhs OR rhs)
      | BinaryOperator_BitwiseXor \<Rightarrow> Some (lhs XOR rhs)
      | BinaryOperator_Equals \<Rightarrow> Some (truth (lhs = rhs))
      | BinaryOperator_NotEquals \<Rightarrow> Some (truth (lhs \<noteq> rhs))
      | BinaryOperator_Less \<Rightarrow> Some (truth (lhs < rhs))
      | BinaryOperator_Greater \<Rightarrow> Some (truth (rhs < lhs))
      | BinaryOperator_LessOrEqual \<Rightarrow> Some (truth (lhs \<le> rhs))
      | BinaryOperator_GreaterOrEqual \<Rightarrow> Some (truth (rhs \<le> lhs))
      | BinaryOperator_LogicalAnd \<Rightarrow> Some (truth (lhs \<noteq> 0 \<and> rhs \<noteq> 0))
      | BinaryOperator_LogicalOr \<Rightarrow> Some (truth (lhs \<noteq> 0 \<or> rhs \<noteq> 0))
      | _ \<Rightarrow> None)"

lemma size_nth_node: "x \<in> set xs \<Longrightarrow> size (node x) < size_list (size_node size) xs"
proof (induction xs)
  case (Cons y ys)
  then show ?case by (cases y) auto
qed simp

function eval_const_expr :: "size_of_table \<Rightarrow> expression \<Rightarrow> int option" where
  "eval_const_expr sizes (Expression_SizeOfTy (Node (SizeOfTy name) s)) =
     map_option int (size_of_type_name sizes (node name))"
| "eval_const_expr sizes (Expression_Constant constant) =
     (case node constant of
        Constant_Integer i \<Rightarrow> parse_i128 (radix_of (c_integer_base i)) (c_integer_number i)
      | _ \<Rightarrow> None)"
| "eval_const_expr sizes (Expression_UnaryOperator (Node (UnaryOperatorExpression operator (Node operand s1)) s2)) =
     Option.bind (eval_const_expr sizes operand) (const_unary (node operator))"
| "eval_const_expr sizes
     (Expression_BinaryOperator (Node (BinaryOperatorExpression operator (Node lhs s1) (Node rhs s2)) s3)) =
     Option.bind (eval_const_expr sizes lhs) (\<lambda>l.
     Option.bind (eval_const_expr sizes rhs) (\<lambda>r. const_binary (node operator) l r))"
| "eval_const_expr sizes
     (Expression_Conditional (Node (ConditionalExpression (Node c s1) (Node t s2) (Node e s3)) s4)) =
     Option.bind (eval_const_expr sizes c) (\<lambda>v.
       if v \<noteq> 0 then eval_const_expr sizes t else eval_const_expr sizes e)"
| "eval_const_expr sizes (Expression_Cast (Node (CastExpression name (Node e s1)) s2)) = eval_const_expr sizes e"
| "eval_const_expr sizes (Expression_Comma parts) =
     (if parts = [] then None else eval_const_expr sizes (node (last parts)))"
| "eval_const_expr sizes (Expression_Identifier x) = None"
| "eval_const_expr sizes (Expression_StringLiteral x1) = None"
| "eval_const_expr sizes (Expression_GenericSelection x2) = None"
| "eval_const_expr sizes (Expression_Member x3) = None"
| "eval_const_expr sizes (Expression_Call x4) = None"
| "eval_const_expr sizes (Expression_CompoundLiteral x5) = None"
| "eval_const_expr sizes (Expression_SizeOfVal x6) = None"
| "eval_const_expr sizes (Expression_AlignOf x7) = None"
| "eval_const_expr sizes (Expression_OffsetOf x8) = None"
| "eval_const_expr sizes (Expression_VaArg x9) = None"
| "eval_const_expr sizes (Expression_Statement x10) = None"
proof goal_cases
  case (1 P x)
  obtain sizes e where x: "x = (sizes, e)" by (cases x)
  show ?case
    using 1 unfolding x
    by (cases e)
      (metis node.exhaust size_of_ty_of.exhaust unary_operator_expression_of.exhaust
        binary_operator_expression_of.exhaust conditional_expression_of.exhaust cast_expression_of.exhaust)+
qed auto
termination
  by (relation "measure (\<lambda>(sizes, e). size e)") (auto intro!: less_SucI size_nth_node)

subsection \<open>Exact evaluation\<close>

text \<open>The value of an exact integer that an \<open>i128\<close> can hold, and \<open>value >> bits\<close> on \<open>u128\<close>.\<close>

definition exact_value :: "exact_integer \<Rightarrow> int option" where
  "exact_value e = (case e of SignedInt v \<Rightarrow> Some v | UnsignedInt v \<Rightarrow> if v < 2 ^ 127 then Some v else None)"

fun is_unsigned :: "exact_integer \<Rightarrow> bool" where
  "is_unsigned (UnsignedInt v) = True"
| "is_unsigned (SignedInt v) = False"

definition shr_u128 :: "bool \<Rightarrow> int \<Rightarrow> nat \<Rightarrow> int outcome" where
  "shr_u128 chk v n =
     (if chk \<and> 128 \<le> n then Panic ArithmeticOverflow else Ok (v div 2 ^ (n mod 128)))"

text \<open>\<open>(-limit..limit).contains(&value)\<close> for \<open>limit = 1 << (bits - 1)\<close>, and \<open>Some(signed(value))\<close> then.\<close>

definition signed_within :: "bool \<Rightarrow> nat \<Rightarrow> int \<Rightarrow> exact_integer option outcome" where
  "signed_within chk bits value =
     (if bits = 0 then Ok None
      else case checked_shl 1 (bits - 1) of
          None \<Rightarrow> Ok None
        | Some limit \<Rightarrow> map_outcome
            (\<lambda>low. if low \<le> value \<and> value < limit then Some (SignedInt value) else None)
            (arith chk (- limit)))"

definition exact_operation :: "bool \<Rightarrow> binary_operator \<Rightarrow> int \<Rightarrow> int \<Rightarrow> nat option \<Rightarrow> int option outcome" where
  "exact_operation chk operator left right amount =
     (case operator of
        BinaryOperator_ShiftLeft \<Rightarrow> Ok (if 0 \<le> left then Option.bind amount (checked_shl left) else None)
      | BinaryOperator_ShiftRight \<Rightarrow>
          (case (if 0 \<le> left then amount else None) of
             None \<Rightarrow> Ok None
           | Some n \<Rightarrow> map_outcome Some (shr_i128 chk left (int n)))
      | BinaryOperator_BitwiseOr \<Rightarrow> Ok (Some (left OR right))
      | BinaryOperator_BitwiseAnd \<Rightarrow> Ok (Some (left AND right))
      | BinaryOperator_BitwiseXor \<Rightarrow> Ok (Some (left XOR right))
      | BinaryOperator_Plus \<Rightarrow> Ok (checked (left + right))
      | BinaryOperator_Minus \<Rightarrow> Ok (checked (left - right))
      | BinaryOperator_Multiply \<Rightarrow> Ok (checked (left * right))
      | _ \<Rightarrow> Ok None)"

definition exact_result :: "bool \<Rightarrow> nat \<Rightarrow> bool \<Rightarrow> int option \<Rightarrow> exact_integer option outcome" where
  "exact_result chk int_bits uns result =
     (case result of
        None \<Rightarrow> Ok None
      | Some value \<Rightarrow>
          if uns then
            (if value < 0 then Ok None
             else map_outcome (\<lambda>high. if high = 0 then Some (UnsignedInt value) else None)
               (shr_u128 chk value int_bits))
          else signed_within chk int_bits value)"

definition eval_exact_binary ::
  "bool \<Rightarrow> binary_operator \<Rightarrow> exact_integer \<Rightarrow> exact_integer \<Rightarrow> nat \<Rightarrow> exact_integer option outcome" where
  "eval_exact_binary chk operator lhs rhs int_bits =
     (case (exact_value lhs, exact_value rhs) of
        (Some left, Some right) \<Rightarrow>
          (let shift = (case try_u32 right of Some n \<Rightarrow> if n < int_bits then Some n else None | None \<Rightarrow> None);
               uns = (if operator = BinaryOperator_ShiftLeft \<or> operator = BinaryOperator_ShiftRight
                 then is_unsigned lhs else is_unsigned lhs \<or> is_unsigned rhs)
           in if uns \<and> (left < 0 \<or> right < 0) then Ok None
              else and_then (exact_operation chk operator left right shift) (exact_result chk int_bits uns))
      | _ \<Rightarrow> Ok None)"

definition exact_constant :: "c_constant \<Rightarrow> exact_integer option" where
  "exact_constant constant =
     (case constant of
        Constant_Integer i \<Rightarrow>
          if integer_suffix_imaginary (c_integer_suffix i) then None
          else
            (case from_str_radix 0 (2 ^ 128) (radix_of (c_integer_base i)) (c_integer_number i) of
               None \<Rightarrow> None
             | Some magnitude \<Rightarrow>
                 if integer_suffix_unsigned (c_integer_suffix i) then Some (UnsignedInt magnitude)
                 else if magnitude < 2 ^ 127 then Some (SignedInt magnitude) else None)
      | Constant_Character t \<Rightarrow>
          if starts_with t [CHR 0x27] \<and> ends_with (drop 1 t) [CHR 0x27] then
            (case butlast (drop 1 t) of
               [c] \<Rightarrow> if byte c < 128 \<and> c \<noteq> CHR 0x5C \<and> c \<noteq> CHR 0x27
                 then Some (SignedInt (int (byte c))) else None
             | _ \<Rightarrow> None)
          else None
      | _ \<Rightarrow> None)"

definition exact_cast :: "bool \<Rightarrow> exact_integer option \<Rightarrow> (nat \<times> bool) option outcome \<Rightarrow> exact_integer option outcome" where
  "exact_cast chk e bounds =
     (case Option.bind e exact_value of
        None \<Rightarrow> Ok None
      | Some value \<Rightarrow>
          and_then bounds (\<lambda>r. case r of
            None \<Rightarrow> Ok None
          | Some (bits, is_signed) \<Rightarrow>
              if is_signed then signed_within chk bits value
              else Ok (if 0 \<le> value \<and> (128 \<le> bits \<or> value div 2 ^ bits = 0)
                then Some (UnsignedInt value) else None)))"

definition exact_unary :: "unary_operator \<Rightarrow> exact_integer \<Rightarrow> exact_integer option" where
  "exact_unary operator value =
     (case operator of
        UnaryOperator_Plus \<Rightarrow> Some value
      | UnaryOperator_Minus \<Rightarrow> map_option SignedInt (Option.bind (as_signed value) (\<lambda>v. checked (- v)))
      | _ \<Rightarrow> None)"

function eval_exact_integer_in_env ::
  "bool \<Rightarrow> (string \<Rightarrow> exact_integer option) \<Rightarrow> size_of_table \<Rightarrow> (type_name \<Rightarrow> (nat \<times> bool) option outcome) \<Rightarrow>
    expression \<Rightarrow> exact_integer option outcome" where
  "eval_exact_integer_in_env chk env sizes cast_range (Expression_Identifier i) =
     Ok (env (c_identifier_name (node i)))"
| "eval_exact_integer_in_env chk env sizes cast_range
     (Expression_BinaryOperator (Node (BinaryOperatorExpression operator (Node lhs s1) (Node rhs s2)) s3)) =
     and_then (eval_exact_integer_in_env chk env sizes cast_range lhs) (\<lambda>l. case l of
       None \<Rightarrow> Ok None
     | Some lv \<Rightarrow>
         and_then (eval_exact_integer_in_env chk env sizes cast_range rhs) (\<lambda>r. case r of
           None \<Rightarrow> Ok None
         | Some rv \<Rightarrow> eval_exact_binary chk (node operator) lv rv (sz_int_bits sizes)))"
| "eval_exact_integer_in_env chk env sizes cast_range (Expression_Constant constant) =
     Ok (exact_constant (node constant))"
| "eval_exact_integer_in_env chk env sizes cast_range
     (Expression_Cast (Node (CastExpression name (Node e s1)) s2)) =
     and_then (eval_exact_integer_in_env chk env sizes cast_range e) (\<lambda>v.
       exact_cast chk v (cast_range (node name)))"
| "eval_exact_integer_in_env chk env sizes cast_range
     (Expression_UnaryOperator (Node (UnaryOperatorExpression operator (Node operand s1)) s2)) =
     map_outcome (\<lambda>v. Option.bind v (exact_unary (node operator)))
       (eval_exact_integer_in_env chk env sizes cast_range operand)"
| "eval_exact_integer_in_env chk env sizes cast_range (Expression_StringLiteral x1) = Ok None"
| "eval_exact_integer_in_env chk env sizes cast_range (Expression_GenericSelection x2) = Ok None"
| "eval_exact_integer_in_env chk env sizes cast_range (Expression_Member x3) = Ok None"
| "eval_exact_integer_in_env chk env sizes cast_range (Expression_Call x4) = Ok None"
| "eval_exact_integer_in_env chk env sizes cast_range (Expression_CompoundLiteral x5) = Ok None"
| "eval_exact_integer_in_env chk env sizes cast_range (Expression_SizeOfTy x6) = Ok None"
| "eval_exact_integer_in_env chk env sizes cast_range (Expression_SizeOfVal x7) = Ok None"
| "eval_exact_integer_in_env chk env sizes cast_range (Expression_AlignOf x8) = Ok None"
| "eval_exact_integer_in_env chk env sizes cast_range (Expression_Conditional x9) = Ok None"
| "eval_exact_integer_in_env chk env sizes cast_range (Expression_Comma x10) = Ok None"
| "eval_exact_integer_in_env chk env sizes cast_range (Expression_OffsetOf x11) = Ok None"
| "eval_exact_integer_in_env chk env sizes cast_range (Expression_VaArg x12) = Ok None"
| "eval_exact_integer_in_env chk env sizes cast_range (Expression_Statement x13) = Ok None"
proof goal_cases
  case (1 P x)
  obtain chk env sizes cast_range e where x: "x = (chk, env, sizes, cast_range, e)" by (cases x)
  show ?case
    using 1 unfolding x
    by (cases e)
      (metis node.exhaust unary_operator_expression_of.exhaust binary_operator_expression_of.exhaust
        cast_expression_of.exhaust)+
qed auto
termination
  by (relation "measure (\<lambda>(chk, env, sizes, cast_range, e). size e)") auto

subsection \<open>What exact evaluation computes\<close>
















text \<open>The exception: a bit that a shift moves out of the 128 is lost, and the rest is taken for the result.\<close>

lemma exact_shift_wraps:
  "eval_exact_binary chk BinaryOperator_ShiftLeft (SignedInt (2 ^ 124 + 1)) (SignedInt 4) 32 =
     Ok (Some (SignedInt 16))"
  by (simp add: eval_exact_binary_def exact_value_def try_u32_def exact_operation_def checked_shl_def
      wrap_i128_def exact_result_def signed_within_def arith_def in_i128_def)

end
