(* ===== verification/Resolve.thy ===== *)
theory Resolve
  imports Evaluate Directive
begin

text \<open>
  Types (\<open>src/extract/types.rs\<close>): what the specifiers and declarators of the syntax tree mean as types of the source
  contract.  A slice of the source text panics if it is out of range or splits a character, so
  everything that quotes the source returns an \<open>outcome\<close>.  The ordered maps of the resolver are only looked
  up here and are functions.
\<close>

subsection \<open>The resolver\<close>

record type_resolver =
  tr_ordinary :: "string \<Rightarrow> declaration_id option"
  tr_tags :: "string \<Rightarrow> declaration_id option"
  tr_anonymous :: "nat \<times> nat \<Rightarrow> declaration_id option"
  tr_pointer_aliases :: "declaration_id set"
  tr_source :: string
  tr_int128 :: bool
  tr_sizes :: size_of_table

record lowered_parameter =
  lp_name :: "string option"
  lp_ty :: c_type
  lp_span :: span
  lp_extensions :: "c_extension node list"

record lowered_function_parts =
  lf_return :: c_type
  lf_parameters :: "lowered_parameter list"
  lf_prototype :: function_prototype

subsection \<open>Quoting the source\<close>

text \<open>\<open>source[a..b]\<close>.\<close>

definition source_slice :: "string \<Rightarrow> nat \<Rightarrow> nat \<Rightarrow> string outcome" where
  "source_slice source a b =
     (if a \<le> b \<and> b \<le> length source \<and> is_char_boundary source a \<and> is_char_boundary source b
      then Ok (Lexer.slice a b source) else Panic SliceOutOfRange)"

definition valid_span :: "span \<Rightarrow> nat \<Rightarrow> bool" where
  "valid_span s len \<longleftrightarrow> \<not> span_is_none s \<and> span_start s \<le> span_end s \<and> span_end s \<le> len"

definition span_text :: "string \<Rightarrow> span \<Rightarrow> string \<Rightarrow> string outcome" where
  "span_text source s fallback =
     (if span_is_none s \<or> span_start s > span_end s \<or> span_end s > length source then Ok fallback
      else map_outcome trim (source_slice source (span_start s) (span_end s)))"

definition resolver_text :: "type_resolver \<Rightarrow> span \<Rightarrow> string \<Rightarrow> string outcome" where
  "resolver_text r s fallback = span_text (tr_source r) s fallback"

definition specifier_span_text :: "type_resolver \<Rightarrow> type_specifier node list \<Rightarrow> string outcome" where
  "specifier_span_text r specifiers =
     (if specifiers = [] then Ok ''invalid C type''
      else resolver_text r
        (Span (Min (set (map (span_start \<circ> node_span) specifiers)))
           (Max (set (map (span_end \<circ> node_span) specifiers)))) ''invalid C type specifier span'')"

subsection \<open>Types with their support\<close>

abbreviation plain_type :: "c_type_kind \<Rightarrow> support_status \<Rightarrow> c_type" where
  "plain_type kind support \<equiv> CType no_qualifiers Unspecified kind support"

definition partial :: "string \<Rightarrow> string \<Rightarrow> support_status" where
  "partial code reason = PartialSupport (DiagnosticCode code) reason"

definition supported :: "c_type_kind \<Rightarrow> c_type" where
  "supported kind = plain_type kind Supported"

definition partially_supported :: "c_type_kind \<Rightarrow> string \<Rightarrow> string \<Rightarrow> c_type" where
  "partially_supported kind code reason = plain_type kind (partial code reason)"

definition unsupported_preserved :: "c_type_kind \<Rightarrow> string \<Rightarrow> string \<Rightarrow> c_type" where
  "unsupported_preserved kind code reason = plain_type kind (UnsupportedSupport (DiagnosticCode code) reason)"

definition unsupported :: "unsupported_type_category \<Rightarrow> string \<Rightarrow> c_type" where
  "unsupported category spelling =
     plain_type (UnsupportedKind category spelling)
       (UnsupportedSupport (DiagnosticCode ''PARC-E1100'') (''unsupported C type: '' @ spelling))"

subsection \<open>Declarators and qualifiers\<close>

fun declarator_name :: "declarator \<Rightarrow> string option" where
  "declarator_name (Declarator (Node (DeclaratorKind_Identifier i) _) _ _) = Some (c_identifier_name (node i))"
| "declarator_name (Declarator (Node (DeclaratorKind_Declarator (Node inner _)) _) _ _) = declarator_name inner"
| "declarator_name (Declarator (Node DeclaratorKind_Abstract _) _ _) = None"

fun declarator_name_span :: "declarator \<Rightarrow> span option" where
  "declarator_name_span (Declarator (Node (DeclaratorKind_Identifier i) _) _ _) = Some (node_span i)"
| "declarator_name_span (Declarator (Node (DeclaratorKind_Declarator (Node inner _)) _) _ _) =
     declarator_name_span inner"
| "declarator_name_span (Declarator (Node DeclaratorKind_Abstract _) _ _) = None"

fun is_function_derived :: "derived_declarator \<Rightarrow> bool" where
  "is_function_derived (DerivedDeclarator_Function _) = True"
| "is_function_derived _ = False"

definition is_function_declarator :: "declarator \<Rightarrow> bool" where
  "is_function_declarator d \<longleftrightarrow> list_ex (\<lambda>x. is_function_derived (node x)) (declarator_derived d)"

type_synonym qualifier_values = "type_qualifiers \<times> nullability \<times> bool"

text \<open>The loop over qualifiers; a nullability that differs from an earlier one is a conflict.\<close>

definition nullability_step :: "nullability \<Rightarrow> qualifier_values \<Rightarrow> qualifier_values" where
  "nullability_step n = (\<lambda>(q, nullability, conflict).
     (q, n, conflict \<or> \<not> (nullability = Unspecified \<or> nullability = n)))"

fun qualifier_step :: "type_qualifier \<Rightarrow> qualifier_values \<Rightarrow> qualifier_values" where
  "qualifier_step TypeQualifier_Const (q, v) = (q\<lparr>is_const := True\<rparr>, v)"
| "qualifier_step TypeQualifier_Volatile (q, v) = (q\<lparr>is_volatile := True\<rparr>, v)"
| "qualifier_step TypeQualifier_Restrict (q, v) = (q\<lparr>is_restrict := True\<rparr>, v)"
| "qualifier_step TypeQualifier_Atomic (q, v) = (q\<lparr>is_atomic := True\<rparr>, v)"
| "qualifier_step TypeQualifier_Nonnull v = nullability_step Nonnull v"
| "qualifier_step TypeQualifier_Nullable v = nullability_step Nullable v"
| "qualifier_step TypeQualifier_NullUnspecified v = nullability_step NullUnspecified v"

definition qualifier_values :: "type_qualifier list \<Rightarrow> qualifier_values" where
  "qualifier_values qs = fold qualifier_step qs (no_qualifiers, Unspecified, False)"

fun declaration_qualifier :: "declaration_specifier \<Rightarrow> type_qualifier option" where
  "declaration_qualifier (DeclarationSpecifier_TypeQualifier q) = Some (node q)"
| "declaration_qualifier _ = None"

fun field_qualifier :: "specifier_qualifier \<Rightarrow> type_qualifier option" where
  "field_qualifier (SpecifierQualifier_TypeQualifier q) = Some (node q)"
| "field_qualifier _ = None"

fun pointer_qualifier_value :: "pointer_qualifier \<Rightarrow> type_qualifier option" where
  "pointer_qualifier_value (PointerQualifier_TypeQualifier q) = Some (node q)"
| "pointer_qualifier_value (PointerQualifier_Extension _) = None"

definition declaration_qualifiers :: "declaration_specifier node list \<Rightarrow> qualifier_values" where
  "declaration_qualifiers specifiers =
     qualifier_values (List.map_filter (declaration_qualifier \<circ> node) specifiers)"

definition field_qualifiers :: "specifier_qualifier node list \<Rightarrow> qualifier_values" where
  "field_qualifiers specifiers = qualifier_values (List.map_filter (field_qualifier \<circ> node) specifiers)"

definition pointer_qualifiers :: "pointer_qualifier node list \<Rightarrow> type_qualifiers \<times> nullability \<times> bool \<times> bool" where
  "pointer_qualifiers qualifiers =
     (case qualifier_values (List.map_filter (pointer_qualifier_value \<circ> node) qualifiers) of
        (q, nullability, conflict) \<Rightarrow>
          (q, nullability, list_ex (\<lambda>x. pointer_qualifier_value (node x) = None) qualifiers, conflict))"

definition pointer :: "c_type \<Rightarrow> type_qualifiers \<times> nullability \<times> bool \<times> bool \<Rightarrow> c_type" where
  "pointer inner = (\<lambda>(qualifiers, nullability, has_extensions, conflict).
     CType qualifiers nullability (Pointer inner)
       (if conflict then UnsupportedSupport (DiagnosticCode ''PARC-E1109'')
          ''pointer has conflicting nullability qualifiers''
        else if has_extensions then partial ''PARC-P1102''
          ''pointer extension qualifiers require explicit downstream review''
        else Supported))"

fun declaration_type_spec :: "declaration_specifier \<Rightarrow> type_specifier node option" where
  "declaration_type_spec (DeclarationSpecifier_TypeSpecifier t) = Some t"
| "declaration_type_spec _ = None"

fun field_type_spec :: "specifier_qualifier \<Rightarrow> type_specifier node option" where
  "field_type_spec (SpecifierQualifier_TypeSpecifier t) = Some t"
| "field_type_spec _ = None"

definition declaration_type_specs :: "declaration_specifier node list \<Rightarrow> type_specifier node list" where
  "declaration_type_specs specifiers = List.map_filter (declaration_type_spec \<circ> node) specifiers"

definition field_type_specs :: "specifier_qualifier node list \<Rightarrow> type_specifier node list" where
  "field_type_specs specifiers = List.map_filter (field_type_spec \<circ> node) specifiers"

subsection \<open>Arrays\<close>

text \<open>An evaluated bound: the bound and its support, for a value that is positive and fits \<open>u64\<close> or not.\<close>

definition bound_value ::
  "(nat \<Rightarrow> array_bound) \<Rightarrow> array_bound \<Rightarrow> string \<Rightarrow> string \<Rightarrow> string \<Rightarrow> int option \<Rightarrow> array_bound \<times> support_status" where
  "bound_value fixed_bound variable spelling overflows negative value =
     (let invalid = (\<lambda>reason. (InvalidBound spelling (DiagnosticCode ''PARC-E1103''),
        UnsupportedSupport (DiagnosticCode ''PARC-E1103'') reason))
      in case value of
        None \<Rightarrow> (variable, Supported)
      | Some v \<Rightarrow>
          if 0 < v then (case try_u64 v of Some n \<Rightarrow> (fixed_bound n, Supported) | None \<Rightarrow> invalid overflows)
          else invalid negative)"

definition array_bound_support ::
  "size_of_table \<Rightarrow> string \<Rightarrow> array_size \<Rightarrow> bool \<Rightarrow> (array_bound \<times> support_status) outcome" where
  "array_bound_support sizes source bound_size parameter_context =
     (case bound_size of
        ArraySize_Unknown \<Rightarrow> Ok (IncompleteBound, Supported)
      | ArraySize_VariableUnknown \<Rightarrow> Ok (VariableBound ''*'', Supported)
      | ArraySize_VariableExpression e \<Rightarrow>
          map_outcome (\<lambda>spelling. bound_value FixedBound (VariableBound spelling) spelling
              ''array bound overflows the schema-v2 element range'' ''array bound must be strictly positive''
              (eval_const_expr sizes (node e)))
            (span_text source (node_span e) ''array bound expression'')
      | ArraySize_StaticExpression e \<Rightarrow>
          if parameter_context then
            map_outcome (\<lambda>spelling. bound_value (\<lambda>n. StaticMinimum (FixedMinimum n))
                (StaticMinimum (VariableMinimum spelling)) spelling
                ''static array minimum overflows the schema-v2 element range''
                ''static array minimum must be strictly positive'' (eval_const_expr sizes (node e)))
              (span_text source (node_span e) ''array bound expression'')
          else
            map_outcome (\<lambda>spelling. (InvalidBound spelling (DiagnosticCode ''PARC-E1105''),
                UnsupportedSupport (DiagnosticCode ''PARC-E1105'')
                  ''static minimum array bound is only valid on a parameter''))
              (span_text source (node_span e) ''static array bound''))"

definition array_type ::
  "size_of_table \<Rightarrow> string \<Rightarrow> c_type \<Rightarrow> array_size \<Rightarrow> type_qualifier node list \<Rightarrow> bool \<Rightarrow> c_type outcome" where
  "array_type sizes source element bound_size qualifiers parameter_context =
     (case qualifier_values (map node qualifiers) of
        (written, nullability, conflict) \<Rightarrow>
          map_outcome (\<lambda>(bound, support).
            plain_type (Array element bound (if parameter_context then written else no_qualifiers))
              (if conflict then UnsupportedSupport (DiagnosticCode ''PARC-E1109'')
                 ''array brackets have conflicting nullability qualifiers''
               else if \<not> parameter_context \<and> qualifiers \<noteq> [] then
                 UnsupportedSupport (DiagnosticCode ''PARC-E1106'')
                   ''array-bracket qualifiers are only valid on a parameter''
               else if nullability = Unspecified then support
               else partial ''PARC-P1101''
                 ''array-bracket nullability cannot be represented by the source contract''))
            (array_bound_support sizes source bound_size parameter_context))"

subsection \<open>Attributes\<close>

definition to_ascii_lowercase :: "string \<Rightarrow> string" where
  "to_ascii_lowercase s = map (\<lambda>c. if is_upper c then char_of (byte c + 32) else c) s"

text \<open>
  \<open>decode_simple_c_string\<close>.  All bytes that are looked at are ASCII, so the loop over characters is a loop over
  bytes.
\<close>

fun decode_body :: "string \<Rightarrow> string option" where
  "decode_body [] = Some []"
| "decode_body (c # s) =
     (if c \<noteq> CHR 0x5C then (if c = CHR 0x00 then None else map_option (\<lambda>r. c # r) (decode_body s))
      else case s of
          [] \<Rightarrow> None
        | e # s' \<Rightarrow> if e \<in> {CHR 0x5C, CHR 0x22, CHR 0x27, CHR ''?''} then map_option (\<lambda>r. e # r) (decode_body s')
            else None)"

fun decode_simple_c_string :: "string list \<Rightarrow> string option" where
  "decode_simple_c_string [] = Some []"
| "decode_simple_c_string (part # parts) =
     (if starts_with part [CHR 0x22] \<and> ends_with (drop 1 part) [CHR 0x22] then
        Option.bind (decode_body (butlast (drop 1 part))) (\<lambda>d.
          map_option (\<lambda>r. d @ r) (decode_simple_c_string parts))
      else None)"

definition convention_table :: "(string \<times> calling_convention) list" where
  "convention_table =
     [(''cdecl'', Cdecl), (''__cdecl'', Cdecl), (''stdcall'', Stdcall), (''__stdcall'', Stdcall),
      (''fastcall'', Fastcall), (''__fastcall'', Fastcall), (''vectorcall'', Vectorcall),
      (''__vectorcall'', Vectorcall), (''thiscall'', Thiscall), (''__thiscall'', Thiscall),
      (''sysv_abi'', SysV64), (''ms_abi'', Win64), (''aapcs'', Aapcs)]"

text \<open>\<open>Result<Option<CallingConvention>, ()>\<close>.\<close>

definition modeled_calling_convention :: "c_attribute \<Rightarrow> unit + calling_convention option" where
  "modeled_calling_convention attribute =
     (let name = to_ascii_lowercase (trim (node (c_attribute_name attribute)));
          arguments = c_attribute_arguments attribute
      in if name = ''pcs'' then
           (case arguments of
              [Node (Expression_StringLiteral literal) _] \<Rightarrow>
                if decode_simple_c_string (node literal) = Some ''aapcs'' then Inr (Some Aapcs) else Inl ()
            | _ \<Rightarrow> Inl ())
         else
           (let convention = map_of convention_table name
            in if convention \<noteq> None \<and> arguments \<noteq> [] then Inl () else Inr convention))"

text \<open>
  The attributes of a declarator and of those it contains: what they say about the calling convention.  \<open>None\<close> stands for
  a conflict; the second component collects the spellings.
\<close>

fun convention_step ::
  "c_extension node list \<Rightarrow> calling_convention option \<Rightarrow> string list \<Rightarrow>
    calling_convention option option \<times> string list" where
  "convention_step [] found spellings = (Some found, spellings)"
| "convention_step (Node (Extension_Attribute attribute) _ # rest) found spellings =
     (let spellings' = spellings @ [node (c_attribute_name attribute)]
      in case modeled_calling_convention attribute of
           Inl _ \<Rightarrow> (None, spellings')
         | Inr None \<Rightarrow> convention_step rest found spellings
         | Inr (Some convention) \<Rightarrow>
             if found \<noteq> None \<and> found \<noteq> Some convention then (None, spellings')
             else convention_step rest (Some convention) spellings')"
| "convention_step (_ # rest) found spellings = convention_step rest found spellings"

fun convention_visit ::
  "declarator \<Rightarrow> calling_convention option \<Rightarrow> string list \<Rightarrow> calling_convention option option \<times> string list" where
  "convention_visit (Declarator (Node (DeclaratorKind_Declarator (Node inner _)) _) _ extensions) found spellings =
     (case convention_step extensions found spellings of
        (Some found', spellings') \<Rightarrow> convention_visit inner found' spellings'
      | stopped \<Rightarrow> stopped)"
| "convention_visit (Declarator _ _ extensions) found spellings = convention_step extensions found spellings"

text \<open>\<open>strings.join(\" \")\<close>.\<close>

fun join_space :: "string list \<Rightarrow> string" where
  "join_space [] = []"
| "join_space [w] = w"
| "join_space (w # ws) = w @ CHR '' '' # join_space ws"

definition declarator_calling_convention :: "declarator \<Rightarrow> calling_convention" where
  "declarator_calling_convention d =
     (case convention_visit d None [] of
        (None, spellings) \<Rightarrow> UnsupportedConvention (join_space spellings)
      | (Some None, _) \<Rightarrow> CConv
      | (Some (Some convention), _) \<Rightarrow> convention)"

text \<open>The extensions of a declaration: of its specifiers, its declarator, and the pointers in that.\<close>

fun declaration_extension :: "declaration_specifier \<Rightarrow> c_extension node list" where
  "declaration_extension (DeclarationSpecifier_Extension es) = es"
| "declaration_extension _ = []"

fun field_extension :: "specifier_qualifier \<Rightarrow> c_extension node list" where
  "field_extension (SpecifierQualifier_Extension es) = es"
| "field_extension _ = []"

fun pointer_extension :: "pointer_qualifier \<Rightarrow> c_extension node list" where
  "pointer_extension (PointerQualifier_Extension es) = es"
| "pointer_extension (PointerQualifier_TypeQualifier _) = []"

fun derived_extensions :: "derived_declarator \<Rightarrow> c_extension node list" where
  "derived_extensions (DerivedDeclarator_Pointer qs) = concat (map (pointer_extension \<circ> node) qs)"
| "derived_extensions (DerivedDeclarator_Block qs) = concat (map (pointer_extension \<circ> node) qs)"
| "derived_extensions _ = []"

fun collect_declarator_extensions :: "declarator \<Rightarrow> c_extension node list" where
  "collect_declarator_extensions (Declarator (Node (DeclaratorKind_Declarator (Node inner _)) _) derived extensions) =
     extensions @ concat (map (derived_extensions \<circ> node) derived) @ collect_declarator_extensions inner"
| "collect_declarator_extensions (Declarator _ derived extensions) =
     extensions @ concat (map (derived_extensions \<circ> node) derived)"

definition declaration_extensions :: "declaration_specifier node list \<Rightarrow> declarator \<Rightarrow> c_extension node list" where
  "declaration_extensions specifiers d =
     concat (map (declaration_extension \<circ> node) specifiers) @ collect_declarator_extensions d"

definition field_extensions :: "specifier_qualifier node list \<Rightarrow> declarator option \<Rightarrow> c_extension node list" where
  "field_extensions specifiers d =
     concat (map (field_extension \<circ> node) specifiers) @
     (case d of None \<Rightarrow> [] | Some x \<Rightarrow> collect_declarator_extensions x)"

subsection \<open>Scalars\<close>

definition count_specs :: "type_specifier node list \<Rightarrow> (type_specifier \<Rightarrow> bool) \<Rightarrow> nat" where
  "count_specs specs needle = length (filter (\<lambda>s. needle (node s)) specs)"

text \<open>The type that the numbers of each specifier stand for, \<open>None\<close> for an invalid combination.\<close>

definition scalar_kind :: "type_specifier node list \<Rightarrow> c_type_kind option" where
  "scalar_kind specs =
     (let count = count_specs specs;
          voids = count (\<lambda>t. t = TypeSpecifier_Void); bools = count (\<lambda>t. t = TypeSpecifier_Bool);
          chars = count (\<lambda>t. t = TypeSpecifier_Char); shorts = count (\<lambda>t. t = TypeSpecifier_Short);
          ints = count (\<lambda>t. t = TypeSpecifier_Int); longs = count (\<lambda>t. t = TypeSpecifier_Long);
          floats = count (\<lambda>t. t = TypeSpecifier_Float); doubles = count (\<lambda>t. t = TypeSpecifier_Double);
          signeds = count (\<lambda>t. t = TypeSpecifier_Signed); unsigneds = count (\<lambda>t. t = TypeSpecifier_Unsigned);
          complexes = count (\<lambda>t. t = TypeSpecifier_Complex);
          sign = (if unsigneds = 1 then Unsigned else Signed);
          total = length specs
      in if voids > 1 \<or> bools > 1 \<or> chars > 1 \<or> shorts > 1 \<or> ints > 1 \<or> longs > 2 \<or> floats > 1 \<or>
            doubles > 1 \<or> signeds > 1 \<or> unsigneds > 1 \<or> complexes > 1 \<or> (signeds > 0 \<and> unsigneds > 0)
         then None
         else if voids = 1 \<and> total = 1 then Some Void
         else if bools = 1 \<and> total = 1 then Some Bool
         else if floats = 1 \<and> total = 1 + complexes then
           Some ((if complexes = 1 then Complex else Floating) Contract.Float)
         else if doubles = 1 \<and> longs \<le> 1 \<and> total = 1 + longs + complexes then
           Some ((if complexes = 1 then Complex else Floating) (if longs = 1 then LongDouble else Double))
         else if complexes = 1 \<and> total = 1 then Some (Complex Double)
         else if chars = 1 \<and> total = 1 + signeds + unsigneds then
           Some (Contract.Integer (CharInt (if unsigneds = 1 then UnsignedChar
             else if signeds = 1 then SignedChar else PlainChar)))
         else if shorts = 1 \<and> longs = 0 \<and> total = shorts + ints + signeds + unsigneds \<and> ints \<le> 1 then
           Some (Contract.Integer (ShortInt sign))
         else if longs = 1 \<and> shorts = 0 \<and> total = longs + ints + signeds + unsigneds \<and> ints \<le> 1 then
           Some (Contract.Integer (LongInt sign))
         else if longs = 2 \<and> shorts = 0 \<and> total = longs + ints + signeds + unsigneds \<and> ints \<le> 1 then
           Some (Contract.Integer (LongLongInt sign))
         else if total = ints + signeds + unsigneds \<and> ints \<le> 1 \<and> 0 < ints + signeds + unsigneds then
           Some (Contract.Integer (IntInt sign))
         else None)"

definition standard_scalar :: "type_resolver \<Rightarrow> type_specifier node list \<Rightarrow> c_type outcome" where
  "standard_scalar r specs =
     (case scalar_kind specs of
        Some kind \<Rightarrow> Ok (supported kind)
      | None \<Rightarrow> map_outcome (unsupported InvalidSpecifierCombination) (specifier_span_text r specs))"

definition tag_ref :: "type_resolver \<Rightarrow> c_identifier node option \<Rightarrow> span \<Rightarrow> bool \<Rightarrow> c_type" where
  "tag_ref r identifier s is_record =
     (let name = map_option (c_identifier_name \<circ> node) identifier
      in case (case name of Some n \<Rightarrow> tr_tags r n | None \<Rightarrow> tr_anonymous r (span_start s, span_end s)) of
           Some i \<Rightarrow> supported (if is_record then RecordRef i else EnumRef i)
         | None \<Rightarrow> unsupported OtherCategory
             (case name of None \<Rightarrow> ''unresolved anonymous tag'' | Some n \<Rightarrow> ''unresolved tag '' @ n))"

fun is_special :: "type_specifier \<Rightarrow> bool" where
  "is_special (TypeSpecifier_Atomic _) = True"
| "is_special (TypeSpecifier_Struct _) = True"
| "is_special (TypeSpecifier_Enum _) = True"
| "is_special (TypeSpecifier_TypedefName _) = True"
| "is_special (TypeSpecifier_TypeOf _) = True"
| "is_special (TypeSpecifier_TS18661Float _) = True"
| "is_special TypeSpecifier_Int128 = True"
| "is_special TypeSpecifier_Float128 = True"
| "is_special (TypeSpecifier_BitInt _) = True"
| "is_special _ = False"

fun ts18661_contract_format :: "ts18661_float_format \<Rightarrow> ts18661_format" where
  "ts18661_contract_format TS18661FloatFormat_BinaryInterchange = BinaryInterchange"
| "ts18661_contract_format TS18661FloatFormat_BinaryExtended = BinaryExtended"
| "ts18661_contract_format TS18661FloatFormat_DecimalInterchange = DecimalInterchange"
| "ts18661_contract_format TS18661FloatFormat_DecimalExtended = DecimalExtended"

definition sign_of_specs :: "type_specifier node list \<Rightarrow> signedness" where
  "sign_of_specs specs =
     (if list_ex (\<lambda>s. node s = TypeSpecifier_Unsigned) specs then Unsigned else Signed)"

definition ts18661_type :: "type_resolver \<Rightarrow> span \<Rightarrow> ts18661_float_type \<Rightarrow> c_type outcome" where
  "ts18661_type r s t =
     (if ts18661_float_type_width t < 2 ^ 16 then
        Ok (partially_supported
          (Floating (Ts18661 (ts18661_contract_format (ts18661_float_type_format t)) (ts18661_float_type_width t)))
          ''PARC-P1108'' ''target ABI layout for TS 18661 floating types is not represented'')
      else map_outcome (unsupported OtherCategory) (resolver_text r s ''TS 18661 floating type''))"

definition bit_int_type :: "type_resolver \<Rightarrow> type_specifier node list \<Rightarrow> expression node \<Rightarrow> c_type outcome" where
  "bit_int_type r specs e =
     (let spelled = resolver_text r (node_span e) ''_BitInt width expression'';
          typed = (\<lambda>width. partially_supported (Contract.Integer (BitInt (sign_of_specs specs) width))
            ''PARC-P1107'' ''target ABI layout for _BitInt is not represented'')
      in case eval_const_expr (tr_sizes r) (node e) of
           Some v \<Rightarrow>
             if 0 < v then
               (case try_u64 v of
                  Some bits \<Rightarrow> Ok (typed (KnownWidth bits))
                | None \<Rightarrow> map_outcome (unsupported OtherCategory) spelled)
             else map_outcome (\<lambda>t. typed (WidthExpression t)) spelled
         | None \<Rightarrow> map_outcome (\<lambda>t. typed (WidthExpression t)) spelled)"

definition int128_type :: "type_resolver \<Rightarrow> type_specifier node list \<Rightarrow> c_type" where
  "int128_type r specs =
     (let kind = Contract.Integer (Int128Int (sign_of_specs specs))
      in if tr_int128 r then supported kind
         else unsupported_preserved kind ''PARC-E1108'' ''target data model does not define an Int128 layout'')"

text \<open>The checks that \<open>_Atomic(type)\<close> makes of its type.\<close>

fun atomic_refused :: "c_type \<Rightarrow> bool" where
  "atomic_refused (CType q nullability kind _) \<longleftrightarrow>
     q \<noteq> no_qualifiers \<or> nullability \<noteq> Unspecified \<or>
     (case kind of Array _ _ _ \<Rightarrow> True | Function _ \<Rightarrow> True | _ \<Rightarrow> False)"

fun map_qualifiers :: "(type_qualifiers \<Rightarrow> type_qualifiers) \<Rightarrow> c_type \<Rightarrow> c_type" where
  "map_qualifiers f (CType q nullability kind support) = CType (f q) nullability kind support"

definition atomic_type :: "type_resolver \<Rightarrow> span \<Rightarrow> c_type \<Rightarrow> c_type outcome" where
  "atomic_type r s ty =
     (if atomic_refused ty then
        map_outcome (unsupported InvalidSpecifierCombination)
          (resolver_text r s ''invalid _Atomic type specifier'')
      else Ok (map_qualifiers (\<lambda>q. q\<lparr>is_atomic := True\<rparr>) ty))"

text \<open>The end of \<open>finish_type\<close>: \<open>restrict\<close> and nullability belong to pointers.\<close>

definition effectively_pointer :: "declaration_id set \<Rightarrow> c_type \<Rightarrow> bool" where
  "effectively_pointer aliases ty \<longleftrightarrow>
     (case ty_kind ty of Pointer _ \<Rightarrow> True | AliasRef i \<Rightarrow> i \<in> aliases | _ \<Rightarrow> False)"

definition add_plain_qualifiers :: "type_qualifiers \<Rightarrow> c_type \<Rightarrow> c_type" where
  "add_plain_qualifiers q ty = map_qualifiers (\<lambda>p.
     p\<lparr>is_const := is_const p \<or> is_const q, is_volatile := is_volatile p \<or> is_volatile q,
       is_atomic := is_atomic p \<or> is_atomic q\<rparr>) ty"

definition add_pointer_qualifiers :: "type_resolver \<Rightarrow> type_qualifiers \<Rightarrow> nullability \<Rightarrow> c_type \<Rightarrow> c_type" where
  "add_pointer_qualifiers r q nullability ty =
     (if is_restrict q \<or> nullability \<noteq> Unspecified then
        (if effectively_pointer (tr_pointer_aliases r) ty then
           (case ty of CType p _ kind support \<Rightarrow>
              CType (p\<lparr>is_restrict := is_restrict p \<or> is_restrict q\<rparr>) nullability kind support)
         else unsupported InvalidSpecifierCombination ''non-pointer restrict/nullability qualifier'')
      else ty)"

subsection \<open>Types\<close>

text \<open>A single unnamed parameter of type \<open>void\<close> stands for none.\<close>

definition only_void :: "lowered_parameter list \<Rightarrow> bool" where
  "only_void ps \<longleftrightarrow> (case ps of [p] \<Rightarrow> lp_name p = None \<and> ty_kind (lp_ty p) = Void | _ \<Rightarrow> False)"

definition prototype_of :: "function_declarator \<Rightarrow> function_prototype" where
  "prototype_of f =
     (if function_declarator_parameters f = [] then UnspecifiedParameters
      else Prototyped (function_declarator_ellipsis f = Ellipsis_Some))"

definition function_type :: "calling_convention \<Rightarrow> c_type \<Rightarrow> function_declarator \<Rightarrow> lowered_parameter list \<Rightarrow> c_type" where
  "function_type convention ty f ps =
     supported (Function (CFunctionType ty
       (map (\<lambda>p. CFunctionParameter (lp_name p) (lp_ty p)) (if only_void ps then [] else ps))
       (prototype_of f) convention))"

definition lowered_of :: "parameter_declaration node \<Rightarrow> c_type \<Rightarrow> lowered_parameter" where
  "lowered_of p ty =
     (let d = map_option node (parameter_declaration_declarator (node p));
          specifiers = parameter_declaration_specifiers (node p)
      in \<lparr>lp_name = Option.bind d declarator_name, lp_ty = ty, lp_span = node_span p,
          lp_extensions = (case d of
              None \<Rightarrow> concat (map (declaration_extension \<circ> node) specifiers)
            | Some x \<Rightarrow> declaration_extensions specifiers x) @ parameter_declaration_extensions (node p)\<rparr>)"

text \<open>The pointers of a declarator apply first, then what is written after the declarator.\<close>

fun apply_pointers :: "derived_declarator node list \<Rightarrow> c_type \<Rightarrow> c_type" where
  "apply_pointers [] ty = ty"
| "apply_pointers (Node (DerivedDeclarator_Pointer qs) _ # ds) ty =
     apply_pointers ds (pointer ty (pointer_qualifiers qs))"
| "apply_pointers (_ # ds) ty = apply_pointers ds ty"

text \<open>The sizes that decrease.\<close>

definition specs_size :: "type_specifier node list \<Rightarrow> nat" where
  "specs_size specs = sum_list (map (\<lambda>s. Suc (size (node s))) specs)"

lemma specs_size_simps [simp]:
  "specs_size [] = 0" "specs_size (s # specs) = Suc (size (node s) + specs_size specs)"
  by (simp_all add: specs_size_def)

lemma size_node_Suc: "size_node f n = Suc (f (node n))"
  by (cases n) simp

lemma specs_size_declaration:
  "specs_size (declaration_type_specs specifiers) \<le>
     size_list (size_node (size_declaration_specifier_of size size size)) specifiers"
proof (induction specifiers)
  case (Cons s specifiers)
  then show ?case
    by (cases "node s") (auto simp: declaration_type_specs_def List.map_filter_simps size_node_Suc)
qed (simp add: declaration_type_specs_def List.map_filter_simps)

lemma specs_size_field:
  "specs_size (field_type_specs specifiers) \<le>
     size_list (size_node (size_specifier_qualifier_of size size)) specifiers"
proof (induction specifiers)
  case (Cons s specifiers)
  then show ?case
    by (cases "node s") (auto simp: field_type_specs_def List.map_filter_simps size_node_Suc)
qed (simp add: field_type_specs_def List.map_filter_simps)

definition declarator_size :: "declarator option \<Rightarrow> nat" where
  "declarator_size d = (case d of None \<Rightarrow> 0 | Some x \<Rightarrow> size x)"

text \<open>Terms shrink from type to type, and steps within one count down.\<close>

definition derived_size :: "derived_declarator node list \<Rightarrow> nat" where
  "derived_size = size_list (size_node (size_derived_declarator_of size size size))"

definition parameters_size :: "parameter_declaration node list \<Rightarrow> nat" where
  "parameters_size = size_list (size_node (size_parameter_declaration_of size size size))"

lemma declarator_size_option: "declarator_size (map_option node d) \<le> size_option (size_node size) d"
  by (cases d) (simp_all add: declarator_size_def size_node_Suc)

function (sequential)
  finish_type :: "type_resolver \<Rightarrow> type_specifier node list \<Rightarrow> declarator option \<Rightarrow> qualifier_values \<Rightarrow> bool \<Rightarrow>
    c_type outcome" and
  base_type :: "type_resolver \<Rightarrow> type_specifier node list \<Rightarrow> c_type outcome" and
  base_loop :: "type_resolver \<Rightarrow> type_specifier node list \<Rightarrow> type_specifier node list \<Rightarrow> c_type outcome" and
  apply_derived :: "type_resolver \<Rightarrow> c_type \<Rightarrow> declarator \<Rightarrow> bool \<Rightarrow> c_type outcome" and
  derived_loop :: "type_resolver \<Rightarrow> calling_convention \<Rightarrow> c_type \<Rightarrow> derived_declarator node list \<Rightarrow> bool \<Rightarrow>
    (c_type + c_type \<times> bool) outcome" and
  lower_parameters :: "type_resolver \<Rightarrow> parameter_declaration node list \<Rightarrow> lowered_parameter list outcome"
where
  "finish_type r specs declarator (qualifiers, nullability, conflict) parameter_array_allowed =
     (if conflict then Ok (unsupported InvalidSpecifierCombination ''conflicting nullability qualifiers'')
      else and_then (base_type r specs) (\<lambda>base.
        map_outcome (add_pointer_qualifiers r qualifiers nullability)
          (case declarator of
             None \<Rightarrow> Ok (add_plain_qualifiers qualifiers base)
           | Some d \<Rightarrow> apply_derived r (add_plain_qualifiers qualifiers base) d parameter_array_allowed)))"
| "base_type r specs =
     (if specs = [] then Ok (unsupported InvalidSpecifierCombination ''missing C type specifier'')
      else
        let special = count_specs specs is_special
        in if special > 1 \<or> special = 1 \<and> length specs > 2
           then map_outcome (unsupported InvalidSpecifierCombination) (specifier_span_text r specs)
           else base_loop r specs specs)"
| "base_loop r specs (Node (TypeSpecifier_Struct s) p # rest) =
     Ok (tag_ref r (struct_type_identifier (node s)) (node_span s) True)"
| "base_loop r specs (Node (TypeSpecifier_Enum e) p # rest) =
     Ok (tag_ref r (enum_type_identifier (node e)) (node_span e) False)"
| "base_loop r specs (Node (TypeSpecifier_TypedefName i) p # rest) =
     (case tr_ordinary r (c_identifier_name (node i)) of
        Some alias \<Rightarrow> Ok (supported (AliasRef alias))
      | None \<Rightarrow> Ok (unsupported OtherCategory (''unresolved typedef '' @ c_identifier_name (node i))))"
| "base_loop r specs (Node (TypeSpecifier_TypeOf t) p # rest) =
     map_outcome (unsupported Typeof) (resolver_text r p ''typeof'')"
| "base_loop r specs (Node (TypeSpecifier_Atomic (Node (TypeName specifiers declarator) q)) p # rest) =
     and_then (finish_type r (field_type_specs specifiers) (map_option node declarator)
         (field_qualifiers specifiers) False) (atomic_type r p)"
| "base_loop r specs (Node (TypeSpecifier_TS18661Float t) p # rest) = ts18661_type r p t"
| "base_loop r specs (Node TypeSpecifier_Int128 p # rest) = Ok (int128_type r specs)"
| "base_loop r specs (Node TypeSpecifier_Float128 p # rest) =
     Ok (partially_supported (Floating Float128) ''PARC-P1108''
       ''target ABI layout for Float128 is not represented'')"
| "base_loop r specs (Node (TypeSpecifier_BitInt e) p # rest) = bit_int_type r specs e"
| "base_loop r specs (_ # rest) = base_loop r specs rest"
| "base_loop r specs [] = standard_scalar r specs"
| "apply_derived r ty (Declarator kind derived extensions) parameter_array_allowed =
     and_then (derived_loop r (declarator_calling_convention (Declarator kind derived extensions))
         (apply_pointers derived ty) derived parameter_array_allowed)
       (\<lambda>result. case result of
          Inl refused \<Rightarrow> Ok refused
        | Inr (ty', allowed) \<Rightarrow>
            (case kind of
               Node (DeclaratorKind_Declarator (Node inner _)) _ \<Rightarrow> apply_derived r ty' inner allowed
             | _ \<Rightarrow> Ok ty'))"
| "derived_loop r convention ty [] allowed = Ok (Inr (ty, allowed))"
| "derived_loop r convention ty (Node (DerivedDeclarator_Pointer qs) p # ds) allowed =
     derived_loop r convention ty ds allowed"
| "derived_loop r convention ty (Node (DerivedDeclarator_Array a) p # ds) allowed =
     and_then (array_type (tr_sizes r) (tr_source r) ty (array_declarator_size (node a))
         (array_declarator_qualifiers (node a)) allowed) (\<lambda>ty'.
       derived_loop r convention ty' ds False)"
| "derived_loop r convention ty (Node (DerivedDeclarator_Function (Node (FunctionDeclarator ps dots) q)) p # ds) allowed =
     and_then (lower_parameters r ps) (\<lambda>lowered.
       derived_loop r convention (function_type convention ty (FunctionDeclarator ps dots) lowered) ds allowed)"
| "derived_loop r convention ty (Node (DerivedDeclarator_KRFunction ids) p # ds) allowed =
     Ok (Inl (unsupported OtherCategory ''K&R function declarator''))"
| "derived_loop r convention ty (Node (DerivedDeclarator_Block qs) p # ds) allowed =
     Ok (Inl (unsupported BlockPointer ''block pointer declarator''))"
| "lower_parameters r [] = Ok []"
| "lower_parameters r (Node (ParameterDeclaration specifiers declarator extensions) p # ps) =
     and_then (finish_type r (declaration_type_specs specifiers) (map_option node declarator)
         (declaration_qualifiers specifiers) True) (\<lambda>ty.
       map_outcome (\<lambda>rest. lowered_of (Node (ParameterDeclaration specifiers declarator extensions) p) ty # rest)
         (lower_parameters r ps))"
  by pat_completeness auto

termination
proof (relation "measure (\<lambda>x. case x of
    Inl (Inl (r, specs, d, q, a)) \<Rightarrow> 3 * (specs_size specs + declarator_size d) + 3
  | Inl (Inr (Inl (r, specs))) \<Rightarrow> 3 * specs_size specs + 2
  | Inl (Inr (Inr (r, specs, rest))) \<Rightarrow> 3 * specs_size rest + 1
  | Inr (Inl (r, ty, d, a)) \<Rightarrow> 3 * size d + 1
  | Inr (Inr (Inl (r, c, ty, ds, a))) \<Rightarrow> 3 * derived_size ds
  | Inr (Inr (Inr (r, ps))) \<Rightarrow> 3 * parameters_size ps)", goal_cases)
  case (5 r specs specifiers declarator q p rest)
  show ?case
    using specs_size_field [of specifiers] declarator_size_option [of declarator] by simp
next
  case (23 r specifiers declarator extensions p ps)
  show ?case
    using specs_size_declaration [of specifiers] declarator_size_option [of declarator]
    by (simp add: parameters_size_def)
qed (auto simp: declarator_size_def derived_size_def parameters_size_def)

text \<open>The type of a declaration, a field and a function.\<close>

definition declaration_type :: "type_resolver \<Rightarrow> declaration_specifier node list \<Rightarrow> declarator option \<Rightarrow> c_type outcome" where
  "declaration_type r specifiers d =
     finish_type r (declaration_type_specs specifiers) d (declaration_qualifiers specifiers) False"

definition field_type :: "type_resolver \<Rightarrow> specifier_qualifier node list \<Rightarrow> declarator option \<Rightarrow> c_type outcome" where
  "field_type r specifiers d =
     finish_type r (field_type_specs specifiers) d (field_qualifiers specifiers) False"

text \<open>
  A function: the derived declarators in order, each applied to the return type so far; \<open>Inl\<close> stands for the
  early return of \<open>None\<close>.
\<close>

type_synonym parts_state = "c_type \<times> lowered_parameter list option \<times> function_prototype"

fun parts_loop :: "type_resolver \<Rightarrow> derived_declarator node list \<Rightarrow> parts_state \<Rightarrow> (unit + parts_state) outcome" where
  "parts_loop r [] st = Ok (Inr st)"
| "parts_loop r (d # ds) (ty, parameters, prototype) =
     (case node d of
        DerivedDeclarator_Pointer qs \<Rightarrow> parts_loop r ds (pointer ty (pointer_qualifiers qs), parameters, prototype)
      | DerivedDeclarator_Array a \<Rightarrow>
          and_then (array_type (tr_sizes r) (tr_source r) ty (array_declarator_size (node a))
            (array_declarator_qualifiers (node a)) False) (\<lambda>ty'. parts_loop r ds (ty', parameters, prototype))
      | DerivedDeclarator_Function f \<Rightarrow>
          and_then (lower_parameters r (function_declarator_parameters (node f))) (\<lambda>lowered.
            parts_loop r ds (ty, Some lowered, prototype_of (node f)))
      | _ \<Rightarrow> Ok (Inl ()))"

definition function_parts ::
  "type_resolver \<Rightarrow> declaration_specifier node list \<Rightarrow> declarator \<Rightarrow> lowered_function_parts option outcome" where
  "function_parts r specifiers d =
     and_then (declaration_type r specifiers None) (\<lambda>return_type.
     map_outcome (\<lambda>result. case result of
         Inr (ty, Some parameters, prototype) \<Rightarrow>
           Some (if only_void parameters
             then \<lparr>lf_return = ty, lf_parameters = [], lf_prototype = Prototyped False\<rparr>
             else \<lparr>lf_return = ty, lf_parameters = parameters, lf_prototype = prototype\<rparr>)
       | _ \<Rightarrow> None)
       (parts_loop r (declarator_derived d) (return_type, None, UnspecifiedParameters)))"

end
