(* ===== verification/Extract.thy ===== *)
theory Extract
  imports Resolve
begin

text \<open>
  From the syntax tree to source declarations (\<open>src/extract/mod.rs\<close>).  A first pass over the unit gives every name and tag
  its identifier (\<open>index_*\<close>), a second lowers the declarations into drafts (\<open>lower_*\<close>), and \<open>finish\<close> turns drafts
  into declarations and diagnostics.  The \<open>&mut self\<close> methods pass an extractor on.  Ordered maps that are only looked up are functions;
  the two that are iterated, metadata and drafts, are association lists, and an iteration goes in the order of the
  keys.  The context holds, beside what the code has in it, the parameters of the model: BLAKE3, Unicode NFC, and whether
  overflow checks are compiled in.
\<close>

subsection \<open>State\<close>

record extraction_context =
  cx_hash :: hash
  cx_nfc :: "string \<Rightarrow> string"
  cx_checks :: bool
  cx_source :: string
  cx_file :: file_id
  cx_target :: target_fingerprint
  cx_int128 :: bool
  cx_sizes :: size_of_table
  cx_visibility :: visibility

record declaration_meta =
  meta_identity :: declaration_identity
  meta_name :: "source_name option"
  meta_linkage :: linkage

record declaration_draft =
  dr_meta :: declaration_meta
  dr_visibility :: visibility
  dr_occurrences :: "declaration_occurrence list"
  dr_support :: support_status
  dr_kind :: "source_declaration_kind option"

datatype redeclaration_action = Keep | Replace | Conflict

record extractor =
  ex_ordinary :: "string \<Rightarrow> declaration_id option"
  ex_tags :: "string \<Rightarrow> declaration_id option"
  ex_anonymous :: "nat \<times> nat \<Rightarrow> declaration_id option"
  ex_aliases :: "declaration_id set"
  ex_metadata :: "(declaration_id \<times> declaration_meta) list"
  ex_drafts :: "(declaration_id \<times> declaration_draft) list"
  ex_anonymous_ordinals :: "string list \<Rightarrow> nat"
  ex_occurrence_ordinals :: "declaration_id \<times> string list \<Rightarrow> nat"
  ex_diagnostics :: "source_diagnostic list"

record extraction_output =
  out_declarations :: "source_declaration list"
  out_diagnostics :: "source_diagnostic list"

definition extractor_new :: extractor where
  "extractor_new =
     \<lparr>ex_ordinary = (\<lambda>_. None), ex_tags = (\<lambda>_. None), ex_anonymous = (\<lambda>_. None), ex_aliases = {},
      ex_metadata = [], ex_drafts = [], ex_anonymous_ordinals = (\<lambda>_. 0), ex_occurrence_ordinals = (\<lambda>_. 0),
      ex_diagnostics = []\<rparr>"

subsection \<open>Source positions and diagnostics\<close>

definition ex_range :: "extraction_context \<Rightarrow> span \<Rightarrow> source_range option" where
  "ex_range c s =
     (if span_is_none s \<or> span_start s > span_end s \<or> span_end s > length (cx_source c) then None
      else Some (SourceRange (cx_file c) (span_start s) (span_end s)))"

definition ex_text :: "extraction_context \<Rightarrow> span \<Rightarrow> string option outcome" where
  "ex_text c s =
     (if valid_span s (length (cx_source c))
      then map_outcome Some (source_slice (cx_source c) (span_start s) (span_end s)) else Ok None)"

definition ex_tokens :: "extraction_context \<Rightarrow> span \<Rightarrow> string list option outcome" where
  "ex_tokens c s =
     (if \<not> valid_span s (length (cx_source c)) then Ok None
      else map_outcome (\<lambda>t. Some (map tok_text (filter
          (\<lambda>k. tok_kind k \<notin> {Whitespace, Newline, LineComment, BlockComment, Eof}) (tokenize t))))
        (source_slice (cx_source c) (span_start s) (span_end s)))"

text \<open>A diagnostic that names a declaration is about that declaration only: it never rejects the package.\<close>

definition ex_diagnostic ::
  "extraction_context \<Rightarrow> string \<Rightarrow> diagnostic_stage \<Rightarrow> severity \<Rightarrow> completeness_impact \<Rightarrow> string \<Rightarrow>
    source_range option \<Rightarrow> declaration_id option \<Rightarrow> source_diagnostic" where
  "ex_diagnostic c code stage sev impact message bounds declaration_of =
     SourceDiagnostic (DiagnosticCode code) stage sev
       (if declaration_of \<noteq> None \<and> impact = ForcesRejected then ForcesPartial else impact)
       message bounds [] declaration_of (cx_target c)"

definition push_diagnostic :: "source_diagnostic \<Rightarrow> extractor \<Rightarrow> extractor" where
  "push_diagnostic d ex = ex\<lparr>ex_diagnostics := ex_diagnostics ex @ [d]\<rparr>"

text \<open>The diagnostics that most steps make: errors of the extraction that force a rejection.\<close>

definition push_error ::
  "extraction_context \<Rightarrow> string \<Rightarrow> string \<Rightarrow> source_range option \<Rightarrow> declaration_id option \<Rightarrow> extractor \<Rightarrow> extractor" where
  "push_error c code message bounds declaration_of ex =
     push_diagnostic (ex_diagnostic c code diagnostic_stage.Extract Error ForcesRejected message bounds declaration_of) ex"

definition partial_status :: "string \<Rightarrow> string \<Rightarrow> support_status" where
  "partial_status code reason = PartialSupport (DiagnosticCode code) reason"

definition unsupported_status :: "string \<Rightarrow> string \<Rightarrow> support_status" where
  "unsupported_status code reason = UnsupportedSupport (DiagnosticCode code) reason"

definition push_unbound_declarator_diagnostic :: "extraction_context \<Rightarrow> span \<Rightarrow> string \<Rightarrow> extractor \<Rightarrow> extractor" where
  "push_unbound_declarator_diagnostic c s message ex =
     push_error c ''PARC-E1213'' message (ex_range c s) None ex"

definition generated_provenance :: source_provenance where
  "generated_provenance = \<lparr>prov_origin = GeneratedOrigin, prov_include_chain = [], prov_macro_expansions = []\<rparr>"

subsection \<open>First pass\<close>

definition source_name_of :: "string \<Rightarrow> string \<Rightarrow> source_name" where
  "source_name_of normalized original = \<lparr>nm_normalized = normalized, nm_original = original\<rparr>"

text \<open>A new name in one of the two name spaces; an empty name fails the \<open>expect\<close>.\<close>

definition named_meta ::
  "extraction_context \<Rightarrow> entity_namespace \<Rightarrow> entity_scope \<Rightarrow> linkage \<Rightarrow> string \<Rightarrow>
    (declaration_id \<times> declaration_meta) outcome" where
  "named_meta c namespace scope link name =
     (case (entity_named (cx_hash c) (cx_nfc c) namespace scope name, normalize_identifier (cx_nfc c) name) of
        (Inr entity, Inr normalized) \<Rightarrow>
          Ok (declaration_from_entity entity,
            \<lparr>meta_identity = NamedIdentity namespace scope normalized,
             meta_name = Some (source_name_of normalized name), meta_linkage = link\<rparr>)
      | _ \<Rightarrow> Panic ExpectFailed)"

definition index_ordinary :: "extraction_context \<Rightarrow> string \<Rightarrow> bool \<Rightarrow> linkage \<Rightarrow> extractor \<Rightarrow> extractor outcome" where
  "index_ordinary c name internal link ex =
     (if ex_ordinary ex name \<noteq> None then Ok ex
      else map_outcome (\<lambda>(i, meta).
          ex\<lparr>ex_ordinary := (ex_ordinary ex)(name \<mapsto> i), ex_metadata := AList.update i meta (ex_metadata ex)\<rparr>)
        (named_meta c Ordinary (if internal then ScopeFile (cx_file c) else TranslationUnit)
          (if internal then InternalLinkage else link) name))"

definition index_anonymous :: "extraction_context \<Rightarrow> span \<Rightarrow> string list \<Rightarrow> extractor \<Rightarrow> extractor" where
  "index_anonymous c s tokens ex =
     (let ordinal = ex_anonymous_ordinals ex tokens;
          fingerprint = content_from_content (cx_hash c) (canonical_tokens_bytes tokens);
          i = declaration_from_entity
            (entity_anonymous (cx_hash c) TranslationUnit (content_bytes fingerprint) ordinal)
      in ex\<lparr>ex_anonymous_ordinals := (ex_anonymous_ordinals ex)(tokens := ordinal + 1),
          ex_anonymous := (ex_anonymous ex)((span_start s, span_end s) \<mapsto> i),
          ex_metadata := AList.update i
            \<lparr>meta_identity = AnonymousIdentity TranslationUnit fingerprint ordinal, meta_name = None,
             meta_linkage = NoLinkage\<rparr> (ex_metadata ex)\<rparr>)"

definition index_tag :: "extraction_context \<Rightarrow> c_identifier node option \<Rightarrow> span \<Rightarrow> extractor \<Rightarrow> extractor outcome" where
  "index_tag c identifier s ex =
     (case identifier of
        Some i \<Rightarrow>
          let name = c_identifier_name (node i)
          in if ex_tags ex name \<noteq> None then Ok ex
             else map_outcome (\<lambda>(i, meta).
                 ex\<lparr>ex_tags := (ex_tags ex)(name \<mapsto> i), ex_metadata := AList.update i meta (ex_metadata ex)\<rparr>)
               (named_meta c Tag TranslationUnit NoLinkage name)
      | None \<Rightarrow>
          if ex_anonymous ex (span_start s, span_end s) \<noteq> None then Ok ex
          else map_outcome (\<lambda>tokens. case tokens of
                Some ts \<Rightarrow> index_anonymous c s ts ex
              | None \<Rightarrow> index_anonymous c s []
                  (push_error c ''PARC-E1203'' ''anonymous tag did not contain a usable generated-source span''
                    None None ex))
              (ex_tokens c s))"

definition struct_size :: "struct_declaration node list \<Rightarrow> nat" where
  "struct_size = size_list (size_node (size_struct_declaration_of size size size))"

definition fields_size :: "specifier_qualifier node list \<Rightarrow> nat" where
  "fields_size = size_list (size_node (size_specifier_qualifier_of size size))"

function (sequential)
  index_type_specifier :: "extraction_context \<Rightarrow> type_specifier node \<Rightarrow> extractor \<Rightarrow> extractor outcome" and
  index_struct_declarations :: "extraction_context \<Rightarrow> struct_declaration node list \<Rightarrow> extractor \<Rightarrow> extractor outcome" and
  index_field_type_specifiers :: "extraction_context \<Rightarrow> specifier_qualifier node list \<Rightarrow> extractor \<Rightarrow> extractor outcome"
where
  "index_type_specifier c (Node (TypeSpecifier_Struct (Node (StructType kind identifier declarations extensions) s)) p) ex =
     and_then (index_tag c identifier s ex)
       (\<lambda>ex'. case declarations of None \<Rightarrow> Ok ex' | Some ds \<Rightarrow> index_struct_declarations c ds ex')"
| "index_type_specifier c (Node (TypeSpecifier_Enum e) p) ex =
     index_tag c (enum_type_identifier (node e)) (node_span e) ex"
| "index_type_specifier c (Node (TypeSpecifier_Atomic (Node (TypeName specifiers declarator) q)) p) ex =
     index_field_type_specifiers c specifiers ex"
| "index_type_specifier c _ ex = Ok ex"
| "index_struct_declarations c [] ex = Ok ex"
| "index_struct_declarations c (Node (StructDeclaration_Field (Node (StructField specifiers declarators) q)) p # ds) ex =
     and_then (index_field_type_specifiers c specifiers ex) (\<lambda>ex'. index_struct_declarations c ds ex')"
| "index_struct_declarations c (_ # ds) ex = index_struct_declarations c ds ex"
| "index_field_type_specifiers c [] ex = Ok ex"
| "index_field_type_specifiers c (Node (SpecifierQualifier_TypeSpecifier t) p # specifiers) ex =
     and_then (index_type_specifier c t ex) (\<lambda>ex'. index_field_type_specifiers c specifiers ex')"
| "index_field_type_specifiers c (_ # specifiers) ex = index_field_type_specifiers c specifiers ex"
  by pat_completeness auto

termination
  apply (relation "measure (\<lambda>x. case x of
    Inl (c, t, ex) \<Rightarrow> size (node t)
  | Inr (Inl (c, ds, ex)) \<Rightarrow> struct_size ds
  | Inr (Inr (c, ss, ex)) \<Rightarrow> fields_size ss)")
  by (auto simp: struct_size_def fields_size_def size_node_Suc [of size])

text \<open>Loops over specifiers and declarators.\<close>

fun index_type_specifiers :: "extraction_context \<Rightarrow> declaration_specifier node list \<Rightarrow> extractor \<Rightarrow> extractor outcome" where
  "index_type_specifiers c [] ex = Ok ex"
| "index_type_specifiers c (s # specifiers) ex =
     and_then (case declaration_type_spec (node s) of Some t \<Rightarrow> index_type_specifier c t ex | None \<Rightarrow> Ok ex)
       (index_type_specifiers c specifiers)"

definition has_storage :: "declaration_specifier node list \<Rightarrow> storage_class_specifier \<Rightarrow> bool" where
  "has_storage specifiers expected \<longleftrightarrow>
     list_ex (\<lambda>s. case node s of DeclarationSpecifier_StorageClass k \<Rightarrow> node k = expected | _ \<Rightarrow> False) specifiers"

fun index_declarators ::
  "extraction_context \<Rightarrow> bool \<Rightarrow> linkage \<Rightarrow> init_declarator node list \<Rightarrow> extractor \<Rightarrow> extractor outcome" where
  "index_declarators c internal link [] ex = Ok ex"
| "index_declarators c internal link (d # ds) ex =
     and_then (case declarator_name (node (init_declarator_declarator (node d))) of
         Some name \<Rightarrow> index_ordinary c name internal link ex
       | None \<Rightarrow> Ok ex)
       (index_declarators c internal link ds)"

definition index_declaration :: "extraction_context \<Rightarrow> c_declaration \<Rightarrow> extractor \<Rightarrow> extractor outcome" where
  "index_declaration c d ex =
     and_then (index_type_specifiers c (c_declaration_specifiers d) ex)
       (index_declarators c (has_storage (c_declaration_specifiers d) StorageClassSpecifier_Static)
         (if has_storage (c_declaration_specifiers d) StorageClassSpecifier_Typedef then NoLinkage else ExternalLinkage)
         (c_declaration_declarators d))"

definition index_external :: "extraction_context \<Rightarrow> external_declaration \<Rightarrow> extractor \<Rightarrow> extractor outcome" where
  "index_external c e ex =
     (case e of
        ExternalDeclaration_Declaration d \<Rightarrow> index_declaration c (node d) ex
      | ExternalDeclaration_FunctionDefinition f \<Rightarrow>
          and_then (index_type_specifiers c (function_definition_specifiers (node f)) ex)
            (\<lambda>ex'. case declarator_name (node (function_definition_declarator (node f))) of
                Some name \<Rightarrow> index_ordinary c name
                  (has_storage (function_definition_specifiers (node f)) StorageClassSpecifier_Static)
                  ExternalLinkage ex'
              | None \<Rightarrow> Ok ex')
      | ExternalDeclaration_StaticAssert a \<Rightarrow> Ok ex)"

fun index_externals :: "extraction_context \<Rightarrow> external_declaration node list \<Rightarrow> extractor \<Rightarrow> extractor outcome" where
  "index_externals c [] ex = Ok ex"
| "index_externals c (e # es) ex = and_then (index_external c (node e) ex) (index_externals c es)"

fun unit_externals :: "translation_unit \<Rightarrow> external_declaration node list" where
  "unit_externals (Ast.TranslationUnit es) = es"

definition index_translation_unit :: "extraction_context \<Rightarrow> translation_unit \<Rightarrow> extractor \<Rightarrow> extractor outcome" where
  "index_translation_unit c u = index_externals c (unit_externals u)"

subsection \<open>Attributes\<close>

definition modeled_attributes :: "string list" where
  "modeled_attributes =
     [''cdecl'', ''__cdecl'', ''stdcall'', ''__stdcall'', ''fastcall'', ''__fastcall'', ''vectorcall'',
      ''__vectorcall'', ''thiscall'', ''__thiscall'', ''sysv_abi'', ''ms_abi'', ''pcs'', ''aapcs'', ''visibility'']"

definition preserved_attributes :: "string list" where
  "preserved_attributes =
     [''deprecated'', ''__deprecated__'', ''pure'', ''__pure__'', ''const'', ''__const__'', ''nothrow'',
      ''__nothrow__'', ''malloc'', ''__malloc__'', ''noinline'', ''__noinline__'', ''always_inline'',
      ''__always_inline__'', ''gnu_inline'', ''__gnu_inline__'', ''hot'', ''__hot__'', ''cold'', ''__cold__'',
      ''leaf'', ''__leaf__'', ''flatten'', ''__flatten__'', ''artificial'', ''__artificial__'', ''nonnull'',
      ''__nonnull__'', ''returns_nonnull'', ''__returns_nonnull__'', ''warn_unused_result'',
      ''__warn_unused_result__'', ''format'', ''__format__'', ''format_arg'', ''__format_arg__'', ''sentinel'',
      ''__sentinel__'', ''alloc_size'', ''__alloc_size__'', ''access'', ''__access__'']"

definition is_modeled_attribute :: "string \<Rightarrow> bool" where
  "is_modeled_attribute name \<longleftrightarrow> to_ascii_lowercase (trim name) \<in> set modeled_attributes"

definition is_preserved_attribute :: "string \<Rightarrow> bool" where
  "is_preserved_attribute name \<longleftrightarrow> to_ascii_lowercase (trim name) \<in> set preserved_attributes"

definition has_unmodeled_extensions :: "c_extension node list \<Rightarrow> bool" where
  "has_unmodeled_extensions extensions \<longleftrightarrow>
     list_ex (\<lambda>e. case node e of
         Extension_Attribute a \<Rightarrow> \<not> is_modeled_attribute (node (c_attribute_name a)) \<and>
           \<not> is_preserved_attribute (node (c_attribute_name a))
       | _ \<Rightarrow> False) extensions"

fun extension_attribute_spelling :: "c_extension \<Rightarrow> string" where
  "extension_attribute_spelling (Extension_Attribute a) = node (c_attribute_name a)"
| "extension_attribute_spelling (Extension_AsmLabel parts) = concat (node parts)"
| "extension_attribute_spelling (Extension_AvailabilityAttribute a) = ''availability''"

text \<open>\<open>Result<CallingConvention, String>\<close>: the loop with the convention found and the spellings.\<close>

fun calling_convention_loop ::
  "c_extension node list \<Rightarrow> calling_convention option \<Rightarrow> string list \<Rightarrow> string + calling_convention" where
  "calling_convention_loop [] found spellings = Inr (case found of None \<Rightarrow> CConv | Some v \<Rightarrow> v)"
| "calling_convention_loop (e # es) found spellings =
     (case (case node e of Extension_Attribute a \<Rightarrow> modeled_calling_convention a | _ \<Rightarrow> Inr None) of
        Inl _ \<Rightarrow> Inl (extension_attribute_spelling (node e))
      | Inr None \<Rightarrow> calling_convention_loop es found spellings
      | Inr (Some v) \<Rightarrow>
          (let spellings' = spellings @ [extension_attribute_spelling (node e)]
           in if found \<noteq> None \<and> found \<noteq> Some v then Inl (join_space spellings')
              else calling_convention_loop es (Some v) spellings'))"

definition calling_convention_of :: "c_extension node list \<Rightarrow> string + calling_convention" where
  "calling_convention_of extensions = calling_convention_loop extensions None []"

fun asm_label :: "c_extension \<Rightarrow> string list option" where
  "asm_label (Extension_AsmLabel parts) = Some (node parts)"
| "asm_label _ = None"

definition asm_link_name :: "c_extension node list \<Rightarrow> string + string option" where
  "asm_link_name extensions =
     (case List.map_filter (asm_label \<circ> node) extensions of
        [] \<Rightarrow> Inr None
      | parts # _ \<Rightarrow>
          (case decode_simple_c_string parts of
             None \<Rightarrow> Inl (concat parts)
           | Some decoded \<Rightarrow> if decoded = [] then Inl (concat parts) else Inr (Some decoded)))"

text \<open>The arguments of an attribute as written; \<open>None\<close> for an argument without a usable span.\<close>

fun attribute_arguments :: "string \<Rightarrow> expression node list \<Rightarrow> string list option outcome" where
  "attribute_arguments source [] = Ok (Some [])"
| "attribute_arguments source (a # as) =
     (if \<not> valid_span (node_span a) (length source) then Ok None
      else and_then (source_slice source (span_start (node_span a)) (span_end (node_span a))) (\<lambda>t.
        map_outcome (map_option (\<lambda>ts. t # ts)) (attribute_arguments source as)))"

definition attribute_disposition_of :: "string \<Rightarrow> attribute_disposition" where
  "attribute_disposition_of name =
     (if is_modeled_attribute name then Modeled
      else if is_preserved_attribute name then Preserved else UnsupportedAbiRelevant)"

text \<open>The attributes that could be lowered, and whether a span was invalid.\<close>

fun attributes_from_extensions ::
  "string \<Rightarrow> file_id \<Rightarrow> c_extension node list \<Rightarrow> (source_attribute list \<times> bool) outcome" where
  "attributes_from_extensions source file [] = Ok ([], False)"
| "attributes_from_extensions source file (e # es) =
     (let continue = (\<lambda>new invalid. map_outcome (\<lambda>(attributes, later). (new @ attributes, invalid \<or> later))
            (attributes_from_extensions source file es))
      in if \<not> valid_span (node_span e) (length source) then continue [] True
         else and_then (source_slice source (span_start (node_span e)) (span_end (node_span e))) (\<lambda>spelling.
           let attribute = (\<lambda>name arguments disposition.
             \<lparr>attr_namespace = None, attr_name = name, attr_arguments = arguments, attr_spelling = spelling,
              attr_range = SourceRange file (span_start (node_span e)) (span_end (node_span e)),
              attr_disposition = disposition\<rparr>)
           in case node e of
                Extension_Attribute a \<Rightarrow>
                  and_then (attribute_arguments source (c_attribute_arguments a)) (\<lambda>arguments.
                    case arguments of
                      None \<Rightarrow> continue [] True
                    | Some ts \<Rightarrow>
                        let name = node (c_attribute_name a)
                        in continue [attribute name ts (attribute_disposition_of name)] False)
              | Extension_AsmLabel _ \<Rightarrow> continue [attribute ''asm_label'' [] Modeled] False
              | Extension_AvailabilityAttribute _ \<Rightarrow> continue [attribute ''availability'' [] Preserved] False))"

definition extension_source_spelling :: "string \<Rightarrow> c_extension node \<Rightarrow> string outcome" where
  "extension_source_spelling source e =
     (if valid_span (node_span e) (length source)
      then source_slice source (span_start (node_span e)) (span_end (node_span e))
      else Ok (extension_attribute_spelling (node e)))"

definition visibility_value :: "string \<Rightarrow> visibility option" where
  "visibility_value v = map_of
     [(''default'', ExplicitDefault), (''hidden'', Hidden), (''protected'', Protected),
      (''internal'', InternalVisibility)] v"

definition argument_visibility :: "expression node list \<Rightarrow> visibility option" where
  "argument_visibility arguments =
     (case arguments of
        [Node (Expression_StringLiteral literal) _] \<Rightarrow>
          Option.bind (decode_simple_c_string (node literal)) visibility_value
      | _ \<Rightarrow> None)"

fun visibility_loop ::
  "string \<Rightarrow> c_extension node list \<Rightarrow> visibility option \<Rightarrow> string list \<Rightarrow> (string + visibility option) outcome" where
  "visibility_loop source [] found spellings = Ok (Inr found)"
| "visibility_loop source (e # es) found spellings =
     (case node e of
        Extension_Attribute a \<Rightarrow>
          if to_ascii_lowercase (trim (node (c_attribute_name a))) \<noteq> ''visibility''
          then visibility_loop source es found spellings
          else and_then (extension_source_spelling source e) (\<lambda>spelling.
            case argument_visibility (c_attribute_arguments a) of
              None \<Rightarrow> Ok (Inl spelling)
            | Some v \<Rightarrow>
                if found \<noteq> None \<and> found \<noteq> Some v then Ok (Inl (join_space (spellings @ [spelling])))
                else visibility_loop source es (Some v) (spellings @ [spelling]))
      | _ \<Rightarrow> visibility_loop source es found spellings)"

definition visibility_from_extensions :: "string \<Rightarrow> c_extension node list \<Rightarrow> (string + visibility option) outcome" where
  "visibility_from_extensions source extensions = visibility_loop source extensions None []"

subsection \<open>Support\<close>

text \<open>The first status in a type that is not \<open>Supported\<close>.\<close>

fun nested_type_support :: "c_type \<Rightarrow> support_status option" and
  nested_kind_support :: "c_type_kind \<Rightarrow> support_status option" and
  nested_function_support :: "c_function_type \<Rightarrow> support_status option" and
  nested_parameters_support :: "c_function_parameter list \<Rightarrow> support_status option" and
  nested_parameter_support :: "c_function_parameter \<Rightarrow> support_status option"
where
  "nested_type_support (CType q n kind support) =
     (if \<not> is_supported support then Some support else nested_kind_support kind)"
| "nested_kind_support (Pointer inner) = nested_type_support inner"
| "nested_kind_support (Array element bound q) = nested_type_support element"
| "nested_kind_support (Function f) = nested_function_support f"
| "nested_kind_support _ = None"
| "nested_function_support (CFunctionType return_type parameters prototype convention) =
     (case nested_type_support return_type of Some s \<Rightarrow> Some s | None \<Rightarrow> nested_parameters_support parameters)"
| "nested_parameters_support [] = None"
| "nested_parameters_support (p # ps) =
     (case nested_parameter_support p of Some s \<Rightarrow> Some s | None \<Rightarrow> nested_parameters_support ps)"
| "nested_parameter_support (CFunctionParameter name ty) = nested_type_support ty"

definition own_or_nested :: "support_status \<Rightarrow> c_type \<Rightarrow> support_status option" where
  "own_or_nested support ty = (if \<not> is_supported support then Some support else nested_type_support ty)"

definition or_else :: "'a option \<Rightarrow> 'a option \<Rightarrow> 'a option" where
  "or_else a b = (case a of Some v \<Rightarrow> Some v | None \<Rightarrow> b)"

fun find_map :: "('a \<Rightarrow> 'b option) \<Rightarrow> 'a list \<Rightarrow> 'b option" where
  "find_map f [] = None"
| "find_map f (x # xs) = or_else (f x) (find_map f xs)"

definition declaration_kind_support :: "source_declaration_kind \<Rightarrow> support_status option" where
  "declaration_kind_support kind =
     (case kind of
        FunctionDecl f \<Rightarrow>
          or_else (nested_type_support (fun_return f))
            (or_else (find_map (\<lambda>p. own_or_nested (par_support p) (par_ty p)) (fun_parameters f))
              (case fun_convention f of
                 UnsupportedConvention spelling \<Rightarrow>
                   Some (unsupported_status ''PARC-E1206'' (''unsupported calling convention: '' @ spelling))
               | _ \<Rightarrow> None))
      | RecordDecl r \<Rightarrow> find_map (\<lambda>f. own_or_nested (fld_support f) (fld_ty f)) (rec_fields r)
      | EnumDecl e \<Rightarrow>
          or_else (find_map (\<lambda>v. if \<not> is_supported (var_support v) then Some (var_support v) else None)
              (enum_variants e))
            (Option.bind (enum_underlying e) nested_type_support)
      | TypeAliasDecl target \<Rightarrow> nested_type_support target
      | VariableDecl v \<Rightarrow> nested_type_support (vr_ty v)
      | UnsupportedDecl u \<Rightarrow> Some (unsupported_status (code_str (uns_diagnostic u)) (uns_spelling u)))"

subsection \<open>Redeclarations\<close>

definition function_signatures_match :: "source_function \<Rightarrow> source_function \<Rightarrow> bool" where
  "function_signatures_match left right \<longleftrightarrow>
     fun_link_name left = fun_link_name right \<and> fun_return left = fun_return right \<and>
     fun_prototype left = fun_prototype right \<and> fun_convention left = fun_convention right \<and>
     length (fun_parameters left) = length (fun_parameters right) \<and>
     list_all (\<lambda>(l, r). par_ty l = par_ty r) (zip (fun_parameters left) (fun_parameters right))"

definition redeclaration_action :: "source_declaration_kind \<Rightarrow> source_declaration_kind \<Rightarrow> redeclaration_action" where
  "redeclaration_action existing replacement =
     (case (existing, replacement) of
        (FunctionDecl left, FunctionDecl right) \<Rightarrow> if function_signatures_match left right then Keep else Conflict
      | (VariableDecl left, VariableDecl right) \<Rightarrow> if left = right then Keep else Conflict
      | (TypeAliasDecl left, TypeAliasDecl right) \<Rightarrow> if left = right then Keep else Conflict
      | (RecordDecl left, RecordDecl right) \<Rightarrow>
          if rec_kind left \<noteq> rec_kind right then Conflict
          else if rec_completeness right = IncompleteRecord then Keep
          else if rec_completeness left = IncompleteRecord then Replace else Conflict
      | (EnumDecl left, EnumDecl right) \<Rightarrow>
          if enum_underlying left \<noteq> enum_underlying right then Conflict
          else if enum_variants right = [] then Keep
          else if enum_variants left = [] then Replace else Conflict
      | (UnsupportedDecl left, UnsupportedDecl right) \<Rightarrow> if left = right then Keep else Conflict
      | _ \<Rightarrow> Conflict)"

subsection \<open>Drafts\<close>

text \<open>\<open>self.draft(id)\<close>, changed: a name without metadata panics.\<close>

definition draft_of :: "extraction_context \<Rightarrow> declaration_id \<Rightarrow> extractor \<Rightarrow> declaration_draft outcome" where
  "draft_of c i ex =
     (case map_of (ex_metadata ex) i of
        None \<Rightarrow> Panic ExpectFailed
      | Some meta \<Rightarrow> Ok (case map_of (ex_drafts ex) i of
            Some d \<Rightarrow> d
          | None \<Rightarrow> \<lparr>dr_meta = meta, dr_visibility = cx_visibility c, dr_occurrences = [],
              dr_support = Supported, dr_kind = None\<rparr>))"

definition with_draft ::
  "extraction_context \<Rightarrow> declaration_id \<Rightarrow> (declaration_draft \<Rightarrow> declaration_draft) \<Rightarrow> extractor \<Rightarrow> extractor outcome" where
  "with_draft c i f ex =
     map_outcome (\<lambda>d. ex\<lparr>ex_drafts := AList.update i (f d) (ex_drafts ex)\<rparr>) (draft_of c i ex)"

definition last_opt :: "'a list \<Rightarrow> 'a option" where
  "last_opt xs = (if xs = [] then None else Some (last xs))"

text \<open>The range of the last occurrence of a draft.\<close>

definition last_range :: "declaration_id \<Rightarrow> extractor \<Rightarrow> source_range option" where
  "last_range i ex =
     Option.bind (map_of (ex_drafts ex) i) (\<lambda>d. map_option occ_range (last_opt (dr_occurrences d)))"

definition occurrence_of ::
  "extraction_context \<Rightarrow> declaration_id \<Rightarrow> source_range \<Rightarrow> span option \<Rightarrow> string \<Rightarrow> string list \<Rightarrow> nat \<Rightarrow>
    storage_class \<Rightarrow> bool \<Rightarrow> source_attribute list \<Rightarrow> declaration_occurrence" where
  "occurrence_of c i bounds name_span spelling tokens ordinal storage is_definition attributes =
     \<lparr>occ_id = occurrence_derive (cx_hash c) i (cx_file c) (canonical_tokens_bytes tokens) ordinal,
      occ_range = bounds, occ_name_range = Option.bind name_span (ex_range c), occ_spelling = spelling,
      occ_tokens = tokens, occ_ordinal = ordinal, occ_storage = storage, occ_is_definition = is_definition,
      occ_attributes = attributes, occ_provenance = generated_provenance\<rparr>"

definition record_occurrence ::
  "extraction_context \<Rightarrow> declaration_id \<Rightarrow> source_range \<Rightarrow> span option \<Rightarrow> string \<Rightarrow> string list \<Rightarrow> storage_class \<Rightarrow>
    bool \<Rightarrow> c_extension node list \<Rightarrow> extractor \<Rightarrow> extractor outcome" where
  "record_occurrence c i bounds name_span spelling tokens storage is_definition extensions ex0 =
     (let ordinal = ex_occurrence_ordinals ex0 (i, tokens);
          ex = ex0\<lparr>ex_occurrence_ordinals := (ex_occurrence_ordinals ex0)((i, tokens) := ordinal + 1)\<rparr>
      in and_then (attributes_from_extensions (cx_source c) (cx_file c) extensions) (\<lambda>(attributes, invalid).
         and_then (visibility_from_extensions (cx_source c) extensions) (\<lambda>v.
           with_draft c i (\<lambda>d. d\<lparr>
               dr_occurrences := dr_occurrences d @
                 [occurrence_of c i bounds name_span spelling tokens ordinal storage is_definition attributes],
               dr_visibility := (case v of Inr (Some visible) \<Rightarrow> visible | _ \<Rightarrow> dr_visibility d)\<rparr>)
             (if invalid then push_error c ''PARC-E1210''
                 ''a declaration attribute had an invalid generated-source span'' (Some bounds) (Some i) ex
              else ex))))"

definition add_occurrence ::
  "extraction_context \<Rightarrow> declaration_id \<Rightarrow> span \<Rightarrow> span option \<Rightarrow> storage_class \<Rightarrow> bool \<Rightarrow> c_extension node list \<Rightarrow>
    extractor \<Rightarrow> extractor outcome" where
  "add_occurrence c i s name_span storage is_definition extensions ex =
     (case ex_range c s of
        None \<Rightarrow> Ok (push_error c ''PARC-E1203'' ''parser node did not contain a usable generated-source span''
            None (Some i) ex)
      | Some bounds \<Rightarrow>
          and_then (ex_tokens c s) (\<lambda>tokens. case tokens of
            None \<Rightarrow> Ok (push_error c ''PARC-E1203'' ''parser node tokens were outside the generated source''
                (Some bounds) (Some i) ex)
          | Some ts \<Rightarrow>
              and_then (ex_text c s) (\<lambda>spelling. case spelling of
                None \<Rightarrow> Ok (push_error c ''PARC-E1203'' ''parser node spelling was outside the generated source''
                    (Some bounds) (Some i) ex)
              | Some t \<Rightarrow> record_occurrence c i bounds name_span t ts storage is_definition extensions ex)))"

text \<open>A new kind of a draft: kept, replaced, or in conflict with what was declared before.\<close>

definition conflict_draft :: "declaration_draft \<Rightarrow> declaration_draft" where
  "conflict_draft d =
     d\<lparr>dr_kind := Some (UnsupportedDecl
         \<lparr>uns_category = InvalidDeclaration,
          uns_spelling = (case last_opt (dr_occurrences d) of
              Some occ \<Rightarrow> occ_spelling occ | None \<Rightarrow> ''conflicting redeclaration''),
          uns_diagnostic = DiagnosticCode ''PARC-E1204''\<rparr>),
       dr_support := unsupported_status ''PARC-E1204'' ''one entity has semantically incompatible redeclarations''\<rparr>"

definition action_of :: "declaration_draft \<Rightarrow> source_declaration_kind \<Rightarrow> redeclaration_action" where
  "action_of d kind = (case dr_kind d of None \<Rightarrow> Replace | Some existing \<Rightarrow> redeclaration_action existing kind)"

definition updated_draft :: "source_declaration_kind \<Rightarrow> declaration_draft \<Rightarrow> declaration_draft" where
  "updated_draft kind d =
     (let support = (case declaration_kind_support kind of Some s \<Rightarrow> s | None \<Rightarrow> Supported);
          d' = (if is_supported support then d else d\<lparr>dr_support := support\<rparr>)
      in case action_of d kind of
           Keep \<Rightarrow> d'
         | Replace \<Rightarrow> d'\<lparr>dr_kind := Some kind\<rparr>
         | Conflict \<Rightarrow> conflict_draft d')"

definition update_aliases :: "declaration_id \<Rightarrow> extractor \<Rightarrow> extractor" where
  "update_aliases i ex =
     (let is_alias = (case Option.bind (map_of (ex_drafts ex) i) dr_kind of
          Some (TypeAliasDecl target) \<Rightarrow> effectively_pointer (ex_aliases ex) target
        | _ \<Rightarrow> False)
      in ex\<lparr>ex_aliases := (if is_alias then insert i (ex_aliases ex) else ex_aliases ex - {i})\<rparr>)"

definition set_kind :: "extraction_context \<Rightarrow> declaration_id \<Rightarrow> source_declaration_kind \<Rightarrow> extractor \<Rightarrow> extractor outcome" where
  "set_kind c i kind ex =
     and_then (draft_of c i ex) (\<lambda>d.
     map_outcome (\<lambda>ex'. update_aliases i
         (if action_of d kind = Conflict \<and> dr_occurrences d \<noteq> []
          then push_error c ''PARC-E1204'' ''one entity has semantically incompatible redeclarations''
            (map_option occ_range (last_opt (dr_occurrences d))) (Some i) ex'
          else ex'))
       (with_draft c i (updated_draft kind) ex))"

text \<open>What the extensions and specifiers of a declaration do to its support.\<close>

definition refuse :: "extraction_context \<Rightarrow> declaration_id \<Rightarrow> string \<Rightarrow> string \<Rightarrow> source_range option \<Rightarrow> extractor \<Rightarrow> extractor outcome" where
  "refuse c i code message bounds ex =
     map_outcome (push_error c code message bounds (Some i))
       (with_draft c i (\<lambda>d. d\<lparr>dr_support := unsupported_status code message\<rparr>) ex)"

fun is_Inl :: "'a + 'b \<Rightarrow> bool" where
  "is_Inl (Inl _) = True"
| "is_Inl (Inr _) = False"

definition when_ok :: "bool \<Rightarrow> ('a \<Rightarrow> 'a outcome) \<Rightarrow> 'a \<Rightarrow> 'a outcome" where
  "when_ok b f x = (if b then f x else Ok x)"

definition apply_extension_support ::
  "extraction_context \<Rightarrow> declaration_id \<Rightarrow> c_extension node list \<Rightarrow> extractor \<Rightarrow> extractor outcome" where
  "apply_extension_support c i extensions ex =
     (let bounds = last_range i ex in
      and_then (when_ok (is_Inl (asm_link_name extensions)) (refuse c i ''PARC-E1211''
        ''asm link label could not be decoded without target-dependent guessing'' bounds) ex) (\<lambda>ex1.
      and_then (when_ok (is_Inl (calling_convention_of extensions)) (refuse c i ''PARC-E1214''
        ''calling-convention attributes are malformed or conflict'' bounds) ex1) (\<lambda>ex2.
      and_then (visibility_from_extensions (cx_source c) extensions) (\<lambda>v.
      and_then (when_ok (is_Inl v) (refuse c i ''PARC-E1215''
        ''visibility attributes are malformed, unknown, or conflict'' bounds) ex2)
      (when_ok (has_unmodeled_extensions extensions) (\<lambda>ex3.
        map_outcome (push_diagnostic (ex_diagnostic c ''PARC-P1205'' diagnostic_stage.Extract Warning ForcesPartial
            ''declaration contains an unmodeled ABI-relevant attribute'' bounds (Some i)))
          (with_draft c i (\<lambda>d. if dr_support d = Supported
              then d\<lparr>dr_support := partial_status ''PARC-P1205''
                ''declaration contains an unmodeled ABI-relevant attribute''\<rparr> else d) ex3)))))))"

fun apply_specifier_support ::
  "extraction_context \<Rightarrow> declaration_id \<Rightarrow> declaration_specifier node list \<Rightarrow> extractor \<Rightarrow> extractor outcome" where
  "apply_specifier_support c i [] ex = Ok ex"
| "apply_specifier_support c i (s # specifiers) ex =
     and_then (when_ok (case node s of DeclarationSpecifier_Alignment _ \<Rightarrow> True | _ \<Rightarrow> False)
         (refuse c i ''PARC-E1216'' ''explicit declaration alignment is ABI-relevant and not modeled''
           (ex_range c (node_span s))) ex)
       (apply_specifier_support c i specifiers)"

subsection \<open>Functions\<close>

definition resolver_of :: "extraction_context \<Rightarrow> extractor \<Rightarrow> type_resolver" where
  "resolver_of c ex =
     \<lparr>tr_ordinary = ex_ordinary ex, tr_tags = ex_tags ex, tr_anonymous = ex_anonymous ex,
      tr_pointer_aliases = ex_aliases ex, tr_source = cx_source c, tr_int128 = cx_int128 c, tr_sizes = cx_sizes c\<rparr>"

text \<open>\<open>normalize_identifier(name).expect(..)\<close>, and the support of a part that has attributes.\<close>

definition expect_name :: "extraction_context \<Rightarrow> string option \<Rightarrow> source_name option outcome" where
  "expect_name c name =
     (case name of
        None \<Rightarrow> Ok None
      | Some original \<Rightarrow>
          (case normalize_identifier (cx_nfc c) original of
             Inl _ \<Rightarrow> Panic ExpectFailed
           | Inr normalized \<Rightarrow> Ok (Some (source_name_of normalized original))))"

definition attributed_support ::
  "string \<Rightarrow> string \<Rightarrow> string \<Rightarrow> bool \<Rightarrow> c_extension node list \<Rightarrow> support_status \<Rightarrow> support_status" where
  "attributed_support invalid_message code message invalid extensions support =
     (if invalid then unsupported_status ''PARC-E1210'' invalid_message
      else if has_unmodeled_extensions extensions \<and> is_supported support then partial_status code message
      else support)"

definition type_support :: "c_type \<Rightarrow> support_status" where
  "type_support ty = (case nested_type_support ty of Some s \<Rightarrow> s | None \<Rightarrow> Supported)"

definition lower_parameter ::
  "extraction_context \<Rightarrow> declaration_id \<Rightarrow> nat \<Rightarrow> lowered_parameter \<Rightarrow> source_parameter option outcome" where
  "lower_parameter c parent index p =
     (case ex_range c (lp_span p) of
        None \<Rightarrow> Ok None
      | Some bounds \<Rightarrow>
          and_then (expect_name c (lp_name p)) (\<lambda>name.
          map_outcome (\<lambda>(attributes, invalid). Some
            \<lparr>par_id = child_parameter (cx_hash c) parent index, par_ordinal = index, par_name = name,
             par_ty = lp_ty p, par_range = bounds, par_provenance = generated_provenance,
             par_attributes = attributes,
             par_support = attributed_support ''a parameter attribute had an invalid generated-source span''
               ''PARC-P1205'' ''parameter contains an unmodeled ABI-relevant attribute'' invalid
               (lp_extensions p) (type_support (lp_ty p))\<rparr>)
            (attributes_from_extensions (cx_source c) (cx_file c) (lp_extensions p))))"

text \<open>\<open>collect::<Option<Vec<_>>>\<close>: it stops at the first parameter that cannot be lowered.\<close>

fun lower_all_parameters ::
  "extraction_context \<Rightarrow> declaration_id \<Rightarrow> nat \<Rightarrow> lowered_parameter list \<Rightarrow> source_parameter list option outcome" where
  "lower_all_parameters c parent index [] = Ok (Some [])"
| "lower_all_parameters c parent index (p # ps) =
     and_then (lower_parameter c parent index p) (\<lambda>r. case r of
       None \<Rightarrow> Ok None
     | Some v \<Rightarrow> map_outcome (map_option (\<lambda>vs. v # vs)) (lower_all_parameters c parent (Suc index) ps))"

definition unsupported_decl :: "unsupported_declaration_category \<Rightarrow> string \<Rightarrow> string \<Rightarrow> source_declaration_kind" where
  "unsupported_decl category code spelling =
     UnsupportedDecl \<lparr>uns_category = category, uns_spelling = spelling, uns_diagnostic = DiagnosticCode code\<rparr>"

definition lower_function_kind ::
  "extraction_context \<Rightarrow> extractor \<Rightarrow> declaration_specifier node list \<Rightarrow> declarator \<Rightarrow> string \<Rightarrow>
    c_extension node list \<Rightarrow> source_declaration_kind outcome" where
  "lower_function_kind c ex specifiers d name extensions =
     (let r = resolver_of c ex;
          invalid = (\<lambda>code. map_outcome (unsupported_decl InvalidDeclaration code)
            (resolver_text r (node_span (declarator_kind d)) ''function declarator''))
      in case calling_convention_of extensions of
           Inl spelling \<Rightarrow> Ok (unsupported_decl UnsupportedExtension ''PARC-E1214'' spelling)
         | Inr convention \<Rightarrow>
             and_then (function_parts r specifiers d) (\<lambda>parts. case parts of
               None \<Rightarrow> invalid ''PARC-E1201''
             | Some p \<Rightarrow>
                 (case ex_ordinary ex name of
                    None \<Rightarrow> Panic ExpectFailed
                  | Some parent \<Rightarrow>
                      and_then (lower_all_parameters c parent 0 (lf_parameters p)) (\<lambda>parameters. case parameters of
                        None \<Rightarrow> invalid ''PARC-E1203''
                      | Some ps \<Rightarrow>
                          Ok (case asm_link_name extensions of
                            Inr link_name \<Rightarrow> FunctionDecl
                              \<lparr>fun_link_name = (case link_name of Some n \<Rightarrow> n | None \<Rightarrow> name),
                               fun_return = lf_return p, fun_parameters = ps, fun_prototype = lf_prototype p,
                               fun_convention = convention\<rparr>
                          | Inl spelling \<Rightarrow> unsupported_decl UnsupportedExtension ''PARC-E1211'' spelling)))))"

subsection \<open>Records\<close>

definition tag_id :: "extractor \<Rightarrow> c_identifier node option \<Rightarrow> span \<Rightarrow> declaration_id outcome" where
  "tag_id ex identifier s =
     (case (case identifier of
         Some i \<Rightarrow> ex_tags ex (c_identifier_name (node i))
       | None \<Rightarrow> ex_anonymous ex (span_start s, span_end s)) of
        Some i \<Rightarrow> Ok i | None \<Rightarrow> Panic ExpectFailed)"

definition requested_alignment :: "extraction_context \<Rightarrow> c_extension \<Rightarrow> nat option" where
  "requested_alignment c e =
     (case e of
        Extension_Attribute a \<Rightarrow>
          if node (c_attribute_name a) \<in> {''aligned'', ''__aligned__''} then
            (case c_attribute_arguments a of
               [argument] \<Rightarrow>
                 Option.bind (Option.bind (eval_const_expr (cx_sizes c) (node argument)) try_u64)
                   (\<lambda>n. if is_power_of_two n then Some n else None)
             | _ \<Rightarrow> None)
          else None
      | _ \<Rightarrow> None)"

text \<open>The largest alignment requested, and the other extensions.\<close>

fun split_alignment ::
  "extraction_context \<Rightarrow> c_extension node list \<Rightarrow> nat option \<Rightarrow> nat option \<times> c_extension node list" where
  "split_alignment c [] seen = (seen, [])"
| "split_alignment c (e # es) seen =
     (case requested_alignment c (node e) of
        Some bytes \<Rightarrow> split_alignment c es (Some (case seen of None \<Rightarrow> bytes | Some n \<Rightarrow> max n bytes))
      | None \<Rightarrow> (case split_alignment c es seen of (alignment, others) \<Rightarrow> (alignment, e # others)))"

definition bit_width_of :: "extraction_context \<Rightarrow> expression node option \<Rightarrow> bit_width option option outcome" where
  "bit_width_of c width =
     (case width of
        None \<Rightarrow> Ok (Some None)
      | Some e \<Rightarrow>
          map_outcome (map_option (\<lambda>spelling. Some
            (case eval_const_expr (cx_sizes c) (node e) of
               Some v \<Rightarrow>
                 if 0 \<le> v then
                   (case try_u64 v of
                      Some bits \<Rightarrow> KnownBits bits
                    | None \<Rightarrow> InvalidBits spelling (DiagnosticCode ''PARC-E1207''))
                 else InvalidBits spelling (DiagnosticCode ''PARC-E1207'')
             | None \<Rightarrow> BitsExpression spelling)))
            (ex_text c (node_span e)))"

definition bit_width_support :: "bit_width option \<Rightarrow> support_status \<Rightarrow> support_status" where
  "bit_width_support width support =
     (case width of
        Some (InvalidBits _ _) \<Rightarrow> unsupported_status ''PARC-E1207''
          ''bit-field width is negative or overflows the schema-v2 range''
      | Some (BitsExpression _) \<Rightarrow>
          if is_supported support then partial_status ''PARC-P1207''
            ''bit-field width could not be evaluated without guessing'' else support
      | _ \<Rightarrow> support)"

text \<open>\<open>ok()?\<close> of the identifier of a field: named by the normalized name, or by its tokens.\<close>

definition field_child ::
  "extraction_context \<Rightarrow> declaration_id \<Rightarrow> source_name option \<Rightarrow> string list \<Rightarrow> nat \<Rightarrow> child_id option" where
  "field_child c parent name tokens index =
     (case name of
        Some n \<Rightarrow>
          (case child_named (cx_hash c) (cx_nfc c) parent Field (nm_normalized n) of
             Inr i \<Rightarrow> Some i | Inl _ \<Rightarrow> None)
      | None \<Rightarrow> Some (child_anonymous (cx_hash c) parent Field (canonical_tokens_bytes tokens) index))"

definition lower_field ::
  "extraction_context \<Rightarrow> extractor \<Rightarrow> declaration_id \<Rightarrow> specifier_qualifier node list \<Rightarrow> declarator option \<Rightarrow>
    expression node option \<Rightarrow> span \<Rightarrow> nat \<Rightarrow> source_field option outcome" where
  "lower_field c ex parent specifiers d width s index =
     (case ex_range c s of
        None \<Rightarrow> Ok None
      | Some bounds \<Rightarrow>
          and_then (expect_name c (Option.bind d declarator_name)) (\<lambda>name.
          and_then (ex_tokens c s) (\<lambda>tokens.
            case Option.bind tokens (\<lambda>ts. map_option (Pair ts) (field_child c parent name ts index)) of
              None \<Rightarrow> Ok None
            | Some (ts, i) \<Rightarrow>
                and_then (field_type (resolver_of c ex) specifiers d) (\<lambda>ty.
                and_then (bit_width_of c width) (\<lambda>bits. case bits of
                  None \<Rightarrow> Ok None
                | Some w \<Rightarrow>
                    map_outcome (\<lambda>(attributes, invalid). Some
                      \<lparr>fld_id = i, fld_name = name, fld_ty = ty, fld_bit_width = w, fld_range = bounds,
                       fld_provenance = generated_provenance, fld_attributes = attributes,
                       fld_support = attributed_support ''a field attribute had an invalid generated-source span''
                         ''PARC-P1205'' ''field contains an unmodeled ABI-relevant attribute'' invalid
                         (field_extensions specifiers d) (bit_width_support w (type_support ty)),
                       fld_tokens = ts, fld_ordinal = index\<rparr>)
                      (attributes_from_extensions (cx_source c) (cx_file c) (field_extensions specifiers d)))))))"

text \<open>The fields that one declaration in a record body declares, after those there are.\<close>

definition push_some :: "'a list \<Rightarrow> 'a option \<Rightarrow> 'a list" where
  "push_some xs v = (case v of None \<Rightarrow> xs | Some x \<Rightarrow> xs @ [x])"

fun lower_field_declarators ::
  "extraction_context \<Rightarrow> extractor \<Rightarrow> declaration_id \<Rightarrow> specifier_qualifier node list \<Rightarrow>
    struct_declarator node list \<Rightarrow> source_field list \<Rightarrow> source_field list outcome" where
  "lower_field_declarators c ex parent specifiers [] done_fields = Ok done_fields"
| "lower_field_declarators c ex parent specifiers (d # ds) done_fields =
     and_then (lower_field c ex parent specifiers
         (map_option node (struct_declarator_declarator (node d))) (struct_declarator_bit_width (node d))
         (node_span d) (length done_fields))
       (\<lambda>v. lower_field_declarators c ex parent specifiers ds (push_some done_fields v))"

definition lower_fields ::
  "extraction_context \<Rightarrow> extractor \<Rightarrow> declaration_id \<Rightarrow> struct_field node \<Rightarrow> source_field list \<Rightarrow>
    source_field list outcome" where
  "lower_fields c ex parent f done_fields =
     (let specifiers = struct_field_specifiers (node f) in
      if struct_field_declarators (node f) = [] then
        map_outcome (push_some done_fields)
          (lower_field c ex parent specifiers None None (node_span f) (length done_fields))
      else lower_field_declarators c ex parent specifiers (struct_field_declarators (node f)) done_fields)"

text \<open>A field without a size is the last and not the first member of a struct, or it is refused.\<close>

definition generated_range_text :: "string \<Rightarrow> source_range \<Rightarrow> string option outcome" where
  "generated_range_text source r =
     (if range_start r \<le> range_end r \<and> range_end r \<le> length source
      then map_outcome Some (source_slice source (range_start r) (range_end r)) else Ok None)"

definition unsized_array :: "c_type \<Rightarrow> bool" where
  "unsized_array ty \<longleftrightarrow> (case ty_kind ty of Array _ bound _ \<Rightarrow> bound = IncompleteBound | _ \<Rightarrow> False)"

fun set_bound :: "array_bound \<Rightarrow> c_type \<Rightarrow> c_type" where
  "set_bound bound (CType q n (Array element _ aq) support) = CType q n (Array element bound aq) support"
| "set_bound bound ty = ty"

fun check_unsized ::
  "extraction_context \<Rightarrow> bool \<Rightarrow> nat \<Rightarrow> nat \<Rightarrow> source_field list \<Rightarrow> (source_field list \<times> source_range list) outcome" where
  "check_unsized c is_struct count index [] = Ok ([], [])"
| "check_unsized c is_struct count index (f # fs) =
     and_then (check_unsized c is_struct count (Suc index) fs) (\<lambda>(rest, invalid).
       if \<not> unsized_array (fld_ty f) then Ok (f # rest, invalid)
       else if is_struct \<and> 0 < index \<and> index + 1 = count
       then Ok (f\<lparr>fld_ty := set_bound FlexibleBound (fld_ty f)\<rparr> # rest, invalid)
       else map_outcome (\<lambda>t.
         let spelling = (case t of Some u \<Rightarrow> u | None \<Rightarrow> join_space (fld_tokens f)) in
         (f\<lparr>fld_ty := set_bound (InvalidBound spelling (DiagnosticCode ''PARC-E1212'')) (fld_ty f),
            fld_support := unsupported_status ''PARC-E1212''
              ''an unsized field is only valid as the final non-first struct member''\<rparr> # rest,
          fld_range f # invalid))
         (generated_range_text (cx_source c) (fld_range f)))"

definition push_unsized :: "extraction_context \<Rightarrow> declaration_id \<Rightarrow> source_range list \<Rightarrow> extractor \<Rightarrow> extractor" where
  "push_unsized c i ranges ex =
     fold (\<lambda>r. push_error c ''PARC-E1212'' ''an unsized field is only valid as the final non-first struct member''
       (Some r) (Some i)) ranges ex"

definition record_kind_of :: "struct_kind \<Rightarrow> record_kind" where
  "record_kind_of k = (case k of StructKind_Struct \<Rightarrow> Struct | StructKind_Union \<Rightarrow> Union)"

text \<open>The start and the end of \<open>lower_record\<close>, around the loop over the members.\<close>

definition open_record ::
  "extraction_context \<Rightarrow> c_identifier node option \<Rightarrow> struct_declaration node list option \<Rightarrow>
    c_extension node list \<Rightarrow> span \<Rightarrow> extractor \<Rightarrow> (declaration_id \<times> nat option \<times> extractor) outcome" where
  "open_record c identifier declarations extensions s ex =
     and_then (tag_id ex identifier s) (\<lambda>i.
       case split_alignment c extensions None of (alignment, others) \<Rightarrow>
         map_outcome (\<lambda>ex'. (i, alignment, ex'))
           (add_occurrence c i s (map_option node_span identifier) NoStorage (declarations \<noteq> None) others ex))"

definition close_record ::
  "extraction_context \<Rightarrow> declaration_id \<Rightarrow> struct_kind \<Rightarrow> bool \<Rightarrow> nat option \<Rightarrow> source_field list \<Rightarrow> extractor \<Rightarrow>
    extractor outcome" where
  "close_record c i kind has_body alignment members ex =
     and_then (if has_body then check_unsized c (kind = StructKind_Struct) (length members) 0 members
         else Ok (members, [])) (\<lambda>(checked_members, invalid).
       set_kind c i (RecordDecl
         \<lparr>rec_kind = record_kind_of kind,
          rec_completeness = (if has_body then CompleteRecord else IncompleteRecord),
          rec_fields = checked_members, rec_alignment = alignment, rec_packing = None\<rparr>)
         (push_unsized c i invalid ex))"

subsection \<open>Enumerations\<close>

definition increment_exact_integer :: "exact_integer \<Rightarrow> exact_integer option" where
  "increment_exact_integer value =
     (case value of
        SignedInt v \<Rightarrow> map_option SignedInt (checked (v + 1))
      | UnsignedInt v \<Rightarrow> if v + 1 < 2 ^ 128 then Some (UnsignedInt (v + 1)) else None)"

text \<open>The integer range of the type that a cast names, through at most 64 lowered type aliases.\<close>

fun alias_range :: "extraction_context \<Rightarrow> extractor \<Rightarrow> nat \<Rightarrow> c_type \<Rightarrow> (nat \<times> bool) option" where
  "alias_range c ex 0 ty = None"
| "alias_range c ex (Suc n) ty =
     (case ty_kind ty of
        Contract.Integer t \<Rightarrow> integer_range (cx_sizes c) t
      | AliasRef i \<Rightarrow>
          (case Option.bind (map_of (ex_drafts ex) i) dr_kind of
             Some (TypeAliasDecl target) \<Rightarrow> alias_range c ex n target
           | _ \<Rightarrow> None)
      | _ \<Rightarrow> None)"

definition cast_range_of :: "extraction_context \<Rightarrow> extractor \<Rightarrow> type_name \<Rightarrow> (nat \<times> bool) option outcome" where
  "cast_range_of c ex name =
     map_outcome (alias_range c ex 64)
       (field_type (resolver_of c ex) (type_name_specifiers name) (map_option node (type_name_declarator name)))"

text \<open>The closure over the enumerators: its state is the next value, the previous name and the values so far.\<close>

type_synonym enum_state = "exact_integer option \<times> string option \<times> (string \<Rightarrow> exact_integer option)"

definition implicit_value :: "exact_integer option \<Rightarrow> string option \<Rightarrow> enum_value" where
  "implicit_value next previous =
     (case next of
        Some v \<Rightarrow> Evaluated v
      | None \<Rightarrow> Unevaluated ((case previous of Some n \<Rightarrow> n | None \<Rightarrow> ''previous enumerator'') @ '' + 1''))"

text \<open>The value of an enumerator, if it has one, and the next value.\<close>

definition enumerator_value ::
  "extraction_context \<Rightarrow> extractor \<Rightarrow> expression node option \<Rightarrow> enum_state \<Rightarrow>
    (enum_value option \<times> exact_integer option) outcome" where
  "enumerator_value c ex e = (\<lambda>(next, previous, values).
     case e of
       Some x \<Rightarrow>
         and_then (eval_exact_integer_in_env (cx_checks c) values (cx_sizes c) (cast_range_of c ex) (node x))
           (\<lambda>r. case r of
              Some v \<Rightarrow> Ok (Some (Evaluated v), increment_exact_integer v)
            | None \<Rightarrow> map_outcome (\<lambda>t. (map_option Unevaluated t, None)) (ex_text c (node_span x)))
     | None \<Rightarrow> Ok (Some (implicit_value next previous), Option.bind next increment_exact_integer))"

definition variant_support :: "enum_value \<Rightarrow> support_status" where
  "variant_support value =
     (case value of
        Unevaluated _ \<Rightarrow> partial_status ''PARC-P1203''
          ''enumerator value could not be evaluated without guessing''
      | Evaluated _ \<Rightarrow> Supported)"

text \<open>The parts of an enumerator that can fail before its value: range, name and identifier.\<close>

definition variant_head ::
  "extraction_context \<Rightarrow> declaration_id \<Rightarrow> enumerator node \<Rightarrow> (source_range \<times> source_name \<times> child_id) option" where
  "variant_head c i e =
     (let original = c_identifier_name (node (enumerator_identifier (node e))) in
      case (ex_range c (node_span e), normalize_identifier (cx_nfc c) original) of
        (Some bounds, Inr normalized) \<Rightarrow>
          (case child_named (cx_hash c) (cx_nfc c) i EnumVariant normalized of
             Inr child \<Rightarrow> Some (bounds, source_name_of normalized original, child)
           | Inl _ \<Rightarrow> None)
      | _ \<Rightarrow> None)"

definition lower_enumerator ::
  "extraction_context \<Rightarrow> extractor \<Rightarrow> declaration_id \<Rightarrow> enumerator node \<Rightarrow> enum_state \<Rightarrow>
    (source_enum_variant option \<times> enum_state) outcome" where
  "lower_enumerator c ex i e state =
     (case variant_head c i e of
        None \<Rightarrow> Ok (None, state)
      | Some (bounds, name, child) \<Rightarrow>
          and_then (enumerator_value c ex (enumerator_expression (node e)) state) (\<lambda>(value, next).
            case value of
              None \<Rightarrow> Ok (None, (next, snd state))
            | Some v \<Rightarrow>
                (let values = snd (snd state);
                     state' = (next, Some (nm_normalized name),
                       (case v of Evaluated n \<Rightarrow> values(nm_original name \<mapsto> n) | Unevaluated _ \<Rightarrow> values))
                 in and_then (attributes_from_extensions (cx_source c) (cx_file c) (enumerator_extensions (node e)))
                   (\<lambda>(attributes, invalid).
                   map_outcome (\<lambda>tokens. (map_option (\<lambda>ts.
                     \<lparr>var_id = child, var_name = name, var_value = v, var_range = bounds,
                      var_provenance = generated_provenance, var_attributes = attributes,
                      var_support = attributed_support ''an enumerator attribute had an invalid generated-source span''
                        ''PARC-P1202'' ''enumerator has an unmodeled source attribute'' invalid
                        (enumerator_extensions (node e)) (variant_support v),
                      var_tokens = ts, var_ordinal = 0\<rparr>) tokens, state'))
                     (ex_tokens c (node_span e))))))"

fun lower_enumerators ::
  "extraction_context \<Rightarrow> extractor \<Rightarrow> declaration_id \<Rightarrow> enumerator node list \<Rightarrow> enum_state \<Rightarrow>
    source_enum_variant list outcome" where
  "lower_enumerators c ex i [] state = Ok []"
| "lower_enumerators c ex i (e # es) state =
     and_then (lower_enumerator c ex i e state) (\<lambda>(v, state').
       map_outcome (\<lambda>vs. case v of None \<Rightarrow> vs | Some x \<Rightarrow> x # vs) (lower_enumerators c ex i es state'))"

definition lower_enum :: "extraction_context \<Rightarrow> enum_type \<Rightarrow> span \<Rightarrow> extractor \<Rightarrow> extractor outcome" where
  "lower_enum c e s ex =
     and_then (tag_id ex (enum_type_identifier e) s) (\<lambda>i.
     and_then (add_occurrence c i s (map_option node_span (enum_type_identifier e)) NoStorage
         (enum_type_enumerators e \<noteq> []) [] ex) (\<lambda>ex'.
     and_then (lower_enumerators c ex' i (enum_type_enumerators e) (Some (SignedInt 0), None, (\<lambda>_. None)))
       (\<lambda>variants. set_kind c i (EnumDecl \<lparr>enum_underlying = None, enum_variants = variants\<rparr>) ex')))"

subsection \<open>Second pass\<close>

function (sequential)
  lower_type_specifier :: "extraction_context \<Rightarrow> type_specifier node \<Rightarrow> extractor \<Rightarrow> extractor outcome" and
  lower_members :: "extraction_context \<Rightarrow> declaration_id \<Rightarrow> struct_declaration node list \<Rightarrow> source_field list \<Rightarrow>
    extractor \<Rightarrow> (source_field list \<times> extractor) outcome" and
  lower_field_type_specifiers :: "extraction_context \<Rightarrow> specifier_qualifier node list \<Rightarrow> extractor \<Rightarrow> extractor outcome"
where
  "lower_type_specifier c (Node (TypeSpecifier_Struct (Node (StructType kind identifier declarations extensions) s)) p) ex =
     and_then (open_record c identifier declarations extensions s ex) (\<lambda>(i, alignment, ex1).
     and_then (case declarations of None \<Rightarrow> Ok ([], ex1) | Some ds \<Rightarrow> lower_members c i ds [] ex1)
       (\<lambda>(members, ex2). close_record c i (node kind) (declarations \<noteq> None) alignment members ex2))"
| "lower_type_specifier c (Node (TypeSpecifier_Enum e) p) ex = lower_enum c (node e) (node_span e) ex"
| "lower_type_specifier c (Node (TypeSpecifier_Atomic (Node (TypeName specifiers declarator) q)) p) ex =
     lower_field_type_specifiers c specifiers ex"
| "lower_type_specifier c _ ex = Ok ex"
| "lower_members c parent [] members ex = Ok (members, ex)"
| "lower_members c parent (Node (StructDeclaration_Field (Node (StructField specifiers declarators) q)) p # ds) members ex =
     and_then (lower_field_type_specifiers c specifiers ex) (\<lambda>ex'.
     and_then (lower_fields c ex' parent (Node (StructField specifiers declarators) q) members) (\<lambda>members'.
       lower_members c parent ds members' ex'))"
| "lower_members c parent (_ # ds) members ex = lower_members c parent ds members ex"
| "lower_field_type_specifiers c [] ex = Ok ex"
| "lower_field_type_specifiers c (Node (SpecifierQualifier_TypeSpecifier t) p # specifiers) ex =
     and_then (lower_type_specifier c t ex) (\<lambda>ex'. lower_field_type_specifiers c specifiers ex')"
| "lower_field_type_specifiers c (_ # specifiers) ex = lower_field_type_specifiers c specifiers ex"
  by pat_completeness auto

termination
  apply (relation "measure (\<lambda>x. case x of
    Inl (c, t, ex) \<Rightarrow> size (node t)
  | Inr (Inl (c, i, ds, members, ex)) \<Rightarrow> struct_size ds
  | Inr (Inr (c, ss, ex)) \<Rightarrow> fields_size ss)")
  by (auto simp: struct_size_def fields_size_def size_node_Suc [of size])

fun lower_type_specifiers :: "extraction_context \<Rightarrow> declaration_specifier node list \<Rightarrow> extractor \<Rightarrow> extractor outcome" where
  "lower_type_specifiers c [] ex = Ok ex"
| "lower_type_specifiers c (s # specifiers) ex =
     and_then (case declaration_type_spec (node s) of Some t \<Rightarrow> lower_type_specifier c t ex | None \<Rightarrow> Ok ex)
       (lower_type_specifiers c specifiers)"

fun storage_of_specifier :: "declaration_specifier \<Rightarrow> storage_class option" where
  "storage_of_specifier (DeclarationSpecifier_StorageClass k) = Some (case node k of
       StorageClassSpecifier_Typedef \<Rightarrow> TypedefStorage
     | StorageClassSpecifier_Extern \<Rightarrow> ExternStorage
     | StorageClassSpecifier_Static \<Rightarrow> StaticStorage
     | StorageClassSpecifier_ThreadLocal \<Rightarrow> ThreadLocal
     | StorageClassSpecifier_Auto \<Rightarrow> Auto
     | StorageClassSpecifier_Register \<Rightarrow> Register
     | StorageClassSpecifier_Constexpr \<Rightarrow> NoStorage)"
| "storage_of_specifier _ = None"

definition declaration_storage :: "declaration_specifier node list \<Rightarrow> storage_class" where
  "declaration_storage specifiers =
     (case find_map (storage_of_specifier \<circ> node) specifiers of Some k \<Rightarrow> k | None \<Rightarrow> NoStorage)"

definition declaration_is_definition :: "bool \<Rightarrow> bool \<Rightarrow> storage_class \<Rightarrow> bool \<Rightarrow> bool" where
  "declaration_is_definition is_typedef is_function storage has_initializer \<longleftrightarrow>
     is_typedef \<or> \<not> is_function \<and> (has_initializer \<or> storage \<noteq> ExternStorage)"

text \<open>The kind of a declarator: a type alias, a function or a variable.\<close>

definition lower_declarator_kind ::
  "extraction_context \<Rightarrow> extractor \<Rightarrow> declaration_specifier node list \<Rightarrow> declarator \<Rightarrow> string \<Rightarrow>
    c_extension node list \<Rightarrow> source_declaration_kind outcome" where
  "lower_declarator_kind c ex specifiers d name extensions =
     (if declaration_storage specifiers = TypedefStorage then
        map_outcome TypeAliasDecl (declaration_type (resolver_of c ex) specifiers (Some d))
      else if is_function_declarator d then lower_function_kind c ex specifiers d name extensions
      else map_outcome (\<lambda>ty.
        case asm_link_name extensions of
          Inr link_name \<Rightarrow> VariableDecl
            \<lparr>vr_link_name = (case link_name of Some n \<Rightarrow> n | None \<Rightarrow> name), vr_ty = ty,
             vr_thread_local = has_storage specifiers StorageClassSpecifier_ThreadLocal\<rparr>
        | Inl spelling \<Rightarrow> unsupported_decl UnsupportedExtension ''PARC-E1211'' spelling)
        (declaration_type (resolver_of c ex) specifiers (Some d)))"

text \<open>What a declarator and a function definition do after their occurrence and kind are known.\<close>

definition finish_declarator ::
  "extraction_context \<Rightarrow> declaration_id \<Rightarrow> source_declaration_kind \<Rightarrow> c_extension node list \<Rightarrow>
    declaration_specifier node list \<Rightarrow> extractor \<Rightarrow> extractor outcome" where
  "finish_declarator c i kind extensions specifiers ex =
     and_then (set_kind c i kind ex) (\<lambda>ex1.
     and_then (apply_extension_support c i extensions ex1) (apply_specifier_support c i specifiers))"

definition lower_init_declarator ::
  "extraction_context \<Rightarrow> declaration_specifier node list \<Rightarrow> init_declarator node \<Rightarrow> extractor \<Rightarrow> extractor outcome" where
  "lower_init_declarator c specifiers init ex =
     (let d = node (init_declarator_declarator (node init)); storage = declaration_storage specifiers in
      case declarator_name d of
        None \<Rightarrow> Ok (push_unbound_declarator_diagnostic c (node_span init)
            ''a top-level declarator has no bindable identifier'' ex)
      | Some name \<Rightarrow>
          (case ex_ordinary ex name of
             None \<Rightarrow> Ok (push_unbound_declarator_diagnostic c (node_span init)
                 (''declarator '' @ name @ '' was not indexed before lowering'') ex)
           | Some i \<Rightarrow>
               (let extensions = declaration_extensions specifiers d in
                and_then (add_occurrence c i (node_span init) (declarator_name_span d) storage
                    (declaration_is_definition (storage = TypedefStorage) (is_function_declarator d) storage
                      (init_declarator_initializer (node init) \<noteq> None)) extensions ex) (\<lambda>ex'.
                and_then (lower_declarator_kind c ex' specifiers d name extensions) (\<lambda>kind.
                  finish_declarator c i kind extensions specifiers ex')))))"

fun lower_init_declarators ::
  "extraction_context \<Rightarrow> declaration_specifier node list \<Rightarrow> init_declarator node list \<Rightarrow> extractor \<Rightarrow> extractor outcome" where
  "lower_init_declarators c specifiers [] ex = Ok ex"
| "lower_init_declarators c specifiers (d # ds) ex =
     and_then (lower_init_declarator c specifiers d ex) (lower_init_declarators c specifiers ds)"

definition lower_declaration :: "extraction_context \<Rightarrow> c_declaration \<Rightarrow> extractor \<Rightarrow> extractor outcome" where
  "lower_declaration c d ex =
     and_then (lower_type_specifiers c (c_declaration_specifiers d) ex)
       (lower_init_declarators c (c_declaration_specifiers d) (c_declaration_declarators d))"

definition lower_function_definition :: "extraction_context \<Rightarrow> function_definition \<Rightarrow> span \<Rightarrow> extractor \<Rightarrow> extractor outcome" where
  "lower_function_definition c f s ex0 =
     (let specifiers = function_definition_specifiers f; d = node (function_definition_declarator f) in
      and_then (lower_type_specifiers c specifiers ex0) (\<lambda>ex.
      case declarator_name d of
        None \<Rightarrow> Ok (push_unbound_declarator_diagnostic c s ''a function definition has no bindable identifier'' ex)
      | Some name \<Rightarrow>
          (case ex_ordinary ex name of
             None \<Rightarrow> Ok (push_unbound_declarator_diagnostic c s
                 (''function '' @ name @ '' was not indexed before lowering'') ex)
           | Some i \<Rightarrow>
               (let extensions = declaration_extensions specifiers d in
                and_then (add_occurrence c i s (declarator_name_span d) (declaration_storage specifiers) True
                    extensions ex) (\<lambda>ex'.
                and_then (lower_function_kind c ex' specifiers d name extensions) (\<lambda>kind.
                  finish_declarator c i kind extensions specifiers ex'))))))"

definition lower_external :: "extraction_context \<Rightarrow> external_declaration node \<Rightarrow> extractor \<Rightarrow> extractor outcome" where
  "lower_external c e ex =
     (case node e of
        ExternalDeclaration_Declaration d \<Rightarrow> lower_declaration c (node d) ex
      | ExternalDeclaration_FunctionDefinition f \<Rightarrow> lower_function_definition c (node f) (node_span e) ex
      | ExternalDeclaration_StaticAssert a \<Rightarrow>
          Ok (push_diagnostic (ex_diagnostic c ''PARC-P1200'' diagnostic_stage.Extract Note Informational
            ''_Static_assert has no bindable declaration'' (ex_range c (node_span e)) None) ex))"

fun lower_externals :: "extraction_context \<Rightarrow> external_declaration node list \<Rightarrow> extractor \<Rightarrow> extractor outcome" where
  "lower_externals c [] ex = Ok ex"
| "lower_externals c (e # es) ex = and_then (lower_external c e ex) (lower_externals c es)"

definition lower_translation_unit :: "extraction_context \<Rightarrow> translation_unit \<Rightarrow> extractor \<Rightarrow> extractor outcome" where
  "lower_translation_unit c u = lower_externals c (unit_externals u)"

subsection \<open>The end\<close>

text \<open>Iteration over an ordered map.\<close>

definition in_key_order :: "('k::linorder \<times> 'v) list \<Rightarrow> ('k \<times> 'v) list" where
  "in_key_order m = sort_key fst m"

definition no_occurrence :: "extractor \<Rightarrow> declaration_id \<Rightarrow> bool" where
  "no_occurrence ex i \<longleftrightarrow> (case map_of (ex_drafts ex) i of None \<Rightarrow> True | Some d \<Rightarrow> dr_occurrences d = [])"

definition report_missing_occurrences :: "extraction_context \<Rightarrow> extractor \<Rightarrow> extractor" where
  "report_missing_occurrences c ex =
     fold (\<lambda>_. push_error c ''PARC-E1208'' ''an indexed declaration had no contract-safe source occurrence'' None None)
       (filter (no_occurrence ex) (map fst (in_key_order (ex_metadata ex)))) ex"

definition missing_kind :: "declaration_draft \<Rightarrow> bool" where
  "missing_kind d \<longleftrightarrow> dr_kind d = None \<and> dr_occurrences d \<noteq> []"

definition kindless_draft :: "declaration_draft \<Rightarrow> declaration_draft" where
  "kindless_draft d =
     d\<lparr>dr_kind := Some (unsupported_decl InvalidDeclaration ''PARC-E1209'' (occ_spelling (hd (dr_occurrences d)))),
       dr_support := unsupported_status ''PARC-E1209''
         ''the declaration kind could not be lowered without guessing''\<rparr>"

definition fill_missing_kind ::
  "extraction_context \<Rightarrow> declaration_id \<times> declaration_draft \<Rightarrow> extractor \<Rightarrow> extractor" where
  "fill_missing_kind c = (\<lambda>(i, d) ex.
     push_error c ''PARC-E1209'' ''the declaration kind could not be lowered without guessing''
       (Some (occ_range (hd (dr_occurrences d)))) (Some i)
       (ex\<lparr>ex_drafts := AList.update i (kindless_draft d) (ex_drafts ex)\<rparr>))"

definition fill_missing_kinds :: "extraction_context \<Rightarrow> extractor \<Rightarrow> extractor" where
  "fill_missing_kinds c ex =
     fold (fill_missing_kind c) (filter (\<lambda>(i, d). missing_kind d) (in_key_order (ex_drafts ex))) ex"

text \<open>A status other than \<open>Supported\<close> is reported, unless there is a diagnostic with its code already.\<close>

definition already_reported :: "extractor \<Rightarrow> declaration_id \<Rightarrow> diagnostic_code \<Rightarrow> bool" where
  "already_reported ex i code \<longleftrightarrow>
     list_ex (\<lambda>d. diag_code d = code \<and> diag_declaration d = Some i) (ex_diagnostics ex)"

definition report_status :: "extraction_context \<Rightarrow> declaration_id \<times> declaration_draft \<Rightarrow> extractor \<Rightarrow> extractor" where
  "report_status c = (\<lambda>(i, d) ex.
     (let report = (\<lambda>code reason sev impact.
        if already_reported ex i code then ex
        else push_diagnostic (ex_diagnostic c (code_str code) diagnostic_stage.Extract sev impact reason
          (map_option occ_range (last_opt (dr_occurrences d))) (Some i)) ex)
      in case dr_support d of
           Supported \<Rightarrow> ex
         | PartialSupport code reason \<Rightarrow> report code reason Warning ForcesPartial
         | UnsupportedSupport code reason \<Rightarrow> report code reason Error ForcesRejected))"

definition report_statuses :: "extraction_context \<Rightarrow> extractor \<Rightarrow> extractor" where
  "report_statuses c ex = fold (report_status c) (in_key_order (ex_drafts ex)) ex"

text \<open>A draft becomes a declaration; \<open>expect\<close> asks for its kind.\<close>

definition declaration_of_draft :: "declaration_id \<Rightarrow> declaration_draft \<Rightarrow> source_declaration_kind \<Rightarrow> source_declaration" where
  "declaration_of_draft i d kind =
     \<lparr>decl_id = i, decl_identity = meta_identity (dr_meta d), decl_name = meta_name (dr_meta d),
      decl_linkage = meta_linkage (dr_meta d), decl_visibility = dr_visibility d,
      decl_occurrences = sort_key occ_id (dr_occurrences d), decl_support = dr_support d, decl_kind = kind\<rparr>"

fun collect_declarations :: "(declaration_id \<times> declaration_draft) list \<Rightarrow> source_declaration list outcome" where
  "collect_declarations [] = Ok []"
| "collect_declarations ((i, d) # rest) =
     (if dr_occurrences d = [] then collect_declarations rest
      else case dr_kind d of
          None \<Rightarrow> Panic ExpectFailed
        | Some kind \<Rightarrow> map_outcome (\<lambda>ds. declaration_of_draft i d kind # ds) (collect_declarations rest))"

definition finish_extraction :: "extraction_context \<Rightarrow> extractor \<Rightarrow> extraction_output outcome" where
  "finish_extraction c ex0 =
     (let ex = report_statuses c (fill_missing_kinds c (report_missing_occurrences c ex0)) in
      map_outcome (\<lambda>ds. \<lparr>out_declarations = sort_key decl_id ds,
          out_diagnostics = remdups_adj (sort (ex_diagnostics ex))\<rparr>)
        (collect_declarations (in_key_order (ex_drafts ex))))"

definition extract_contract :: "extraction_context \<Rightarrow> translation_unit \<Rightarrow> extraction_output outcome" where
  "extract_contract c u =
     and_then (index_translation_unit c u extractor_new) (\<lambda>ex.
     and_then (lower_translation_unit c u ex) (finish_extraction c))"

end
