(* ===== verification/Lowering.thy ===== *)
theory Lowering
  imports Extract
begin

text \<open>
  What the extraction guarantees.  The second pass changes the extractor by a few kinds of steps only; the invariants are proved of the
  steps, and every method is shown to be a sequence of them.
\<close>

subsection \<open>Steps of the second pass\<close>

text \<open>A diagnostic of the extraction; one about a declaration does not reject the package.\<close>

definition proper_diagnostic :: "extraction_context \<Rightarrow> source_diagnostic \<Rightarrow> bool" where
  "proper_diagnostic c d \<longleftrightarrow>
     diag_stage d = diagnostic_stage.Extract \<and> diag_target d = cx_target c \<and>
     (diag_declaration d \<noteq> None \<longrightarrow> diag_impact d \<noteq> ForcesRejected)"

lemma proper_ex_diagnostic [simp]:
  "proper_diagnostic c (ex_diagnostic c code diagnostic_stage.Extract sev impact message bounds i)"
  by (simp add: proper_diagnostic_def ex_diagnostic_def)

inductive lower_step :: "extraction_context \<Rightarrow> extractor \<Rightarrow> extractor \<Rightarrow> bool" for c where
  step_push: "proper_diagnostic c d \<Longrightarrow> lower_step c ex (push_diagnostic d ex)"
| step_draft: "draft_of c i ex = Ok d \<Longrightarrow> dr_meta d' = dr_meta d \<Longrightarrow>
    lower_step c ex (ex\<lparr>ex_drafts := AList.update i d' (ex_drafts ex)\<rparr>)"
| step_ordinals: "lower_step c ex (ex\<lparr>ex_occurrence_ordinals := ordinals\<rparr>)"
| step_aliases: "lower_step c ex (ex\<lparr>ex_aliases := aliases\<rparr>)"

abbreviation lowers :: "extraction_context \<Rightarrow> extractor \<Rightarrow> extractor \<Rightarrow> bool" where
  "lowers c \<equiv> (lower_step c)\<^sup>*\<^sup>*"

lemma lowers_trans: "lowers c ex ex' \<Longrightarrow> lowers c ex' ex'' \<Longrightarrow> lowers c ex ex''"
  by (rule rtranclp_trans)

lemma lowers_push: "proper_diagnostic c d \<Longrightarrow> lowers c ex (push_diagnostic d ex)"
  by (simp add: step_push r_into_rtranclp)

lemma lowers_push_error: "lowers c ex (push_error c code message bounds i ex)"
  by (simp add: push_error_def lowers_push)

lemma lowers_unbound: "lowers c ex (push_unbound_declarator_diagnostic c s message ex)"
  by (simp add: push_unbound_declarator_diagnostic_def lowers_push_error)

lemma lowers_with_draft:
  "with_draft c i f ex = Ok ex' \<Longrightarrow> (\<And>d. dr_meta (f d) = dr_meta d) \<Longrightarrow> lowers c ex ex'"
  by (auto simp: with_draft_def map_outcome_Ok_iff intro!: r_into_rtranclp step_draft)

lemma lowers_aliases: "lowers c ex (update_aliases i ex)"
  by (auto simp: update_aliases_def Let_def intro!: r_into_rtranclp step_aliases)

text \<open>A method that makes such steps if it returns.\<close>

definition lowering :: "extraction_context \<Rightarrow> (extractor \<Rightarrow> extractor outcome) \<Rightarrow> bool" where
  "lowering c f \<longleftrightarrow> (\<forall>ex ex'. f ex = Ok ex' \<longrightarrow> lowers c ex ex')"

named_theorems lowering_intros "methods that only make steps of the second pass"

lemma loweringI: "(\<And>ex ex'. f ex = Ok ex' \<Longrightarrow> lowers c ex ex') \<Longrightarrow> lowering c f"
  by (simp add: lowering_def)

lemma loweringD: "lowering c f \<Longrightarrow> f ex = Ok ex' \<Longrightarrow> lowers c ex ex'"
  by (simp add: lowering_def)

lemma lowering_Ok [lowering_intros]: "lowering c Ok"
  by (simp add: lowering_def)

lemma lowering_pure: "(\<And>ex. lowers c ex (f ex)) \<Longrightarrow> lowering c (\<lambda>ex. Ok (f ex))"
  by (simp add: lowering_def)

lemma lowering_and_then [lowering_intros]:
  "lowering c f \<Longrightarrow> lowering c g \<Longrightarrow> lowering c (\<lambda>ex. and_then (f ex) g)"
  unfolding lowering_def and_then_Ok_iff by (blast intro: lowers_trans)

lemma lowering_when [lowering_intros]: "lowering c f \<Longrightarrow> lowering c (when_ok b f)"
  by (auto simp: lowering_def when_ok_def)

lemma lowering_map: "lowering c f \<Longrightarrow> (\<And>ex. lowers c ex (g ex)) \<Longrightarrow> lowering c (\<lambda>ex. map_outcome g (f ex))"
  unfolding lowering_def map_outcome_Ok_iff by (blast intro: lowers_trans)

lemma lowering_with_draft [lowering_intros]: "(\<And>d. dr_meta (f d) = dr_meta d) \<Longrightarrow> lowering c (with_draft c i f)"
  by (auto simp: lowering_def intro: lowers_with_draft)

lemma lowering_refuse [lowering_intros]: "lowering c (refuse c i code message bounds)"
  unfolding refuse_def [abs_def] by (intro lowering_map lowering_with_draft lowers_push_error) simp

lemma lowering_record_occurrence: "lowering c (record_occurrence c i bounds ns sp ts st def es)"
proof (rule loweringI)
  fix ex0 ex'
  assume "record_occurrence c i bounds ns sp ts st def es ex0 = Ok ex'"
  then obtain ordinals invalid g where
    g: "with_draft c i g (if invalid then push_error c ''PARC-E1210''
        ''a declaration attribute had an invalid generated-source span'' (Some bounds) (Some i)
          (ex0\<lparr>ex_occurrence_ordinals := ordinals\<rparr>)
      else ex0\<lparr>ex_occurrence_ordinals := ordinals\<rparr>) = Ok ex'" "\<And>d. dr_meta (g d) = dr_meta d"
    by (auto simp: record_occurrence_def Let_def and_then_Ok_iff)
  have 1: "lowers c ex0 (ex0\<lparr>ex_occurrence_ordinals := ordinals\<rparr>)"
    by (intro r_into_rtranclp step_ordinals)
  have 2: "lowers c (ex0\<lparr>ex_occurrence_ordinals := ordinals\<rparr>) (if invalid then push_error c ''PARC-E1210''
        ''a declaration attribute had an invalid generated-source span'' (Some bounds) (Some i)
          (ex0\<lparr>ex_occurrence_ordinals := ordinals\<rparr>)
      else ex0\<lparr>ex_occurrence_ordinals := ordinals\<rparr>)"
    by (simp add: lowers_push_error)
  show "lowers c ex0 ex'" using lowers_trans [OF lowers_trans [OF 1 2]] lowers_with_draft [OF g] by blast
qed

lemma lowering_add_occurrence [lowering_intros]: "lowering c (add_occurrence c i s ns st def es)"
  using lowering_record_occurrence [of c i]
  by (intro loweringI)
    (auto simp: add_occurrence_def and_then_Ok_iff lowering_def lowers_push_error split: option.splits)

lemma meta_updated_draft [simp]: "dr_meta (updated_draft kind d) = dr_meta d"
  by (simp add: updated_draft_def conflict_draft_def Let_def split: redeclaration_action.split)

lemma lowering_set_kind [lowering_intros]: "lowering c (set_kind c i kind)"
proof (rule loweringI)
  fix ex ex'
  assume "set_kind c i kind ex = Ok ex'"
  then obtain d ex1 where e: "with_draft c i (updated_draft kind) ex = Ok ex1"
    and ex': "ex' = update_aliases i
         (if action_of d kind = Conflict \<and> dr_occurrences d \<noteq> []
          then push_error c ''PARC-E1204'' ''one entity has semantically incompatible redeclarations''
            (map_option occ_range (last_opt (dr_occurrences d))) (Some i) ex1
          else ex1)" (is "_ = update_aliases i ?ex2")
    unfolding set_kind_def and_then_Ok_iff map_outcome_Ok_iff by blast
  have "lowers c ex ex1" using e by (rule lowers_with_draft) simp
  moreover have "lowers c ex1 ?ex2" by (simp add: lowers_push_error)
  moreover have "lowers c ?ex2 ex'" unfolding ex' by (rule lowers_aliases)
  ultimately show "lowers c ex ex'" by (blast intro: lowers_trans)
qed

text \<open>The methods, from the inside out.\<close>

lemma lowering_extension_support [lowering_intros]: "lowering c (apply_extension_support c i es)"
proof (rule loweringI)
  fix ex ex'
  let ?bounds = "last_range i ex"
  have l: "lowering c (refuse c i code message ?bounds)" for code message
    by (rule lowering_refuse)
  have u: "lowering c (\<lambda>ex3. map_outcome (push_diagnostic (ex_diagnostic c ''PARC-P1205'' diagnostic_stage.Extract
      Warning ForcesPartial ''declaration contains an unmodeled ABI-relevant attribute'' ?bounds (Some i)))
    (with_draft c i (\<lambda>d. if dr_support d = Supported then d\<lparr>dr_support := partial_status ''PARC-P1205''
      ''declaration contains an unmodeled ABI-relevant attribute''\<rparr> else d) ex3))"
    by (intro lowering_map lowering_with_draft lowers_push) simp_all
  assume "apply_extension_support c i es ex = Ok ex'"
  then show "lowers c ex ex'"
    unfolding apply_extension_support_def Let_def and_then_Ok_iff
    using l u [THEN lowering_when] by (blast dest: loweringD [OF lowering_when] loweringD intro: lowers_trans)
qed

lemma lowering_specifier_support [lowering_intros]: "lowering c (apply_specifier_support c i specifiers)"
proof (induction specifiers)
  case (Cons s specifiers)
  then show ?case
    unfolding apply_specifier_support.simps(2) [abs_def] by (intro lowering_intros)
qed (simp add: lowering_def)

lemma lowering_finish_declarator: "lowering c (finish_declarator c i kind es specifiers)"
  unfolding finish_declarator_def [abs_def] by (intro lowering_intros)

lemma lowers_finish_declarator: "finish_declarator c i kind es specifiers ex = Ok ex' \<Longrightarrow> lowers c ex ex'"
  by (rule loweringD [OF lowering_finish_declarator])

lemma lowers_add_occurrence: "add_occurrence c i s ns st def es ex = Ok ex' \<Longrightarrow> lowers c ex ex'"
  by (rule loweringD [OF lowering_add_occurrence])

lemma lowers_set_kind: "set_kind c i kind ex = Ok ex' \<Longrightarrow> lowers c ex ex'"
  by (rule loweringD [OF lowering_set_kind])

lemma lowers_enum: "lower_enum c e s ex = Ok ex' \<Longrightarrow> lowers c ex ex'"
  unfolding lower_enum_def and_then_Ok_iff using lowers_add_occurrence lowers_set_kind lowers_trans by blast

lemma lowers_open_record:
  assumes "open_record c identifier ds es s ex = Ok (i, alignment, ex')"
  shows "lowers c ex ex'"
proof -
  obtain al others where split: "split_alignment c es None = (al, others)" by fastforce
  show ?thesis
    using assms unfolding open_record_def split prod.case and_then_Ok_iff map_outcome_Ok_iff
    by (auto intro: lowers_add_occurrence)
qed

lemma lowers_push_unsized: "lowers c ex (push_unsized c i ranges ex)"
proof (induction ranges arbitrary: ex)
  case (Cons r ranges)
  show ?case
    unfolding push_unsized_def fold_simps comp_apply
    by (rule lowers_trans [OF lowers_push_error]) (rule Cons [unfolded push_unsized_def])
qed (simp add: push_unsized_def)

lemma lowers_close_record:
  assumes "close_record c i kind body alignment members ex = Ok ex'"
  shows "lowers c ex ex'"
proof -
  obtain ms invalid k where "set_kind c i k (push_unsized c i invalid ex) = Ok ex'"
    using assms unfolding close_record_def and_then_Ok_iff prod.case_eq_if by blast
  then show ?thesis by (rule lowers_trans [OF lowers_push_unsized lowers_set_kind])
qed

lemma lowers_type_specifier:
  "lower_type_specifier c t ex = Ok ex' \<Longrightarrow> lowers c ex ex'"
  "lower_members c parent ds members ex = Ok (members', ex') \<Longrightarrow> lowers c ex ex'"
  "lower_field_type_specifiers c specifiers ex = Ok ex' \<Longrightarrow> lowers c ex ex'"
proof (induction c t ex and c parent ds members ex and c specifiers ex arbitrary: ex' and members' ex' and ex'
    rule: lower_type_specifier_lower_members_lower_field_type_specifiers.induct)
  case (1 c kind name body es s p ex)
  then obtain i alignment ex1 members ex2 where
    1: "open_record c name body es s ex = Ok (i, alignment, ex1)"
    and 2: "(case body of None \<Rightarrow> Ok ([], ex1) | Some ds \<Rightarrow> lower_members c i ds [] ex1) = Ok (members, ex2)"
    and 3: "close_record c i (node kind) (body \<noteq> None) alignment members ex2 = Ok ex'"
    by (auto simp: and_then_Ok_iff)
  have "lowers c ex1 ex2" using 2 "1.IH" [OF 1 refl refl] by (cases body) auto
  then show ?case using lowers_open_record [OF 1] lowers_close_record [OF 3] by (meson lowers_trans)
next
  case (2 c e p ex)
  then show ?case by (simp add: lowers_enum)
qed (auto simp: and_then_Ok_iff, (meson lowers_trans)+)

lemma lowering_type_specifiers [lowering_intros]: "lowering c (lower_type_specifiers c specifiers)"
proof (induction specifiers)
  case (Cons s specifiers)
  have "lowering c (\<lambda>ex. case declaration_type_spec (node s) of
      Some t \<Rightarrow> lower_type_specifier c t ex | None \<Rightarrow> Ok ex)"
    by (cases "declaration_type_spec (node s)") (auto simp: lowering_def intro: lowers_type_specifier)
  with Cons show ?case
    unfolding lower_type_specifiers.simps(2) [abs_def] by (intro lowering_intros)
qed (simp add: lowering_def)

lemma lowering_init_declarator [lowering_intros]: "lowering c (lower_init_declarator c specifiers init)"
proof (rule loweringI)
  fix ex ex'
  assume *: "lower_init_declarator c specifiers init ex = Ok ex'"
  show "lowers c ex ex'"
  proof (cases "declarator_name (node (init_declarator_declarator (node init)))")
    case (Some name)
    then show ?thesis
      using * unfolding lower_init_declarator_def Let_def
      by (cases "ex_ordinary ex name")
        (auto simp: and_then_Ok_iff lowers_unbound
          dest!: lowers_add_occurrence lowers_finish_declarator intro: lowers_trans)
  qed (use * in \<open>auto simp: lower_init_declarator_def lowers_unbound\<close>)
qed

lemma lowering_init_declarators [lowering_intros]: "lowering c (lower_init_declarators c specifiers ds)"
proof (induction ds)
  case (Cons d ds)
  then show ?case
    unfolding lower_init_declarators.simps(2) [abs_def] by (intro lowering_intros)
qed (simp add: lowering_def)

lemma lowering_declaration: "lowering c (lower_declaration c d)"
  unfolding lower_declaration_def [abs_def] by (intro lowering_intros)

lemma lowering_function_definition: "lowering c (lower_function_definition c f s)"
proof (rule loweringI)
  fix ex0 ex'
  assume *: "lower_function_definition c f s ex0 = Ok ex'"
  obtain ex where ex: "lower_type_specifiers c (function_definition_specifiers f) ex0 = Ok ex"
    using * by (auto simp: lower_function_definition_def Let_def and_then_Ok_iff)
  have "lowers c ex ex'"
  proof (cases "declarator_name (node (function_definition_declarator f))")
    case (Some name)
    then show ?thesis
      using * ex unfolding lower_function_definition_def Let_def
      by (cases "ex_ordinary ex name")
        (auto simp: and_then_Ok_iff lowers_unbound
          dest!: lowers_add_occurrence lowers_finish_declarator intro: lowers_trans)
  qed (use * ex in \<open>auto simp: lower_function_definition_def lowers_unbound\<close>)
  then show "lowers c ex0 ex'"
    using loweringD [OF lowering_type_specifiers ex] by (blast intro: lowers_trans)
qed

lemma lowering_external [lowering_intros]: "lowering c (lower_external c e)"
  using lowering_declaration [of c] lowering_function_definition [of c]
  by (cases "node e") (auto simp: lowering_def lower_external_def lowers_push)

lemma lowering_externals: "lowering c (lower_externals c es)"
proof (induction es)
  case (Cons e es)
  then show ?case
    unfolding lower_externals.simps(2) [abs_def] by (intro lowering_intros)
qed (simp add: lowering_def)

lemma lowers_translation_unit: "lower_translation_unit c u ex = Ok ex' \<Longrightarrow> lowers c ex ex'"
  unfolding lower_translation_unit_def by (rule loweringD [OF lowering_externals])

subsection \<open>Invariants\<close>

text \<open>The identifier that an identity stands for.\<close>

definition identity_id :: "extraction_context \<Rightarrow> declaration_identity \<Rightarrow> declaration_id" where
  "identity_id c identity =
     declaration_from_entity (case identity of
       NamedIdentity namespace scope name \<Rightarrow> EntityId (cx_hash c ''follang.parc.entity-id.v1''
         (canonical_tokens_bytes (named_fields namespace scope name)))
     | AnonymousIdentity scope fingerprint ordinal \<Rightarrow>
         entity_anonymous (cx_hash c) scope (content_bytes fingerprint) ordinal)"

definition metadata_ok :: "extraction_context \<Rightarrow> extractor \<Rightarrow> bool" where
  "metadata_ok c ex \<longleftrightarrow> distinct (map fst (ex_metadata ex)) \<and>
     (\<forall>(i, m)\<in>set (ex_metadata ex). i = identity_id c (meta_identity m))"

definition drafts_ok :: "extractor \<Rightarrow> bool" where
  "drafts_ok ex \<longleftrightarrow> distinct (map fst (ex_drafts ex)) \<and>
     (\<forall>(i, d)\<in>set (ex_drafts ex). map_of (ex_metadata ex) i = Some (dr_meta d))"

definition diagnostics_ok :: "extraction_context \<Rightarrow> extractor \<Rightarrow> bool" where
  "diagnostics_ok c ex \<longleftrightarrow> list_all (proper_diagnostic c) (ex_diagnostics ex)"

definition extractor_ok :: "extraction_context \<Rightarrow> extractor \<Rightarrow> bool" where
  "extractor_ok c ex \<longleftrightarrow> metadata_ok c ex \<and> drafts_ok ex \<and> diagnostics_ok c ex"

lemma set_update: "set (AList.update k v xs) \<subseteq> insert (k, v) (set xs)"
  by (induction xs) auto

lemma drafts_ok_update:
  assumes "drafts_ok ex" "map_of (ex_metadata ex) i = Some (dr_meta d)"
  shows "drafts_ok (ex\<lparr>ex_drafts := AList.update i d (ex_drafts ex)\<rparr>)"
  using assms set_update [of i d "ex_drafts ex"] by (auto simp: drafts_ok_def AList.distinct_update)

lemma draft_of_meta:
  assumes "drafts_ok ex" "draft_of c i ex = Ok d"
  shows "map_of (ex_metadata ex) i = Some (dr_meta d)"
  using assms by (auto simp: draft_of_def drafts_ok_def dest: map_of_SomeD split: option.splits)

lemma lower_step_ok:
  assumes "lower_step c ex ex'" "extractor_ok c ex"
  shows "extractor_ok c ex' \<and> ex_metadata ex' = ex_metadata ex"
  using assms
proof cases
  case (step_draft i d d')
  then have "drafts_ok ex'"
    using assms(2) draft_of_meta [of ex c i d] drafts_ok_update [of ex i d'] by (simp add: extractor_ok_def)
  then show ?thesis
    using assms(2) step_draft by (simp add: extractor_ok_def metadata_ok_def diagnostics_ok_def)
qed (use assms(2) in \<open>auto simp: extractor_ok_def metadata_ok_def drafts_ok_def diagnostics_ok_def
  push_diagnostic_def\<close>)

lemma lowers_ok:
  assumes "lowers c ex ex'" "extractor_ok c ex"
  shows "extractor_ok c ex' \<and> ex_metadata ex' = ex_metadata ex"
  using assms by (induction rule: rtranclp_induct) (auto dest: lower_step_ok)

subsection \<open>The first pass\<close>

text \<open>What a name of the ordinary name space is indexed as.\<close>

definition names_entity :: "extraction_context \<Rightarrow> entity_namespace \<Rightarrow> string \<Rightarrow> declaration_id \<Rightarrow> bool" where
  "names_entity c namespace name i \<longleftrightarrow>
     (\<exists>scope\<in>{TranslationUnit, ScopeFile (cx_file c)}. \<exists>e.
        entity_named (cx_hash c) (cx_nfc c) namespace scope name = Inr e \<and> i = declaration_from_entity e)"

definition known :: "extractor \<Rightarrow> declaration_id set" where
  "known ex = fst ` set (ex_metadata ex)"

definition index_ok :: "extraction_context \<Rightarrow> extractor \<Rightarrow> bool" where
  "index_ok c ex \<longleftrightarrow> metadata_ok c ex \<and> ex_drafts ex = [] \<and> diagnostics_ok c ex \<and>
     (\<forall>name i. ex_ordinary ex name = Some i \<longrightarrow> i \<in> known ex \<and> names_entity c Ordinary name i) \<and>
     ran (ex_tags ex) \<subseteq> known ex \<and> ran (ex_anonymous ex) \<subseteq> known ex"

definition indexes :: "extraction_context \<Rightarrow> extractor \<Rightarrow> extractor \<Rightarrow> bool" where
  "indexes c ex ex' \<longleftrightarrow> (index_ok c ex \<longrightarrow> index_ok c ex') \<and>
     ex_ordinary ex \<subseteq>\<^sub>m ex_ordinary ex' \<and> ex_tags ex \<subseteq>\<^sub>m ex_tags ex' \<and> ex_anonymous ex \<subseteq>\<^sub>m ex_anonymous ex'"

lemma indexes_refl [simp]: "indexes c ex ex"
  by (simp add: indexes_def)

lemma indexes_trans: "indexes c ex ex' \<Longrightarrow> indexes c ex' ex'' \<Longrightarrow> indexes c ex ex''"
  unfolding indexes_def by (elim conjE, intro conjI) (iprover, (erule (1) map_le_trans)+)

lemma named_metaD:
  assumes "named_meta c namespace scope link name = Ok (i, meta)"
  shows "i = identity_id c (meta_identity meta)"
    and "\<exists>e. entity_named (cx_hash c) (cx_nfc c) namespace scope name = Inr e \<and> i = declaration_from_entity e"
proof -
  obtain e n where e: "entity_named (cx_hash c) (cx_nfc c) namespace scope name = Inr e"
    "normalize_identifier (cx_nfc c) name = Inr n"
    "i = declaration_from_entity e" "meta_identity meta = NamedIdentity namespace scope n"
    using assms unfolding named_meta_def
    by (cases "entity_named (cx_hash c) (cx_nfc c) namespace scope name";
        cases "normalize_identifier (cx_nfc c) name") auto
  then have "n = cx_nfc c name" by (simp add: normalize_identifier_def split: if_splits)
  then show "i = identity_id c (meta_identity meta)"
    using e entity_named_bytes [OF e(1)] by (simp add: identity_id_def)
  show "\<exists>e. entity_named (cx_hash c) (cx_nfc c) namespace scope name = Inr e \<and> i = declaration_from_entity e"
    using e by blast
qed

lemma known_update [simp]: "known (ex\<lparr>ex_metadata := AList.update i m (ex_metadata ex)\<rparr>) = insert i (known ex)"
  by (simp add: known_def AList.dom_update)

lemma metadata_ok_update:
  "metadata_ok c ex \<Longrightarrow> i = identity_id c (meta_identity m) \<Longrightarrow>
     metadata_ok c (ex\<lparr>ex_metadata := AList.update i m (ex_metadata ex)\<rparr>)"
  using set_update [of i m "ex_metadata ex"] by (auto simp: metadata_ok_def AList.distinct_update)

lemma index_ordinary_indexes:
  assumes "index_ordinary c name internal link ex = Ok ex'"
  shows "indexes c ex ex' \<and> ex_ordinary ex' name \<noteq> None"
proof (cases "ex_ordinary ex name")
  case None
  let ?scope = "if internal then ScopeFile (cx_file c) else TranslationUnit"
  from None assms obtain i m where
    m: "named_meta c Ordinary ?scope (if internal then InternalLinkage else link) name = Ok (i, m)"
    and ex': "ex' = ex\<lparr>ex_ordinary := (ex_ordinary ex)(name \<mapsto> i), ex_metadata := AList.update i m (ex_metadata ex)\<rparr>"
    by (auto simp: index_ordinary_def map_outcome_Ok_iff)
  have names: "names_entity c Ordinary name i"
    unfolding names_entity_def using named_metaD(2) [OF m] by (cases internal) auto
  have known: "known ex' = insert i (known ex)"
    using known_update [of i m ex] by (simp add: ex' known_def)
  have "index_ok c ex'" if "index_ok c ex"
  proof -
    have "metadata_ok c ex'"
      using metadata_ok_update [of c ex i m] named_metaD(1) [OF m] that
      by (simp add: ex' metadata_ok_def index_ok_def)
    then show ?thesis
      using that names unfolding index_ok_def known
      by (simp add: ex' diagnostics_ok_def subset_insertI2)
  qed
  moreover have "ex_ordinary ex \<subseteq>\<^sub>m ex_ordinary ex'"
    using None by (auto simp: ex' map_le_def)
  ultimately show ?thesis by (simp add: indexes_def ex')
qed (use assms in \<open>simp add: index_ordinary_def\<close>)

lemma index_push_error: "indexes c ex (push_error c code message bounds i ex)"
  by (simp add: indexes_def index_ok_def push_error_def push_diagnostic_def metadata_ok_def diagnostics_ok_def
      known_def)

lemma index_anonymous_indexes:
  assumes "ex_anonymous ex (span_start s, span_end s) = None"
  shows "indexes c ex (index_anonymous c s tokens ex) \<and>
    ex_anonymous (index_anonymous c s tokens ex) (span_start s, span_end s) \<noteq> None"
proof -
  define fingerprint where "fingerprint = content_from_content (cx_hash c) (canonical_tokens_bytes tokens)"
  define ordinal where "ordinal = ex_anonymous_ordinals ex tokens"
  define m where "m = \<lparr>meta_identity = AnonymousIdentity TranslationUnit fingerprint ordinal, meta_name = None,
    meta_linkage = NoLinkage\<rparr>"
  define i where "i = identity_id c (meta_identity m)"
  have ex': "index_anonymous c s tokens ex =
      ex\<lparr>ex_anonymous_ordinals := (ex_anonymous_ordinals ex)(tokens := ordinal + 1),
        ex_anonymous := (ex_anonymous ex)((span_start s, span_end s) \<mapsto> i),
        ex_metadata := AList.update i m (ex_metadata ex)\<rparr>" "i = identity_id c (meta_identity m)"
    by (simp_all add: index_anonymous_def Let_def identity_id_def i_def m_def fingerprint_def ordinal_def)
  have known: "known (index_anonymous c s tokens ex) = insert i (known ex)"
    using known_update [of i m ex] by (simp add: ex'(1) known_def)
  have "index_ok c (index_anonymous c s tokens ex)" if "index_ok c ex"
  proof -
    have "metadata_ok c (index_anonymous c s tokens ex)"
      using metadata_ok_update [of c ex i m] ex'(2) that by (simp add: ex'(1) metadata_ok_def index_ok_def)
    moreover have "ran (ex_anonymous (index_anonymous c s tokens ex)) \<subseteq> insert i (known ex)"
      using that assms by (auto simp: ex'(1) index_ok_def)
    ultimately show ?thesis
      using that unfolding index_ok_def known by (auto simp: ex'(1) diagnostics_ok_def)
  qed
  moreover have "ex_anonymous ex \<subseteq>\<^sub>m ex_anonymous (index_anonymous c s tokens ex)"
    using assms by (auto simp: ex'(1) map_le_def)
  ultimately show ?thesis by (simp add: indexes_def ex'(1))
qed

text \<open>A tag that the second pass can look up.\<close>

definition tag_known :: "extractor \<Rightarrow> c_identifier node option \<Rightarrow> span \<Rightarrow> bool" where
  "tag_known ex tag s \<longleftrightarrow> (case tag of
      Some i \<Rightarrow> ex_tags ex (c_identifier_name (node i)) \<noteq> None
    | None \<Rightarrow> ex_anonymous ex (span_start s, span_end s) \<noteq> None)"

lemma index_tag_indexes:
  assumes "index_tag c tag s ex = Ok ex'"
  shows "indexes c ex ex' \<and> tag_known ex' tag s"
proof (cases tag)
  case (Some t)
  let ?name = "c_identifier_name (node t)"
  show ?thesis
  proof (cases "ex_tags ex ?name")
    case None
    from None Some assms obtain i m where m: "named_meta c Tag TranslationUnit NoLinkage ?name = Ok (i, m)"
      and ex': "ex' = ex\<lparr>ex_tags := (ex_tags ex)(?name \<mapsto> i), ex_metadata := AList.update i m (ex_metadata ex)\<rparr>"
      by (auto simp: index_tag_def Let_def map_outcome_Ok_iff)
    have known: "known ex' = insert i (known ex)"
      using known_update [of i m ex] by (simp add: ex' known_def)
    have "index_ok c ex'" if "index_ok c ex"
    proof -
      have "metadata_ok c ex'"
        using metadata_ok_update [of c ex i m] named_metaD(1) [OF m] that
        by (simp add: ex' metadata_ok_def index_ok_def)
      then show ?thesis
        using that None unfolding index_ok_def known by (auto simp: ex' diagnostics_ok_def)
    qed
    moreover have "ex_tags ex \<subseteq>\<^sub>m ex_tags ex'" using None by (auto simp: ex' map_le_def)
    ultimately show ?thesis using Some by (simp add: indexes_def ex' tag_known_def)
  qed (use assms Some in \<open>simp add: index_tag_def Let_def tag_known_def\<close>)
next
  case None
  show ?thesis
  proof (cases "ex_anonymous ex (span_start s, span_end s)")
    case unknown: None
    obtain ts where ts: "ex_tokens c s = Ok ts"
      using assms None unknown by (auto simp: index_tag_def map_outcome_Ok_iff)
    show ?thesis
    proof (cases ts)
      case (Some tokens)
      then have "ex' = index_anonymous c s tokens ex"
        using assms None unknown ts by (simp add: index_tag_def)
      then show ?thesis using index_anonymous_indexes [OF unknown] None by (simp add: tag_known_def)
    next
      case no_tokens: None
      let ?ex = "push_error c ''PARC-E1203'' ''anonymous tag did not contain a usable generated-source span'' None None ex"
      have "ex' = index_anonymous c s [] ?ex"
        using assms None unknown ts no_tokens by (simp add: index_tag_def)
      moreover have "ex_anonymous ?ex (span_start s, span_end s) = None"
        using unknown by (simp add: push_error_def push_diagnostic_def)
      ultimately show ?thesis
        using index_anonymous_indexes [of ?ex s c] None index_push_error indexes_trans
        by (simp add: tag_known_def) blast
    qed
  qed (use assms None in \<open>simp add: index_tag_def tag_known_def\<close>)
qed

text \<open>The tags that the second pass looks up.\<close>

function (sequential)
  covered_type :: "extractor \<Rightarrow> type_specifier node \<Rightarrow> bool" and
  covered_members :: "extractor \<Rightarrow> struct_declaration node list \<Rightarrow> bool" and
  covered_specifiers :: "extractor \<Rightarrow> specifier_qualifier node list \<Rightarrow> bool"
where
  "covered_type ex (Node (TypeSpecifier_Struct (Node (StructType kind tag body es) s)) p) \<longleftrightarrow>
     tag_known ex tag s \<and> (case body of None \<Rightarrow> True | Some ds \<Rightarrow> covered_members ex ds)"
| "covered_type ex (Node (TypeSpecifier_Enum e) p) \<longleftrightarrow> tag_known ex (enum_type_identifier (node e)) (node_span e)"
| "covered_type ex (Node (TypeSpecifier_Atomic (Node (TypeName specifiers d) q)) p) \<longleftrightarrow> covered_specifiers ex specifiers"
| "covered_type ex _ \<longleftrightarrow> True"
| "covered_members ex [] \<longleftrightarrow> True"
| "covered_members ex (Node (StructDeclaration_Field (Node (StructField specifiers declarators) q)) p # ds) \<longleftrightarrow>
     covered_specifiers ex specifiers \<and> covered_members ex ds"
| "covered_members ex (_ # ds) \<longleftrightarrow> covered_members ex ds"
| "covered_specifiers ex [] \<longleftrightarrow> True"
| "covered_specifiers ex (Node (SpecifierQualifier_TypeSpecifier t) p # specifiers) \<longleftrightarrow>
     covered_type ex t \<and> covered_specifiers ex specifiers"
| "covered_specifiers ex (_ # specifiers) \<longleftrightarrow> covered_specifiers ex specifiers"
  by pat_completeness auto

termination
  apply (relation "measure (\<lambda>x. case x of
    Inl (ex, t) \<Rightarrow> size (node t)
  | Inr (Inl (ex, ds)) \<Rightarrow> struct_size ds
  | Inr (Inr (ex, ss)) \<Rightarrow> fields_size ss)")
  by (auto simp: struct_size_def fields_size_def size_node_Suc [of size])

lemma tag_known_mono: "indexes c ex ex' \<Longrightarrow> tag_known ex tag s \<Longrightarrow> tag_known ex' tag s"
  unfolding indexes_def tag_known_def by (auto simp: map_le_def dom_def split: option.splits)

lemma covered_mono:
  "indexes c ex ex' \<Longrightarrow> covered_type ex t \<Longrightarrow> covered_type ex' t"
  "indexes c ex ex' \<Longrightarrow> covered_members ex ds \<Longrightarrow> covered_members ex' ds"
  "indexes c ex ex' \<Longrightarrow> covered_specifiers ex specifiers \<Longrightarrow> covered_specifiers ex' specifiers"
  by (induction ex t and ex ds and ex specifiers
      rule: covered_type_covered_members_covered_specifiers.induct)
    (auto intro: tag_known_mono split: option.splits)

lemma index_type_specifier_covers:
  "index_type_specifier c t ex = Ok ex' \<Longrightarrow> indexes c ex ex' \<and> covered_type ex' t"
  "index_struct_declarations c ds ex = Ok ex' \<Longrightarrow> indexes c ex ex' \<and> covered_members ex' ds"
  "index_field_type_specifiers c specifiers ex = Ok ex' \<Longrightarrow> indexes c ex ex' \<and> covered_specifiers ex' specifiers"
proof (induction c t ex and c ds ex and c specifiers ex arbitrary: ex' and ex' and ex'
    rule: index_type_specifier_index_struct_declarations_index_field_type_specifiers.induct)
  case (1 c kind tag body es s p ex)
  then obtain ex1 where ex1: "index_tag c tag s ex = Ok ex1"
    "(case body of None \<Rightarrow> Ok ex1 | Some ds \<Rightarrow> index_struct_declarations c ds ex1) = Ok ex'"
    by (auto simp: and_then_Ok_iff)
  have "indexes c ex1 ex' \<and> (case body of None \<Rightarrow> True | Some ds \<Rightarrow> covered_members ex' ds)"
    using ex1 "1.IH" by (cases body) auto
  then show ?case
    using index_tag_indexes [OF ex1(1)] by (auto intro: indexes_trans tag_known_mono)
next
  case (2 c e p ex)
  then show ?case using index_tag_indexes by auto
qed (auto simp: and_then_Ok_iff, (meson covered_mono indexes_trans)+)

text \<open>The names that the declarations and function definitions of a unit bind, and the specifiers they have.\<close>

fun external_names :: "external_declaration \<Rightarrow> string list" where
  "external_names (ExternalDeclaration_Declaration d) =
     List.map_filter (\<lambda>x. declarator_name (node (init_declarator_declarator (node x))))
       (c_declaration_declarators (node d))"
| "external_names (ExternalDeclaration_FunctionDefinition f) =
     (case declarator_name (node (function_definition_declarator (node f))) of Some n \<Rightarrow> [n] | None \<Rightarrow> [])"
| "external_names (ExternalDeclaration_StaticAssert a) = []"

definition unit_names :: "translation_unit \<Rightarrow> string list" where
  "unit_names u = concat (map (external_names \<circ> node) (unit_externals u))"

fun external_specifiers :: "external_declaration \<Rightarrow> declaration_specifier node list" where
  "external_specifiers (ExternalDeclaration_Declaration d) = c_declaration_specifiers (node d)"
| "external_specifiers (ExternalDeclaration_FunctionDefinition f) = function_definition_specifiers (node f)"
| "external_specifiers (ExternalDeclaration_StaticAssert a) = []"

definition covered_declaration :: "extractor \<Rightarrow> declaration_specifier node list \<Rightarrow> bool" where
  "covered_declaration ex specifiers \<longleftrightarrow> list_all (covered_type ex) (declaration_type_specs specifiers)"

definition covered_external :: "extractor \<Rightarrow> external_declaration \<Rightarrow> bool" where
  "covered_external ex e \<longleftrightarrow>
     covered_declaration ex (external_specifiers e) \<and> (\<forall>n\<in>set (external_names e). ex_ordinary ex n \<noteq> None)"

lemma ordinary_mono: "indexes c ex ex' \<Longrightarrow> ex_ordinary ex n \<noteq> None \<Longrightarrow> ex_ordinary ex' n \<noteq> None"
  unfolding indexes_def by (auto simp: map_le_def dom_def)

lemma covered_declaration_mono: "indexes c ex ex' \<Longrightarrow> covered_declaration ex ss \<Longrightarrow> covered_declaration ex' ss"
  unfolding covered_declaration_def using covered_mono(1) by (auto simp: list_all_iff)

lemma covered_external_mono: "indexes c ex ex' \<Longrightarrow> covered_external ex e \<Longrightarrow> covered_external ex' e"
  unfolding covered_external_def using covered_declaration_mono ordinary_mono by blast

lemma index_type_specifiers_covers:
  "index_type_specifiers c specifiers ex = Ok ex' \<Longrightarrow> indexes c ex ex' \<and> covered_declaration ex' specifiers"
proof (induction specifiers arbitrary: ex)
  case (Cons s specifiers)
  then obtain ex1 where
    1: "(case declaration_type_spec (node s) of Some t \<Rightarrow> index_type_specifier c t ex | None \<Rightarrow> Ok ex) = Ok ex1"
    and 2: "index_type_specifiers c specifiers ex1 = Ok ex'"
    by (auto simp: and_then_Ok_iff)
  have "indexes c ex ex1 \<and> (\<forall>t. declaration_type_spec (node s) = Some t \<longrightarrow> covered_type ex1 t)"
    using 1 index_type_specifier_covers(1) by (auto split: option.splits)
  then show ?case
    using Cons.IH [OF 2] covered_mono(1) indexes_trans
    by (auto simp: covered_declaration_def declaration_type_specs_def List.map_filter_simps split: option.splits)
qed (simp add: covered_declaration_def declaration_type_specs_def List.map_filter_simps)

lemma index_declarators_covers:
  "index_declarators c internal link ds ex = Ok ex' \<Longrightarrow> indexes c ex ex' \<and>
     (\<forall>n\<in>set (List.map_filter (\<lambda>x. declarator_name (node (init_declarator_declarator (node x)))) ds).
        ex_ordinary ex' n \<noteq> None)"
proof (induction ds arbitrary: ex)
  case (Cons d ds)
  let ?name = "declarator_name (node (init_declarator_declarator (node d)))"
  from Cons obtain ex1 where
    1: "(case ?name of Some name \<Rightarrow> index_ordinary c name internal link ex | None \<Rightarrow> Ok ex) = Ok ex1"
    and 2: "index_declarators c internal link ds ex1 = Ok ex'"
    by (auto simp: and_then_Ok_iff)
  have "indexes c ex ex1 \<and> (\<forall>n. ?name = Some n \<longrightarrow> ex_ordinary ex1 n \<noteq> None)"
    using 1 index_ordinary_indexes by (auto split: option.splits)
  then show ?case
    using Cons.IH [OF 2] ordinary_mono indexes_trans
    by (cases ?name) (simp_all add: List.map_filter_simps, blast+)
qed (simp add: List.map_filter_simps)

lemma index_external_covers:
  assumes "index_external c e ex = Ok ex'"
  shows "indexes c ex ex' \<and> covered_external ex' e"
proof (cases e)
  case (ExternalDeclaration_Declaration d)
  then obtain ex1 internal link where "index_type_specifiers c (c_declaration_specifiers (node d)) ex = Ok ex1"
    "index_declarators c internal link (c_declaration_declarators (node d)) ex1 = Ok ex'"
    using assms by (auto simp: index_external_def index_declaration_def and_then_Ok_iff)
  note ex1 = this
  have 1: "indexes c ex ex1" "covered_declaration ex1 (c_declaration_specifiers (node d))"
    using index_type_specifiers_covers [OF ex1(1)] by simp_all
  have 2: "indexes c ex1 ex'" "\<forall>n\<in>set (external_names e). ex_ordinary ex' n \<noteq> None"
    using index_declarators_covers [OF ex1(2)] ExternalDeclaration_Declaration by simp_all
  show ?thesis
    using indexes_trans [OF 1(1) 2(1)] covered_declaration_mono [OF 2(1) 1(2)] 2(2)
      ExternalDeclaration_Declaration by (simp add: covered_external_def)
next
  case (ExternalDeclaration_FunctionDefinition f)
  then obtain ex1 where ex1: "index_type_specifiers c (function_definition_specifiers (node f)) ex = Ok ex1"
    "(case declarator_name (node (function_definition_declarator (node f))) of
        Some name \<Rightarrow> index_ordinary c name
          (has_storage (function_definition_specifiers (node f)) StorageClassSpecifier_Static) ExternalLinkage ex1
      | None \<Rightarrow> Ok ex1) = Ok ex'"
    using assms by (auto simp: index_external_def and_then_Ok_iff)
  then have "indexes c ex1 ex' \<and> (\<forall>n\<in>set (external_names e). ex_ordinary ex' n \<noteq> None)"
    using ExternalDeclaration_FunctionDefinition index_ordinary_indexes
    by (cases "declarator_name (node (function_definition_declarator (node f)))") auto
  then have 2: "indexes c ex1 ex'" "\<forall>n\<in>set (external_names e). ex_ordinary ex' n \<noteq> None" by blast+
  have 1: "indexes c ex ex1" "covered_declaration ex1 (function_definition_specifiers (node f))"
    using index_type_specifiers_covers [OF ex1(1)] by simp_all
  show ?thesis
    using indexes_trans [OF 1(1) 2(1)] covered_declaration_mono [OF 2(1) 1(2)] 2(2)
      ExternalDeclaration_FunctionDefinition by (simp add: covered_external_def)
qed (use assms in \<open>simp add: index_external_def covered_external_def covered_declaration_def
  declaration_type_specs_def List.map_filter_simps\<close>)

lemma index_externals_covers:
  "index_externals c es ex = Ok ex' \<Longrightarrow> indexes c ex ex' \<and> list_all (covered_external ex' \<circ> node) es"
proof (induction es arbitrary: ex)
  case (Cons e es)
  then obtain ex1 where ex1: "index_external c (node e) ex = Ok ex1" "index_externals c es ex1 = Ok ex'"
    by (auto simp: and_then_Ok_iff)
  note head = index_external_covers [OF ex1(1)] and tail = Cons.IH [OF ex1(2)]
  show ?case
    using indexes_trans [OF conjunct1 [OF head] conjunct1 [OF tail]] tail
      covered_external_mono [OF conjunct1 [OF tail] conjunct2 [OF head]] by simp
qed simp

lemma index_ok_new: "index_ok c extractor_new"
  by (simp add: index_ok_def extractor_new_def metadata_ok_def diagnostics_ok_def known_def)

lemma index_unit:
  assumes "index_translation_unit c u extractor_new = Ok ex"
  shows "index_ok c ex \<and> list_all (covered_external ex \<circ> node) (unit_externals u)"
  using index_externals_covers [of c "unit_externals u" extractor_new ex] assms index_ok_new
  by (simp add: index_translation_unit_def indexes_def)

lemma index_ok_extractor: "index_ok c ex \<Longrightarrow> extractor_ok c ex"
  by (simp add: index_ok_def extractor_ok_def drafts_ok_def)

end
