(* ===== verification/Declared.thy ===== *)
theory Declared
  imports Resolve
begin

text \<open>
  What the types of declarators are.  A type is written as a C declarator (\<open>declared_as\<close>), the way a programmer writes it with as few
  parentheses as possible; \<open>apply_derived\<close> of \<open>src/extract/types.rs\<close> is shown to read that type
  back, unless an array of arrays was written with adjacent bounds, which it reads in the wrong order.
\<close>

datatype derivation =
    Plain
  | PointerTo "pointer_qualifier node list" derivation
  | ArrayOf array_declarator derivation
  | FunctionOf function_declarator derivation

text \<open>The type, from the type of the specifiers.\<close>

fun derivation_type :: "type_resolver \<Rightarrow> c_type \<Rightarrow> derivation \<Rightarrow> c_type outcome" where
  "derivation_type r base Plain = Ok base"
| "derivation_type r base (PointerTo qs t) =
     map_outcome (\<lambda>ty. pointer ty (pointer_qualifiers qs)) (derivation_type r base t)"
| "derivation_type r base (ArrayOf a t) =
     and_then (derivation_type r base t) (\<lambda>ty.
       array_type (tr_sizes r) (tr_source r) ty (array_declarator_size a) (array_declarator_qualifiers a) False)"
| "derivation_type r base (FunctionOf f t) =
     and_then (derivation_type r base t) (\<lambda>ty.
       map_outcome (function_type CConv ty f) (lower_parameters r (function_declarator_parameters f)))"

fun is_pointer_derived :: "derived_declarator node \<Rightarrow> bool" where
  "is_pointer_derived (Node (DerivedDeclarator_Pointer qs) p) = True"
| "is_pointer_derived _ = False"

text \<open>\<open>*d\<close>, \<open>(d)\<close>, and \<open>d\<close> followed by a suffix: a pointer is put in parentheses first.\<close>

abbreviation bare :: "declarator_kind \<Rightarrow> derived_declarator node list \<Rightarrow> declarator" where
  "bare kind derived \<equiv> Declarator (Node kind span_none) derived []"

fun with_pointer :: "pointer_qualifier node list \<Rightarrow> declarator \<Rightarrow> declarator" where
  "with_pointer qs (Declarator kind derived es) =
     Declarator kind (Node (DerivedDeclarator_Pointer qs) span_none # derived) es"

fun with_suffix :: "derived_declarator \<Rightarrow> declarator \<Rightarrow> declarator" where
  "with_suffix suffix (Declarator kind derived es) =
     (if list_ex is_pointer_derived derived
      then bare (DeclaratorKind_Declarator (Node (Declarator kind derived es) span_none)) [Node suffix span_none]
      else Declarator kind (derived @ [Node suffix span_none]) es)"

fun declared_as :: "derivation \<Rightarrow> declarator \<Rightarrow> declarator" where
  "declared_as Plain d = d"
| "declared_as (PointerTo qs t) d = declared_as t (with_pointer qs d)"
| "declared_as (ArrayOf a t) d = declared_as t (with_suffix (DerivedDeclarator_Array (Node a span_none)) d)"
| "declared_as (FunctionOf f t) d = declared_as t (with_suffix (DerivedDeclarator_Function (Node f span_none)) d)"

text \<open>No array of arrays, and none of the types that C does not have: functions returning functions or arrays, arrays of functions.\<close>

fun suffixed :: "derivation \<Rightarrow> bool" where
  "suffixed (ArrayOf a t) = True"
| "suffixed (FunctionOf f t) = True"
| "suffixed _ = False"

fun suffixes_apart :: "derivation \<Rightarrow> bool" where
  "suffixes_apart Plain \<longleftrightarrow> True"
| "suffixes_apart (PointerTo qs t) \<longleftrightarrow> suffixes_apart t"
| "suffixes_apart (ArrayOf a t) \<longleftrightarrow> \<not> suffixed t \<and> suffixes_apart t"
| "suffixes_apart (FunctionOf f t) \<longleftrightarrow> \<not> suffixed t \<and> suffixes_apart t"

text \<open>Declarators without attributes: their functions have the C calling convention.\<close>

fun unattributed :: "declarator \<Rightarrow> bool" where
  "unattributed (Declarator (Node (DeclaratorKind_Declarator (Node inner _)) _) _ es) \<longleftrightarrow> es = [] \<and> unattributed inner"
| "unattributed (Declarator _ _ es) \<longleftrightarrow> es = []"

lemma unattributed_extensions: "unattributed d \<Longrightarrow> declarator_extensions d = []"
  by (induction d rule: unattributed.induct) simp_all

lemma convention_visit_unattributed:
  "unattributed d \<Longrightarrow> convention_visit d found spellings = (Some found, spellings)"
  by (induction d rule: unattributed.induct) simp_all

lemma convention_unattributed: "unattributed d \<Longrightarrow> declarator_calling_convention d = CConv"
  by (simp add: declarator_calling_convention_def convention_visit_unattributed)

lemma unattributed_derived:
  "unattributed (Declarator kind derived es) \<longleftrightarrow> unattributed (Declarator kind derived' es)"
  by (cases "(Declarator kind derived es)" rule: unattributed.cases) auto

lemma unattributed_with [simp]:
  "unattributed (with_pointer qs d) \<longleftrightarrow> unattributed d" "unattributed d \<Longrightarrow> unattributed (with_suffix suffix d)"
  using unattributed_derived by (cases d; auto)+

text \<open>A suffix behind a declarator that has none: its type comes before what the declarator says.\<close>

definition suffix_type :: "type_resolver \<Rightarrow> derived_declarator \<Rightarrow> c_type \<Rightarrow> c_type outcome" where
  "suffix_type r suffix ty =
     (case suffix of
        DerivedDeclarator_Array a \<Rightarrow>
          array_type (tr_sizes r) (tr_source r) ty (array_declarator_size (node a)) (array_declarator_qualifiers (node a)) False
      | DerivedDeclarator_Function f \<Rightarrow>
          map_outcome (function_type CConv ty (node f)) (lower_parameters r (function_declarator_parameters (node f)))
      | _ \<Rightarrow> Ok ty)"

definition has_suffix :: "derived_declarator \<Rightarrow> bool" where
  "has_suffix suffix \<longleftrightarrow> (case suffix of
     DerivedDeclarator_Array _ \<Rightarrow> True | DerivedDeclarator_Function _ \<Rightarrow> True | _ \<Rightarrow> False)"

definition takes_suffix :: "declarator \<Rightarrow> bool" where
  "takes_suffix d \<longleftrightarrow> list_ex is_pointer_derived (declarator_derived d) \<or> declarator_derived d = []"

lemma apply_pointer: "apply_derived r ty (with_pointer qs d) allowed =
  apply_derived r (pointer ty (pointer_qualifiers qs)) d allowed"
  if "unattributed d"
proof -
  have "declarator_calling_convention (with_pointer qs d) = CConv" "declarator_calling_convention d = CConv"
    using that by (simp_all add: convention_unattributed)
  then show ?thesis by (cases d) simp
qed

lemma derived_loop_suffix:
  "has_suffix suffix \<Longrightarrow> derived_loop r CConv ty [Node suffix span_none] False =
     map_outcome (\<lambda>ty'. Inr (ty', False)) (suffix_type r suffix ty)"
proof (cases suffix)
  case (DerivedDeclarator_Function f)
  obtain ps dots q where "f = Node (FunctionDeclarator ps dots) q" by (metis function_declarator_of.exhaust node.exhaust)
  then show ?thesis
    using DerivedDeclarator_Function
    by (cases "lower_parameters r ps") (simp_all add: suffix_type_def)
next
  case (DerivedDeclarator_Array a)
  then show ?thesis
    by (cases "array_type (tr_sizes r) (tr_source r) ty (array_declarator_size (node a)) (array_declarator_qualifiers (node a)) False")
      (simp_all add: suffix_type_def)
qed (simp_all add: has_suffix_def)

lemma apply_suffix:
  assumes "unattributed d" "takes_suffix d" "has_suffix suffix"
  shows "apply_derived r ty (with_suffix suffix d) False =
    and_then (suffix_type r suffix ty) (\<lambda>ty'. apply_derived r ty' d False)"
proof (cases d)
  case (Declarator kind derived es)
  have conv: "declarator_calling_convention (with_suffix suffix d) = CConv" "declarator_calling_convention d = CConv"
    using assms(1) by (simp_all add: convention_unattributed)
  have no_pointer: "apply_pointers [Node suffix span_none] t = t" for t
    using assms(3) by (cases suffix) (simp_all add: has_suffix_def)
  show ?thesis
  proof (cases "list_ex is_pointer_derived derived")
    case True
    then show ?thesis
      using conv Declarator derived_loop_suffix [OF assms(3)] no_pointer
      by (cases "suffix_type r suffix ty") simp_all
  next
    case False
    then have "derived = []" using assms(2) Declarator by (simp add: takes_suffix_def)
    then show ?thesis
      using conv Declarator derived_loop_suffix [OF assms(3)] no_pointer
      by (cases "suffix_type r suffix ty") simp_all
  qed
qed

lemma takes_suffix_with_pointer [simp]: "takes_suffix (with_pointer qs d)"
  by (cases d) (simp add: takes_suffix_def)

lemma apply_declared_as:
  assumes "suffixes_apart t" "unattributed d" "suffixed t \<longrightarrow> takes_suffix d"
  shows "apply_derived r base (declared_as t d) False =
    and_then (derivation_type r base t) (\<lambda>ty. apply_derived r ty d False)"
  using assms
proof (induction t arbitrary: d)
  case (PointerTo qs t)
  then show ?case
    by (cases "derivation_type r base t") (simp_all add: apply_pointer)
next
  case (ArrayOf a t)
  then show ?case
    by (cases "derivation_type r base t") (simp_all add: apply_suffix has_suffix_def suffix_type_def)
next
  case (FunctionOf f t)
  then show ?case
    by (cases "derivation_type r base t") (simp_all add: apply_suffix has_suffix_def suffix_type_def)
qed simp

text \<open>The declaration of a name.\<close>

abbreviation named_declarator :: "string \<Rightarrow> declarator" where
  "named_declarator name \<equiv> bare (DeclaratorKind_Identifier (Node (Identifier name) span_none)) []"

lemma apply_named: "apply_derived r ty (named_declarator name) allowed = Ok ty"
  by simp

text \<open>
  C11: declarators are read inside out.  Write a type as a C declarator, with parentheses only where C needs them: if no suffix
  follows a suffix in it (no arrays of arrays), the type of the declaration is that type, built on the type of the specifiers.
\<close>

theorem declared_type_roundtrip:
  assumes "suffixes_apart t" "declaration_qualifiers specifiers = (q, Unspecified, False)" "\<not> is_restrict q"
  shows "declaration_type r specifiers (Some (declared_as t (named_declarator name))) =
    and_then (base_type r (declaration_type_specs specifiers)) (\<lambda>base.
      derivation_type r (add_plain_qualifiers q base) t)"
proof -
  have lowered: "apply_derived r base (declared_as t (named_declarator name)) False = derivation_type r base t" for base
    using apply_declared_as [OF assms(1), of "named_declarator name" r base]
    by (cases "derivation_type r base t") (simp_all add: takes_suffix_def)
  have "add_pointer_qualifiers r q Unspecified ty = ty" for ty
    using assms(3) by (simp add: add_pointer_qualifiers_def)
  then have "map_outcome (add_pointer_qualifiers r q Unspecified) result = result" for result
    by (cases result) simp_all
  then show ?thesis
    using assms(2) by (simp add: declaration_type_def lowered del: base_type.simps apply_derived.simps)
qed

subsection \<open>Arrays of arrays\<close>

text \<open>A bound as a literal in the source; its expression has no span, so its text is a fixed one.\<close>

definition literal_bound :: "string \<Rightarrow> array_declarator" where
  "literal_bound digits = ArrayDeclarator [] (ArraySize_VariableExpression (Node (Expression_Constant
     (Node (Constant_Integer (c_integer.Integer IntegerBase_Decimal digits (IntegerSuffix IntegerSize_Int False False))) span_none))
     span_none))"

lemma literal_array_type:
  assumes "parse_i128 10 digits = Some (int n)" "0 < n" "n < 2 ^ 64"
  shows "array_type sizes source element (array_declarator_size (literal_bound digits))
      (array_declarator_qualifiers (literal_bound digits)) False =
    Ok (supported (Array element (FixedBound n) no_qualifiers))"
  using assms
  by (simp add: array_type_def literal_bound_def array_bound_support_def qualifier_values_def span_text_def span_is_none_def span_none_def
    bound_value_def try_u64_def supported_def)

lemma parse_small: "parse_i128 10 ''2'' = Some (int 2)" "parse_i128 10 ''3'' = Some (int 3)"
  by code_simp+

definition sample_resolver :: type_resolver where
  "sample_resolver = \<lparr>tr_ordinary = (\<lambda>_. None), tr_tags = (\<lambda>_. None), tr_anonymous = (\<lambda>_. None), tr_pointer_aliases = {},
     tr_source = [], tr_int128 = True, tr_sizes = \<lparr>sz_bool = 1, sz_char = 1, sz_short = 2, sz_int = 4, sz_long = 8,
       sz_long_long = 8, sz_pointer = 8, sz_float = 4, sz_double = 8, sz_long_double = 16, sz_int_bits = 32, sz_char_bit = 8\<rparr>\<rparr>"

definition int_specifier :: "nat \<Rightarrow> declaration_specifier node" where
  "int_specifier n = Node (DeclarationSpecifier_TypeSpecifier (Node TypeSpecifier_Int (Span n (n + 3)))) (Span n (n + 3))"

definition int_type :: c_type where
  "int_type = supported (Contract.Integer (IntInt Signed))"

lemma int_specifiers [simp]:
  "declaration_qualifiers [int_specifier n] = (no_qualifiers, Unspecified, False)"
  "declaration_type_specs [int_specifier n] = [Node TypeSpecifier_Int (Span n (n + 3))]"
  by (simp_all add: int_specifier_def declaration_qualifiers_def qualifier_values_def declaration_type_specs_def
    List.map_filter_simps)

lemma int_base: "base_type r [Node TypeSpecifier_Int s] = Ok int_type"
  by (simp add: standard_scalar_def scalar_kind_def count_specs_def Let_def int_type_def)

lemma unqualified [simp]:
  "add_plain_qualifiers no_qualifiers int_type = int_type"
  "add_pointer_qualifiers r no_qualifiers Unspecified ty = ty"
  "pointer ty (pointer_qualifiers []) = supported (Pointer ty)"
  by (simp_all add: add_plain_qualifiers_def add_pointer_qualifiers_def int_type_def supported_def no_qualifiers_def
    pointer_def pointer_qualifiers_def qualifier_values_def)

lemma int_finish: "finish_type r [Node TypeSpecifier_Int s] None (no_qualifiers, Unspecified, False) a = Ok int_type"
  by (simp add: int_base del: base_type.simps)

theorem declared_type_roundtrip_witness:
  "declaration_type sample_resolver [int_specifier 0]
     (Some (declared_as (PointerTo [] (ArrayOf (literal_bound ''3'') Plain)) (named_declarator ''x''))) =
   Ok (supported (Pointer (supported (Array int_type (FixedBound 3) no_qualifiers))))"
  using declared_type_roundtrip [of "PointerTo [] (ArrayOf (literal_bound ''3'') Plain)" "[int_specifier 0]"
      no_qualifiers sample_resolver "''x''"]
  by (simp add: int_base literal_array_type [OF parse_small(2)] del: base_type.simps) (simp add: no_qualifiers_def)

text \<open>
  C37: arrays of arrays.  \<open>x[m][n]\<close> is what C writes for an array of \<open>m\<close> arrays of \<open>n\<close> elements; it is read as an array
  of \<open>n\<close> arrays of \<open>m\<close>.
\<close>

theorem array_of_arrays_reversed:
  assumes "parse_i128 10 a = Some (int m)" "parse_i128 10 b = Some (int n)" "0 < m" "m < 2 ^ 64" "0 < n" "n < 2 ^ 64"
  shows "declared_as (ArrayOf (literal_bound a) (ArrayOf (literal_bound b) Plain)) (named_declarator x) =
      bare (DeclaratorKind_Identifier (Node (Identifier x) span_none))
        [Node (DerivedDeclarator_Array (Node (literal_bound a) span_none)) span_none,
         Node (DerivedDeclarator_Array (Node (literal_bound b) span_none)) span_none] \<and>
    derivation_type r base (ArrayOf (literal_bound a) (ArrayOf (literal_bound b) Plain)) =
      Ok (supported (Array (supported (Array base (FixedBound n) no_qualifiers)) (FixedBound m) no_qualifiers)) \<and>
    apply_derived r base
        (declared_as (ArrayOf (literal_bound a) (ArrayOf (literal_bound b) Plain)) (named_declarator x)) False =
      Ok (supported (Array (supported (Array base (FixedBound m) no_qualifiers)) (FixedBound n) no_qualifiers))"
  using assms by (simp add: literal_array_type)

theorem array_of_arrays_reversed_witness:
  "apply_derived sample_resolver int_type
      (declared_as (ArrayOf (literal_bound ''2'') (ArrayOf (literal_bound ''3'') Plain)) (named_declarator ''x'')) False =
    Ok (supported (Array (supported (Array int_type (FixedBound 2) no_qualifiers)) (FixedBound 3) no_qualifiers))"
  using array_of_arrays_reversed [OF parse_small, of "''x''" sample_resolver int_type] by simp

end
