(* ===== verification/Extracted.thy ===== *)
theory Extracted
  imports Lowering Declared
begin

text \<open>
  What an extraction returns: the end of \<open>src/extract/mod.rs\<close>, after both passes, and the properties of
  the whole extraction.  A small unit is extracted step by step: the pointer \<open>int (*p)(int);\<close>.
\<close>

subsection \<open>The end\<close>

lemma set_in_key_order [simp]: "set (in_key_order m) = set m"
  by (simp add: in_key_order_def)

lemma push_error_fields [simp]:
  "ex_drafts (push_error c code message bounds i ex) = ex_drafts ex"
  "ex_metadata (push_error c code message bounds i ex) = ex_metadata ex"
  "ex_diagnostics (push_error c code message bounds i ex) = ex_diagnostics ex @
     [ex_diagnostic c code diagnostic_stage.Extract Error ForcesRejected message bounds i]"
  by (simp_all add: push_error_def push_diagnostic_def)

lemma fold_push_error:
  "ex_drafts (fold (\<lambda>_. push_error c code message bounds i) xs ex) = ex_drafts ex \<and>
   ex_metadata (fold (\<lambda>_. push_error c code message bounds i) xs ex) = ex_metadata ex \<and>
   lowers c ex (fold (\<lambda>_. push_error c code message bounds i) xs ex) \<and>
   set (ex_diagnostics ex) \<subseteq> set (ex_diagnostics (fold (\<lambda>_. push_error c code message bounds i) xs ex)) \<and>
   (xs \<noteq> [] \<longrightarrow> ex_diagnostic c code diagnostic_stage.Extract Error ForcesRejected message bounds i
      \<in> set (ex_diagnostics (fold (\<lambda>_. push_error c code message bounds i) xs ex)))"
proof (induction xs arbitrary: ex)
  case (Cons x xs)
  note IH = Cons [of "push_error c code message bounds i ex"]
  have "lowers c ex (fold (\<lambda>_. push_error c code message bounds i) (x # xs) ex)"
    using lowers_trans [OF lowers_push_error [of c ex code message bounds i]] IH by simp
  then show ?case using IH by auto
qed simp

lemma report_missing:
  "ex_drafts (report_missing_occurrences c ex) = ex_drafts ex"
  "ex_metadata (report_missing_occurrences c ex) = ex_metadata ex"
  "lowers c ex (report_missing_occurrences c ex)"
  "i \<in> known ex \<Longrightarrow> no_occurrence ex i \<Longrightarrow>
     \<exists>d\<in>set (ex_diagnostics (report_missing_occurrences c ex)).
       diag_code d = DiagnosticCode ''PARC-E1208'' \<and> diag_impact d = ForcesRejected"
proof -
  note f = fold_push_error [of c "''PARC-E1208''" "''an indexed declaration had no contract-safe source occurrence''"
      None None "filter (no_occurrence ex) (map fst (in_key_order (ex_metadata ex)))" ex,
      folded report_missing_occurrences_def]
  show "ex_drafts (report_missing_occurrences c ex) = ex_drafts ex"
    "ex_metadata (report_missing_occurrences c ex) = ex_metadata ex"
    "lowers c ex (report_missing_occurrences c ex)" using f by blast+
  show "\<exists>d\<in>set (ex_diagnostics (report_missing_occurrences c ex)).
      diag_code d = DiagnosticCode ''PARC-E1208'' \<and> diag_impact d = ForcesRejected"
    if "i \<in> known ex" "no_occurrence ex i"
  proof -
    have "filter (no_occurrence ex) (map fst (in_key_order (ex_metadata ex))) \<noteq> []"
      using that by (auto simp: known_def filter_empty_conv)
    then have "ex_diagnostic c ''PARC-E1208'' diagnostic_stage.Extract Error ForcesRejected
        ''an indexed declaration had no contract-safe source occurrence'' None None
        \<in> set (ex_diagnostics (report_missing_occurrences c ex))"
      using f by blast
    then show ?thesis by (rule bexI [rotated]) (simp add: ex_diagnostic_def)
  qed
qed

text \<open>Drafts without a kind get one.\<close>

lemma fill_missing_kind_simp:
  "fill_missing_kind c (i, d) ex =
     push_error c ''PARC-E1209'' ''the declaration kind could not be lowered without guessing''
       (Some (occ_range (hd (dr_occurrences d)))) (Some i)
       (ex\<lparr>ex_drafts := AList.update i (kindless_draft d) (ex_drafts ex)\<rparr>)"
  by (simp add: fill_missing_kind_def)

definition same_occurrences :: "extractor \<Rightarrow> extractor \<Rightarrow> bool" where
  "same_occurrences ex ex' \<longleftrightarrow> ex_metadata ex' = ex_metadata ex \<and>
     (\<forall>i. map_option dr_occurrences (map_of (ex_drafts ex') i) = map_option dr_occurrences (map_of (ex_drafts ex) i)) \<and>
     set (ex_diagnostics ex) \<subseteq> set (ex_diagnostics ex')"

lemma same_occurrences_refl [simp]: "same_occurrences ex ex"
  by (simp add: same_occurrences_def)

lemma same_occurrences_trans: "same_occurrences ex ex' \<Longrightarrow> same_occurrences ex' ex'' \<Longrightarrow> same_occurrences ex ex''"
  by (auto simp: same_occurrences_def)

lemma fill_one:
  assumes "extractor_ok c ex" "map_of (ex_drafts ex) i = Some d"
  shows "lowers c ex (fill_missing_kind c (i, d) ex)"
    and "same_occurrences ex (fill_missing_kind c (i, d) ex)"
    and "map_of (ex_drafts (fill_missing_kind c (i, d) ex)) = (map_of (ex_drafts ex))(i \<mapsto> kindless_draft d)"
proof -
  have meta: "map_of (ex_metadata ex) i = Some (dr_meta d)"
    using assms by (auto simp: extractor_ok_def drafts_ok_def dest: map_of_SomeD)
  have "draft_of c i ex = Ok d" using assms(2) meta by (simp add: draft_of_def)
  then have "lower_step c ex (ex\<lparr>ex_drafts := AList.update i (kindless_draft d) (ex_drafts ex)\<rparr>)"
    by (intro step_draft) (simp_all add: kindless_draft_def)
  then show "lowers c ex (fill_missing_kind c (i, d) ex)"
    unfolding fill_missing_kind_simp by (blast intro: lowers_trans lowers_push_error)
  show "map_of (ex_drafts (fill_missing_kind c (i, d) ex)) = (map_of (ex_drafts ex))(i \<mapsto> kindless_draft d)"
    by (simp add: fill_missing_kind_simp AList.update_conv')
  show "same_occurrences ex (fill_missing_kind c (i, d) ex)"
    using assms(2) by (auto simp: fill_missing_kind_simp same_occurrences_def AList.update_conv' kindless_draft_def)
qed

lemma fold_fill:
  assumes "extractor_ok c ex" "distinct (map fst ms)" "\<forall>(i, d)\<in>set ms. map_of (ex_drafts ex) i = Some d"
  shows "lowers c ex (fold (fill_missing_kind c) ms ex) \<and> same_occurrences ex (fold (fill_missing_kind c) ms ex) \<and>
    (\<forall>i d. map_of (ex_drafts (fold (fill_missing_kind c) ms ex)) i = Some d \<longrightarrow>
       dr_kind d \<noteq> None \<or> i \<notin> fst ` set ms \<and> map_of (ex_drafts ex) i = Some d)"
  using assms
proof (induction ms arbitrary: ex)
  case (Cons m ms)
  obtain i d where m: "m = (i, d)" by (cases m)
  let ?ex = "fill_missing_kind c (i, d) ex"
  have d: "map_of (ex_drafts ex) i = Some d" using Cons.prems m by auto
  note one = fill_one [OF Cons.prems(1) d]
  have ok: "extractor_ok c ?ex" using lowers_ok [OF one(1) Cons.prems(1)] by simp
  have "\<forall>(j, e)\<in>set ms. map_of (ex_drafts ?ex) j = Some e"
    using Cons.prems(2,3) m one(3) by (force simp: image_iff)
  with Cons.IH [OF ok] Cons.prems(2)
  have IH: "lowers c ?ex (fold (fill_missing_kind c) ms ?ex)" "same_occurrences ?ex (fold (fill_missing_kind c) ms ?ex)"
    "\<And>j e. map_of (ex_drafts (fold (fill_missing_kind c) ms ?ex)) j = Some e \<Longrightarrow>
       dr_kind e \<noteq> None \<or> j \<notin> fst ` set ms \<and> map_of (ex_drafts ?ex) j = Some e"
    by auto
  have "dr_kind e \<noteq> None \<or> j \<notin> fst ` set (m # ms) \<and> map_of (ex_drafts ex) j = Some e"
    if "map_of (ex_drafts (fold (fill_missing_kind c) ms ?ex)) j = Some e" for j e
    using IH(3) [OF that] one(3) m by (cases "j = i") (auto simp: kindless_draft_def)
  then show ?case
    using lowers_trans [OF one(1) IH(1)] same_occurrences_trans [OF one(2) IH(2)] m by simp
qed simp

lemma fill_missing:
  assumes "extractor_ok c ex"
  shows "lowers c ex (fill_missing_kinds c ex)" "same_occurrences ex (fill_missing_kinds c ex)"
    and "\<forall>(i, d)\<in>set (ex_drafts (fill_missing_kinds c ex)). dr_occurrences d \<noteq> [] \<longrightarrow> dr_kind d \<noteq> None"
proof -
  let ?ms = "filter (\<lambda>(i, d). missing_kind d) (in_key_order (ex_drafts ex))"
  have dist: "distinct (map fst (ex_drafts ex))" using assms by (simp add: extractor_ok_def drafts_ok_def)
  have "distinct (map fst (in_key_order (ex_drafts ex)))"
    using dist by (simp add: in_key_order_def distinct_map)
  then have "distinct (map fst ?ms)" by (rule distinct_map_filter)
  moreover have "\<forall>(i, d)\<in>set ?ms. map_of (ex_drafts ex) i = Some d"
    using dist by (auto simp: map_of_eq_Some_iff)
  ultimately have f: "lowers c ex (fill_missing_kinds c ex)" "same_occurrences ex (fill_missing_kinds c ex)"
    "\<And>i d. map_of (ex_drafts (fill_missing_kinds c ex)) i = Some d \<Longrightarrow>
       dr_kind d \<noteq> None \<or> i \<notin> fst ` set ?ms \<and> map_of (ex_drafts ex) i = Some d"
    using fold_fill [OF assms, of ?ms] by (auto simp: fill_missing_kinds_def)
  show "lowers c ex (fill_missing_kinds c ex)" "same_occurrences ex (fill_missing_kinds c ex)" by (fact f)+
  have dist': "distinct (map fst (ex_drafts (fill_missing_kinds c ex)))"
    using lowers_ok [OF f(1) assms] by (simp add: extractor_ok_def drafts_ok_def)
  have "dr_kind d \<noteq> None" if "(i, d) \<in> set (ex_drafts (fill_missing_kinds c ex))" "dr_occurrences d \<noteq> []" for i d
  proof (rule ccontr)
    assume none: "\<not> dr_kind d \<noteq> None"
    have now: "map_of (ex_drafts (fill_missing_kinds c ex)) i = Some d"
      using that(1) dist' by (simp add: map_of_eq_Some_iff)
    then have old: "i \<notin> fst ` set ?ms" "(i, d) \<in> set (ex_drafts ex)"
      using f(3) [OF now] none by (auto dest: map_of_SomeD)
    then have "(i, d) \<in> set ?ms" using that(2) none by (simp add: missing_kind_def)
    then show False using old(1) by force
  qed
  then show "\<forall>(i, d)\<in>set (ex_drafts (fill_missing_kinds c ex)). dr_occurrences d \<noteq> [] \<longrightarrow> dr_kind d \<noteq> None" by auto
qed

text \<open>Statuses are reported.\<close>

definition status_code :: "support_status \<Rightarrow> diagnostic_code option" where
  "status_code s = (case s of
     Supported \<Rightarrow> None | PartialSupport code _ \<Rightarrow> Some code | UnsupportedSupport code _ \<Rightarrow> Some code)"

definition reported :: "extractor \<Rightarrow> declaration_id \<Rightarrow> support_status \<Rightarrow> bool" where
  "reported ex i s \<longleftrightarrow> (\<forall>code. status_code s = Some code \<longrightarrow> already_reported ex i code)"

lemma already_reported_mono:
  "already_reported ex i code \<Longrightarrow> set (ex_diagnostics ex) \<subseteq> set (ex_diagnostics ex') \<Longrightarrow> already_reported ex' i code"
  by (auto simp: already_reported_def list_ex_iff)

lemma reported_mono:
  "reported ex i s \<Longrightarrow> set (ex_diagnostics ex) \<subseteq> set (ex_diagnostics ex') \<Longrightarrow> reported ex' i s"
  unfolding reported_def using already_reported_mono by blast

lemma report_status_pushes:
  "report_status c (i, d) ex = ex \<and> reported ex i (dr_support d) \<or>
   (\<exists>g. report_status c (i, d) ex = push_diagnostic g ex \<and> proper_diagnostic c g \<and>
     diag_declaration g = Some i \<and> status_code (dr_support d) = Some (diag_code g))"
proof -
  have "\<exists>g. push_diagnostic (ex_diagnostic c (code_str code) diagnostic_stage.Extract sev impact reason bounds (Some i)) ex =
      push_diagnostic g ex \<and> proper_diagnostic c g \<and> diag_declaration g = Some i \<and> Some code = Some (diag_code g)"
    for code sev impact reason bounds
    by (rule exI, rule conjI, rule refl) (simp add: ex_diagnostic_def proper_diagnostic_def)
  then show ?thesis
    by (cases "dr_support d") (simp_all add: report_status_def reported_def status_code_def)
qed

lemma report_status_step:
  "lowers c ex (report_status c (i, d) ex)" "ex_drafts (report_status c (i, d) ex) = ex_drafts ex"
  "ex_metadata (report_status c (i, d) ex) = ex_metadata ex"
  "set (ex_diagnostics ex) \<subseteq> set (ex_diagnostics (report_status c (i, d) ex))"
  "reported (report_status c (i, d) ex) i (dr_support d)"
proof -
  consider (same) "report_status c (i, d) ex = ex" "reported ex i (dr_support d)"
    | (push) g where "report_status c (i, d) ex = push_diagnostic g ex" "proper_diagnostic c g"
      "diag_declaration g = Some i" "status_code (dr_support d) = Some (diag_code g)"
    using report_status_pushes [of c i d ex] by blast
  then have "lowers c ex (report_status c (i, d) ex) \<and> ex_drafts (report_status c (i, d) ex) = ex_drafts ex \<and>
    ex_metadata (report_status c (i, d) ex) = ex_metadata ex \<and>
    set (ex_diagnostics ex) \<subseteq> set (ex_diagnostics (report_status c (i, d) ex)) \<and>
    reported (report_status c (i, d) ex) i (dr_support d)"
  proof cases
    case push
    have "reported (push_diagnostic g ex) i (dr_support d)"
      using push by (simp add: reported_def already_reported_def push_diagnostic_def)
    then show ?thesis
      unfolding push(1) using lowers_push [OF push(2)] by (auto simp: push_diagnostic_def)
  qed simp
  then show "lowers c ex (report_status c (i, d) ex)" "ex_drafts (report_status c (i, d) ex) = ex_drafts ex"
    "ex_metadata (report_status c (i, d) ex) = ex_metadata ex"
    "set (ex_diagnostics ex) \<subseteq> set (ex_diagnostics (report_status c (i, d) ex))"
    "reported (report_status c (i, d) ex) i (dr_support d)" by blast+
qed

lemma fold_report_status:
  "lowers c ex (fold (report_status c) ds ex) \<and> ex_drafts (fold (report_status c) ds ex) = ex_drafts ex \<and>
   ex_metadata (fold (report_status c) ds ex) = ex_metadata ex \<and>
   set (ex_diagnostics ex) \<subseteq> set (ex_diagnostics (fold (report_status c) ds ex)) \<and>
   (\<forall>(i, d)\<in>set ds. reported (fold (report_status c) ds ex) i (dr_support d))"
proof (induction ds arbitrary: ex)
  case (Cons x ds)
  obtain i d where x: "x = (i, d)" by (cases x)
  let ?ex = "report_status c (i, d) ex"
  note step = report_status_step [where c = c and i = i and d = d and ex = ex] and IH = Cons [of ?ex]
  have "reported (fold (report_status c) ds ?ex) i (dr_support d)"
    using reported_mono [OF step(5)] IH by blast
  then show ?case using lowers_trans [OF step(1)] IH step(2-4) x by auto
qed simp

lemma report_statuses:
  "lowers c ex (report_statuses c ex)" "ex_drafts (report_statuses c ex) = ex_drafts ex"
  "ex_metadata (report_statuses c ex) = ex_metadata ex"
  "set (ex_diagnostics ex) \<subseteq> set (ex_diagnostics (report_statuses c ex))"
  "(i, d) \<in> set (ex_drafts ex) \<Longrightarrow> reported (report_statuses c ex) i (dr_support d)"
  using fold_report_status [of c ex "in_key_order (ex_drafts ex)"] by (auto simp: report_statuses_def)

text \<open>The whole end: no declaration that is collected lacks a kind.\<close>

definition finished :: "extraction_context \<Rightarrow> extractor \<Rightarrow> extractor" where
  "finished c ex = report_statuses c (fill_missing_kinds c (report_missing_occurrences c ex))"

definition collected :: "extractor \<Rightarrow> (declaration_id \<times> declaration_draft) list" where
  "collected ex = filter (\<lambda>(i, d). dr_occurrences d \<noteq> []) (in_key_order (ex_drafts ex))"

lemma collect_declarations_eq:
  "\<forall>(i, d)\<in>set ds. dr_occurrences d \<noteq> [] \<longrightarrow> dr_kind d \<noteq> None \<Longrightarrow>
     collect_declarations ds = Ok (map (\<lambda>(i, d). declaration_of_draft i d (the (dr_kind d)))
       (filter (\<lambda>(i, d). dr_occurrences d \<noteq> []) ds))"
  by (induction ds rule: collect_declarations.induct) auto

lemma finished_ok:
  assumes "extractor_ok c ex"
  shows "extractor_ok c (finished c ex)" "ex_metadata (finished c ex) = ex_metadata ex"
    and "\<forall>(i, d)\<in>set (ex_drafts (finished c ex)). dr_occurrences d \<noteq> [] \<longrightarrow> dr_kind d \<noteq> None"
    and "\<forall>(i, d)\<in>set (ex_drafts (finished c ex)). reported (finished c ex) i (dr_support d)"
    and "\<forall>i. map_option dr_occurrences (map_of (ex_drafts (finished c ex)) i) =
      map_option dr_occurrences (map_of (ex_drafts ex) i)"
    and "set (ex_diagnostics (report_missing_occurrences c ex)) \<subseteq> set (ex_diagnostics (finished c ex))"
proof -
  let ?ex1 = "report_missing_occurrences c ex"
  let ?ex2 = "fill_missing_kinds c ?ex1"
  have ok1: "extractor_ok c ?ex1" using lowers_ok [OF report_missing(3) assms] by simp
  note fill = fill_missing [OF ok1]
  have ok2: "extractor_ok c ?ex2" using lowers_ok [OF fill(1) ok1] by simp
  note report = report_statuses [where c = c and ex = ?ex2, folded finished_def]
  show "extractor_ok c (finished c ex)" using lowers_ok [OF report(1) ok2] by simp
  show "ex_metadata (finished c ex) = ex_metadata ex"
    using report(3) fill(2) report_missing(2) by (simp add: same_occurrences_def)
  show "\<forall>(i, d)\<in>set (ex_drafts (finished c ex)). dr_occurrences d \<noteq> [] \<longrightarrow> dr_kind d \<noteq> None"
    using report(2) fill(3) by simp
  show "\<forall>(i, d)\<in>set (ex_drafts (finished c ex)). reported (finished c ex) i (dr_support d)"
    using report(2,5) by auto
  show "\<forall>i. map_option dr_occurrences (map_of (ex_drafts (finished c ex)) i) =
      map_option dr_occurrences (map_of (ex_drafts ex) i)"
    using report(2) fill(2) report_missing(1) by (simp add: same_occurrences_def)
  show "set (ex_diagnostics ?ex1) \<subseteq> set (ex_diagnostics (finished c ex))"
    using report(4) fill(2) by (auto simp: same_occurrences_def)
qed

lemma finish_extraction_eq:
  assumes "extractor_ok c ex"
  shows "finish_extraction c ex = Ok \<lparr>out_declarations = sort_key decl_id
      (map (\<lambda>(i, d). declaration_of_draft i d (the (dr_kind d))) (collected (finished c ex))),
    out_diagnostics = remdups_adj (sort (ex_diagnostics (finished c ex)))\<rparr>"
proof -
  have "\<forall>(i, d)\<in>set (in_key_order (ex_drafts (finished c ex))). dr_occurrences d \<noteq> [] \<longrightarrow> dr_kind d \<noteq> None"
    using finished_ok(3) [OF assms] by simp
  from collect_declarations_eq [OF this] show ?thesis
    by (simp add: finish_extraction_def Let_def finished_def [symmetric] collected_def)
qed

text \<open>The state that the two passes reach.\<close>

lemma extract_contract_passes:
  assumes "extract_contract c u = Ok out"
  obtains ex1 ex2 where "index_translation_unit c u extractor_new = Ok ex1" "lowers c ex1 ex2"
    "index_ok c ex1" "list_all (covered_external ex1 \<circ> node) (unit_externals u)"
    "extractor_ok c ex2" "ex_metadata ex2 = ex_metadata ex1"
    "finish_extraction c ex2 = Ok out"
proof -
  obtain ex1 ex2 where e: "index_translation_unit c u extractor_new = Ok ex1"
    "lower_translation_unit c u ex1 = Ok ex2" "finish_extraction c ex2 = Ok out"
    using assms by (auto simp: extract_contract_def and_then_Ok_iff)
  note 1 = index_unit [OF e(1)] and l = lowers_translation_unit [OF e(2)]
  have "extractor_ok c ex1" using 1 index_ok_extractor by blast
  from that [OF e(1) l _ _ _ _ e(3)] 1 lowers_ok [OF l this] show ?thesis by blast
qed

lemma in_collected:
  "(i, d) \<in> set (collected ex) \<longleftrightarrow> (i, d) \<in> set (ex_drafts ex) \<and> dr_occurrences d \<noteq> []"
  by (auto simp: collected_def)

lemma in_output:
  assumes "extractor_ok c ex" "finish_extraction c ex = Ok out"
  shows "x \<in> set (out_declarations out) \<longleftrightarrow>
    (\<exists>i d. (i, d) \<in> set (ex_drafts (finished c ex)) \<and> dr_occurrences d \<noteq> [] \<and>
       x = declaration_of_draft i d (the (dr_kind d)))"
    and "g \<in> set (out_diagnostics out) \<longleftrightarrow> g \<in> set (ex_diagnostics (finished c ex))"
  using assms(2) finish_extraction_eq [OF assms(1)] in_collected [of _ _ "finished c ex"]
  by (auto simp: image_iff Bex_def, blast)

lemma strict_sorted_distinct: "sorted_wrt (<) xs \<longleftrightarrow> sorted xs \<and> distinct (xs :: 'a::linorder list)"
  by (auto simp: strict_sorted_iff)

lemma distinct_remdups_sorted: "sorted xs \<Longrightarrow> distinct (remdups_adj (xs :: 'a::linorder list))"
  by (induction xs rule: remdups_adj.induct) auto

lemma distinct_map_sort: "distinct (map f xs) \<Longrightarrow> distinct (map f (sort_key g xs))"
  by (simp add: distinct_map)

lemma output_sorted:
  assumes "finish_extraction c ex = Ok out" "extractor_ok c ex"
  shows "sorted_wrt (<) (out_diagnostics out)" "sorted_wrt (<) (map decl_id (out_declarations out))"
proof -
  let ?ds = "map (\<lambda>(i, d). declaration_of_draft i d (the (dr_kind d))) (collected (finished c ex))"
  have out: "out_declarations out = sort_key decl_id ?ds"
    "out_diagnostics out = remdups_adj (sort (ex_diagnostics (finished c ex)))"
    using assms(1) finish_extraction_eq [OF assms(2)] by auto
  show "sorted_wrt (<) (out_diagnostics out)"
    unfolding out by (simp add: strict_sorted_distinct distinct_remdups_sorted)
  have "distinct (map fst (ex_drafts (finished c ex)))"
    using finished_ok(1) [OF assms(2)] by (simp add: extractor_ok_def drafts_ok_def)
  then have "distinct (map fst (in_key_order (ex_drafts (finished c ex))))"
    by (simp add: in_key_order_def distinct_map)
  then have "distinct (map fst (collected (finished c ex)))"
    unfolding collected_def by (rule distinct_map_filter)
  moreover have "map decl_id ?ds = map fst (collected (finished c ex))"
    by (auto simp: declaration_of_draft_def)
  ultimately have "distinct (map decl_id ?ds)" by argo
  then have "distinct (map decl_id (sort_key decl_id ?ds))" by (rule distinct_map_sort)
  then show "sorted_wrt (<) (map decl_id (out_declarations out))"
    unfolding out by (simp add: strict_sorted_distinct)
qed

subsection \<open>A declaration extracted\<close>

text \<open>\<open>int (*p)(int);\<close>\<close>

definition sample_context :: extraction_context where
  "sample_context = \<lparr>cx_hash = (\<lambda>label _. label), cx_nfc = id, cx_checks = True, cx_source = ''int (*p)(int);'',
     cx_file = FileId ''f'', cx_target = TargetFingerprint ''t'', cx_int128 = True, cx_sizes = tr_sizes sample_resolver,
     cx_visibility = TargetDefault\<rparr>"

definition sample_declarator :: declarator where
  "sample_declarator = Declarator (Node (DeclaratorKind_Declarator
       (Node (Declarator (Node (DeclaratorKind_Identifier (Node (Identifier ''p'') (Span 6 7))) (Span 6 7))
         [Node (DerivedDeclarator_Pointer []) (Span 5 6)] []) (Span 5 7))) (Span 4 8))
     [Node (DerivedDeclarator_Function (Node (FunctionDeclarator
         [Node (ParameterDeclaration [int_specifier 9] None []) (Span 9 12)] Ellipsis_None) (Span 8 13))) (Span 8 13)] []"

definition sample_unit :: translation_unit where
  "sample_unit = Ast.TranslationUnit [Node (ExternalDeclaration_Declaration (Node (Declaration [int_specifier 0]
     [Node (InitDeclarator (Node sample_declarator (Span 4 13)) None) (Span 4 13)]) (Span 0 14))) (Span 0 14)]"

definition sample_id :: declaration_id where
  "sample_id = DeclarationId ''follang.parc.entity-id.v1''"

definition sample_meta :: declaration_meta where
  "sample_meta = \<lparr>meta_identity = NamedIdentity Ordinary entity_scope.TranslationUnit ''p'',
     meta_name = Some (source_name_of ''p'' ''p''), meta_linkage = ExternalLinkage\<rparr>"

definition sample_parameter :: source_parameter where
  "sample_parameter = \<lparr>par_id = ChildId ''follang.parc.child-id.v1'', par_ordinal = 0, par_name = None, par_ty = int_type,
     par_range = SourceRange (FileId ''f'') 9 12, par_provenance = generated_provenance, par_attributes = [],
     par_support = Supported\<rparr>"

definition sample_function :: source_function where
  "sample_function = \<lparr>fun_link_name = ''p'', fun_return = int_type, fun_parameters = [sample_parameter],
     fun_prototype = Prototyped False, fun_convention = CConv\<rparr>"

definition sample_occurrence :: declaration_occurrence where
  "sample_occurrence = \<lparr>occ_id = OccurrenceId ''follang.parc.occurrence-id.v1'',
     occ_range = SourceRange (FileId ''f'') 4 13, occ_name_range = Some (SourceRange (FileId ''f'') 6 7),
     occ_spelling = ''(*p)(int)'', occ_tokens = [''('', ''*'', ''p'', '')'', ''('', ''int'', '')''], occ_ordinal = 0,
     occ_storage = NoStorage, occ_is_definition = False, occ_attributes = [], occ_provenance = generated_provenance\<rparr>"

definition sample_draft :: "source_declaration_kind option \<Rightarrow> declaration_draft" where
  "sample_draft kind = \<lparr>dr_meta = sample_meta, dr_visibility = TargetDefault, dr_occurrences = [sample_occurrence],
     dr_support = Supported, dr_kind = kind\<rparr>"

definition sample_indexed :: extractor where
  "sample_indexed = extractor_new\<lparr>ex_ordinary := [''p'' \<mapsto> sample_id], ex_metadata := [(sample_id, sample_meta)]\<rparr>"

definition sample_drafted :: "source_declaration_kind option \<Rightarrow> extractor" where
  "sample_drafted kind = sample_indexed\<lparr>ex_drafts := [(sample_id, sample_draft kind)],
     ex_occurrence_ordinals := (\<lambda>_. 0)((sample_id, occ_tokens sample_occurrence) := 1)\<rparr>"

definition sample_output :: extraction_output where
  "sample_output = \<lparr>out_declarations = [declaration_of_draft sample_id (sample_draft None) (FunctionDecl sample_function)],
     out_diagnostics = []\<rparr>"

lemma sample_slice: "source_slice ''int (*p)(int);'' 4 13 = Ok ''(*p)(int)''"
  by code_simp

lemma sample_tokens:
  "map tok_text (filter (\<lambda>k. tok_kind k \<notin> {Whitespace, Newline, LineComment, BlockComment, Eof})
     (tokenize ''(*p)(int)'')) = occ_tokens sample_occurrence"
  by code_simp

lemma sample_span:
  "ex_range sample_context (Span 4 13) = Some (SourceRange (FileId ''f'') 4 13)"
  "ex_range sample_context (Span 9 12) = Some (SourceRange (FileId ''f'') 9 12)"
  "ex_range sample_context (Span 6 7) = Some (SourceRange (FileId ''f'') 6 7)"
  "ex_tokens sample_context (Span 4 13) = Ok (Some (occ_tokens sample_occurrence))"
  "ex_text sample_context (Span 4 13) = Ok (Some ''(*p)(int)'')"
  using sample_slice sample_tokens
  by (simp_all add: ex_tokens_def ex_text_def ex_range_def valid_span_def sample_context_def span_is_none_def
    usize_max_def)

lemmas sample_ids = sample_context_def sample_id_def finish_def field_def hasher_new_def

lemma sample_index: "index_translation_unit sample_context sample_unit extractor_new = Ok sample_indexed"
  by (simp add: index_translation_unit_def sample_unit_def sample_declarator_def index_external_def index_declaration_def
    int_specifier_def has_storage_def index_ordinary_def extractor_new_def named_meta_def entity_named_def
    normalize_identifier_def sample_indexed_def sample_meta_def hash_scope_def declaration_from_entity_def sample_ids)

lemma sample_declarator_simps [simp]:
  "declarator_name sample_declarator = Some ''p''" "declarator_name_span sample_declarator = Some (Span 6 7)"
  "is_function_declarator sample_declarator" "declaration_extensions [int_specifier 0] sample_declarator = []"
  by (simp_all add: sample_declarator_def is_function_declarator_def declaration_extensions_def int_specifier_def)

lemma no_extensions [simp]:
  "asm_link_name [] = Inr None" "calling_convention_of [] = Inr CConv" "visibility_from_extensions s [] = Ok (Inr None)"
  "has_unmodeled_extensions [] = False"
  by (simp_all add: asm_link_name_def calling_convention_of_def visibility_from_extensions_def
    has_unmodeled_extensions_def List.map_filter_simps)

lemma int_storage [simp]: "declaration_storage [int_specifier n] = NoStorage"
  by (simp add: declaration_storage_def int_specifier_def or_else_def)

lemma int_support [simp]: "nested_type_support int_type = None"
  by (simp add: int_type_def supported_def is_supported_def)

lemma sample_ordinary [simp]:
  "ex_ordinary sample_indexed ''p'' = Some sample_id" "ex_ordinary (sample_drafted kind) ''p'' = Some sample_id"
  by (simp_all add: sample_drafted_def sample_indexed_def)

lemma sample_occurrence_of:
  "occurrence_of sample_context sample_id (SourceRange (FileId ''f'') 4 13) (Some (Span 6 7)) ''(*p)(int)''
     (occ_tokens sample_occurrence) 0 NoStorage False [] = sample_occurrence"
  unfolding occurrence_of_def
  by (simp add: sample_span) (simp add: sample_occurrence_def occurrence_derive_def occurrence_hasher_def sample_ids)

lemma sample_add:
  "add_occurrence sample_context sample_id (Span 4 13) (Some (Span 6 7)) NoStorage False [] sample_indexed =
     Ok (sample_drafted None)"
  by (simp add: add_occurrence_def sample_span record_occurrence_def with_draft_def draft_of_def sample_indexed_def
      extractor_new_def sample_drafted_def sample_draft_def sample_occurrence_of)
    (simp add: sample_context_def)

lemma sample_parts:
  "function_parts (resolver_of sample_context ex) [int_specifier 0] sample_declarator =
     Ok (Some \<lparr>lf_return = int_type,
       lf_parameters = [\<lparr>lp_name = None, lp_ty = int_type, lp_span = Span 9 12, lp_extensions = []\<rparr>],
       lf_prototype = Prototyped False\<rparr>)"
  by (simp add: function_parts_def declaration_type_def sample_declarator_def int_finish del: finish_type.simps)
    (simp add: int_type_def supported_def lowered_of_def int_specifier_def only_void_def prototype_of_def)

lemma sample_lower_parameter:
  "lower_parameter sample_context sample_id 0 \<lparr>lp_name = None, lp_ty = int_type, lp_span = Span 9 12, lp_extensions = []\<rparr> =
     Ok (Some sample_parameter)"
  by (simp add: lower_parameter_def sample_span expect_name_def attributed_support_def type_support_def)
    (simp add: sample_parameter_def child_parameter_def child_derive_def sample_ids)

lemma sample_kind:
  "lower_declarator_kind sample_context (sample_drafted None) [int_specifier 0] sample_declarator ''p'' [] =
     Ok (FunctionDecl sample_function)"
  by (simp add: lower_declarator_kind_def lower_function_kind_def sample_parts sample_lower_parameter)
    (simp add: sample_function_def)

lemma sample_set_kind:
  "set_kind sample_context sample_id (FunctionDecl sample_function) (sample_drafted None) =
     Ok (sample_drafted (Some (FunctionDecl sample_function)))"
  by (simp add: set_kind_def draft_of_def with_draft_def action_of_def sample_drafted_def sample_indexed_def
      updated_draft_def sample_draft_def declaration_kind_support_def sample_function_def sample_parameter_def or_else_def
      own_or_nested_def is_supported_def update_aliases_def extractor_new_def)

lemma sample_finish_declarator:
  "finish_declarator sample_context sample_id (FunctionDecl sample_function) [] [int_specifier 0] (sample_drafted None) =
     Ok (sample_drafted (Some (FunctionDecl sample_function)))"
  by (simp add: finish_declarator_def sample_set_kind apply_extension_support_def when_ok_def int_specifier_def)

lemma int_lowers: "lower_type_specifiers c [int_specifier n] ex = Ok ex"
  by (simp add: int_specifier_def)

lemma sample_lowered:
  "lower_translation_unit sample_context sample_unit sample_indexed =
     Ok (sample_drafted (Some (FunctionDecl sample_function)))"
  by (simp add: lower_translation_unit_def sample_unit_def lower_external_def lower_declaration_def int_lowers
      lower_init_declarator_def sample_add sample_kind sample_finish_declarator declaration_is_definition_def
      del: lower_type_specifiers.simps)

lemma sample_finished:
  "finish_extraction sample_context (sample_drafted (Some (FunctionDecl sample_function))) = Ok sample_output"
  by (simp add: finish_extraction_def report_missing_occurrences_def in_key_order_def sample_drafted_def
      sample_indexed_def no_occurrence_def sample_draft_def fill_missing_kinds_def missing_kind_def report_statuses_def
      report_status_def extractor_new_def sample_output_def declaration_of_draft_def)

lemma sample_extracted: "extract_contract sample_context sample_unit = Ok sample_output"
  by (simp add: extract_contract_def sample_index sample_lowered sample_finished)

lemma lower_function_kind_Ok:
  assumes "lower_function_kind c ex specifiers d name extensions = Ok kind"
  shows "(\<exists>function. kind = FunctionDecl function) \<or> (\<exists>u. kind = UnsupportedDecl u)"
proof (cases "calling_convention_of extensions")
  case (Inr convention)
  then obtain parts where parts: "function_parts (resolver_of c ex) specifiers d = Ok parts"
    using assms by (auto simp: lower_function_kind_def Let_def and_then_Ok_iff)
  show ?thesis
  proof (cases parts)
    case (Some p)
    then obtain parent where parent: "ex_ordinary ex name = Some parent"
      using assms Inr parts by (cases "ex_ordinary ex name") (auto simp: lower_function_kind_def)
    then obtain ps where "lower_all_parameters c parent 0 (lf_parameters p) = Ok ps"
      using assms Inr parts Some by (auto simp: lower_function_kind_def and_then_Ok_iff)
    then show ?thesis
      using assms Inr parts Some parent
      by (cases ps) (auto simp: lower_function_kind_def Let_def map_outcome_Ok_iff unsupported_decl_def split: sum.splits)
  qed (use assms Inr parts in \<open>auto simp: lower_function_kind_def Let_def map_outcome_Ok_iff unsupported_decl_def\<close>)
qed (use assms in \<open>auto simp: lower_function_kind_def unsupported_decl_def\<close>)

text \<open>
  A declarator \<open>(*x)(...)\<close> that is not a typedef has the type of a pointer to a function, but is never lowered to a variable:
  the code looks at the suffixes of the outer declarator only.  \<open>sample_extracted\<close> is the extraction of one.
\<close>

lemma function_pointer_as_function:
  assumes "d = Declarator (Node (DeclaratorKind_Declarator (Node (Declarator (Node (DeclaratorKind_Identifier x) s1)
      [Node (DerivedDeclarator_Pointer qs) s2] e1) s3)) s4) [Node (DerivedDeclarator_Function (Node f s5)) s6] e2"
    and "declaration_type (resolver_of c ex) specifiers (Some d) = Ok ty"
    and "\<not> snd (snd (declaration_qualifiers specifiers))"
    and "declaration_storage specifiers \<noteq> TypedefStorage"
    and "lower_declarator_kind c ex specifiers d name extensions = Ok kind"
  shows "(\<exists>g h. ty_kind ty = Pointer g \<and> ty_kind g = Function h) \<and>
    ((\<exists>function. kind = FunctionDecl function) \<or> (\<exists>u. kind = UnsupportedDecl u))"
proof
  obtain ps dots where f: "f = FunctionDeclarator ps dots" by (cases f)
  show "\<exists>g h. ty_kind ty = Pointer g \<and> ty_kind g = Function h"
    using assms(1-3) unfolding declaration_type_def
    by (cases "declaration_qualifiers specifiers")
      (auto simp: f and_then_Ok_iff map_outcome_Ok_iff function_type_def supported_def pointer_def
        add_pointer_qualifiers_def effectively_pointer_def split: prod.splits)
  have "is_function_declarator d" by (simp add: assms(1) is_function_declarator_def)
  then have "lower_function_kind c ex specifiers d name extensions = Ok kind"
    using assms(4,5) by (simp add: lower_declarator_kind_def)
  then show "(\<exists>function. kind = FunctionDecl function) \<or> (\<exists>u. kind = UnsupportedDecl u)"
    by (rule lower_function_kind_Ok)
qed

text \<open>
  C9: what is not supported is reported.  Every declaration of an extraction whose status is not \<open>Supported\<close> has a
  diagnostic with the code of the status and the identifier of the declaration; a diagnostic about a declaration never forces
  the rejection of the package; all diagnostics are those of the extraction, for its target, strictly sorted.
\<close>

theorem extraction_reports:
  assumes "extract_contract c u = Ok out"
  shows "(\<forall>d\<in>set (out_declarations out). \<forall>code. status_code (decl_support d) = Some code \<longrightarrow>
      (\<exists>g\<in>set (out_diagnostics out). diag_code g = code \<and> diag_declaration g = Some (decl_id d))) \<and>
    (\<forall>g\<in>set (out_diagnostics out). proper_diagnostic c g) \<and> sorted_wrt (<) (out_diagnostics out)"
proof (intro conjI ballI allI impI)
  obtain ex where ex: "extractor_ok c ex" "finish_extraction c ex = Ok out"
    using assms by (rule extract_contract_passes)
  note fin = finished_ok [OF ex(1)]
  show "sorted_wrt (<) (out_diagnostics out)" using output_sorted(1) [OF ex(2,1)] .
  show "proper_diagnostic c g" if "g \<in> set (out_diagnostics out)" for g
    using that fin(1) by (auto simp: in_output(2) [OF ex] extractor_ok_def diagnostics_ok_def list_all_iff)
  show "\<exists>g\<in>set (out_diagnostics out). diag_code g = code \<and> diag_declaration g = Some (decl_id d)"
    if "d \<in> set (out_declarations out)" "status_code (decl_support d) = Some code" for d code
  proof -
    obtain i draft where d: "(i, draft) \<in> set (ex_drafts (finished c ex))"
      "d = declaration_of_draft i draft (the (dr_kind draft))"
      using \<open>d \<in> _\<close> by (auto simp: in_output(1) [OF ex])
    then have "already_reported (finished c ex) i code"
      using fin(4) that(2) by (auto simp: reported_def declaration_of_draft_def)
    then show ?thesis
      using d(2) by (auto simp: already_reported_def list_ex_iff in_output(2) [OF ex] declaration_of_draft_def)
  qed
qed

theorem extraction_reports_witness:
  "list_all (proper_diagnostic sample_context) (out_diagnostics sample_output) \<and>
   list_all (\<lambda>d. status_code (decl_support d) = None) (out_declarations sample_output)"
  using extraction_reports [OF sample_extracted]
  by (auto simp: sample_output_def declaration_of_draft_def sample_draft_def status_code_def)

text \<open>
  C10: identifiers.  The declarations of an extraction are strictly sorted by their identifiers; every identifier is the hash of
  the identity that the declaration carries; every declaration has occurrences, sorted by their identifiers.
\<close>

theorem extraction_ids:
  assumes "extract_contract c u = Ok out"
  shows "sorted_wrt (<) (map decl_id (out_declarations out)) \<and>
    (\<forall>d\<in>set (out_declarations out). decl_id d = identity_id c (decl_identity d) \<and>
      decl_occurrences d \<noteq> [] \<and> sorted (map occ_id (decl_occurrences d)))"
proof (intro conjI ballI)
  obtain ex where ex: "extractor_ok c ex" "finish_extraction c ex = Ok out"
    using assms by (rule extract_contract_passes)
  note fin = finished_ok [OF ex(1)]
  show "sorted_wrt (<) (map decl_id (out_declarations out))" using output_sorted(2) [OF ex(2,1)] .
  fix d
  assume "d \<in> set (out_declarations out)"
  then obtain i draft where d: "(i, draft) \<in> set (ex_drafts (finished c ex))" "dr_occurrences draft \<noteq> []"
    "d = declaration_of_draft i draft (the (dr_kind draft))"
    by (auto simp: in_output(1) [OF ex])
  have "(i, dr_meta draft) \<in> set (ex_metadata (finished c ex))"
    using fin(1) d(1) by (auto simp: extractor_ok_def drafts_ok_def dest!: map_of_SomeD)
  then show "decl_id d = identity_id c (decl_identity d)"
    using fin(1) d(3) by (auto simp: extractor_ok_def metadata_ok_def declaration_of_draft_def)
  show "decl_occurrences d \<noteq> []"
    using d(2,3) by (simp add: declaration_of_draft_def) (metis set_empty set_sort)
  show "sorted (map occ_id (decl_occurrences d))"
    using d(3) by (simp add: declaration_of_draft_def)
qed

theorem extraction_ids_witness:
  "sample_id = identity_id sample_context (meta_identity sample_meta)"
  using extraction_ids [OF sample_extracted]
  by (simp add: sample_output_def declaration_of_draft_def sample_draft_def)

text \<open>
  C8: nothing is dropped silently.  For every name that a declaration or function definition of the unit binds, the output has a
  declaration with the identifier of that name in the ordinary name space, or a diagnostic that rejects the package.
\<close>

theorem extraction_accounts:
  assumes "extract_contract c u = Ok out" "name \<in> set (unit_names u)"
  shows "(\<exists>d\<in>set (out_declarations out). names_entity c Ordinary name (decl_id d)) \<or>
    (\<exists>g\<in>set (out_diagnostics out). diag_code g = DiagnosticCode ''PARC-E1208'' \<and> diag_impact g = ForcesRejected)"
proof -
  obtain ex1 ex where ex1: "index_ok c ex1" "list_all (covered_external ex1 \<circ> node) (unit_externals u)"
    and ex: "extractor_ok c ex" "finish_extraction c ex = Ok out" and meta: "ex_metadata ex = ex_metadata ex1"
    using assms(1) by (rule extract_contract_passes)
  note fin = finished_ok [OF ex(1)]
  have "ex_ordinary ex1 name \<noteq> None"
    using assms(2) ex1(2) by (auto simp: unit_names_def list_all_iff covered_external_def)
  then obtain i where "ex_ordinary ex1 name = Some i" by blast
  then have i: "i \<in> known ex" "names_entity c Ordinary name i"
    using ex1(1) meta unfolding index_ok_def known_def by auto
  show ?thesis
  proof (cases "no_occurrence ex i")
    case True
    then show ?thesis
      using report_missing(4) [OF i(1)] fin(6) in_output(2) [OF ex] by blast
  next
    case False
    then obtain draft where "map_of (ex_drafts ex) i = Some draft" "dr_occurrences draft \<noteq> []"
      by (auto simp: no_occurrence_def split: option.splits)
    then obtain draft' where "map_of (ex_drafts (finished c ex)) i = Some draft'" "dr_occurrences draft' \<noteq> []"
      using fin(5) [rule_format, of i] by auto
    then have "declaration_of_draft i draft' (the (dr_kind draft')) \<in> set (out_declarations out)"
      using in_output(1) [OF ex] by (blast dest: map_of_SomeD)
    then show ?thesis using i(2) by (force simp: declaration_of_draft_def)
  qed
qed

theorem extraction_accounts_witness:
  "names_entity sample_context Ordinary ''p'' sample_id"
proof -
  have "''p'' \<in> set (unit_names sample_unit)"
    by (simp add: unit_names_def sample_unit_def List.map_filter_simps)
  from extraction_accounts [OF sample_extracted this] show ?thesis
    by (simp add: sample_output_def declaration_of_draft_def)
qed

end
