(* ===== verification/Validate.thy ===== *)
theory Validate
  imports Package Target
begin

text \<open>
  The validator of source packages (\<open>src/contract/validate.rs\<close>) and the constructor that calls it
  (\<open>SourcePackage::try_new\<close> of \<open>package.rs\<close>).  \<open>Validator\<close> collects violations in a vector: here every check is the list of the violations
  that it pushes, and the two sets of identifiers seen so far are passed on.  The parameters of the model: BLAKE3 and NFC, the Unicode
  tables behind \<open>is_alphabetic\<close> and \<open>is_alphanumeric\<close>, the texts (\<open>Display\<close>) of the errors of other modules, and the order in which a
  \<open>HashMap\<close> yields its keys.
\<close>

subsection \<open>Violations\<close>

datatype contract_violation_code =
    SchemaViolation | NonCanonicalOrder | DuplicateId | InvalidFile | InvalidRange | InvalidId | InvalidName
  | InvalidReference | WrongReferenceKind | AliasCycle | InvalidType | InvalidCompleteness | InvalidTarget | LimitExceeded

fun violation_rank :: "contract_violation_code \<Rightarrow> nat" where
  "violation_rank SchemaViolation = 0" | "violation_rank NonCanonicalOrder = 1" | "violation_rank DuplicateId = 2"
| "violation_rank InvalidFile = 3" | "violation_rank InvalidRange = 4" | "violation_rank InvalidId = 5"
| "violation_rank InvalidName = 6" | "violation_rank InvalidReference = 7" | "violation_rank WrongReferenceKind = 8"
| "violation_rank AliasCycle = 9" | "violation_rank InvalidType = 10" | "violation_rank InvalidCompleteness = 11"
| "violation_rank InvalidTarget = 12" | "violation_rank LimitExceeded = 13"

datatype contract_violation = ContractViolation
  (viol_code: contract_violation_code) (viol_path: string) (viol_message: string)

type_synonym checks = "contract_violation list"

definition check :: "bool \<Rightarrow> contract_violation_code \<Rightarrow> string \<Rightarrow> string \<Rightarrow> checks" where
  "check ok code path message = (if ok then [] else [ContractViolation code path message])"

lemma check_Nil [simp]: "check ok code path message = [] \<longleftrightarrow> ok"
  by (simp add: check_def)

record validation_limits =
  lim_files :: nat
  lim_declarations :: nat
  lim_macros :: nat
  lim_diagnostics :: nat
  lim_type_depth :: nat

record validation_parameters =
  vp_hash :: hash
  vp_nfc :: "string \<Rightarrow> string"
  vp_alphabetic :: "string \<Rightarrow> bool"
  vp_alphanumeric :: "string \<Rightarrow> bool"
  vp_target_text :: "target_violation \<Rightarrow> string"
  vp_id_text :: "id_error \<Rightarrow> string"
  vp_key_order :: "declaration_id list \<Rightarrow> declaration_id list"

text \<open>The maps of the validator: \<open>BTreeMap\<close>s that later insertions overwrite.\<close>

record tables =
  tb_files :: "(file_id \<times> source_file) list"
  tb_declarations :: "(declaration_id \<times> source_declaration) list"

definition known_file :: "tables \<Rightarrow> file_id \<Rightarrow> bool" where
  "known_file tb i \<longleftrightarrow> map_of (tb_files tb) i \<noteq> None"

definition known_declaration :: "tables \<Rightarrow> declaration_id \<Rightarrow> bool" where
  "known_declaration tb i \<longleftrightarrow> map_of (tb_declarations tb) i \<noteq> None"

text \<open>\<open>format!("{path}[{index}]")\<close>.\<close>

definition at_index :: "string \<Rightarrow> nat \<Rightarrow> string" where
  "at_index path i = path @ ''['' @ decimal (int i) @ '']''"

text \<open>Loops over \<open>enumerate()\<close>, without and with a set that is passed on.\<close>

fun check_each :: "(nat \<Rightarrow> 'a \<Rightarrow> checks) \<Rightarrow> nat \<Rightarrow> 'a list \<Rightarrow> checks" where
  "check_each f i [] = []"
| "check_each f i (x # xs) = f i x @ check_each f (Suc i) xs"

fun check_passing :: "(nat \<Rightarrow> 'a \<Rightarrow> 's \<Rightarrow> checks \<times> 's) \<Rightarrow> nat \<Rightarrow> 'a list \<Rightarrow> 's \<Rightarrow> checks \<times> 's" where
  "check_passing f i [] s = ([], s)"
| "check_passing f i (x # xs) s =
     (let (vs, s') = f i x s; (ws, s'') = check_passing f (Suc i) xs s' in (vs @ ws, s''))"

text \<open>\<open>values.windows(2).all(|pair| key(&pair[0]) < key(&pair[1]))\<close>.\<close>

definition strictly_sorted_by_key :: "('a \<Rightarrow> 'k::linorder) \<Rightarrow> 'a list \<Rightarrow> bool" where
  "strictly_sorted_by_key key xs \<longleftrightarrow> successively (<) (map key xs)"

lemma strictly_sorted_iff: "strictly_sorted_by_key key xs \<longleftrightarrow> sorted_wrt (<) (map key xs)"
  unfolding strictly_sorted_by_key_def by (rule successively_conv_sorted_wrt) (auto intro: transpI)

subsection \<open>Texts\<close>

text \<open>\<open>char::is_control\<close> for all characters of a text.\<close>

definition safe_text :: "string \<Rightarrow> bool" where
  "safe_text value \<longleftrightarrow> control_at 0 value = None"

text \<open>The characters of a UTF-8 text.\<close>

lemma length_dropWhile_cont: "length (dropWhile cont_byte s) < Suc (length s)"
  by (simp add: length_dropWhile_le less_Suc_eq_le)

fun utf8_characters :: "string \<Rightarrow> string list" where
  "utf8_characters [] = []"
| "utf8_characters (c # s) = (c # takeWhile cont_byte s) # utf8_characters (dropWhile cont_byte s)"

definition canonical_c_identifier :: "validation_parameters \<Rightarrow> string \<Rightarrow> bool" where
  "canonical_c_identifier v value \<longleftrightarrow>
     normalize_identifier (vp_nfc v) value = Inr value \<and> safe_text value \<and>
     (case utf8_characters value of
        [] \<Rightarrow> False
      | first # rest \<Rightarrow> (first = ''_'' \<or> vp_alphabetic v first) \<and>
          list_all (\<lambda>character. character = ''_'' \<or> vp_alphanumeric v character) rest)"

definition canonical_environment_name :: "validation_parameters \<Rightarrow> captured_environment \<Rightarrow> bool" where
  "canonical_environment_name v variable \<longleftrightarrow>
     env_name variable \<noteq> [] \<and> CHR ''='' \<notin> set (env_name variable) \<and> safe_text (env_name variable) \<and>
     normalize_identifier (vp_nfc v) (env_name variable) = Inr (env_name variable)"

definition source_range_contains :: "source_range \<Rightarrow> source_range \<Rightarrow> bool" where
  "source_range_contains outer inner \<longleftrightarrow>
     range_file outer = range_file inner \<and> range_start outer \<le> range_start inner \<and> range_end inner \<le> range_end outer"

subsection \<open>Ranges, provenance, attributes\<close>

definition validate_range :: "tables \<Rightarrow> source_range \<Rightarrow> string \<Rightarrow> checks" where
  "validate_range tb r path =
     (case map_of (tb_files tb) (range_file r) of
        None \<Rightarrow> check False InvalidReference path ''range references unknown file''
      | Some file \<Rightarrow> check (\<not> (range_start r > range_end r \<or> range_end r > sf_byte_len file)) InvalidRange path
          ''range is reversed or exceeds file length'')"

fun role_of_origin :: "source_origin \<Rightarrow> source_file_role" where
  "role_of_origin EntryOrigin = EntryRole"
| "role_of_origin UserIncludeOrigin = UserIncludeRole"
| "role_of_origin SystemIncludeOrigin = SystemIncludeRole"
| "role_of_origin BuiltinOrigin = BuiltinRole"
| "role_of_origin GeneratedOrigin = GeneratedRole"

definition validate_provenance :: "tables \<Rightarrow> source_provenance \<Rightarrow> file_id \<Rightarrow> string \<Rightarrow> checks" where
  "validate_provenance tb provenance anchor path =
     check (case map_of (tb_files tb) anchor of None \<Rightarrow> True | Some file \<Rightarrow> sf_role file = role_of_origin (prov_origin provenance))
       InvalidFile (path @ ''.provenance.origin'')
       ''provenance origin does not match the role of the ranged source file'' @
     check_each (\<lambda>i site.
       validate_range tb (site_directive site) (at_index (path @ ''.provenance.include_chain'') i @ ''.directive'') @
       check (known_file tb (site_included site)) InvalidReference
         (at_index (path @ ''.provenance.include_chain'') i @ ''.included'') ''include provenance references unknown file'')
       0 (prov_include_chain provenance) @
     check_each (\<lambda>i expansion.
       validate_range tb (exp_invocation expansion) (at_index (path @ ''.provenance.macro_expansions'') i @ ''.invocation'') @
       (case exp_definition expansion of
          None \<Rightarrow> []
        | Some r \<Rightarrow> validate_range tb r (at_index (path @ ''.provenance.macro_expansions'') i @ ''.definition'')))
       0 (prov_macro_expansions provenance)"

definition validate_attributes :: "tables \<Rightarrow> source_attribute list \<Rightarrow> string \<Rightarrow> checks" where
  "validate_attributes tb attributes path =
     check_each (\<lambda>i a.
       check (attr_name a \<noteq> [] \<and> attr_spelling a \<noteq> []) InvalidName (at_index (path @ ''.attributes'') i)
         ''attribute name and spelling must be nonempty'' @
       validate_range tb (attr_range a) (at_index (path @ ''.attributes'') i @ ''.range''))
       0 attributes"

subsection \<open>Identifiers of children\<close>

definition insert_new :: "'i \<Rightarrow> string \<Rightarrow> string \<Rightarrow> 'i set \<Rightarrow> checks \<times> 'i set" where
  "insert_new i path message seen = (check (i \<notin> seen) DuplicateId path message, insert i seen)"

definition validate_child_id ::
  "validation_parameters \<Rightarrow> declaration_id \<Rightarrow> child_role \<Rightarrow> child_id \<Rightarrow> source_name option \<Rightarrow> string list \<Rightarrow> nat \<Rightarrow>
    string \<Rightarrow> child_id set \<Rightarrow> checks \<times> child_id set" where
  "validate_child_id v parent role i name tokens ordinal path seen =
     (let (duplicates, seen') = insert_new i (path @ ''.id'') ''duplicate ChildId'' seen in
      (duplicates @
       (case name of
          Some n \<Rightarrow> check (nm_original n \<noteq> [] \<and> normalize_identifier (vp_nfc v) (nm_normalized n) = Inr (nm_normalized n))
            InvalidName (path @ ''.name'') ''child name is not canonical''
        | None \<Rightarrow> []) @
       check ((case name of
             Some n \<Rightarrow> (case child_named (vp_hash v) (vp_nfc v) parent role (nm_normalized n) of Inl _ \<Rightarrow> None | Inr e \<Rightarrow> Some e)
           | None \<Rightarrow> Some (child_anonymous (vp_hash v) parent role (canonical_tokens_bytes tokens) ordinal)) = Some i)
         InvalidId (path @ ''.id'') ''ChildId does not match its parent, role, name/tokens, and ordinal'',
       seen'))"

definition validate_parameter_id ::
  "validation_parameters \<Rightarrow> declaration_id \<Rightarrow> child_id \<Rightarrow> nat \<Rightarrow> nat \<Rightarrow> string \<Rightarrow> child_id set \<Rightarrow> checks \<times> child_id set" where
  "validate_parameter_id v parent i ordinal parameter_index path seen =
     (let (duplicates, seen') = insert_new i (path @ ''.id'') ''duplicate ChildId'' seen in
      (duplicates @
       check (ordinal = parameter_index) InvalidId (path @ ''.ordinal'')
         ''parameter ordinal must equal its zero-based prototype position'' @
       check (child_parameter (vp_hash v) parent ordinal = i) InvalidId (path @ ''.id'')
         ''parameter ChildId does not match its parent and semantic ordinal'',
       seen'))"

definition validate_child_range :: "source_declaration \<Rightarrow> source_range \<Rightarrow> string \<Rightarrow> checks" where
  "validate_child_range d child path =
     check (range_start child \<noteq> range_end child \<and>
         list_ex (\<lambda>occ. source_range_contains (occ_range occ) child) (decl_occurrences d))
       InvalidRange (path @ ''.range'') ''child range must be nonempty and contained in an owning declaration occurrence''"

subsection \<open>Types\<close>

datatype reference_kind = AliasReference | RecordReference | EnumReference

datatype type_context = General | ParameterContext | RecordField bool

fun flexible_allowed :: "type_context \<Rightarrow> bool" where
  "flexible_allowed (RecordField allowed) = allowed"
| "flexible_allowed _ = False"

fun is_record_field :: "type_context \<Rightarrow> bool" where
  "is_record_field (RecordField allowed) = True"
| "is_record_field _ = False"

text \<open>Through the aliases of a type to a pointer; the set of aliases visited cuts cycles.\<close>

lemma fewer_unvisited:
  assumes "map_of ds i = Some d" "i \<notin> visited"
  shows "card (fst ` set ds - insert i visited) < card (fst ` set ds - visited)"
proof -
  have "i \<in> fst ` set ds - visited" using assms by (force dest: map_of_SomeD)
  then show ?thesis by (intro psubset_card_mono) auto
qed

function effectively_pointer_kind :: "(declaration_id \<times> source_declaration) list \<Rightarrow> c_type_kind \<Rightarrow> declaration_id set \<Rightarrow> bool" where
  "effectively_pointer_kind ds kind visited =
     (case kind of
        Pointer _ \<Rightarrow> True
      | AliasRef i \<Rightarrow>
          if i \<in> visited then False
          else (case map_of ds i of
              None \<Rightarrow> False
            | Some d \<Rightarrow>
                (case decl_kind d of
                   TypeAliasDecl target \<Rightarrow> effectively_pointer_kind ds (ty_kind target) (insert i visited)
                 | _ \<Rightarrow> False))
      | _ \<Rightarrow> False)"
  by pat_completeness auto
termination
  by (relation "measure (\<lambda>(ds, kind, visited). card (fst ` set ds - visited))") (simp_all add: fewer_unvisited)

declare effectively_pointer_kind.simps [simp del]

definition type_is_effectively_pointer :: "tables \<Rightarrow> c_type \<Rightarrow> bool" where
  "type_is_effectively_pointer tb ty = effectively_pointer_kind (tb_declarations tb) (ty_kind ty) {}"

fun reference_matches :: "reference_kind \<Rightarrow> source_declaration_kind \<Rightarrow> bool" where
  "reference_matches AliasReference (TypeAliasDecl target) = True"
| "reference_matches RecordReference (RecordDecl r) = True"
| "reference_matches EnumReference (EnumDecl e) = True"
| "reference_matches _ _ = False"

definition declaration_text :: "declaration_id \<Rightarrow> string" where
  "declaration_text i = display_digest ''pdecl1_'' (declaration_bytes i)"

definition validate_reference :: "tables \<Rightarrow> declaration_id \<Rightarrow> reference_kind \<Rightarrow> string \<Rightarrow> checks" where
  "validate_reference tb i kind path =
     (case map_of (tb_declarations tb) i of
        None \<Rightarrow> check False InvalidReference path (''references unknown declaration '' @ declaration_text i)
      | Some d \<Rightarrow> check (reference_matches kind (decl_kind d)) WrongReferenceKind path
          (''declaration '' @ declaration_text i @ '' has the wrong kind for this reference''))"

fun validate_bound :: "array_bound \<Rightarrow> type_context \<Rightarrow> string \<Rightarrow> checks" where
  "validate_bound (FixedBound elements) context path =
     check (elements \<noteq> 0) InvalidType path ''zero array bounds must be represented as invalid or unsupported''"
| "validate_bound (VariableBound expression) context path =
     check (expression \<noteq> []) InvalidType path ''variable array bound expression must be nonempty''"
| "validate_bound (StaticMinimum minimum) context path =
     check (context = ParameterContext) InvalidType path
       ''static minimum bounds are only valid in parameter array declarators'' @
     (case minimum of
        FixedMinimum elements \<Rightarrow> check (elements \<noteq> 0) InvalidType path ''zero static minimum must be represented as invalid''
      | VariableMinimum expression \<Rightarrow>
          check (expression \<noteq> []) InvalidType path ''variable static minimum expression must be nonempty'')"
| "validate_bound FlexibleBound context path =
     check (flexible_allowed context) InvalidType path ''flexible array bounds are only valid on a final struct field''"
| "validate_bound IncompleteBound context path =
     check (\<not> is_record_field context) InvalidType path
       ''an unsized record field must be represented as flexible, not incomplete''"
| "validate_bound (InvalidBound spelling code) context path =
     check (spelling \<noteq> []) InvalidType path ''invalid array bound must retain its source spelling''"

definition validate_array_bound :: "array_bound \<Rightarrow> type_qualifiers \<Rightarrow> type_context \<Rightarrow> string \<Rightarrow> checks" where
  "validate_array_bound bound qualifiers context path =
     check (qualifiers = no_qualifiers \<or> context = ParameterContext) InvalidType (path @ ''.kind.value.parameter_qualifiers'')
       ''array-parameter qualifiers are only valid on a parameter's outer array declarator'' @
     validate_bound bound context (path @ ''.kind.value.bound'')"

definition type_head_checks :: "tables \<Rightarrow> c_type \<Rightarrow> string \<Rightarrow> checks" where
  "type_head_checks tb ty path =
     check (ty_nullability ty = Unspecified \<or> type_is_effectively_pointer tb ty) InvalidType (path @ ''.nullability'')
       ''nullability is only valid on pointer types'' @
     check (\<not> is_restrict (ty_qualifiers ty) \<or> type_is_effectively_pointer tb ty) InvalidType
       (path @ ''.qualifiers.is_restrict'') ''restrict is only valid on pointer types in the contract'' @
     check (\<not> ((case ty_kind ty of UnsupportedKind _ _ \<Rightarrow> True | _ \<Rightarrow> False) \<and> is_supported (ty_support ty))) InvalidType
       (path @ ''.support'') ''unsupported type node cannot have supported status''"

function (sequential)
  validate_type :: "tables \<Rightarrow> nat \<Rightarrow> c_type \<Rightarrow> string \<Rightarrow> nat \<Rightarrow> type_context \<Rightarrow> checks" and
  validate_kind :: "tables \<Rightarrow> nat \<Rightarrow> c_type_kind \<Rightarrow> string \<Rightarrow> nat \<Rightarrow> type_context \<Rightarrow> checks" and
  validate_parameter_types :: "tables \<Rightarrow> nat \<Rightarrow> c_function_parameter list \<Rightarrow> string \<Rightarrow> nat \<Rightarrow> nat \<Rightarrow> checks"
where
  "validate_type tb limit (CType q n k s) path depth context =
     (if limit < depth then check False LimitExceeded path ''C type nesting exceeds decoder limit''
      else type_head_checks tb (CType q n k s) path @ validate_kind tb limit k path depth context)"
| "validate_kind tb limit (Pointer inner) path depth context =
     validate_type tb limit inner (path @ ''.kind.value'') (depth + 1) General"
| "validate_kind tb limit (Array element bound q) path depth context =
     validate_type tb limit element (path @ ''.kind.value.element'') (depth + 1) General @
     validate_array_bound bound q context path"
| "validate_kind tb limit (Function (CFunctionType r ps prototype convention)) path depth context =
     validate_type tb limit r (path @ ''.kind.value.return_type'') (depth + 1) General @
     validate_parameter_types tb limit ps path depth 0"
| "validate_kind tb limit (AliasRef i) path depth context = validate_reference tb i AliasReference path"
| "validate_kind tb limit (RecordRef i) path depth context = validate_reference tb i RecordReference path"
| "validate_kind tb limit (EnumRef i) path depth context = validate_reference tb i EnumReference path"
| "validate_kind tb limit (Contract.Integer i) path depth context =
     check (case i of BitInt s (KnownWidth bits) \<Rightarrow> bits \<noteq> 0 | _ \<Rightarrow> True) InvalidType path
       ''_BitInt width must be positive''"
| "validate_kind tb limit _ path depth context = []"
| "validate_parameter_types tb limit [] path depth i = []"
| "validate_parameter_types tb limit (CFunctionParameter name ty # ps) path depth i =
     validate_type tb limit ty (at_index (path @ ''.kind.value.parameters'') i @ ''.ty'') (depth + 1) ParameterContext @
     validate_parameter_types tb limit ps path depth (Suc i)"
  by pat_completeness auto

termination
  by (relation "measure (\<lambda>x. case x of
    Inl (tb, limit, ty, path, depth, context) \<Rightarrow> size ty
  | Inr (Inl (tb, limit, k, path, depth, context)) \<Rightarrow> size k
  | Inr (Inr (tb, limit, ps, path, depth, i)) \<Rightarrow> size_list size ps)") auto

subsection \<open>Declarations\<close>

type_synonym child_checks = "child_id set \<Rightarrow> checks \<times> child_id set"

text \<open>Checks that pass the set on, followed by checks that do not.\<close>

definition and_check :: "checks \<times> 's \<Rightarrow> checks \<Rightarrow> checks \<times> 's" where
  "and_check r later = (fst r @ later, snd r)"

definition validate_parameter ::
  "validation_parameters \<Rightarrow> tables \<Rightarrow> nat \<Rightarrow> source_declaration \<Rightarrow> string \<Rightarrow> nat \<Rightarrow> source_parameter \<Rightarrow> child_checks" where
  "validate_parameter v tb limit d path index p seen =
     (let here = at_index (path @ ''.kind.value.parameters'') index in
      and_check (validate_parameter_id v (decl_id d) (par_id p) (par_ordinal p) index here seen)
        (validate_range tb (par_range p) (here @ ''.range'') @
         validate_child_range d (par_range p) here @
         validate_provenance tb (par_provenance p) (range_file (par_range p)) here @
         validate_attributes tb (par_attributes p) here @
         validate_type tb limit (par_ty p) (here @ ''.ty'') 0 ParameterContext))"

definition field_context :: "source_record \<Rightarrow> nat \<Rightarrow> type_context" where
  "field_context r index =
     RecordField (rec_kind r = Struct \<and> rec_completeness r = CompleteRecord \<and> 0 < index \<and>
       index + 1 = length (rec_fields r))"

definition validate_field ::
  "validation_parameters \<Rightarrow> tables \<Rightarrow> nat \<Rightarrow> source_declaration \<Rightarrow> source_record \<Rightarrow> string \<Rightarrow> nat \<Rightarrow> source_field \<Rightarrow> child_checks" where
  "validate_field v tb limit d r path index f seen =
     (let here = at_index (path @ ''.kind.value.fields'') index in
      and_check (validate_child_id v (decl_id d) Field (fld_id f) (fld_name f) (fld_tokens f) (fld_ordinal f) here seen)
        (validate_range tb (fld_range f) (here @ ''.range'') @
         validate_child_range d (fld_range f) here @
         validate_provenance tb (fld_provenance f) (range_file (fld_range f)) here @
         validate_attributes tb (fld_attributes f) here @
         validate_type tb limit (fld_ty f) (here @ ''.ty'') 0 (field_context r index)))"

definition validate_variant ::
  "validation_parameters \<Rightarrow> tables \<Rightarrow> source_declaration \<Rightarrow> string \<Rightarrow> nat \<Rightarrow> source_enum_variant \<Rightarrow> child_checks" where
  "validate_variant v tb d path index e seen =
     (let here = at_index (path @ ''.kind.value.variants'') index in
      and_check (validate_child_id v (decl_id d) EnumVariant (var_id e) (Some (var_name e)) (var_tokens e) (var_ordinal e)
          here seen)
        (validate_range tb (var_range e) (here @ ''.range'') @
         validate_child_range d (var_range e) here @
         validate_provenance tb (var_provenance e) (range_file (var_range e)) here @
         validate_attributes tb (var_attributes e) here))"

text \<open>Checks, then checks that pass the set on, then checks.\<close>

definition around :: "checks \<Rightarrow> checks \<times> 's \<Rightarrow> checks \<Rightarrow> checks \<times> 's" where
  "around before r behind = (before @ fst r @ behind, snd r)"

fun is_unsupported_convention :: "calling_convention \<Rightarrow> bool" where
  "is_unsupported_convention (UnsupportedConvention spelling) = True"
| "is_unsupported_convention _ = False"

fun validate_declaration_kind ::
  "validation_parameters \<Rightarrow> tables \<Rightarrow> nat \<Rightarrow> source_declaration \<Rightarrow> string \<Rightarrow> source_declaration_kind \<Rightarrow> child_checks" where
  "validate_declaration_kind v tb limit d path (FunctionDecl f) seen =
     around
       (check (fun_link_name f \<noteq> []) InvalidName (path @ ''.kind.value.link_name'') ''function link name must be nonempty'' @
        validate_type tb limit (fun_return f) (path @ ''.kind.value.return_type'') 0 General @
        check (fun_prototype f \<noteq> UnspecifiedParameters \<or> fun_parameters f = []) InvalidType
          (path @ ''.kind.value.parameters'') ''unspecified-parameter function cannot carry parameter declarations'')
       (check_passing (validate_parameter v tb limit d path) 0 (fun_parameters f) seen)
       (check (\<not> (is_unsupported_convention (fun_convention f) \<and> is_supported (decl_support d))) InvalidType
          (path @ ''.support'') ''unsupported calling convention requires non-supported status'')"
| "validate_declaration_kind v tb limit d path (RecordDecl r) seen =
     around
       (check (rec_completeness r \<noteq> IncompleteRecord \<or> rec_fields r = []) InvalidType (path @ ''.kind.value.fields'')
          ''incomplete record cannot contain fields'')
       (check_passing (validate_field v tb limit d r path) 0 (rec_fields r) seen) []"
| "validate_declaration_kind v tb limit d path (EnumDecl e) seen =
     around
       (case enum_underlying e of
          None \<Rightarrow> []
        | Some underlying \<Rightarrow>
            validate_type tb limit underlying (path @ ''.kind.value.explicit_underlying_type'') 0 General)
       (check_passing (validate_variant v tb d path) 0 (enum_variants e) seen) []"
| "validate_declaration_kind v tb limit d path (TypeAliasDecl target) seen =
     (validate_type tb limit target (path @ ''.kind.value.target'') 0 General, seen)"
| "validate_declaration_kind v tb limit d path (VariableDecl variable) seen =
     (check (vr_link_name variable \<noteq> []) InvalidName (path @ ''.kind.value.link_name'')
        ''variable link name must be nonempty'' @
      validate_type tb limit (vr_ty variable) (path @ ''.kind.value.ty'') 0 General, seen)"
| "validate_declaration_kind v tb limit d path (UnsupportedDecl u) seen =
     (check (\<not> is_supported (decl_support d)) InvalidType (path @ ''.support'')
        ''unsupported declaration cannot have supported status'', seen)"

definition validate_entity_scope :: "tables \<Rightarrow> entity_scope \<Rightarrow> string \<Rightarrow> checks" where
  "validate_entity_scope tb scope path =
     check (case scope of
         TranslationUnit \<Rightarrow> True | ScopeFile file \<Rightarrow> known_file tb file | Owner owner \<Rightarrow> known_declaration tb owner)
       InvalidReference path ''identity scope references an unknown file or owner''"

text \<open>The namespace that a kind belongs to.\<close>

fun kind_namespace :: "source_declaration_kind \<Rightarrow> entity_namespace option" where
  "kind_namespace (RecordDecl _) = Some Tag"
| "kind_namespace (EnumDecl _) = Some Tag"
| "kind_namespace (FunctionDecl _) = Some Ordinary"
| "kind_namespace (TypeAliasDecl _) = Some Ordinary"
| "kind_namespace (VariableDecl _) = Some Ordinary"
| "kind_namespace (UnsupportedDecl _) = None"

text \<open>What is checked once the expected identifier is known.\<close>

definition identity_checks :: "source_declaration \<Rightarrow> string \<Rightarrow> declaration_id \<Rightarrow> checks" where
  "identity_checks d path expected =
     check (expected = decl_id d) InvalidId (path @ ''.id'') ''DeclarationId does not match its identity key'' @
     check (case (kind_namespace (decl_kind d), decl_identity d) of
         (Some expected_namespace, NamedIdentity namespace scope name) \<Rightarrow> namespace = expected_namespace
       | _ \<Rightarrow> True) InvalidId (path @ ''.identity.namespace'') ''identity namespace does not match declaration kind'' @
     check (decl_linkage d \<noteq> InternalLinkage \<or>
         (case decl_identity d of NamedIdentity namespace (ScopeFile file) name \<Rightarrow> True | _ \<Rightarrow> False))
       InvalidId (path @ ''.identity.scope'') ''internal linkage requires file scope identity''"

definition validate_declaration_identity ::
  "validation_parameters \<Rightarrow> tables \<Rightarrow> source_declaration \<Rightarrow> string \<Rightarrow> checks" where
  "validate_declaration_identity v tb d path =
     (case decl_identity d of
        NamedIdentity namespace scope normalized \<Rightarrow>
          (case decl_name d of
             None \<Rightarrow> check False InvalidName (path @ ''.name'') ''named identity requires a source name''
           | Some name \<Rightarrow>
               check (normalize_identifier (vp_nfc v) (nm_normalized name) = Inr (nm_normalized name) \<and>
                   nm_normalized name = normalized \<and> nm_original name \<noteq> [])
                 InvalidName (path @ ''.name'') ''name must be canonical and match the identity key'' @
               validate_entity_scope tb scope (path @ ''.identity.scope'') @
               (case entity_named (vp_hash v) (vp_nfc v) namespace scope normalized of
                  Inr entity \<Rightarrow> identity_checks d path (declaration_from_entity entity)
                | Inl e \<Rightarrow> check False InvalidName (path @ ''.identity.normalized_name'') (vp_id_text v e)))
      | AnonymousIdentity scope token_fingerprint duplicate_ordinal \<Rightarrow>
          check (decl_name d = None) InvalidName (path @ ''.name'') ''anonymous identity cannot carry a declaration name'' @
          validate_entity_scope tb scope (path @ ''.identity.scope'') @
          identity_checks d path (declaration_from_entity
            (entity_anonymous (vp_hash v) scope (content_bytes token_fingerprint) duplicate_ordinal)))"

definition validate_occurrence ::
  "validation_parameters \<Rightarrow> tables \<Rightarrow> source_declaration \<Rightarrow> string \<Rightarrow> nat \<Rightarrow> declaration_occurrence \<Rightarrow>
    occurrence_id set \<Rightarrow> checks \<times> occurrence_id set" where
  "validate_occurrence v tb d path index occ seen =
     (let here = at_index (path @ ''.occurrences'') index; bounds = occ_range occ in
      around
        (validate_range tb bounds (here @ ''.range'') @
         check (range_start bounds \<noteq> range_end bounds) InvalidRange (here @ ''.range'')
           ''declaration occurrence range must be nonempty'' @
         check (occ_spelling occ \<noteq> [] \<and> occ_tokens occ \<noteq> []) InvalidName here
           ''declaration occurrence spelling and normalized tokens must be nonempty'' @
         (case occ_name_range occ of
            None \<Rightarrow> []
          | Some r \<Rightarrow> validate_range tb r (here @ ''.name_range'') @
              check (range_start r \<noteq> range_end r \<and> source_range_contains bounds r) InvalidRange (here @ ''.name_range'')
                ''name range must be nonempty, same-file, and contained in its occurrence'') @
         validate_attributes tb (occ_attributes occ) here @
         validate_provenance tb (occ_provenance occ) (range_file bounds) here)
        (insert_new (occ_id occ) (here @ ''.id'') ''duplicate OccurrenceId'' seen)
        (check (occurrence_derive (vp_hash v) (decl_id d) (range_file bounds) (canonical_tokens_bytes (occ_tokens occ))
             (occ_ordinal occ) = occ_id occ)
           InvalidId (here @ ''.id'') ''OccurrenceId does not match its declaration, file, tokens, and ordinal''))"

definition validate_declaration ::
  "validation_parameters \<Rightarrow> tables \<Rightarrow> nat \<Rightarrow> nat \<Rightarrow> source_declaration \<Rightarrow> child_id set \<times> occurrence_id set \<Rightarrow>
    checks \<times> child_id set \<times> occurrence_id set" where
  "validate_declaration v tb limit index d = (\<lambda>(children, occurrences).
     (let path = at_index ''declarations'' index;
          (vs, occurrences') = around
            (validate_declaration_identity v tb d path @
             check (decl_occurrences d \<noteq> []) InvalidId (path @ ''.occurrences'')
               ''declaration must contain at least one occurrence'' @
             check (strictly_sorted_by_key occ_id (decl_occurrences d)) NonCanonicalOrder (path @ ''.occurrences'')
               ''occurrences must be strictly ordered by OccurrenceId'')
            (check_passing (validate_occurrence v tb d path) 0 (decl_occurrences d) occurrences) [];
          (ws, children') = validate_declaration_kind v tb limit d path (decl_kind d) children
      in (vs @ ws, children', occurrences')))"

definition validate_declarations ::
  "validation_parameters \<Rightarrow> tables \<Rightarrow> nat \<Rightarrow> source_declaration list \<Rightarrow> child_id set \<times> occurrence_id set \<Rightarrow>
    checks \<times> child_id set \<times> occurrence_id set" where
  "validate_declarations v tb limit = check_passing (validate_declaration v tb limit) 0"

subsection \<open>The tables\<close>

definition check_limit :: "string \<Rightarrow> nat \<Rightarrow> nat \<Rightarrow> checks" where
  "check_limit path actual maximum =
     check (actual \<le> maximum) LimitExceeded path
       (''contains '' @ decimal (int actual) @ '' entries; decoder limit is '' @ decimal (int maximum))"

definition validate_file ::
  "validation_parameters \<Rightarrow> nat \<Rightarrow> source_file \<Rightarrow> (file_id \<times> source_file) list \<Rightarrow> checks \<times> (file_id \<times> source_file) list" where
  "validate_file v index file table =
     (let path = at_index ''files'' index in
      (check (map_of table (sf_id file) = None) DuplicateId (path @ ''.id'') ''duplicate FileId'' @
       check (normalize_logical_path (vp_nfc v) (sf_logical_path file) = Inr (sf_logical_path file)) InvalidFile
         (path @ ''.logical_path'') ''logical path is not canonical'' @
       check (file_from_logical_path (vp_hash v) (vp_nfc v) (sf_logical_path file) = Inr (sf_id file)) InvalidId
         (path @ ''.id'') ''FileId does not match logical path'' @
       check (sf_line_starts file \<noteq> [] \<and> hd (sf_line_starts file) = 0 \<and> successively (<) (sf_line_starts file) \<and>
           last (sf_line_starts file) \<le> sf_byte_len file)
         InvalidFile (path @ ''.line_starts'') ''line starts must begin at zero, increase, and remain within the file'',
       AList.update (sf_id file) file table))"

definition validate_files ::
  "validation_parameters \<Rightarrow> source_file list \<Rightarrow> checks \<times> (file_id \<times> source_file) list" where
  "validate_files v files =
     around (check (strictly_sorted_by_key sf_id files) NonCanonicalOrder ''files''
         ''file table must be strictly ordered by FileId'')
       (check_passing (validate_file v) 0 files []) []"

definition table_declaration ::
  "nat \<Rightarrow> source_declaration \<Rightarrow> (declaration_id \<times> source_declaration) list \<Rightarrow>
    checks \<times> (declaration_id \<times> source_declaration) list" where
  "table_declaration index d table =
     (check (map_of table (decl_id d) = None) DuplicateId (at_index ''declarations'' index @ ''.id'')
        ''duplicate DeclarationId'', AList.update (decl_id d) d table)"

definition validate_declaration_table ::
  "source_declaration list \<Rightarrow> checks \<times> (declaration_id \<times> source_declaration) list" where
  "validate_declaration_table ds =
     around (check (strictly_sorted_by_key decl_id ds) NonCanonicalOrder ''declarations''
         ''declaration table must be strictly ordered by DeclarationId'')
       (check_passing table_declaration 0 ds []) []"


subsection \<open>Macros, diagnostics, inputs\<close>

definition validate_macro_occurrence ::
  "validation_parameters \<Rightarrow> tables \<Rightarrow> source_macro \<Rightarrow> string \<Rightarrow> nat \<Rightarrow> macro_occurrence \<Rightarrow> occurrence_id set \<Rightarrow>
    checks \<times> occurrence_id set" where
  "validate_macro_occurrence v tb m path index occ seen =
     (let here = at_index (path @ ''.occurrences'') index; bounds = mocc_range occ in
      around
        (validate_range tb bounds (here @ ''.range'') @
         check (range_start bounds \<noteq> range_end bounds) InvalidRange (here @ ''.range'')
           ''macro occurrence range must be nonempty'' @
         validate_provenance tb (mocc_provenance occ) (range_file bounds) here)
        (insert_new (mocc_id occ) (here @ ''.id'') ''duplicate OccurrenceId'' seen)
        (check (occurrence_derive_macro (vp_hash v) (mac_id m) (range_file bounds) (canonical_tokens_bytes (mocc_tokens occ))
             (mocc_ordinal occ) = mocc_id occ)
           InvalidId (here @ ''.id'') ''macro OccurrenceId does not match its identity inputs''))"

definition validate_macro ::
  "validation_parameters \<Rightarrow> tables \<Rightarrow> nat \<Rightarrow> source_macro \<Rightarrow> macro_id set \<times> occurrence_id set \<Rightarrow>
    checks \<times> macro_id set \<times> occurrence_id set" where
  "validate_macro v tb index m = (\<lambda>(macros, occurrences).
     (let path = at_index ''macros'' index;
          (duplicates, macros') = insert_new (mac_id m) (path @ ''.id'') ''duplicate MacroId'' macros;
          (vs, occurrences') = around
            (check (macro_named (vp_hash v) (vp_nfc v) (mac_identity_file m) (mac_name m) = Inr (mac_id m)) InvalidId
               (path @ ''.id'') ''MacroId does not match identity file and name'' @
             check (known_file tb (mac_identity_file m)) InvalidReference (path @ ''.identity_file'')
               ''macro identity file does not exist'' @
             check (mac_occurrences m \<noteq> []) InvalidId (path @ ''.occurrences'')
               ''macro must contain at least one occurrence'' @
             check (strictly_sorted_by_key mocc_id (mac_occurrences m)) NonCanonicalOrder (path @ ''.occurrences'')
               ''macro occurrences must be strictly ordered by OccurrenceId'')
            (check_passing (validate_macro_occurrence v tb m path) 0 (mac_occurrences m) occurrences) []
      in (duplicates @ vs, macros', occurrences')))"

definition validate_macros ::
  "validation_parameters \<Rightarrow> tables \<Rightarrow> source_macro list \<Rightarrow> occurrence_id set \<Rightarrow> checks" where
  "validate_macros v tb ms occurrences =
     check (strictly_sorted_by_key mac_id ms) NonCanonicalOrder ''macros'' ''macro table must be strictly ordered by MacroId'' @
     fst (check_passing (validate_macro v tb) 0 ms ({}, occurrences))"

definition validate_diagnostic :: "tables \<Rightarrow> target_fingerprint \<Rightarrow> nat \<Rightarrow> source_diagnostic \<Rightarrow> checks" where
  "validate_diagnostic tb target index d =
     (let path = at_index ''diagnostics'' index in
      check (diag_message d \<noteq> []) InvalidName (path @ ''.message'') ''diagnostic message must be nonempty'' @
      check (diag_target d = target) InvalidTarget (path @ ''.target'') ''diagnostic target differs from package target'' @
      (case diag_range d of None \<Rightarrow> [] | Some r \<Rightarrow> validate_range tb r (path @ ''.range'')) @
      check_each (\<lambda>i related. validate_range tb (rel_range related) (at_index (path @ ''.related'') i @ ''.range''))
        0 (diag_related d) @
      check (successively (<) (diag_related d)) NonCanonicalOrder (path @ ''.related'')
        ''related source locations must be strictly ordered and unique'' @
      check (case diag_declaration d of None \<Rightarrow> True | Some i \<Rightarrow> known_declaration tb i) InvalidReference
        (path @ ''.declaration'') ''diagnostic references unknown declaration'')"

definition validate_diagnostics :: "tables \<Rightarrow> target_fingerprint \<Rightarrow> source_diagnostic list \<Rightarrow> checks" where
  "validate_diagnostics tb target ds =
     check (successively (<) ds) NonCanonicalOrder ''diagnostics''
       ''diagnostics must be strictly ordered by their canonical domain fields'' @
     check_each (validate_diagnostic tb target) 0 ds"

fun validate_preprocessor :: "validation_parameters \<Rightarrow> preprocessor_identity \<Rightarrow> checks" where
  "validate_preprocessor v (BuiltinPreprocessor version) =
     check (version \<noteq> [] \<and> safe_text version) InvalidName ''inputs.preprocessor.implementation_version''
       ''builtin preprocessor version must be nonempty safe text''"
| "validate_preprocessor v (ExternalPreprocessor executable content arguments) =
     check (normalize_logical_path (vp_nfc v) executable = Inr executable \<and> safe_text executable) InvalidFile
       ''inputs.preprocessor.executable'' ''external preprocessor executable must be a canonical logical path'' @
     check_each (\<lambda>i argument. check (safe_text argument) InvalidName (at_index ''inputs.preprocessor.arguments'' i)
       ''external preprocessor argument contains a NUL or control character'') 0 arguments"

fun validate_environment :: "validation_parameters \<Rightarrow> environment_inputs \<Rightarrow> checks" where
  "validate_environment v Hermetic = []"
| "validate_environment v (Captured variables) =
     check (successively (\<lambda>a b. env_name a < env_name b) variables) NonCanonicalOrder ''inputs.environment.variables''
       ''captured environment variables must be strictly name-ordered and unique'' @
     check_each (\<lambda>i variable. check (canonical_environment_name v variable) InvalidName
       (at_index ''inputs.environment.variables'' i @ ''.name'')
       (''captured environment name must be nonempty canonical safe text without '='' @ [CHR 0x27])) 0 variables"

fun event_name :: "define_event \<Rightarrow> string" where
  "event_name (DefineEvent name value) = name"
| "event_name (UndefineEvent name) = name"

fun event_value :: "define_event \<Rightarrow> string option" where
  "event_value (DefineEvent name value) = value"
| "event_value (UndefineEvent name) = None"

definition validate_entry_file :: "tables \<Rightarrow> nat \<Rightarrow> file_id \<Rightarrow> checks" where
  "validate_entry_file tb i file =
     (case map_of (tb_files tb) file of
        None \<Rightarrow> check False InvalidReference (at_index ''inputs.entry_files'' i) ''entry file does not exist''
      | Some source \<Rightarrow> check (sf_role source = EntryRole) InvalidFile (at_index ''inputs.entry_files'' i)
          ''entry file list references a non-entry SourceFile'')"

definition validate_inputs ::
  "validation_parameters \<Rightarrow> tables \<Rightarrow> source_file list \<Rightarrow> effective_inputs \<Rightarrow> checks" where
  "validate_inputs v tb files inputs =
     check (in_entry_files inputs \<noteq> []) InvalidFile ''inputs.entry_files'' ''at least one entry file is required'' @
     check (strictly_sorted_by_key id (in_entry_files inputs)) NonCanonicalOrder ''inputs.entry_files''
       ''entry files must be a strictly FileId-ordered set'' @
     check_each (validate_entry_file tb) 0 (in_entry_files inputs) @
     check_each (\<lambda>i source. check (\<not> (sf_role source = EntryRole \<and> binary_search (in_entry_files inputs) (sf_id source) = None))
       InvalidFile (at_index ''files'' i @ ''.role'') ''entry SourceFile is missing from inputs.entry_files'') 0 files @
     check_each (\<lambda>i file. check (known_file tb file) InvalidReference (at_index ''inputs.forced_includes'' i)
       ''forced include does not exist'') 0 (in_forced_includes inputs) @
     check_each (\<lambda>i include. check
       (normalize_logical_path (vp_nfc v) (search_logical_path include) = Inr (search_logical_path include) \<and>
        safe_text (search_logical_path include)) InvalidFile (at_index ''inputs.include_search'' i @ ''.logical_path'')
       ''include path is not canonical'') 0 (in_include_search inputs) @
     check_each (\<lambda>i event.
       check (canonical_c_identifier v (event_name event)) InvalidName (at_index ''inputs.define_events'' i @ ''.name'')
         ''define/undefine name must be a canonical C identifier'' @
       check (case event_value event of None \<Rightarrow> True | Some value \<Rightarrow> safe_text value) InvalidName
         (at_index ''inputs.define_events'' i @ ''.value'') ''define value contains a NUL or control character'')
       0 (in_define_events inputs) @
     validate_preprocessor v (in_preprocessor inputs) @
     validate_environment v (in_environment inputs)"

subsection \<open>Alias cycles\<close>

fun collect_alias_refs :: "c_type \<Rightarrow> declaration_id list"
  and collect_kind_refs :: "c_type_kind \<Rightarrow> declaration_id list"
  and collect_function_refs :: "c_function_type \<Rightarrow> declaration_id list"
  and collect_parameter_refs :: "c_function_parameter \<Rightarrow> declaration_id list" where
  "collect_alias_refs (CType q n k s) = collect_kind_refs k"
| "collect_kind_refs (AliasRef i) = [i]"
| "collect_kind_refs (Pointer t) = collect_alias_refs t"
| "collect_kind_refs (Array t b q) = collect_alias_refs t"
| "collect_kind_refs (Function f) = collect_function_refs f"
| "collect_kind_refs _ = []"
| "collect_function_refs (CFunctionType r ps pt cc) = collect_alias_refs r @ concat (map collect_parameter_refs ps)"
| "collect_parameter_refs (CFunctionParameter n t) = collect_alias_refs t"

type_synonym alias_graph = "(declaration_id \<times> declaration_id list) list"

definition alias_entry :: "source_declaration \<Rightarrow> alias_graph \<Rightarrow> alias_graph" where
  "alias_entry d g = (case decl_kind d of
     TypeAliasDecl target \<Rightarrow> AList.update (decl_id d) (collect_alias_refs target) g | _ \<Rightarrow> g)"

definition alias_graph_of :: "source_declaration list \<Rightarrow> alias_graph" where
  "alias_graph_of ds = fold alias_entry ds []"

text \<open>\<open>graph.get(&id).into_iter().flatten().filter(|next| graph.contains_key(next))\<close>.\<close>

definition alias_successors :: "alias_graph \<Rightarrow> declaration_id \<Rightarrow> declaration_id list" where
  "alias_successors g i =
     filter (\<lambda>next. map_of g next \<noteq> None) (case map_of g i of None \<Rightarrow> [] | Some direct \<Rightarrow> direct)"

lemma fewer_inactive:
  assumes "alias_successors g i \<noteq> []" "i \<notin> active"
  shows "card (fst ` set g - insert i active) < card (fst ` set g - active)"
proof -
  have "map_of g i \<noteq> None" using assms(1) by (auto simp: alias_successors_def split: option.splits)
  then have "i \<in> fst ` set g - active" using assms(2) by (simp add: map_of_eq_None_iff)
  then show ?thesis by (intro psubset_card_mono) auto
qed

text \<open>
  The depth-first search.  \<open>active.remove(&id)\<close> undoes the insertion that succeeded before: a call returns with the set
  that it was called with, so \<open>active\<close> is only passed down; \<open>complete\<close> is passed on.
\<close>

function (sequential)
  alias_cycle :: "alias_graph \<Rightarrow> declaration_id \<Rightarrow> declaration_id set \<Rightarrow> declaration_id set \<Rightarrow> bool \<times> declaration_id set" and
  alias_cycle_any ::
    "alias_graph \<Rightarrow> declaration_id list \<Rightarrow> declaration_id set \<Rightarrow> declaration_id set \<Rightarrow> bool \<times> declaration_id set"
where
  "alias_cycle g i active complete =
     (if i \<in> complete then (False, complete)
      else if i \<in> active then (True, complete)
      else (let (cyclic, complete') = alias_cycle_any g (alias_successors g i) (insert i active) complete
            in (cyclic, insert i complete')))"
| "alias_cycle_any g [] active complete = (False, complete)"
| "alias_cycle_any g (i # ids) active complete =
     (let (cyclic, complete') = alias_cycle g i active complete in
      if cyclic then (True, complete') else alias_cycle_any g ids active complete')"
  by pat_completeness auto
termination
proof (relation "measures [
    \<lambda>x. case x of Inl (g, i, active, complete) \<Rightarrow> card (fst ` set g - active)
      | Inr (g, ids, active, complete) \<Rightarrow> card (fst ` set g - active),
    \<lambda>x. case x of Inl (g, i, active, complete) \<Rightarrow> 1 | Inr (g, ids, active, complete) \<Rightarrow> 2 * length ids]", goal_cases)
  case (2 g i active complete)
  show ?case
  proof (cases "alias_successors g i = []")
    case True
    have "card (fst ` set g - insert i active) \<le> card (fst ` set g - active)" by (rule card_mono) auto
    then show ?thesis using True by auto
  qed (use 2 fewer_inactive in simp)
qed simp_all

declare alias_cycle.simps [simp del]

fun alias_cycles :: "alias_graph \<Rightarrow> declaration_id list \<Rightarrow> declaration_id set \<Rightarrow> checks" where
  "alias_cycles g [] complete = []"
| "alias_cycles g (i # ids) complete =
     (let (cyclic, complete') = alias_cycle g i {} complete in
      check (\<not> cyclic) AliasCycle ''declarations'' (''alias cycle includes '' @ declaration_text i) @
      alias_cycles g ids complete')"

definition validate_alias_cycles :: "validation_parameters \<Rightarrow> source_declaration list \<Rightarrow> checks" where
  "validate_alias_cycles v ds = (let g = alias_graph_of ds in alias_cycles g (vp_key_order v (map fst g)) {})"

subsection \<open>Completeness\<close>

definition validate_reason_order :: "completeness_reason list \<Rightarrow> checks" where
  "validate_reason_order reasons =
     check (successively (<) reasons) NonCanonicalOrder ''completeness.reasons''
       ''completeness reasons must be strictly ordered and unique''"

definition reason_matches :: "completeness_reason \<Rightarrow> source_diagnostic \<Rightarrow> bool" where
  "reason_matches reason d \<longleftrightarrow>
     diag_code d = reason_code reason \<and> diag_message d = reason_message reason \<and> diag_range d = reason_range reason"

definition validate_completeness_correspondence :: "source_diagnostic list \<Rightarrow> completeness_reason list \<Rightarrow> checks" where
  "validate_completeness_correspondence ds reasons =
     check_each (\<lambda>i reason. check (list_ex (\<lambda>d. diag_impact d \<noteq> Informational \<and> reason_matches reason d) ds)
       InvalidCompleteness (at_index ''completeness.reasons'' i)
       ''completeness reason has no exactly matching forcing diagnostic'') 0 reasons @
     check_each (\<lambda>i d. check (\<not> (diag_impact d \<noteq> Informational \<and> \<not> list_ex (\<lambda>reason. reason_matches reason d) reasons))
       InvalidCompleteness (at_index ''diagnostics'' i @ ''.completeness_impact'')
       ''forcing diagnostic has no exactly matching completeness reason'') 0 ds"

text \<open>The diagnostics that a complete package may not have.\<close>

definition forbids_complete :: "source_diagnostic \<Rightarrow> bool" where
  "forbids_complete d \<longleftrightarrow>
     diag_stage d = Recovery \<or> diag_impact d \<noteq> Informational \<or>
     (diag_severity d = Error \<and> diag_stage d \<in> {Configuration, Preprocess, Parse})"

fun validate_completeness :: "source_diagnostic list \<Rightarrow> completeness \<Rightarrow> checks" where
  "validate_completeness ds Complete =
     check (\<not> list_ex forbids_complete ds) InvalidCompleteness ''completeness''
       ''complete package contains recovery, a source-stage error, or a diagnostic that forces incompleteness''"
| "validate_completeness ds (Partial reasons) =
     validate_reason_order reasons @
     check (list_ex (\<lambda>d. diag_impact d = ForcesPartial) ds) InvalidCompleteness ''completeness''
       ''partial completeness requires at least one ForcesPartial diagnostic'' @
     check (\<not> list_ex (\<lambda>d. diag_impact d = ForcesRejected) ds) InvalidCompleteness ''completeness''
       ''a ForcesRejected diagnostic requires rejected completeness'' @
     validate_completeness_correspondence ds reasons"
| "validate_completeness ds (Rejected reasons) =
     validate_reason_order reasons @
     check (list_ex (\<lambda>d. diag_impact d = ForcesRejected) ds) InvalidCompleteness ''completeness''
       ''rejected completeness requires at least one ForcesRejected diagnostic'' @
     validate_completeness_correspondence ds reasons"

subsection \<open>The package\<close>

fun target_checks :: "validation_parameters \<Rightarrow> nat \<Rightarrow> target_violation list \<Rightarrow> checks" where
  "target_checks v i [] = []"
| "target_checks v i (violation # violations) =
     check False InvalidTarget (at_index ''target.violations'' i) (vp_target_text v violation) @
     target_checks v (Suc i) violations"

definition validate :: "validation_parameters \<Rightarrow> validation_limits \<Rightarrow> target_spec source_package \<Rightarrow> checks" where
  "validate v limits p =
     (let (file_checks, files) = validate_files v (pkg_files p);
          (table_checks, declarations) = validate_declaration_table (pkg_declarations p);
          tb = \<lparr>tb_files = files, tb_declarations = declarations\<rparr>;
          (declaration_checks, children, occurrences) =
            validate_declarations v tb (lim_type_depth limits) (pkg_declarations p) ({}, {})
      in check (is_source_package_v2 (pkg_schema p)) SchemaViolation ''schema''
           ''expected the exact PARC source-package schema v2 header'' @
         check_limit ''files'' (length (pkg_files p)) (lim_files limits) @
         check_limit ''declarations'' (length (pkg_declarations p)) (lim_declarations limits) @
         check_limit ''macros'' (length (pkg_macros p)) (lim_macros limits) @
         check_limit ''diagnostics'' (length (pkg_diagnostics p)) (lim_diagnostics limits) @
         target_checks v 0 (target_spec_validate (vp_hash v) (vp_nfc v) (pkg_target p)) @
         file_checks @ table_checks @ declaration_checks @
         validate_macros v tb (pkg_macros p) occurrences @
         validate_diagnostics tb (ts_fingerprint (pkg_target p)) (pkg_diagnostics p) @
         validate_inputs v tb (pkg_files p) (pkg_inputs p) @
         validate_alias_cycles v (pkg_declarations p) @
         validate_completeness (pkg_diagnostics p) (pkg_completeness p))"

definition validate_source_package ::
  "validation_parameters \<Rightarrow> target_spec source_package \<Rightarrow> validation_limits \<Rightarrow> checks + unit" where
  "validate_source_package v p limits =
     (let violations = validate v limits p in
      if violations = [] then Inr ()
      else Inl (sort_key (\<lambda>violation. (viol_path violation, violation_rank (viol_code violation))) violations))"

definition construction_limits :: validation_limits where
  "construction_limits = \<lparr>lim_files = 16384, lim_declarations = 1000000, lim_macros = 1000000,
     lim_diagnostics = 1000000, lim_type_depth = 64\<rparr>"

text \<open>
  \<open>SourcePackage::try_new\<close>.  The fingerprint of the package is computed by the codec: a parameter, which may fail (\<open>None\<close>).
\<close>

datatype package_build_error = ContractError checks | CanonicalError

definition unfingerprinted :: "validation_parameters \<Rightarrow> target_spec source_package_input \<Rightarrow> target_spec source_package" where
  "unfingerprinted v input = source_package_input.extend input
     (source_package.fields source_package_v2
       (SourceFingerprint (derive_fingerprint (vp_hash v) ''follang.parc.source-package-fingerprint.v2'' ''unfingerprinted-source-package'')))"

definition source_package_try_new ::
  "validation_parameters \<Rightarrow> (target_spec source_package \<Rightarrow> source_fingerprint option) \<Rightarrow> target_spec source_package_input \<Rightarrow>
    package_build_error + target_spec source_package" where
  "source_package_try_new v fingerprint input =
     (let p = unfingerprinted v input in
      case validate_source_package v p construction_limits of
        Inl violations \<Rightarrow> Inl (ContractError violations)
      | Inr _ \<Rightarrow> (case fingerprint p of None \<Rightarrow> Inl CanonicalError | Some f \<Rightarrow> Inr (p\<lparr>pkg_fingerprint := f\<rparr>)))"

end
