(* ===== verification/Accepted.thy ===== *)
theory Accepted
  imports Validate Compose
begin

text \<open>
  What the validator accepts.  Alias cycles are exactly the cycles of the alias graph; the references of an accepted package
  resolve, so that its closure never fails; and a projection of an accepted package is accepted again, up to one
  condition on its diagnostics that \<open>retain\<close> does not establish.
\<close>

subsection \<open>The checked operations\<close>

text \<open>\<open>SourcePackage::retain\<close> and \<open>merge\<close>: what \<open>Compose\<close> computes, handed to \<open>SourcePackage::try_new\<close>.\<close>

datatype composition_error = Composing compose_error | InvalidPackage package_build_error

definition checked_package ::
  "validation_parameters \<Rightarrow> (target_spec source_package \<Rightarrow> source_fingerprint option) \<Rightarrow>
    compose_error + target_spec source_package_input \<Rightarrow> composition_error + target_spec source_package" where
  "checked_package v fingerprint composed =
     (case composed of
        Inl e \<Rightarrow> Inl (Composing e)
      | Inr input \<Rightarrow>
          (case source_package_try_new v fingerprint input of
             Inl e \<Rightarrow> Inl (InvalidPackage e)
           | Inr p \<Rightarrow> Inr p))"

definition source_package_retain ::
  "validation_parameters \<Rightarrow> (target_spec source_package \<Rightarrow> source_fingerprint option) \<Rightarrow> target_spec source_package \<Rightarrow>
    selection \<Rightarrow> composition_error + target_spec source_package" where
  "source_package_retain v fingerprint p selection =
     checked_package v fingerprint (retain (source_package_input.truncate p) selection)"

definition source_package_merge ::
  "validation_parameters \<Rightarrow> (target_spec source_package \<Rightarrow> source_fingerprint option) \<Rightarrow> target_spec source_package \<Rightarrow>
    target_spec source_package \<Rightarrow> composition_error + target_spec source_package" where
  "source_package_merge v fingerprint p other =
     checked_package v fingerprint
       (merge_packages (source_package_input.truncate p) (source_package_input.truncate other))"

subsection \<open>Loops of checks\<close>

lemma check_each_Nil_iff: "check_each f i xs = [] \<longleftrightarrow> (\<forall>k < length xs. f (i + k) (xs ! k) = [])"
proof (induction f i xs rule: check_each.induct)
  case (2 f i x xs)
  then show ?case by (auto simp: less_Suc_eq_0_disj)
qed simp

lemma check_each_weaken:
  assumes "check_each f i xs = []" "set ys \<subseteq> set xs"
    and "\<And>k j x. x \<in> set xs \<Longrightarrow> f k x = [] \<Longrightarrow> g j x = []"
  shows "check_each g l ys = []"
proof -
  have "g j x = []" if "x \<in> set ys" for j x
  proof -
    have "x \<in> set xs" using that assms(2) by blast
    then obtain k where "k < length xs" "x = xs ! k" by (auto simp: in_set_conv_nth)
    then show ?thesis using assms(1,3) by (auto simp: check_each_Nil_iff)
  qed
  then show ?thesis by (simp add: check_each_Nil_iff)
qed

lemma check_each_member: "check_each f i xs = [] \<Longrightarrow> x \<in> set xs \<Longrightarrow> \<exists>k. f k x = []"
  by (auto simp: check_each_Nil_iff in_set_conv_nth)

lemma check_passing_Cons:
  "fst (check_passing f i (x # xs) s) = fst (f i x s) @ fst (check_passing f (Suc i) xs (snd (f i x s)))"
  "snd (check_passing f i (x # xs) s) = snd (check_passing f (Suc i) xs (snd (f i x s)))"
  by (simp_all add: case_prod_beta Let_def)

declare check_passing.simps(2) [simp del]
declare check_passing_Cons [simp]

text \<open>Fewer elements, starting from less, are accepted with less in the end.\<close>

lemma check_passing_weaken:
  assumes "fst (check_passing f i xs s) = []" "R t s"
    and "\<And>k j x s t. x \<in> set xs \<Longrightarrow> P x \<Longrightarrow> R t s \<Longrightarrow> fst (f k x s) = [] \<Longrightarrow>
      fst (g j x t) = [] \<and> R (snd (g j x t)) (snd (f k x s))"
    and "\<And>k x s t. x \<in> set xs \<Longrightarrow> R t s \<Longrightarrow> R t (snd (f k x s))"
  shows "fst (check_passing g j (filter P xs) t) = [] \<and>
    R (snd (check_passing g j (filter P xs) t)) (snd (check_passing f i xs s))"
  using assms
proof (induction xs arbitrary: i j s t)
  case (Cons x xs)
  show ?case
  proof (cases "P x")
    case True
    have "fst (f i x s) = []" using Cons.prems(1) by simp
    then have head: "fst (g j x t) = [] \<and> R (snd (g j x t)) (snd (f i x s))"
      using True Cons.prems(2) by (intro Cons.prems(3)) auto
    moreover have "fst (check_passing g (Suc j) (filter P xs) (snd (g j x t))) = [] \<and>
      R (snd (check_passing g (Suc j) (filter P xs) (snd (g j x t)))) (snd (check_passing f (Suc i) xs (snd (f i x s))))"
      using Cons.prems head by (intro Cons.IH) auto
    ultimately show ?thesis using True by simp
  next
    case False
    have "fst (check_passing g j (filter P xs) t) = [] \<and>
      R (snd (check_passing g j (filter P xs) t)) (snd (check_passing f (Suc i) xs (snd (f i x s))))"
      using Cons.prems by (intro Cons.IH) auto
    then show ?thesis using False by simp
  qed
qed simp

text \<open>The same elements at the same places.\<close>

lemma check_passing_same:
  assumes "fst (check_passing f i xs s) = []" "R t s"
    and "\<And>k x s t. x \<in> set xs \<Longrightarrow> R t s \<Longrightarrow> fst (f k x s) = [] \<Longrightarrow>
      fst (g k x t) = [] \<and> R (snd (g k x t)) (snd (f k x s))"
  shows "fst (check_passing g i xs t) = [] \<and> R (snd (check_passing g i xs t)) (snd (check_passing f i xs s))"
  using assms
proof (induction xs arbitrary: i s t)
  case (Cons x xs)
  have "fst (f i x s) = []" using Cons.prems(1) by simp
  then have head: "fst (g i x t) = [] \<and> R (snd (g i x t)) (snd (f i x s))"
    using Cons.prems(2) by (intro Cons.prems(3)) auto
  have "fst (check_passing g (Suc i) xs (snd (g i x t))) = [] \<and>
      R (snd (check_passing g (Suc i) xs (snd (g i x t)))) (snd (check_passing f (Suc i) xs (snd (f i x s))))"
    using Cons.prems head by (intro Cons.IH) auto
  then show ?case using head by simp
qed simp

lemma check_passing_member:
  assumes "fst (check_passing f i xs s) = []" "x \<in> set xs"
  shows "\<exists>k t. fst (f k x t) = []"
  using assms by (induction xs arbitrary: i s) auto

lemma check_passing_grows:
  assumes "\<And>k x s. x \<in> set xs \<Longrightarrow> s \<subseteq> snd (f k x s)"
  shows "s \<subseteq> snd (check_passing f i xs s)"
  using assms
proof (induction xs arbitrary: i s)
  case (Cons x xs)
  have "s \<subseteq> snd (f i x s)" using Cons by simp
  also have "\<dots> \<subseteq> snd (check_passing f (Suc i) xs (snd (f i x s)))" using Cons by simp
  finally show ?case by simp
qed simp

lemma around_simps [simp]: "fst (around a r b) = a @ fst r @ b" "snd (around a r b) = snd r"
  by (simp_all add: around_def)

lemma and_check_simps [simp]: "fst (and_check r b) = fst r @ b" "snd (and_check r b) = snd r"
  by (simp_all add: and_check_def)

lemma insert_new_simps [simp]: "fst (insert_new i path m s) = [] \<longleftrightarrow> i \<notin> s" "snd (insert_new i path m s) = insert i s"
  by (simp_all add: insert_new_def)

subsection \<open>Alias cycles\<close>

definition alias_edges :: "alias_graph \<Rightarrow> (declaration_id \<times> declaration_id) set" where
  "alias_edges g = {(i, j). j \<in> set (alias_successors g i)}"

inductive terminates :: "alias_graph \<Rightarrow> declaration_id \<Rightarrow> bool" for g where
  "(\<And>j. j \<in> set (alias_successors g i) \<Longrightarrow> terminates g j) \<Longrightarrow> terminates g i"

lemma terminates_no_cycle: "terminates g i \<Longrightarrow> (i, i) \<notin> (alias_edges g)\<^sup>+"
proof (induction rule: terminates.induct)
  case (1 i)
  show ?case
  proof
    assume "(i, i) \<in> (alias_edges g)\<^sup>+"
    then obtain j where j: "(i, j) \<in> alias_edges g" "(j, i) \<in> (alias_edges g)\<^sup>*" by (meson tranclD)
    then have "(j, j) \<in> (alias_edges g)\<^sup>+" by (simp add: rtrancl_into_trancl1)
    then show False using 1 j by (auto simp: alias_edges_def)
  qed
qed

text \<open>A search that finds nothing has only completed identifiers from which every path ends.\<close>

lemma alias_cycle_False:
  "\<forall>k \<in> complete. terminates g k \<Longrightarrow> alias_cycle g i active complete = (False, c') \<Longrightarrow>
    terminates g i \<and> (\<forall>k \<in> c'. terminates g k)"
  "\<forall>k \<in> complete. terminates g k \<Longrightarrow> alias_cycle_any g ids active complete = (False, c') \<Longrightarrow>
    (\<forall>k \<in> set ids. terminates g k) \<and> (\<forall>k \<in> c'. terminates g k)"
proof (induction g i active complete and g ids active complete arbitrary: c' and c' rule: alias_cycle_alias_cycle_any.induct)
  case (1 g i active complete)
  show ?case
  proof (cases "i \<in> complete \<or> i \<in> active")
    case True
    then show ?thesis using 1 by (auto simp: alias_cycle.simps [of g i] split: if_splits)
  next
    case False
    then obtain c where c: "alias_cycle_any g (alias_successors g i) (insert i active) complete = (False, c)" "c' = insert i c"
      using 1(3) by (auto simp: alias_cycle.simps [of g i] Let_def split: prod.splits)
    have "(\<forall>k \<in> set (alias_successors g i). terminates g k) \<and> (\<forall>k \<in> c. terminates g k)"
      using 1(1) [OF _ _ 1(2) c(1)] False by simp
    then show ?thesis using c(2) terminates.intros [of g i] by auto
  qed
next
  case (3 g i ids active complete)
  obtain c where c: "alias_cycle g i active complete = (False, c)" "alias_cycle_any g ids active c = (False, c')"
    using 3(4) by (auto simp: Let_def split: prod.splits if_splits)
  then show ?case using 3(1) [OF 3(3) c(1)] 3(2) [OF c(1) [symmetric]] by auto
qed simp

text \<open>A search that reports a cycle is on one.\<close>

lemma alias_cycle_True:
  "fst (alias_cycle g i active complete) \<Longrightarrow> \<forall>a \<in> active. (a, i) \<in> (alias_edges g)\<^sup>+ \<Longrightarrow>
    \<exists>k. (k, k) \<in> (alias_edges g)\<^sup>+"
  "fst (alias_cycle_any g ids active complete) \<Longrightarrow> \<forall>a \<in> active. \<forall>i \<in> set ids. (a, i) \<in> (alias_edges g)\<^sup>+ \<Longrightarrow>
    \<exists>k. (k, k) \<in> (alias_edges g)\<^sup>+"
proof (induction g i active complete and g ids active complete rule: alias_cycle_alias_cycle_any.induct)
  case (1 g i active complete)
  show ?case
  proof (cases "i \<in> complete \<or> i \<in> active")
    case True
    then show ?thesis using 1 by (auto simp: alias_cycle.simps [of g i] split: if_splits)
  next
    case False
    then have "fst (alias_cycle_any g (alias_successors g i) (insert i active) complete)"
      using 1(2) by (simp add: alias_cycle.simps [of g i] case_prod_beta Let_def)
    moreover have "(a, j) \<in> (alias_edges g)\<^sup>+" if "a \<in> insert i active" "j \<in> set (alias_successors g i)" for a j
    proof -
      have "(i, j) \<in> alias_edges g" using that by (simp add: alias_edges_def)
      then show ?thesis using that(1) 1(3) by (auto intro: trancl_into_trancl)
    qed
    ultimately show ?thesis using 1(1) False by blast
  qed
next
  case (3 g i ids active complete)
  then show ?case by (auto simp: Let_def split: prod.splits if_splits)
qed simp

lemma alias_cycles_Nil:
  assumes "alias_cycles g ids complete = []" "\<forall>k \<in> complete. terminates g k"
  shows "\<forall>k \<in> set ids. terminates g k"
  using assms
proof (induction g ids complete rule: alias_cycles.induct)
  case (2 g i ids complete)
  obtain c where "alias_cycle g i {} complete = (False, c)" "alias_cycles g ids c = []"
    using 2(2) by (auto simp: Let_def split: prod.splits)
  then show ?case using 2 alias_cycle_False(1) [of complete g i "{}" c] by auto
qed simp

lemma alias_cycles_not_Nil: "alias_cycles g ids complete \<noteq> [] \<Longrightarrow> \<exists>k. (k, k) \<in> (alias_edges g)\<^sup>+"
proof (induction g ids complete rule: alias_cycles.induct)
  case (2 g i ids complete)
  then show ?case
    using alias_cycle_True(1) [of g i "{}" complete] by (auto simp: Let_def split: prod.splits)
qed simp

lemma alias_edges_keys: "(i, j) \<in> alias_edges g \<Longrightarrow> i \<in> fst ` set g \<and> j \<in> fst ` set g"
  using weak_map_of_SomeI [of i] by (cases "map_of g i"; cases "map_of g j")
    (auto simp: alias_edges_def alias_successors_def dest!: map_of_SomeD intro: rev_image_eqI)

lemma alias_cycles_iff:
  assumes "set ids = fst ` set g"
  shows "alias_cycles g ids {} = [] \<longleftrightarrow> acyclic (alias_edges g)"
proof
  assume nil: "alias_cycles g ids {} = []"
  have "(k, k) \<notin> (alias_edges g)\<^sup>+" for k
  proof
    assume k: "(k, k) \<in> (alias_edges g)\<^sup>+"
    then obtain j where "(k, j) \<in> alias_edges g" by (meson tranclD)
    then have "terminates g k" using alias_cycles_Nil [OF nil] alias_edges_keys assms by blast
    then show False using k terminates_no_cycle by blast
  qed
  then show "acyclic (alias_edges g)" by (simp add: acyclic_def)
next
  assume "acyclic (alias_edges g)"
  then show "alias_cycles g ids {} = []" using alias_cycles_not_Nil [of g ids "{}"] by (auto simp: acyclic_def)
qed

text \<open>The graph of the declarations.\<close>

definition alias_relation :: "source_declaration list \<Rightarrow> (declaration_id \<times> declaration_id) set" where
  "alias_relation ds =
     {(i, j). \<exists>d t e u. d \<in> set ds \<and> decl_id d = i \<and> decl_kind d = TypeAliasDecl t \<and> j \<in> set (collect_alias_refs t) \<and>
        e \<in> set ds \<and> decl_id e = j \<and> decl_kind e = TypeAliasDecl u}"

lemma alias_entry_lookup:
  "map_of (alias_entry d g) i =
     (if decl_id d = i then (case decl_kind d of TypeAliasDecl t \<Rightarrow> Some (collect_alias_refs t) | _ \<Rightarrow> map_of g i)
      else map_of g i)"
  by (auto simp: alias_entry_def update_conv' split: source_declaration_kind.splits)

lemma alias_graph_lookup:
  assumes "distinct (map decl_id ds)" "\<forall>d \<in> set ds. map_of g (decl_id d) = None"
  shows "map_of (fold alias_entry ds g) i = Some ns \<longleftrightarrow>
    map_of g i = Some ns \<or> (\<exists>d t. d \<in> set ds \<and> decl_id d = i \<and> decl_kind d = TypeAliasDecl t \<and> ns = collect_alias_refs t)"
  using assms
proof (induction ds arbitrary: g)
  case (Cons d ds)
  have fresh: "\<forall>e \<in> set ds. map_of (alias_entry d g) (decl_id e) = None"
    using Cons.prems by (auto simp: alias_entry_lookup)
  show ?case
    using Cons.prems Cons.IH [OF _ fresh]
    by (auto simp: alias_entry_lookup split: source_declaration_kind.splits if_splits)
qed simp

lemma alias_edges_relation:
  assumes "distinct (map decl_id ds)"
  shows "alias_edges (alias_graph_of ds) = alias_relation ds"
proof -
  have lookup: "map_of (alias_graph_of ds) i = Some ns \<longleftrightarrow>
      (\<exists>d t. d \<in> set ds \<and> decl_id d = i \<and> decl_kind d = TypeAliasDecl t \<and> ns = collect_alias_refs t)" for i ns
    using alias_graph_lookup [OF assms, of "[]" i ns] by (simp add: alias_graph_of_def)
  have "(i, j) \<in> alias_edges (alias_graph_of ds) \<longleftrightarrow> (i, j) \<in> alias_relation ds" for i j
  proof -
    have "(i, j) \<in> alias_edges (alias_graph_of ds) \<longleftrightarrow>
        (\<exists>ns ms. map_of (alias_graph_of ds) i = Some ns \<and> j \<in> set ns \<and> map_of (alias_graph_of ds) j = Some ms)"
      by (cases "map_of (alias_graph_of ds) i") (auto simp: alias_edges_def alias_successors_def)
    also have "\<dots> \<longleftrightarrow> (i, j) \<in> alias_relation ds"
      unfolding lookup alias_relation_def by blast
    finally show ?thesis .
  qed
  then show ?thesis by auto
qed

lemma validate_alias_cycles_iff:
  assumes "distinct (map decl_id ds)" "\<And>ks. set (vp_key_order v ks) = set ks"
  shows "validate_alias_cycles v ds = [] \<longleftrightarrow> acyclic (alias_relation ds)"
  using alias_cycles_iff [of "vp_key_order v (map fst (alias_graph_of ds))" "alias_graph_of ds"] assms alias_edges_relation
  by (simp add: validate_alias_cycles_def Let_def)

subsection \<open>The tables\<close>

lemma declaration_table_lookup:
  "map_of (snd (check_passing table_declaration k ds t)) i =
     (case find (\<lambda>d. decl_id d = i) (rev ds) of Some d \<Rightarrow> Some d | None \<Rightarrow> map_of t i)"
proof (induction ds arbitrary: k t)
  case (Cons d ds)
  have "find P (xs @ [d]) = (case find P xs of Some x \<Rightarrow> Some x | None \<Rightarrow> if P d then Some d else None)" for P xs
    by (induction xs) auto
  with Cons show ?case by (auto simp: table_declaration_def update_conv' split: option.splits)
qed simp

lemma find_SomeD: "find P xs = Some x \<Longrightarrow> x \<in> set xs \<and> P x"
  by (induction xs) (auto split: if_splits)

lemma declaration_table:
  assumes "fst (validate_declaration_table ds) = []"
  shows "sorted_wrt (<) (map decl_id ds)"
    "map_of (snd (validate_declaration_table ds)) i = Some d \<longleftrightarrow> d \<in> set ds \<and> decl_id d = i"
proof -
  show sorted: "sorted_wrt (<) (map decl_id ds)"
    using assms by (simp add: validate_declaration_table_def strictly_sorted_iff)
  then have inj: "inj_on decl_id (set ds)" by (simp add: strict_sorted_iff distinct_map)
  show "map_of (snd (validate_declaration_table ds)) i = Some d \<longleftrightarrow> d \<in> set ds \<and> decl_id d = i"
  proof (cases "find (\<lambda>d. decl_id d = i) (rev ds)")
    case None
    then show ?thesis by (auto simp: validate_declaration_table_def declaration_table_lookup) (auto simp: find_None_iff)
  next
    case (Some e)
    then show ?thesis
      using find_SomeD [OF Some] inj by (auto simp: validate_declaration_table_def declaration_table_lookup dest: inj_onD)
  qed
qed

subsection \<open>References\<close>

lemma validate_reference_known: "validate_reference tb i kind path = [] \<Longrightarrow> known_declaration tb i"
  by (auto simp: validate_reference_def known_declaration_def split: option.splits)

lemma validate_type_known:
  "validate_type tb limit ty path depth ctx = [] \<Longrightarrow> \<forall>i \<in> set (type_references ty). known_declaration tb i"
  "validate_kind tb limit k path depth ctx = [] \<Longrightarrow> \<forall>i \<in> set (kind_references k). known_declaration tb i"
  "validate_parameter_types tb limit ps path depth m = [] \<Longrightarrow>
    \<forall>i \<in> set (concat (map parameter_references ps)). known_declaration tb i"
proof (induction tb limit ty path depth ctx and tb limit k path depth ctx and tb limit ps path depth m
    rule: validate_type_validate_kind_validate_parameter_types.induct)
  case (1 tb limit q n k s path depth ctx)
  then show ?case by (auto split: if_splits)
qed (auto dest: validate_reference_known)

lemma validate_parameter_known:
  "fst (validate_parameter v tb limit d path k p seen) = [] \<Longrightarrow> \<forall>i \<in> set (type_references (par_ty p)). known_declaration tb i"
  by (auto simp: validate_parameter_def Let_def dest: validate_type_known)

lemma validate_field_known:
  "fst (validate_field v tb limit d r path k f seen) = [] \<Longrightarrow> \<forall>i \<in> set (type_references (fld_ty f)). known_declaration tb i"
  by (auto simp: validate_field_def Let_def dest: validate_type_known)

lemma validate_declaration_kind_known:
  assumes "fst (validate_declaration_kind v tb limit d path kind seen) = []" "i \<in> set (declaration_kind_references kind)"
  shows "known_declaration tb i"
proof (cases kind)
  case (FunctionDecl f)
  have "\<exists>k t. fst (validate_parameter v tb limit d path k p t) = []" if "p \<in> set (fun_parameters f)" for p
    using assms(1) that FunctionDecl by (auto dest: check_passing_member)
  then show ?thesis
    using assms FunctionDecl by (auto dest: validate_parameter_known validate_type_known)
next
  case (RecordDecl r)
  have "\<exists>k t. fst (validate_field v tb limit d r path k f t) = []" if "f \<in> set (rec_fields r)" for f
    using assms(1) that RecordDecl by (auto dest: check_passing_member)
  then show ?thesis using assms(2) RecordDecl by (auto dest: validate_field_known)
next
  case (EnumDecl e)
  then show ?thesis using assms by (auto dest: validate_type_known split: option.splits)
next
  case (TypeAliasDecl t)
  then show ?thesis using assms by (auto dest: validate_type_known)
next
  case (VariableDecl u)
  then show ?thesis using assms by (auto dest: validate_type_known)
next
  case (UnsupportedDecl u)
  then show ?thesis using assms by simp
qed

lemma scope_owner_known: "validate_entity_scope tb scope path = [] \<Longrightarrow> i \<in> set (scope_owner scope) \<Longrightarrow> known_declaration tb i"
  by (cases scope) (auto simp: validate_entity_scope_def scope_owner_def)

lemma identity_owner_known:
  "validate_declaration_identity v tb d path = [] \<Longrightarrow> i \<in> set (identity_owner (decl_identity d)) \<Longrightarrow> known_declaration tb i"
  by (cases "decl_identity d")
    (auto simp: validate_declaration_identity_def scope_owner_known split: option.splits)

lemma fst_validate_declaration:
  "fst (validate_declaration v tb limit k d s) =
     validate_declaration_identity v tb d (at_index ''declarations'' k) @
     check (decl_occurrences d \<noteq> []) InvalidId (at_index ''declarations'' k @ ''.occurrences'')
       ''declaration must contain at least one occurrence'' @
     check (strictly_sorted_by_key occ_id (decl_occurrences d)) NonCanonicalOrder (at_index ''declarations'' k @ ''.occurrences'')
       ''occurrences must be strictly ordered by OccurrenceId'' @
     fst (check_passing (validate_occurrence v tb d (at_index ''declarations'' k)) 0 (decl_occurrences d) (snd s)) @
     fst (validate_declaration_kind v tb limit d (at_index ''declarations'' k) (decl_kind d) (fst s))"
  "snd (validate_declaration v tb limit k d s) =
     (snd (validate_declaration_kind v tb limit d (at_index ''declarations'' k) (decl_kind d) (fst s)),
      snd (check_passing (validate_occurrence v tb d (at_index ''declarations'' k)) 0 (decl_occurrences d) (snd s)))"
  by (simp_all add: validate_declaration_def around_def Let_def case_prod_beta)

lemma validate_declaration_known:
  "fst (validate_declaration v tb limit k d s) = [] \<Longrightarrow> i \<in> set (references d) \<Longrightarrow> known_declaration tb i"
  by (auto simp: fst_validate_declaration references_def dest: identity_owner_known validate_declaration_kind_known)

subsection \<open>Accepted packages\<close>

definition tables_of :: "validation_parameters \<Rightarrow> ('t, 'z) source_package_input_scheme \<Rightarrow> tables" where
  "tables_of v p = \<lparr>tb_files = snd (validate_files v (pkg_files p)),
     tb_declarations = snd (validate_declaration_table (pkg_declarations p))\<rparr>"

lemma tables_of_sel [simp]:
  "tb_files (tables_of v p) = snd (validate_files v (pkg_files p))"
  "tb_declarations (tables_of v p) = snd (validate_declaration_table (pkg_declarations p))"
  by (simp_all add: tables_of_def)

definition declaration_checks ::
  "validation_parameters \<Rightarrow> validation_limits \<Rightarrow> ('t, 'z) source_package_input_scheme \<Rightarrow>
    checks \<times> child_id set \<times> occurrence_id set" where
  "declaration_checks v limits p =
     validate_declarations v (tables_of v p) (lim_type_depth limits) (pkg_declarations p) ({}, {})"

definition within_limits :: "validation_limits \<Rightarrow> ('t, 'z) source_package_input_scheme \<Rightarrow> bool" where
  "within_limits limits p \<longleftrightarrow>
     length (pkg_files p) \<le> lim_files limits \<and> length (pkg_declarations p) \<le> lim_declarations limits \<and>
     length (pkg_macros p) \<le> lim_macros limits \<and> length (pkg_diagnostics p) \<le> lim_diagnostics limits"

lemma target_checks_Nil [simp]: "target_checks v i vs = [] \<longleftrightarrow> vs = []"
  by (cases vs) simp_all

lemma check_limit_Nil [simp]: "check_limit path actual maximum = [] \<longleftrightarrow> actual \<le> maximum"
  by (simp add: check_limit_def)

lemma validate_Nil_iff:
  "validate v limits p = [] \<longleftrightarrow>
     is_source_package_v2 (pkg_schema p) \<and> within_limits limits p \<and>
     target_spec_validate (vp_hash v) (vp_nfc v) (pkg_target p) = [] \<and>
     fst (validate_files v (pkg_files p)) = [] \<and> fst (validate_declaration_table (pkg_declarations p)) = [] \<and>
     fst (declaration_checks v limits p) = [] \<and>
     validate_macros v (tables_of v p) (pkg_macros p) (snd (snd (declaration_checks v limits p))) = [] \<and>
     validate_diagnostics (tables_of v p) (ts_fingerprint (pkg_target p)) (pkg_diagnostics p) = [] \<and>
     validate_inputs v (tables_of v p) (pkg_files p) (pkg_inputs p) = [] \<and>
     validate_alias_cycles v (pkg_declarations p) = [] \<and>
     validate_completeness (pkg_diagnostics p) (pkg_completeness p) = []"
  by (auto simp: validate_def within_limits_def Let_def case_prod_beta declaration_checks_def tables_of_def)

lemma known_declaration_iff:
  "fst (validate_declaration_table (pkg_declarations p)) = [] \<Longrightarrow>
    known_declaration (tables_of v p) i \<longleftrightarrow> i \<in> declared_ids p"
  using declaration_table(2) [of "pkg_declarations p" i] by (auto simp: known_declaration_def declared_ids_def)

lemma accepted_ordered: "validate v limits p = [] \<Longrightarrow> ordered_declarations p"
  by (simp add: validate_Nil_iff ordered_declarations_def declaration_table)

lemma accepted_references:
  assumes "validate v limits p = []" "d \<in> set (pkg_declarations p)"
  shows "set (references d) \<subseteq> declared_ids p"
proof
  fix i assume i: "i \<in> set (references d)"
  have "fst (declaration_checks v limits p) = []" using assms(1) by (simp add: validate_Nil_iff)
  then obtain k s where "fst (validate_declaration v (tables_of v p) (lim_type_depth limits) k d s) = []"
    using assms(2) unfolding declaration_checks_def validate_declarations_def by (blast dest: check_passing_member)
  then show "i \<in> declared_ids p"
    using validate_declaration_known i known_declaration_iff [of p v i] assms(1) by (auto simp: validate_Nil_iff)
qed

text \<open>From roots of the package its closure never fails.\<close>

lemma accepted_closure:
  assumes "validate v limits p = []" "set roots \<subseteq> declared_ids p"
  shows "\<exists>retained. declaration_closure p roots = Inr retained"
proof -
  note ordered = accepted_ordered [OF assms(1)]
  have lookup: "find_declaration p i \<noteq> None \<longleftrightarrow> i \<in> declared_ids p" for i
    using find_declaration_iff [OF ordered, of i] by (force simp: declared_ids_def)
  have "j \<in> declared_ids p" if "(i, j) \<in> (reference_edges p)\<^sup>*" "i \<in> declared_ids p" for i j
    using that(1)
  proof induction
    case (step j k)
    then obtain d where "find_declaration p j = Some d" "k \<in> set (references d)" by (auto simp: reference_edges_def)
    then show ?case
      using accepted_references [OF assms(1), of d] find_declaration_iff [OF ordered, of j d] by blast
  qed (rule that(2))
  then have "reachable p roots \<subseteq> declared_ids p" using assms(2) by (auto simp: reachable_def)
  then have found: "reachable p roots \<subseteq> dom (find_declaration p)" using lookup by blast
  show ?thesis
  proof (cases "declaration_closure p roots")
    case (Inl e)
    then show ?thesis using declaration_closure_reachable [of p roots] found by auto
  qed simp
qed

subsection \<open>Acceptance does not depend on the rest of a package\<close>

text \<open>Two packages agree on a set of identifiers that is closed under references.\<close>

definition agrees :: "declaration_id set \<Rightarrow> tables \<Rightarrow> tables \<Rightarrow> bool" where
  "agrees S tb tb' \<longleftrightarrow> tb_files tb' = tb_files tb \<and>
     (\<forall>i \<in> S. map_of (tb_declarations tb') i = map_of (tb_declarations tb) i) \<and>
     (\<forall>i \<in> S. \<forall>d. map_of (tb_declarations tb) i = Some d \<longrightarrow> set (references d) \<subseteq> S)"

lemma agrees_files: "agrees S tb tb' \<Longrightarrow> tb_files tb' = tb_files tb"
  by (simp add: agrees_def)

lemma agrees_lookup: "agrees S tb tb' \<Longrightarrow> i \<in> S \<Longrightarrow> map_of (tb_declarations tb') i = map_of (tb_declarations tb) i"
  by (simp add: agrees_def)

lemma agrees_closed: "agrees S tb tb' \<Longrightarrow> i \<in> S \<Longrightarrow> map_of (tb_declarations tb) i = Some d \<Longrightarrow> set (references d) \<subseteq> S"
  by (simp add: agrees_def)

lemma range_again: "agrees S tb tb' \<Longrightarrow> validate_range tb r path = [] \<Longrightarrow> validate_range tb' r path' = []"
  by (auto simp: validate_range_def agrees_files split: option.splits)

lemma known_file_again: "agrees S tb tb' \<Longrightarrow> known_file tb' i = known_file tb i"
  by (simp add: known_file_def agrees_files)

lemma attributes_again:
  "agrees S tb tb' \<Longrightarrow> validate_attributes tb as path = [] \<Longrightarrow> validate_attributes tb' as path' = []"
  unfolding validate_attributes_def by (erule check_each_weaken) (auto intro: range_again)

lemma provenance_again:
  assumes "agrees S tb tb'" "validate_provenance tb p anchor path = []"
  shows "validate_provenance tb' p anchor path' = []"
  using assms unfolding validate_provenance_def
  by (auto simp: agrees_files known_file_again split: option.splits
      elim!: check_each_weaken intro: range_again)

lemma pointer_again:
  assumes "agrees S tb tb'" "set (kind_references k) \<subseteq> S"
  shows "effectively_pointer_kind (tb_declarations tb') k visited = effectively_pointer_kind (tb_declarations tb) k visited"
  using assms
proof (induction "tb_declarations tb" k visited rule: effectively_pointer_kind.induct)
  case (1 k visited)
  show ?case
  proof (cases k)
    case (AliasRef i)
    then have i: "i \<in> S" using 1 by simp
    note lookup = agrees_lookup [OF 1(2) i]
    show ?thesis
    proof (cases "map_of (tb_declarations tb) i")
      case (Some d)
      have closed: "set (references d) \<subseteq> S" using agrees_closed [OF 1(2) i Some] .
      show ?thesis
      proof (cases "decl_kind d")
        case (TypeAliasDecl t)
        have "set (kind_references (ty_kind t)) \<subseteq> S"
          using closed TypeAliasDecl by (cases t) (simp add: references_def)
        then show ?thesis
          using 1(1) [OF AliasRef _ Some TypeAliasDecl] 1(2) AliasRef Some TypeAliasDecl lookup
          by (simp add: effectively_pointer_kind.simps [of _ "AliasRef i"])
      qed (use AliasRef Some lookup in \<open>simp_all add: effectively_pointer_kind.simps [of _ "AliasRef i"]\<close>)
    qed (use AliasRef lookup in \<open>simp add: effectively_pointer_kind.simps [of _ "AliasRef i"]\<close>)
  qed (simp_all add: effectively_pointer_kind.simps)
qed

lemma bound_again: "validate_array_bound b q c path = [] \<Longrightarrow> validate_array_bound b q c path' = []"
  by (cases b) (auto simp: validate_array_bound_def split: array_minimum_bound.splits)

lemma reference_again:
  "agrees S tb tb' \<Longrightarrow> i \<in> S \<Longrightarrow> validate_reference tb i kind path = [] \<Longrightarrow> validate_reference tb' i kind path' = []"
  by (auto simp: validate_reference_def agrees_lookup split: option.splits)

lemma type_head_again:
  assumes "agrees S tb tb'" "set (type_references ty) \<subseteq> S" "type_head_checks tb ty path = []"
  shows "type_head_checks tb' ty path' = []"
proof -
  have "set (kind_references (ty_kind ty)) \<subseteq> S" using assms(2) by (cases ty) simp
  then show ?thesis
    using assms(3) pointer_again [OF assms(1)] by (simp add: type_head_checks_def type_is_effectively_pointer_def)
qed

lemma type_again:
  "agrees S tb tb' \<Longrightarrow> set (type_references ty) \<subseteq> S \<Longrightarrow> validate_type tb limit ty path depth ctx = [] \<Longrightarrow>
    validate_type tb' limit ty path' depth ctx = []"
  "agrees S tb tb' \<Longrightarrow> set (kind_references k) \<subseteq> S \<Longrightarrow> validate_kind tb limit k path depth ctx = [] \<Longrightarrow>
    validate_kind tb' limit k path' depth ctx = []"
  "agrees S tb tb' \<Longrightarrow> set (concat (map parameter_references ps)) \<subseteq> S \<Longrightarrow>
    validate_parameter_types tb limit ps path depth m = [] \<Longrightarrow> validate_parameter_types tb' limit ps path' depth m = []"
proof (induction tb limit ty path depth ctx and tb limit k path depth ctx and tb limit ps path depth m
    arbitrary: path' and path' and path' rule: validate_type_validate_kind_validate_parameter_types.induct)
  case (1 tb limit q n k s path depth ctx)
  then show ?case
    using type_head_again [of S tb tb' "CType q n k s" path path'] by (auto split: if_splits)
next
  case (3 tb limit element bound q path depth ctx)
  then show ?case using bound_again by auto
qed (auto intro: reference_again)

lemma child_id_again:
  "fst (validate_child_id v d role i n ts m path s) = [] \<Longrightarrow> t \<subseteq> s \<Longrightarrow>
    fst (validate_child_id v d role i n ts m path' t) = [] \<and>
    snd (validate_child_id v d role i n ts m path' t) \<subseteq> snd (validate_child_id v d role i n ts m path s)"
  by (auto simp: validate_child_id_def insert_new_def Let_def split: option.splits sum.splits)

lemma child_id_grows: "s \<subseteq> snd (validate_child_id v d role i n ts m path s)"
  by (auto simp: validate_child_id_def insert_new_def Let_def)

lemma parameter_id_again:
  "fst (validate_parameter_id v d i m k path s) = [] \<Longrightarrow> t \<subseteq> s \<Longrightarrow>
    fst (validate_parameter_id v d i m k path' t) = [] \<and>
    snd (validate_parameter_id v d i m k path' t) \<subseteq> snd (validate_parameter_id v d i m k path s)"
  by (auto simp: validate_parameter_id_def insert_new_def Let_def)

lemma parameter_id_grows: "s \<subseteq> snd (validate_parameter_id v d i m k path s)"
  by (auto simp: validate_parameter_id_def insert_new_def Let_def)

lemma child_range_again: "validate_child_range d r path = [] \<Longrightarrow> validate_child_range d r path' = []"
  by (simp add: validate_child_range_def)

lemmas again = range_again provenance_again attributes_again type_again(1) child_range_again

lemma parameter_again:
  assumes "agrees S tb tb'" "set (type_references (par_ty p)) \<subseteq> S" "t \<subseteq> s"
    "fst (validate_parameter v tb limit d path k p s) = []"
  shows "fst (validate_parameter v tb' limit d path' k p t) = [] \<and>
    snd (validate_parameter v tb' limit d path' k p t) \<subseteq> snd (validate_parameter v tb limit d path k p s)"
  using assms parameter_id_again [of v "decl_id d" "par_id p" "par_ordinal p" k _ s t]
  by (auto simp: validate_parameter_def Let_def intro: again)

lemma field_again:
  assumes "agrees S tb tb'" "set (type_references (fld_ty f)) \<subseteq> S" "t \<subseteq> s"
    "fst (validate_field v tb limit d r path k f s) = []"
  shows "fst (validate_field v tb' limit d r path' k f t) = [] \<and>
    snd (validate_field v tb' limit d r path' k f t) \<subseteq> snd (validate_field v tb limit d r path k f s)"
  using assms child_id_again [of v "decl_id d" Field "fld_id f" "fld_name f" "fld_tokens f" "fld_ordinal f" _ s t]
  by (auto simp: validate_field_def Let_def intro: again)

lemma variant_again:
  assumes "agrees S tb tb'" "t \<subseteq> s" "fst (validate_variant v tb d path k e s) = []"
  shows "fst (validate_variant v tb' d path' k e t) = [] \<and>
    snd (validate_variant v tb' d path' k e t) \<subseteq> snd (validate_variant v tb d path k e s)"
  using assms child_id_again [of v "decl_id d" EnumVariant "var_id e" "Some (var_name e)" "var_tokens e" "var_ordinal e" _ s t]
  by (auto simp: validate_variant_def Let_def intro: again)

lemma declaration_kind_again:
  assumes "agrees S tb tb'" "set (declaration_kind_references kind) \<subseteq> S" "t \<subseteq> s"
    "fst (validate_declaration_kind v tb limit d path kind s) = []"
  shows "fst (validate_declaration_kind v tb' limit d path' kind t) = [] \<and>
    snd (validate_declaration_kind v tb' limit d path' kind t) \<subseteq> snd (validate_declaration_kind v tb limit d path kind s)"
proof (cases kind)
  case (FunctionDecl f)
  have "fst (check_passing (validate_parameter v tb' limit d path') 0 (fun_parameters f) t) = [] \<and>
    snd (check_passing (validate_parameter v tb' limit d path') 0 (fun_parameters f) t) \<subseteq>
    snd (check_passing (validate_parameter v tb limit d path) 0 (fun_parameters f) s)"
    by (rule check_passing_same [where R = "(\<subseteq>)"], use assms FunctionDecl in simp, rule assms(3),
      rule parameter_again [OF assms(1)]) (use assms(2) FunctionDecl in auto)
  then show ?thesis using assms FunctionDecl by (auto intro: again)
next
  case (RecordDecl r)
  have "fst (check_passing (validate_field v tb' limit d r path') 0 (rec_fields r) t) = [] \<and>
    snd (check_passing (validate_field v tb' limit d r path') 0 (rec_fields r) t) \<subseteq>
    snd (check_passing (validate_field v tb limit d r path) 0 (rec_fields r) s)"
    by (rule check_passing_same [where R = "(\<subseteq>)"], use assms RecordDecl in simp, rule assms(3),
      rule field_again [OF assms(1)]) (use assms(2) RecordDecl in auto)
  then show ?thesis using assms(4) RecordDecl by simp
next
  case (EnumDecl e)
  have "fst (check_passing (validate_variant v tb' d path') 0 (enum_variants e) t) = [] \<and>
    snd (check_passing (validate_variant v tb' d path') 0 (enum_variants e) t) \<subseteq>
    snd (check_passing (validate_variant v tb d path) 0 (enum_variants e) s)"
    by (rule check_passing_same [where R = "(\<subseteq>)"], use assms EnumDecl in simp, rule assms(3),
      rule variant_again [OF assms(1)]) auto
  then show ?thesis using assms EnumDecl by (auto intro: again split: option.splits)
qed (use assms in \<open>auto intro: again\<close>)

lemma scope_again:
  assumes "agrees S tb tb'" "set (scope_owner scope) \<subseteq> S" "validate_entity_scope tb scope path = []"
  shows "validate_entity_scope tb' scope path' = []"
  using assms by (cases scope)
    (auto simp: validate_entity_scope_def known_file_again known_declaration_def agrees_lookup scope_owner_def)

lemma identity_again:
  assumes "agrees S tb tb'" "set (identity_owner (decl_identity d)) \<subseteq> S" "validate_declaration_identity v tb d path = []"
  shows "validate_declaration_identity v tb' d path' = []"
proof (cases "decl_identity d")
  case (NamedIdentity namespace scope n)
  then show ?thesis using assms scope_again [OF assms(1), of scope]
    by (auto simp: validate_declaration_identity_def identity_checks_def split: option.splits sum.splits)
next
  case (AnonymousIdentity scope f k)
  then show ?thesis using assms scope_again [OF assms(1), of scope]
    by (auto simp: validate_declaration_identity_def identity_checks_def)
qed

lemma occurrence_again:
  assumes "agrees S tb tb'" "t \<subseteq> s" "fst (validate_occurrence v tb d path k occ s) = []"
  shows "fst (validate_occurrence v tb' d path' k occ t) = [] \<and>
    snd (validate_occurrence v tb' d path' k occ t) \<subseteq> snd (validate_occurrence v tb d path k occ s)"
  using assms by (auto simp: validate_occurrence_def Let_def intro: again split: option.splits)

text \<open>The two sets of identifiers seen, compared.\<close>

definition seen_less :: "'a set \<times> 'b set \<Rightarrow> 'a set \<times> 'b set \<Rightarrow> bool" where
  "seen_less t s \<longleftrightarrow> fst t \<subseteq> fst s \<and> snd t \<subseteq> snd s"

lemma declaration_again:
  assumes "agrees S tb tb'" "set (references d) \<subseteq> S" "seen_less t s"
    "fst (validate_declaration v tb limit k d s) = []"
  shows "fst (validate_declaration v tb' limit j d t) = [] \<and>
    seen_less (snd (validate_declaration v tb' limit j d t)) (snd (validate_declaration v tb limit k d s))"
proof -
  let ?occ = "\<lambda>tb k. validate_occurrence v tb d (at_index ''declarations'' k)"
  have "fst (check_passing (?occ tb' j) 0 (decl_occurrences d) (snd t)) = [] \<and>
    snd (check_passing (?occ tb' j) 0 (decl_occurrences d) (snd t)) \<subseteq>
    snd (check_passing (?occ tb k) 0 (decl_occurrences d) (snd s))"
    by (rule check_passing_same [where R = "(\<subseteq>)"])
      (use assms occurrence_again [OF assms(1)] in \<open>auto simp: fst_validate_declaration seen_less_def\<close>)
  moreover have "set (declaration_kind_references (decl_kind d)) \<subseteq> S" "set (identity_owner (decl_identity d)) \<subseteq> S"
    using assms(2) by (simp_all add: references_def)
  ultimately show ?thesis
    using assms
      declaration_kind_again [of S tb tb' "decl_kind d" "fst t" "fst s" v limit d "at_index ''declarations'' k"
        "at_index ''declarations'' j"]
      identity_again [of S tb tb' d v "at_index ''declarations'' k" "at_index ''declarations'' j"]
    by (simp add: fst_validate_declaration seen_less_def)
qed

subsection \<open>The parts of a projection\<close>

lemma declaration_grows:
  "seen_less t s \<Longrightarrow> seen_less t (snd (validate_declaration v tb limit k d s))"
proof -
  have "s \<subseteq> snd (validate_declaration_kind v tb limit d path kind s)" for path kind s
    by (cases kind) (auto intro!: check_passing_grows [THEN subsetD]
      simp: validate_parameter_def validate_field_def validate_variant_def Let_def
      dest: parameter_id_grows [THEN subsetD] child_id_grows [THEN subsetD])
  moreover have "s \<subseteq> snd (check_passing (validate_occurrence v tb d path) 0 os s)" for path os s
    by (rule check_passing_grows) (auto simp: validate_occurrence_def Let_def)
  ultimately show "seen_less t s \<Longrightarrow> ?thesis" unfolding seen_less_def fst_validate_declaration by fastforce
qed

lemma macros_again:
  assumes "agrees S tb tb'" "validate_macros v tb ms s = []" "t \<subseteq> s"
  shows "validate_macros v tb' ms t = []"
proof -
  define R :: "macro_id set \<times> occurrence_id set \<Rightarrow> macro_id set \<times> occurrence_id set \<Rightarrow> bool"
    where "R = (\<lambda>a b. fst a = fst b \<and> snd a \<subseteq> snd b)"
  have one: "fst (validate_macro_occurrence v tb' m path k occ b) = [] \<and>
      snd (validate_macro_occurrence v tb' m path k occ b) \<subseteq> snd (validate_macro_occurrence v tb m path k occ a)"
    if "fst (validate_macro_occurrence v tb m path k occ a) = []" "b \<subseteq> a" for m path k occ a b
    using that assms(1) by (auto simp: validate_macro_occurrence_def Let_def intro: again)
  have all: "fst (check_passing (validate_macro_occurrence v tb' m path) 0 os b) = [] \<and>
      snd (check_passing (validate_macro_occurrence v tb' m path) 0 os b) \<subseteq>
      snd (check_passing (validate_macro_occurrence v tb m path) 0 os a)"
    if "fst (check_passing (validate_macro_occurrence v tb m path) 0 os a) = []" "b \<subseteq> a" for m path os a b
    using that by (rule check_passing_same [where R = "(\<subseteq>)"]) (use one in blast)
  have "fst (check_passing (validate_macro v tb') 0 ms ({}, t)) = [] \<and>
    R (snd (check_passing (validate_macro v tb') 0 ms ({}, t))) (snd (check_passing (validate_macro v tb) 0 ms ({}, s)))"
  proof (rule check_passing_same)
    show "fst (check_passing (validate_macro v tb) 0 ms ({}, s)) = []" using assms(2) by (simp add: validate_macros_def)
    show "R ({}, t) ({}, s)" using assms(3) by (simp add: R_def)
    fix k m a b
    assume "R b a" "fst (validate_macro v tb k m a) = []"
    then show "fst (validate_macro v tb' k m b) = [] \<and> R (snd (validate_macro v tb' k m b)) (snd (validate_macro v tb k m a))"
      using all [of m "at_index ''macros'' k" "mac_occurrences m" "snd a" "snd b"]
      by (cases a; cases b)
        (auto simp: R_def validate_macro_def around_def insert_new_def Let_def known_file_again [OF assms(1)]
          split: prod.splits)
  qed
  then show ?thesis using assms(2) by (simp add: validate_macros_def)
qed

lemma diagnostics_again:
  assumes "agrees S tb tb'" "validate_diagnostics tb target ds = []"
  shows "validate_diagnostics tb' target
    (filter (\<lambda>d. case diag_declaration d of None \<Rightarrow> True | Some i \<Rightarrow> i \<in> S) ds) = []"
proof -
  let ?ds = "filter (\<lambda>d. case diag_declaration d of None \<Rightarrow> True | Some i \<Rightarrow> i \<in> S) ds"
  have member: "d \<in> set ?ds \<Longrightarrow> d \<in> set ds" for d by simp
  have sorted: "sorted_wrt (<) ds"
    using assms(2) by (simp add: validate_diagnostics_def successively_conv_sorted_wrt transp_on_less)
  have "validate_diagnostic tb' target j d = []"
    if d: "d \<in> set ?ds" "validate_diagnostic tb target k d = []" for j k d
  proof -
    have "known_declaration tb' i = known_declaration tb i" if "diag_declaration d = Some i" for i
      using d(1) that agrees_lookup [OF assms(1)] by (simp add: known_declaration_def)
    then show ?thesis
      using d(2) assms(1)
      by (auto simp: validate_diagnostic_def Let_def intro: range_again elim!: check_each_weaken split: option.splits)
  qed
  moreover have "\<exists>k. validate_diagnostic tb target k d = []" if "d \<in> set ds" for d
    using assms(2) that unfolding validate_diagnostics_def by (auto dest: check_each_member)
  ultimately have "validate_diagnostic tb' target j d = []" if "d \<in> set ?ds" for j d
    using that member by metis
  then have "check_each (validate_diagnostic tb' target) 0 ?ds = []"
    unfolding check_each_Nil_iff using nth_mem by blast
  then show ?thesis
    using sorted
    by (simp add: validate_diagnostics_def successively_conv_sorted_wrt transp_on_less sorted_wrt_filter)
qed

lemma inputs_again:
  assumes "agrees S tb tb'"
  shows "validate_inputs v tb' files inputs = validate_inputs v tb files inputs"
proof -
  have "validate_entry_file tb' = validate_entry_file tb"
    by (intro ext) (simp add: validate_entry_file_def agrees_files [OF assms])
  then show ?thesis by (simp add: validate_inputs_def known_file_again [OF assms])
qed

lemma declaration_table_sorted:
  assumes "sorted_wrt (<) (map decl_id ds)"
  shows "fst (validate_declaration_table ds) = []"
proof -
  have "fst (check_passing table_declaration k es t) = []"
    if "distinct (map decl_id es)" "\<forall>e \<in> set es. map_of t (decl_id e) = None" for k es t
    using that
  proof (induction es arbitrary: k t)
    case (Cons e es)
    have "decl_id x \<noteq> decl_id e" if "x \<in> set es" for x
      using Cons.prems(1) that by (metis distinct.simps(2) image_eqI list.set_map list.simps(9))
    then have "\<forall>x \<in> set es. map_of (AList.update (decl_id e) e t) (decl_id x) = None"
      using Cons.prems by (simp add: update_conv')
    then show ?case using Cons by (simp add: table_declaration_def)
  qed simp
  then show ?thesis
    using assms by (simp add: validate_declaration_table_def strictly_sorted_iff strict_sorted_iff)
qed

lemma alias_relation_mono: "set es \<subseteq> set ds \<Longrightarrow> alias_relation es \<subseteq> alias_relation ds"
  unfolding alias_relation_def by blast

lemma completeness_from_accepted:
  "validate_completeness ds (completeness_from_diagnostics ds) = [] \<longleftrightarrow>
     \<not> (completeness_from_diagnostics ds = Complete \<and> list_ex forbids_complete ds)"
proof -
  let ?reason = "\<lambda>d. CompletenessReason (diag_code d) (diag_message d) (diag_range d)"
  let ?forcing = "filter (\<lambda>d. diag_impact d \<noteq> Informational) ds"
  let ?reasons = "btree_set (map ?reason ?forcing)"
  have order: "validate_reason_order ?reasons = []"
    by (simp add: validate_reason_order_def successively_conv_sorted_wrt transp_on_less btree_set_sorted)
  have match: "reason_matches r d \<longleftrightarrow> r = ?reason d" for r d
    by (cases r) (auto simp: reason_matches_def)
  have "validate_completeness_correspondence ds ?reasons = []"
    by (auto simp: validate_completeness_correspondence_def check_each_Nil_iff match list_ex_iff dest!: nth_mem)
  moreover have "list_ex (\<lambda>d. diag_impact d = ForcesPartial) ds"
    if "?reasons \<noteq> []" "\<not> list_ex (\<lambda>d. diag_impact d = ForcesRejected) ds"
  proof -
    have "?forcing \<noteq> []" using that(1) by (auto simp: btree_set_def)
    then obtain d where "d \<in> set ds" "diag_impact d \<noteq> Informational" by (auto simp: filter_empty_conv)
    then show ?thesis using that(2) by (cases "diag_impact d") (auto simp: list_ex_iff)
  qed
  ultimately show ?thesis
    using order by (auto simp: completeness_from_diagnostics_def Let_def)
qed

subsection \<open>Projections\<close>

lemma unfingerprinted_sel [simp]:
  "pkg_target (unfingerprinted v q) = pkg_target q" "pkg_files (unfingerprinted v q) = pkg_files q"
  "pkg_inputs (unfingerprinted v q) = pkg_inputs q" "pkg_declarations (unfingerprinted v q) = pkg_declarations q"
  "pkg_macros (unfingerprinted v q) = pkg_macros q" "pkg_diagnostics (unfingerprinted v q) = pkg_diagnostics q"
  "pkg_completeness (unfingerprinted v q) = pkg_completeness q" "pkg_schema (unfingerprinted v q) = source_package_v2"
  by (simp_all add: unfingerprinted_def source_package_input.extend_def source_package.fields_def)

lemma truncate_sel [simp]:
  "pkg_target (source_package_input.truncate p) = pkg_target p" "pkg_files (source_package_input.truncate p) = pkg_files p"
  "pkg_inputs (source_package_input.truncate p) = pkg_inputs p"
  "pkg_declarations (source_package_input.truncate p) = pkg_declarations p"
  "pkg_macros (source_package_input.truncate p) = pkg_macros p"
  "pkg_diagnostics (source_package_input.truncate p) = pkg_diagnostics p"
  "pkg_completeness (source_package_input.truncate p) = pkg_completeness p"
  by (simp_all add: source_package_input.truncate_def)

lemma validate_source_package_iff: "validate_source_package v p limits = Inr () \<longleftrightarrow> validate v limits p = []"
  by (simp add: validate_source_package_def Let_def)

lemma try_new_accepted:
  assumes "source_package_try_new v fingerprint input = Inr p"
  shows "validate v construction_limits p = []" "source_package_input.truncate p = input"
proof -
  obtain f where f: "p = unfingerprinted v input\<lparr>pkg_fingerprint := f\<rparr>"
    "validate_source_package v (unfingerprinted v input) construction_limits = Inr ()"
    using assms by (auto simp: source_package_try_new_def Let_def split: sum.splits option.splits)
  then have "validate v construction_limits (unfingerprinted v input) = []" by (simp add: validate_source_package_iff)
  then show "validate v construction_limits p = []"
    unfolding validate_Nil_iff f(1)
    by (simp add: declaration_checks_def tables_of_def within_limits_def)
  show "source_package_input.truncate p = input"
    by (simp add: f(1) unfingerprinted_def source_package_input.extend_def source_package_input.truncate_def)
qed

lemma same_lookups:
  assumes "fst (validate_declaration_table ds) = []" "sorted_wrt (<) (map decl_id ds)" "i \<in> S"
  shows "map_of (snd (validate_declaration_table (filter (\<lambda>d. decl_id d \<in> S) ds))) i =
    map_of (snd (validate_declaration_table ds)) i"
proof -
  let ?ds = "filter (\<lambda>d. decl_id d \<in> S) ds"
  have "sorted_wrt (<) (map decl_id ?ds)" using assms(2) by (simp add: sorted_wrt_map sorted_wrt_filter)
  then have "fst (validate_declaration_table ?ds) = []" by (rule declaration_table_sorted)
  then have "map_of (snd (validate_declaration_table ?ds)) i = Some d \<longleftrightarrow>
      map_of (snd (validate_declaration_table ds)) i = Some d" for d
    using declaration_table(2) [OF assms(1), of i d] declaration_table(2) [of ?ds i d] assms(3) by auto
  then show ?thesis by (metis not_Some_eq)
qed

lemma projection_Nil_iff:
  assumes accepted: "validate v limits p = []" and retained: "retain (source_package_input.truncate p) selection = Inr q"
    and order: "\<And>ks. set (vp_key_order v ks) = set ks"
  shows "validate v limits (unfingerprinted v q) = [] \<longleftrightarrow>
    \<not> (pkg_completeness q = Complete \<and> list_ex forbids_complete (pkg_diagnostics q))"
proof -
  let ?p = "source_package_input.truncate p" and ?u = "unfingerprinted v q"
  note parts = accepted [unfolded validate_Nil_iff]
  obtain roots ids where closure: "declaration_closure ?p roots = Inr ids"
    and q: "pkg_declarations q = filter (\<lambda>d. decl_id d \<in> set ids) (pkg_declarations p)"
      "pkg_diagnostics q = filter (\<lambda>d. case diag_declaration d of None \<Rightarrow> True | Some i \<Rightarrow> i \<in> set ids) (pkg_diagnostics p)"
      "pkg_completeness q = completeness_from_diagnostics (pkg_diagnostics q)"
      "pkg_target q = pkg_target p" "pkg_files q = pkg_files p" "pkg_inputs q = pkg_inputs p" "pkg_macros q = pkg_macros p"
    using retained by (elim retainD) auto
  have ordered: "ordered_declarations ?p"
    using accepted_ordered [OF accepted] by (simp add: ordered_declarations_def)
  have closed: "set (references d) \<subseteq> set ids" if "d \<in> set (pkg_declarations p)" "decl_id d \<in> set ids" for d
  proof -
    have "find_declaration ?p (decl_id d) = Some d" using find_declaration_iff [OF ordered] that(1) by simp
    from reachable_references [OF this] have "reachable ?p (references d) \<subseteq> reachable ?p [decl_id d]" .
    also have "\<dots> \<subseteq> reachable ?p roots"
      using that(2) closure by (intro reachable_closed) (simp add: declaration_closure_Inr_iff)
    finally show ?thesis
      using roots_reachable [of "references d" ?p] closure by (auto simp: declaration_closure_Inr_iff)
  qed
  have tbl: "fst (validate_declaration_table (pkg_declarations p)) = []" using parts by blast
  note sorted = declaration_table(1) [OF tbl]
  have agree: "agrees (set ids) (tables_of v p) (tables_of v ?u)"
    unfolding agrees_def using same_lookups [OF tbl sorted, where S = "set ids"] declaration_table(2) [OF tbl] closed
    by (simp add: q)
  have "fst (check_passing (validate_declaration v (tables_of v p) (lim_type_depth limits)) 0 (pkg_declarations p) ({}, {})) = []"
    using parts by (simp add: declaration_checks_def validate_declarations_def)
  from check_passing_weaken [OF this, where R = seen_less and t = "({}, {})" and P = "\<lambda>d. decl_id d \<in> set ids"
      and g = "validate_declaration v (tables_of v ?u) (lim_type_depth limits)" and j = 0]
  have "fst (declaration_checks v limits ?u) = [] \<and>
    seen_less (snd (declaration_checks v limits ?u)) (snd (declaration_checks v limits p))"
    unfolding declaration_checks_def validate_declarations_def
    using declaration_again [OF agree] closed declaration_grows by (auto simp: q(1) seen_less_def [of "({}, {})"])
  then have declarations: "fst (declaration_checks v limits ?u) = []"
    and macros: "validate_macros v (tables_of v ?u) (pkg_macros p) (snd (snd (declaration_checks v limits ?u))) = []"
    using macros_again [OF agree] parts by (auto simp: seen_less_def)
  have table': "fst (validate_declaration_table (pkg_declarations q)) = []"
    using sorted by (intro declaration_table_sorted) (simp add: q(1) sorted_wrt_map sorted_wrt_filter)
  have diagnostics: "validate_diagnostics (tables_of v ?u) (ts_fingerprint (pkg_target p)) (pkg_diagnostics q) = []"
    using diagnostics_again [OF agree] parts by (simp add: q(2))
  have aliases: "validate_alias_cycles v (pkg_declarations q) = []"
  proof -
    have distinct: "distinct (map decl_id (pkg_declarations p))" "distinct (map decl_id (pkg_declarations q))"
      using sorted declaration_table(1) [OF table'] by (simp_all add: strict_sorted_iff)
    have "acyclic (alias_relation (pkg_declarations p))"
      using parts validate_alias_cycles_iff [OF distinct(1) order] by blast
    then have "acyclic (alias_relation (pkg_declarations q))"
      by (rule acyclic_subset) (rule alias_relation_mono, simp add: q(1))
    then show ?thesis using validate_alias_cycles_iff [OF distinct(2) order] by blast
  qed
  have limits: "within_limits limits ?u"
    using parts unfolding within_limits_def unfingerprinted_sel q
    by (auto intro: le_trans [OF length_filter_le])
  show ?thesis
    unfolding validate_Nil_iff [of v limits ?u]
    using parts limits declarations macros table' diagnostics aliases inputs_again [OF agree]
      completeness_from_accepted [of "pkg_diagnostics q"]
    by (simp add: q(3-7) source_package_v2_def is_source_package_v2_def)
qed

subsection \<open>A package\<close>

text \<open>
  One file \<open>struct s;\<close> with its opaque record, whose support, diagnostics and completeness vary.  The hash function
  returns the label of what is hashed.
\<close>

definition sample_parameters :: validation_parameters where
  "sample_parameters = \<lparr>vp_hash = (\<lambda>label _. label), vp_nfc = (\<lambda>s. s), vp_alphabetic = (\<lambda>_. True),
     vp_alphanumeric = (\<lambda>_. True), vp_target_text = (\<lambda>_. []), vp_id_text = (\<lambda>_. []), vp_key_order = (\<lambda>ks. ks)\<rparr>"

definition sample_file :: source_file where
  "sample_file = \<lparr>sf_id = FileId ''follang.parc.file-id.v1'', sf_logical_path = ''s.h'', sf_role = EntryRole,
     sf_content = ContentFingerprint [], sf_byte_len = 9, sf_line_starts = [0]\<rparr>"

definition opaque_record :: "support_status \<Rightarrow> source_declaration" where
  "opaque_record support = \<lparr>decl_id = DeclarationId ''follang.parc.entity-id.v1'',
     decl_identity = NamedIdentity Tag TranslationUnit ''s'',
     decl_name = Some \<lparr>nm_normalized = ''s'', nm_original = ''s''\<rparr>, decl_linkage = NoLinkage, decl_visibility = TargetDefault,
     decl_occurrences = [\<lparr>occ_id = OccurrenceId ''follang.parc.occurrence-id.v1'',
       occ_range = SourceRange (sf_id sample_file) 0 8, occ_name_range = Some (SourceRange (sf_id sample_file) 7 8),
       occ_spelling = ''struct s'', occ_tokens = [''struct'', ''s''], occ_ordinal = 0, occ_storage = NoStorage,
       occ_is_definition = False, occ_attributes = [],
       occ_provenance = \<lparr>prov_origin = EntryOrigin, prov_include_chain = [], prov_macro_expansions = []\<rparr>\<rparr>],
     decl_support = support,
     decl_kind = RecordDecl \<lparr>rec_kind = Struct, rec_completeness = IncompleteRecord, rec_fields = [],
       rec_alignment = None, rec_packing = None\<rparr>\<rparr>"

definition sample_spec :: target_spec where
  "sample_spec = from_parts_unchecked (sample_target [])
     (target_fingerprint_derive (vp_hash sample_parameters) (canonical_parts_bytes (sample_target [])))"

definition opaque_package ::
  "support_status \<Rightarrow> source_diagnostic list \<Rightarrow> completeness \<Rightarrow> target_spec source_package_input" where
  "opaque_package support diagnostics completeness = \<lparr>pkg_target = sample_spec, pkg_files = [sample_file],
     pkg_inputs = \<lparr>in_entry_files = [sf_id sample_file], in_include_search = [], in_define_events = [],
       in_forced_includes = [], in_preprocessor = BuiltinPreprocessor ''1'', in_environment = Hermetic,
       in_path_mapping = ContentFingerprint []\<rparr>,
     pkg_declarations = [opaque_record support], pkg_macros = [], pkg_diagnostics = diagnostics,
     pkg_completeness = completeness\<rparr>"

lemma sample_spec_valid:
  "target_spec_validate (vp_hash sample_parameters) (vp_nfc sample_parameters) sample_spec = []"
  by (simp add: target_spec_validate_def sample_spec_def fingerprint_violations_Nil sample_accepted)
    (simp add: sample_parameters_def sample_accepted)

lemma sample_fingerprint: "ts_fingerprint sample_spec = TargetFingerprint ''follang.parc.target-fingerprint.v1''"
  by (simp add: sample_spec_def target_fingerprint_derive_def derive_fingerprint_def finish_def field_def hasher_new_def
      sample_parameters_def)

lemma sample_path: "normalize_logical_path (\<lambda>s. s) ''s.h'' = Inr ''s.h''"
  by code_simp

lemmas label_hash = sample_parameters_def finish_def field_def hasher_new_def

lemma sample_files: "validate_files sample_parameters [sample_file] = ([], [(sf_id sample_file, sample_file)])"
  by (simp add: validate_files_def validate_file_def around_def strictly_sorted_by_key_def check_def sample_path
      file_from_logical_path_def file_id_hasher_def sample_file_def label_hash Let_def)

lemma sample_declarations:
  "validate_declaration_table [opaque_record support] = ([], [(decl_id (opaque_record support), opaque_record support)])"
  by (simp add: validate_declaration_table_def around_def strictly_sorted_by_key_def table_declaration_def)

definition sample_tables :: "support_status \<Rightarrow> tables" where
  "sample_tables support = \<lparr>tb_files = [(sf_id sample_file, sample_file)],
     tb_declarations = [(decl_id (opaque_record support), opaque_record support)]\<rparr>"

lemma sample_declaration_valid:
  "validate_declarations sample_parameters (sample_tables support) 64 [opaque_record support] ({}, {}) =
     ([], {}, {OccurrenceId ''follang.parc.occurrence-id.v1''})"
  by (simp add: check_passing.simps(2) validate_declarations_def validate_declaration_def validate_declaration_identity_def validate_entity_scope_def
      validate_occurrence_def identity_checks_def around_def strictly_sorted_by_key_def check_def opaque_record_def
      sample_tables_def sample_file_def normalize_identifier_def entity_named_def declaration_from_entity_def
      hash_scope_def insert_new_def validate_range_def validate_provenance_def validate_attributes_def
      occurrence_derive_def occurrence_hasher_def source_range_contains_def label_hash Let_def)

lemma sample_inputs_valid:
  "validate_inputs sample_parameters (sample_tables support) [sample_file]
     (pkg_inputs (opaque_package support diagnostics completeness)) = []"
  by code_simp

lemma opaque_accepted:
  "\<exists>p. source_package_try_new sample_parameters (\<lambda>_. Some (SourceFingerprint [])) (opaque_package Supported [] Complete) = Inr p"
proof -
  let ?p = "unfingerprinted sample_parameters (opaque_package Supported [] Complete)"
  have sel: "pkg_target ?p = sample_spec" "pkg_files ?p = [sample_file]" "pkg_declarations ?p = [opaque_record Supported]"
    "pkg_macros ?p = []" "pkg_diagnostics ?p = []" "pkg_completeness ?p = Complete"
    "pkg_inputs ?p = pkg_inputs (opaque_package Supported [] Complete)" "pkg_schema ?p = source_package_v2"
    by (simp_all add: opaque_package_def)
  have tables: "tables_of sample_parameters ?p = sample_tables Supported"
    unfolding tables_of_def sel by (simp add: sample_files sample_declarations sample_tables_def)
  have aliases: "validate_alias_cycles sample_parameters [opaque_record Supported] = []"
    by (simp add: validate_alias_cycles_def alias_graph_of_def alias_entry_def opaque_record_def sample_parameters_def)
  have limits: "within_limits construction_limits ?p"
    unfolding within_limits_def sel by (simp add: construction_limits_def)
  have "validate sample_parameters construction_limits ?p = []"
    unfolding validate_Nil_iff declaration_checks_def tables unfolding sel
    using limits sample_spec_valid sample_inputs_valid [of Supported "[]" Complete]
    by (simp add: sample_files sample_declarations sample_declaration_valid construction_limits_def aliases
      validate_macros_def strictly_sorted_by_key_def validate_diagnostics_def source_package_v2_def is_source_package_v2_def)
  then show ?thesis
    by (simp add: source_package_try_new_def Let_def validate_source_package_def)
qed

lemma opaque_retained:
  "retain (opaque_package Supported [] Complete) AllSupported = Inr (opaque_package Supported [] Complete)"
proof -
  let ?p = "opaque_package Supported [] Complete" and ?i = "decl_id (opaque_record Supported)"
  have declarations: "pkg_declarations ?p = [opaque_record Supported]" by (simp add: opaque_package_def)
  then have found: "find_declaration ?p ?i = Some (opaque_record Supported)"
    by (simp add: find_declaration_iff ordered_declarations_def)
  have "references (opaque_record Supported) = []"
    by (simp add: references_def opaque_record_def scope_owner_def)
  then have "declaration_closure ?p [?i] = Inr [?i]"
    by (simp add: declaration_closure_def found btree_set_id)
  moreover have "is_supported (decl_support (opaque_record Supported))" by (simp add: opaque_record_def is_supported_def)
  ultimately show ?thesis
    by (simp add: retain_def retain_roots_def declarations Let_def completeness_from_diagnostics_def btree_set_def)
      (simp add: opaque_package_def)
qed

subsection \<open>Properties\<close>

text \<open>
  C38: what is accepted is closed.  The declarations of a package that \<open>SourcePackage::try_new\<close> accepts are strictly ordered; every
  declaration that their types or the owners of their scopes name is in the package; no type alias leads back to itself; and the
  closure of any roots of the package succeeds.  Of the order in which a \<open>HashMap\<close> yields its keys only this is assumed, that it
  yields all of them.
\<close>

theorem accepted_package_closed:
  assumes "source_package_try_new v fingerprint input = Inr p" "\<And>ks. set (vp_key_order v ks) = set ks"
  shows "ordered_declarations p \<and> (\<forall>d \<in> set (pkg_declarations p). set (references d) \<subseteq> declared_ids p) \<and>
    acyclic (alias_relation (pkg_declarations p)) \<and>
    (\<forall>roots. set roots \<subseteq> declared_ids p \<longrightarrow> (\<exists>retained. declaration_closure p roots = Inr retained))"
proof (intro conjI ballI allI impI)
  note accepted = try_new_accepted(1) [OF assms(1)]
  show "ordered_declarations p" using accepted by (rule accepted_ordered)
  show "set (references d) \<subseteq> declared_ids p" if "d \<in> set (pkg_declarations p)" for d
    using accepted that by (rule accepted_references)
  show "acyclic (alias_relation (pkg_declarations p))"
  proof -
    have "fst (validate_declaration_table (pkg_declarations p)) = []" "validate_alias_cycles v (pkg_declarations p) = []"
      using accepted by (simp_all add: validate_Nil_iff)
    then show ?thesis
      using validate_alias_cycles_iff [of "pkg_declarations p" v] declaration_table(1) assms(2)
      by (simp add: strict_sorted_iff)
  qed
  show "\<exists>retained. declaration_closure p roots = Inr retained" if "set roots \<subseteq> declared_ids p" for roots
    using accepted that by (rule accepted_closure)
qed

theorem accepted_package_closed_witness:
  "\<exists>p. source_package_try_new sample_parameters (\<lambda>_. Some (SourceFingerprint [])) (opaque_package Supported [] Complete) = Inr p \<and>
    ordered_declarations p \<and> (\<exists>retained. declaration_closure p [decl_id (opaque_record Supported)] = Inr retained)"
proof -
  obtain p where p: "source_package_try_new sample_parameters (\<lambda>_. Some (SourceFingerprint []))
      (opaque_package Supported [] Complete) = Inr p"
    using opaque_accepted by blast
  have "pkg_declarations (source_package_input.truncate p) = [opaque_record Supported]"
    by (simp add: try_new_accepted(2) [OF p] opaque_package_def del: truncate_sel)
  then have "set [decl_id (opaque_record Supported)] \<subseteq> declared_ids p" by (simp add: declared_ids_def)
  moreover have "set (vp_key_order sample_parameters ks) = set ks" for ks by (simp add: sample_parameters_def)
  ultimately show ?thesis using accepted_package_closed [OF p] p by blast
qed

text \<open>
  C40: what a projection of an accepted package can be rejected for.  \<open>retain\<close> makes a new package of the declarations that it
  keeps and validates it.  Of all the checks only one can fail: the projection has become complete, since all forcing
  diagnostics went with the declarations that were not kept, but a diagnostic remains that a complete package may not have.
\<close>

theorem projection_accepted:
  assumes "source_package_try_new v fingerprint input = Inr p" "retain input selection = Inr q"
    and "\<And>ks. set (vp_key_order v ks) = set ks"
  shows "(\<exists>violations. source_package_retain v fingerprint p selection = Inl (InvalidPackage (ContractError violations))) \<longleftrightarrow>
    pkg_completeness q = Complete \<and> list_ex forbids_complete (pkg_diagnostics q)"
proof -
  note new = try_new_accepted [OF assms(1)]
  have retained: "retain (source_package_input.truncate p) selection = Inr q" using assms(2) new(2) by simp
  have "validate v construction_limits (unfingerprinted v q) = [] \<longleftrightarrow>
    \<not> (pkg_completeness q = Complete \<and> list_ex forbids_complete (pkg_diagnostics q))"
    by (rule projection_Nil_iff [OF new(1) retained assms(3)])
  then show ?thesis
    by (auto simp: source_package_retain_def checked_package_def retained source_package_try_new_def Let_def
      validate_source_package_def split: option.splits)
qed

theorem projection_accepted_witness:
  "\<exists>p. source_package_try_new sample_parameters (\<lambda>_. Some (SourceFingerprint [])) (opaque_package Supported [] Complete) = Inr p \<and>
    \<not> (\<exists>violations. source_package_retain sample_parameters (\<lambda>_. Some (SourceFingerprint [])) p AllSupported =
      Inl (InvalidPackage (ContractError violations)))"
proof -
  obtain p where p: "source_package_try_new sample_parameters (\<lambda>_. Some (SourceFingerprint []))
      (opaque_package Supported [] Complete) = Inr p"
    using opaque_accepted by blast
  have "set (vp_key_order sample_parameters ks) = set ks" for ks by (simp add: sample_parameters_def)
  note exact = projection_accepted [OF p opaque_retained this]
  have "pkg_diagnostics (opaque_package Supported [] Complete) = []" by (simp add: opaque_package_def)
  then show ?thesis using p exact by auto
qed

end
