(* ===== verification/Spec2Isabelle.thy ===== *)
theory Spec2Isabelle
  imports Expr_Grammar Include Complete Literals Parsing Extracted Accepted
begin

text \<open>
  A verification development for \<open>parc\<close>, a C header scanner written in Rust.  All paths are relative to
  \<open>src/src\<close>.

  \<^bold>\<open>The program and its parts.\<close>  A scan takes one C header.  The preprocessor (\<open>preprocess/\<close>) tokenizes the text, executes
  its directives, resolves includes and expands macros.  The parser (\<open>parser/\<close>, generated-style packrat code with
  a symbol table in \<open>env.rs\<close>) reads the preprocessed text into the syntax tree of \<open>ast/\<close>; its resilient entry point
  skips what it cannot read.  The extraction (\<open>extract/\<close>) lowers the tree to the declarations of a source package (\<open>contract/\<close>),
  with identifiers that are hashes of canonical encodings and with a diagnostic for whatever is not fully modelled.  Packages are
  projected, merged, and proved complete for a selection of declarations.  Each part only uses those named before it, and the theories
  follow the same order.

  \<^bold>\<open>Prelude.\<close>  \<open>Prelude\<close> fixes the conventions: a Rust string is the list of its UTF-8 bytes, a function that can panic or
  not return has a value of type \<open>outcome\<close> (\<open>Ok\<close>, \<open>Panic\<close>, \<open>NoReturn\<close>), an error that the code returns is the left
  side of a sum.  Integers that can overflow are \<open>int\<close> with the bounds or the wrap-around of their width written out (or words,
  in \<open>Target\<close>); a parameter \<open>chk\<close> says whether overflow checks are compiled in.  One counter only wraps, the nesting depth of
  argument collection in \<open>Macros\<close>, whose theorem bounds the tokens below.  \<open>Digits\<close> has numbers in a radix.

  \<^bold>\<open>Preprocessor.\<close>
    \<^item> \<open>Tokens\<close>, \<open>Lexer\<close>: \<open>token.rs\<close>, \<open>lexer.rs\<close>; tokenizing loses no text, token classes, final \<open>Eof\<close>.
    \<^item> \<open>Macros\<close>: \<open>macros.rs\<close>; the table (locale \<open>string_map\<close>), argument collection, substitution, \<open>#\<close> and \<open>##\<close>, expansion with a
      paint set; what collection accepts, and that expansion is complete and idempotent without recursion.
    \<^item> \<open>Expr\<close>: \<open>expr.rs\<close>; the evaluator of \<open>#if\<close>, its levels as instances of the locale \<open>binary_level\<close>.  \<open>Expr_Grammar\<close> has an
      independent grammar with values, and proves that the evaluator computes them.
    \<^item> \<open>Directive\<close>: \<open>directive.rs\<close>; the parser of directive lines, round trips, and the one loop that may not end.
    \<^item> \<open>Processor\<close>: \<open>processor.rs\<close>; the walk over the tokens with its stack of conditionals, over an abstract include handler
      (locales \<open>table_handler\<close>, \<open>returning_handler\<close>, \<open>evolving_handler\<close>); the abstract reading of conditional groups that it refines.
    \<^item> \<open>Include\<close>: \<open>include.rs\<close>; search, guards, once-files and the cache over an abstract file system, as an instance of those
      locales; the recursion through includes is indexed by the levels that the depth limit leaves, which is enough.

  \<^bold>\<open>Parser.\<close>
    \<^item> \<open>Ast\<close>, \<open>Env\<close>: \<open>ast/\<close>, \<open>span.rs\<close>; \<open>env.rs\<close>, \<open>strings.rs\<close>, \<open>astutil.rs\<close>.
    \<^item> \<open>Peg\<close>: the shapes of the parser's code (sequence, choice, repetition, look-ahead, memoization) as combinators with one
      soundness lemma each.  \<open>Grammar_Lexical\<close>, \<open>Grammar_Types\<close>, \<open>Grammar_Expr\<close>, \<open>Grammar_Decl\<close>, \<open>Grammar_Stmt\<close>: every
      rule of \<open>parser/*.rs\<close>, in the order and with the actions of the code.
    \<^item> \<open>Parser\<close>: the recursive knot and the entry points of \<open>public_api.rs\<close>.  The rules call each other through a
      record that is iterated as often as the text has bytes plus one: a recursive call is made with less text, so this
      is enough, and \<open>parser_returns\<close> shows that no entry point runs out.
    \<^item> \<open>Runs\<close>, \<open>Literals\<close>, \<open>Parsing\<close>: what the rules read, integer constants from their spelling, the return of all entry points, and
      the resilient parser: it covers the whole text and agrees with the strict one.  Its depth counters are \<open>i32\<close>, so
      texts are shorter than 2 GiB there.

  \<^bold>\<open>Contract.\<close>
    \<^item> \<open>Ids\<close>: \<open>canonical.rs\<close>, \<open>ids.rs\<close>, \<open>exact_integer.rs\<close>, \<open>paths.rs\<close>; encodings are injective, so two entities with one
      identifier are equal or the hash collides.  BLAKE3 and Unicode NFC are parameters.
    \<^item> \<open>Contract\<close>, \<open>Package\<close>: the data of packages and selections.  \<open>Complete\<close>: \<open>complete.rs\<close> and the abstract condition that it
      decides.  \<open>Compose\<close>: \<open>compose.rs\<close>; projection is closed, merging commutes (locales \<open>keyed_join\<close>,
      \<open>commuting_join\<close>).
    \<^item> \<open>Target\<close>: \<open>target.rs\<close>; targets, their validation and fingerprints.
    \<^item> \<open>Validate\<close>: \<open>validate.rs\<close> and the constructor of \<open>package.rs\<close>; every check is the list of violations that it reports.
      \<open>Accepted\<close>: the whole of \<open>retain\<close> and \<open>merge\<close>; alias cycles are found exactly, acceptance does not depend on the rest of a
      package, accepted packages are closed, and what their projections can be rejected for.  The fingerprint that the codec
      computes, the Unicode tables, the texts of the errors of other modules and the order of a \<open>HashMap\<close> are parameters.

  \<^bold>\<open>Extraction.\<close>
    \<^item> \<open>Evaluate\<close>: constant expressions of \<open>extract/types.rs\<close>; exact evaluation against what C computes.
    \<^item> \<open>Resolve\<close>: the type resolver of \<open>extract/types.rs\<close>.  \<open>Declared\<close>: types written as declarators are read back.
    \<^item> \<open>Extract\<close>: \<open>extract/mod.rs\<close>; both passes and the end, as functions that pass the extractor on.  A typedef behind a cast in an
      enumerator is followed 64 times, as in the code.
    \<^item> \<open>Lowering\<close>: the methods of the second pass as sequences of the steps of \<open>lower_step\<close>, the invariants of the steps, and what the
      first pass indexes.  \<open>Extracted\<close>: what holds of the output, and one declaration extracted in full.

  \<^bold>\<open>Not modelled.\<close>  The visitors (\<open>visit/\<close>, default traversals) and the debug printer (\<open>print.rs\<close>); the built-in headers and
  predefined macros (tables of text); source locations in preprocessed text and the parse driver (\<open>loc.rs\<close>, \<open>parse.rs\<close>,
  \<open>driver.rs\<close>: processes and files); the JSON codec and the reports (\<open>contract/codec.rs\<close>, \<open>wire/\<close>, \<open>corpus.rs\<close>,
  \<open>report.rs\<close>, which rest on serde); the orchestration of scans and the tracing of
  provenance (\<open>scan/\<close>: processes, files, paths of the host); tests.  \<open>Display\<close>, \<open>Debug\<close> and accessor
  implementations are left out throughout.
\<close>

end
